(* ===== verification/Prelude.thy ===== *)
theory Prelude
  imports Complex_Main "HOL-Library.Word" "HOL-Library.Char_ord" "HOL-Library.List_Lexorder"
    "HOL-Library.State_Monad" "HOL-Library.Multiset"
begin

text \<open>
  What every component of the development shares: the Go types and the part of Go's standard
  library the sources use (strings, strconv, sort, errors), the effect type of code that
  talks to the outside world, and the generic lemmas the component proofs rest on.

  \<^item> Go strings are byte strings: \<open>string\<close> (a char list, 8 bits per char). The case
    conversions of \<^verbatim>\<open>strings.ToLower\<close> and \<^verbatim>\<open>strings.ToUpper\<close> are the ASCII ones: bytes
    outside A..Z and a..z are left alone.
  \<^item> \<open>uint64\<close> and \<open>uint32\<close> are words. \<open>int\<close> and \<open>int32\<close> values are \<open>int\<close>, with the
    conversion to 32 bits written out where the code converts.
  \<^item> \<open>sort.Slice\<close> is Go's insertion sort, which is what it runs on at most twelve elements;
    beyond twelve Go leaves the order of ties open and the model is one admissible outcome.
  \<^item> Code with effects is a state transformer over a world \<open>'w\<close> that the model never
    inspects: a value of \<open>('w, 'a) io\<close> returns an error or a result, and the next world.
\<close>

section \<open>Collections of facts\<close>

named_theorems go_str \<open>unfolding of the string functions\<close>
named_theorems io_unfold \<open>unfolding of the effectful operations\<close>
named_theorems triple_rules \<open>triples of the operations a component calls\<close>

section \<open>Integers\<close>

type_synonym u64 = "64 word"
type_synonym u32 = "32 word"

definition to_int32 :: "int \<Rightarrow> int" where
  "to_int32 i = (i + 2 ^ 31) mod 2 ^ 32 - 2 ^ 31"

lemma to_int32_id: "- (2 ^ 31) \<le> i \<Longrightarrow> i < 2 ^ 31 \<Longrightarrow> to_int32 i = i"
  by (simp add: to_int32_def)

section \<open>Strings\<close>

definition HasPrefix :: "string \<Rightarrow> string \<Rightarrow> bool" where
  "HasPrefix s p \<longleftrightarrow> take (length p) s = p"

definition HasSuffix :: "string \<Rightarrow> string \<Rightarrow> bool" where
  "HasSuffix s p \<longleftrightarrow> length p \<le> length s \<and> drop (length s - length p) s = p"

definition TrimPrefix :: "string \<Rightarrow> string \<Rightarrow> string" where
  "TrimPrefix s p = (if HasPrefix s p then drop (length p) s else s)"

definition TrimSuffix :: "string \<Rightarrow> string \<Rightarrow> string" where
  "TrimSuffix s p = (if HasSuffix s p then take (length s - length p) s else s)"

text \<open>\<^verbatim>\<open>strings.Index\<close>: the first position of a substring, -1 when there is none.\<close>

fun strings_Index :: "string \<Rightarrow> string \<Rightarrow> int" where
  "strings_Index [] sub = (if sub = [] then 0 else -1)"
| "strings_Index (c # cs) sub =
     (if HasPrefix (c # cs) sub then 0
      else let i = strings_Index cs sub in if i < 0 then -1 else i + 1)"

definition Contains :: "string \<Rightarrow> string \<Rightarrow> bool" where
  "Contains s sub \<longleftrightarrow> 0 \<le> strings_Index s sub"

text \<open>Cutting a string at every byte that satisfies a predicate; \<^verbatim>\<open>strings.Split\<close> at a
  one-byte separator and \<^verbatim>\<open>strings.Fields\<close> are instances.\<close>

fun split_by :: "(char \<Rightarrow> bool) \<Rightarrow> string \<Rightarrow> string list" where
  "split_by p [] = [[]]"
| "split_by p (c # cs) =
     (if p c then [] # split_by p cs
      else case split_by p cs of [] \<Rightarrow> [[c]] | w # ws \<Rightarrow> (c # w) # ws)"

definition strings_Split :: "string \<Rightarrow> char \<Rightarrow> string list" where
  "strings_Split s c = split_by (\<lambda>x. x = c) s"

definition is_space :: "char \<Rightarrow> bool" where
  "is_space c \<longleftrightarrow> c \<in> {CHR 0x09, CHR 0x0A, CHR 0x0B, CHR 0x0C, CHR 0x0D, CHR '' ''}"

definition strings_Fields :: "string \<Rightarrow> string list" where
  "strings_Fields s = filter (\<lambda>w. w \<noteq> []) (split_by is_space s)"

primrec strings_SplitN :: "nat \<Rightarrow> string \<Rightarrow> char \<Rightarrow> string list" where
  "strings_SplitN 0 s c = []"
| "strings_SplitN (Suc n) s c =
     (if n = 0 \<or> c \<notin> set s then [s]
      else takeWhile (\<lambda>x. x \<noteq> c) s # strings_SplitN n (tl (dropWhile (\<lambda>x. x \<noteq> c) s)) c)"

fun strings_Join :: "string list \<Rightarrow> string \<Rightarrow> string" where
  "strings_Join [] sep = []"
| "strings_Join [x] sep = x"
| "strings_Join (x # y # zs) sep = x @ sep @ strings_Join (y # zs) sep"

definition ascii_lower :: "char \<Rightarrow> char" where
  "ascii_lower c =
     (let n = (of_char c :: nat) in if 65 \<le> n \<and> n \<le> 90 then char_of (n + 32) else c)"

definition ascii_upper :: "char \<Rightarrow> char" where
  "ascii_upper c =
     (let n = (of_char c :: nat) in if 97 \<le> n \<and> n \<le> 122 then char_of (n - 32) else c)"

definition ToLower :: "string \<Rightarrow> string" where
  "ToLower s = map ascii_lower s"

definition ToUpper :: "string \<Rightarrow> string" where
  "ToUpper s = map ascii_upper s"

text \<open>\<^verbatim>\<open>strconv.Itoa\<close> and the \<^verbatim>\<open>%d\<close> verb.\<close>

fun digits :: "nat \<Rightarrow> string" where
  "digits n = (if n < 10 then [char_of (48 + n)] else digits (n div 10) @ [char_of (48 + n mod 10)])"

declare digits.simps [simp del]

definition Itoa :: "int \<Rightarrow> string" where
  "Itoa i = (if i < 0 then CHR ''-'' # digits (nat (- i)) else digits (nat i))"

text \<open>The \<^verbatim>\<open>%q\<close> verb on a string that has nothing to escape.\<close>

definition quoted :: "string \<Rightarrow> string" where
  "quoted s = CHR 0x22 # s @ [CHR 0x22]"

text \<open>The multi-byte literals of the sources in UTF-8: em dash, right arrow, greater-or-equal
  sign, middle dot.\<close>

definition em_dash :: string where "em_dash = [CHR 0xE2, CHR 0x80, CHR 0x94]"
definition arrow_right :: string where "arrow_right = [CHR 0xE2, CHR 0x86, CHR 0x92]"
definition geq_sign :: string where "geq_sign = [CHR 0xE2, CHR 0x89, CHR 0xA5]"
definition mid_dot :: string where "mid_dot = [CHR 0xC2, CHR 0xB7]"

lemmas [go_str] = HasPrefix_def HasSuffix_def TrimPrefix_def TrimSuffix_def Contains_def
  strings_Split_def is_space_def strings_Fields_def ascii_lower_def ascii_upper_def ToLower_def
  ToUpper_def Itoa_def em_dash_def arrow_right_def geq_sign_def mid_dot_def

lemma length_ToUpper [simp]: "length (ToUpper s) = length s"
  by (simp add: ToUpper_def)

lemma length_ToLower [simp]: "length (ToLower s) = length s"
  by (simp add: ToLower_def)

lemma split_by_not_Nil [simp]: "split_by p s \<noteq> []"
  by (induction s) (auto split: list.splits)

lemma strings_Index_bounds: "-1 \<le> strings_Index s sub"
  by (induction s) (auto simp: Let_def)

lemma strings_Index_found:
  "0 \<le> strings_Index s sub \<Longrightarrow> HasPrefix (drop (nat (strings_Index s sub)) s) sub"
proof (induction s)
  case Nil
  then show ?case by (simp add: HasPrefix_def split: if_splits)
next
  case (Cons c cs)
  then show ?case
    by (auto simp: Let_def nat_add_distrib split: if_splits)
qed

lemma strings_Index_le_length: "strings_Index s sub \<le> int (length s)"
  by (induction s) (auto simp: Let_def)

section \<open>Errors\<close>

text \<open>
  A Go error value: a typed domain error (code and message), an error the model only knows by
  its text, and an error wrapped by \<^verbatim>\<open>fmt.Errorf\<close> with the verb \<^verbatim>\<open>%w\<close>. A panic is not an error
  value of Go; the model carries it in the same place because it ends a call early too. The
  handlers return gRPC status errors, with the number of their status code and their text.
\<close>

datatype go_error =
    DErr string string
  | ErrStr string
  | Wrap string go_error string
  | Panic string
  | Status nat string

fun error_text :: "go_error \<Rightarrow> string" where
  "error_text (DErr c m) = c @ '': '' @ m"
| "error_text (ErrStr s) = s"
| "error_text (Wrap p e q) = p @ error_text e @ q"
| "error_text (Panic s) = s"
| "error_text (Status c s) = s"

fun errors_As :: "go_error \<Rightarrow> (string \<times> string) option" where
  "errors_As (DErr c m) = Some (c, m)"
| "errors_As (ErrStr s) = None"
| "errors_As (Wrap p e q) = errors_As e"
| "errors_As (Panic s) = None"
| "errors_As (Status c s) = None"

fun errors_Is :: "go_error \<Rightarrow> go_error \<Rightarrow> bool" where
  "errors_Is (DErr c m) t = (DErr c m = t)"
| "errors_Is (ErrStr s) t = (ErrStr s = t)"
| "errors_Is (Wrap p e q) t = (Wrap p e q = t \<or> errors_Is e t)"
| "errors_Is (Panic s) t = False"
| "errors_Is (Status c s) t = (Status c s = t)"

section \<open>Effects\<close>

type_synonym ('w, 'a) io = "('w, go_error + 'a) state"

abbreviation io_ok :: "'a \<Rightarrow> ('w, 'a) io" where
  "io_ok x \<equiv> State_Monad.return (Inr x)"

abbreviation io_err :: "go_error \<Rightarrow> ('w, 'a) io" where
  "io_err e \<equiv> State_Monad.return (Inl e)"

text \<open>
  The shape \<^verbatim>\<open>x, err := m; if err != nil { return err }; f(x)\<close>, the same with the error wrapped by
  \<^verbatim>\<open>fmt.Errorf("pre%w", err)\<close> first, and a call whose error is dropped. A panic unwinds past a
  wrapping.
\<close>

definition wrap_error :: "string \<Rightarrow> go_error \<Rightarrow> string \<Rightarrow> go_error" where
  "wrap_error p e q = (case e of Panic s \<Rightarrow> Panic s | _ \<Rightarrow> Wrap p e q)"

text \<open>A domain error as such: not wrapped.\<close>

definition domain_error :: "go_error \<Rightarrow> bool" where
  "domain_error e = (case e of DErr _ _ \<Rightarrow> True | _ \<Rightarrow> False)"

lemma domain_error_wrap [simp]: "\<not> domain_error (wrap_error p e q)"
  by (simp add: domain_error_def wrap_error_def split: go_error.split)

lemma domain_error_simps [simp]:
  "domain_error (DErr c m)" "\<not> domain_error (ErrStr s)" "\<not> domain_error (Wrap p e q)"
  "\<not> domain_error (Panic s)" "\<not> domain_error (Status n s)"
  by (simp_all add: domain_error_def)

definition io_bind :: "('w, 'a) io \<Rightarrow> ('a \<Rightarrow> ('w, 'b) io) \<Rightarrow> ('w, 'b) io" where
  "io_bind m f = State_Monad.bind m (\<lambda>r. case r of Inl e \<Rightarrow> io_err e | Inr x \<Rightarrow> f x)"

definition io_wrap :: "string \<Rightarrow> ('w, 'a) io \<Rightarrow> ('w, 'a) io" where
  "io_wrap pre m = State_Monad.bind m
     (\<lambda>r. case r of Inl e \<Rightarrow> io_err (wrap_error pre e []) | Inr x \<Rightarrow> io_ok x)"

definition io_ignore :: "('w, 'a) state \<Rightarrow> ('w, 'b) state \<Rightarrow> ('w, 'b) state" where
  "io_ignore m n = State_Monad.bind m (\<lambda>_. n)"

lemma io_bind_ok [simp]: "io_bind (io_ok x) f = f x"
  by (simp add: io_bind_def)

lemma io_bind_assoc: "io_bind (io_bind m f) g = io_bind m (\<lambda>x. io_bind (f x) g)"
proof -
  have "(\<lambda>r. State_Monad.bind (case r of Inl e \<Rightarrow> io_err e | Inr x \<Rightarrow> f x)
          (\<lambda>r. case r of Inl e \<Rightarrow> io_err e | Inr x \<Rightarrow> g x)) =
      (\<lambda>r. case r of Inl e \<Rightarrow> io_err e
          | Inr x \<Rightarrow> State_Monad.bind (f x) (\<lambda>r. case r of Inl e \<Rightarrow> io_err e | Inr x \<Rightarrow> g x))"
    by (rule ext) (simp split: sum.split)
  then show ?thesis by (simp add: io_bind_def)
qed

lemma run_io_bind:
  "run_state (io_bind m f) w =
     (case run_state m w of (Inl e, w') \<Rightarrow> (Inl e, w') | (Inr x, w') \<Rightarrow> run_state (f x) w')"
  by (auto simp: io_bind_def split: prod.splits sum.splits)

lemma run_io_wrap:
  "run_state (io_wrap pre m) w =
     (case run_state m w of (Inl e, w') \<Rightarrow> (Inl (wrap_error pre e []), w') | (Inr x, w') \<Rightarrow> (Inr x, w'))"
  by (auto simp: io_wrap_def split: prod.splits sum.splits)

lemma run_io_ignore:
  "run_state (io_ignore m n) w = run_state n (snd (run_state m w))"
  by (auto simp: io_ignore_def split: prod.splits)

lemmas [io_unfold] = run_io_bind run_io_wrap run_io_ignore

text \<open>
  Partial-correctness triples for state transformers, which always terminate: from a world with
  \<open>P\<close> the operation ends in a result and a world with \<open>Q\<close>. The rules run backwards from the
  postcondition; the triples of the operations a component calls are collected in
  \<open>triple_rules\<close>.
\<close>

definition triple :: "('w \<Rightarrow> bool) \<Rightarrow> ('w, 'a) state \<Rightarrow> ('a \<Rightarrow> 'w \<Rightarrow> bool) \<Rightarrow> bool" where
  "triple P m Q \<longleftrightarrow> (\<forall>w r w'. P w \<longrightarrow> run_state m w = (r, w') \<longrightarrow> Q r w')"

lemma tripleI: "(\<And>w r w'. P w \<Longrightarrow> run_state m w = (r, w') \<Longrightarrow> Q r w') \<Longrightarrow> triple P m Q"
  by (simp add: triple_def)

lemma tripleD: "triple P m Q \<Longrightarrow> run_state m w = (r, w') \<Longrightarrow> P w \<Longrightarrow> Q r w'"
  by (simp add: triple_def)

lemma triple_return: "(\<And>w. P w \<Longrightarrow> Q x w) \<Longrightarrow> triple P (State_Monad.return x) Q"
  by (simp add: triple_def)

lemma triple_bind:
  assumes "triple P m R" and "\<And>x. triple (R x) (f x) Q"
  shows "triple P (State_Monad.bind m f) Q"
proof (rule tripleI)
  fix w r w' assume "P w" and "run_state (State_Monad.bind m f) w = (r, w')"
  then obtain x w1 where "run_state m w = (x, w1)" and "run_state (f x) w1 = (r, w')"
    by (auto simp: run_state_bind split: prod.splits)
  with assms \<open>P w\<close> show "Q r w'" by (metis tripleD)
qed

lemma triple_weaken:
  assumes "triple P' m Q'" and "\<And>w. P w \<Longrightarrow> P' w" and "\<And>r w. Q' r w \<Longrightarrow> Q r w"
  shows "triple P m Q"
  using assms unfolding triple_def by metis

lemma triple_False: "(\<And>w. \<not> P w) \<Longrightarrow> triple P m Q"
  by (simp add: triple_def)

lemma triple_io_bind:
  assumes "triple P m (\<lambda>r w. case r of Inl e \<Rightarrow> Q (Inl e) w | Inr x \<Rightarrow> R x w)"
    and "\<And>x. triple (R x) (f x) Q"
  shows "triple P (io_bind m f) Q"
  unfolding io_bind_def
proof (rule triple_bind [OF assms(1)])
  fix r show "triple (\<lambda>w. case r of Inl e \<Rightarrow> Q (Inl e) w | Inr x \<Rightarrow> R x w)
      (case r of Inl e \<Rightarrow> io_err e | Inr x \<Rightarrow> f x) Q"
    by (cases r) (auto intro: triple_return assms(2))
qed

lemma triple_io_wrap:
  assumes "triple P m (\<lambda>r w. case r of Inl e \<Rightarrow> Q (Inl (wrap_error pre e [])) w | Inr x \<Rightarrow> Q (Inr x) w)"
  shows "triple P (io_wrap pre m) Q"
  unfolding io_wrap_def
  by (rule triple_bind [OF assms]) (auto intro: triple_return split: sum.split)

lemma triple_io_ignore:
  assumes "triple P m (\<lambda>_. R)" and "triple R n Q"
  shows "triple P (io_ignore m n) Q"
  unfolding io_ignore_def by (rule triple_bind [OF assms(1)]) (rule assms(2))

text \<open>An operation keeps an observation of the world when it never changes it.\<close>

definition keeps :: "('w \<Rightarrow> 'v) \<Rightarrow> ('w, 'a) state \<Rightarrow> bool" where
  "keeps obs m \<longleftrightarrow> (\<forall>w r w'. run_state m w = (r, w') \<longrightarrow> obs w' = obs w)"

lemma keepsD: "keeps obs m \<Longrightarrow> run_state m w = (r, w') \<Longrightarrow> obs w' = obs w"
  by (simp add: keeps_def)

lemma keeps_return [intro, simp]: "keeps obs (State_Monad.return x)"
  by (simp add: keeps_def)

lemma keeps_bind [intro]:
  assumes "keeps obs m" and "\<And>x. keeps obs (f x)"
  shows "keeps obs (State_Monad.bind m f)"
proof -
  have "obs w' = obs w" if "run_state (State_Monad.bind m f) w = (r, w')" for w r w'
  proof -
    from that obtain x w1 where "run_state m w = (x, w1)" and "run_state (f x) w1 = (r, w')"
      by (auto simp: run_state_bind split: prod.splits)
    with assms show ?thesis by (metis keepsD)
  qed
  then show ?thesis by (simp add: keeps_def)
qed

lemma triple_keeps: "keeps obs m \<Longrightarrow> triple (\<lambda>w. P (obs w)) m (\<lambda>r w. P (obs w))"
  by (auto simp: triple_def dest: keepsD)

section \<open>Lists and sorting\<close>

lemma find_SomeD: "find P xs = Some x \<Longrightarrow> x \<in> set xs \<and> P x"
  by (auto simp: find_Some_iff)

text \<open>\<^verbatim>\<open>sort.Slice\<close> with a strict order \<open>lt\<close>: insertion from the left, moving an element
  down past the elements it is lt than.\<close>

fun insert_down :: "('a \<Rightarrow> 'a \<Rightarrow> bool) \<Rightarrow> 'a \<Rightarrow> 'a list \<Rightarrow> 'a list" where
  "insert_down lt x [] = [x]"
| "insert_down lt x (y # ys) = (if lt x y then x # y # ys else y # insert_down lt x ys)"

definition sort_slice :: "('a \<Rightarrow> 'a \<Rightarrow> bool) \<Rightarrow> 'a list \<Rightarrow> 'a list" where
  "sort_slice lt xs = fold (insert_down lt) xs []"

lemma mset_insert_down [simp]: "mset (insert_down lt x ys) = add_mset x (mset ys)"
  by (induction ys) auto

lemma mset_fold_insert_down: "mset (fold (insert_down lt) xs acc) = mset xs + mset acc"
  by (induction xs arbitrary: acc) auto

lemma mset_sort_slice [simp]: "mset (sort_slice lt xs) = mset xs"
  by (simp add: sort_slice_def mset_fold_insert_down)

lemma set_sort_slice [simp]: "set (sort_slice lt xs) = set xs"
  using mset_eq_setD [OF mset_sort_slice] .

lemma length_sort_slice [simp]: "length (sort_slice lt xs) = length xs"
  using mset_eq_length [OF mset_sort_slice] .

lemma sorted_wrt_insert_down:
  assumes tot: "\<And>a b c. lt a b \<Longrightarrow> \<not> lt c b \<Longrightarrow> \<not> lt c a"
    and asym: "\<And>a b. lt a b \<Longrightarrow> \<not> lt b a"
  shows "sorted_wrt (\<lambda>a b. \<not> lt b a) ys \<Longrightarrow> sorted_wrt (\<lambda>a b. \<not> lt b a) (insert_down lt x ys)"
proof (induction ys)
  case Nil
  then show ?case by simp
next
  case (Cons y ys)
  have set_ins: "set (insert_down lt x ys) = insert x (set ys)"
    using mset_insert_down [of lt x ys] by (metis set_mset_add_mset_insert set_mset_mset)
  from Cons show ?case
    by (auto simp: set_ins dest: tot asym)
qed

lemma sorted_sort_slice:
  assumes tot: "\<And>a b c. lt a b \<Longrightarrow> \<not> lt c b \<Longrightarrow> \<not> lt c a"
    and asym: "\<And>a b. lt a b \<Longrightarrow> \<not> lt b a"
  shows "sorted_wrt (\<lambda>a b. \<not> lt b a) (sort_slice lt xs)"
proof -
  have "sorted_wrt (\<lambda>a b. \<not> lt b a) acc \<Longrightarrow>
      sorted_wrt (\<lambda>a b. \<not> lt b a) (fold (insert_down lt) xs acc)" for acc
  proof (induction xs arbitrary: acc)
    case Nil
    then show ?case by simp
  next
    case (Cons x xs)
    from sorted_wrt_insert_down [OF tot asym Cons.prems]
    have "sorted_wrt (\<lambda>a b. \<not> lt b a) (insert_down lt x acc)" .
    then show ?case by (simp add: Cons.IH)
  qed
  then show ?thesis by (simp add: sort_slice_def)
qed

end
