(* ===== verification/Prism_Messages.thy ===== *)
theory Prism_Messages
  imports Prelude
begin

text \<open>
  The protobuf messages the services exchange and store
  (\<^verbatim>\<open>protobuf/proto/milton_prism/types\<close>): the migration types, the shared migrability types and
  the analysis summary. The domain packages of the services alias the generated Go structs, so
  these records are the domain types too.

  \<^item> A message is a record; a field that holds a message is an \<open>option\<close> (\<^verbatim>\<open>nil\<close> is \<open>None\<close>), a
    repeated field a list, a map field an association list, and an \<^verbatim>\<open>optional\<close> scalar an
    \<open>option\<close>. Field names carry a short prefix of their message.
  \<^item> An enum is a datatype with the constructors of the proto and one more for the numbers
    proto3 leaves open.
  \<^item> A \<open>double\<close> is a rational number, a timestamp its number of milliseconds.
\<close>

type_synonym Timestamp = int
type_synonym string_map = "(string \<times> string) list"

section \<open>Enums\<close>

datatype MigrationState =
    MIGRATION_STATE_UNSPECIFIED
  | MIGRATION_STATE_PENDING
  | MIGRATION_STATE_ANALYZING
  | MIGRATION_STATE_DESIGNING
  | MIGRATION_STATE_AWAITING_APPROVAL
  | MIGRATION_STATE_GENERATING
  | MIGRATION_STATE_TESTING
  | MIGRATION_STATE_READY
  | MIGRATION_STATE_PUSHED
  | MIGRATION_STATE_FAILED
  | MIGRATION_STATE_CANCELLED
  | MIGRATION_STATE_RESTRUCTURING_READY
  | MIGRATION_STATE_OTHER int

datatype TargetLanguage =
    TARGET_LANGUAGE_UNSPECIFIED | TARGET_LANGUAGE_GO | TARGET_LANGUAGE_RUST
  | TARGET_LANGUAGE_PYTHON | TARGET_LANGUAGE_OTHER int

datatype TargetDatabase =
    TARGET_DATABASE_UNSPECIFIED | TARGET_DATABASE_MONGODB | TARGET_DATABASE_POSTGRES
  | TARGET_DATABASE_MARIADB | TARGET_DATABASE_OTHER int

datatype Transport =
    TRANSPORT_UNSPECIFIED | TRANSPORT_GRPC | TRANSPORT_HTTP | TRANSPORT_NATS | TRANSPORT_OTHER int

datatype OutputTarget =
    OUTPUT_TARGET_UNSPECIFIED | OUTPUT_TARGET_NEW_BRANCH | OUTPUT_TARGET_NEW_REPOSITORY
  | OUTPUT_TARGET_OTHER int

datatype AnalysisState =
    ANALYSIS_STATE_UNSPECIFIED | ANALYSIS_STATE_RUNNING | ANALYSIS_STATE_COMPLETED
  | ANALYSIS_STATE_FAILED | ANALYSIS_STATE_OTHER int

datatype ScoreBand =
    SCORE_BAND_UNSPECIFIED | SCORE_BAND_GOOD | SCORE_BAND_MEDIUM | SCORE_BAND_BAD

section \<open>Migrability\<close>

record ScoreSignal =
  sig_Signal :: string
  sig_Penalty :: int
  sig_Detail :: string
  sig_Modules :: "string list"
  sig_DetailKey :: string
  sig_DetailParams :: string_map

record StructuralFinding =
  sf_Kind :: string
  sf_Severity :: string
  sf_TitleKey :: string
  sf_Params :: string_map
  sf_Modules :: "string list"

record TypedBlocker =
  tb_BlockerKey :: string
  tb_Params :: string_map

record TypedRecommendation =
  tr_RecKey :: string
  tr_Params :: string_map

record MigrabilityScore =
  ms_Value :: int
  ms_Signals :: "ScoreSignal list"
  ms_StructuralVerdict :: string
  ms_ScoreBand :: ScoreBand
  ms_StructuralFindings :: "StructuralFinding list"
  ms_TypedBlockers :: "TypedBlocker list"

record MigrabilityAssessment =
  ma_Verdict :: string
  ma_Summary :: string
  ma_Reasons :: "string list"
  ma_Blockers :: "string list"
  ma_Confidence :: string
  ma_CostUsd :: rat
  ma_AssessedTime :: "Timestamp option"
  ma_MigrabilityScore :: "int option"
  ma_ScoreSignals :: "ScoreSignal list"
  ma_TypedRecommendations :: "TypedRecommendation list"
  ma_AssessmentLanguage :: string

section \<open>Migrations\<close>

record TargetConfig =
  tc_Language :: TargetLanguage
  tc_Database :: TargetDatabase
  tc_InterServiceTransport :: Transport
  tc_UseApiGateway :: bool

record CrossServiceFk =
  fk_OwnerService :: string
  fk_Field :: string
  fk_RefTable :: string
  fk_RefService :: string
  fk_RefResource :: string
  fk_OwnerMessage :: string

record ProposedService =
  ps_Name :: string
  ps_ErrorPrefix :: string
  ps_OwnedResources :: "string list"
  ps_InterServiceDeps :: "string list"
  ps_CrossServiceFks :: "CrossServiceFk list"

record OperationalCoupling =
  oc_FromService :: string
  oc_ToService :: string
  oc_SourceModule :: string

record CandidateGrouping =
  cg_Name :: string
  cg_Modules :: "string list"
  cg_Responsibilities :: "string list"
  cg_Confidence :: string

record RestructureRecommendation =
  rr_Kind :: string
  rr_Subject :: string
  rr_Action :: string
  rr_Blocking :: bool

record RestructurePlan =
  rp_Services :: "ProposedService list"
  rp_Rationale :: string
  rp_OperationalCouplings :: "OperationalCoupling list"
  rp_IsLowConfidence :: bool
  rp_NoServiceBoundaries :: bool
  rp_BoundariesExplanation :: string
  rp_CandidateGroupings :: "CandidateGrouping list"
  rp_RestructureRecommendations :: "RestructureRecommendation list"
  rp_PartitionModularity :: rat

record MigrationOutput =
  mo_OutputTarget :: OutputTarget
  mo_BranchName :: string
  mo_NewRepositoryUrl :: string

record ServiceGenerationRecord =
  gr_ServiceName :: string
  gr_Status :: string
  gr_GatesPassed :: bool
  gr_FailureReason :: string
  gr_TotalCostUsd :: rat
  gr_GeneratedFileCount :: int
  gr_AgentRawResult :: string

record RoadmapDiagnosis =
  rd_Verdict :: string
  rd_Summary :: string
  rd_MigrabilityScore :: "int option"
  rd_Confidence :: string
  rd_Blockers :: "string list"

record StructuralProblem =
  sp_Signal :: string
  sp_Penalty :: int
  sp_Detail :: string

record ActionItem =
  ai_Kind :: string
  ai_Subject :: string
  ai_Action :: string
  ai_Blocking :: bool
  ai_Impact :: int
  ai_Order :: int
  ai_DependsOnStep :: int

record EnrichedStep =
  es_StepOrder :: int
  es_Narrative :: string

record RoadmapEnrichment =
  re_Steps :: "EnrichedStep list"
  re_CostUsd :: rat
  re_EnrichedTime :: "Timestamp option"

record BlueprintService =
  bs_Name :: string
  bs_Modules :: "string list"
  bs_Rationale :: string

record ServiceBlueprint =
  sb_Services :: "BlueprintService list"
  sb_IsHypothetical :: bool
  sb_PreconditionNote :: string
  sb_RequiredSteps :: "int list"
  sb_CostUsd :: rat
  sb_GeneratedTime :: "Timestamp option"
  sb_ConfidenceNote :: string

record RestructuringRoadmap =
  rm_Diagnosis :: "RoadmapDiagnosis option"
  rm_StructuralProblems :: "StructuralProblem list"
  rm_ActionPlan :: "ActionItem list"
  rm_BoundariesExplanation :: string
  rm_GeneratedTime :: "Timestamp option"
  rm_Enrichment :: "RoadmapEnrichment option"
  rm_Blueprint :: "ServiceBlueprint option"

record Migration =
  mig_Identifier :: u64
  mig_RepositoryId :: u64
  mig_OwnerUserId :: u64
  mig_SourceBranch :: string
  mig_State :: MigrationState
  mig_Target :: "TargetConfig option"
  mig_AnalysisSummaryId :: u64
  mig_Plan :: "RestructurePlan option"
  mig_Output :: "MigrationOutput option"
  mig_GenerationRecords :: "ServiceGenerationRecord list"
  mig_CreateTime :: "Timestamp option"
  mig_UpdateTime :: "Timestamp option"
  mig_DeleteTime :: "Timestamp option"
  mig_PurgeTime :: "Timestamp option"
  mig_FailureReason :: string
  mig_RepositoryUrl :: string
  mig_MigrabilityAssessment :: "MigrabilityAssessment option"
  mig_MigrabilityOverride :: bool
  mig_AnalysisReused :: bool
  mig_RestructuringRoadmap :: "RestructuringRoadmap option"
  mig_SourceAnalysisSummaryId :: u64

record MigrationsFilter =
  mf_OwnerUserId :: "u64 option"
  mf_RepositoryId :: "u64 option"
  mf_State :: "MigrationState option"
  mf_States :: "MigrationState list"

record FileArtifact =
  fa_Path :: string
  fa_Content :: string

record ServiceGenerationArtifacts =
  sga_ServiceName :: string
  sga_Files :: "FileArtifact list"
  sga_AgentRawResult :: string

record ServiceGenerationSpec =
  gs_Name :: string
  gs_ErrorPrefix :: string
  gs_ProtoContent :: string
  gs_BoundarySpec :: string
  gs_Incomplete :: bool
  gs_IncompleteReason :: string
  gs_GeneratorPromptRef :: string

record GenerationPackage =
  gp_MigrationId :: u64
  gp_OutputProfile :: string
  gp_Services :: "ServiceGenerationSpec list"

section \<open>Analysis summaries\<close>

text \<open>The fields of an analysis summary that the migration service reads.\<close>

record ModuleClassification =
  mc_DomainModules :: "string list"
  mc_InfraModules :: "string list"
  mc_TestModules :: "string list"
  mc_ApplicationModules :: "string list"
  mc_StructuralFallback :: bool

datatype TechnologyStatus =
    TECHNOLOGY_STATUS_UNSPECIFIED | TECHNOLOGY_STATUS_CURRENT | TECHNOLOGY_STATUS_OUTDATED
  | TECHNOLOGY_STATUS_END_OF_LIFE | TECHNOLOGY_STATUS_OTHER int

datatype Severity =
    SEVERITY_UNSPECIFIED | SEVERITY_LOW | SEVERITY_MEDIUM | SEVERITY_HIGH | SEVERITY_CRITICAL
  | SEVERITY_OTHER int

record Technology =
  tech_Name :: string
  tech_DetectedVersion :: string
  tech_LatestVersion :: string
  tech_Status :: TechnologyStatus
  tech_Category :: string
  tech_Slug :: string

record Vulnerability =
  vul_IdentifierRef :: string
  vul_Severity :: Severity
  vul_Component :: string
  vul_Description :: string
  vul_FixedInVersion :: string
  vul_Details :: string
  vul_References :: "string list"

record DependencyEdge =
  de_FromModule :: string
  de_ToModule :: string
  de_Weight :: u32

record RouteInfo =
  ri_Method :: string
  ri_Path :: string
  ri_Handler :: string

record ModuleCard =
  card_Module :: string
  card_File :: string
  card_Functions :: "string list"
  card_Classes :: "string list"
  card_ModuleLevelState :: "string list"
  card_Routes :: "RouteInfo list"
  card_DocstringHead :: string
  card_Loc :: u32
  card_FanIn :: u32
  card_FanOut :: u32
  card_IsSharedStateHub :: bool
  card_FanInFromProduction :: u32

record SharedStateHub =
  ssh_Module :: string
  ssh_MutableState :: "string list"
  ssh_FanIn :: u32

record UnreachableModule =
  um_Module :: string
  um_File :: string
  um_Loc :: u32

record BlueprintInfo =
  bi_Name :: string
  bi_File :: string
  bi_UrlPrefix :: string

record AnalysisSummary =
  as_Identifier :: u64
  as_RepositoryId :: u64
  as_MigrationId :: u64
  as_State :: AnalysisState
  as_Technologies :: "Technology list"
  as_Vulnerabilities :: "Vulnerability list"
  as_DependencyGraph :: "DependencyEdge list"
  as_TotalFiles :: u64
  as_TotalLines :: u64
  as_CreateTime :: "Timestamp option"
  as_UpdateTime :: "Timestamp option"
  as_DeleteTime :: "Timestamp option"
  as_PurgeTime :: "Timestamp option"
  as_ModuleCards :: "ModuleCard list"
  as_Blueprints :: "BlueprintInfo list"
  as_ModuleClassification :: "ModuleClassification option"
  as_RepositoryUrl :: string
  as_SourceBranch :: string
  as_CommitSha :: string
  as_MigrabilityScore :: "MigrabilityScore option"
  as_MigrabilityAssessment :: "MigrabilityAssessment option"
  as_OwnerUserId :: u64
  as_SharedStateHubs :: "SharedStateHub list"
  as_ModuleCountProduction :: u32
  as_ModuleCountTest :: u32
  as_UnreachableModules :: "UnreachableModule list"
  as_DeepAnalysisAvailable :: bool

record AnalysisSummariesFilter =
  af_RepositoryId :: "u64 option"
  af_Standalone :: bool
  af_MigrationId :: "u64 option"
  af_States :: "AnalysisState list"
  af_State :: "AnalysisState option"
  af_SourceBranch :: "string option"
  af_OwnerUserId :: "u64 option"

section \<open>Pages\<close>

datatype PageOrder = ORDER_DESC_UNSPECIFIED | ORDER_ASC | ORDER_OTHER int

record PageQueryParams =
  pq_Order :: PageOrder
  pq_PageNumber :: u32
  pq_PageSize :: u32
  pq_SortBy :: string

record Pagination =
  pg_CurrentPage :: u32
  pg_PageSize :: u32
  pg_TotalSize :: u64
  pg_TotalPages :: u64

text \<open>
  \<^verbatim>\<open>impl.NewPagination\<close> divides in \<^verbatim>\<open>float64\<close> and rounds up. Below \<open>2 ^ 53\<close> elements that is the
  exact ceiling, which the model takes. A page size of zero divides by zero in floating point;
  the conversion of the infinity that results is what amd64 gives.
\<close>

definition NewPagination :: "u32 \<Rightarrow> u32 \<Rightarrow> u64 \<Rightarrow> Pagination" where
  "NewPagination pageNumber pageSize totalCount =
     (let totalPages =
        (if pageSize = 0 then 2 ^ 63
         else (of_nat ((unat totalCount + unat pageSize - 1) div unat pageSize) :: u64));
        totalPages = (if totalPages = 0 then 1 else totalPages)
      in \<lparr> pg_CurrentPage = pageNumber, pg_PageSize = pageSize, pg_TotalSize = totalCount,
           pg_TotalPages = totalPages \<rparr>)"

definition PageQueryParamsDefault :: PageQueryParams where
  "PageQueryParamsDefault =
     \<lparr> pq_Order = ORDER_DESC_UNSPECIFIED, pq_PageNumber = 1, pq_PageSize = 10,
       pq_SortBy = ''create_time'' \<rparr>"

definition NormalizePaginationParams :: "PageQueryParams \<Rightarrow> PageQueryParams" where
  "NormalizePaginationParams p =
     (let p = (if pq_PageNumber p < 1 then p\<lparr>pq_PageNumber := 1\<rparr> else p);
          p = (if pq_PageSize p < 10 then p\<lparr>pq_PageSize := 10\<rparr>
               else if 100 < pq_PageSize p then p\<lparr>pq_PageSize := 100\<rparr> else p);
          p = (if pq_SortBy p = [] then p\<lparr>pq_SortBy := ''create_time''\<rparr> else p)
      in if pq_Order p \<noteq> ORDER_ASC \<and> pq_Order p \<noteq> ORDER_DESC_UNSPECIFIED
         then p\<lparr>pq_Order := ORDER_ASC\<rparr> else p)"

text \<open>Getters the generated code defines on a nil pointer too: they return the zero value.\<close>

definition GetNoServiceBoundaries :: "RestructurePlan option \<Rightarrow> bool" where
  "GetNoServiceBoundaries p = (case p of None \<Rightarrow> False | Some x \<Rightarrow> rp_NoServiceBoundaries x)"

definition GetBoundariesExplanation :: "RestructurePlan option \<Rightarrow> string" where
  "GetBoundariesExplanation p = (case p of None \<Rightarrow> [] | Some x \<Rightarrow> rp_BoundariesExplanation x)"

definition GetPlanServices :: "RestructurePlan option \<Rightarrow> ProposedService list" where
  "GetPlanServices p = (case p of None \<Rightarrow> [] | Some x \<Rightarrow> rp_Services x)"

definition GetRoadmapActionPlan :: "RestructuringRoadmap option \<Rightarrow> ActionItem list" where
  "GetRoadmapActionPlan r = (case r of None \<Rightarrow> [] | Some x \<Rightarrow> rm_ActionPlan x)"

definition GetInfraModules :: "ModuleClassification option \<Rightarrow> string list" where
  "GetInfraModules c = (case c of None \<Rightarrow> [] | Some x \<Rightarrow> mc_InfraModules x)"

text \<open>A stored message reads back as itself, the zero message as absent.\<close>

definition stored :: "'a \<Rightarrow> 'a \<Rightarrow> 'a option" where
  "stored zero x = (if x = zero then None else Some x)"

end
