(* ===== verification/Migration_Domain.thy ===== *)
theory Migration_Domain
  imports Prism_Messages
begin

text \<open>
  The domain package of the migration service (\<^verbatim>\<open>core/services/migration/domain\<close>): its error
  registry, the verdict constants and the terminal states, with the abstract life cycle of a
  migration that the service is held to.
\<close>

section \<open>The error registry\<close>

text \<open>\<^verbatim>\<open>domain/errors.go\<close>: every error the package declares, by its code and message.\<close>

definition ErrMissingIdentifier :: go_error where "ErrMissingIdentifier = DErr ''MIG101'' ''Failure_Missing_Identifier''"
definition ErrMissingPayload :: go_error where "ErrMissingPayload = DErr ''MIG102'' ''Failure_Missing_Payload''"
definition ErrMissingOwnerUserID :: go_error where "ErrMissingOwnerUserID = DErr ''MIG103'' ''Failure_Missing_Owner_User_ID''"
definition ErrMissingRepositoryID :: go_error where "ErrMissingRepositoryID = DErr ''MIG104'' ''Failure_Missing_Repository_ID''"
definition ErrInvalidTargetConfig :: go_error where "ErrInvalidTargetConfig = DErr ''MIG105'' ''Failure_Invalid_Target_Config''"
definition ErrMigrationNotFound :: go_error where "ErrMigrationNotFound = DErr ''MIG201'' ''Failure_Migration_Not_Found''"
definition ErrInvalidStateTransition :: go_error where "ErrInvalidStateTransition = DErr ''MIG202'' ''Failure_Invalid_State_Transition''"
definition ErrRepositoryNotFound :: go_error where "ErrRepositoryNotFound = DErr ''MIG203'' ''Failure_Repository_Not_Found''"
definition ErrOwnerNotFound :: go_error where "ErrOwnerNotFound = DErr ''MIG204'' ''Failure_Owner_Not_Found''"
definition ErrForbiddenAccess :: go_error where "ErrForbiddenAccess = DErr ''MIG205'' ''Failure_Access_Forbidden''"
definition ErrNoServiceBoundaries :: go_error where "ErrNoServiceBoundaries = DErr ''MIG206'' ''Failure_No_Service_Boundaries''"
definition ErrPushAuthFailed :: go_error where "ErrPushAuthFailed = DErr ''MIG207'' ''Failure_Push_Auth_Failed''"
definition ErrPushConflict :: go_error where "ErrPushConflict = DErr ''MIG208'' ''Failure_Push_Rejected''"
definition ErrPushNetworkError :: go_error where "ErrPushNetworkError = DErr ''MIG209'' ''Failure_Push_Network_Error''"
definition ErrNoArtifacts :: go_error where "ErrNoArtifacts = DErr ''MIG210'' ''Failure_No_Artifacts''"
definition ErrNotMigrableBlocked :: go_error where "ErrNotMigrableBlocked = DErr ''MIG212'' ''Failure_Not_Migrable_Override_Required''"
definition ErrNoAnalysisSummary :: go_error where "ErrNoAnalysisSummary = DErr ''MIG213'' ''Failure_No_Analysis_Summary''"
definition ErrRepoAuthFailed :: go_error where "ErrRepoAuthFailed = DErr ''MIG214'' ''Failure_Repository_Auth_Failed''"
definition ErrRepoUnreachable :: go_error where "ErrRepoUnreachable = DErr ''MIG215'' ''Failure_Repository_Unreachable''"
definition ErrRoadmapUnavailable :: go_error where "ErrRoadmapUnavailable = DErr ''MIG216'' ''Failure_Roadmap_Unavailable''"
definition ErrSourceAnalysisNotFound :: go_error where "ErrSourceAnalysisNotFound = DErr ''MIG217'' ''Failure_Source_Analysis_Not_Found''"
definition ErrSourceAnalysisInvalid :: go_error where "ErrSourceAnalysisInvalid = DErr ''MIG218'' ''Failure_Source_Analysis_Invalid''"
definition ErrNoRoadmap :: go_error where "ErrNoRoadmap = DErr ''MIG219'' ''Failure_No_Roadmap''"
definition ErrNoBlueprintAnalysis :: go_error where "ErrNoBlueprintAnalysis = DErr ''MIG220'' ''Failure_No_Blueprint_Analysis''"
definition ErrNoActionPlan :: go_error where "ErrNoActionPlan = DErr ''MIG221'' ''Failure_No_Action_Plan''"
definition ErrInternal :: go_error where "ErrInternal = DErr ''MIG500'' ''Failure_Internal''"

definition NewErrArtifactConflict :: "string \<Rightarrow> go_error" where
  "NewErrArtifactConflict details = DErr ''MIG211'' (''Failure_Artifact_Path_Conflict: '' @ details)"

lemmas mig_errors =
  ErrMissingIdentifier_def
  ErrMissingPayload_def
  ErrMissingOwnerUserID_def
  ErrMissingRepositoryID_def
  ErrInvalidTargetConfig_def
  ErrMigrationNotFound_def
  ErrInvalidStateTransition_def
  ErrRepositoryNotFound_def
  ErrOwnerNotFound_def
  ErrForbiddenAccess_def
  ErrNoServiceBoundaries_def
  ErrPushAuthFailed_def
  ErrPushConflict_def
  ErrPushNetworkError_def
  ErrNoArtifacts_def
  ErrNotMigrableBlocked_def
  ErrNoAnalysisSummary_def
  ErrRepoAuthFailed_def
  ErrRepoUnreachable_def
  ErrRoadmapUnavailable_def
  ErrSourceAnalysisNotFound_def
  ErrSourceAnalysisInvalid_def
  ErrNoRoadmap_def
  ErrNoBlueprintAnalysis_def
  ErrNoActionPlan_def
  ErrInternal_def

text \<open>The registry has no two errors with one code.\<close>

definition error_registry :: "go_error list" where
  "error_registry =
     [ErrMissingIdentifier,
      ErrMissingPayload,
      ErrMissingOwnerUserID,
      ErrMissingRepositoryID,
      ErrInvalidTargetConfig,
      ErrMigrationNotFound,
      ErrInvalidStateTransition,
      ErrRepositoryNotFound,
      ErrOwnerNotFound,
      ErrForbiddenAccess,
      ErrNoServiceBoundaries,
      ErrPushAuthFailed,
      ErrPushConflict,
      ErrPushNetworkError,
      ErrNoArtifacts,
      ErrNotMigrableBlocked,
      ErrNoAnalysisSummary,
      ErrRepoAuthFailed,
      ErrRepoUnreachable,
      ErrRoadmapUnavailable,
      ErrSourceAnalysisNotFound,
      ErrSourceAnalysisInvalid,
      ErrNoRoadmap,
      ErrNoBlueprintAnalysis,
      ErrNoActionPlan,
      ErrInternal]"

definition error_code :: "go_error \<Rightarrow> string" where
  "error_code e = (case errors_As e of None \<Rightarrow> [] | Some (c, m) \<Rightarrow> c)"

lemma error_registry_distinct: "distinct (map error_code error_registry)"
  by (simp add: error_registry_def error_code_def mig_errors)

section \<open>Verdicts and states\<close>

definition MigrabilityVerdictMigrable :: string where
  "MigrabilityVerdictMigrable = ''MIGRABLE''"
definition MigrabilityVerdictPartial :: string where
  "MigrabilityVerdictPartial = ''PARTIAL''"
definition MigrabilityVerdictNotMigrable :: string where
  "MigrabilityVerdictNotMigrable = ''NOT_MIGRABLE''"
definition MigrabilityVerdictIncompleteNoStructuralData :: string where
  "MigrabilityVerdictIncompleteNoStructuralData = ''INCOMPLETE_NO_STRUCTURAL_DATA''"

record ServiceArtifact =
  sa_ServiceName :: string
  sa_ProtoContent :: string
  sa_BoundarySpec :: string
  sa_Incomplete :: bool
  sa_IncompleteReason :: string

fun isTerminalState :: "MigrationState \<Rightarrow> bool" where
  "isTerminalState MIGRATION_STATE_PUSHED = True"
| "isTerminalState MIGRATION_STATE_FAILED = True"
| "isTerminalState MIGRATION_STATE_CANCELLED = True"
| "isTerminalState MIGRATION_STATE_RESTRUCTURING_READY = True"
| "isTerminalState _ = False"

end
