(* ===== verification/Migration_Ports.thy ===== *)
theory Migration_Ports
  imports Migration_Domain
begin

text \<open>
  The driven ports of the migration service (\<^verbatim>\<open>core/services/migration/ports\<close>) as records of
  operations, and the contract of the migration repository as a locale. An operation that the
  port returns as \<^verbatim>\<open>(T, error)\<close> is a computation of type \<open>('w, T) io\<close>.
\<close>

section \<open>The ports\<close>

record GeneratedFile =
  gf_ServiceName :: string
  gf_Path :: string
  gf_Content :: string

record PushFile =
  pf_Path :: string
  pf_Content :: string

text \<open>The input and output of the assembler of the deliverable.\<close>

record InputFile =
  if_Path :: string
  if_Content :: string

record DeliverableFile =
  df_Path :: string
  df_Content :: string

record 'w MigrationRepository =
  repo_Create :: "Migration \<Rightarrow> ('w, Migration) io"
  repo_GetByID :: "u64 \<Rightarrow> bool \<Rightarrow> ('w, Migration) io"
  repo_List :: "MigrationsFilter option \<Rightarrow> PageQueryParams option \<Rightarrow>
    ('w, Migration list \<times> Pagination option) io"
  repo_UpdateState :: "u64 \<Rightarrow> MigrationState \<Rightarrow> ('w, unit) io"
  repo_SetRepositoryURL :: "u64 \<Rightarrow> string \<Rightarrow> ('w, unit) io"
  repo_SetMigrabilityAssessment :: "u64 \<Rightarrow> MigrabilityAssessment \<Rightarrow> ('w, unit) io"
  repo_SetMigrabilityOverride :: "u64 \<Rightarrow> bool \<Rightarrow> ('w, unit) io"
  repo_SetRestructuringRoadmap :: "u64 \<Rightarrow> RestructuringRoadmap \<Rightarrow> ('w, unit) io"
  repo_SetRoadmapEnrichment :: "u64 \<Rightarrow> RoadmapEnrichment \<Rightarrow> ('w, unit) io"
  repo_SetServiceBlueprint :: "u64 \<Rightarrow> ServiceBlueprint \<Rightarrow> ('w, unit) io"
  repo_AdoptAnalysis :: "u64 \<Rightarrow> u64 \<Rightarrow> string \<Rightarrow> ('w, unit) io"
  repo_SoftDelete :: "u64 \<Rightarrow> ('w, unit) io"

text \<open>The transaction manager runs the function it is given; the one caller creates a
  migration in it.\<close>

record 'w TransactionManager =
  WithTransaction :: "('w, Migration) io \<Rightarrow> ('w, Migration) io"

record 'w IdentityClient =
  ValidateUserExists :: "u64 \<Rightarrow> ('w, unit) io"

record 'w RepositoryClient =
  FetchRepositoryURL :: "u64 \<Rightarrow> ('w, string) io"
  PushFiles :: "string \<Rightarrow> string \<Rightarrow> PushFile list \<Rightarrow> string \<Rightarrow> ('w, string) io"
  ProbeConnection :: "u64 \<Rightarrow> ('w, unit) io"

record 'w AnalysisClient =
  RunAnalysis :: "u64 \<Rightarrow> u64 \<Rightarrow> u64 \<Rightarrow> string \<Rightarrow> ('w, unit) io"
  GetAnalysisSummary :: "u64 \<Rightarrow> ('w, AnalysisSummary) io"

text \<open>The ports with one operation are that operation.\<close>

type_synonym 'w ArtifactReader = "u64 \<Rightarrow> ('w, ServiceArtifact list) io"
type_synonym 'w GenerationJobEnqueuer = "u64 \<Rightarrow> string list \<Rightarrow> ('w, unit) io"
type_synonym 'w DecomposeJobEnqueuer = "u64 \<Rightarrow> u64 \<Rightarrow> string \<Rightarrow> string \<Rightarrow> ('w, unit) io"
type_synonym 'w GenerationResultReader = "u64 \<Rightarrow> ('w, ServiceGenerationRecord list) io"
type_synonym 'w GenerationFileArtifactReader = "u64 \<Rightarrow> string \<Rightarrow> ('w, GeneratedFile list) io"
type_synonym 'w MigrabilityAssessor = "u64 \<Rightarrow> string \<Rightarrow> ('w, MigrabilityAssessment) io"
type_synonym 'w RoadmapEnricher = "RestructuringRoadmap \<Rightarrow> ('w, RoadmapEnrichment) io"
type_synonym 'w BlueprintGenerator = "u64 \<Rightarrow> RestructuringRoadmap \<Rightarrow> ('w, ServiceBlueprint) io"
type_synonym 'w StackDetector = "u64 \<Rightarrow> ('w, string \<times> string list) io"

text \<open>
  \<^verbatim>\<open>assembler.New(skeletonRoot, useApiGateway).Assemble(inputs)\<close>. It reads the skeleton of the
  monorepo from the disk.
\<close>

type_synonym 'w Assembler = "string \<Rightarrow> bool \<Rightarrow> InputFile list \<Rightarrow> ('w, DeliverableFile list) io"

text \<open>
  The writer of \<^verbatim>\<open>archive/zip\<close>. Its state is the list of the entries created so far, each with
  what was written to it; what a call returns is a function of that state and of its argument.
\<close>

type_synonym zip_entries = "(string \<times> string) list"

record ZipWriter =
  zw_CreateHeader :: "zip_entries \<Rightarrow> string \<Rightarrow> go_error option"
  zw_Write :: "zip_entries \<Rightarrow> string \<Rightarrow> go_error option"
  zw_Close :: "zip_entries \<Rightarrow> go_error + string"

section \<open>The contract of the repository\<close>

text \<open>
  What a client of the repository may rely on. \<open>view w\<close> is the map of the migrations the world
  \<open>w\<close> stores, the deleted ones with their deletion time included, \<open>ok\<close> the representation
  invariant of the store.

  A write addresses one live (not deleted) record and replaces it by one that a relation \<open>P\<close> allows. An error
  of the store leaves open whether the write took effect (a lost acknowledgement), except that
  an error of the domain, such as \<open>ErrMigrationNotFound\<close>, means that nothing was written.
\<close>

definition rec_write ::
  "('w \<Rightarrow> u64 \<Rightarrow> Migration option) \<Rightarrow> ('w \<Rightarrow> bool) \<Rightarrow> u64 \<Rightarrow> (Migration \<Rightarrow> Migration \<Rightarrow> bool) \<Rightarrow>
   ('w, unit) io \<Rightarrow> bool" where
  "rec_write view ok i P op \<longleftrightarrow>
     (\<forall>V. triple (\<lambda>w. ok w \<and> view w = V) op
        (\<lambda>r w. ok w \<and>
           (let wrote = (\<exists>m m'. V i = Some m \<and> mig_DeleteTime m = None \<and> P m m' \<and>
                           view w = V(i \<mapsto> m'))
            in case r of Inr _ \<Rightarrow> wrote
                       | Inl e \<Rightarrow> view w = V \<or> (\<not> domain_error e \<and> wrote))))"

text \<open>The zero messages, which the wire format writes as no bytes at all.\<close>

definition zero_TargetConfig :: TargetConfig where
  "zero_TargetConfig =
     \<lparr> tc_Language = TARGET_LANGUAGE_UNSPECIFIED, tc_Database = TARGET_DATABASE_UNSPECIFIED,
       tc_InterServiceTransport = TRANSPORT_UNSPECIFIED, tc_UseApiGateway = False \<rparr>"

definition zero_RestructurePlan :: RestructurePlan where
  "zero_RestructurePlan =
     \<lparr> rp_Services = [], rp_Rationale = [], rp_OperationalCouplings = [], rp_IsLowConfidence = False,
       rp_NoServiceBoundaries = False, rp_BoundariesExplanation = [], rp_CandidateGroupings = [],
       rp_RestructureRecommendations = [], rp_PartitionModularity = 0 \<rparr>"

definition zero_MigrationOutput :: MigrationOutput where
  "zero_MigrationOutput =
     \<lparr> mo_OutputTarget = OUTPUT_TARGET_UNSPECIFIED, mo_BranchName = [], mo_NewRepositoryUrl = [] \<rparr>"

definition zero_MigrabilityAssessment :: MigrabilityAssessment where
  "zero_MigrabilityAssessment =
     \<lparr> ma_Verdict = [], ma_Summary = [], ma_Reasons = [], ma_Blockers = [], ma_Confidence = [],
       ma_CostUsd = 0, ma_AssessedTime = None, ma_MigrabilityScore = None, ma_ScoreSignals = [],
       ma_TypedRecommendations = [], ma_AssessmentLanguage = [] \<rparr>"

definition zero_RoadmapEnrichment :: RoadmapEnrichment where
  "zero_RoadmapEnrichment = \<lparr> re_Steps = [], re_CostUsd = 0, re_EnrichedTime = None \<rparr>"

definition zero_ServiceBlueprint :: ServiceBlueprint where
  "zero_ServiceBlueprint =
     \<lparr> sb_Services = [], sb_IsHypothetical = False, sb_PreconditionNote = [], sb_RequiredSteps = [],
       sb_CostUsd = 0, sb_GeneratedTime = None, sb_ConfidenceNote = [] \<rparr>"

definition zero_RestructuringRoadmap :: RestructuringRoadmap where
  "zero_RestructuringRoadmap =
     \<lparr> rm_Diagnosis = None, rm_StructuralProblems = [], rm_ActionPlan = [],
       rm_BoundariesExplanation = [], rm_GeneratedTime = None, rm_Enrichment = None,
       rm_Blueprint = None \<rparr>"

text \<open>How each write changes the record, its update time apart.\<close>

definition upd :: "(Migration \<Rightarrow> Migration) \<Rightarrow> Migration \<Rightarrow> Migration \<Rightarrow> bool" where
  "upd f m m' \<longleftrightarrow> (\<exists>t. m' = (f m)\<lparr>mig_UpdateTime := t\<rparr>)"

definition put_state :: "MigrationState \<Rightarrow> Migration \<Rightarrow> Migration" where
  "put_state s m = m\<lparr>mig_State := s\<rparr>"

definition put_assessment :: "MigrabilityAssessment \<Rightarrow> Migration \<Rightarrow> Migration" where
  "put_assessment a m = m\<lparr>mig_MigrabilityAssessment := stored zero_MigrabilityAssessment a\<rparr>"

definition put_override :: "bool \<Rightarrow> Migration \<Rightarrow> Migration" where
  "put_override b m = m\<lparr>mig_MigrabilityOverride := b\<rparr>"

definition put_enrichment :: "RoadmapEnrichment option \<Rightarrow> Migration \<Rightarrow> Migration" where
  "put_enrichment e m =
     m\<lparr>mig_RestructuringRoadmap :=
        map_option (\<lambda>r. r\<lparr>rm_Enrichment := e\<rparr>) (mig_RestructuringRoadmap m)\<rparr>"

definition put_blueprint :: "ServiceBlueprint option \<Rightarrow> Migration \<Rightarrow> Migration" where
  "put_blueprint b m =
     m\<lparr>mig_RestructuringRoadmap :=
        map_option (\<lambda>r. r\<lparr>rm_Blueprint := b\<rparr>) (mig_RestructuringRoadmap m)\<rparr>"

definition put_roadmap :: "RestructuringRoadmap option \<Rightarrow> Migration \<Rightarrow> Migration" where
  "put_roadmap r m =
     m\<lparr>mig_State := MIGRATION_STATE_RESTRUCTURING_READY, mig_RestructuringRoadmap := r\<rparr>"

definition put_adopted :: "u64 \<Rightarrow> string \<Rightarrow> Migration \<Rightarrow> Migration" where
  "put_adopted srcID branch m =
     m\<lparr>mig_State := MIGRATION_STATE_DESIGNING, mig_AnalysisSummaryId := srcID,
       mig_AnalysisReused := True,
       mig_SourceBranch := (if branch = [] then mig_SourceBranch m else branch)\<rparr>"

text \<open>A roadmap is stored beside an enrichment and a blueprint that may already be there and
  are shown in place of its own.\<close>

definition roadmap_written :: "RestructuringRoadmap \<Rightarrow> RestructuringRoadmap option \<Rightarrow> bool" where
  "roadmap_written r r' \<longleftrightarrow>
     (if r = zero_RestructuringRoadmap then r' = None
      else \<exists>e b. r' = Some (r\<lparr>rm_Enrichment := e, rm_Blueprint := b\<rparr>))"

text \<open>What a created record has of the payload.\<close>

definition created :: "Migration \<Rightarrow> Migration \<Rightarrow> bool" where
  "created m m' \<longleftrightarrow>
     mig_RepositoryId m' = mig_RepositoryId m \<and> mig_RepositoryUrl m' = mig_RepositoryUrl m \<and>
     mig_OwnerUserId m' = mig_OwnerUserId m \<and> mig_SourceBranch m' = mig_SourceBranch m \<and>
     mig_State m' = mig_State m \<and>
     mig_Target m' = Option.bind (mig_Target m) (stored zero_TargetConfig) \<and>
     mig_Plan m' = Option.bind (mig_Plan m) (stored zero_RestructurePlan) \<and>
     mig_Output m' = Option.bind (mig_Output m) (stored zero_MigrationOutput) \<and>
     mig_MigrabilityAssessment m' =
       Option.bind (mig_MigrabilityAssessment m) (stored zero_MigrabilityAssessment) \<and>
     mig_MigrabilityOverride m' = mig_MigrabilityOverride m \<and>
     mig_AnalysisSummaryId m' = mig_AnalysisSummaryId m \<and>
     mig_SourceAnalysisSummaryId m' = mig_SourceAnalysisSummaryId m \<and>
     mig_AnalysisReused m' = False \<and> mig_DeleteTime m' = None"

text \<open>The filter of a listing.\<close>

definition filter_admits :: "MigrationsFilter option \<Rightarrow> Migration \<Rightarrow> bool" where
  "filter_admits f m \<longleftrightarrow>
     (case f of None \<Rightarrow> True
      | Some f \<Rightarrow>
          (case mf_OwnerUserId f of None \<Rightarrow> True | Some u \<Rightarrow> u = 0 \<or> mig_OwnerUserId m = u) \<and>
          (case mf_RepositoryId f of None \<Rightarrow> True | Some u \<Rightarrow> u = 0 \<or> mig_RepositoryId m = u) \<and>
          (if mf_States f \<noteq> [] then mig_State m \<in> set (mf_States f)
           else case mf_State f of None \<Rightarrow> True
                | Some s \<Rightarrow> s = MIGRATION_STATE_UNSPECIFIED \<or> mig_State m = s))"

locale migration_repository_port =
  fixes R :: "'w MigrationRepository"
    and view :: "'w \<Rightarrow> u64 \<Rightarrow> Migration option"
    and ok :: "'w \<Rightarrow> bool"
  assumes GetByID_law:
      "triple (\<lambda>w. ok w \<and> view w = V) (repo_GetByID R i False)
         (\<lambda>r w. ok w \<and> view w = V \<and>
            (case r of Inr m \<Rightarrow> V i = Some m \<and> mig_Identifier m = i \<and> mig_DeleteTime m = None
                     | Inl e \<Rightarrow> e = ErrMigrationNotFound \<longrightarrow>
                         (\<forall>m. V i = Some m \<longrightarrow> mig_DeleteTime m \<noteq> None)))"
    and List_law:
      "triple (\<lambda>w. ok w \<and> view w = V) (repo_List R f p)
         (\<lambda>r w. ok w \<and> view w = V \<and>
            (case r of Inl e \<Rightarrow> True
             | Inr (ms, pg) \<Rightarrow> \<forall>m\<in>set ms. V (mig_Identifier m) = Some m \<and>
                 mig_DeleteTime m = None \<and> filter_admits f m))"
    and Create_law:
      "triple (\<lambda>w. ok w \<and> view w = V) (repo_Create R m)
         (\<lambda>r w. ok w \<and>
            (let wrote = (\<lambda>m'. V (mig_Identifier m') = None \<and> created m m' \<and>
                            view w = V(mig_Identifier m' \<mapsto> m'))
             in case r of Inr m' \<Rightarrow> wrote m' | Inl e \<Rightarrow> view w = V \<or> (\<exists>m'. wrote m')))"
    and UpdateState_law: "rec_write view ok i (upd (put_state s)) (repo_UpdateState R i s)"
    and SetRepositoryURL_law:
      "triple (\<lambda>w. ok w \<and> view w = V) (repo_SetRepositoryURL R i url)
         (\<lambda>r w. ok w \<and>
            (let wrote = (\<exists>m. V i = Some m \<and> view w = V(i \<mapsto> m\<lparr>mig_RepositoryUrl := url\<rparr>))
             in case r of Inr _ \<Rightarrow> wrote | Inl e \<Rightarrow> view w = V \<or> wrote))"
    and SetMigrabilityAssessment_law:
      "rec_write view ok i (upd (put_assessment a)) (repo_SetMigrabilityAssessment R i a)"
    and SetMigrabilityOverride_law:
      "rec_write view ok i (upd (put_override b)) (repo_SetMigrabilityOverride R i b)"
    and SetRestructuringRoadmap_law:
      "rec_write view ok i
         (\<lambda>m m'. mig_State m = MIGRATION_STATE_AWAITING_APPROVAL \<and>
            (\<exists>r'. roadmap_written rm r' \<and> upd (put_roadmap r') m m'))
         (repo_SetRestructuringRoadmap R i rm)"
    and SetRoadmapEnrichment_law:
      "rec_write view ok i
         (\<lambda>m m'. \<exists>x. (en \<noteq> zero_RoadmapEnrichment \<longrightarrow> x = Some en) \<and> upd (put_enrichment x) m m')
         (repo_SetRoadmapEnrichment R i en)"
    and SetServiceBlueprint_law:
      "rec_write view ok i
         (\<lambda>m m'. \<exists>x. (bp \<noteq> zero_ServiceBlueprint \<longrightarrow> x = Some bp) \<and> upd (put_blueprint x) m m')
         (repo_SetServiceBlueprint R i bp)"
    and AdoptAnalysis_law:
      "rec_write view ok i
         (\<lambda>m m'. mig_State m = MIGRATION_STATE_ANALYZING \<and> upd (put_adopted src br) m m')
         (repo_AdoptAnalysis R i src br)"
    and SoftDelete_law:
      "rec_write view ok i (\<lambda>m m'. \<exists>t. m' = m\<lparr>mig_UpdateTime := Some t, mig_DeleteTime := Some t\<rparr>)
         (repo_SoftDelete R i)"

end
