(* ===== verification/Migration_Roadmap.thy ===== *)
theory Migration_Roadmap
  imports Migration_Domain
begin

text \<open>
  The pure part of the restructuring roadmap: the assembly of roadmap and action plan from a
  migrability assessment (\<^verbatim>\<open>application/service.go\<close>) and the Markdown export of the plan
  (\<^verbatim>\<open>application/restructuring_profile.go\<close>). Nothing here has effects; the clock that stamps a
  roadmap is an argument.
\<close>

section \<open>Parsing the details of signals\<close>

definition parseHubModule :: "string \<Rightarrow> string" where
  "parseHubModule detail =
     (let idx = strings_Index detail '' fan-in='' in if 0 < idx then take (nat idx) detail else detail)"

definition parseGodModules :: "string \<Rightarrow> string list" where
  "parseGodModules detail =
     (let start = strings_Index detail ''['' ; stop = strings_Index detail '']''
      in if 0 \<le> start \<and> start + 1 < stop
         then strings_Fields (take (nat (stop - (start + 1))) (drop (nat (start + 1)) detail))
         else [])"

definition formatModuleList :: "string list \<Rightarrow> nat \<Rightarrow> string" where
  "formatModuleList modules limit =
     (if modules = [] then ''(infra modules)''
      else strings_Join (if limit < length modules then take limit modules else modules) '', '')"

section \<open>The action plan\<close>

definition action_item :: "string \<Rightarrow> string \<Rightarrow> string \<Rightarrow> bool \<Rightarrow> ActionItem" where
  "action_item kind subject action blocking =
     \<lparr> ai_Kind = kind, ai_Subject = subject, ai_Action = action, ai_Blocking = blocking,
       ai_Impact = 0, ai_Order = 0, ai_DependsOnStep = 0 \<rparr>"

definition signalToActionItem :: "ScoreSignal \<Rightarrow> string list \<Rightarrow> ActionItem option" where
  "signalToActionItem sig infraModules =
     (let s = sig_Signal sig in
      if s = ''domain_presence'' then
        (let subject = formatModuleList infraModules 5
         in Some (action_item ''EXTRACT_DOMAIN'' subject
              (''Extract domain entities from '' @ subject @
               '' into dedicated domain modules; separate business logic from infrastructure utilities'')
              True))
      else if s = ''hub_severity'' then
        (let module = parseHubModule (sig_Detail sig)
         in Some (action_item ''DECOUPLE_STATE'' module
              (''Decouple shared state in '' @ module @
               '' by extracting state management behind a service interface'')
              True))
      else if s = ''god_modules'' then
        (let subject = strings_Join (parseGodModules (sig_Detail sig)) '', '';
             subject = (if subject = [] then sig_Detail sig else subject)
         in Some (action_item ''SPLIT_GOD_MODULE'' subject
              (''Split '' @ subject @
               '' by responsibility: extract distinct concerns into focused modules'')
              False))
      else if s = ''cluster_count'' then
        Some (action_item ''DEFINE_BOUNDARIES'' (sig_Detail sig)
          (''Define service boundaries around domain modules once the domain layer exists; '' @
           ''group by functional area to form service clusters'')
          True)
      else if s = ''routing_layout'' then
        Some (action_item ''ADD_ROUTING'' (sig_Detail sig)
          (''Add per-domain HTTP routing once service clusters exist: '' @
           ''one route file per service boundary'')
          False)
      else None)"

text \<open>The entries of the plan: an item with the signal it comes from.\<close>

type_synonym plan_entry = "ActionItem \<times> string"

fun plan_entries :: "ScoreSignal list \<Rightarrow> string list \<Rightarrow> plan_entry list" where
  "plan_entries [] infra = []"
| "plan_entries (sig # sigs) infra =
     (if sig_Penalty sig \<le> 0 then plan_entries sigs infra
      else case signalToActionItem sig infra of
          None \<Rightarrow> plan_entries sigs infra
        | Some item \<Rightarrow>
            (item\<lparr>ai_Impact := sig_Penalty sig\<rparr>, sig_Signal sig) # plan_entries sigs infra)"

text \<open>The step number of a signal: the last entry that has it, zero when none has.\<close>

definition order_of :: "plan_entry list \<Rightarrow> string \<Rightarrow> int" where
  "order_of es s =
     (case map_of (rev (map (\<lambda>i. (snd (es ! i), to_int32 (int i + 1))) [0..<length es])) s of
        None \<Rightarrow> 0 | Some n \<Rightarrow> n)"

definition number_entry :: "plan_entry list \<Rightarrow> nat \<Rightarrow> ActionItem" where
  "number_entry es i =
     (let (item, s) = es ! i;
          item = item\<lparr>ai_Order := to_int32 (int i + 1)\<rparr>
      in if s = ''cluster_count'' then item\<lparr>ai_DependsOnStep := order_of es ''domain_presence''\<rparr>
         else if s = ''routing_layout'' then item\<lparr>ai_DependsOnStep := order_of es ''cluster_count''\<rparr>
         else item)"

definition buildActionPlan :: "ScoreSignal list \<Rightarrow> string list \<Rightarrow> ActionItem list" where
  "buildActionPlan signals infraModules =
     (let entries = sort_slice (\<lambda>a b. ai_Impact (fst b) < ai_Impact (fst a))
                      (plan_entries signals infraModules)
      in map (number_entry entries) [0..<length entries])"

section \<open>The roadmap\<close>

definition syntheticAssessmentFromScore ::
  "MigrabilityScore option \<Rightarrow> RestructurePlan option \<Rightarrow> MigrabilityAssessment option" where
  "syntheticAssessmentFromScore ms plan =
     (case ms of None \<Rightarrow> None
      | Some ms \<Rightarrow>
          if ms_Signals ms = [] then None
          else Some \<lparr> ma_Verdict = ''NO_SERVICE_BOUNDARIES'',
                 ma_Summary = GetBoundariesExplanation plan, ma_Reasons = [], ma_Blockers = [],
                 ma_Confidence = [], ma_CostUsd = 0, ma_AssessedTime = None,
                 ma_MigrabilityScore = Some (ms_Value ms), ma_ScoreSignals = ms_Signals ms,
                 ma_TypedRecommendations = [], ma_AssessmentLanguage = [] \<rparr>)"

definition structural_problems :: "ScoreSignal list \<Rightarrow> StructuralProblem list" where
  "structural_problems sigs =
     sort_slice (\<lambda>a b. sp_Penalty b < sp_Penalty a)
       (map (\<lambda>s. \<lparr> sp_Signal = sig_Signal s, sp_Penalty = sig_Penalty s, sp_Detail = sig_Detail s \<rparr>)
          (filter (\<lambda>s. 0 < sig_Penalty s) sigs))"

definition assembleRoadmap ::
  "Timestamp \<Rightarrow> MigrabilityAssessment option \<Rightarrow> RestructurePlan option \<Rightarrow> string list \<Rightarrow>
   RestructuringRoadmap" where
  "assembleRoadmap now assessment plan infraModules =
     \<lparr> rm_Diagnosis = map_option (\<lambda>a.
         \<lparr> rd_Verdict = ma_Verdict a, rd_Summary = ma_Summary a,
           rd_MigrabilityScore = ma_MigrabilityScore a, rd_Confidence = ma_Confidence a,
           rd_Blockers = ma_Blockers a \<rparr>) assessment,
       rm_StructuralProblems =
         (case assessment of None \<Rightarrow> [] | Some a \<Rightarrow> structural_problems (ma_ScoreSignals a)),
       rm_ActionPlan =
         (case assessment of None \<Rightarrow> [] | Some a \<Rightarrow> buildActionPlan (ma_ScoreSignals a) infraModules),
       rm_BoundariesExplanation = (case plan of None \<Rightarrow> [] | Some p \<Rightarrow> rp_BoundariesExplanation p),
       rm_GeneratedTime = Some now, rm_Enrichment = None, rm_Blueprint = None \<rparr>"

section \<open>The slug of a repository\<close>

text \<open>Go ranges over the runes of a string: \<open>rune_width\<close> is the number of bytes the UTF-8 decoder
  consumes at the front, which is one for a byte that starts no valid encoding.\<close>

definition rune_width :: "string \<Rightarrow> nat" where
  "rune_width s =
     (let b = (\<lambda>i. if i < length s then (of_char (s ! i) :: nat) else 0);
          cont = (\<lambda>i. 128 \<le> b i \<and> b i \<le> 191);
          rng = (\<lambda>lo hi. lo \<le> b 1 \<and> b 1 \<le> hi)
      in if 194 \<le> b 0 \<and> b 0 \<le> 223 \<and> cont 1 then 2
         else if (b 0 = 224 \<and> rng 160 191 \<or> 225 \<le> b 0 \<and> b 0 \<le> 236 \<and> cont 1 \<or>
                  b 0 = 237 \<and> rng 128 159 \<or> 238 \<le> b 0 \<and> b 0 \<le> 239 \<and> cont 1) \<and> cont 2 then 3
         else if (b 0 = 240 \<and> rng 144 191 \<or> 241 \<le> b 0 \<and> b 0 \<le> 243 \<and> cont 1 \<or>
                  b 0 = 244 \<and> rng 128 143) \<and> cont 2 \<and> cont 3 then 4
         else 1)"

lemma rune_width_pos: "0 < rune_width s"
  by (simp add: rune_width_def Let_def)

function runes :: "string \<Rightarrow> string list" where
  "runes s = (if s = [] then [] else take (rune_width s) s # runes (drop (rune_width s) s))"
  by auto
termination
  by (relation "measure length") (auto simp: rune_width_pos)

declare runes.simps [simp del]

definition slug_char :: "char \<Rightarrow> bool" where
  "slug_char c \<longleftrightarrow>
     (let n = (of_char c :: nat)
      in 97 \<le> n \<and> n \<le> 122 \<or> 65 \<le> n \<and> n \<le> 90 \<or> 48 \<le> n \<and> n \<le> 57 \<or> c = CHR ''-'' \<or> c = CHR ''_'')"

definition slug_rune :: "string \<Rightarrow> string" where
  "slug_rune r = (case r of [c] \<Rightarrow> if slug_char c then [c] else ''-'' | _ \<Rightarrow> ''-'')"

definition repoSlugFromURL :: "string \<Rightarrow> string" where
  "repoSlugFromURL repoURL =
     (if repoURL = [] then ''repo''
      else let parts = strings_Split (TrimSuffix repoURL ''/'') (CHR ''/'')
           in if parts = [] then ''repo''
              else let out = concat (map slug_rune (runes (last parts)))
                   in if out = [] then ''repo'' else out)"

section \<open>The export of the plan\<close>

record stepProfile =
  technique :: string
  paths :: "string list"
  conventions :: string
  example :: string

record restructuringProfile =
  stackName :: string
  steps :: "(string \<times> stepProfile) list"

definition flask_extract_domain :: stepProfile where
  "flask_extract_domain =
     \<lparr> technique =
         ''Create a `domain/` package at the project root. Move business ''
         @ ''logic (models, rules, entities) out of infrastructure modules ''
         @ ''into dedicated domain modules. Use constructor injection '' @ em_dash
         @ '' domain classes must not import Flask, SQLAlchemy, or any I/O ''
         @ ''library directly.'',
       paths = [''domain/__init__.py'', ''domain/<entity_name>.py'', ''domain/state.py''],
       conventions =
         ''One Python module per domain concept. snake_case filenames. ''
         @ ''No circular imports: domain/ must not import from the rest of '' @ ''the app.'',
       example =
         ''# domain/user.py  '' @ em_dash @ '' domain model, no Flask/DB imports''
         @ [CHR 0x0A] @ ''class User:'' @ [CHR 0x0A]
         @ ''    def __init__(self, user_id: int, email: str) -> None:'' @ [CHR 0x0A]
         @ ''        self.user_id = user_id'' @ [CHR 0x0A] @ ''        self.email = email'' \<rparr>"

definition flask_define_boundaries :: stepProfile where
  "flask_define_boundaries =
     \<lparr> technique =
         ''Group the extracted domain modules into service clusters. Create ''
         @ ''one sub-package per cluster under `services/`. Each cluster ''
         @ ''exposes a Flask Blueprint with a domain-aligned URL prefix. ''
         @ ''Cross-cluster calls are function calls for now; mark them with ''
         @ ''a `# FUTURE: inter-service` comment for extraction later.'',
       paths = [''services/<cluster_name>/__init__.py'', ''services/<cluster_name>/blueprint.py'', ''services/<cluster_name>/handlers.py''],
       conventions =
         ''One Blueprint per service cluster. URL prefix matches the cluster ''
         @ ''name (e.g. `/users`, `/teams`). Blueprints are registered in ''
         @ ''the app factory, not in individual modules.'',
       example =
         ''# services/users/blueprint.py'' @ [CHR 0x0A] @ ''from flask import Blueprint''
         @ [CHR 0x0A] @ ''users_bp = Blueprint('' @ [CHR 0x22] @ ''users'' @ [CHR 0x22]
         @ '', __name__, url_prefix='' @ [CHR 0x22] @ ''/users'' @ [CHR 0x22] @ '')'' \<rparr>"

definition flask_decouple_state :: stepProfile where
  "flask_decouple_state =
     \<lparr> technique =
         ''Extract all module-level mutable state into a `StateManager` ''
         @ ''class in `domain/state.py`. Replace direct imports of the state ''
         @ ''module with constructor injection of `StateManager`. Instantiate ''
         @ ''it once in the Flask app factory and pass it as a dependency.'',
       paths = [''domain/state.py''],
       conventions =
         ''No module-level mutable globals outside `StateManager`. All ''
         @ ''state access goes through getter/setter methods. `StateManager` ''
         @ ''is a plain Python class '' @ em_dash @ '' no Flask dependency.'',
       example =
         ''# domain/state.py'' @ [CHR 0x0A] @ ''class StateManager:'' @ [CHR 0x0A]
         @ ''    def __init__(self) -> None:'' @ [CHR 0x0A]
         @ ''        self._data: dict = {}'' @ [CHR 0x0A] @ ''    def get(self, key: str):''
         @ [CHR 0x0A] @ ''        return self._data.get(key)'' @ [CHR 0x0A]
         @ ''    def set(self, key: str, value) -> None:'' @ [CHR 0x0A]
         @ ''        self._data[key] = value'' \<rparr>"

definition flask_split_god_module :: stepProfile where
  "flask_split_god_module =
     \<lparr> technique =
         ''Split the target module by responsibility. Group its functions ''
         @ ''into concern-named sibling modules (e.g. `auth.py`, `users.py`, ''
         @ ''`data.py`). Keep the original `__init__.py` as a thin re-exporter ''
         @ ''during the transition to avoid breaking existing imports. Remove ''
         @ ''the re-exports once all callers are updated.'',
       paths = [''<module_dir>/<concern>.py'', ''<module_dir>/__init__.py''],
       conventions =
         ''Each sibling module has a single responsibility. Max ~150 LOC ''
         @ ''per module as a target. The transitional `__init__.py` re-export ''
         @ ''is a migration aid '' @ em_dash @ '' remove it before the next iteration.'',
       example =
         ''# backend/__init__.py  '' @ em_dash @ '' transitional re-export'' @ [CHR 0x0A]
         @ ''from backend.auth import login, logout       # noqa: F401'' @ [CHR 0x0A]
         @ ''from backend.users import get_user, list_users  # noqa: F401'' \<rparr>"

definition flask_add_routing :: stepProfile where
  "flask_add_routing =
     \<lparr> technique =
         ''Create one Flask Blueprint file per service cluster under `routes/`. ''
         @ ''Each file registers only the HTTP routes belonging to that cluster ''
         @ ''and delegates to the corresponding service handler module. Register ''
         @ ''all blueprints in a central app factory.'',
       paths = [''routes/<cluster_name>.py'', ''app.py (or create_app factory)''],
       conventions =
         ''One route file per service boundary. Route files contain no ''
         @ ''business logic '' @ em_dash
         @ '' they call handler functions. `create_app()` iterates over blueprints ''
         @ ''and calls `app.register_blueprint()`.'',
       example =
         ''# routes/users.py'' @ [CHR 0x0A] @ ''from flask import Blueprint'' @ [CHR 0x0A]
         @ ''from services.users import handlers'' @ [CHR 0x0A]
         @ ''users_routes = Blueprint('' @ [CHR 0x22] @ ''users_routes'' @ [CHR 0x22]
         @ '', __name__, url_prefix='' @ [CHR 0x22] @ ''/users'' @ [CHR 0x22] @ '')''
         @ [CHR 0x0A, CHR 0x0A] @ ''@users_routes.get('' @ [CHR 0x22] @ ''/'' @ [CHR 0x22]
         @ '')'' @ [CHR 0x0A] @ ''def list_users():'' @ [CHR 0x0A]
         @ ''    return handlers.list_users()'' \<rparr>"

definition pythonFlaskProfile :: restructuringProfile where
  "pythonFlaskProfile =
     \<lparr> stackName = ''Python / Flask'',
       steps = [(''EXTRACT_DOMAIN'', flask_extract_domain),
                (''DEFINE_BOUNDARIES'', flask_define_boundaries),
                (''DECOUPLE_STATE'', flask_decouple_state),
                (''SPLIT_GOD_MODULE'', flask_split_god_module),
                (''ADD_ROUTING'', flask_add_routing)] \<rparr>"

definition TrimSpace :: "string \<Rightarrow> string" where
  "TrimSpace s = rev (dropWhile is_space (rev (dropWhile is_space s)))"

definition EqualFold :: "string \<Rightarrow> string \<Rightarrow> bool" where
  "EqualFold a b \<longleftrightarrow> ToLower a = ToLower b"

definition resolveProfile :: "string \<Rightarrow> string list \<Rightarrow> restructuringProfile option" where
  "resolveProfile framework technologies =
     (if ToLower (TrimSpace framework) = ''flask'' then Some pythonFlaskProfile
      else if list_ex (\<lambda>t. EqualFold t ''flask'') technologies then Some pythonFlaskProfile
      else None)"

definition nl :: string where "nl = [CHR 0x0A]"

definition disclaimer :: string where
  "disclaimer =
     [CHR 0x0A] @ ''---'' @ [CHR 0x0A, CHR 0x0A] @ ''> **'' @ [CHR 0xE2, CHR 0x9A, CHR 0xA0]
     @ '' Important '' @ em_dash @ '' read before executing any step**'' @ [CHR 0x0A] @ ''>''
     @ [CHR 0x0A] @ ''> This plan is derived from static dependency analysis. The ''
     @ ''domain groupings and module'' @ [CHR 0x0A]
     @ ''> classifications are **hypotheses** based on structural coupling '' @ ''data ''
     @ em_dash @ '' they must be'' @ [CHR 0x0A]
     @ ''> validated against the actual source code before executing '' @ ''any step.''
     @ [CHR 0x0A] @ ''>'' @ [CHR 0x0A]
     @ ''> - Each step should be reviewed by a developer before the agent ''
     @ ''executes it.'' @ [CHR 0x0A]
     @ ''> - The agent may misidentify module responsibilities; confirm ''
     @ ''by reading the files first.'' @ [CHR 0x0A]
     @ ''> - Dependencies between steps are real: do not execute a step ''
     @ ''whose prerequisite is unresolved.'' @ [CHR 0x0A]
     @ ''> - This document is **structured guidance for human-supervised, ''
     @ ''agent-assisted refactoring**,'' @ [CHR 0x0A] @ ''>   not an autonomous script.''
     @ [CHR 0x0A, CHR 0x0A] @ ''---'' @ [CHR 0x0A, CHR 0x0A]"

definition writeAgentUsageSection :: string where
  "writeAgentUsageSection =
     ''## How to use this with your code agent'' @ [CHR 0x0A, CHR 0x0A]
     @ ''1. **Open your code agent** in the repository root.'' @ [CHR 0x0A]
     @ ''2. **Paste this document** (or upload the .md file) as initial '' @ ''context.''
     @ [CHR 0x0A] @ ''3. **Work one step at a time.** Ask the agent to address Step ''
     @ ''1 first. Review the diff before moving to Step 2.'' @ [CHR 0x0A]
     @ ''4. **Validate before proceeding.** After each step, run your ''
     @ ''test suite and confirm no regressions before starting the next '' @ ''step.''
     @ [CHR 0x0A] @ ''5. **Override when needed.** The agent may suggest alternative ''
     @ ''approaches '' @ em_dash
     @ '' prefer ones that maintain the structure described here (domain/ ''
     @ ''package, constructor injection, one blueprint per service).'' @ [CHR 0x0A]
     @ ''6. **Blocking steps must be resolved in order.** Steps marked ''
     @ ''BLOCKING must be complete before any dependent step begins.'' @ [CHR 0x0A]"

text \<open>The heading, subject and task of a step, which both forms of the plan share.\<close>

definition step_head :: "ActionItem \<Rightarrow> string" where
  "step_head item =
     ''### Step '' @ Itoa (ai_Order item) @ '' '' @ em_dash @ '' '' @ ai_Kind item @
     '' (impact: +'' @ Itoa (ai_Impact item) @ '' pts'' @
     (if ai_Blocking item then '' '' @ mid_dot @ '' **BLOCKING**'' else []) @ '')'' @ nl @ nl @
     ''**Subject:** '' @ ai_Subject item @ nl @ nl @
     ''**What:** '' @ ai_Action item @ nl @ nl"

definition writePlanStep :: "restructuringProfile \<Rightarrow> ActionItem \<Rightarrow> string" where
  "writePlanStep profile item =
     step_head item @
     (if 0 < ai_DependsOnStep item
      then ''**Prerequisite:** Complete Step '' @ Itoa (ai_DependsOnStep item) @
           '' before starting this step.'' @ nl @ nl
      else []) @
     (case map_of (steps profile) (ai_Kind item) of
        None \<Rightarrow> []
      | Some sp \<Rightarrow>
          ''**How '' @ em_dash @ '' '' @ stackName profile @ '':**'' @ nl @ nl @
          technique sp @ nl @ nl @
          (if paths sp \<noteq> []
           then ''*Files / paths to create or reorganise:*'' @ nl @
                concat (map (\<lambda>p. ''- `'' @ p @ ''`'' @ nl) (paths sp)) @ nl
           else []) @
          (if conventions sp \<noteq> [] then ''*Conventions:* '' @ conventions sp @ nl @ nl else []) @
          (if example sp \<noteq> []
           then ''*Example sketch:*'' @ nl @ nl @ ''```python'' @ nl @ example sp @ nl @ ''```'' @ nl @ nl
           else [])) @
     ''---'' @ nl @ nl"

definition writeAgnosticStep :: "ActionItem \<Rightarrow> string" where
  "writeAgnosticStep item =
     step_head item @
     (if 0 < ai_DependsOnStep item
      then ''**Prerequisite:** Step '' @ Itoa (ai_DependsOnStep item) @ nl @ nl else []) @
     ''---'' @ nl @ nl"

definition writeAgnosticPlan :: "RestructuringRoadmap \<Rightarrow> string" where
  "writeAgnosticPlan roadmap = concat (map writeAgnosticStep (rm_ActionPlan roadmap))"

definition stack_label :: "restructuringProfile option \<Rightarrow> string \<Rightarrow> string list \<Rightarrow> string" where
  "stack_label profile framework technologies =
     (case profile of Some p \<Rightarrow> stackName p
      | None \<Rightarrow> if framework \<noteq> [] then framework
                else if technologies \<noteq> [] then strings_Join technologies '', ''
                else ''unknown'')"

definition BuildActionPlanPrompt ::
  "string \<Rightarrow> u64 \<Rightarrow> RestructuringRoadmap \<Rightarrow> string \<Rightarrow> string list \<Rightarrow> restructuringProfile option \<Rightarrow>
   string" where
  "BuildActionPlanPrompt repoURL migrationID roadmap framework technologies profile =
     (let stackLabel = stack_label profile framework technologies
      in ''# Restructuring Action Plan '' @ em_dash @ '' Migration #'' @ Itoa (uint migrationID) @
         nl @ nl @
         (if repoURL \<noteq> [] then ''**Repository:** '' @ repoURL @ nl else []) @
         ''**Stack detected:** '' @ stackLabel @ nl @
         ''**Purpose:** Instructions for a code agent to assist the restructuring of this '' @
         ''codebase into microservice-ready architecture.'' @ nl @
         disclaimer @
         (case profile of
            None \<Rightarrow>
              ''## Stack profile not available'' @ nl @ nl @
              ''The executable export for **'' @ stackLabel @ ''** is not available yet.'' @ nl @ nl @
              ''The action plan below describes **what** to do; the stack-specific **how** '' @
              ''(file paths, conventions, code patterns) is not generated for this stack.'' @ nl @ nl @
              ''Stack profiles are added incrementally. The full action plan is available in the '' @
              ''restructuring report.'' @ nl @ nl @
              ''---'' @ nl @ nl @
              ''## Action Plan (stack-agnostic)'' @ nl @ nl @
              writeAgnosticPlan roadmap
          | Some p \<Rightarrow>
              ''## Action Plan'' @ nl @ nl @ concat (map (writePlanStep p) (rm_ActionPlan roadmap))) @
         writeAgentUsageSection)"

section \<open>The plan is well formed\<close>

lemma plan_entries_eq:
  "plan_entries sigs infra =
     map (\<lambda>sig. ((the (signalToActionItem sig infra))\<lparr>ai_Impact := sig_Penalty sig\<rparr>, sig_Signal sig))
       (filter (\<lambda>s. 0 < sig_Penalty s \<and> signalToActionItem s infra \<noteq> None) sigs)"
  by (induction sigs) (auto split: option.splits)

lemma plan_entries_source:
  assumes "e \<in> set (plan_entries sigs infra)"
  obtains sig it where "0 < sig_Penalty sig" and "signalToActionItem sig infra = Some it"
    and "e = (it\<lparr>ai_Impact := sig_Penalty sig\<rparr>, sig_Signal sig)"
  using assms by (auto simp: plan_entries_eq)

lemma signalToActionItem_kind:
  "signalToActionItem sig infra = Some item \<Longrightarrow>
     (sig_Signal sig = ''domain_presence'' \<longleftrightarrow> ai_Kind item = ''EXTRACT_DOMAIN'') \<and>
     (sig_Signal sig = ''cluster_count'' \<longleftrightarrow> ai_Kind item = ''DEFINE_BOUNDARIES'') \<and>
     (sig_Signal sig = ''routing_layout'' \<longleftrightarrow> ai_Kind item = ''ADD_ROUTING'')"
  by (auto simp: signalToActionItem_def action_item_def Let_def split: if_splits)

lemma signalToActionItem_deps:
  "signalToActionItem sig infra = Some item \<Longrightarrow> ai_DependsOnStep item = 0"
  by (auto simp: signalToActionItem_def action_item_def Let_def split: if_splits)

lemma plan_entry_facts:
  assumes "e \<in> set (plan_entries sigs infra)"
  shows "0 < ai_Impact (fst e)" and "ai_DependsOnStep (fst e) = 0"
    and "snd e = ''domain_presence'' \<longleftrightarrow> ai_Kind (fst e) = ''EXTRACT_DOMAIN''"
    and "snd e = ''cluster_count'' \<longleftrightarrow> ai_Kind (fst e) = ''DEFINE_BOUNDARIES''"
    and "snd e = ''routing_layout'' \<longleftrightarrow> ai_Kind (fst e) = ''ADD_ROUTING''"
proof -
  obtain sig it where e: "0 < sig_Penalty sig" "signalToActionItem sig infra = Some it"
    "e = (it\<lparr>ai_Impact := sig_Penalty sig\<rparr>, sig_Signal sig)"
    using assms by (rule plan_entries_source)
  note k = signalToActionItem_kind [OF e(2)]
  show "0 < ai_Impact (fst e)" "ai_DependsOnStep (fst e) = 0"
    using e signalToActionItem_deps [OF e(2)] by simp_all
  show "snd e = ''domain_presence'' \<longleftrightarrow> ai_Kind (fst e) = ''EXTRACT_DOMAIN''"
    "snd e = ''cluster_count'' \<longleftrightarrow> ai_Kind (fst e) = ''DEFINE_BOUNDARIES''"
    "snd e = ''routing_layout'' \<longleftrightarrow> ai_Kind (fst e) = ''ADD_ROUTING''"
    using k e(3) by (simp_all del: list.inject char.inject)
qed

lemma order_of_cases:
  assumes "length es < 2 ^ 31"
  shows "order_of es s = 0 \<and> s \<notin> snd ` set es \<or>
    (\<exists>i<length es. snd (es ! i) = s \<and> order_of es s = int i + 1)"
proof (cases "s \<in> snd ` set es")
  case False
  then have "map_of (rev (map (\<lambda>i. (snd (es ! i), to_int32 (int i + 1))) [0..<length es])) s = None"
    by (auto simp: map_of_eq_None_iff)
  with False show ?thesis by (simp add: order_of_def)
next
  case True
  let ?l = "rev (map (\<lambda>i. (snd (es ! i), to_int32 (int i + 1))) [0..<length es])"
  have "s \<in> fst ` set ?l" using True by (force simp: in_set_conv_nth)
  then have "map_of ?l s \<noteq> None" unfolding map_of_eq_None_iff by (simp only: not_not)
  then obtain n where n: "map_of ?l s = Some n" by blast
  then have "(s, n) \<in> set ?l" by (rule map_of_SomeD)
  then obtain i where "i < length es" "snd (es ! i) = s" "n = to_int32 (int i + 1)" by auto
  with n assms show ?thesis by (auto simp: order_of_def to_int32_id)
qed

lemma number_entry_fields:
  "ai_Kind (number_entry es i) = ai_Kind (fst (es ! i))"
  "ai_Impact (number_entry es i) = ai_Impact (fst (es ! i))"
  "ai_Order (number_entry es i) = to_int32 (int i + 1)"
  "ai_DependsOnStep (number_entry es i) =
     (if snd (es ! i) = ''cluster_count'' then order_of es ''domain_presence''
      else if snd (es ! i) = ''routing_layout'' then order_of es ''cluster_count''
      else ai_DependsOnStep (fst (es ! i)))"
  by (cases "es ! i"; simp add: number_entry_def Let_def)+

lemma prerequisite_in_plan:
  assumes len: "length es < 2 ^ 31" and i: "i < length es"
    and entries: "\<And>e. e \<in> set es \<Longrightarrow> e \<in> set (plan_entries sigs infra)"
    and dep: "ai_DependsOnStep (number_entry es i) \<noteq> 0"
  shows "\<exists>j<length es. ai_Order (number_entry es j) = ai_DependsOnStep (number_entry es i) \<and>
     (ai_Kind (number_entry es i) = ''DEFINE_BOUNDARIES'' \<and>
        ai_Kind (number_entry es j) = ''EXTRACT_DOMAIN'' \<or>
      ai_Kind (number_entry es i) = ''ADD_ROUTING'' \<and>
        ai_Kind (number_entry es j) = ''DEFINE_BOUNDARIES'')"
proof -
  have facts: "es ! k \<in> set (plan_entries sigs infra)" if "k < length es" for k
    using entries nth_mem [OF that] by blast
  note fi = plan_entry_facts [OF facts [OF i]]
  consider (c) "snd (es ! i) = ''cluster_count''" | (r) "snd (es ! i) = ''routing_layout''"
    using dep fi(2) by (auto simp: number_entry_fields simp del: list.inject char.inject split: if_splits)
  then show ?thesis
  proof cases
    case c
    with dep have "order_of es ''domain_presence'' \<noteq> 0" by (simp add: number_entry_fields)
    with order_of_cases [OF len, of "''domain_presence''"] obtain j where
      j: "j < length es" "snd (es ! j) = ''domain_presence''" "order_of es ''domain_presence'' = int j + 1"
      by auto
    with c fi(4) plan_entry_facts(3) [OF facts [OF j(1)]] len show ?thesis
      by (intro exI [of _ j]) (simp add: number_entry_fields to_int32_id)
  next
    case r
    with dep have "order_of es ''cluster_count'' \<noteq> 0" by (simp add: number_entry_fields)
    with order_of_cases [OF len, of "''cluster_count''"] obtain j where
      j: "j < length es" "snd (es ! j) = ''cluster_count''" "order_of es ''cluster_count'' = int j + 1"
      by auto
    with r fi(5) plan_entry_facts(4) [OF facts [OF j(1)]] len show ?thesis
      by (intro exI [of _ j]) (simp add: number_entry_fields to_int32_id)
  qed
qed

lemma impact_sorted:
  "sorted_wrt (\<lambda>a b. ai_Impact (fst b) \<le> ai_Impact (fst a))
     (sort_slice (\<lambda>a b. ai_Impact (fst b) < ai_Impact (fst a)) (es :: plan_entry list))"
  using sorted_sort_slice [of "\<lambda>a b :: plan_entry. ai_Impact (fst b) < ai_Impact (fst a)" es]
  by (simp add: not_less)

text \<open>
  The action plan has one step per active signal the service knows. Its steps are numbered
  1 to n in the order of their impact, the largest first, every impact is positive, and a
  prerequisite is a step of the plan: boundaries depend on the extraction of the domain, routing
  on the boundaries, and nothing else has one.
\<close>

theorem action_plan_well_formed:
  assumes "length signals < 2 ^ 31"
  shows "let plan = buildActionPlan signals infra in
    length plan =
      length (filter (\<lambda>s. 0 < sig_Penalty s \<and> signalToActionItem s infra \<noteq> None) signals) \<and>
    map ai_Order plan = map (\<lambda>i. int i + 1) [0..<length plan] \<and>
    sorted_wrt (\<lambda>a b. ai_Impact b \<le> ai_Impact a) plan \<and>
    (\<forall>a\<in>set plan. 0 < ai_Impact a) \<and>
    (\<forall>a\<in>set plan. ai_DependsOnStep a \<noteq> 0 \<longrightarrow>
      (\<exists>b\<in>set plan. ai_Order b = ai_DependsOnStep a \<and>
         (ai_Kind a = ''DEFINE_BOUNDARIES'' \<and> ai_Kind b = ''EXTRACT_DOMAIN'' \<or>
          ai_Kind a = ''ADD_ROUTING'' \<and> ai_Kind b = ''DEFINE_BOUNDARIES'')))"
proof -
  define es where "es = sort_slice (\<lambda>a b. ai_Impact (fst b) < ai_Impact (fst a)) (plan_entries signals infra)"
  let ?plan = "buildActionPlan signals infra"
  have plan: "?plan = map (number_entry es) [0..<length es]"
    by (simp add: buildActionPlan_def es_def Let_def)
  have "length es = length (plan_entries signals infra)" by (simp add: es_def)
  then have n: "length es =
      length (filter (\<lambda>s. 0 < sig_Penalty s \<and> signalToActionItem s infra \<noteq> None) signals)"
    by (simp add: plan_entries_eq)
  have len: "length es < 2 ^ 31"
    unfolding n by (rule le_less_trans [OF length_filter_le assms])
  have sub: "e \<in> set (plan_entries signals infra)" if "e \<in> set es" for e
    using that by (simp add: es_def)
  have "sorted_wrt (\<lambda>a b. ai_Impact (fst b) \<le> ai_Impact (fst a)) es"
    unfolding es_def by (rule impact_sorted)
  then have "sorted_wrt (\<lambda>a b. ai_Impact b \<le> ai_Impact a) ?plan"
    by (simp add: plan sorted_wrt_iff_nth_less number_entry_fields)
  moreover have "map ai_Order ?plan = map (\<lambda>i. int i + 1) [0..<length ?plan]"
    using len by (simp add: plan number_entry_fields to_int32_id)
  moreover have "\<forall>a\<in>set ?plan. 0 < ai_Impact a"
    using plan_entry_facts(1) [OF sub] by (auto simp: plan number_entry_fields)
  moreover have "\<forall>a\<in>set ?plan. ai_DependsOnStep a \<noteq> 0 \<longrightarrow>
      (\<exists>b\<in>set ?plan. ai_Order b = ai_DependsOnStep a \<and>
         (ai_Kind a = ''DEFINE_BOUNDARIES'' \<and> ai_Kind b = ''EXTRACT_DOMAIN'' \<or>
          ai_Kind a = ''ADD_ROUTING'' \<and> ai_Kind b = ''DEFINE_BOUNDARIES''))"
  proof (intro ballI impI)
    fix a assume "a \<in> set ?plan" and dep: "ai_DependsOnStep a \<noteq> 0"
    then obtain i where i: "i < length es" "a = number_entry es i" by (auto simp: plan)
    from prerequisite_in_plan [OF len i(1) sub] dep i(2) obtain j where "j < length es"
      and "ai_Order (number_entry es j) = ai_DependsOnStep a \<and>
         (ai_Kind a = ''DEFINE_BOUNDARIES'' \<and> ai_Kind (number_entry es j) = ''EXTRACT_DOMAIN'' \<or>
          ai_Kind a = ''ADD_ROUTING'' \<and> ai_Kind (number_entry es j) = ''DEFINE_BOUNDARIES'')"
      by blast
    then show "\<exists>b\<in>set ?plan. ai_Order b = ai_DependsOnStep a \<and>
         (ai_Kind a = ''DEFINE_BOUNDARIES'' \<and> ai_Kind b = ''EXTRACT_DOMAIN'' \<or>
          ai_Kind a = ''ADD_ROUTING'' \<and> ai_Kind b = ''DEFINE_BOUNDARIES'')"
      by (intro bexI [of _ "number_entry es j"]) (simp_all add: plan)
  qed
  ultimately show ?thesis by (simp add: Let_def n plan)
qed


definition demo_signal :: "string \<Rightarrow> int \<Rightarrow> string \<Rightarrow> ScoreSignal" where
  "demo_signal s p d =
     \<lparr> sig_Signal = s, sig_Penalty = p, sig_Detail = d, sig_Modules = [], sig_DetailKey = [],
       sig_DetailParams = [] \<rparr>"

theorem action_plan_well_formed_witness:
  "let plan = buildActionPlan [demo_signal ''cluster_count'' 25 ''1 cluster'',
                demo_signal ''unknown'' 7 [], demo_signal ''domain_presence'' 30 []] []
   in length plan = 2 \<and> map ai_Order plan = [1, 2] \<and>
      sorted_wrt (\<lambda>a b. ai_Impact b \<le> ai_Impact a) plan"
  using action_plan_well_formed [of "[demo_signal ''cluster_count'' 25 ''1 cluster'',
      demo_signal ''unknown'' 7 [], demo_signal ''domain_presence'' 30 []]" "[]"]
  by (simp add: Let_def demo_signal_def signalToActionItem_def)

section \<open>The slug is safe\<close>

lemma slug_rune_safe: "list_all slug_char (slug_rune r) \<and> slug_rune r \<noteq> []"
  by (auto simp: slug_rune_def slug_char_def split: list.splits)

lemma runes_Nil [simp]: "runes s = [] \<longleftrightarrow> s = []"
  by (subst runes.simps) simp

text \<open>
  The file name slug of a repository is never empty and has only ASCII letters, digits,
  hyphens and underscores, whatever the URL is.
\<close>

theorem repoSlugFromURL_safe:
  "repoSlugFromURL url \<noteq> [] \<and> list_all slug_char (repoSlugFromURL url)"
proof -
  have repo: "list_all slug_char ''repo''" by (simp add: slug_char_def)
  have "list_all slug_char (concat (map slug_rune rs))" for rs
    by (induction rs) (auto simp: slug_rune_safe)
  with repo show ?thesis by (simp add: repoSlugFromURL_def Let_def)
qed

section \<open>The export shows the whole plan\<close>

text \<open>
  The exported document shows every step of the plan, in plan order: with a profile or
  without one, it is a text in which the heads of the steps (number, kind, impact, subject and
  task) follow one another, each after text of its own.
\<close>

theorem export_shows_plan:
  "\<exists>front gaps back.
     length gaps = length (rm_ActionPlan roadmap) \<and>
     BuildActionPlanPrompt url i roadmap framework technologies profile =
       front @ concat (map2 (\<lambda>item gap. step_head item @ gap) (rm_ActionPlan roadmap) gaps) @ back"
proof -
  have steps: "\<exists>gaps. length gaps = length items \<and>
      concat (map f items) = concat (map2 (\<lambda>item gap. step_head item @ gap) items gaps)"
    if head: "\<And>item. \<exists>gap. f item = step_head item @ gap" for f items
  proof (induction items)
    case (Cons a items)
    then obtain gaps where g: "length gaps = length items"
      "concat (map f items) = concat (map2 (\<lambda>item gap. step_head item @ gap) items gaps)" by blast
    obtain gap where "f a = step_head a @ gap" using head by blast
    with g show ?case by (intro exI [of _ "gap # gaps"]) simp
  qed simp
  show ?thesis
  proof (cases profile)
    case None
    obtain gaps where g: "length gaps = length (rm_ActionPlan roadmap)"
      "concat (map writeAgnosticStep (rm_ActionPlan roadmap)) =
        concat (map2 (\<lambda>item gap. step_head item @ gap) (rm_ActionPlan roadmap) gaps)"
      using steps [of writeAgnosticStep "rm_ActionPlan roadmap"]
      by (auto simp: writeAgnosticStep_def)
    have "\<exists>front. BuildActionPlanPrompt url i roadmap framework technologies profile =
        front @ concat (map writeAgnosticStep (rm_ActionPlan roadmap)) @ writeAgentUsageSection"
      unfolding BuildActionPlanPrompt_def Let_def None writeAgnosticPlan_def option.case
      by (simp only: append_assoc [symmetric]) blast
    then show ?thesis using g by metis
  next
    case (Some p)
    obtain gaps where g: "length gaps = length (rm_ActionPlan roadmap)"
      "concat (map (writePlanStep p) (rm_ActionPlan roadmap)) =
        concat (map2 (\<lambda>item gap. step_head item @ gap) (rm_ActionPlan roadmap) gaps)"
      using steps [of "writePlanStep p" "rm_ActionPlan roadmap"]
      by (auto simp: writePlanStep_def)
    have "\<exists>front. BuildActionPlanPrompt url i roadmap framework technologies profile =
        front @ concat (map (writePlanStep p) (rm_ActionPlan roadmap)) @ writeAgentUsageSection"
      unfolding BuildActionPlanPrompt_def Let_def Some option.case
      by (simp only: append_assoc [symmetric]) blast
    then show ?thesis using g by metis
  qed
qed

end
