(* ===== verification/Migration_Service.thy ===== *)
theory Migration_Service
  imports Migration_Ports Migration_Roadmap
begin

text \<open>
  The use cases of the migration service (\<^verbatim>\<open>application/service.go\<close>, \<^verbatim>\<open>download_deliverable.go\<close>), one definition per method
  of \<^verbatim>\<open>Service\<close>, over the ports. A port the code tests for \<^verbatim>\<open>nil\<close> is an \<open>option\<close>. Log calls are
  left out: they write to no state the program reads. \<open>svc_now\<close> is the clock behind
  \<^verbatim>\<open>timestamppb.Now\<close>.
\<close>

section \<open>The service\<close>

record 'w Service =
  svc_repo :: "'w MigrationRepository"
  svc_tx :: "'w TransactionManager"
  svc_identity :: "'w IdentityClient option"
  svc_repoSvc :: "'w RepositoryClient option"
  svc_analysis :: "'w AnalysisClient option"
  svc_artifacts :: "'w ArtifactReader"
  svc_generationEnqueuer :: "'w GenerationJobEnqueuer option"
  svc_decomposeEnqueuer :: "'w DecomposeJobEnqueuer option"
  svc_generationResultReader :: "'w GenerationResultReader option"
  svc_fileArtifactReader :: "'w GenerationFileArtifactReader"
  svc_migrabilityAssessor :: "'w MigrabilityAssessor option"
  svc_roadmapEnricher :: "'w RoadmapEnricher option"
  svc_blueprintGenerator :: "'w BlueprintGenerator option"
  svc_stackDetector :: "'w StackDetector option"
  svc_monorepoPath :: string
  svc_assemble :: "'w Assembler"
  svc_zip :: ZipWriter
  svc_now :: "('w, Timestamp) state"

text \<open>Calling a port that may be absent, and the panic of calling one that is.\<close>

definition when_set :: "'c option \<Rightarrow> ('c \<Rightarrow> ('w, unit) io) \<Rightarrow> ('w, unit) io" where
  "when_set c f = (case c of None \<Rightarrow> io_ok () | Some x \<Rightarrow> f x)"

abbreviation nil_deref :: "('w, 'a) io" where
  "nil_deref \<equiv> io_err (Panic ''invalid memory address or nil pointer dereference'')"

section \<open>Reading and creating\<close>

definition CreateMigration :: "'w Service \<Rightarrow> Migration option \<Rightarrow> ('w, Migration) io" where
  "CreateMigration S p =
     (case p of None \<Rightarrow> io_err ErrMissingPayload
      | Some m \<Rightarrow>
        if mig_OwnerUserId m = 0 then io_err ErrMissingOwnerUserID
        else if mig_RepositoryId m = 0 then io_err ErrMissingRepositoryID
        else if (case mig_Target m of None \<Rightarrow> True
                 | Some t \<Rightarrow> tc_Language t = TARGET_LANGUAGE_UNSPECIFIED \<or>
                            tc_Database t = TARGET_DATABASE_UNSPECIFIED)
        then io_err ErrInvalidTargetConfig
        else io_bind (when_set (svc_identity S) (\<lambda>c. ValidateUserExists c (mig_OwnerUserId m))) (\<lambda>_.
             io_bind (case svc_repoSvc S of
                        None \<Rightarrow> io_ok m
                      | Some c \<Rightarrow> io_bind (FetchRepositoryURL c (mig_RepositoryId m))
                          (\<lambda>url. io_ok (m\<lparr>mig_RepositoryUrl := url\<rparr>))) (\<lambda>m.
             io_wrap ''create migration: ''
               (WithTransaction (svc_tx S)
                  (repo_Create (svc_repo S) (m\<lparr>mig_State := MIGRATION_STATE_PENDING\<rparr>))))))"

definition GetMigration :: "'w Service \<Rightarrow> u64 \<Rightarrow> ('w, Migration) io" where
  "GetMigration S i =
     (if i = 0 then io_err ErrMissingIdentifier
      else io_bind (repo_GetByID (svc_repo S) i False) (\<lambda>m.
        if mig_State m \<in> {MIGRATION_STATE_GENERATING, MIGRATION_STATE_READY, MIGRATION_STATE_FAILED}
        then (case svc_generationResultReader S of
                None \<Rightarrow> io_ok m
              | Some read \<Rightarrow> State_Monad.bind (read i) (\<lambda>r. case r of
                    Inl _ \<Rightarrow> io_ok m
                  | Inr records \<Rightarrow> io_ok (m\<lparr>mig_GenerationRecords := records\<rparr>)))
        else io_ok m))"

definition ListMigrations ::
  "'w Service \<Rightarrow> MigrationsFilter option \<Rightarrow> PageQueryParams option \<Rightarrow>
   ('w, Migration list \<times> Pagination option) io" where
  "ListMigrations S flt params = repo_List (svc_repo S) flt params"

definition DeleteMigration :: "'w Service \<Rightarrow> u64 \<Rightarrow> ('w, unit) io" where
  "DeleteMigration S i =
     (if i = 0 then io_err ErrMissingIdentifier
      else io_bind (repo_GetByID (svc_repo S) i False) (\<lambda>m.
        if \<not> isTerminalState (mig_State m) then io_err ErrInvalidStateTransition
        else repo_SoftDelete (svc_repo S) i))"

section \<open>Starting\<close>

definition probe :: "'w Service \<Rightarrow> u64 \<Rightarrow> ('w, unit) io" where
  "probe S repositoryId = when_set (svc_repoSvc S) (\<lambda>c. ProbeConnection c repositoryId)"

definition startNormal :: "'w Service \<Rightarrow> Migration \<Rightarrow> ('w, Migration) io" where
  "startNormal S m =
     io_bind (probe S (mig_RepositoryId m)) (\<lambda>_.
     io_bind (repo_UpdateState (svc_repo S) (mig_Identifier m) MIGRATION_STATE_ANALYZING) (\<lambda>_.
     State_Monad.bind
       (when_set (svc_analysis S) (\<lambda>c. RunAnalysis c (mig_RepositoryId m) (mig_Identifier m)
          (mig_OwnerUserId m) (mig_SourceBranch m))) (\<lambda>r. case r of
         Inl dispatchErr \<Rightarrow>
           io_ignore (repo_UpdateState (svc_repo S) (mig_Identifier m) MIGRATION_STATE_PENDING)
             (io_err (wrap_error ''migration: analysis dispatch failed: '' dispatchErr []))
       | Inr _ \<Rightarrow> io_ok (m\<lparr>mig_State := MIGRATION_STATE_ANALYZING\<rparr>))))"

definition source_summary :: "'w Service \<Rightarrow> u64 \<Rightarrow> ('w, AnalysisSummary option) io" where
  "source_summary S srcID =
     (case svc_analysis S of
        None \<Rightarrow> io_ok None
      | Some c \<Rightarrow> State_Monad.bind (GetAnalysisSummary c srcID) (\<lambda>r. case r of
            Inl _ \<Rightarrow> io_err ErrSourceAnalysisNotFound
          | Inr s \<Rightarrow> io_ok (Some s)))"

definition startWithReuse :: "'w Service \<Rightarrow> Migration \<Rightarrow> ('w, Migration) io" where
  "startWithReuse S m =
     (let srcID = mig_SourceAnalysisSummaryId m; i = mig_Identifier m in
      io_bind (source_summary S srcID) (\<lambda>summary.
      if (case summary of None \<Rightarrow> False
          | Some s \<Rightarrow> as_RepositoryId s \<noteq> mig_RepositoryId m \<or> as_State s \<noteq> ANALYSIS_STATE_COMPLETED)
      then io_err ErrSourceAnalysisInvalid
      else
        io_bind (probe S (mig_RepositoryId m)) (\<lambda>_.
        let effectiveBranch =
              (if mig_SourceBranch m = []
               then (case summary of None \<Rightarrow> [] | Some s \<Rightarrow> as_SourceBranch s)
               else mig_SourceBranch m)
        in io_bind (repo_UpdateState (svc_repo S) i MIGRATION_STATE_ANALYZING) (\<lambda>_.
           State_Monad.bind (repo_AdoptAnalysis (svc_repo S) i srcID effectiveBranch) (\<lambda>r. case r of
             Inl err \<Rightarrow>
               io_ignore (repo_UpdateState (svc_repo S) i MIGRATION_STATE_PENDING)
                 (io_err (wrap_error ''migration: adopt analysis failed: '' err []))
           | Inr _ \<Rightarrow>
               io_ignore (when_set (svc_decomposeEnqueuer S)
                            (\<lambda>enqueue. enqueue i srcID (mig_RepositoryUrl m) effectiveBranch))
                 (io_ok (m\<lparr>mig_State := MIGRATION_STATE_DESIGNING, mig_AnalysisSummaryId := srcID,
                           mig_AnalysisReused := True,
                           mig_SourceBranch := (if effectiveBranch \<noteq> [] then effectiveBranch
                                                else mig_SourceBranch m)\<rparr>)))))))"

definition StartMigration :: "'w Service \<Rightarrow> u64 \<Rightarrow> ('w, Migration) io" where
  "StartMigration S i =
     (if i = 0 then io_err ErrMissingIdentifier
      else io_bind (repo_GetByID (svc_repo S) i False) (\<lambda>m.
        if mig_State m \<noteq> MIGRATION_STATE_PENDING then io_err ErrInvalidStateTransition
        else if mig_SourceAnalysisSummaryId m \<noteq> 0 then startWithReuse S m
        else startNormal S m))"

section \<open>The decision on the design\<close>

definition migrabilityBlocked :: "Migration \<Rightarrow> bool" where
  "migrabilityBlocked m =
     (case mig_MigrabilityAssessment m of
        None \<Rightarrow> False
      | Some v \<Rightarrow> ma_Verdict v = MigrabilityVerdictNotMigrable \<and> \<not> mig_MigrabilityOverride m)"

definition ApproveDesign :: "'w Service \<Rightarrow> u64 \<Rightarrow> bool \<Rightarrow> string list \<Rightarrow> ('w, Migration) io" where
  "ApproveDesign S i approved serviceFilter =
     (if i = 0 then io_err ErrMissingIdentifier
      else io_bind (repo_GetByID (svc_repo S) i False) (\<lambda>m.
        if mig_State m \<noteq> MIGRATION_STATE_AWAITING_APPROVAL then io_err ErrInvalidStateTransition
        else if approved \<and> GetNoServiceBoundaries (mig_Plan m) then io_err ErrNoServiceBoundaries
        else if approved \<and> migrabilityBlocked m then io_err ErrNotMigrableBlocked
        else
          let nextState = (if approved then MIGRATION_STATE_GENERATING else MIGRATION_STATE_CANCELLED)
          in io_bind (repo_UpdateState (svc_repo S) i nextState) (\<lambda>_.
             io_ignore (if approved
                        then when_set (svc_generationEnqueuer S) (\<lambda>enqueue. enqueue i serviceFilter)
                        else io_ok ())
               (io_ok (m\<lparr>mig_State := nextState\<rparr>)))))"

definition CancelMigration :: "'w Service \<Rightarrow> u64 \<Rightarrow> ('w, Migration) io" where
  "CancelMigration S i =
     (if i = 0 then io_err ErrMissingIdentifier
      else io_bind (repo_GetByID (svc_repo S) i False) (\<lambda>m.
        if isTerminalState (mig_State m) then io_err ErrInvalidStateTransition
        else io_bind (repo_UpdateState (svc_repo S) i MIGRATION_STATE_CANCELLED) (\<lambda>_.
          io_ok (m\<lparr>mig_State := MIGRATION_STATE_CANCELLED\<rparr>))))"

section \<open>Migrability\<close>

definition AssessMigrability :: "'w Service \<Rightarrow> u64 \<Rightarrow> string \<Rightarrow> ('w, Migration) io" where
  "AssessMigrability S i language =
     (if i = 0 then io_err ErrMissingIdentifier
      else io_bind (repo_GetByID (svc_repo S) i False) (\<lambda>m.
        if mig_AnalysisSummaryId m = 0 then io_err ErrNoAnalysisSummary
        else case svc_migrabilityAssessor S of
          None \<Rightarrow> io_err (ErrStr ''migration: migrability assessor not configured'')
        | Some Assess \<Rightarrow>
            io_bind (io_wrap ''migration: assess migrability: ''
                       (Assess (mig_AnalysisSummaryId m) language)) (\<lambda>assessment.
            State_Monad.bind
              (case svc_analysis S of
                 None \<Rightarrow> State_Monad.return assessment
               | Some c \<Rightarrow> State_Monad.bind (GetAnalysisSummary c (mig_AnalysisSummaryId m)) (\<lambda>r.
                   State_Monad.return
                     (case r of
                        Inl _ \<Rightarrow> assessment
                      | Inr summary \<Rightarrow> (case as_MigrabilityScore summary of
                            None \<Rightarrow> assessment
                          | Some ms \<Rightarrow> assessment\<lparr>ma_MigrabilityScore := Some (ms_Value ms),
                                                 ma_ScoreSignals := ms_Signals ms\<rparr>)))) (\<lambda>assessment.
            io_bind (io_wrap ''migration: persist assessment: ''
                       (repo_SetMigrabilityAssessment (svc_repo S) i assessment)) (\<lambda>_.
            io_ok (m\<lparr>mig_MigrabilityAssessment := Some assessment\<rparr>))))))"

definition SetMigrabilityOverride :: "'w Service \<Rightarrow> u64 \<Rightarrow> bool \<Rightarrow> ('w, Migration) io" where
  "SetMigrabilityOverride S i override =
     (if i = 0 then io_err ErrMissingIdentifier
      else io_bind (repo_GetByID (svc_repo S) i False) (\<lambda>m.
        io_bind (io_wrap ''migration: set override: ''
                   (repo_SetMigrabilityOverride (svc_repo S) i override)) (\<lambda>_.
        io_ok (m\<lparr>mig_MigrabilityOverride := override\<rparr>))))"

section \<open>The roadmap\<close>

definition unavailable_assessment :: MigrabilityAssessment where
  "unavailable_assessment =
     zero_MigrabilityAssessment\<lparr>ma_Verdict := ''UNAVAILABLE'',
       ma_Summary := ''Diagnosis unavailable '' @ em_dash @
         '' the analysis did not produce a score; re-run analysis to populate this section''\<rparr>"

definition GenerateRestructuringRoadmap :: "'w Service \<Rightarrow> u64 \<Rightarrow> ('w, Migration) io" where
  "GenerateRestructuringRoadmap S i =
     (if i = 0 then io_err ErrMissingIdentifier
      else io_bind (repo_GetByID (svc_repo S) i False) (\<lambda>m.
        if mig_State m \<noteq> MIGRATION_STATE_AWAITING_APPROVAL then io_err ErrInvalidStateTransition
        else
          let isNotMigrable =
                (case mig_MigrabilityAssessment m of
                   None \<Rightarrow> False | Some a \<Rightarrow> ma_Verdict a = MigrabilityVerdictNotMigrable);
              isNoServiceBoundaries =
                (case mig_Plan m of None \<Rightarrow> False | Some p \<Rightarrow> rp_NoServiceBoundaries p)
          in if \<not> isNotMigrable \<and> \<not> isNoServiceBoundaries then io_err ErrRoadmapUnavailable
             else State_Monad.bind
               (case svc_analysis S of
                  None \<Rightarrow> State_Monad.return (mig_MigrabilityAssessment m, [])
                | Some c \<Rightarrow>
                    if mig_AnalysisSummaryId m = 0
                    then State_Monad.return (mig_MigrabilityAssessment m, [])
                    else State_Monad.bind (GetAnalysisSummary c (mig_AnalysisSummaryId m)) (\<lambda>r.
                      State_Monad.return
                        (case r of
                           Inl _ \<Rightarrow> (mig_MigrabilityAssessment m, [])
                         | Inr summary \<Rightarrow>
                             (if mig_MigrabilityAssessment m = None
                              then syntheticAssessmentFromScore (as_MigrabilityScore summary) (mig_Plan m)
                              else mig_MigrabilityAssessment m,
                              GetInfraModules (as_ModuleClassification summary)))))
               (\<lambda>(assessment, infraModules).
                State_Monad.bind (svc_now S) (\<lambda>now.
                let assessment = (if assessment = None then Some unavailable_assessment else assessment);
                    roadmap = assembleRoadmap now assessment (mig_Plan m) infraModules
                in io_bind (io_wrap ''migration: persist roadmap: ''
                              (repo_SetRestructuringRoadmap (svc_repo S) i roadmap)) (\<lambda>_.
                   io_ok (m\<lparr>mig_RestructuringRoadmap := Some roadmap,
                           mig_State := MIGRATION_STATE_RESTRUCTURING_READY\<rparr>))))))"

definition EnrichRoadmap :: "'w Service \<Rightarrow> u64 \<Rightarrow> ('w, Migration) io" where
  "EnrichRoadmap S i =
     (if i = 0 then io_err ErrMissingIdentifier
      else io_bind (repo_GetByID (svc_repo S) i False) (\<lambda>m.
        if mig_State m \<noteq> MIGRATION_STATE_RESTRUCTURING_READY then io_err ErrInvalidStateTransition
        else case mig_RestructuringRoadmap m of
          None \<Rightarrow> io_err ErrNoRoadmap
        | Some roadmap \<Rightarrow>
            if rm_ActionPlan roadmap = [] then io_err ErrNoRoadmap
            else case svc_roadmapEnricher S of
              None \<Rightarrow> io_err (ErrStr ''migration: roadmap enricher not configured'')
            | Some Enrich \<Rightarrow>
                io_bind (io_wrap ''migration: enrich roadmap: '' (Enrich roadmap)) (\<lambda>enrichment.
                io_bind (io_wrap ''migration: persist enrichment: ''
                           (repo_SetRoadmapEnrichment (svc_repo S) i enrichment)) (\<lambda>_.
                io_ok (m\<lparr>mig_RestructuringRoadmap := Some (roadmap\<lparr>rm_Enrichment := Some enrichment\<rparr>)\<rparr>)))))"

definition GenerateBlueprint :: "'w Service \<Rightarrow> u64 \<Rightarrow> ('w, Migration) io" where
  "GenerateBlueprint S i =
     (if i = 0 then io_err ErrMissingIdentifier
      else io_bind (repo_GetByID (svc_repo S) i False) (\<lambda>m.
        if mig_State m \<noteq> MIGRATION_STATE_RESTRUCTURING_READY then io_err ErrInvalidStateTransition
        else if mig_AnalysisSummaryId m = 0 then io_err ErrNoBlueprintAnalysis
        else case mig_RestructuringRoadmap m of
          None \<Rightarrow> io_err ErrNoRoadmap
        | Some roadmap \<Rightarrow>
            if rm_ActionPlan roadmap = [] then io_err ErrNoRoadmap
            else case svc_blueprintGenerator S of
              None \<Rightarrow> io_err (ErrStr ''migration: blueprint generator not configured'')
            | Some Generate \<Rightarrow>
                io_bind (io_wrap ''migration: generate blueprint: ''
                           (Generate (mig_AnalysisSummaryId m) roadmap)) (\<lambda>blueprint.
                io_bind (io_wrap ''migration: persist blueprint: ''
                           (repo_SetServiceBlueprint (svc_repo S) i blueprint)) (\<lambda>_.
                io_ok (m\<lparr>mig_RestructuringRoadmap := Some (roadmap\<lparr>rm_Blueprint := Some blueprint\<rparr>)\<rparr>)))))"

definition ExportActionPlanPrompt :: "'w Service \<Rightarrow> u64 \<Rightarrow> ('w, string \<times> string) io" where
  "ExportActionPlanPrompt S i =
     (if i = 0 then io_err ErrMissingIdentifier
      else io_bind (repo_GetByID (svc_repo S) i False) (\<lambda>m.
        if mig_State m \<noteq> MIGRATION_STATE_RESTRUCTURING_READY then io_err ErrInvalidStateTransition
        else case mig_RestructuringRoadmap m of
          None \<Rightarrow> io_err ErrNoActionPlan
        | Some roadmap \<Rightarrow>
            if rm_ActionPlan roadmap = [] then io_err ErrNoActionPlan
            else State_Monad.bind
              (case svc_stackDetector S of
                 None \<Rightarrow> State_Monad.return ([], [])
               | Some Detect \<Rightarrow>
                   if mig_AnalysisSummaryId m = 0 then State_Monad.return ([], [])
                   else State_Monad.bind (Detect (mig_AnalysisSummaryId m)) (\<lambda>r.
                     State_Monad.return (case r of Inl _ \<Rightarrow> ([], []) | Inr ft \<Rightarrow> ft)))
              (\<lambda>(framework, technologies).
                 io_ok (''restructuring-prompt-'' @ repoSlugFromURL (mig_RepositoryUrl m) @ ''-'' @
                          Itoa (uint i) @ ''.md'',
                        BuildActionPlanPrompt (mig_RepositoryUrl m) i roadmap framework technologies
                          (resolveProfile framework technologies)))))"

section \<open>Generation and publication\<close>

definition outputProfileLabel :: "TargetConfig option \<Rightarrow> string" where
  "outputProfileLabel tc =
     (case tc of None \<Rightarrow> ''go''
      | Some t \<Rightarrow> if tc_Language t = TARGET_LANGUAGE_PYTHON then ''python'' else ''go'')"

definition generatorPromptRef :: "string \<Rightarrow> string" where
  "generatorPromptRef profile =
     (if profile = ''python'' then ''docs/prism/milton-prism-python-service-generator-prompt.md''
      else ''docs/prism/milton-prism-service-generator-prompt.md'')"

text \<open>A Go map filled from a list: the last entry of a key wins, a missing key gives the zero
  value.\<close>

definition go_map_of :: "(string \<times> string) list \<Rightarrow> string \<Rightarrow> string" where
  "go_map_of kvs k = (case map_of (rev kvs) k of None \<Rightarrow> [] | Some v \<Rightarrow> v)"

definition GetGenerationPackage :: "'w Service \<Rightarrow> u64 \<Rightarrow> ('w, GenerationPackage) io" where
  "GetGenerationPackage S i =
     (if i = 0 then io_err ErrMissingIdentifier
      else io_bind (repo_GetByID (svc_repo S) i False) (\<lambda>m.
        if mig_State m \<noteq> MIGRATION_STATE_GENERATING then io_err ErrInvalidStateTransition
        else io_bind (io_wrap ''generation-package: read artifacts: '' (svc_artifacts S i)) (\<lambda>artifacts.
          if artifacts = []
          then io_err (Wrap [] ErrInternal ('': no design artifacts for migration '' @ Itoa (uint i)))
          else
            let prefixByName = go_map_of
                  (map (\<lambda>svc. (ps_Name svc, ps_ErrorPrefix svc)) (GetPlanServices (mig_Plan m)));
                profile = outputProfileLabel (mig_Target m);
                promptRef = generatorPromptRef profile
            in io_ok \<lparr> gp_MigrationId = i, gp_OutputProfile = profile,
                 gp_Services = map (\<lambda>a.
                   \<lparr> gs_Name = sa_ServiceName a, gs_ErrorPrefix = prefixByName (sa_ServiceName a),
                     gs_ProtoContent = sa_ProtoContent a, gs_BoundarySpec = sa_BoundarySpec a,
                     gs_Incomplete = sa_Incomplete a, gs_IncompleteReason = sa_IncompleteReason a,
                     gs_GeneratorPromptRef = promptRef \<rparr>) artifacts \<rparr>)))"

text \<open>
  The index of the files by path: the content seen first, and the services whose content differs
  from it after the service that gave it. Go iterates over the index in an order of its own; the
  conflicts are sorted afterwards, so the order does not matter.
\<close>

type_synonym path_entry = "string \<times> string list"

fun index_file :: "GeneratedFile \<Rightarrow> (string \<times> path_entry) list \<Rightarrow> (string \<times> path_entry) list" where
  "index_file f [] = [(gf_Path f, gf_Content f, [gf_ServiceName f])]"
| "index_file f ((p, c, svcs) # es) =
     (if p = gf_Path f
      then (p, c, if gf_Content f \<noteq> c then svcs @ [gf_ServiceName f] else svcs) # es
      else (p, c, svcs) # index_file f es)"

definition index_files :: "GeneratedFile list \<Rightarrow> (string \<times> path_entry) list" where
  "index_files files = fold index_file files []"

definition path_conflicts :: "(string \<times> path_entry) list \<Rightarrow> string list" where
  "path_conflicts idx =
     map (\<lambda>(p, c, svcs). p @ '' (services: '' @ strings_Join (sort svcs) '', '' @ '')'')
       (filter (\<lambda>(p, c, svcs). 1 < length svcs) idx)"

definition detectPathConflicts :: "GeneratedFile list \<Rightarrow> go_error option" where
  "detectPathConflicts files =
     (let conflicts = path_conflicts (index_files files)
      in if conflicts = [] then None
         else Some (NewErrArtifactConflict (strings_Join (sort conflicts) ''; '')))"

definition PublishMigration ::
  "'w Service \<Rightarrow> u64 \<Rightarrow> string \<Rightarrow> string \<Rightarrow> string \<Rightarrow> ('w, Migration \<times> string) io" where
  "PublishMigration S i targetURL writeToken commitMessage =
     (if i = 0 then io_err ErrMissingIdentifier
      else if targetURL = [] then io_err ErrMissingPayload
      else io_bind (repo_GetByID (svc_repo S) i False) (\<lambda>m.
        if mig_State m \<noteq> MIGRATION_STATE_READY \<and> mig_State m \<noteq> MIGRATION_STATE_PUSHED
        then io_err ErrInvalidStateTransition
        else io_bind (io_wrap (''publish: read artifacts migration_id='' @ Itoa (uint i) @ '': '')
                        (svc_fileArtifactReader S i [])) (\<lambda>files.
          if files = [] then io_err ErrNoArtifacts
          else case detectPathConflicts files of
            Some err \<Rightarrow> io_err err
          | None \<Rightarrow>
              let pushFiles = map (\<lambda>f. \<lparr> pf_Path = gf_Path f, pf_Content = gf_Content f \<rparr>) files
              in io_bind (case svc_repoSvc S of
                            None \<Rightarrow> nil_deref
                          | Some c \<Rightarrow> PushFiles c targetURL writeToken pushFiles commitMessage) (\<lambda>pushedBranch.
                 if mig_State m \<noteq> MIGRATION_STATE_PUSHED
                 then io_bind (repo_UpdateState (svc_repo S) i MIGRATION_STATE_PUSHED) (\<lambda>_.
                        io_ok (m\<lparr>mig_State := MIGRATION_STATE_PUSHED\<rparr>, pushedBranch))
                 else io_ok (m, pushedBranch)))))"

definition GetGenerationArtifacts ::
  "'w Service \<Rightarrow> u64 \<Rightarrow> string \<Rightarrow> ('w, ServiceGenerationArtifacts list) io" where
  "GetGenerationArtifacts S i serviceName =
     (if i = 0 then io_err ErrMissingIdentifier
      else io_bind (repo_GetByID (svc_repo S) i False) (\<lambda>_.
        io_bind (io_wrap ''generation-artifacts: read files: ''
                   (svc_fileArtifactReader S i serviceName)) (\<lambda>files.
        State_Monad.bind
          (case svc_generationResultReader S of
             None \<Rightarrow> State_Monad.return []
           | Some read \<Rightarrow> State_Monad.bind (read i) (\<lambda>r.
               State_Monad.return (case r of Inl _ \<Rightarrow> [] | Inr records \<Rightarrow> records))) (\<lambda>records.
        let rawResults = go_map_of (map (\<lambda>r. (gr_ServiceName r, gr_AgentRawResult r)) records);
            order = sort (rev (remdups (rev (map gf_ServiceName files))))
        in io_ok (map (\<lambda>name.
             \<lparr> sga_ServiceName = name,
               sga_Files = map (\<lambda>f. \<lparr> fa_Path = gf_Path f, fa_Content = gf_Content f \<rparr>)
                 (filter (\<lambda>f. gf_ServiceName f = name) files),
               sga_AgentRawResult = rawResults name \<rparr>) order)))))"

section \<open>The deliverable\<close>

text \<open>\<^verbatim>\<open>download_deliverable.go\<close>. The loop of \<^verbatim>\<open>buildZip\<close> carries the entries written so far.\<close>

fun zip_files :: "ZipWriter \<Rightarrow> zip_entries \<Rightarrow> DeliverableFile list \<Rightarrow> go_error + zip_entries" where
  "zip_files Z written [] = Inr written"
| "zip_files Z written (f # fs) =
     (case zw_CreateHeader Z written (df_Path f) of
        Some e \<Rightarrow> Inl (wrap_error (''zip: create entry '' @ df_Path f @ '': '') e [])
      | None \<Rightarrow>
          (case zw_Write Z (written @ [(df_Path f, [])]) (df_Content f) of
             Some e \<Rightarrow> Inl (wrap_error (''zip: write entry '' @ df_Path f @ '': '') e [])
           | None \<Rightarrow> zip_files Z (written @ [(df_Path f, df_Content f)]) fs))"

definition buildZip :: "ZipWriter \<Rightarrow> DeliverableFile list \<Rightarrow> go_error + string" where
  "buildZip Z files =
     (case zip_files Z [] files of
        Inl e \<Rightarrow> Inl e
      | Inr entries \<Rightarrow>
          (case zw_Close Z entries of
             Inl e \<Rightarrow> Inl (wrap_error ''zip: close: '' e [])
           | Inr data \<Rightarrow> Inr data))"

definition DownloadDeliverable :: "'w Service \<Rightarrow> u64 \<Rightarrow> ('w, string) io" where
  "DownloadDeliverable S i =
     (if i = 0 then io_err ErrMissingIdentifier
      else if svc_monorepoPath S = []
      then io_err (ErrStr ''download-deliverable: PRISM_MONOREPO_PATH not configured on this instance'')
      else io_bind (repo_GetByID (svc_repo S) i False) (\<lambda>m.
        if mig_State m \<noteq> MIGRATION_STATE_READY \<and> mig_State m \<noteq> MIGRATION_STATE_PUSHED
        then io_err ErrInvalidStateTransition
        else
          let useApiGateway = (case mig_Target m of None \<Rightarrow> True | Some t \<Rightarrow> tc_UseApiGateway t)
          in io_bind (io_wrap (''download-deliverable: read artifacts migration_id='' @
                         Itoa (uint i) @ '': '') (svc_fileArtifactReader S i [])) (\<lambda>raw.
             io_bind (io_wrap (''download-deliverable: assemble migration_id='' @ Itoa (uint i) @ '': '')
                        (svc_assemble S (svc_monorepoPath S) useApiGateway
                          (map (\<lambda>f. \<lparr> if_Path = gf_Path f, if_Content = gf_Content f \<rparr>) raw))) (\<lambda>files.
               State_Monad.return (buildZip (svc_zip S) files)))))"

lemma buildZip_error: "buildZip Z files = Inl e \<Longrightarrow> \<not> domain_error e"
proof -
  have "zip_files Z written files = Inl e \<Longrightarrow> \<not> domain_error e" for written e
    by (induction files arbitrary: written) (auto split: option.splits)
  then show "buildZip Z files = Inl e \<Longrightarrow> \<not> domain_error e"
    by (auto simp: buildZip_def split: sum.splits)
qed

section \<open>The backfill at start-up\<close>

text \<open>One page: the missing URLs by repository, in the order the repositories are met, then one
  write per migration that lacks its URL.\<close>

fun fetch_urls :: "'w RepositoryClient \<Rightarrow> u64 list \<Rightarrow> ('w, (u64 \<times> string) list) state" where
  "fetch_urls c [] = State_Monad.return []"
| "fetch_urls c (i # is) =
     State_Monad.bind (FetchRepositoryURL c i) (\<lambda>r.
     State_Monad.bind (fetch_urls c is) (\<lambda>rest.
     State_Monad.return (case r of Inl _ \<Rightarrow> rest | Inr url \<Rightarrow> (i, url) # rest)))"

fun set_urls :: "'w Service \<Rightarrow> (u64 \<times> string) list \<Rightarrow> Migration list \<Rightarrow> ('w, unit) state" where
  "set_urls S needed [] = State_Monad.return ()"
| "set_urls S needed (m # ms) =
     (if mig_RepositoryUrl m \<noteq> [] \<or> mig_RepositoryId m = 0 then set_urls S needed ms
      else case map_of needed (mig_RepositoryId m) of
          None \<Rightarrow> set_urls S needed ms
        | Some url \<Rightarrow>
            if url = [] then set_urls S needed ms
            else io_ignore (repo_SetRepositoryURL (svc_repo S) (mig_Identifier m) url)
                   (set_urls S needed ms))"

definition backfill_page :: "'w Service \<Rightarrow> 'w RepositoryClient \<Rightarrow> Migration list \<Rightarrow> ('w, unit) state" where
  "backfill_page S c ms =
     (let ids = map mig_RepositoryId
            (filter (\<lambda>m. mig_RepositoryUrl m = [] \<and> 0 < mig_RepositoryId m) ms)
      in State_Monad.bind (fetch_urls c (rev (remdups (rev ids)))) (\<lambda>needed. set_urls S needed ms))"

text \<open>The loop over the pages, with fuel: \<open>None\<close> is fuel that ran out.\<close>

primrec backfill_loop :: "nat \<Rightarrow> 'w Service \<Rightarrow> 'w RepositoryClient \<Rightarrow> u32 \<Rightarrow> ('w, unit option) state" where
  "backfill_loop 0 S c page = State_Monad.return None"
| "backfill_loop (Suc fuel) S c page =
     State_Monad.bind
       (repo_List (svc_repo S) None
          (Some \<lparr> pq_Order = ORDER_DESC_UNSPECIFIED, pq_PageNumber = page, pq_PageSize = 100,
                  pq_SortBy = [] \<rparr>)) (\<lambda>r. case r of
         Inl _ \<Rightarrow> State_Monad.return (Some ())
       | Inr (ms, pg) \<Rightarrow>
           State_Monad.bind (backfill_page S c ms) (\<lambda>_.
             case pg of
               None \<Rightarrow> State_Monad.return (Some ())
             | Some p \<Rightarrow>
                 if pg_TotalPages p \<le> ucast page then State_Monad.return (Some ())
                 else backfill_loop fuel S c (page + 1)))"

definition BackfillRepositoryURLs :: "nat \<Rightarrow> 'w Service \<Rightarrow> ('w, unit option) state" where
  "BackfillRepositoryURLs fuel S =
     (case svc_repoSvc S of
        None \<Rightarrow> State_Monad.return (Some ())
      | Some c \<Rightarrow> backfill_loop fuel S c 1)"

end
