(* ===== verification/Mongo_Driver.thy ===== *)
theory Mongo_Driver
  imports Prism_Messages
begin

text \<open>
  What the repositories use of MongoDB and of protobuf: the operations of a collection, of the
  counter collection and of a codec as records of functions, the laws the repositories rely on,
  and the identifier generator every repository has (\<^verbatim>\<open>identifier.go\<close>). A BSON filter is a predicate
  on documents, a \<^verbatim>\<open>$set\<close> a function on them, and the driver's \<^verbatim>\<open>ErrNoDocuments\<close> the result \<open>None\<close>.
\<close>

section \<open>Collections and codecs\<close>

record ('w, 'd) Collection =
  FindOne :: "('d \<Rightarrow> bool) \<Rightarrow> ('w, 'd option) io"
  Find :: "('d \<Rightarrow> bool) \<Rightarrow> int \<Rightarrow> int \<Rightarrow> ('w, ('w, 'd list) io) io"
  CountDocuments :: "('d \<Rightarrow> bool) \<Rightarrow> ('w, u64) io"
  InsertOne :: "'d \<Rightarrow> ('w, unit) io"
  UpdateOne :: "('d \<Rightarrow> bool) \<Rightarrow> ('d \<Rightarrow> 'd) \<Rightarrow> ('w, nat) io"

record ('m, 'b) Codec =
  Marshal :: "'m \<Rightarrow> go_error + 'b list"
  Unmarshal :: "'b list \<Rightarrow> go_error + 'm"

text \<open>The counter collection: \<^verbatim>\<open>FindOneAndUpdate\<close> with \<^verbatim>\<open>$inc\<close>, the insertion of a fresh counter,
  the test for a duplicate key, the state of the context and the pause.\<close>

record 'w Counters =
  IncSeq :: "string \<Rightarrow> ('w, u64) io"
  InsertSeq :: "string \<Rightarrow> u64 \<Rightarrow> ('w, unit) io"
  IsDuplicateKeyError :: "go_error \<Rightarrow> bool"
  CtxErr :: "('w, go_error option) state"
  SleepMs :: "nat \<Rightarrow> ('w, unit) state"

section \<open>Identifiers\<close>

definition initialSequenceValue :: u64 where "initialSequenceValue = 10001"
definition maxIdentifierRetries :: nat where "maxIdentifierRetries = 3"

text \<open>The loop over the attempts that are left; \<open>attempt\<close> counts up to the bound.\<close>

function identifier_loop :: "'w Counters \<Rightarrow> string \<Rightarrow> nat \<Rightarrow> ('w, u64) io" where
  "identifier_loop C seqName attempt =
     (if maxIdentifierRetries < attempt
      then io_err (ErrStr (''counters: max retries ('' @ Itoa (int maxIdentifierRetries) @
             '') exceeded for '' @ quoted seqName))
      else State_Monad.bind (CtxErr C) (\<lambda>ctxErr. case ctxErr of
        Some e \<Rightarrow> io_err e
      | None \<Rightarrow> State_Monad.bind (InsertSeq C seqName initialSequenceValue) (\<lambda>ins. case ins of
            Inr _ \<Rightarrow> io_ok initialSequenceValue
          | Inl insertErr \<Rightarrow>
              if IsDuplicateKeyError C insertErr
              then State_Monad.bind (IncSeq C seqName) (\<lambda>inc. case inc of
                     Inr seq \<Rightarrow> io_ok seq
                   | Inl incErr \<Rightarrow>
                       io_ignore (SleepMs C (attempt * attempt * 10))
                         (identifier_loop C seqName (attempt + 1)))
              else io_err (wrap_error (''counters: failed to initialize sequence '' @ quoted seqName @ '': '')
                     insertErr []))))"
  by auto
termination
  by (relation "measure (\<lambda>(C, s, a). Suc maxIdentifierRetries - a)") auto

declare identifier_loop.simps [simp del]

definition generateIdentifier :: "'w Counters \<Rightarrow> string \<Rightarrow> ('w, u64) io" where
  "generateIdentifier C collName =
     (let seqName = collName @ ''_id_seq''
      in State_Monad.bind (IncSeq C seqName) (\<lambda>r. case r of
           Inr seq \<Rightarrow> io_ok seq
         | Inl _ \<Rightarrow> identifier_loop C seqName 1))"

section \<open>Nested messages\<close>

text \<open>Writing and reading one nested message.\<close>

definition marshal_field ::
  "('m, 'b) Codec \<Rightarrow> string \<Rightarrow> 'm option \<Rightarrow> go_error + 'b list" where
  "marshal_field c label x =
     (case x of None \<Rightarrow> Inr []
      | Some y \<Rightarrow> (case Marshal c y of
            Inl e \<Rightarrow> Inl (wrap_error (''marshal '' @ label @ '': '') e []) | Inr b \<Rightarrow> Inr b))"

definition unmarshal_field ::
  "('m, 'b) Codec \<Rightarrow> string \<Rightarrow> 'b list \<Rightarrow> go_error + 'm option" where
  "unmarshal_field c label b =
     (if b = [] then Inr None
      else case Unmarshal c b of
          Inl e \<Rightarrow> Inl (wrap_error (''unmarshal '' @ label @ '': '') e []) | Inr x \<Rightarrow> Inr (Some x))"

definition sum_bind :: "go_error + 'a \<Rightarrow> ('a \<Rightarrow> go_error + 'b) \<Rightarrow> go_error + 'b" where
  "sum_bind r f = (case r of Inl e \<Rightarrow> Inl e | Inr x \<Rightarrow> f x)"

lemma sum_bind_Inr_iff [simp]: "sum_bind r f = Inr y \<longleftrightarrow> (\<exists>x. r = Inr x \<and> f x = Inr y)"
  by (cases r) (auto simp: sum_bind_def)

lemma sum_bind_Inr [simp]: "sum_bind (Inr x) f = f x"
  by (simp add: sum_bind_def)

lemma sum_bind_Inl [simp]: "sum_bind (Inl e) f = Inl e"
  by (simp add: sum_bind_def)

section \<open>What the repositories rely on\<close>

text \<open>
  The codec: the bytes of a message are empty exactly for the zero message, and read back as the
  message. Marshalling may fail (a string that is not UTF-8).
\<close>

definition codec_ok :: "'m \<Rightarrow> ('m, 'b) Codec \<Rightarrow> bool" where
  "codec_ok zero c \<longleftrightarrow>
     (\<forall>x b. Marshal c x = Inr b \<longrightarrow> (b = [] \<longleftrightarrow> x = zero) \<and> (b \<noteq> [] \<longrightarrow> Unmarshal c b = Inr x))"

text \<open>
  The driver on a collection with a unique index on \<open>key\<close>, \<open>docs w\<close> being the documents the world
  holds. A read changes nothing and answers from the documents. An update rewrites one document
  that matches, or none when its match count is zero. After an error the write may or may not
  have happened.
\<close>

definition collection_ok :: "('d \<Rightarrow> 'k) \<Rightarrow> ('w, 'd) Collection \<Rightarrow> ('w \<Rightarrow> 'd list) \<Rightarrow> bool" where
  "collection_ok key C docs \<longleftrightarrow>
     (\<forall>q D. triple (\<lambda>w. docs w = D) (FindOne C q)
        (\<lambda>r w. docs w = D \<and>
           (case r of Inl _ \<Rightarrow> True
            | Inr None \<Rightarrow> \<forall>d\<in>set D. \<not> q d
            | Inr (Some d) \<Rightarrow> d \<in> set D \<and> q d))) \<and>
     (\<forall>q s l D. triple (\<lambda>w. docs w = D) (Find C q s l)
        (\<lambda>r w. docs w = D \<and>
           (case r of Inl _ \<Rightarrow> True
            | Inr cur \<Rightarrow> triple (\<lambda>w. docs w = D) cur
                (\<lambda>r w. docs w = D \<and>
                   (case r of Inl _ \<Rightarrow> True | Inr ds \<Rightarrow> set ds \<subseteq> {d \<in> set D. q d}))))) \<and>
     (\<forall>q. keeps docs (CountDocuments C q)) \<and>
     (\<forall>d D. triple (\<lambda>w. docs w = D) (InsertOne C d)
        (\<lambda>r w. let inserted = (key d \<notin> key ` set D \<and> docs w = D @ [d])
               in case r of Inr _ \<Rightarrow> inserted | Inl _ \<Rightarrow> docs w = D \<or> inserted)) \<and>
     (\<forall>q f D. triple (\<lambda>w. docs w = D) (UpdateOne C q f)
        (\<lambda>r w. let updated = (\<exists>xs d ys. D = xs @ d # ys \<and> q d \<and> docs w = xs @ f d # ys)
               in case r of
                    Inr n \<Rightarrow> if n = 0 then (\<forall>d\<in>set D. \<not> q d) \<and> docs w = D else updated
                  | Inl _ \<Rightarrow> docs w = D \<or> updated))"

text \<open>The clock and the counter collection do not touch the migrations.\<close>

definition counters_keep :: "'w Counters \<Rightarrow> ('w \<Rightarrow> 'v) \<Rightarrow> bool" where
  "counters_keep C obs \<longleftrightarrow>
     (\<forall>s. keeps obs (IncSeq C s)) \<and> (\<forall>s v. keeps obs (InsertSeq C s v)) \<and> keeps obs (CtxErr C) \<and>
     (\<forall>n. keeps obs (SleepMs C n))"

section \<open>Lemmas\<close>

lemma unmarshal_stored:
  "codec_ok zero c \<Longrightarrow> Marshal c x = Inr b \<Longrightarrow> unmarshal_field c l b = Inr (stored zero x)"
  by (auto simp: codec_ok_def unmarshal_field_def stored_def)

lemma unmarshal_marshal_field:
  "codec_ok zero c \<Longrightarrow> marshal_field c l x = Inr b \<Longrightarrow>
     unmarshal_field c l' b = Inr (Option.bind x (stored zero))"
  by (auto simp: marshal_field_def unmarshal_stored split: option.splits sum.splits)
     (simp add: unmarshal_field_def)

lemma keeps_identifier_loop:
  assumes "counters_keep C obs"
  shows "keeps obs (identifier_loop C s n)"
proof (induction "Suc maxIdentifierRetries - n" arbitrary: n)
  case 0
  then show ?case by (simp add: identifier_loop.simps [of C s n])
next
  case (Suc k)
  have "keeps obs (identifier_loop C s (n + 1))" by (rule Suc.hyps(1)) (use Suc.hyps(2) in simp)
  then show ?case
    using assms
    by (subst identifier_loop.simps)
       (auto simp: counters_keep_def io_ignore_def intro!: keeps_bind split: option.split sum.split)
qed

lemma keeps_generateIdentifier:
  "counters_keep C obs \<Longrightarrow> keeps obs (generateIdentifier C coll)"
  unfolding generateIdentifier_def Let_def
  by (rule keeps_bind)
     (auto simp: counters_keep_def intro: keeps_identifier_loop split: sum.split)

lemma collection_InsertOne:
  assumes "collection_ok key C docs" and run: "run_state (InsertOne C d) w = (y, w')"
  shows "case y of
      Inr _ \<Rightarrow> key d \<notin> key ` set (docs w) \<and> docs w' = docs w @ [d]
    | Inl _ \<Rightarrow> docs w' = docs w \<or> (key d \<notin> key ` set (docs w) \<and> docs w' = docs w @ [d])"
proof -
  have "triple (\<lambda>v. docs v = docs w) (InsertOne C d)
     (\<lambda>r v. let inserted = (key d \<notin> key ` set (docs w) \<and> docs v = docs w @ [d])
            in case r of Inr _ \<Rightarrow> inserted | Inl _ \<Rightarrow> docs v = docs w \<or> inserted)"
    using assms(1) by (simp add: collection_ok_def)
  from tripleD [OF this run] show ?thesis by (simp add: Let_def)
qed

lemma collection_FindOne:
  assumes "collection_ok key C docs" and run: "run_state (FindOne C q) w = (y, w')"
  shows "docs w' = docs w \<and> (case y of Inl _ \<Rightarrow> True | Inr None \<Rightarrow> \<forall>d\<in>set (docs w). \<not> q d
    | Inr (Some d) \<Rightarrow> d \<in> set (docs w) \<and> q d)"
proof -
  have "triple (\<lambda>v. docs v = docs w) (FindOne C q) (\<lambda>r v. docs v = docs w \<and>
     (case r of Inl _ \<Rightarrow> True | Inr None \<Rightarrow> \<forall>d\<in>set (docs w). \<not> q d
      | Inr (Some d) \<Rightarrow> d \<in> set (docs w) \<and> q d))"
    using assms(1) unfolding collection_ok_def by blast
  from tripleD [OF this run] show ?thesis by simp
qed

lemma collection_UpdateOne:
  assumes "collection_ok key C docs" and run: "run_state (UpdateOne C q f) w = (y, w')"
  shows "let updated = (\<exists>xs d ys. docs w = xs @ d # ys \<and> q d \<and> docs w' = xs @ f d # ys)
    in case y of Inr n \<Rightarrow> if n = 0 then (\<forall>d\<in>set (docs w). \<not> q d) \<and> docs w' = docs w else updated
       | Inl _ \<Rightarrow> docs w' = docs w \<or> updated"
proof -
  have "triple (\<lambda>v. docs v = docs w) (UpdateOne C q f)
     (\<lambda>r v. let updated = (\<exists>xs d ys. docs w = xs @ d # ys \<and> q d \<and> docs v = xs @ f d # ys)
        in case r of Inr n \<Rightarrow> if n = 0 then (\<forall>d\<in>set (docs w). \<not> q d) \<and> docs v = docs w else updated
         | Inl _ \<Rightarrow> docs v = docs w \<or> updated)"
    using assms(1) unfolding collection_ok_def by blast
  from tripleD [OF this run] show ?thesis by simp
qed

end
