(* ===== verification/Mongo_Migration_Repository.thy ===== *)
theory Mongo_Migration_Repository
  imports Migration_Ports Mongo_Driver
begin

text \<open>
  The MongoDB implementation of the repository port
  (\<^verbatim>\<open>infrastructure/repositories/mongo_migration_repository.go\<close>, \<^verbatim>\<open>identifier.go\<close>,
  \<^verbatim>\<open>mongo_transaction_manager.go\<close>).

  The MongoDB driver and the protobuf codec are not code of the repository. They are parameters:
  a record of the driver's operations and one of the codec's, on which the operations of the
  repository are defined. What the repository relies on is stated as \<open>mongo_ok\<close> and \<open>codec_ok\<close>;
  under these hypotheses the repository keeps the contract \<open>migration_repository_port\<close>.

  A BSON filter is a predicate on documents and a \<^verbatim>\<open>$set\<close> a function on them. The driver's
  \<^verbatim>\<open>ErrNoDocuments\<close> is the result \<open>None\<close> of \<open>FindOne\<close>. The field \<^verbatim>\<open>state\<close> holds the number of the
  enum constant; the model keeps the constant. The stored document has one field the Go struct
  lacks, \<open>bson_FailureReason\<close>: the workers write it and the decoding of a document drops it.
  \<open>Find\<close> sorts by creation time, newest first, and
  returns a cursor, which is the computation that reads all its documents.
\<close>

section \<open>The driver and the codec\<close>

record 'b mongoMigrationDoc =
  doc_Identifier :: u64
  doc_RepositoryID :: u64
  doc_RepositoryURL :: string
  doc_OwnerUserID :: u64
  doc_SourceBranch :: string
  doc_State :: MigrationState
  doc_TargetBytes :: "'b list"
  doc_AnalysisSummaryID :: u64
  doc_SourceAnalysisSummaryID :: u64
  doc_PlanBytes :: "'b list"
  doc_OutputBytes :: "'b list"
  doc_AssessmentBytes :: "'b list"
  doc_MigrabilityOverride :: bool
  doc_AnalysisReused :: bool
  doc_RoadmapBytes :: "'b list"
  doc_EnrichmentBytes :: "'b list"
  doc_BlueprintBytes :: "'b list"
  doc_CreateTime :: Timestamp
  doc_UpdateTime :: "Timestamp option"
  doc_DeleteTime :: "Timestamp option"
  doc_PurgeTime :: "Timestamp option"
  bson_FailureReason :: string

record 'b Codecs =
  cTarget :: "(TargetConfig, 'b) Codec"
  cPlan :: "(RestructurePlan, 'b) Codec"
  cOutput :: "(MigrationOutput, 'b) Codec"
  cAssessment :: "(MigrabilityAssessment, 'b) Codec"
  cRoadmap :: "(RestructuringRoadmap, 'b) Codec"
  cEnrichment :: "(RoadmapEnrichment, 'b) Codec"
  cBlueprint :: "(ServiceBlueprint, 'b) Codec"

record ('w, 'b) MongoDB =
  db_coll :: "('w, 'b mongoMigrationDoc) Collection"
  db_counters :: "'w Counters"
  db_codecs :: "'b Codecs"
  db_now :: "('w, Timestamp) state"

section \<open>Documents\<close>

definition migrationsCollName :: string where "migrationsCollName = ''migrations''"

definition GetEnrichment :: "RestructuringRoadmap option \<Rightarrow> RoadmapEnrichment option" where
  "GetEnrichment r = Option.bind r rm_Enrichment"

definition GetBlueprint :: "RestructuringRoadmap option \<Rightarrow> ServiceBlueprint option" where
  "GetBlueprint r = Option.bind r rm_Blueprint"

definition migrationToDoc :: "'b Codecs \<Rightarrow> Migration \<Rightarrow> go_error + 'b mongoMigrationDoc" where
  "migrationToDoc C m =
     sum_bind (marshal_field (cTarget C) ''target'' (mig_Target m)) (\<lambda>tb.
     sum_bind (marshal_field (cPlan C) ''plan'' (mig_Plan m)) (\<lambda>pb.
     sum_bind (marshal_field (cOutput C) ''output'' (mig_Output m)) (\<lambda>ob.
     sum_bind (marshal_field (cAssessment C) ''assessment'' (mig_MigrabilityAssessment m)) (\<lambda>ab.
     sum_bind (marshal_field (cRoadmap C) ''roadmap'' (mig_RestructuringRoadmap m)) (\<lambda>rb.
     sum_bind (marshal_field (cEnrichment C) ''enrichment''
                 (GetEnrichment (mig_RestructuringRoadmap m))) (\<lambda>eb.
     sum_bind (marshal_field (cBlueprint C) ''blueprint''
                 (GetBlueprint (mig_RestructuringRoadmap m))) (\<lambda>bb.
     Inr \<lparr> doc_Identifier = 0, doc_RepositoryID = mig_RepositoryId m,
           doc_RepositoryURL = mig_RepositoryUrl m, doc_OwnerUserID = mig_OwnerUserId m,
           doc_SourceBranch = mig_SourceBranch m, doc_State = mig_State m,
           doc_TargetBytes = tb, doc_AnalysisSummaryID = mig_AnalysisSummaryId m,
           doc_SourceAnalysisSummaryID = mig_SourceAnalysisSummaryId m,
           doc_PlanBytes = pb, doc_OutputBytes = ob, doc_AssessmentBytes = ab,
           doc_MigrabilityOverride = mig_MigrabilityOverride m, doc_AnalysisReused = False,
           doc_RoadmapBytes = rb, doc_EnrichmentBytes = eb, doc_BlueprintBytes = bb,
           doc_CreateTime = 0, doc_UpdateTime = None, doc_DeleteTime = None,
           doc_PurgeTime = None, bson_FailureReason = [] \<rparr>)))))))"

text \<open>The roadmap of a document: its own bytes, with the enrichment and the blueprint that are
  stored beside them.\<close>

definition doc_roadmap ::
  "'b Codecs \<Rightarrow> 'b mongoMigrationDoc \<Rightarrow> go_error + RestructuringRoadmap option" where
  "doc_roadmap C d =
     sum_bind (unmarshal_field (cRoadmap C) ''roadmap'' (doc_RoadmapBytes d)) (\<lambda>rm. case rm of
       None \<Rightarrow> Inr None
     | Some rm \<Rightarrow>
         sum_bind (unmarshal_field (cEnrichment C) ''enrichment'' (doc_EnrichmentBytes d)) (\<lambda>enr.
         sum_bind (unmarshal_field (cBlueprint C) ''blueprint'' (doc_BlueprintBytes d)) (\<lambda>bp.
         Inr (Some (rm\<lparr>rm_Enrichment := (if enr = None then rm_Enrichment rm else enr),
                       rm_Blueprint := (if bp = None then rm_Blueprint rm else bp)\<rparr>)))))"

definition migrationDocToDomain ::
  "'b Codecs \<Rightarrow> 'b mongoMigrationDoc \<Rightarrow> go_error + Migration" where
  "migrationDocToDomain C d =
     sum_bind (unmarshal_field (cTarget C) ''target'' (doc_TargetBytes d)) (\<lambda>tc.
     sum_bind (unmarshal_field (cPlan C) ''plan'' (doc_PlanBytes d)) (\<lambda>plan.
     sum_bind (unmarshal_field (cOutput C) ''output'' (doc_OutputBytes d)) (\<lambda>output.
     sum_bind (unmarshal_field (cAssessment C) ''assessment'' (doc_AssessmentBytes d)) (\<lambda>a.
     sum_bind (doc_roadmap C d) (\<lambda>rm.
     Inr \<lparr> mig_Identifier = doc_Identifier d, mig_RepositoryId = doc_RepositoryID d,
           mig_OwnerUserId = doc_OwnerUserID d, mig_SourceBranch = doc_SourceBranch d,
           mig_State = doc_State d, mig_Target = tc,
           mig_AnalysisSummaryId = doc_AnalysisSummaryID d, mig_Plan = plan, mig_Output = output,
           mig_GenerationRecords = [],
           mig_CreateTime = (if doc_CreateTime d \<noteq> 0 then Some (doc_CreateTime d) else None),
           mig_UpdateTime = doc_UpdateTime d, mig_DeleteTime = doc_DeleteTime d,
           mig_PurgeTime = doc_PurgeTime d, mig_FailureReason = [],
           mig_RepositoryUrl = doc_RepositoryURL d, mig_MigrabilityAssessment = a,
           mig_MigrabilityOverride = doc_MigrabilityOverride d,
           mig_AnalysisReused = doc_AnalysisReused d, mig_RestructuringRoadmap = rm,
           mig_SourceAnalysisSummaryId = doc_SourceAnalysisSummaryID d \<rparr>)))))"

section \<open>The operations\<close>

abbreviation live_at :: "u64 \<Rightarrow> 'b mongoMigrationDoc \<Rightarrow> bool" where
  "live_at i d \<equiv> doc_Identifier d = i \<and> doc_DeleteTime d = None"

text \<open>The tail of every write: an error of the driver is wrapped, a match count of zero is
  \<open>ErrMigrationNotFound\<close>.\<close>

definition update_one ::
  "('w, 'b) MongoDB \<Rightarrow> string \<Rightarrow> ('b mongoMigrationDoc \<Rightarrow> bool) \<Rightarrow>
   ('b mongoMigrationDoc \<Rightarrow> 'b mongoMigrationDoc) \<Rightarrow> ('w, unit) io" where
  "update_one D label q f =
     io_bind (io_wrap (''migration: '' @ label @ '' failed: '') (UpdateOne (db_coll D) q f))
       (\<lambda>matched. if matched = 0 then io_err ErrMigrationNotFound else io_ok ())"

definition mongo_Create :: "('w, 'b) MongoDB \<Rightarrow> Migration \<Rightarrow> ('w, Migration) io" where
  "mongo_Create D m =
     io_bind (io_wrap ''migration: identifier: ''
                (generateIdentifier (db_counters D) migrationsCollName)) (\<lambda>id.
     io_bind (io_wrap ''migration: serialize: ''
                (State_Monad.return (migrationToDoc (db_codecs D) m))) (\<lambda>doc.
     State_Monad.bind (db_now D) (\<lambda>now.
     (let doc = doc\<lparr>doc_Identifier := id, doc_CreateTime := now\<rparr>
      in io_bind (io_wrap ''migration: insert failed: '' (InsertOne (db_coll D) doc))
           (\<lambda>_. State_Monad.return (migrationDocToDomain (db_codecs D) doc))))))"

definition mongo_GetByID :: "('w, 'b) MongoDB \<Rightarrow> u64 \<Rightarrow> bool \<Rightarrow> ('w, Migration) io" where
  "mongo_GetByID D i includeDeleted =
     (let q = (\<lambda>d. doc_Identifier d = i \<and> (includeDeleted \<or> doc_DeleteTime d = None))
      in io_bind (io_wrap ''migration: find one failed: '' (FindOne (db_coll D) q)) (\<lambda>found.
           case found of
             None \<Rightarrow> io_err ErrMigrationNotFound
           | Some doc \<Rightarrow> State_Monad.return (migrationDocToDomain (db_codecs D) doc)))"

text \<open>The query of a listing.\<close>

definition list_query :: "MigrationsFilter option \<Rightarrow> 'b mongoMigrationDoc \<Rightarrow> bool" where
  "list_query flt d \<longleftrightarrow>
     doc_DeleteTime d = None \<and>
     (case flt of None \<Rightarrow> True
      | Some f \<Rightarrow>
          (case mf_OwnerUserId f of None \<Rightarrow> True | Some u \<Rightarrow> u \<noteq> 0 \<longrightarrow> doc_OwnerUserID d = u) \<and>
          (case mf_RepositoryId f of None \<Rightarrow> True | Some u \<Rightarrow> u \<noteq> 0 \<longrightarrow> doc_RepositoryID d = u) \<and>
          (if mf_States f \<noteq> [] then doc_State d \<in> set (mf_States f)
           else case mf_State f of None \<Rightarrow> True
                | Some s \<Rightarrow> s \<noteq> MIGRATION_STATE_UNSPECIFIED \<longrightarrow> doc_State d = s))"

definition GetPageNumber :: "PageQueryParams option \<Rightarrow> u32" where
  "GetPageNumber p = (case p of None \<Rightarrow> 0 | Some q \<Rightarrow> pq_PageNumber q)"

definition GetPageSize :: "PageQueryParams option \<Rightarrow> u32" where
  "GetPageSize p = (case p of None \<Rightarrow> 0 | Some q \<Rightarrow> pq_PageSize q)"

text \<open>The number of documents to skip is computed at 32 bits before it is widened.\<close>

definition list_skip :: "PageQueryParams option \<Rightarrow> int" where
  "list_skip p =
     (let pageNumber = (if GetPageNumber p = 0 then 1 else GetPageNumber p)
      in uint ((pageNumber - 1) * GetPageSize p))"

fun docs_to_domain :: "'b Codecs \<Rightarrow> 'b mongoMigrationDoc list \<Rightarrow> go_error + Migration list" where
  "docs_to_domain C [] = Inr []"
| "docs_to_domain C (d # ds) =
     (case migrationDocToDomain C d of
        Inl e \<Rightarrow> Inl (wrap_error ''migration: deserialize: '' e [])
      | Inr m \<Rightarrow> sum_bind (docs_to_domain C ds) (\<lambda>ms. Inr (m # ms)))"

definition mongo_List ::
  "('w, 'b) MongoDB \<Rightarrow> MigrationsFilter option \<Rightarrow> PageQueryParams option \<Rightarrow>
   ('w, Migration list \<times> Pagination option) io" where
  "mongo_List D flt params =
     io_bind (io_wrap ''migration: list failed: ''
                (Find (db_coll D) (list_query flt) (list_skip params)
                   (uint (GetPageSize params)))) (\<lambda>cur.
     io_bind (io_wrap ''migration: decode failed: '' cur) (\<lambda>docs.
     State_Monad.bind (CountDocuments (db_coll D) (list_query flt)) (\<lambda>c.
     let total = (case c of Inl _ \<Rightarrow> 0 | Inr n \<Rightarrow> n)
     in io_bind (State_Monad.return (docs_to_domain (db_codecs D) docs)) (\<lambda>out.
          io_ok (out, Some (NewPagination (GetPageNumber params) (GetPageSize params) total))))))"

definition mongo_UpdateState :: "('w, 'b) MongoDB \<Rightarrow> u64 \<Rightarrow> MigrationState \<Rightarrow> ('w, unit) io" where
  "mongo_UpdateState D i state =
     State_Monad.bind (db_now D) (\<lambda>now.
       update_one D ''update_state'' (live_at i)
         (\<lambda>d. d\<lparr>doc_State := state, doc_UpdateTime := Some now\<rparr>))"

definition mongo_SetRepositoryURL :: "('w, 'b) MongoDB \<Rightarrow> u64 \<Rightarrow> string \<Rightarrow> ('w, unit) io" where
  "mongo_SetRepositoryURL D i url =
     update_one D ''set_repository_url'' (\<lambda>d. doc_Identifier d = i)
       (\<lambda>d. d\<lparr>doc_RepositoryURL := url\<rparr>)"

definition mongo_SetMigrabilityAssessment ::
  "('w, 'b) MongoDB \<Rightarrow> u64 \<Rightarrow> MigrabilityAssessment \<Rightarrow> ('w, unit) io" where
  "mongo_SetMigrabilityAssessment D i assessment =
     io_bind (io_wrap ''migration: marshal assessment: ''
                (State_Monad.return (Marshal (cAssessment (db_codecs D)) assessment))) (\<lambda>b.
     State_Monad.bind (db_now D) (\<lambda>now.
       update_one D ''set_migrability_assessment'' (live_at i)
         (\<lambda>d. d\<lparr>doc_AssessmentBytes := b, doc_UpdateTime := Some now\<rparr>)))"

definition mongo_SetMigrabilityOverride :: "('w, 'b) MongoDB \<Rightarrow> u64 \<Rightarrow> bool \<Rightarrow> ('w, unit) io" where
  "mongo_SetMigrabilityOverride D i override =
     State_Monad.bind (db_now D) (\<lambda>now.
       update_one D ''set_migrability_override'' (live_at i)
         (\<lambda>d. d\<lparr>doc_MigrabilityOverride := override, doc_UpdateTime := Some now\<rparr>))"

definition mongo_SetRestructuringRoadmap ::
  "('w, 'b) MongoDB \<Rightarrow> u64 \<Rightarrow> RestructuringRoadmap \<Rightarrow> ('w, unit) io" where
  "mongo_SetRestructuringRoadmap D i roadmap =
     io_bind (io_wrap ''migration: marshal roadmap: ''
                (State_Monad.return (Marshal (cRoadmap (db_codecs D)) roadmap))) (\<lambda>b.
     State_Monad.bind (db_now D) (\<lambda>now.
       update_one D ''set_restructuring_roadmap''
         (\<lambda>d. live_at i d \<and> doc_State d = MIGRATION_STATE_AWAITING_APPROVAL)
         (\<lambda>d. d\<lparr>doc_State := MIGRATION_STATE_RESTRUCTURING_READY, doc_RoadmapBytes := b,
                doc_UpdateTime := Some now\<rparr>)))"

definition mongo_SetRoadmapEnrichment ::
  "('w, 'b) MongoDB \<Rightarrow> u64 \<Rightarrow> RoadmapEnrichment \<Rightarrow> ('w, unit) io" where
  "mongo_SetRoadmapEnrichment D i enrichment =
     io_bind (io_wrap ''migration: marshal enrichment: ''
                (State_Monad.return (Marshal (cEnrichment (db_codecs D)) enrichment))) (\<lambda>b.
     State_Monad.bind (db_now D) (\<lambda>now.
       update_one D ''set_roadmap_enrichment'' (live_at i)
         (\<lambda>d. d\<lparr>doc_EnrichmentBytes := b, doc_UpdateTime := Some now\<rparr>)))"

definition mongo_SetServiceBlueprint ::
  "('w, 'b) MongoDB \<Rightarrow> u64 \<Rightarrow> ServiceBlueprint \<Rightarrow> ('w, unit) io" where
  "mongo_SetServiceBlueprint D i blueprint =
     io_bind (io_wrap ''migration: marshal blueprint: ''
                (State_Monad.return (Marshal (cBlueprint (db_codecs D)) blueprint))) (\<lambda>b.
     State_Monad.bind (db_now D) (\<lambda>now.
       update_one D ''set_service_blueprint'' (live_at i)
         (\<lambda>d. d\<lparr>doc_BlueprintBytes := b, doc_UpdateTime := Some now\<rparr>)))"

definition mongo_SoftDelete :: "('w, 'b) MongoDB \<Rightarrow> u64 \<Rightarrow> ('w, unit) io" where
  "mongo_SoftDelete D i =
     State_Monad.bind (db_now D) (\<lambda>now.
       update_one D ''soft delete'' (live_at i)
         (\<lambda>d. d\<lparr>doc_DeleteTime := Some now, doc_UpdateTime := Some now\<rparr>))"

definition mongo_AdoptAnalysis ::
  "('w, 'b) MongoDB \<Rightarrow> u64 \<Rightarrow> u64 \<Rightarrow> string \<Rightarrow> ('w, unit) io" where
  "mongo_AdoptAnalysis D i analysisSummaryID sourceBranch =
     State_Monad.bind (db_now D) (\<lambda>now.
       update_one D ''adopt_analysis''
         (\<lambda>d. live_at i d \<and> doc_State d = MIGRATION_STATE_ANALYZING)
         (\<lambda>d. let d = d\<lparr>doc_State := MIGRATION_STATE_DESIGNING,
                        doc_AnalysisSummaryID := analysisSummaryID, doc_AnalysisReused := True,
                        doc_UpdateTime := Some now\<rparr>
              in if sourceBranch \<noteq> [] then d\<lparr>doc_SourceBranch := sourceBranch\<rparr> else d))"

definition MongoMigrationRepository :: "('w, 'b) MongoDB \<Rightarrow> 'w MigrationRepository" where
  "MongoMigrationRepository D =
     \<lparr> repo_Create = mongo_Create D, repo_GetByID = mongo_GetByID D, repo_List = mongo_List D,
       repo_UpdateState = mongo_UpdateState D, repo_SetRepositoryURL = mongo_SetRepositoryURL D,
       repo_SetMigrabilityAssessment = mongo_SetMigrabilityAssessment D,
       repo_SetMigrabilityOverride = mongo_SetMigrabilityOverride D,
       repo_SetRestructuringRoadmap = mongo_SetRestructuringRoadmap D,
       repo_SetRoadmapEnrichment = mongo_SetRoadmapEnrichment D,
       repo_SetServiceBlueprint = mongo_SetServiceBlueprint D,
       repo_AdoptAnalysis = mongo_AdoptAnalysis D, repo_SoftDelete = mongo_SoftDelete D \<rparr>"

section \<open>Transactions\<close>

text \<open>The manager without a client, or whose session cannot be started, runs the function
  directly; otherwise the driver's session runs it. The session is a parameter.\<close>

record 'w MongoClient =
  StartSession :: "('w, unit) io"
  session_WithTransaction :: "('w, Migration) io \<Rightarrow> ('w, Migration) io"

definition MongoTransactionManager :: "'w MongoClient option \<Rightarrow> 'w TransactionManager" where
  "MongoTransactionManager client =
     \<lparr> WithTransaction = (\<lambda>fn. case client of
          None \<Rightarrow> fn
        | Some c \<Rightarrow> State_Monad.bind (StartSession c) (\<lambda>s. case s of
              Inl _ \<Rightarrow> fn
            | Inr _ \<Rightarrow> session_WithTransaction c fn)) \<rparr>"


section \<open>What the repository relies on\<close>

definition codecs_ok :: "'b Codecs \<Rightarrow> bool" where
  "codecs_ok C \<longleftrightarrow>
     codec_ok zero_TargetConfig (cTarget C) \<and> codec_ok zero_RestructurePlan (cPlan C) \<and>
     codec_ok zero_MigrationOutput (cOutput C) \<and>
     codec_ok zero_MigrabilityAssessment (cAssessment C) \<and>
     codec_ok zero_RestructuringRoadmap (cRoadmap C) \<and>
     codec_ok zero_RoadmapEnrichment (cEnrichment C) \<and>
     codec_ok zero_ServiceBlueprint (cBlueprint C)"

definition mongo_ok :: "('w, 'b) MongoDB \<Rightarrow> ('w \<Rightarrow> 'b mongoMigrationDoc list) \<Rightarrow> bool" where
  "mongo_ok D docs \<longleftrightarrow>
     collection_ok doc_Identifier (db_coll D) docs \<and> counters_keep (db_counters D) docs \<and>
     codecs_ok (db_codecs D) \<and> keeps docs (db_now D)"

text \<open>The abstraction: the documents by identifier, read as migrations. The representation
  invariant: identifiers are unique and the documents can be read, the enrichment and the
  blueprint also where no roadmap is there to show them.\<close>

definition doc_view ::
  "'b Codecs \<Rightarrow> 'b mongoMigrationDoc list \<Rightarrow> u64 \<Rightarrow> Migration option" where
  "doc_view C ds i =
     (case find (\<lambda>d. doc_Identifier d = i) ds of None \<Rightarrow> None
      | Some d \<Rightarrow> (case migrationDocToDomain C d of Inl _ \<Rightarrow> None | Inr m \<Rightarrow> Some m))"

definition doc_reads :: "'b Codecs \<Rightarrow> 'b mongoMigrationDoc \<Rightarrow> Migration \<Rightarrow> bool" where
  "doc_reads C d m \<longleftrightarrow>
     migrationDocToDomain C d = Inr m \<and>
     (\<exists>e. unmarshal_field (cEnrichment C) ''enrichment'' (doc_EnrichmentBytes d) = Inr e) \<and>
     (\<exists>b. unmarshal_field (cBlueprint C) ''blueprint'' (doc_BlueprintBytes d) = Inr b)"

definition docs_ok :: "'b Codecs \<Rightarrow> 'b mongoMigrationDoc list \<Rightarrow> bool" where
  "docs_ok C ds \<longleftrightarrow>
     distinct (map doc_Identifier ds) \<and>
     (\<forall>d\<in>set ds. \<exists>m. doc_reads C d m)"

section \<open>Lemmas\<close>

lemma doc_view_Some:
  assumes "docs_ok C ds"
  shows "doc_view C ds i = Some m \<longleftrightarrow>
    (\<exists>d\<in>set ds. doc_Identifier d = i \<and> migrationDocToDomain C d = Inr m)"
proof
  assume "doc_view C ds i = Some m"
  then show "\<exists>d\<in>set ds. doc_Identifier d = i \<and> migrationDocToDomain C d = Inr m"
    by (auto simp: doc_view_def dest!: find_SomeD split: option.splits sum.splits)
next
  assume "\<exists>d\<in>set ds. doc_Identifier d = i \<and> migrationDocToDomain C d = Inr m"
  then obtain d where d: "d \<in> set ds" "doc_Identifier d = i" "migrationDocToDomain C d = Inr m"
    by blast
  obtain d' where d': "find (\<lambda>d. doc_Identifier d = i) ds = Some d'"
    using d by (cases "find (\<lambda>d. doc_Identifier d = i) ds") (auto simp: find_None_iff)
  then have "d' \<in> set ds" "doc_Identifier d' = i" by (auto dest: find_SomeD)
  moreover have "inj_on doc_Identifier (set ds)"
    using assms by (simp add: docs_ok_def distinct_map)
  ultimately have "d' = d" using d by (auto dest: inj_onD)
  then show "doc_view C ds i = Some m" using d d' by (simp add: doc_view_def)
qed

lemma docs_ok_replace:
  "docs_ok C (xs @ d # ys) \<Longrightarrow> doc_Identifier d' = doc_Identifier d \<Longrightarrow> doc_reads C d' m \<Longrightarrow>
   docs_ok C (xs @ d' # ys)"
  by (auto simp: docs_ok_def)

lemma view_ext: "(\<And>j m. V j = Some m \<longleftrightarrow> V' j = Some m) \<Longrightarrow> V = V'"
  by (rule ext) (metis not_Some_eq)

lemma doc_view_replace:
  assumes ok: "docs_ok C (xs @ d # ys)" and id: "doc_Identifier d = i" "doc_Identifier d' = i"
    and read: "doc_reads C d' m'"
  shows "doc_view C (xs @ d' # ys) = (doc_view C (xs @ d # ys))(i \<mapsto> m')"
proof (rule view_ext)
  fix j m
  have ok': "docs_ok C (xs @ d' # ys)"
    by (rule docs_ok_replace [OF ok _ read]) (use id in auto)
  have other: "doc_Identifier x \<noteq> i" if "x \<in> set xs \<or> x \<in> set ys" for x
    using ok id that by (auto simp: docs_ok_def image_iff)
  show "doc_view C (xs @ d' # ys) j = Some m \<longleftrightarrow>
      ((doc_view C (xs @ d # ys))(i \<mapsto> m')) j = Some m"
    unfolding doc_view_Some [OF ok']
    using id read other by (auto simp: doc_view_Some [OF ok] doc_reads_def)
qed

lemma doc_view_insert:
  assumes ok: "docs_ok C ds" and fresh: "doc_Identifier d \<notin> doc_Identifier ` set ds"
    and read: "doc_reads C d m'"
  shows "docs_ok C (ds @ [d])" and "doc_view C ds (doc_Identifier d) = None"
    and "doc_view C (ds @ [d]) = (doc_view C ds)(doc_Identifier d \<mapsto> m')"
proof -
  show ok': "docs_ok C (ds @ [d])"
    using ok fresh read by (auto simp: docs_ok_def)
  have "doc_view C ds (doc_Identifier d) \<noteq> Some m" for m
    using fresh by (auto simp: doc_view_Some [OF ok] image_iff)
  then show "doc_view C ds (doc_Identifier d) = None" by (cases "doc_view C ds (doc_Identifier d)") auto
  show "doc_view C (ds @ [d]) = (doc_view C ds)(doc_Identifier d \<mapsto> m')"
  proof (rule view_ext)
    fix j m
    show "doc_view C (ds @ [d]) j = Some m \<longleftrightarrow>
        ((doc_view C ds)(doc_Identifier d \<mapsto> m')) j = Some m"
      unfolding doc_view_Some [OF ok']
      using read fresh by (auto simp: doc_view_Some [OF ok] doc_reads_def image_iff)
  qed
qed

text \<open>The outcome of \<open>update_one\<close> on the documents.\<close>

lemma update_one_triple:
  assumes "mongo_ok D docs"
  shows "triple (\<lambda>w. docs w = ds) (update_one D label q f)
    (\<lambda>r w. let updated = (\<exists>xs d ys. ds = xs @ d # ys \<and> q d \<and> docs w = xs @ f d # ys)
           in case r of
                Inr _ \<Rightarrow> updated
              | Inl e \<Rightarrow> docs w = ds \<or> (\<not> domain_error e \<and> updated))"
proof -
  have law: "triple (\<lambda>w. docs w = ds) (UpdateOne (db_coll D) q f)
     (\<lambda>r w. let updated = (\<exists>xs d ys. ds = xs @ d # ys \<and> q d \<and> docs w = xs @ f d # ys)
            in case r of
                 Inr n \<Rightarrow> if n = 0 then (\<forall>d\<in>set ds. \<not> q d) \<and> docs w = ds else updated
               | Inl _ \<Rightarrow> docs w = ds \<or> updated)"
    using assms by (simp add: mongo_ok_def collection_ok_def)
  show ?thesis
    unfolding update_one_def
    apply (rule triple_io_bind [where R = "\<lambda>n w. if n = 0 then docs w = ds
             else \<exists>xs d ys. ds = xs @ d # ys \<and> q d \<and> docs w = xs @ f d # ys"])
     apply (rule triple_io_wrap, rule triple_weaken [OF law], assumption)
     apply (auto simp: Let_def split: sum.splits if_splits intro: triple_return)
    done
qed

text \<open>From documents to the contract.\<close>

lemma replaced_view:
  assumes ok: "docs_ok C (xs @ d # ys)" and q: "live_at i d"
    and f: "\<And>m. doc_reads C d m \<Longrightarrow> doc_Identifier d' = i \<and> (\<exists>m'. doc_reads C d' m' \<and> P m m')"
  shows "docs_ok C (xs @ d' # ys) \<and>
    (\<exists>m m'. doc_view C (xs @ d # ys) i = Some m \<and> mig_DeleteTime m = None \<and> P m m' \<and>
       doc_view C (xs @ d' # ys) = (doc_view C (xs @ d # ys))(i \<mapsto> m'))"
proof -
  obtain m where m: "doc_reads C d m" using ok by (auto simp: docs_ok_def)
  obtain m' where m': "doc_reads C d' m'" "P m m'" "doc_Identifier d' = i" using f [OF m] by blast
  have "doc_view C (xs @ d # ys) i = Some m"
    using m q doc_view_Some [OF ok] by (auto simp: doc_reads_def)
  moreover have "mig_DeleteTime m = None"
    using m q by (auto simp: doc_reads_def migrationDocToDomain_def)
  moreover have "doc_view C (xs @ d' # ys) = (doc_view C (xs @ d # ys))(i \<mapsto> m')"
    using doc_view_replace [OF ok, of i d' m'] q m' by simp
  moreover have "docs_ok C (xs @ d' # ys)"
    using docs_ok_replace [OF ok _ m'(1)] m' q by auto
  ultimately show ?thesis using m' by blast
qed

lemma rec_write_update_one:
  assumes D: "mongo_ok D docs" and C: "C = db_codecs D"
    and q: "\<And>d. q d \<Longrightarrow> live_at i d"
    and f: "\<And>d m. q d \<Longrightarrow> doc_reads C d m \<Longrightarrow>
       doc_Identifier (f d) = i \<and> (\<exists>m'. doc_reads C (f d) m' \<and> P m m')"
  shows "rec_write (\<lambda>w. doc_view C (docs w)) (\<lambda>w. docs_ok C (docs w)) i P (update_one D label q f)"
  unfolding rec_write_def
proof (intro allI tripleI)
  fix V w r w'
  assume pre: "docs_ok C (docs w) \<and> doc_view C (docs w) = V"
    and run: "run_state (update_one D label q f) w = (r, w')"
  let ?upd = "\<exists>xs d ys. docs w = xs @ d # ys \<and> q d \<and> docs w' = xs @ f d # ys"
  let ?wrote = "\<exists>m m'. V i = Some m \<and> mig_DeleteTime m = None \<and> P m m' \<and>
                  doc_view C (docs w') = V(i \<mapsto> m')"
  have out: "case r of Inr _ \<Rightarrow> ?upd
      | Inl e \<Rightarrow> docs w' = docs w \<or> (\<not> domain_error e \<and> ?upd)"
    using tripleD [OF update_one_triple [OF D, where ds = "docs w"] run] by (simp add: Let_def)
  have eff: "docs_ok C (docs w') \<and> ?wrote" if ?upd
  proof -
    from that obtain xs d ys where eq: "docs w = xs @ d # ys" "docs w' = xs @ f d # ys" and "q d"
      by blast
    have "docs_ok C (xs @ d # ys)" using pre eq by simp
    from replaced_view [OF this q [OF \<open>q d\<close>], of "f d" P] f [OF \<open>q d\<close>] eq pre
    show ?thesis by auto
  qed
  show "docs_ok C (docs w') \<and>
     (let wrote = ?wrote in case r of Inr _ \<Rightarrow> wrote
        | Inl e \<Rightarrow> doc_view C (docs w') = V \<or> (\<not> domain_error e \<and> wrote))"
    using out eff pre by (auto simp: Let_def split: sum.splits)
qed

lemma rec_write_bind_keeps:
  assumes "keeps docs m" and "\<And>x. rec_write (\<lambda>w. v (docs w)) (\<lambda>w. ok (docs w)) i P (f x)"
  shows "rec_write (\<lambda>w. v (docs w)) (\<lambda>w. ok (docs w)) i P (State_Monad.bind m f)"
  unfolding rec_write_def
  apply (rule allI)
  subgoal for V
    apply (rule triple_bind [where R = "\<lambda>_ w. ok (docs w) \<and> v (docs w) = V"])
     apply (rule triple_keeps [OF assms(1), where P = "\<lambda>d. ok d \<and> v d = V"])
    using assms(2) by (simp add: rec_write_def)
  done

lemma rec_write_marshal:
  assumes "\<And>b. r = Inr b \<Longrightarrow> rec_write v ok i P (f b)"
  shows "rec_write v ok i P (io_bind (io_wrap l (State_Monad.return r)) f)"
proof (cases r)
  case (Inl e)
  then show ?thesis by (simp add: rec_write_def triple_def io_unfold Let_def)
next
  case (Inr b)
  then have "run_state (io_bind (io_wrap l (State_Monad.return r)) f) w = run_state (f b) w" for w
    by (simp add: io_unfold)
  then show ?thesis using assms [OF Inr] by (simp add: rec_write_def triple_def)
qed

text \<open>Reading a document after each update.\<close>

lemma decode_fields:
  "migrationDocToDomain C d = Inr m \<Longrightarrow>
     mig_Identifier m = doc_Identifier d \<and> mig_State m = doc_State d \<and>
     mig_OwnerUserId m = doc_OwnerUserID d \<and> mig_RepositoryId m = doc_RepositoryID d \<and>
     mig_SourceBranch m = doc_SourceBranch d \<and> mig_DeleteTime m = doc_DeleteTime d \<and>
     doc_roadmap C d = Inr (mig_RestructuringRoadmap m)"
  by (auto simp: migrationDocToDomain_def)

lemma doc_roadmap_upd [simp]:
  "doc_roadmap C (doc_State_update f d) = doc_roadmap C d"
  "doc_roadmap C (doc_UpdateTime_update g d) = doc_roadmap C d"
  "doc_roadmap C (doc_RepositoryURL_update h d) = doc_roadmap C d"
  "doc_roadmap C (doc_MigrabilityOverride_update k d) = doc_roadmap C d"
  "doc_roadmap C (doc_AssessmentBytes_update l d) = doc_roadmap C d"
  "doc_roadmap C (doc_AnalysisSummaryID_update n d) = doc_roadmap C d"
  "doc_roadmap C (doc_AnalysisReused_update o1 d) = doc_roadmap C d"
  "doc_roadmap C (doc_SourceBranch_update q d) = doc_roadmap C d"
  "doc_roadmap C (doc_Identifier_update r d) = doc_roadmap C d"
  "doc_roadmap C (doc_CreateTime_update u d) = doc_roadmap C d"
  "doc_roadmap C (doc_DeleteTime_update v d) = doc_roadmap C d"
  "doc_roadmap C (doc_PlanBytes_update x d) = doc_roadmap C d"
  "doc_roadmap C (bson_FailureReason_update y d) = doc_roadmap C d"
  by (simp_all add: doc_roadmap_def cong: option.case_cong)

lemma decode_state:
  "doc_reads C d m \<Longrightarrow>
   doc_reads C (d\<lparr>doc_State := s, doc_UpdateTime := t\<rparr>) (m\<lparr>mig_State := s, mig_UpdateTime := t\<rparr>)"
  by (auto simp: doc_reads_def migrationDocToDomain_def)

lemma decode_delete:
  "doc_reads C d m \<Longrightarrow>
   doc_reads C (d\<lparr>doc_DeleteTime := t, doc_UpdateTime := t\<rparr>)
     (m\<lparr>mig_UpdateTime := t, mig_DeleteTime := t\<rparr>)"
  by (auto simp: doc_reads_def migrationDocToDomain_def)

lemma decode_url:
  "doc_reads C d m \<Longrightarrow>
   doc_reads C (d\<lparr>doc_RepositoryURL := u\<rparr>) (m\<lparr>mig_RepositoryUrl := u\<rparr>)"
  by (auto simp: doc_reads_def migrationDocToDomain_def)

lemma decode_override:
  "doc_reads C d m \<Longrightarrow>
   doc_reads C (d\<lparr>doc_MigrabilityOverride := b, doc_UpdateTime := t\<rparr>)
     (m\<lparr>mig_MigrabilityOverride := b, mig_UpdateTime := t\<rparr>)"
  by (auto simp: doc_reads_def migrationDocToDomain_def)

lemma decode_assessment:
  "doc_reads C d m \<Longrightarrow>
   unmarshal_field (cAssessment C) ''assessment'' b = Inr a \<Longrightarrow>
   doc_reads C (d\<lparr>doc_AssessmentBytes := b, doc_UpdateTime := t\<rparr>)
     (m\<lparr>mig_MigrabilityAssessment := a, mig_UpdateTime := t\<rparr>)"
  by (auto simp: doc_reads_def migrationDocToDomain_def)

lemma decode_adopt:
  "doc_reads C d m \<Longrightarrow>
   doc_reads C
     (let d = d\<lparr>doc_State := MIGRATION_STATE_DESIGNING, doc_AnalysisSummaryID := src,
               doc_AnalysisReused := True, doc_UpdateTime := t\<rparr>
      in if br \<noteq> [] then d\<lparr>doc_SourceBranch := br\<rparr> else d)
     ((put_adopted src br m)\<lparr>mig_UpdateTime := t\<rparr>)"
  by (auto simp: doc_reads_def migrationDocToDomain_def put_adopted_def Let_def)

definition merge_roadmap ::
  "RestructuringRoadmap \<Rightarrow> RoadmapEnrichment option \<Rightarrow> ServiceBlueprint option \<Rightarrow>
   RestructuringRoadmap" where
  "merge_roadmap rm e b =
     rm\<lparr>rm_Enrichment := (if e = None then rm_Enrichment rm else e),
        rm_Blueprint := (if b = None then rm_Blueprint rm else b)\<rparr>"

lemma doc_roadmap_merge:
  assumes "unmarshal_field (cRoadmap C) ''roadmap'' (doc_RoadmapBytes d) = Inr r"
    and "unmarshal_field (cEnrichment C) ''enrichment'' (doc_EnrichmentBytes d) = Inr e"
    and "unmarshal_field (cBlueprint C) ''blueprint'' (doc_BlueprintBytes d) = Inr b"
  shows "doc_roadmap C d = Inr (map_option (\<lambda>rm. merge_roadmap rm e b) r)"
  using assms by (simp add: doc_roadmap_def merge_roadmap_def split: option.split)

lemma decode_roadmap_upd:
  assumes "migrationDocToDomain C d = Inr m"
    and "d' = d\<lparr>doc_State := doc_State d', doc_RoadmapBytes := doc_RoadmapBytes d',
          doc_EnrichmentBytes := doc_EnrichmentBytes d', doc_BlueprintBytes := doc_BlueprintBytes d',
          doc_UpdateTime := doc_UpdateTime d'\<rparr>"
    and "doc_roadmap C d' = Inr rm"
  shows "migrationDocToDomain C d' =
     Inr (m\<lparr>mig_State := doc_State d', mig_RestructuringRoadmap := rm,
            mig_UpdateTime := doc_UpdateTime d'\<rparr>)"
  using assms(1,3) by (subst assms(2)) (subst (asm) assms(2), auto simp: migrationDocToDomain_def)

lemma roadmap_written_merge:
  "roadmap_written rm (map_option (\<lambda>r. merge_roadmap r e b) (stored zero_RestructuringRoadmap rm))"
proof -
  have "\<exists>x y. merge_roadmap rm e b = rm\<lparr>rm_Enrichment := x, rm_Blueprint := y\<rparr>"
    unfolding merge_roadmap_def by blast
  then show ?thesis by (simp add: roadmap_written_def stored_def)
qed

text \<open>What a readable document gives: the three parts of its roadmap.\<close>

lemma doc_reads_roadmap:
  assumes "doc_reads C d m"
  obtains r e b where "unmarshal_field (cRoadmap C) ''roadmap'' (doc_RoadmapBytes d) = Inr r"
    and "unmarshal_field (cEnrichment C) ''enrichment'' (doc_EnrichmentBytes d) = Inr e"
    and "unmarshal_field (cBlueprint C) ''blueprint'' (doc_BlueprintBytes d) = Inr b"
    and "mig_RestructuringRoadmap m = map_option (\<lambda>rm. merge_roadmap rm e b) r"
proof -
  from assms obtain e b where eb: "unmarshal_field (cEnrichment C) ''enrichment'' (doc_EnrichmentBytes d) = Inr e"
    "unmarshal_field (cBlueprint C) ''blueprint'' (doc_BlueprintBytes d) = Inr b"
    by (auto simp: doc_reads_def)
  have rm: "doc_roadmap C d = Inr (mig_RestructuringRoadmap m)"
    using assms by (auto simp: doc_reads_def dest: decode_fields)
  then obtain r where r: "unmarshal_field (cRoadmap C) ''roadmap'' (doc_RoadmapBytes d) = Inr r"
    by (auto simp: doc_roadmap_def)
  from doc_roadmap_merge [OF r eb] rm
  have "mig_RestructuringRoadmap m = map_option (\<lambda>rm. merge_roadmap rm e b) r" by simp
  with r eb show thesis by (rule that)
qed

lemma decode_roadmap:
  assumes "doc_reads C d m"
    and "unmarshal_field (cRoadmap C) ''roadmap'' bs = Inr (stored zero_RestructuringRoadmap rm)"
  shows "\<exists>r'. roadmap_written rm r' \<and>
    doc_reads C (d\<lparr>doc_State := s, doc_RoadmapBytes := bs, doc_UpdateTime := t\<rparr>)
      (m\<lparr>mig_State := s, mig_RestructuringRoadmap := r', mig_UpdateTime := t\<rparr>)"
proof -
  obtain r e b where d: "unmarshal_field (cEnrichment C) ''enrichment'' (doc_EnrichmentBytes d) = Inr e"
    "unmarshal_field (cBlueprint C) ''blueprint'' (doc_BlueprintBytes d) = Inr b"
    using doc_reads_roadmap [OF assms(1)] by metis
  let ?d = "d\<lparr>doc_State := s, doc_RoadmapBytes := bs, doc_UpdateTime := t\<rparr>"
  let ?r = "map_option (\<lambda>r. merge_roadmap r e b) (stored zero_RestructuringRoadmap rm)"
  have "doc_roadmap C ?d = Inr ?r"
    by (rule doc_roadmap_merge) (use assms d in auto)
  then have "migrationDocToDomain C ?d =
      Inr (m\<lparr>mig_State := s, mig_RestructuringRoadmap := ?r, mig_UpdateTime := t\<rparr>)"
    using decode_roadmap_upd [of C d m ?d ?r] assms by (simp add: doc_reads_def)
  with d have "doc_reads C ?d (m\<lparr>mig_State := s, mig_RestructuringRoadmap := ?r, mig_UpdateTime := t\<rparr>)"
    by (simp add: doc_reads_def)
  then show ?thesis using roadmap_written_merge by blast
qed

lemma decode_enrichment:
  assumes "doc_reads C d m"
    and "unmarshal_field (cEnrichment C) ''enrichment'' bs = Inr (stored zero_RoadmapEnrichment en)"
  shows "\<exists>x. (en \<noteq> zero_RoadmapEnrichment \<longrightarrow> x = Some en) \<and>
    doc_reads C (d\<lparr>doc_EnrichmentBytes := bs, doc_UpdateTime := t\<rparr>)
      ((put_enrichment x m)\<lparr>mig_UpdateTime := t\<rparr>)"
proof -
  obtain r e b where d: "unmarshal_field (cRoadmap C) ''roadmap'' (doc_RoadmapBytes d) = Inr r"
    "unmarshal_field (cBlueprint C) ''blueprint'' (doc_BlueprintBytes d) = Inr b"
    "mig_RestructuringRoadmap m = map_option (\<lambda>rm. merge_roadmap rm e b) r"
    using doc_reads_roadmap [OF assms(1)] by metis
  let ?d = "d\<lparr>doc_EnrichmentBytes := bs, doc_UpdateTime := t\<rparr>"
  let ?e = "stored zero_RoadmapEnrichment en"
  let ?r = "map_option (\<lambda>r. merge_roadmap r ?e b) r"
  let ?x = "if ?e = None then Option.bind r rm_Enrichment else ?e"
  have "doc_roadmap C ?d = Inr ?r"
    by (rule doc_roadmap_merge) (use assms d in auto)
  moreover have "?r = map_option (\<lambda>r. r\<lparr>rm_Enrichment := ?x\<rparr>) (mig_RestructuringRoadmap m)"
    using d by (cases r) (auto simp: merge_roadmap_def)
  moreover have "mig_State m = doc_State d"
    using assms by (auto simp: doc_reads_def dest: decode_fields)
  ultimately have "migrationDocToDomain C ?d = Inr ((put_enrichment ?x m)\<lparr>mig_UpdateTime := t\<rparr>)"
    using decode_roadmap_upd [of C d m ?d ?r] assms by (simp add: doc_reads_def put_enrichment_def)
  with d assms have "doc_reads C ?d ((put_enrichment ?x m)\<lparr>mig_UpdateTime := t\<rparr>)"
    by (simp add: doc_reads_def)
  moreover have "en \<noteq> zero_RoadmapEnrichment \<longrightarrow> ?x = Some en" by (simp add: stored_def)
  ultimately show ?thesis by blast
qed

lemma decode_blueprint:
  assumes "doc_reads C d m"
    and "unmarshal_field (cBlueprint C) ''blueprint'' bs = Inr (stored zero_ServiceBlueprint bp)"
  shows "\<exists>x. (bp \<noteq> zero_ServiceBlueprint \<longrightarrow> x = Some bp) \<and>
    doc_reads C (d\<lparr>doc_BlueprintBytes := bs, doc_UpdateTime := t\<rparr>)
      ((put_blueprint x m)\<lparr>mig_UpdateTime := t\<rparr>)"
proof -
  obtain r e b where d: "unmarshal_field (cRoadmap C) ''roadmap'' (doc_RoadmapBytes d) = Inr r"
    "unmarshal_field (cEnrichment C) ''enrichment'' (doc_EnrichmentBytes d) = Inr e"
    "mig_RestructuringRoadmap m = map_option (\<lambda>rm. merge_roadmap rm e b) r"
    using doc_reads_roadmap [OF assms(1)] by metis
  let ?d = "d\<lparr>doc_BlueprintBytes := bs, doc_UpdateTime := t\<rparr>"
  let ?b = "stored zero_ServiceBlueprint bp"
  let ?r = "map_option (\<lambda>r. merge_roadmap r e ?b) r"
  let ?x = "if ?b = None then Option.bind r rm_Blueprint else ?b"
  have "doc_roadmap C ?d = Inr ?r"
    by (rule doc_roadmap_merge) (use assms d in auto)
  moreover have "?r = map_option (\<lambda>r. r\<lparr>rm_Blueprint := ?x\<rparr>) (mig_RestructuringRoadmap m)"
    using d by (cases r) (auto simp: merge_roadmap_def)
  moreover have "mig_State m = doc_State d"
    using assms by (auto simp: doc_reads_def dest: decode_fields)
  ultimately have "migrationDocToDomain C ?d = Inr ((put_blueprint ?x m)\<lparr>mig_UpdateTime := t\<rparr>)"
    using decode_roadmap_upd [of C d m ?d ?r] assms by (simp add: doc_reads_def put_blueprint_def)
  with d assms have "doc_reads C ?d ((put_blueprint ?x m)\<lparr>mig_UpdateTime := t\<rparr>)"
    by (simp add: doc_reads_def)
  moreover have "bp \<noteq> zero_ServiceBlueprint \<longrightarrow> ?x = Some bp" by (simp add: stored_def)
  ultimately show ?thesis by blast
qed

section \<open>The repository keeps the contract\<close>

lemma mongo_okD:
  assumes "mongo_ok D docs"
  shows "keeps docs (db_now D)" and "codecs_ok (db_codecs D)"
    and "collection_ok doc_Identifier (db_coll D) docs" and "counters_keep (db_counters D) docs"
  using assms by (simp_all add: mongo_ok_def)

lemma mongo_UpdateState_rec:
  assumes D: "mongo_ok D docs" and C: "C = db_codecs D"
  shows "rec_write (\<lambda>w. doc_view C (docs w)) (\<lambda>w. docs_ok C (docs w)) i (upd (put_state s))
    (mongo_UpdateState D i s)"
  unfolding mongo_UpdateState_def
  by (rule rec_write_bind_keeps [OF mongo_okD(1) [OF D]], rule rec_write_update_one [OF D C])
     (auto simp: upd_def put_state_def dest: decode_state)

lemma mongo_SetMigrabilityOverride_rec:
  assumes D: "mongo_ok D docs" and C: "C = db_codecs D"
  shows "rec_write (\<lambda>w. doc_view C (docs w)) (\<lambda>w. docs_ok C (docs w)) i (upd (put_override b))
    (mongo_SetMigrabilityOverride D i b)"
  unfolding mongo_SetMigrabilityOverride_def
  by (rule rec_write_bind_keeps [OF mongo_okD(1) [OF D]], rule rec_write_update_one [OF D C])
     (auto simp: upd_def put_override_def dest: decode_override)

lemma mongo_SetMigrabilityAssessment_rec:
  assumes D: "mongo_ok D docs" and C: "C = db_codecs D"
  shows "rec_write (\<lambda>w. doc_view C (docs w)) (\<lambda>w. docs_ok C (docs w)) i (upd (put_assessment a))
    (mongo_SetMigrabilityAssessment D i a)"
  unfolding mongo_SetMigrabilityAssessment_def
proof (rule rec_write_marshal, rule rec_write_bind_keeps [OF mongo_okD(1) [OF D]],
    rule rec_write_update_one [OF D C])
  fix b now d m
  assume b: "Marshal (cAssessment (db_codecs D)) a = Inr b"
    and d: "live_at i d" "doc_reads C d m"
  have "unmarshal_field (cAssessment C) ''assessment'' b = Inr (stored zero_MigrabilityAssessment a)"
    using mongo_okD(2) [OF D] C b by (auto simp: codecs_ok_def intro: unmarshal_stored)
  from decode_assessment [OF d(2) this]
  show "doc_Identifier (d\<lparr>doc_AssessmentBytes := b, doc_UpdateTime := Some now\<rparr>) = i \<and>
    (\<exists>m'. doc_reads C (d\<lparr>doc_AssessmentBytes := b, doc_UpdateTime := Some now\<rparr>) m' \<and>
       upd (put_assessment a) m m')"
    using d by (auto simp: upd_def put_assessment_def)
qed

lemma mongo_SetRestructuringRoadmap_rec:
  assumes D: "mongo_ok D docs" and C: "C = db_codecs D"
  shows "rec_write (\<lambda>w. doc_view C (docs w)) (\<lambda>w. docs_ok C (docs w)) i
    (\<lambda>m m'. mig_State m = MIGRATION_STATE_AWAITING_APPROVAL \<and>
       (\<exists>r'. roadmap_written rm r' \<and> upd (put_roadmap r') m m'))
    (mongo_SetRestructuringRoadmap D i rm)"
  unfolding mongo_SetRestructuringRoadmap_def
proof (rule rec_write_marshal, rule rec_write_bind_keeps [OF mongo_okD(1) [OF D]],
    rule rec_write_update_one [OF D C])
  fix b now d m
  assume b: "Marshal (cRoadmap (db_codecs D)) rm = Inr b"
    and d: "live_at i d \<and> doc_State d = MIGRATION_STATE_AWAITING_APPROVAL" "doc_reads C d m"
  let ?d = "d\<lparr>doc_State := MIGRATION_STATE_RESTRUCTURING_READY, doc_RoadmapBytes := b,
              doc_UpdateTime := Some now\<rparr>"
  have "unmarshal_field (cRoadmap C) ''roadmap'' b = Inr (stored zero_RestructuringRoadmap rm)"
    using mongo_okD(2) [OF D] C b by (auto simp: codecs_ok_def intro: unmarshal_stored)
  from decode_roadmap [OF d(2) this, where s = MIGRATION_STATE_RESTRUCTURING_READY and t = "Some now"]
  obtain r' where "roadmap_written rm r'"
    and "doc_reads C ?d (m\<lparr>mig_State := MIGRATION_STATE_RESTRUCTURING_READY,
        mig_RestructuringRoadmap := r', mig_UpdateTime := Some now\<rparr>)" by blast
  moreover have "mig_State m = MIGRATION_STATE_AWAITING_APPROVAL"
    using d by (auto simp: doc_reads_def dest: decode_fields)
  ultimately show "doc_Identifier ?d = i \<and> (\<exists>m'. doc_reads C ?d m' \<and>
       mig_State m = MIGRATION_STATE_AWAITING_APPROVAL \<and>
       (\<exists>r'. roadmap_written rm r' \<and> upd (put_roadmap r') m m'))"
    using d by (auto simp: upd_def put_roadmap_def)
qed blast

lemma mongo_SetRoadmapEnrichment_rec:
  assumes D: "mongo_ok D docs" and C: "C = db_codecs D"
  shows "rec_write (\<lambda>w. doc_view C (docs w)) (\<lambda>w. docs_ok C (docs w)) i
    (\<lambda>m m'. \<exists>x. (en \<noteq> zero_RoadmapEnrichment \<longrightarrow> x = Some en) \<and> upd (put_enrichment x) m m')
    (mongo_SetRoadmapEnrichment D i en)"
  unfolding mongo_SetRoadmapEnrichment_def
proof (rule rec_write_marshal, rule rec_write_bind_keeps [OF mongo_okD(1) [OF D]],
    rule rec_write_update_one [OF D C])
  fix b now d m
  assume b: "Marshal (cEnrichment (db_codecs D)) en = Inr b"
    and d: "live_at i d" "doc_reads C d m"
  have "unmarshal_field (cEnrichment C) ''enrichment'' b = Inr (stored zero_RoadmapEnrichment en)"
    using mongo_okD(2) [OF D] C b by (auto simp: codecs_ok_def intro: unmarshal_stored)
  from decode_enrichment [OF d(2) this, where t = "Some now"]
  show "doc_Identifier (d\<lparr>doc_EnrichmentBytes := b, doc_UpdateTime := Some now\<rparr>) = i \<and>
    (\<exists>m'. doc_reads C (d\<lparr>doc_EnrichmentBytes := b, doc_UpdateTime := Some now\<rparr>) m' \<and>
       (\<exists>x. (en \<noteq> zero_RoadmapEnrichment \<longrightarrow> x = Some en) \<and> upd (put_enrichment x) m m'))"
    using d by (auto simp: upd_def)
qed

lemma mongo_SetServiceBlueprint_rec:
  assumes D: "mongo_ok D docs" and C: "C = db_codecs D"
  shows "rec_write (\<lambda>w. doc_view C (docs w)) (\<lambda>w. docs_ok C (docs w)) i
    (\<lambda>m m'. \<exists>x. (bp \<noteq> zero_ServiceBlueprint \<longrightarrow> x = Some bp) \<and> upd (put_blueprint x) m m')
    (mongo_SetServiceBlueprint D i bp)"
  unfolding mongo_SetServiceBlueprint_def
proof (rule rec_write_marshal, rule rec_write_bind_keeps [OF mongo_okD(1) [OF D]],
    rule rec_write_update_one [OF D C])
  fix b now d m
  assume b: "Marshal (cBlueprint (db_codecs D)) bp = Inr b"
    and d: "live_at i d" "doc_reads C d m"
  have "unmarshal_field (cBlueprint C) ''blueprint'' b = Inr (stored zero_ServiceBlueprint bp)"
    using mongo_okD(2) [OF D] C b by (auto simp: codecs_ok_def intro: unmarshal_stored)
  from decode_blueprint [OF d(2) this, where t = "Some now"]
  show "doc_Identifier (d\<lparr>doc_BlueprintBytes := b, doc_UpdateTime := Some now\<rparr>) = i \<and>
    (\<exists>m'. doc_reads C (d\<lparr>doc_BlueprintBytes := b, doc_UpdateTime := Some now\<rparr>) m' \<and>
       (\<exists>x. (bp \<noteq> zero_ServiceBlueprint \<longrightarrow> x = Some bp) \<and> upd (put_blueprint x) m m'))"
    using d by (auto simp: upd_def)
qed

lemma mongo_AdoptAnalysis_rec:
  assumes D: "mongo_ok D docs" and C: "C = db_codecs D"
  shows "rec_write (\<lambda>w. doc_view C (docs w)) (\<lambda>w. docs_ok C (docs w)) i
    (\<lambda>m m'. mig_State m = MIGRATION_STATE_ANALYZING \<and> upd (put_adopted src br) m m')
    (mongo_AdoptAnalysis D i src br)"
  unfolding mongo_AdoptAnalysis_def
proof (rule rec_write_bind_keeps [OF mongo_okD(1) [OF D]], rule rec_write_update_one [OF D C])
  fix now d m
  assume d: "live_at i d \<and> doc_State d = MIGRATION_STATE_ANALYZING" "doc_reads C d m"
  let ?d = "let d = d\<lparr>doc_State := MIGRATION_STATE_DESIGNING, doc_AnalysisSummaryID := src,
                     doc_AnalysisReused := True, doc_UpdateTime := Some now\<rparr>
            in if br \<noteq> [] then d\<lparr>doc_SourceBranch := br\<rparr> else d"
  have "mig_State m = MIGRATION_STATE_ANALYZING"
    using d by (auto simp: doc_reads_def dest: decode_fields)
  moreover have "doc_Identifier ?d = i" using d by (simp add: Let_def)
  ultimately show "doc_Identifier ?d = i \<and> (\<exists>m'. doc_reads C ?d m' \<and> mig_State m = MIGRATION_STATE_ANALYZING \<and>
       upd (put_adopted src br) m m')"
    using decode_adopt [OF d(2), where t = "Some now"] by (auto simp: upd_def)
qed blast

lemma mongo_GetByID_triple:
  assumes D: "mongo_ok D docs" and C: "C = db_codecs D"
  shows "triple (\<lambda>w. docs_ok C (docs w) \<and> doc_view C (docs w) = V) (mongo_GetByID D i False)
    (\<lambda>r w. docs_ok C (docs w) \<and> doc_view C (docs w) = V \<and>
       (case r of Inr m \<Rightarrow> V i = Some m \<and> mig_Identifier m = i \<and> mig_DeleteTime m = None
                | Inl e \<Rightarrow> e = ErrMigrationNotFound \<longrightarrow>
                    (\<forall>m. V i = Some m \<longrightarrow> mig_DeleteTime m \<noteq> None)))"
proof (rule tripleI)
  fix w r w'
  assume pre: "docs_ok C (docs w) \<and> doc_view C (docs w) = V"
    and run: "run_state (mongo_GetByID D i False) w = (r, w')"
  obtain x w1 where x: "run_state (FindOne (db_coll D) (live_at i)) w = (x, w1)"
    by (meson surj_pair)
  have law: "docs w1 = docs w \<and> (case x of Inl _ \<Rightarrow> True
      | Inr None \<Rightarrow> \<forall>d\<in>set (docs w). \<not> live_at i d
      | Inr (Some d) \<Rightarrow> d \<in> set (docs w) \<and> live_at i d)"
    using mongo_okD(3) [OF D] x unfolding collection_ok_def by (blast dest: tripleD)
  have notfound: "wrap_error l e [] \<noteq> ErrMigrationNotFound" for l e
    by (simp add: wrap_error_def ErrMigrationNotFound_def split: go_error.split)
  show "docs_ok C (docs w') \<and> doc_view C (docs w') = V \<and>
       (case r of Inr m \<Rightarrow> V i = Some m \<and> mig_Identifier m = i \<and> mig_DeleteTime m = None
                | Inl e \<Rightarrow> e = ErrMigrationNotFound \<longrightarrow>
                    (\<forall>m. V i = Some m \<longrightarrow> mig_DeleteTime m \<noteq> None))"
  proof (cases x)
    case (Inl e)
    with run x law pre show ?thesis
      by (auto simp: mongo_GetByID_def io_unfold notfound)
  next
    case (Inr found)
    show ?thesis
    proof (cases found)
      case None
      with Inr run x law pre show ?thesis
        by (auto simp: mongo_GetByID_def io_unfold doc_view_Some dest!: decode_fields)
    next
      case (Some d)
      then have d: "d \<in> set (docs w)" "live_at i d" using law Inr by auto
      with pre obtain m where m: "migrationDocToDomain C d = Inr m"
        by (auto simp: docs_ok_def doc_reads_def)
      have "V i = Some m" using pre d m doc_view_Some by blast
      with Inr Some run x law pre m d show ?thesis
        by (auto simp: mongo_GetByID_def io_unfold C dest: decode_fields)
    qed
  qed
qed

lemma docs_to_domain_set:
  "docs_to_domain C ds = Inr ms \<Longrightarrow> m \<in> set ms \<Longrightarrow> \<exists>d\<in>set ds. migrationDocToDomain C d = Inr m"
  by (induction ds arbitrary: ms) (auto split: sum.splits)

lemma list_query_admits:
  assumes "list_query f d" and "migrationDocToDomain C d = Inr m"
  shows "filter_admits f m"
proof -
  note fields = decode_fields [OF assms(2)]
  show ?thesis
  proof (cases f)
    case (Some g)
    with assms(1) fields show ?thesis
      by (simp add: list_query_def filter_admits_def imp_conv_disj split del: if_split cong: option.case_cong if_cong)
  qed (simp add: filter_admits_def)
qed

lemma mongo_List_triple:
  assumes D: "mongo_ok D docs" and C: "C = db_codecs D"
  shows "triple (\<lambda>w. docs_ok C (docs w) \<and> doc_view C (docs w) = V) (mongo_List D f p)
    (\<lambda>r w. docs_ok C (docs w) \<and> doc_view C (docs w) = V \<and>
       (case r of Inl e \<Rightarrow> True
        | Inr (ms, pg) \<Rightarrow> \<forall>m\<in>set ms. V (mig_Identifier m) = Some m \<and> mig_DeleteTime m = None \<and>
            filter_admits f m))"
proof (rule tripleI)
  fix w r w'
  assume pre: "docs_ok C (docs w) \<and> doc_view C (docs w) = V"
    and run: "run_state (mongo_List D f p) w = (r, w')"
  let ?q = "list_query f"
  have coll: "collection_ok doc_Identifier (db_coll D) docs" using mongo_okD(3) [OF D] .
  obtain x w1 where x: "run_state (Find (db_coll D) ?q (list_skip p) (uint (GetPageSize p))) w = (x, w1)"
    by (meson surj_pair)
  have x_law: "docs w1 = docs w \<and> (case x of Inl _ \<Rightarrow> True
      | Inr cur \<Rightarrow> triple (\<lambda>w'. docs w' = docs w) cur (\<lambda>r w'. docs w' = docs w \<and>
          (case r of Inl _ \<Rightarrow> True | Inr ds \<Rightarrow> set ds \<subseteq> {d \<in> set (docs w). ?q d})))"
    using coll x unfolding collection_ok_def by (blast dest: tripleD)
  show "docs_ok C (docs w') \<and> doc_view C (docs w') = V \<and>
       (case r of Inl e \<Rightarrow> True
        | Inr (ms, pg) \<Rightarrow> \<forall>m\<in>set ms. V (mig_Identifier m) = Some m \<and> mig_DeleteTime m = None \<and>
            filter_admits f m)"
  proof (cases x)
    case (Inl e)
    with run x x_law pre show ?thesis by (auto simp: mongo_List_def io_unfold)
  next
    case (Inr cur)
    obtain y w2 where y: "run_state cur w1 = (y, w2)" by (meson surj_pair)
    have y_law: "docs w2 = docs w \<and>
        (case y of Inl _ \<Rightarrow> True | Inr ds \<Rightarrow> set ds \<subseteq> {d \<in> set (docs w). ?q d})"
      using x_law Inr y by (auto dest: tripleD)
    show ?thesis
    proof (cases y)
      case (Inl e)
      with Inr run x y y_law pre \<open>x = Inr cur\<close> show ?thesis
        by (auto simp: mongo_List_def io_unfold)
    next
      case (Inr ds)
      obtain c w3 where c: "run_state (CountDocuments (db_coll D) ?q) w2 = (c, w3)"
        by (meson surj_pair)
      have "docs w3 = docs w2" using coll c unfolding collection_ok_def by (blast dest: keepsD)
      moreover have "V (mig_Identifier m) = Some m \<and> mig_DeleteTime m = None \<and>
            filter_admits f m"
        if "docs_to_domain C ds = Inr ms" "m \<in> set ms" for ms m
      proof -
        from docs_to_domain_set [OF that] obtain d where d: "d \<in> set ds" "migrationDocToDomain C d = Inr m"
          by blast
        with y_law Inr have "d \<in> set (docs w)" "?q d" by auto
        with d pre doc_view_Some [of C "docs w" "mig_Identifier m" m] list_query_admits [of f d C m]
        show ?thesis using decode_fields [OF d(2)] by (auto simp: list_query_def)
      qed
      ultimately show ?thesis
        using Inr run x y c y_law pre \<open>x = Inr cur\<close>
        by (auto simp: mongo_List_def io_unfold C split: sum.splits)
    qed
  qed
qed

lemma mongo_SoftDelete_rec:
  assumes D: "mongo_ok D docs" and C: "C = db_codecs D"
  shows "rec_write (\<lambda>w. doc_view C (docs w)) (\<lambda>w. docs_ok C (docs w)) i
    (\<lambda>m m'. \<exists>t. m' = m\<lparr>mig_UpdateTime := Some t, mig_DeleteTime := Some t\<rparr>) (mongo_SoftDelete D i)"
  unfolding mongo_SoftDelete_def
  by (rule rec_write_bind_keeps [OF mongo_okD(1) [OF D]], rule rec_write_update_one [OF D C])
     (auto dest: decode_delete)

lemma mongo_SetRepositoryURL_triple:
  assumes D: "mongo_ok D docs" and C: "C = db_codecs D"
  shows "triple (\<lambda>w. docs_ok C (docs w) \<and> doc_view C (docs w) = V) (mongo_SetRepositoryURL D i url)
    (\<lambda>r w. docs_ok C (docs w) \<and>
       (let wrote = (\<exists>m. V i = Some m \<and> doc_view C (docs w) = V(i \<mapsto> m\<lparr>mig_RepositoryUrl := url\<rparr>))
        in case r of Inr _ \<Rightarrow> wrote | Inl e \<Rightarrow> doc_view C (docs w) = V \<or> wrote))"
  unfolding mongo_SetRepositoryURL_def
proof (rule tripleI)
  fix w r w'
  let ?f = "\<lambda>d. d\<lparr>doc_RepositoryURL := url\<rparr>"
  assume pre: "docs_ok C (docs w) \<and> doc_view C (docs w) = V"
    and run: "run_state (update_one D ''set_repository_url'' (\<lambda>d. doc_Identifier d = i) ?f) w = (r, w')"
  let ?upd = "\<exists>xs d ys. docs w = xs @ d # ys \<and> doc_Identifier d = i \<and> docs w' = xs @ ?f d # ys"
  let ?wrote = "\<exists>m. V i = Some m \<and> doc_view C (docs w') = V(i \<mapsto> m\<lparr>mig_RepositoryUrl := url\<rparr>)"
  have out: "case r of Inr _ \<Rightarrow> ?upd
      | Inl e \<Rightarrow> docs w' = docs w \<or> (\<not> domain_error e \<and> ?upd)"
    using tripleD [OF update_one_triple [OF D, where ds = "docs w"] run]
    by (simp add: Let_def split: sum.splits)
  have eff: "docs_ok C (docs w') \<and> ?wrote" if ?upd
  proof -
    from that obtain xs d ys where eq: "docs w = xs @ d # ys" "docs w' = xs @ ?f d # ys"
      and d: "doc_Identifier d = i" by blast
    have ok: "docs_ok C (xs @ d # ys)" using pre eq by simp
    then obtain m where m: "doc_reads C d m" by (auto simp: docs_ok_def)
    with d ok eq pre have "V i = Some m"
      using doc_view_Some [OF ok, of i m] by (auto simp: doc_reads_def)
    moreover have "doc_view C (docs w') = V(i \<mapsto> m\<lparr>mig_RepositoryUrl := url\<rparr>)"
      using doc_view_replace [OF ok d, of "?f d" "m\<lparr>mig_RepositoryUrl := url\<rparr>"]
        d decode_url [OF m, of url] eq pre by simp
    moreover have "docs_ok C (docs w')"
      using docs_ok_replace [OF ok _ decode_url [OF m, of url]] eq by simp
    ultimately show ?thesis by blast
  qed
  show "docs_ok C (docs w') \<and> (let wrote = ?wrote in
      case r of Inr _ \<Rightarrow> wrote | Inl e \<Rightarrow> doc_view C (docs w') = V \<or> wrote)"
    using out eff pre by (auto simp: Let_def split: sum.splits)
qed

text \<open>A fresh document reads back as the payload.\<close>

lemma migrationToDoc_reads:
  assumes C: "codecs_ok C" and doc: "migrationToDoc C m = Inr d"
  shows "\<exists>m'. doc_reads C (d\<lparr>doc_Identifier := i, doc_CreateTime := t\<rparr>) m' \<and>
    created m m' \<and> mig_Identifier m' = i \<and> doc_DeleteTime d = None"
proof -
  let ?d = "d\<lparr>doc_Identifier := i, doc_CreateTime := t\<rparr>"
  from doc obtain tb pb ob ab rb eb bb where
    b: "marshal_field (cTarget C) ''target'' (mig_Target m) = Inr tb"
       "marshal_field (cPlan C) ''plan'' (mig_Plan m) = Inr pb"
       "marshal_field (cOutput C) ''output'' (mig_Output m) = Inr ob"
       "marshal_field (cAssessment C) ''assessment'' (mig_MigrabilityAssessment m) = Inr ab"
       "marshal_field (cRoadmap C) ''roadmap'' (mig_RestructuringRoadmap m) = Inr rb"
       "marshal_field (cEnrichment C) ''enrichment'' (GetEnrichment (mig_RestructuringRoadmap m)) = Inr eb"
       "marshal_field (cBlueprint C) ''blueprint'' (GetBlueprint (mig_RestructuringRoadmap m)) = Inr bb"
    and d: "d = \<lparr> doc_Identifier = 0, doc_RepositoryID = mig_RepositoryId m,
           doc_RepositoryURL = mig_RepositoryUrl m, doc_OwnerUserID = mig_OwnerUserId m,
           doc_SourceBranch = mig_SourceBranch m, doc_State = mig_State m,
           doc_TargetBytes = tb, doc_AnalysisSummaryID = mig_AnalysisSummaryId m,
           doc_SourceAnalysisSummaryID = mig_SourceAnalysisSummaryId m,
           doc_PlanBytes = pb, doc_OutputBytes = ob, doc_AssessmentBytes = ab,
           doc_MigrabilityOverride = mig_MigrabilityOverride m, doc_AnalysisReused = False,
           doc_RoadmapBytes = rb, doc_EnrichmentBytes = eb, doc_BlueprintBytes = bb,
           doc_CreateTime = 0, doc_UpdateTime = None, doc_DeleteTime = None,
           doc_PurgeTime = None, bson_FailureReason = [] \<rparr>"
    unfolding migrationToDoc_def by auto
  note ok = C [unfolded codecs_ok_def]
  have u: "unmarshal_field (cTarget C) ''target'' tb = Inr (Option.bind (mig_Target m) (stored zero_TargetConfig))"
    "unmarshal_field (cPlan C) ''plan'' pb = Inr (Option.bind (mig_Plan m) (stored zero_RestructurePlan))"
    "unmarshal_field (cOutput C) ''output'' ob = Inr (Option.bind (mig_Output m) (stored zero_MigrationOutput))"
    "unmarshal_field (cAssessment C) ''assessment'' ab =
       Inr (Option.bind (mig_MigrabilityAssessment m) (stored zero_MigrabilityAssessment))"
    using ok b by (auto intro: unmarshal_marshal_field)
  obtain r e bp where v: "unmarshal_field (cRoadmap C) ''roadmap'' rb = Inr r"
    "unmarshal_field (cEnrichment C) ''enrichment'' eb = Inr e"
    "unmarshal_field (cBlueprint C) ''blueprint'' bb = Inr bp"
    using unmarshal_marshal_field [OF _ b(5)] unmarshal_marshal_field [OF _ b(6)]
      unmarshal_marshal_field [OF _ b(7)] ok by blast
  have "doc_roadmap C ?d = Inr (map_option (\<lambda>rm. merge_roadmap rm e bp) r)"
    by (rule doc_roadmap_merge) (use v d in auto)
  then have "\<exists>m'. migrationDocToDomain C ?d = Inr m' \<and> created m m' \<and> mig_Identifier m' = i"
    using u d by (auto simp: migrationDocToDomain_def created_def)
  then show ?thesis using v d by (auto simp: doc_reads_def)
qed

lemma mongo_Create_triple:
  assumes D: "mongo_ok D docs" and C: "C = db_codecs D"
  shows "triple (\<lambda>w. docs_ok C (docs w) \<and> doc_view C (docs w) = V) (mongo_Create D m)
    (\<lambda>r w. docs_ok C (docs w) \<and>
       (let wrote = (\<lambda>m'. V (mig_Identifier m') = None \<and> created m m' \<and>
                       doc_view C (docs w) = V(mig_Identifier m' \<mapsto> m'))
        in case r of Inr m' \<Rightarrow> wrote m' | Inl e \<Rightarrow> doc_view C (docs w) = V \<or> (\<exists>m'. wrote m')))"
proof (rule tripleI)
  fix w r w'
  assume pre: "docs_ok C (docs w) \<and> doc_view C (docs w) = V"
    and run: "run_state (mongo_Create D m) w = (r, w')"
  let ?wrote = "\<lambda>m'. V (mig_Identifier m') = None \<and> created m m' \<and>
                  doc_view C (docs w') = V(mig_Identifier m' \<mapsto> m')"
  obtain x w1 where x: "run_state (generateIdentifier (db_counters D) migrationsCollName) w = (x, w1)"
    by (meson surj_pair)
  obtain now w2 where now: "run_state (db_now D) w1 = (now, w2)" by (meson surj_pair)
  have w1: "docs w1 = docs w" using keeps_generateIdentifier [OF mongo_okD(4) [OF D]] x by (rule keepsD)
  have w2: "docs w2 = docs w" using keepsD [OF mongo_okD(1) [OF D] now] w1 by simp
  show "docs_ok C (docs w') \<and> (let wrote = ?wrote in
      case r of Inr m' \<Rightarrow> wrote m' | Inl e \<Rightarrow> doc_view C (docs w') = V \<or> (\<exists>m'. wrote m'))"
  proof (cases "\<exists>id d. x = Inr id \<and> migrationToDoc C m = Inr d")
    case False
    then have "docs w' = docs w \<and> (\<exists>e. r = Inl e)"
      using run x w1 by (cases x; cases "migrationToDoc C m") (auto simp: mongo_Create_def io_unfold C)
    then show ?thesis using pre by auto
  next
    case True
    then obtain id d where id: "x = Inr id" and d: "migrationToDoc C m = Inr d" by blast
    let ?d = "d\<lparr>doc_Identifier := id, doc_CreateTime := now\<rparr>"
    obtain m' where m': "doc_reads C ?d m'" "created m m'" "mig_Identifier m' = id"
      "doc_DeleteTime d = None"
      using migrationToDoc_reads [OF _ d, where i = id and t = now] mongo_okD(2) [OF D] C by auto
    obtain y w3 where y: "run_state (InsertOne (db_coll D) ?d) w2 = (y, w3)" by (meson surj_pair)
    let ?ins = "doc_Identifier ?d \<notin> doc_Identifier ` set (docs w) \<and> docs w3 = docs w @ [?d]"
    have y_law: "case y of Inr _ \<Rightarrow> ?ins | Inl _ \<Rightarrow> docs w3 = docs w \<or> ?ins"
      using collection_InsertOne [OF mongo_okD(3) [OF D] y] unfolding w2 .
    have w3: "w' = w3" and r: "r = (case y of Inl e \<Rightarrow> Inl (wrap_error ''migration: insert failed: '' e []) | Inr _ \<Rightarrow> Inr m')"
      using run x id d now y m'(1)
      by (auto simp: mongo_Create_def io_unfold C doc_reads_def split: sum.splits)
    have eff: "docs_ok C (docs w') \<and> ?wrote m'" if ?ins
      using doc_view_insert [of C "docs w" ?d m'] that pre m' w3 by auto
    show ?thesis using y_law r eff w3 pre by (auto simp: Let_def split: sum.splits)
  qed
qed

text \<open>
  The contract follows from the hypotheses on the driver and the codec. The hypotheses form a
  locale of their own, so that they can be discharged once for a concrete driver.
\<close>

lemma mongo_repository_port:
  assumes driver: "mongo_ok D docs"
  shows "migration_repository_port (MongoMigrationRepository D)
    (\<lambda>w. doc_view (db_codecs D) (docs w)) (\<lambda>w. docs_ok (db_codecs D) (docs w))"
  by unfold_locales
     (simp_all add: MongoMigrationRepository_def mongo_GetByID_triple mongo_List_triple
        mongo_Create_triple mongo_UpdateState_rec mongo_SetRepositoryURL_triple
        mongo_SetMigrabilityAssessment_rec mongo_SetMigrabilityOverride_rec
        mongo_SetRestructuringRoadmap_rec mongo_SetRoadmapEnrichment_rec
        mongo_SetServiceBlueprint_rec mongo_AdoptAnalysis_rec mongo_SoftDelete_rec driver)

locale mongo_store =
  fixes D :: "('w, 'b) MongoDB"
    and docs :: "'w \<Rightarrow> 'b mongoMigrationDoc list"
  assumes driver: "mongo_ok D docs"

sublocale mongo_store \<subseteq> migration_repository_port
  "MongoMigrationRepository D" "\<lambda>w. doc_view (db_codecs D) (docs w)"
  "\<lambda>w. docs_ok (db_codecs D) (docs w)"
  by (rule mongo_repository_port [OF driver])

end
