(* ===== verification/Analysis_Repository.thy ===== *)
theory Analysis_Repository
  imports Mongo_Driver
begin

text \<open>
  The analysis service's error registry (\<^verbatim>\<open>services/analysis/domain/errors.go\<close>), its repository port
  and the MongoDB repository of analysis summaries
  (\<^verbatim>\<open>infrastructure/repositories/mongo_analysis_summary_repository.go\<close>). The nested messages of a
  summary are stored as the bytes of a summary that has only the one field set, so there is one
  codec. The stored document has a field the Go struct lacks, \<open>sbson_FailureReason\<close>, which the
  analysis worker writes. \<open>Find\<close> is given its sort key, sort order and projection.
\<close>

section \<open>Errors\<close>

definition anl_ErrMissingIdentifier :: go_error where
  "anl_ErrMissingIdentifier = DErr ''ANL101'' ''Failure_Missing_Identifier''"
definition anl_ErrMissingRepositoryID :: go_error where
  "anl_ErrMissingRepositoryID = DErr ''ANL102'' ''Failure_Missing_Repository_ID''"
definition ErrAnalysisSummaryNotFound :: go_error where
  "ErrAnalysisSummaryNotFound = DErr ''ANL201'' ''Failure_Analysis_Summary_Not_Found''"
definition anl_ErrRepositoryNotFound :: go_error where
  "anl_ErrRepositoryNotFound = DErr ''ANL202'' ''Failure_Repository_Not_Found''"
definition anl_ErrRepoAuthFailed :: go_error where
  "anl_ErrRepoAuthFailed = DErr ''ANL203'' ''Failure_Repository_Auth_Failed''"
definition anl_ErrRepoUnreachable :: go_error where
  "anl_ErrRepoUnreachable = DErr ''ANL204'' ''Failure_Repository_Unreachable''"
definition ErrNoDeepData :: go_error where
  "ErrNoDeepData = DErr ''ANL205'' ''Failure_No_Deep_Data''"
definition anl_ErrInternal :: go_error where
  "anl_ErrInternal = DErr ''ANL500'' ''Failure_Internal''"

definition anl_error_registry :: "go_error list" where
  "anl_error_registry =
     [anl_ErrMissingIdentifier, anl_ErrMissingRepositoryID, ErrAnalysisSummaryNotFound,
      anl_ErrRepositoryNotFound, anl_ErrRepoAuthFailed, anl_ErrRepoUnreachable, ErrNoDeepData,
      anl_ErrInternal]"

lemmas anl_errors = anl_ErrMissingIdentifier_def anl_ErrMissingRepositoryID_def
  ErrAnalysisSummaryNotFound_def anl_ErrRepositoryNotFound_def anl_ErrRepoAuthFailed_def
  anl_ErrRepoUnreachable_def ErrNoDeepData_def anl_ErrInternal_def

section \<open>The port\<close>

record 'w AnalysisSummaryRepository =
  arepo_Create :: "AnalysisSummary \<Rightarrow> ('w, AnalysisSummary) io"
  arepo_GetByID :: "u64 \<Rightarrow> bool \<Rightarrow> ('w, AnalysisSummary) io"
  arepo_List :: "AnalysisSummariesFilter option \<Rightarrow> PageQueryParams option \<Rightarrow>
    ('w, AnalysisSummary list \<times> Pagination option) io"
  arepo_SoftDelete :: "u64 \<Rightarrow> ('w, unit) io"
  arepo_UpdateMigrabilityAssessment :: "u64 \<Rightarrow> MigrabilityAssessment \<Rightarrow> ('w, unit) io"

section \<open>Documents\<close>

definition zero_AnalysisSummary :: AnalysisSummary where
  "zero_AnalysisSummary =
     \<lparr> as_Identifier = 0, as_RepositoryId = 0, as_MigrationId = 0,
       as_State = ANALYSIS_STATE_UNSPECIFIED, as_Technologies = [], as_Vulnerabilities = [],
       as_DependencyGraph = [], as_TotalFiles = 0, as_TotalLines = 0, as_CreateTime = None,
       as_UpdateTime = None, as_DeleteTime = None, as_PurgeTime = None, as_ModuleCards = [],
       as_Blueprints = [], as_ModuleClassification = None, as_RepositoryUrl = [],
       as_SourceBranch = [], as_CommitSha = [], as_MigrabilityScore = None,
       as_MigrabilityAssessment = None, as_OwnerUserId = 0, as_SharedStateHubs = [],
       as_ModuleCountProduction = 0, as_ModuleCountTest = 0, as_UnreachableModules = [],
       as_DeepAnalysisAvailable = False \<rparr>"

record 'b mongoAnalysisSummaryDoc =
  sdoc_Identifier :: u64
  sdoc_RepositoryID :: u64
  sdoc_MigrationID :: u64
  sdoc_OwnerUserID :: u64
  sdoc_RepositoryURL :: string
  sdoc_SourceBranch :: string
  sdoc_CommitSHA :: string
  sdoc_State :: AnalysisState
  sdoc_TechnologiesBytes :: "'b list"
  sdoc_VulnerabilitiesBytes :: "'b list"
  sdoc_DependencyGraphBytes :: "'b list"
  sdoc_ModuleCardsBytes :: "'b list"
  sdoc_BlueprintsBytes :: "'b list"
  sdoc_ModuleClassificationBytes :: "'b list"
  sdoc_MigrabilityScoreBytes :: "'b list"
  sdoc_MigrabilityAssessmentBytes :: "'b list"
  sdoc_SharedStateHubsBytes :: "'b list"
  sdoc_UnreachableModulesBytes :: "'b list"
  sdoc_DeepAnalysisAvailable :: bool
  sdoc_TotalFiles :: u64
  sdoc_TotalLines :: u64
  sdoc_ModuleCountProduction :: int
  sdoc_ModuleCountTest :: int
  sdoc_CreateTime :: Timestamp
  sdoc_UpdateTime :: "Timestamp option"
  sdoc_DeleteTime :: "Timestamp option"
  sdoc_PurgeTime :: "Timestamp option"
  sbson_FailureReason :: string

type_synonym 'b summary_codec = "(AnalysisSummary, 'b) Codec"

record ('w, 'b) AnalysisDB =
  adb_coll :: "('w, 'b mongoAnalysisSummaryDoc) Collection"
  adb_FindPage :: "('b mongoAnalysisSummaryDoc \<Rightarrow> bool) \<Rightarrow> string \<times> int \<Rightarrow> int \<Rightarrow> int \<Rightarrow>
    ('b mongoAnalysisSummaryDoc \<Rightarrow> 'b mongoAnalysisSummaryDoc) \<Rightarrow>
    ('w, ('w, 'b mongoAnalysisSummaryDoc list) io) io"
  adb_FindNewest :: "('b mongoAnalysisSummaryDoc \<Rightarrow> bool) \<Rightarrow> ('w, 'b mongoAnalysisSummaryDoc option) io"
  adb_counters :: "'w Counters"
  adb_codec :: "'b summary_codec"
  adb_now :: "('w, Timestamp) state"

definition marshalTechnologies :: "'b summary_codec \<Rightarrow> Technology list \<Rightarrow> go_error + 'b list" where
  "marshalTechnologies C items = Marshal C (zero_AnalysisSummary\<lparr>as_Technologies := items\<rparr>)"
definition marshalVulnerabilities :: "'b summary_codec \<Rightarrow> Vulnerability list \<Rightarrow> go_error + 'b list" where
  "marshalVulnerabilities C items = Marshal C (zero_AnalysisSummary\<lparr>as_Vulnerabilities := items\<rparr>)"
definition marshalDependencyGraph :: "'b summary_codec \<Rightarrow> DependencyEdge list \<Rightarrow> go_error + 'b list" where
  "marshalDependencyGraph C items = Marshal C (zero_AnalysisSummary\<lparr>as_DependencyGraph := items\<rparr>)"

text \<open>Reading one nested field: absent bytes leave the field at its zero value.\<close>

definition read_part :: "'b summary_codec \<Rightarrow> string \<Rightarrow> (AnalysisSummary \<Rightarrow> 'x) \<Rightarrow> 'b list \<Rightarrow> go_error + 'x" where
  "read_part C label get b =
     (if b = [] then Inr (get zero_AnalysisSummary)
      else case Unmarshal C b of
          Inl e \<Rightarrow> Inl (wrap_error (''unmarshal '' @ label @ '': '') e []) | Inr wrapper \<Rightarrow> Inr (get wrapper))"

text \<open>Writing one nested list: an empty list is not written.\<close>

definition write_part :: "string \<Rightarrow> 'a list \<Rightarrow> ('a list \<Rightarrow> go_error + 'b list) \<Rightarrow> go_error + 'b list" where
  "write_part label items marshal =
     (if items = [] then Inr []
      else case marshal items of
          Inl e \<Rightarrow> Inl (wrap_error (''marshal '' @ label @ '': '') e []) | Inr b \<Rightarrow> Inr b)"

definition deriveStructuralVerdict :: "MigrabilityScore \<Rightarrow> string" where
  "deriveStructuralVerdict ms =
     (if \<exists>s \<in> set (ms_Signals ms). sig_Signal s = ''domain_presence'' \<and> sig_Penalty s = 40
      then ''NO_SERVICE_BOUNDARIES'' else [])"

definition unmarshalMigrabilityScore :: "AnalysisSummary \<Rightarrow> MigrabilityScore option" where
  "unmarshalMigrabilityScore wrapper =
     map_option (\<lambda>ms. ms\<lparr>ms_StructuralVerdict := deriveStructuralVerdict ms\<rparr>) (as_MigrabilityScore wrapper)"

definition summaryToDoc :: "'b summary_codec \<Rightarrow> AnalysisSummary \<Rightarrow> go_error + 'b mongoAnalysisSummaryDoc" where
  "summaryToDoc C s =
     sum_bind (write_part ''technologies'' (as_Technologies s) (marshalTechnologies C)) (\<lambda>tb.
     sum_bind (write_part ''vulnerabilities'' (as_Vulnerabilities s) (marshalVulnerabilities C)) (\<lambda>vb.
     sum_bind (write_part ''dependency_graph'' (as_DependencyGraph s) (marshalDependencyGraph C)) (\<lambda>gb.
     Inr \<lparr> sdoc_Identifier = 0, sdoc_RepositoryID = as_RepositoryId s,
           sdoc_MigrationID = as_MigrationId s, sdoc_OwnerUserID = as_OwnerUserId s,
           sdoc_RepositoryURL = as_RepositoryUrl s, sdoc_SourceBranch = as_SourceBranch s,
           sdoc_CommitSHA = as_CommitSha s, sdoc_State = as_State s,
           sdoc_TechnologiesBytes = tb, sdoc_VulnerabilitiesBytes = vb,
           sdoc_DependencyGraphBytes = gb, sdoc_ModuleCardsBytes = [], sdoc_BlueprintsBytes = [],
           sdoc_ModuleClassificationBytes = [], sdoc_MigrabilityScoreBytes = [],
           sdoc_MigrabilityAssessmentBytes = [], sdoc_SharedStateHubsBytes = [],
           sdoc_UnreachableModulesBytes = [], sdoc_DeepAnalysisAvailable = False,
           sdoc_TotalFiles = as_TotalFiles s, sdoc_TotalLines = as_TotalLines s,
           sdoc_ModuleCountProduction = 0, sdoc_ModuleCountTest = 0, sdoc_CreateTime = 0,
           sdoc_UpdateTime = None, sdoc_DeleteTime = None, sdoc_PurgeTime = None,
           sbson_FailureReason = [] \<rparr>)))"

definition summaryDocToDomain :: "'b summary_codec \<Rightarrow> 'b mongoAnalysisSummaryDoc \<Rightarrow> go_error + AnalysisSummary" where
  "summaryDocToDomain C d =
     sum_bind (read_part C ''technologies'' as_Technologies (sdoc_TechnologiesBytes d)) (\<lambda>te.
     sum_bind (read_part C ''vulnerabilities'' as_Vulnerabilities (sdoc_VulnerabilitiesBytes d)) (\<lambda>vu.
     sum_bind (read_part C ''dependency_graph'' as_DependencyGraph (sdoc_DependencyGraphBytes d)) (\<lambda>dg.
     sum_bind (read_part C ''module_cards'' as_ModuleCards (sdoc_ModuleCardsBytes d)) (\<lambda>cards.
     sum_bind (read_part C ''blueprints'' as_Blueprints (sdoc_BlueprintsBytes d)) (\<lambda>bps.
     sum_bind (read_part C ''module_classification'' as_ModuleClassification
                 (sdoc_ModuleClassificationBytes d)) (\<lambda>mc.
     sum_bind (read_part C ''migrability_score'' unmarshalMigrabilityScore
                 (sdoc_MigrabilityScoreBytes d)) (\<lambda>ms.
     sum_bind (read_part C ''migrability_assessment'' as_MigrabilityAssessment
                 (sdoc_MigrabilityAssessmentBytes d)) (\<lambda>ma.
     sum_bind (read_part C ''shared_state_hubs'' as_SharedStateHubs (sdoc_SharedStateHubsBytes d)) (\<lambda>hubs.
     sum_bind (read_part C ''unreachable_modules'' as_UnreachableModules
                 (sdoc_UnreachableModulesBytes d)) (\<lambda>um.
     Inr \<lparr> as_Identifier = sdoc_Identifier d, as_RepositoryId = sdoc_RepositoryID d,
           as_MigrationId = sdoc_MigrationID d, as_State = sdoc_State d, as_Technologies = te,
           as_Vulnerabilities = vu, as_DependencyGraph = dg, as_TotalFiles = sdoc_TotalFiles d,
           as_TotalLines = sdoc_TotalLines d,
           as_CreateTime = (if sdoc_CreateTime d \<noteq> 0 then Some (sdoc_CreateTime d) else None),
           as_UpdateTime = sdoc_UpdateTime d, as_DeleteTime = sdoc_DeleteTime d,
           as_PurgeTime = sdoc_PurgeTime d, as_ModuleCards = cards, as_Blueprints = bps,
           as_ModuleClassification = mc, as_RepositoryUrl = sdoc_RepositoryURL d,
           as_SourceBranch = sdoc_SourceBranch d, as_CommitSha = sdoc_CommitSHA d,
           as_MigrabilityScore = ms, as_MigrabilityAssessment = ma,
           as_OwnerUserId = sdoc_OwnerUserID d, as_SharedStateHubs = hubs,
           as_ModuleCountProduction = word_of_int (sdoc_ModuleCountProduction d),
           as_ModuleCountTest = word_of_int (sdoc_ModuleCountTest d), as_UnreachableModules = um,
           as_DeepAnalysisAvailable = sdoc_DeepAnalysisAvailable d \<rparr>))))))))))"

section \<open>The operations\<close>

definition analysisSummariesCollName :: string where
  "analysisSummariesCollName = ''analysis_summaries''"

abbreviation slive_at :: "u64 \<Rightarrow> 'b mongoAnalysisSummaryDoc \<Rightarrow> bool" where
  "slive_at i d \<equiv> sdoc_Identifier d = i \<and> sdoc_DeleteTime d = None"

definition asr_Create :: "('w, 'b) AnalysisDB \<Rightarrow> AnalysisSummary \<Rightarrow> ('w, AnalysisSummary) io" where
  "asr_Create D s =
     io_bind (io_wrap ''analysis: identifier: ''
                (generateIdentifier (adb_counters D) analysisSummariesCollName)) (\<lambda>id.
     io_bind (io_wrap ''analysis: serialize: ''
                (State_Monad.return (summaryToDoc (adb_codec D) s))) (\<lambda>doc.
     State_Monad.bind (adb_now D) (\<lambda>now.
     (let doc = doc\<lparr>sdoc_Identifier := id, sdoc_CreateTime := now\<rparr>
      in io_bind (io_wrap ''analysis: insert failed: '' (InsertOne (adb_coll D) doc))
           (\<lambda>_. State_Monad.return (summaryDocToDomain (adb_codec D) doc))))))"

definition asr_GetByID :: "('w, 'b) AnalysisDB \<Rightarrow> u64 \<Rightarrow> bool \<Rightarrow> ('w, AnalysisSummary) io" where
  "asr_GetByID D i includeDeleted =
     (let q = (\<lambda>d. sdoc_Identifier d = i \<and> (includeDeleted \<or> sdoc_DeleteTime d = None))
      in io_bind (io_wrap ''analysis: find one failed: '' (FindOne (adb_coll D) q)) (\<lambda>found.
           case found of
             None \<Rightarrow> io_err ErrAnalysisSummaryNotFound
           | Some doc \<Rightarrow> State_Monad.return (summaryDocToDomain (adb_codec D) doc)))"

definition summaries_query :: "AnalysisSummariesFilter option \<Rightarrow> 'b mongoAnalysisSummaryDoc \<Rightarrow> bool" where
  "summaries_query flt d \<longleftrightarrow>
     sdoc_DeleteTime d = None \<and>
     (case flt of None \<Rightarrow> True
      | Some f \<Rightarrow>
          (case af_RepositoryId f of None \<Rightarrow> True | Some u \<Rightarrow> u \<noteq> 0 \<longrightarrow> sdoc_RepositoryID d = u) \<and>
          (if af_Standalone f then sdoc_MigrationID d = 0
           else case af_MigrationId f of None \<Rightarrow> True | Some u \<Rightarrow> u \<noteq> 0 \<longrightarrow> sdoc_MigrationID d = u) \<and>
          (if af_States f \<noteq> [] then sdoc_State d \<in> set (af_States f)
           else case af_State f of None \<Rightarrow> True
                | Some s \<Rightarrow> s \<noteq> ANALYSIS_STATE_UNSPECIFIED \<longrightarrow> sdoc_State d = s) \<and>
          (case af_SourceBranch f of None \<Rightarrow> True | Some b \<Rightarrow> b \<noteq> [] \<longrightarrow> sdoc_SourceBranch d = b) \<and>
          (case af_OwnerUserId f of None \<Rightarrow> True | Some u \<Rightarrow> u \<noteq> 0 \<longrightarrow> sdoc_OwnerUserID d = u))"

definition summaries_sort :: "PageQueryParams option \<Rightarrow> string \<times> int" where
  "summaries_sort p =
     (case p of None \<Rightarrow> (''create_time'', -1)
      | Some q \<Rightarrow> (if pq_SortBy q = [] then ''create_time'' else pq_SortBy q,
                  if pq_Order q = ORDER_ASC then 1 else -1))"

text \<open>The projection of a listing leaves out the heavy fields.\<close>

definition listProjection :: "'b mongoAnalysisSummaryDoc \<Rightarrow> 'b mongoAnalysisSummaryDoc" where
  "listProjection d = d\<lparr>sdoc_DependencyGraphBytes := [], sdoc_ModuleCardsBytes := [],
     sdoc_BlueprintsBytes := [], sdoc_ModuleClassificationBytes := [],
     sdoc_MigrabilityAssessmentBytes := []\<rparr>"

definition PageNumberOf :: "PageQueryParams option \<Rightarrow> u32" where
  "PageNumberOf p = (case p of None \<Rightarrow> 0 | Some q \<Rightarrow> pq_PageNumber q)"
definition PageSizeOf :: "PageQueryParams option \<Rightarrow> u32" where
  "PageSizeOf p = (case p of None \<Rightarrow> 0 | Some q \<Rightarrow> pq_PageSize q)"

definition summaries_skip :: "PageQueryParams option \<Rightarrow> int" where
  "summaries_skip p =
     (let pageNumber = (if PageNumberOf p = 0 then 1 else PageNumberOf p)
      in uint ((pageNumber - 1) * PageSizeOf p))"

fun summaries_to_domain :: "'b summary_codec \<Rightarrow> 'b mongoAnalysisSummaryDoc list \<Rightarrow> go_error + AnalysisSummary list" where
  "summaries_to_domain C [] = Inr []"
| "summaries_to_domain C (d # ds) =
     (case summaryDocToDomain C d of
        Inl e \<Rightarrow> Inl (wrap_error ''analysis: deserialize: '' e [])
      | Inr s \<Rightarrow> sum_bind (summaries_to_domain C ds) (\<lambda>ss. Inr (s # ss)))"

definition asr_List ::
  "('w, 'b) AnalysisDB \<Rightarrow> AnalysisSummariesFilter option \<Rightarrow> PageQueryParams option \<Rightarrow>
   ('w, AnalysisSummary list \<times> Pagination option) io" where
  "asr_List D flt params =
     io_bind (io_wrap ''analysis: list failed: ''
                (adb_FindPage D (summaries_query flt) (summaries_sort params) (summaries_skip params)
                   (uint (PageSizeOf params)) listProjection)) (\<lambda>cur.
     io_bind (io_wrap ''analysis: decode failed: '' cur) (\<lambda>docs.
     State_Monad.bind (CountDocuments (adb_coll D) (summaries_query flt)) (\<lambda>c.
     let total = (case c of Inl _ \<Rightarrow> 0 | Inr n \<Rightarrow> n)
     in io_bind (State_Monad.return (summaries_to_domain (adb_codec D) docs)) (\<lambda>out.
          io_ok (out, Some (NewPagination (PageNumberOf params) (PageSizeOf params) total))))))"

definition summary_update ::
  "('w, 'b) AnalysisDB \<Rightarrow> string \<Rightarrow> u64 \<Rightarrow>
   ('b mongoAnalysisSummaryDoc \<Rightarrow> 'b mongoAnalysisSummaryDoc) \<Rightarrow> ('w, unit) io" where
  "summary_update D label i f =
     io_bind (io_wrap (''analysis: '' @ label @ '': '') (UpdateOne (adb_coll D) (slive_at i) f))
       (\<lambda>matched. if matched = 0 then io_err ErrAnalysisSummaryNotFound else io_ok ())"

definition asr_SoftDelete :: "('w, 'b) AnalysisDB \<Rightarrow> u64 \<Rightarrow> ('w, unit) io" where
  "asr_SoftDelete D i =
     State_Monad.bind (adb_now D) (\<lambda>now.
       summary_update D ''soft delete failed'' i
         (\<lambda>d. d\<lparr>sdoc_DeleteTime := Some now, sdoc_UpdateTime := Some now\<rparr>))"

definition asr_UpdateMigrabilityScore :: "('w, 'b) AnalysisDB \<Rightarrow> u64 \<Rightarrow> MigrabilityScore option \<Rightarrow> ('w, unit) io" where
  "asr_UpdateMigrabilityScore D i score =
     io_bind (io_wrap ''analysis: marshal migrability_score: ''
                (State_Monad.return (Marshal (adb_codec D)
                   (zero_AnalysisSummary\<lparr>as_MigrabilityScore := score\<rparr>)))) (\<lambda>b.
     State_Monad.bind (adb_now D) (\<lambda>now.
       summary_update D ''update migrability_score'' i
         (\<lambda>d. d\<lparr>sdoc_MigrabilityScoreBytes := b, sdoc_UpdateTime := Some now\<rparr>)))"

definition asr_UpdateMigrabilityAssessment ::
  "('w, 'b) AnalysisDB \<Rightarrow> u64 \<Rightarrow> MigrabilityAssessment \<Rightarrow> ('w, unit) io" where
  "asr_UpdateMigrabilityAssessment D i assessment =
     io_bind (io_wrap ''analysis: marshal migrability_assessment: ''
                (State_Monad.return (Marshal (adb_codec D)
                   (zero_AnalysisSummary\<lparr>as_MigrabilityAssessment := Some assessment\<rparr>)))) (\<lambda>b.
     State_Monad.bind (adb_now D) (\<lambda>now.
       summary_update D ''update migrability_assessment'' i
         (\<lambda>d. d\<lparr>sdoc_MigrabilityAssessmentBytes := b, sdoc_UpdateTime := Some now\<rparr>)))"

definition MongoAnalysisSummaryRepository :: "('w, 'b) AnalysisDB \<Rightarrow> 'w AnalysisSummaryRepository" where
  "MongoAnalysisSummaryRepository D =
     \<lparr> arepo_Create = asr_Create D, arepo_GetByID = asr_GetByID D, arepo_List = asr_List D,
       arepo_SoftDelete = asr_SoftDelete D,
       arepo_UpdateMigrabilityAssessment = asr_UpdateMigrabilityAssessment D \<rparr>"

section \<open>What the repository relies on\<close>

text \<open>
  Beside the laws of a collection: a page of documents holds matching documents, projected, and a
  page of size one sorted by creation time, newest first, holds a newest match, or nothing when
  there is no match; \<open>adb_FindNewest\<close> is the same for a single document.
\<close>

definition newest :: "('b mongoAnalysisSummaryDoc \<Rightarrow> bool) \<Rightarrow> 'b mongoAnalysisSummaryDoc list \<Rightarrow>
    'b mongoAnalysisSummaryDoc \<Rightarrow> bool" where
  "newest q ds d \<longleftrightarrow> d \<in> set ds \<and> q d \<and> (\<forall>d' \<in> set ds. q d' \<longrightarrow> sdoc_CreateTime d' \<le> sdoc_CreateTime d)"

definition page_law :: "('b mongoAnalysisSummaryDoc \<Rightarrow> bool) \<Rightarrow> string \<times> int \<Rightarrow> int \<Rightarrow> int \<Rightarrow>
    ('b mongoAnalysisSummaryDoc \<Rightarrow> 'b mongoAnalysisSummaryDoc) \<Rightarrow>
    'b mongoAnalysisSummaryDoc list \<Rightarrow> 'b mongoAnalysisSummaryDoc list \<Rightarrow> bool" where
  "page_law q srt skip limit proj ds out \<longleftrightarrow>
     set out \<subseteq> proj ` {d \<in> set ds. q d} \<and>
     (srt = (''create_time'', -1) \<and> skip = 0 \<and> limit = 1 \<longrightarrow>
        (case out of [] \<Rightarrow> \<forall>d \<in> set ds. \<not> q d
         | e # es \<Rightarrow> es = [] \<and> (\<exists>d. newest q ds d \<and> e = proj d)))"

definition analysis_ok :: "('w, 'b) AnalysisDB \<Rightarrow> ('w \<Rightarrow> 'b mongoAnalysisSummaryDoc list) \<Rightarrow> bool" where
  "analysis_ok D docs \<longleftrightarrow>
     collection_ok sdoc_Identifier (adb_coll D) docs \<and> counters_keep (adb_counters D) docs \<and>
     codec_ok zero_AnalysisSummary (adb_codec D) \<and> keeps docs (adb_now D) \<and>
     (\<forall>q srt s l p ds. triple (\<lambda>w. docs w = ds) (adb_FindPage D q srt s l p)
        (\<lambda>r w. docs w = ds \<and>
           (case r of Inl _ \<Rightarrow> True
            | Inr cur \<Rightarrow> triple (\<lambda>w. docs w = ds) cur
                (\<lambda>r w. docs w = ds \<and>
                   (case r of Inl _ \<Rightarrow> True | Inr out \<Rightarrow> page_law q srt s l p ds out))))) \<and>
     (\<forall>q ds. triple (\<lambda>w. docs w = ds) (adb_FindNewest D q)
        (\<lambda>r w. docs w = ds \<and>
           (case r of Inl _ \<Rightarrow> True
            | Inr None \<Rightarrow> \<forall>d \<in> set ds. \<not> q d
            | Inr (Some d) \<Rightarrow> newest q ds d)))"

section \<open>Reading back what was written\<close>

lemma read_part_nil [simp]: "read_part C l get [] = Inr (get zero_AnalysisSummary)"
  by (simp add: read_part_def)

lemma read_written:
  assumes "codec_ok zero_AnalysisSummary C" and "Marshal C x = Inr b" and "x \<noteq> zero_AnalysisSummary"
  shows "read_part C l get b = Inr (get x)"
  using assms by (auto simp: codec_ok_def read_part_def)

lemma zero_parts [simp]:
  "as_Technologies zero_AnalysisSummary = []" "as_Vulnerabilities zero_AnalysisSummary = []"
  "as_DependencyGraph zero_AnalysisSummary = []" "as_ModuleCards zero_AnalysisSummary = []"
  "as_Blueprints zero_AnalysisSummary = []" "as_ModuleClassification zero_AnalysisSummary = None"
  "unmarshalMigrabilityScore zero_AnalysisSummary = None"
  "as_MigrabilityAssessment zero_AnalysisSummary = None"
  "as_SharedStateHubs zero_AnalysisSummary = []" "as_UnreachableModules zero_AnalysisSummary = []"
  by (simp_all add: zero_AnalysisSummary_def unmarshalMigrabilityScore_def)

lemma read_write_part:
  assumes C: "codec_ok zero_AnalysisSummary C"
    and w: "write_part l items (\<lambda>xs. Marshal C (upd xs)) = Inr b"
    and upd: "\<And>xs. get (upd xs) = xs" and zero: "get zero_AnalysisSummary = []"
  shows "read_part C l' get b = Inr items"
proof (cases "items = []")
  case True
  with w zero show ?thesis by (simp add: write_part_def)
next
  case False
  then have m: "Marshal C (upd items) = Inr b" using w by (simp add: write_part_def split: sum.splits)
  have "upd items \<noteq> zero_AnalysisSummary" using False upd [of items] zero by auto
  from read_written [OF C m this, of l' get] upd [of items] show ?thesis by simp
qed

lemma read_write_parts:
  assumes "codec_ok zero_AnalysisSummary C"
  shows "write_part l t (marshalTechnologies C) = Inr b \<Longrightarrow> read_part C l' as_Technologies b = Inr t"
    and "write_part l v (marshalVulnerabilities C) = Inr b \<Longrightarrow> read_part C l' as_Vulnerabilities b = Inr v"
    and "write_part l g (marshalDependencyGraph C) = Inr b \<Longrightarrow> read_part C l' as_DependencyGraph b = Inr g"
  by (auto simp: marshalTechnologies_def [abs_def] marshalVulnerabilities_def [abs_def]
      marshalDependencyGraph_def [abs_def] intro!: read_write_part [OF assms])

text \<open>What a summary keeps when it is created: the fields the document has at creation.\<close>

definition kept_summary :: "AnalysisSummary \<Rightarrow> u64 \<Rightarrow> Timestamp \<Rightarrow> AnalysisSummary" where
  "kept_summary s i t = zero_AnalysisSummary\<lparr>as_Identifier := i,
     as_RepositoryId := as_RepositoryId s, as_MigrationId := as_MigrationId s,
     as_OwnerUserId := as_OwnerUserId s, as_RepositoryUrl := as_RepositoryUrl s,
     as_SourceBranch := as_SourceBranch s, as_CommitSha := as_CommitSha s, as_State := as_State s,
     as_Technologies := as_Technologies s, as_Vulnerabilities := as_Vulnerabilities s,
     as_DependencyGraph := as_DependencyGraph s, as_TotalFiles := as_TotalFiles s,
     as_TotalLines := as_TotalLines s, as_CreateTime := (if t \<noteq> 0 then Some t else None)\<rparr>"

lemma summaryToDoc_reads:
  assumes "codec_ok zero_AnalysisSummary C" and "summaryToDoc C s = Inr d"
  shows "summaryDocToDomain C (d\<lparr>sdoc_Identifier := i, sdoc_CreateTime := t\<rparr>) =
    Inr (kept_summary s i t)"
proof -
  from assms(2) obtain tb vb gb where
    b: "write_part ''technologies'' (as_Technologies s) (marshalTechnologies C) = Inr tb"
       "write_part ''vulnerabilities'' (as_Vulnerabilities s) (marshalVulnerabilities C) = Inr vb"
       "write_part ''dependency_graph'' (as_DependencyGraph s) (marshalDependencyGraph C) = Inr gb"
    and d: "sdoc_TechnologiesBytes d = tb" "sdoc_VulnerabilitiesBytes d = vb"
       "sdoc_DependencyGraphBytes d = gb"
    by (auto simp: summaryToDoc_def)
  have r: "read_part C l as_Technologies tb = Inr (as_Technologies s)"
      "read_part C l as_Vulnerabilities vb = Inr (as_Vulnerabilities s)"
      "read_part C l as_DependencyGraph gb = Inr (as_DependencyGraph s)" for l
    using read_write_parts [OF assms(1)] b by blast+
  show ?thesis
    using assms(2) b by (auto simp: summaryToDoc_def summaryDocToDomain_def r kept_summary_def
        zero_AnalysisSummary_def unmarshalMigrabilityScore_def)
qed

lemma asr_Create_run:
  assumes D: "analysis_ok D docs" and run: "run_state (asr_Create D s) w = (r, w')"
  shows "(docs w' = docs w \<and> isl r) \<or>
    (\<exists>d i t. sdoc_Identifier d = i \<and> sdoc_DeleteTime d = None \<and> i \<notin> sdoc_Identifier ` set (docs w) \<and>
       summaryDocToDomain (adb_codec D) d = Inr (kept_summary s i t) \<and> docs w' = docs w @ [d] \<and>
       (isl r \<or> r = Inr (kept_summary s i t)))"
proof -
  have C: "codec_ok zero_AnalysisSummary (adb_codec D)"
    and coll: "collection_ok sdoc_Identifier (adb_coll D) docs"
    and cnt: "counters_keep (adb_counters D) docs" and now: "keeps docs (adb_now D)"
    using D by (auto simp: analysis_ok_def)
  obtain x w1 where x: "run_state (generateIdentifier (adb_counters D) analysisSummariesCollName) w = (x, w1)"
    by (meson surj_pair)
  have w1: "docs w1 = docs w" using keepsD [OF keeps_generateIdentifier [OF cnt] x] .
  show ?thesis
  proof (cases x)
    case (Inl e)
    with run x w1 show ?thesis by (auto simp: asr_Create_def io_unfold)
  next
    case x': (Inr i)
    show ?thesis
    proof (cases "summaryToDoc (adb_codec D) s")
      case (Inl e)
      with run x x' w1 show ?thesis by (auto simp: asr_Create_def io_unfold)
    next
      case (Inr d)
      obtain t w2 where t: "run_state (adb_now D) w1 = (t, w2)" by (meson surj_pair)
      let ?d = "d\<lparr>sdoc_Identifier := i, sdoc_CreateTime := t\<rparr>"
      obtain y w3 where y: "run_state (InsertOne (adb_coll D) ?d) w2 = (y, w3)" by (meson surj_pair)
      have w2: "docs w2 = docs w" using keepsD [OF now t] w1 by simp
      note ins = collection_InsertOne [OF coll y]
      note rd = summaryToDoc_reads [OF C Inr, where i = i and t = t]
      have del: "sdoc_DeleteTime ?d = None" using Inr by (auto simp: summaryToDoc_def)
      have out: "w' = w3" "r = (case y of Inl e \<Rightarrow> Inl (wrap_error ''analysis: insert failed: '' e [])
          | Inr _ \<Rightarrow> Inr (kept_summary s i t))"
        using run x x' Inr t y rd
        by (auto simp: asr_Create_def io_unfold Let_def split: sum.splits)
      show ?thesis
        using ins out w2 rd del by (cases y) (auto intro!: exI [of _ ?d] exI [of _ t])
    qed
  qed
qed

text \<open>
  A summary that was created reads back: the record that the creation returns has the fields
  of the request that a fresh document stores, under a new identifier, and a later read by that
  identifier returns the same record (or an error of the driver, never "not found").
\<close>

theorem summary_create_get:
  assumes "analysis_ok D docs"
    and "run_state (asr_Create D s) w = (Inr s', w1)"
    and "run_state (asr_GetByID D (as_Identifier s') includeDeleted) w1 = (r, w2)"
  shows "(\<exists>t. s' = kept_summary s (as_Identifier s') t) \<and>
    (r = Inr s' \<or> (\<exists>e. r = Inl (wrap_error ''analysis: find one failed: '' e [])))"
proof -
  from asr_Create_run [OF assms(1,2)] obtain d i t where
    d: "sdoc_Identifier d = i" "sdoc_DeleteTime d = None" "i \<notin> sdoc_Identifier ` set (docs w)"
      "summaryDocToDomain (adb_codec D) d = Inr (kept_summary s i t)" "docs w1 = docs w @ [d]"
    and s': "s' = kept_summary s i t" by auto
  then have i: "as_Identifier s' = i" by (simp add: kept_summary_def)
  let ?q = "\<lambda>d. sdoc_Identifier d = i \<and> (includeDeleted \<or> sdoc_DeleteTime d = None)"
  obtain x w3 where x: "run_state (FindOne (adb_coll D) ?q) w1 = (x, w3)" by (meson surj_pair)
  have "collection_ok sdoc_Identifier (adb_coll D) docs" using assms(1) by (simp add: analysis_ok_def)
  from collection_FindOne [OF this x] d have f: "(\<exists>e. x = Inl e) \<or> x = Inr (Some d)"
    by (auto split: sum.splits option.splits simp: image_iff)
  then have "r = Inr s' \<or> (\<exists>e. r = Inl (wrap_error ''analysis: find one failed: '' e []))"
    using assms(3) x d(4) s' i by (auto simp: asr_GetByID_def io_unfold Let_def)
  with s' i show ?thesis by auto
qed

end
