(* ===== verification/Memory_Driver.thy ===== *)
theory Memory_Driver
  imports Mongo_Migration_Repository Analysis_Repository
begin

text \<open>
  A driver that keeps the collections in memory, with a codec whose bytes are messages. It meets
  the hypotheses the repositories put on MongoDB and on protobuf, so they can hold, and it makes
  every operation of the services computable on concrete data.
\<close>

datatype proto_msg =
    PTarget TargetConfig
  | PPlan RestructurePlan
  | POutput MigrationOutput
  | PAssessment MigrabilityAssessment
  | PRoadmap RestructuringRoadmap
  | PEnrichment RoadmapEnrichment
  | PBlueprint ServiceBlueprint
  | PSummary AnalysisSummary

record mem =
  mem_docs :: "proto_msg mongoMigrationDoc list"
  mem_seq :: "u64 option"
  mem_time :: Timestamp
  mem_analyses :: "proto_msg mongoAnalysisSummaryDoc list"

text \<open>The codec of one message type: a constructor and its partial inverse.\<close>

definition mem_codec :: "'m \<Rightarrow> ('m \<Rightarrow> proto_msg) \<Rightarrow> (proto_msg \<Rightarrow> 'm option) \<Rightarrow> ('m, proto_msg) Codec" where
  "mem_codec zero con dest =
     \<lparr> Marshal = (\<lambda>x. Inr (if x = zero then [] else [con x])),
       Unmarshal = (\<lambda>b. case b of
           [] \<Rightarrow> Inr zero
         | p # _ \<Rightarrow> (case dest p of None \<Rightarrow> Inl (ErrStr ''proto: wrong wire type'') | Some x \<Rightarrow> Inr x)) \<rparr>"

definition mem_codecs :: "proto_msg Codecs" where
  "mem_codecs =
     \<lparr> cTarget = mem_codec zero_TargetConfig PTarget (\<lambda>p. case p of PTarget x \<Rightarrow> Some x | _ \<Rightarrow> None),
       cPlan = mem_codec zero_RestructurePlan PPlan (\<lambda>p. case p of PPlan x \<Rightarrow> Some x | _ \<Rightarrow> None),
       cOutput = mem_codec zero_MigrationOutput POutput (\<lambda>p. case p of POutput x \<Rightarrow> Some x | _ \<Rightarrow> None),
       cAssessment = mem_codec zero_MigrabilityAssessment PAssessment
         (\<lambda>p. case p of PAssessment x \<Rightarrow> Some x | _ \<Rightarrow> None),
       cRoadmap = mem_codec zero_RestructuringRoadmap PRoadmap
         (\<lambda>p. case p of PRoadmap x \<Rightarrow> Some x | _ \<Rightarrow> None),
       cEnrichment = mem_codec zero_RoadmapEnrichment PEnrichment
         (\<lambda>p. case p of PEnrichment x \<Rightarrow> Some x | _ \<Rightarrow> None),
       cBlueprint = mem_codec zero_ServiceBlueprint PBlueprint
         (\<lambda>p. case p of PBlueprint x \<Rightarrow> Some x | _ \<Rightarrow> None) \<rparr>"

text \<open>Rewriting the first document that matches.\<close>

fun update_first :: "('d \<Rightarrow> bool) \<Rightarrow> ('d \<Rightarrow> 'd) \<Rightarrow> 'd list \<Rightarrow> nat \<times> 'd list" where
  "update_first q f [] = (0, [])"
| "update_first q f (d # ds) =
     (if q d then (1, f d # ds) else let (n, ds') = update_first q f ds in (n, d # ds'))"

text \<open>A collection kept in a component of the world, with a unique key.\<close>

definition list_coll ::
  "('w \<Rightarrow> 'd list) \<Rightarrow> ('d list \<Rightarrow> 'w \<Rightarrow> 'w) \<Rightarrow> ('d \<Rightarrow> 'k) \<Rightarrow> ('w, 'd) Collection" where
  "list_coll get put key =
     \<lparr> FindOne = (\<lambda>q. State (\<lambda>w. (Inr (find q (get w)), w))),
       Find = (\<lambda>q skip limit. State (\<lambda>w.
         (Inr (State (\<lambda>w'. (Inr ((if limit = 0 then id else take (nat limit))
            (drop (nat skip) (filter q (get w')))), w'))), w))),
       CountDocuments = (\<lambda>q. State (\<lambda>w. (Inr (of_nat (length (filter q (get w)))), w))),
       InsertOne = (\<lambda>d. State (\<lambda>w.
         if key d \<in> key ` set (get w) then (Inl (ErrStr ''duplicate key''), w)
         else (Inr (), put (get w @ [d]) w))),
       UpdateOne = (\<lambda>q f. State (\<lambda>w.
         let (n, ds) = update_first q f (get w) in (Inr n, put ds w))) \<rparr>"

definition mem_coll :: "(mem, proto_msg mongoMigrationDoc) Collection" where
  "mem_coll = list_coll mem_docs (\<lambda>ds w. w\<lparr>mem_docs := ds\<rparr>) doc_Identifier"

definition mem_analyses_coll :: "(mem, proto_msg mongoAnalysisSummaryDoc) Collection" where
  "mem_analyses_coll = list_coll mem_analyses (\<lambda>ds w. w\<lparr>mem_analyses := ds\<rparr>) sdoc_Identifier"

definition mem_counters :: "mem Counters" where
  "mem_counters =
     \<lparr> IncSeq = (\<lambda>s. State (\<lambda>w. case mem_seq w of
           None \<Rightarrow> (Inl (ErrStr ''no documents in result''), w)
         | Some n \<Rightarrow> (Inr (n + 1), w\<lparr>mem_seq := Some (n + 1)\<rparr>))),
       InsertSeq = (\<lambda>s v. State (\<lambda>w. case mem_seq w of
           None \<Rightarrow> (Inr (), w\<lparr>mem_seq := Some v\<rparr>)
         | Some n \<Rightarrow> (Inl (ErrStr ''duplicate key''), w))),
       IsDuplicateKeyError = (\<lambda>e. e = ErrStr ''duplicate key''),
       CtxErr = State_Monad.return None,
       SleepMs = (\<lambda>n. State (\<lambda>w. ((), w\<lparr>mem_time := mem_time w + int n\<rparr>))) \<rparr>"

definition mem_db :: "(mem, proto_msg) MongoDB" where
  "mem_db =
     \<lparr> db_coll = mem_coll, db_counters = mem_counters, db_codecs = mem_codecs,
       db_now = State (\<lambda>w. (mem_time w, w\<lparr>mem_time := mem_time w + 1\<rparr>)) \<rparr>"

text \<open>The newest documents first, documents of the same time in their order.\<close>

definition by_time :: "proto_msg mongoAnalysisSummaryDoc list \<Rightarrow> proto_msg mongoAnalysisSummaryDoc list" where
  "by_time = sort_key (\<lambda>d. - sdoc_CreateTime d)"

definition mem_page ::
  "(proto_msg mongoAnalysisSummaryDoc \<Rightarrow> bool) \<Rightarrow> string \<times> int \<Rightarrow> int \<Rightarrow> int \<Rightarrow>
   (proto_msg mongoAnalysisSummaryDoc \<Rightarrow> proto_msg mongoAnalysisSummaryDoc) \<Rightarrow>
   proto_msg mongoAnalysisSummaryDoc list \<Rightarrow> proto_msg mongoAnalysisSummaryDoc list" where
  "mem_page q srt skip limit proj ds =
     map proj ((if limit = 0 then id else take (nat limit)) (drop (nat skip)
       (if srt = (''create_time'', -1) then by_time (filter q ds) else filter q ds)))"

definition mem_adb :: "(mem, proto_msg) AnalysisDB" where
  "mem_adb =
     \<lparr> adb_coll = mem_analyses_coll,
       adb_FindPage = (\<lambda>q srt skip limit proj. State (\<lambda>w. (Inr (State (\<lambda>w'.
         (Inr (mem_page q srt skip limit proj (mem_analyses w')), w'))), w))),
       adb_FindNewest = (\<lambda>q. State (\<lambda>w. (Inr (case by_time (filter q (mem_analyses w)) of
         [] \<Rightarrow> None | d # _ \<Rightarrow> Some d), w))),
       adb_counters = mem_counters,
       adb_codec = mem_codec zero_AnalysisSummary PSummary (\<lambda>p. case p of PSummary x \<Rightarrow> Some x | _ \<Rightarrow> None),
       adb_now = db_now mem_db \<rparr>"

lemmas mem_defs = mem_db_def mem_coll_def list_coll_def mem_analyses_coll_def mem_adb_def mem_counters_def mem_codecs_def mem_codec_def

section \<open>The hypotheses hold\<close>

lemma mem_codec_ok: "(\<And>x. dest (con x) = Some x) \<Longrightarrow> codec_ok zero (mem_codec zero con dest)"
  by (auto simp: codec_ok_def mem_codec_def)

lemma mem_codecs_ok: "codecs_ok mem_codecs"
  by (simp add: codecs_ok_def mem_codecs_def mem_codec_ok)

lemma update_first_none: "update_first q f ds = (0, ds') \<Longrightarrow> (\<forall>d\<in>set ds. \<not> q d) \<and> ds' = ds"
  by (induction ds arbitrary: ds') (auto split: if_splits prod.splits)

lemma update_first_some:
  "update_first q f ds = (n, ds') \<Longrightarrow> n \<noteq> 0 \<Longrightarrow>
     \<exists>xs d ys. ds = xs @ d # ys \<and> q d \<and> ds' = xs @ f d # ys"
proof (induction ds arbitrary: ds')
  case Nil
  then show ?case by simp
next
  case (Cons a ds)
  show ?case
  proof (cases "q a")
    case True
    with Cons.prems show ?thesis by (intro exI [of _ "[]"]) auto
  next
    case False
    with Cons.prems obtain ds1 where r: "update_first q f ds = (n, ds1)" "ds' = a # ds1"
      by (auto split: prod.splits)
    from Cons.IH [OF r(1) Cons.prems(2)] obtain xs d ys
      where "ds = xs @ d # ys" "q d" "ds1 = xs @ f d # ys" by blast
    with r(2) show ?thesis by (intro exI [of _ "a # xs"]) auto
  qed
qed

lemma list_coll_ok:
  assumes put: "\<And>ds w. get (put ds w) = ds"
  shows "collection_ok key (list_coll get put key) get"
  unfolding collection_ok_def
proof (intro conjI allI)
  fix q D f
  show "triple (\<lambda>w. get w = D) (FindOne (list_coll get put key) q) (\<lambda>r w. get w = D \<and>
     (case r of Inl _ \<Rightarrow> True | Inr None \<Rightarrow> \<forall>d\<in>set D. \<not> q d | Inr (Some d) \<Rightarrow> d \<in> set D \<and> q d))"
    by (auto simp: triple_def list_coll_def find_None_iff dest: find_SomeD split: option.splits)
  show "triple (\<lambda>w. get w = D) (UpdateOne (list_coll get put key) q f)
     (\<lambda>r w. let updated = (\<exists>xs d ys. D = xs @ d # ys \<and> q d \<and> get w = xs @ f d # ys)
        in case r of Inr n \<Rightarrow> if n = 0 then (\<forall>d\<in>set D. \<not> q d) \<and> get w = D else updated
         | Inl _ \<Rightarrow> get w = D \<or> updated)"
    by (auto simp: triple_def list_coll_def Let_def put split: prod.splits
        dest: update_first_none update_first_some)
qed (auto simp: triple_def list_coll_def keeps_def Let_def put dest!: in_set_takeD in_set_dropD
      split: if_splits)

lemma mem_coll_ok: "collection_ok doc_Identifier mem_coll mem_docs"
  unfolding mem_coll_def by (rule list_coll_ok) simp

lemma mem_db_ok: "mongo_ok mem_db mem_docs"
  using mem_codecs_ok mem_coll_ok
  by (auto simp: mongo_ok_def mem_db_def counters_keep_def mem_counters_def keeps_def
      split: option.splits)

interpretation mem_store: mongo_store mem_db mem_docs
  by unfold_locales (rule mem_db_ok)

lemma by_time_newest:
  assumes "by_time (filter q ds) = d # es"
  shows "newest q ds d"
proof -
  have sorted: "sorted (map (\<lambda>d. - sdoc_CreateTime d) (d # es))"
    unfolding assms [symmetric] by_time_def by (rule sorted_sort_key)
  have elems: "set (d # es) = {d \<in> set ds. q d}"
    unfolding assms [symmetric] by (simp add: by_time_def)
  have "sdoc_CreateTime d' \<le> sdoc_CreateTime d" if "d' \<in> set ds" "q d'" for d'
    using sorted elems that by (cases "d' = d") auto
  with elems show ?thesis by (auto simp: newest_def)
qed

lemma by_time_nil: "by_time (filter q ds) = [] \<Longrightarrow> d \<in> set ds \<Longrightarrow> \<not> q d"
  by (drule arg_cong [of _ _ set]) (auto simp: by_time_def)

lemma mem_page_law: "page_law q srt skip limit proj ds (mem_page q srt skip limit proj ds)"
proof -
  let ?ds = "if srt = (''create_time'', -1) then by_time (filter q ds) else filter q ds"
  have "set ?ds \<subseteq> {d \<in> set ds. q d}" by (auto simp: by_time_def)
  then have "set (mem_page q srt skip limit proj ds) \<subseteq> proj ` {d \<in> set ds. q d}"
    unfolding mem_page_def by (cases "limit = 0") (force dest: in_set_takeD in_set_dropD)+
  moreover have "case map proj (take 1 (by_time (filter q ds))) of [] \<Rightarrow> \<forall>d\<in>set ds. \<not> q d
      | e # es \<Rightarrow> es = [] \<and> (\<exists>d. newest q ds d \<and> e = proj d)"
    by (cases "by_time (filter q ds)") (auto dest: by_time_newest by_time_nil)
  ultimately show ?thesis by (auto simp: page_law_def mem_page_def)
qed

lemma mem_adb_ok: "analysis_ok mem_adb mem_analyses"
proof -
  have "collection_ok sdoc_Identifier mem_analyses_coll mem_analyses"
    unfolding mem_analyses_coll_def by (rule list_coll_ok) simp
  moreover have "counters_keep mem_counters mem_analyses"
    by (auto simp: counters_keep_def mem_counters_def keeps_def split: option.splits)
  moreover have "codec_ok zero_AnalysisSummary (adb_codec mem_adb)"
    by (simp add: mem_adb_def mem_codec_ok)
  ultimately show ?thesis
    by (auto simp: analysis_ok_def mem_adb_def mem_db_def keeps_def triple_def Let_def mem_page_law
        dest: by_time_newest by_time_nil split: list.splits)
qed

end
