(* ===== verification/Migration_Lifecycle.thy ===== *)
theory Migration_Lifecycle
  imports Migration_Service Memory_Driver
begin

text \<open>
  The abstract life cycle of migrations and the proof that the service refines it: every request,
  with whatever errors the ports return, moves the stored migrations along steps of the life
  cycle. Requests run one after the other; the interleaving of requests with each other and with
  the workers is the subject of \<open>Worker_Writers\<close>.
\<close>

section \<open>The life cycle\<close>

text \<open>The transitions of the state of one migration that a request may cause. The step back to
  pending is the rollback of a failed start; it leaves the designing state when the adoption of
  an analysis took effect and its acknowledgement was lost.\<close>

inductive svc_step :: "MigrationState \<Rightarrow> MigrationState \<Rightarrow> bool" where
  start: "svc_step MIGRATION_STATE_PENDING MIGRATION_STATE_ANALYZING"
| adopt: "svc_step MIGRATION_STATE_ANALYZING MIGRATION_STATE_DESIGNING"
| rollback: "svc_step MIGRATION_STATE_ANALYZING MIGRATION_STATE_PENDING"
| rollback_adopted: "svc_step MIGRATION_STATE_DESIGNING MIGRATION_STATE_PENDING"
| approve: "svc_step MIGRATION_STATE_AWAITING_APPROVAL MIGRATION_STATE_GENERATING"
| roadmap: "svc_step MIGRATION_STATE_AWAITING_APPROVAL MIGRATION_STATE_RESTRUCTURING_READY"
| publish: "svc_step MIGRATION_STATE_READY MIGRATION_STATE_PUSHED"
| cancel: "\<not> isTerminalState s \<Longrightarrow> svc_step s MIGRATION_STATE_CANCELLED"

inductive_simps svc_step_simps: "svc_step s s'"

lemma svc_step_terminal: "svc_step s s' \<Longrightarrow> \<not> isTerminalState s"
  by (cases rule: svc_step.cases) auto

text \<open>A step of one record: what identifies it and the plan stay, the state makes a transition
  or none, the generation of code starts only past both gates, and only a migration in a terminal
  state is deleted.\<close>

definition rec_step :: "Migration \<Rightarrow> Migration \<Rightarrow> bool" where
  "rec_step m m' \<longleftrightarrow>
     mig_Identifier m' = mig_Identifier m \<and> mig_OwnerUserId m' = mig_OwnerUserId m \<and>
     mig_RepositoryId m' = mig_RepositoryId m \<and> mig_Target m' = mig_Target m \<and>
     mig_Plan m' = mig_Plan m \<and> mig_CreateTime m' = mig_CreateTime m \<and>
     (mig_State m' \<noteq> mig_State m \<longrightarrow>
        mig_DeleteTime m = None \<and> svc_step (mig_State m) (mig_State m') \<and>
        (mig_State m' = MIGRATION_STATE_GENERATING \<longrightarrow>
           \<not> GetNoServiceBoundaries (mig_Plan m) \<and> \<not> migrabilityBlocked m)) \<and>
     (mig_DeleteTime m' \<noteq> mig_DeleteTime m \<longrightarrow>
        mig_DeleteTime m = None \<and> isTerminalState (mig_State m))"

inductive view_step :: "(u64 \<Rightarrow> Migration option) \<Rightarrow> (u64 \<Rightarrow> Migration option) \<Rightarrow> bool" where
  change: "V i = Some m \<Longrightarrow> rec_step m m' \<Longrightarrow> view_step V (V(i \<mapsto> m'))"
| create: "V i = None \<Longrightarrow> mig_State m' = MIGRATION_STATE_PENDING \<Longrightarrow> mig_OwnerUserId m' \<noteq> 0 \<Longrightarrow>
    mig_RepositoryId m' \<noteq> 0 \<Longrightarrow> mig_DeleteTime m' = None \<Longrightarrow> view_step V (V(i \<mapsto> m'))"

lemma created_step:
  "created m m' \<Longrightarrow> V (mig_Identifier m') = None \<Longrightarrow> mig_State m = MIGRATION_STATE_PENDING \<Longrightarrow>
   mig_OwnerUserId m \<noteq> 0 \<Longrightarrow> mig_RepositoryId m \<noteq> 0 \<Longrightarrow> view_step V (V(mig_Identifier m' \<mapsto> m'))"
  by (rule view_step.create) (auto simp: created_def)

section \<open>Requests\<close>

datatype request =
    RCreate "Migration option" | RGet u64
  | RList "MigrationsFilter option" "PageQueryParams option" | RDelete u64
  | RStart u64 | RApprove u64 bool "string list" | RAssess u64 string | REnrich u64
  | RBlueprint u64 | ROverride u64 bool | RCancel u64 | RPackage u64
  | RPublish u64 string string string | RArtifacts u64 string | RRoadmap u64 | RExport u64
  | RDownload u64

text \<open>The answer to a request, whose payload does not matter here, and serving a request with its
  answer dropped.\<close>

definition void :: "('w, 'a) io \<Rightarrow> ('w, unit) io" where
  "void op = io_bind op (\<lambda>_. io_ok ())"

fun answer :: "'w Service \<Rightarrow> request \<Rightarrow> ('w, unit) io" where
  "answer S (RCreate p) = void (CreateMigration S p)"
| "answer S (RGet i) = void (GetMigration S i)"
| "answer S (RList f p) = void (ListMigrations S f p)"
| "answer S (RDelete i) = void (DeleteMigration S i)"
| "answer S (RStart i) = void (StartMigration S i)"
| "answer S (RApprove i a f) = void (ApproveDesign S i a f)"
| "answer S (RAssess i l) = void (AssessMigrability S i l)"
| "answer S (REnrich i) = void (EnrichRoadmap S i)"
| "answer S (RBlueprint i) = void (GenerateBlueprint S i)"
| "answer S (ROverride i b) = void (SetMigrabilityOverride S i b)"
| "answer S (RCancel i) = void (CancelMigration S i)"
| "answer S (RPackage i) = void (GetGenerationPackage S i)"
| "answer S (RPublish i u t c) = void (PublishMigration S i u t c)"
| "answer S (RArtifacts i n) = void (GetGenerationArtifacts S i n)"
| "answer S (RRoadmap i) = void (GenerateRestructuringRoadmap S i)"
| "answer S (RExport i) = void (ExportActionPlanPrompt S i)"
| "answer S (RDownload i) = void (DownloadDeliverable S i)"

definition serve :: "'w Service \<Rightarrow> request \<Rightarrow> ('w, unit) state" where
  "serve S r = io_ignore (answer S r) (State_Monad.return ())"

fun serve_all :: "'w Service \<Rightarrow> request list \<Rightarrow> ('w, unit) state" where
  "serve_all S [] = State_Monad.return ()"
| "serve_all S (r # rs) = io_ignore (serve S r) (serve_all S rs)"

section \<open>The environment of the service\<close>

text \<open>The clients besides the repository do not write migrations; \<open>obs\<close> observes them.\<close>

definition clients_keep :: "'w Service \<Rightarrow> ('w \<Rightarrow> 'v) \<Rightarrow> bool" where
  "clients_keep S obs \<longleftrightarrow>
     (\<forall>c u. svc_identity S = Some c \<longrightarrow> keeps obs (ValidateUserExists c u)) \<and>
     (\<forall>c. svc_repoSvc S = Some c \<longrightarrow>
        (\<forall>i. keeps obs (FetchRepositoryURL c i)) \<and> (\<forall>i. keeps obs (ProbeConnection c i)) \<and>
        (\<forall>u t fs msg. keeps obs (PushFiles c u t fs msg))) \<and>
     (\<forall>c. svc_analysis S = Some c \<longrightarrow>
        (\<forall>r m u b. keeps obs (RunAnalysis c r m u b)) \<and> (\<forall>i. keeps obs (GetAnalysisSummary c i))) \<and>
     (\<forall>i. keeps obs (svc_artifacts S i)) \<and>
     (\<forall>f i xs. svc_generationEnqueuer S = Some f \<longrightarrow> keeps obs (f i xs)) \<and>
     (\<forall>f i s u b. svc_decomposeEnqueuer S = Some f \<longrightarrow> keeps obs (f i s u b)) \<and>
     (\<forall>f i. svc_generationResultReader S = Some f \<longrightarrow> keeps obs (f i)) \<and>
     (\<forall>i s. keeps obs (svc_fileArtifactReader S i s)) \<and>
     (\<forall>f i l. svc_migrabilityAssessor S = Some f \<longrightarrow> keeps obs (f i l)) \<and>
     (\<forall>f r. svc_roadmapEnricher S = Some f \<longrightarrow> keeps obs (f r)) \<and>
     (\<forall>f i r. svc_blueprintGenerator S = Some f \<longrightarrow> keeps obs (f i r)) \<and>
     (\<forall>f i. svc_stackDetector S = Some f \<longrightarrow> keeps obs (f i)) \<and>
     (\<forall>root gw fs. keeps obs (svc_assemble S root gw fs)) \<and>
     keeps obs (svc_now S)"

text \<open>A transaction runs the function once as far as the migrations can tell, or fails and
  leaves them alone; when the commit fails either may be the case.\<close>

definition tx_ok :: "'w TransactionManager \<Rightarrow> ('w \<Rightarrow> 'v) \<Rightarrow> bool" where
  "tx_ok T obs \<longleftrightarrow>
     (\<forall>fn w r w'. run_state (WithTransaction T fn) w = (r, w') \<longrightarrow>
        (\<exists>e. r = Inl e \<and> obs w' = obs w) \<or>
        (\<exists>w1 r1 w2. obs w1 = obs w \<and> run_state fn w1 = (r1, w2) \<and> obs w' = obs w2 \<and>
           (r = r1 \<or> (\<exists>e. r = Inl e))))"

text \<open>The writes of the service as steps of a record.\<close>

lemma rec_step_state:
  "upd (put_state s) m m' \<Longrightarrow> mig_DeleteTime m = None \<Longrightarrow> svc_step (mig_State m) s \<Longrightarrow>
   s \<noteq> MIGRATION_STATE_GENERATING \<Longrightarrow> rec_step m m'"
  by (auto simp: rec_step_def upd_def put_state_def)

lemma rec_step_approve:
  "upd (put_state MIGRATION_STATE_GENERATING) m m' \<Longrightarrow> mig_DeleteTime m = None \<Longrightarrow>
   mig_State m = MIGRATION_STATE_AWAITING_APPROVAL \<Longrightarrow> \<not> GetNoServiceBoundaries (mig_Plan m) \<Longrightarrow>
   \<not> migrabilityBlocked m \<Longrightarrow> rec_step m m'"
  by (auto simp: rec_step_def upd_def put_state_def svc_step_simps)

lemma rec_step_adopt:
  "mig_DeleteTime m = None \<Longrightarrow> mig_State m = MIGRATION_STATE_ANALYZING \<Longrightarrow>
   upd (put_adopted src br) m m' \<Longrightarrow> rec_step m m'"
  by (auto simp: rec_step_def upd_def put_adopted_def svc_step_simps)

lemma rec_step_roadmap:
  "mig_DeleteTime m = None \<Longrightarrow> mig_State m = MIGRATION_STATE_AWAITING_APPROVAL \<Longrightarrow>
   upd (put_roadmap r) m m' \<Longrightarrow> rec_step m m'"
  by (auto simp: rec_step_def upd_def put_roadmap_def svc_step_simps)

lemma rec_step_delete:
  "mig_DeleteTime m = None \<Longrightarrow> isTerminalState (mig_State m) \<Longrightarrow>
   rec_step m (m\<lparr>mig_UpdateTime := t, mig_DeleteTime := t'\<rparr>)"
  by (auto simp: rec_step_def)

lemma rec_step_notes:
  "upd (put_assessment a) m m' \<Longrightarrow> rec_step m m'"
  "upd (put_override b) m m' \<Longrightarrow> rec_step m m'"
  "upd (put_enrichment e) m m' \<Longrightarrow> rec_step m m'"
  "upd (put_blueprint bp) m m' \<Longrightarrow> rec_step m m'"
  "rec_step m (m\<lparr>mig_RepositoryUrl := u\<rparr>)"
  by (auto simp: rec_step_def upd_def put_assessment_def put_override_def put_enrichment_def
      put_blueprint_def)

lemma upd_put_state [simp]:
  "upd (put_state s) m m' \<Longrightarrow> mig_State m' = s"
  "upd (put_state s) m m' \<Longrightarrow> mig_DeleteTime m' = mig_DeleteTime m"
  by (auto simp: upd_def put_state_def)

locale migration_service_env = migration_repository_port R view ok
  for R :: "'w MigrationRepository" and view and ok +
  fixes S :: "'w Service"
  assumes repo_S: "svc_repo S = R"
    and clients: "clients_keep S (\<lambda>w. (ok w, view w))"
    and transactions: "tx_ok (svc_tx S) (\<lambda>w. (ok w, view w))"
begin

definition here :: "(u64 \<Rightarrow> Migration option) \<Rightarrow> 'w \<Rightarrow> bool" where
  "here V w \<longleftrightarrow> ok w \<and> view w = V"

definition past :: "(u64 \<Rightarrow> Migration option) \<Rightarrow> 'w \<Rightarrow> bool" where
  "past V w \<longleftrightarrow> ok w \<and> view_step\<^sup>*\<^sup>* V (view w)"

definition moves :: "(u64 \<Rightarrow> Migration option) \<Rightarrow> ('w, 'a) state \<Rightarrow> bool" where
  "moves V op \<longleftrightarrow> triple (here V) op (\<lambda>_. past V)"

lemma here_past: "here V w \<Longrightarrow> past V w"
  by (simp add: here_def past_def)

lemma moves_return [intro, simp]: "moves V (State_Monad.return x)"
  by (simp add: moves_def here_past triple_return)

lemma moves_later:
  assumes "moves V' op" and "view_step\<^sup>*\<^sup>* V V'"
  shows "triple (here V') op (\<lambda>_. past V)"
  using assms unfolding moves_def past_def
  by (elim triple_weaken) (auto intro: rtranclp_trans)

lemma keeps_here: "keeps (\<lambda>w. (ok w, view w)) c \<Longrightarrow> triple (here V) c (\<lambda>_. here V)"
  unfolding here_def by (drule triple_keeps [where P = "\<lambda>(a, v). a \<and> v = V"]) simp

lemma moves_keeps: "keeps (\<lambda>w. (ok w, view w)) c \<Longrightarrow> moves V c"
  unfolding moves_def by (rule triple_weaken [OF keeps_here]) (auto intro: here_past)

lemma moves_bind:
  "keeps (\<lambda>w. (ok w, view w)) c \<Longrightarrow> (\<And>x. moves V (f x)) \<Longrightarrow> moves V (State_Monad.bind c f)"
  unfolding moves_def by (rule triple_bind [OF keeps_here])

lemma moves_io_bind:
  assumes "keeps (\<lambda>w. (ok w, view w)) c" and "\<And>x. moves V (f x)"
  shows "moves V (io_bind c f)"
  unfolding io_bind_def
  by (rule moves_bind [OF assms(1)]) (auto intro: assms(2) split: sum.split)

lemma moves_io_ignore:
  "keeps (\<lambda>w. (ok w, view w)) c \<Longrightarrow> moves V n \<Longrightarrow> moves V (io_ignore c n)"
  unfolding io_ignore_def by (rule moves_bind)

lemma moves_if: "(c \<Longrightarrow> moves V a) \<Longrightarrow> (\<not> c \<Longrightarrow> moves V b) \<Longrightarrow> moves V (if c then a else b)"
  by simp

lemma moves_option:
  "(x = None \<Longrightarrow> moves V a) \<Longrightarrow> (\<And>y. x = Some y \<Longrightarrow> moves V (b y)) \<Longrightarrow>
   moves V (case x of None \<Rightarrow> a | Some y \<Rightarrow> b y)"
  by (cases x) auto

text \<open>After a read the record is known; a failed read ends the request.\<close>

lemma moves_get:
  assumes "\<And>m. V i = Some m \<Longrightarrow> mig_Identifier m = i \<Longrightarrow> mig_DeleteTime m = None \<Longrightarrow> moves V (f m)"
  shows "moves V (io_bind (repo_GetByID R i False) f)"
  unfolding moves_def
proof (rule triple_io_bind [where R = "\<lambda>m w. here V w \<and> V i = Some m \<and> mig_Identifier m = i \<and>
      mig_DeleteTime m = None"])
  show "triple (here V) (repo_GetByID R i False) (\<lambda>r w. case r of Inl e \<Rightarrow> past V w
      | Inr m \<Rightarrow> here V w \<and> V i = Some m \<and> mig_Identifier m = i \<and> mig_DeleteTime m = None)"
    using GetByID_law [of V i] unfolding here_def
    by (elim triple_weaken) (auto simp: past_def split: sum.splits)
  show "triple (\<lambda>w. here V w \<and> V i = Some m \<and> mig_Identifier m = i \<and> mig_DeleteTime m = None)
      (f m) (\<lambda>_. past V)" for m
    using assms [of m] by (auto simp: triple_def moves_def)
qed

text \<open>A write: every record it may leave behind is a step away, and the request goes on from
  there; when it fails the request goes on from either view.\<close>

lemma moves_write:
  assumes law: "rec_write view ok i P op"
    and step: "\<And>m m'. V i = Some m \<Longrightarrow> mig_DeleteTime m = None \<Longrightarrow> P m m' \<Longrightarrow> rec_step m m'"
    and ok_next: "\<And>m m'. V i = Some m \<Longrightarrow> P m m' \<Longrightarrow> moves (V(i \<mapsto> m')) (f (Inr ()))"
    and err_same: "\<And>e. moves V (f (Inl e))"
    and err_next: "\<And>e m m'. V i = Some m \<Longrightarrow> P m m' \<Longrightarrow> moves (V(i \<mapsto> m')) (f (Inl e))"
  shows "moves V (State_Monad.bind op f)"
  unfolding moves_def
proof (rule triple_bind)
  let ?wrote = "\<lambda>w. \<exists>m m'. V i = Some m \<and> mig_DeleteTime m = None \<and> P m m' \<and> here (V(i \<mapsto> m')) w"
  show "triple (here V) op (\<lambda>r w. (case r of Inl e \<Rightarrow> here V w | Inr _ \<Rightarrow> False) \<or> ?wrote w)"
    using law unfolding rec_write_def here_def
    by (elim allE [of _ V] triple_weaken) (auto simp: Let_def split: sum.splits)
  fix r
  have "triple ?wrote (f r) (\<lambda>_. past V)"
  proof (rule tripleI)
    fix w r' w' assume "?wrote w" and run: "run_state (f r) w = (r', w')"
    then obtain m m' where m: "V i = Some m" "mig_DeleteTime m = None" "P m m'" "here (V(i \<mapsto> m')) w"
      by blast
    have "view_step\<^sup>*\<^sup>* V (V(i \<mapsto> m'))"
      using m by (auto intro!: view_step.change step)
    moreover have "moves (V(i \<mapsto> m')) (f r)"
      using m ok_next err_next by (cases r) auto
    ultimately show "past V w'" using moves_later run m(4) by (blast dest: tripleD)
  qed
  moreover have "triple (here V) (f r) (\<lambda>_. past V)" if "r = Inl e" for e
    using err_same [of e] that by (simp add: moves_def)
  ultimately show "triple (\<lambda>w. (case r of Inl e \<Rightarrow> here V w | Inr _ \<Rightarrow> False) \<or> ?wrote w) (f r) (\<lambda>_. past V)"
    by (cases r) (auto simp: triple_def)
qed

lemma moves_io_write:
  assumes "rec_write view ok i P op"
    and "\<And>m m'. V i = Some m \<Longrightarrow> mig_DeleteTime m = None \<Longrightarrow> P m m' \<Longrightarrow> rec_step m m'"
    and "\<And>m m'. V i = Some m \<Longrightarrow> P m m' \<Longrightarrow> moves (V(i \<mapsto> m')) (f ())"
  shows "moves V (io_bind op f)"
  unfolding io_bind_def by (rule moves_write [OF assms(1,2)]) (auto intro: assms(3))

lemma rec_write_io_wrap: "rec_write view ok i P op \<Longrightarrow> rec_write view ok i P (io_wrap pre op)"
  unfolding rec_write_def
proof
  fix V
  assume *: "\<forall>V. triple (\<lambda>w. ok w \<and> view w = V) op (\<lambda>r w. ok w \<and>
    (let wrote = \<exists>m m'. V i = Some m \<and> mig_DeleteTime m = None \<and> P m m' \<and> view w = V(i \<mapsto> m')
     in case r of Inr _ \<Rightarrow> wrote | Inl e \<Rightarrow> view w = V \<or> \<not> domain_error e \<and> wrote))"
  show "triple (\<lambda>w. ok w \<and> view w = V) (io_wrap pre op) (\<lambda>r w. ok w \<and>
    (let wrote = \<exists>m m'. V i = Some m \<and> mig_DeleteTime m = None \<and> P m m' \<and> view w = V(i \<mapsto> m')
     in case r of Inr _ \<Rightarrow> wrote | Inl e \<Rightarrow> view w = V \<or> \<not> domain_error e \<and> wrote))"
    by (intro triple_io_wrap triple_weaken [OF * [rule_format, of V]])
       (auto simp: Let_def split: sum.splits)
qed

lemma keeps_io_wrap: "keeps obs c \<Longrightarrow> keeps obs (io_wrap pre c)"
  unfolding io_wrap_def by (rule keeps_bind) (auto split: sum.split)

lemma keeps_when_set:
  "(\<And>x. c = Some x \<Longrightarrow> keeps obs (f x)) \<Longrightarrow> keeps obs (when_set c f)"
  by (cases c) (auto simp: when_set_def)

lemmas client_facts = clients [unfolded clients_keep_def]

lemma client_keeps:
  "keeps (\<lambda>w. (ok w, view w)) (probe S r)"
  "keeps (\<lambda>w. (ok w, view w)) (svc_artifacts S i)"
  "keeps (\<lambda>w. (ok w, view w)) (svc_fileArtifactReader S i n)"
  "keeps (\<lambda>w. (ok w, view w)) (svc_now S)"
  "keeps (\<lambda>w. (ok w, view w)) (source_summary S src)"
  "keeps (\<lambda>w. (ok w, view w)) (when_set (svc_identity S) (\<lambda>c. ValidateUserExists c u))"
  "keeps (\<lambda>w. (ok w, view w)) (when_set (svc_generationEnqueuer S) (\<lambda>e. e i xs))"
  "keeps (\<lambda>w. (ok w, view w)) (when_set (svc_decomposeEnqueuer S) (\<lambda>e. e i src url br))"
  "keeps (\<lambda>w. (ok w, view w)) (when_set (svc_analysis S) (\<lambda>c. RunAnalysis c rid i u br))"
  using client_facts
  by (auto simp: probe_def source_summary_def intro!: keeps_when_set keeps_bind
      split: option.split sum.split)

lemma moves_GetMigration: "moves V (GetMigration S i)"
  unfolding GetMigration_def repo_S
  using client_facts
  by (auto intro!: moves_get moves_bind split: option.split sum.split)

lemma moves_ListMigrations: "moves V (ListMigrations S f p)"
  unfolding ListMigrations_def repo_S moves_def here_def past_def
  by (rule triple_weaken [OF List_law]) auto

lemma moves_DeleteMigration: "moves V (DeleteMigration S i)"
proof -
  have "moves V (State_Monad.bind (repo_SoftDelete R i) State_Monad.return)"
    if "V i = Some m" "isTerminalState (mig_State m)" for m
    by (rule moves_write [OF SoftDelete_law]) (use that in \<open>auto intro: rec_step_delete\<close>)
  then show ?thesis
    unfolding DeleteMigration_def repo_S by (auto intro!: moves_get)
qed

text \<open>The service's way to set a state.\<close>

lemma moves_set_state:
  assumes "V i = Some m" and "mig_DeleteTime m = None \<Longrightarrow> svc_step (mig_State m) s"
    and "s \<noteq> MIGRATION_STATE_GENERATING"
    and "\<And>m'. upd (put_state s) m m' \<Longrightarrow> moves (V(i \<mapsto> m')) (f ())"
  shows "moves V (io_bind (repo_UpdateState R i s) f)"
  by (rule moves_io_write [OF UpdateState_law]) (use assms in \<open>auto elim!: rec_step_state\<close>)

text \<open>Rolling back a start: from the analysing state, or from the designing state that a lost
  acknowledgement leaves behind.\<close>

lemma moves_rollback:
  assumes "V i = Some m" and "mig_State m \<in> {MIGRATION_STATE_ANALYZING, MIGRATION_STATE_DESIGNING}"
  shows "moves V (io_ignore (repo_UpdateState R i MIGRATION_STATE_PENDING) (io_err e))"
  unfolding io_ignore_def
  by (rule moves_write [OF UpdateState_law])
     (use assms in \<open>auto elim!: rec_step_state simp: svc_step_simps\<close>)

lemma moves_startNormal:
  assumes "V (mig_Identifier m) = Some m" and "mig_State m = MIGRATION_STATE_PENDING"
  shows "moves V (startNormal S m)"
  unfolding startNormal_def repo_S
  apply (rule moves_io_bind, rule client_keeps)
  apply (rule moves_set_state [where m = m])
    apply (simp_all add: assms svc_step_simps)
  apply (rule moves_bind, rule client_keeps)
  apply (auto split: sum.split intro: moves_rollback)
  done

lemma moves_adopt:
  assumes "V i = Some m" and "mig_State m = MIGRATION_STATE_ANALYZING"
    and "\<And>m'. upd (put_adopted src br) m m' \<Longrightarrow> moves (V(i \<mapsto> m')) n"
  shows "moves V (State_Monad.bind (repo_AdoptAnalysis R i src br) (\<lambda>r. case r of
      Inl err \<Rightarrow> io_ignore (repo_UpdateState R i MIGRATION_STATE_PENDING) (io_err (e err))
    | Inr _ \<Rightarrow> n))"
proof -
  have "mig_State m' = MIGRATION_STATE_DESIGNING" if "upd (put_adopted src br) m m'" for m'
    using that by (auto simp: upd_def put_adopted_def)
  then show ?thesis
    by (intro moves_write [OF AdoptAnalysis_law])
       (use assms in \<open>auto intro: rec_step_adopt moves_rollback\<close>)
qed

lemma moves_startWithReuse:
  assumes "V (mig_Identifier m) = Some m" and "mig_State m = MIGRATION_STATE_PENDING"
  shows "moves V (startWithReuse S m)"
proof -
  let ?i = "mig_Identifier m"
  have go: "moves V (io_bind (probe S (mig_RepositoryId m)) (\<lambda>_.
      io_bind (repo_UpdateState R ?i MIGRATION_STATE_ANALYZING) (\<lambda>_.
      State_Monad.bind (repo_AdoptAnalysis R ?i src br) (\<lambda>r. case r of
        Inl err \<Rightarrow> io_ignore (repo_UpdateState R ?i MIGRATION_STATE_PENDING) (io_err (e err))
      | Inr _ \<Rightarrow> io_ignore (when_set (svc_decomposeEnqueuer S) (\<lambda>enq. enq ?i src url br))
          (io_ok x)))))" for src br url e x
    apply (rule moves_io_bind, rule client_keeps)
    apply (rule moves_set_state [where m = m])
      apply (simp_all add: assms svc_step_simps)
    apply (rule moves_adopt)
      apply (auto intro: moves_io_ignore client_keeps)
    done
  show ?thesis
    unfolding startWithReuse_def Let_def repo_S
    by (rule moves_io_bind [OF client_keeps(5)], rule moves_if, rule moves_return, rule go)
qed

lemma moves_StartMigration: "moves V (StartMigration S i)"
  unfolding StartMigration_def repo_S
  by (auto intro!: moves_get moves_startNormal moves_startWithReuse)

lemma moves_to_cancelled:
  "V i = Some m \<Longrightarrow> \<not> isTerminalState (mig_State m) \<Longrightarrow>
   moves V (io_bind (repo_UpdateState R i MIGRATION_STATE_CANCELLED) (\<lambda>_. io_ok x))"
  by (auto intro!: moves_set_state simp: svc_step_simps)

lemma moves_to_pushed:
  "V i = Some m \<Longrightarrow> mig_State m = MIGRATION_STATE_READY \<Longrightarrow>
   moves V (io_bind (repo_UpdateState R i MIGRATION_STATE_PUSHED) (\<lambda>_. io_ok x))"
  by (auto intro!: moves_set_state simp: svc_step_simps)

lemma moves_ApproveDesign: "moves V (ApproveDesign S i approved flt)"
proof -
  have yes: "moves V (io_bind (repo_UpdateState R i MIGRATION_STATE_GENERATING) (\<lambda>_. io_ignore
      (when_set (svc_generationEnqueuer S) (\<lambda>e. e i flt)) (io_ok x)))"
    if "V i = Some m" "mig_State m = MIGRATION_STATE_AWAITING_APPROVAL"
      "\<not> GetNoServiceBoundaries (mig_Plan m)" "\<not> migrabilityBlocked m" for i m x
    using that
    by (intro moves_io_write [OF UpdateState_law] moves_io_ignore client_keeps)
       (auto intro: rec_step_approve)
  show ?thesis
    unfolding ApproveDesign_def repo_S Let_def
    by (cases approved)
       (auto simp: io_ignore_def [of "io_ok ()"] intro!: moves_get yes moves_to_cancelled)
qed

lemma moves_CancelMigration: "moves V (CancelMigration S i)"
  unfolding CancelMigration_def repo_S
  by (auto intro!: moves_get intro: moves_to_cancelled)

lemma moves_AssessMigrability: "moves V (AssessMigrability S i language)"
proof -
  have persist: "moves V (io_bind (io_wrap l (repo_SetMigrabilityAssessment R i a)) (\<lambda>_. io_ok x))" for l i a x
    by (intro moves_io_write [OF rec_write_io_wrap [OF SetMigrabilityAssessment_law]])
       (auto intro: rec_step_notes)
  show ?thesis
    unfolding AssessMigrability_def repo_S using client_facts
    by (auto intro!: moves_get moves_io_bind keeps_io_wrap moves_bind keeps_bind persist
        split: option.split sum.split)
qed

lemma moves_SetMigrabilityOverride: "moves V (SetMigrabilityOverride S i b)"
  unfolding SetMigrabilityOverride_def repo_S
  by (auto intro!: moves_get moves_io_write [OF rec_write_io_wrap [OF SetMigrabilityOverride_law]]
      intro: rec_step_notes)

lemma moves_GenerateRestructuringRoadmap: "moves V (GenerateRestructuringRoadmap S i)"
proof -
  have persist: "moves V (io_bind (io_wrap l (repo_SetRestructuringRoadmap R i rm)) (\<lambda>_. io_ok x))" for l i rm x
    by (intro moves_io_write [OF rec_write_io_wrap [OF SetRestructuringRoadmap_law]])
       (auto intro: rec_step_roadmap)
  show ?thesis
    unfolding GenerateRestructuringRoadmap_def repo_S Let_def using client_facts
    by (auto intro!: moves_get moves_bind keeps_bind persist split: option.split sum.split prod.split)
qed

lemma moves_EnrichRoadmap: "moves V (EnrichRoadmap S i)"
proof -
  have persist: "moves V (io_bind (io_wrap l (repo_SetRoadmapEnrichment R i e)) (\<lambda>_. io_ok x))" for l i e x
    by (intro moves_io_write [OF rec_write_io_wrap [OF SetRoadmapEnrichment_law]])
       (auto intro: rec_step_notes)
  show ?thesis
    unfolding EnrichRoadmap_def repo_S using client_facts
    by (auto intro!: moves_get moves_io_bind keeps_io_wrap persist split: option.split)
qed

lemma moves_GenerateBlueprint: "moves V (GenerateBlueprint S i)"
proof -
  have persist: "moves V (io_bind (io_wrap l (repo_SetServiceBlueprint R i b)) (\<lambda>_. io_ok x))" for l i b x
    by (intro moves_io_write [OF rec_write_io_wrap [OF SetServiceBlueprint_law]])
       (auto intro: rec_step_notes)
  show ?thesis
    unfolding GenerateBlueprint_def repo_S using client_facts
    by (auto intro!: moves_get moves_io_bind keeps_io_wrap persist split: option.split)
qed

lemma moves_ExportActionPlanPrompt: "moves V (ExportActionPlanPrompt S i)"
  unfolding ExportActionPlanPrompt_def repo_S using client_facts
  by (auto intro!: moves_get moves_bind keeps_bind split: option.split sum.split prod.split)

lemma moves_GetGenerationPackage: "moves V (GetGenerationPackage S i)"
  unfolding GetGenerationPackage_def repo_S Let_def
  by (auto intro!: moves_get moves_io_bind keeps_io_wrap client_keeps)

lemma moves_GetGenerationArtifacts: "moves V (GetGenerationArtifacts S i n)"
  unfolding GetGenerationArtifacts_def repo_S Let_def using client_facts
  by (auto intro!: moves_get moves_io_bind moves_bind keeps_bind keeps_io_wrap client_keeps
      split: option.split sum.split)

lemma moves_DownloadDeliverable: "moves V (DownloadDeliverable S i)"
  unfolding DownloadDeliverable_def repo_S Let_def using client_facts
  by (auto intro!: moves_get moves_io_bind keeps_io_wrap client_keeps)

lemma moves_PublishMigration: "moves V (PublishMigration S i url tok msg)"
proof -
  have push: "moves V (io_bind (case svc_repoSvc S of None \<Rightarrow> nil_deref
      | Some c \<Rightarrow> PushFiles c url tok fs msg) f)" if "\<And>x. moves V (f x)" for fs f
    using client_facts that by (auto simp: split: option.split intro!: moves_io_bind)
  have final: "moves V (io_bind (case svc_repoSvc S of None \<Rightarrow> nil_deref
      | Some c \<Rightarrow> PushFiles c url tok fs msg) (\<lambda>b.
      if mig_State m \<noteq> MIGRATION_STATE_PUSHED
      then io_bind (repo_UpdateState R j MIGRATION_STATE_PUSHED) (\<lambda>_. io_ok (x, b))
      else io_ok (y, b)))"
    if "V j = Some m" "mig_State m = MIGRATION_STATE_READY \<or> mig_State m = MIGRATION_STATE_PUSHED"
    for fs m x y j
    by (rule push) (use that in \<open>auto intro: moves_to_pushed\<close>)
  show ?thesis
    unfolding PublishMigration_def repo_S Let_def
    by (intro moves_if moves_return moves_get moves_io_bind [OF keeps_io_wrap [OF client_keeps(3)]]
        moves_option final) auto
qed

lemma moves_CreateMigration: "moves V (CreateMigration S p)"
proof -
  have create: "moves V (io_wrap l (WithTransaction (svc_tx S) (repo_Create R m)))"
    if m: "mig_State m = MIGRATION_STATE_PENDING" "mig_OwnerUserId m \<noteq> 0" "mig_RepositoryId m \<noteq> 0"
    for l m
    unfolding moves_def
  proof (rule triple_io_wrap, rule tripleI)
    fix w r w'
    assume w: "here V w" and run: "run_state (WithTransaction (svc_tx S) (repo_Create R m)) w = (r, w')"
    have "past V w'"
    proof -
      consider "(ok w', view w') = (ok w, view w)"
        | w1 r1 w2 where "(ok w1, view w1) = (ok w, view w)" "run_state (repo_Create R m) w1 = (r1, w2)"
            "(ok w', view w') = (ok w2, view w2)"
        using transactions run unfolding tx_ok_def by metis
      then show ?thesis
      proof cases
        case 1
        with w show ?thesis by (auto simp: here_def past_def)
      next
        case 2
        then have "ok w2 \<and> (view w2 = V \<or> (\<exists>m'. V (mig_Identifier m') = None \<and> created m m' \<and>
            view w2 = V(mig_Identifier m' \<mapsto> m')))"
          using tripleD [OF Create_law [of V m] 2(2)] w by (auto simp: here_def Let_def split: sum.splits)
        moreover have "view_step\<^sup>*\<^sup>* V (V(mig_Identifier m' \<mapsto> m'))"
          if "created m m'" "V (mig_Identifier m') = None" for m'
          using created_step [where V = V, OF that m] by blast
        ultimately show ?thesis using 2 by (auto simp: past_def)
      qed
    qed
    then show "case r of Inl e \<Rightarrow> past V w' | Inr x \<Rightarrow> past V w'" by (cases r) auto
  qed
  have fetch: "keeps (\<lambda>w. (ok w, view w)) (FetchRepositoryURL c j)" if "svc_repoSvc S = Some c" for c j
    using client_facts that by auto
  show ?thesis
    unfolding CreateMigration_def repo_S
    by (cases "svc_repoSvc S")
       (auto simp: io_bind_assoc intro!: moves_if moves_io_bind [OF client_keeps(6)]
          moves_io_bind [OF fetch] create split: option.split)
qed

lemma moves_io_ignore_return: "moves V op \<Longrightarrow> moves V (io_ignore op (State_Monad.return x))"
  unfolding moves_def io_ignore_def
  by (rule triple_bind) (auto intro: triple_return)

lemma moves_void: "moves V op \<Longrightarrow> moves V (void op)"
  unfolding moves_def void_def io_bind_def
  by (rule triple_bind) (auto intro: triple_return split: sum.split)

lemma moves_answer: "moves V (answer S r)"
  by (cases r)
     (simp_all add: moves_void moves_CreateMigration moves_GetMigration
        moves_ListMigrations moves_DeleteMigration moves_StartMigration moves_ApproveDesign
        moves_AssessMigrability moves_EnrichRoadmap moves_GenerateBlueprint
        moves_SetMigrabilityOverride moves_CancelMigration moves_GetGenerationPackage
        moves_PublishMigration moves_GetGenerationArtifacts moves_GenerateRestructuringRoadmap
        moves_ExportActionPlanPrompt moves_DownloadDeliverable)

lemma moves_serve: "moves V (serve S r)"
  unfolding serve_def by (rule moves_io_ignore_return) (rule moves_answer)

lemma moves_serve_all: "moves V (serve_all S rs)"
proof (induction rs arbitrary: V)
  case Nil
  show ?case by simp
next
  case (Cons r rs)
  show ?case
    unfolding moves_def
  proof (rule tripleI)
    fix w x w' assume w: "here V w" and run: "run_state (serve_all S (r # rs)) w = (x, w')"
    obtain y w1 where y: "run_state (serve S r) w = (y, w1)" by (meson surj_pair)
    with w have w1: "past V w1" using moves_serve unfolding moves_def by (blast dest: tripleD)
    have "run_state (serve_all S rs) w1 = (x, w')" using run y by (simp add: io_unfold)
    then have "past (view w1) w'"
      using w1 Cons.IH [of "view w1"] unfolding moves_def past_def here_def by (auto dest: tripleD)
    with w1 show "past V w'" unfolding past_def by (auto intro: rtranclp_trans)
  qed
qed

end

section \<open>The service over MongoDB\<close>

text \<open>The service wired to the repository over a driver, in an environment that leaves the
  collection of migrations alone.\<close>

definition service_over ::
  "('w, 'b) MongoDB \<Rightarrow> ('w \<Rightarrow> 'b mongoMigrationDoc list) \<Rightarrow> 'w Service \<Rightarrow> bool" where
  "service_over D docs S \<longleftrightarrow>
     svc_repo S = MongoMigrationRepository D \<and> mongo_ok D docs \<and> clients_keep S docs \<and>
     tx_ok (svc_tx S) docs"

lemma keeps_comp: "keeps obs m \<Longrightarrow> keeps (\<lambda>w. g (obs w)) m"
  by (auto simp: keeps_def)

lemma clients_keep_comp: "clients_keep S obs \<Longrightarrow> clients_keep S (\<lambda>w. g (obs w))"
  unfolding clients_keep_def by (auto intro!: keeps_comp [of obs _ g])

lemma tx_ok_comp: "tx_ok T obs \<Longrightarrow> tx_ok T (\<lambda>w. g (obs w))"
  unfolding tx_ok_def by metis

lemma service_over_env:
  assumes "service_over D docs S"
  shows "migration_service_env (MongoMigrationRepository D)
    (\<lambda>w. doc_view (db_codecs D) (docs w)) (\<lambda>w. docs_ok (db_codecs D) (docs w)) S"
proof -
  have "migration_repository_port (MongoMigrationRepository D)
      (\<lambda>w. doc_view (db_codecs D) (docs w)) (\<lambda>w. docs_ok (db_codecs D) (docs w))"
    using assms by (simp add: mongo_repository_port service_over_def)
  then show ?thesis
    using assms
      clients_keep_comp [of S docs "\<lambda>ds. (docs_ok (db_codecs D) ds, doc_view (db_codecs D) ds)"]
      tx_ok_comp [of "svc_tx S" docs "\<lambda>ds. (docs_ok (db_codecs D) ds, doc_view (db_codecs D) ds)"]
    by (simp add: migration_service_env_def migration_service_env_axioms_def service_over_def)
qed

text \<open>The service over the in-memory driver, with no client besides the stores.\<close>

definition mem_service :: "mem Service" where
  "mem_service =
     \<lparr> svc_repo = MongoMigrationRepository mem_db, svc_tx = MongoTransactionManager None,
       svc_identity = None, svc_repoSvc = None, svc_analysis = None,
       svc_artifacts = (\<lambda>i. io_ok []), svc_generationEnqueuer = None,
       svc_decomposeEnqueuer = None, svc_generationResultReader = None,
       svc_fileArtifactReader = (\<lambda>i n. io_ok []), svc_migrabilityAssessor = None,
       svc_roadmapEnricher = None, svc_blueprintGenerator = None, svc_stackDetector = None,
       svc_monorepoPath = [],
       svc_assemble = (\<lambda>root gw fs. io_ok []),
       svc_zip = \<lparr> zw_CreateHeader = (\<lambda>es n. None), zw_Write = (\<lambda>es c. None), zw_Close = (\<lambda>es. Inr []) \<rparr>,
       svc_now = db_now mem_db \<rparr>"

lemma mem_service_over: "service_over mem_db mem_docs mem_service"
  using mem_db_ok
  by (auto simp: service_over_def mem_service_def clients_keep_def tx_ok_def mongo_ok_def
      MongoTransactionManager_def)

interpretation mem_env: migration_service_env
  "MongoMigrationRepository mem_db" "\<lambda>w. doc_view (db_codecs mem_db) (mem_docs w)"
  "\<lambda>w. docs_ok (db_codecs mem_db) (mem_docs w)" mem_service
  by (rule service_over_env [OF mem_service_over])

section \<open>The service refines the life cycle\<close>

lemma serve_all_view:
  assumes "service_over D docs S" and "C = db_codecs D"
    and "docs_ok C (docs w)" and "run_state (serve_all S reqs) w = (x, w')"
  shows "docs_ok C (docs w') \<and> view_step\<^sup>*\<^sup>* (doc_view C (docs w)) (doc_view C (docs w'))"
proof -
  note env = service_over_env [OF assms(1)]
  show ?thesis
    using tripleD [OF migration_service_env.moves_serve_all [OF env,
        unfolded migration_service_env.moves_def [OF env]] assms(4), of "doc_view C (docs w)"] assms(2,3)
    by (simp add: migration_service_env.here_def [OF env] migration_service_env.past_def [OF env])
qed

text \<open>What survives any number of steps: a record stays, with its owner and its plan; a deleted
  record stays deleted, one in a terminal state keeps its state.\<close>

lemma view_steps_record:
  assumes "view_step\<^sup>*\<^sup>* V V'" and "V i = Some m"
  shows "\<exists>m'. V' i = Some m' \<and> mig_OwnerUserId m' = mig_OwnerUserId m \<and>
    mig_RepositoryId m' = mig_RepositoryId m \<and> mig_Plan m' = mig_Plan m \<and>
    (isTerminalState (mig_State m) \<longrightarrow> mig_State m' = mig_State m) \<and>
    (mig_DeleteTime m \<noteq> None \<longrightarrow> mig_DeleteTime m' = mig_DeleteTime m \<and> mig_State m' = mig_State m)"
  using assms(1)
proof (induction rule: rtranclp_induct)
  case base
  then show ?case using assms(2) by auto
next
  case (step V1 V2)
  then obtain m1 where m1: "V1 i = Some m1" "mig_OwnerUserId m1 = mig_OwnerUserId m"
    "mig_RepositoryId m1 = mig_RepositoryId m" "mig_Plan m1 = mig_Plan m"
    "isTerminalState (mig_State m) \<longrightarrow> mig_State m1 = mig_State m"
    "mig_DeleteTime m \<noteq> None \<longrightarrow> mig_DeleteTime m1 = mig_DeleteTime m \<and> mig_State m1 = mig_State m"
    by blast
  from step.hyps(2) show ?case
  proof cases
    case (change j m0 m')
    show ?thesis
    proof (cases "j = i")
      case True
      with change m1 have "rec_step m1 m'" "V2 i = Some m'" by auto
      with m1 show ?thesis by (auto simp: rec_step_def dest: svc_step_terminal)
    next
      case False
      with change m1 show ?thesis by auto
    qed
  next
    case (create j m')
    with m1 show ?thesis by auto
  qed
qed

lemma view_steps_gate:
  assumes "view_step\<^sup>*\<^sup>* V V'"
    and "\<forall>i m. V i = Some m \<and> mig_State m = MIGRATION_STATE_GENERATING \<longrightarrow>
      \<not> GetNoServiceBoundaries (mig_Plan m)"
  shows "\<forall>i m. V' i = Some m \<and> mig_State m = MIGRATION_STATE_GENERATING \<longrightarrow>
      \<not> GetNoServiceBoundaries (mig_Plan m)"
  using assms(1)
proof (induction rule: rtranclp_induct)
  case base
  show ?case by (fact assms(2))
next
  case (step V1 V2)
  from step.hyps(2) show ?case
  proof cases
    case (change i m m')
    then have "mig_State m' = MIGRATION_STATE_GENERATING \<longrightarrow> \<not> GetNoServiceBoundaries (mig_Plan m')"
      using step.IH by (auto simp: rec_step_def)
    with change step.IH show ?thesis by auto
  next
    case (create i m')
    with step.IH show ?thesis by auto
  qed
qed

text \<open>
  C1. Any sequence of requests, served one after the other over MongoDB, whatever errors the
  store and the other services return on the way, keeps the collection well formed and moves the
  stored migrations along steps of the life cycle only: at each step one record changes, by a
  transition of its state that the life cycle has or without one, keeping its owner, repository,
  target and plan; the generation of code starts only past the boundary gate and the migrability
  gate; only a migration in a terminal state is deleted; a new record starts pending.
\<close>

theorem requests_refine_lifecycle:
  assumes "service_over D docs S" and "docs_ok (db_codecs D) (docs w)"
    and "run_state (serve_all S reqs) w = (x, w')"
  shows "docs_ok (db_codecs D) (docs w') \<and>
    view_step\<^sup>*\<^sup>* (doc_view (db_codecs D) (docs w)) (doc_view (db_codecs D) (docs w'))"
  using serve_all_view [OF assms(1) refl assms(2,3)] .

text \<open>A stored migration for the examples.\<close>

definition demo_doc :: "u64 \<Rightarrow> MigrationState \<Rightarrow> proto_msg mongoMigrationDoc" where
  "demo_doc i s =
     \<lparr> doc_Identifier = i, doc_RepositoryID = 7, doc_RepositoryURL = ''https://git.example/app'',
       doc_OwnerUserID = 42, doc_SourceBranch = ''main'', doc_State = s, doc_TargetBytes = [],
       doc_AnalysisSummaryID = 0, doc_SourceAnalysisSummaryID = 0, doc_PlanBytes = [],
       doc_OutputBytes = [], doc_AssessmentBytes = [], doc_MigrabilityOverride = False,
       doc_AnalysisReused = False, doc_RoadmapBytes = [], doc_EnrichmentBytes = [],
       doc_BlueprintBytes = [], doc_CreateTime = 5, doc_UpdateTime = None, doc_DeleteTime = None,
       doc_PurgeTime = None, bson_FailureReason = [] \<rparr>"

definition demo_world :: "MigrationState \<Rightarrow> mem" where
  "demo_world s = \<lparr> mem_docs = [demo_doc 1 s], mem_seq = Some 10001, mem_time = 100,
       mem_analyses = [] \<rparr>"

lemma demo_world_ok: "docs_ok (db_codecs mem_db) (mem_docs (demo_world s))"
  by (simp add: docs_ok_def demo_world_def demo_doc_def doc_reads_def migrationDocToDomain_def
      doc_roadmap_def unmarshal_field_def)

theorem requests_refine_lifecycle_witness:
  "let w' = snd (run_state (serve_all mem_service [RStart 1, RCancel 1])
                   (demo_world MIGRATION_STATE_PENDING))
   in map doc_State (mem_docs w') = [MIGRATION_STATE_CANCELLED] \<and> view_step\<^sup>*\<^sup>*
        (doc_view (db_codecs mem_db) (mem_docs (demo_world MIGRATION_STATE_PENDING)))
        (doc_view (db_codecs mem_db) (mem_docs w'))"
proof -
  have "map doc_State (mem_docs (snd (run_state (serve_all mem_service [RStart 1, RCancel 1])
      (demo_world MIGRATION_STATE_PENDING)))) = [MIGRATION_STATE_CANCELLED]"
    by code_simp
  then show ?thesis
    using requests_refine_lifecycle [OF mem_service_over demo_world_ok prod.collapse [symmetric]]
    by (simp add: Let_def del: serve_all.simps)
qed

text \<open>
  C2. A migration in a terminal state (pushed, failed, cancelled, restructuring ready) is in that
  state after any sequence of requests, and it still belongs to its owner.
\<close>

theorem terminal_states_absorbing:
  assumes "service_over D docs S" and "docs_ok (db_codecs D) (docs w)"
    and "run_state (serve_all S reqs) w = (x, w')"
    and "doc_view (db_codecs D) (docs w) i = Some m"
    and "mig_State m \<in> {MIGRATION_STATE_PUSHED, MIGRATION_STATE_FAILED,
      MIGRATION_STATE_CANCELLED, MIGRATION_STATE_RESTRUCTURING_READY}"
  shows "\<exists>m'. doc_view (db_codecs D) (docs w') i = Some m' \<and> mig_State m' = mig_State m \<and>
    mig_OwnerUserId m' = mig_OwnerUserId m"
proof -
  have "isTerminalState (mig_State m)" using assms(5) by (auto simp: isTerminalState.simps)
  then show ?thesis
    using view_steps_record [OF conjunct2 [OF serve_all_view [OF assms(1) refl assms(2,3)]] assms(4)]
    by blast
qed

theorem terminal_states_absorbing_witness:
  "\<exists>m'. doc_view (db_codecs mem_db) (mem_docs (snd (run_state
       (serve_all mem_service [RStart 1, RApprove 1 True [], RDelete 1])
       (demo_world MIGRATION_STATE_CANCELLED)))) 1 = Some m' \<and>
     mig_State m' = MIGRATION_STATE_CANCELLED \<and> mig_OwnerUserId m' = 42"
proof -
  have m: "doc_view (db_codecs mem_db) (mem_docs (demo_world MIGRATION_STATE_CANCELLED)) 1 =
      Some (projr (migrationDocToDomain (db_codecs mem_db) (demo_doc 1 MIGRATION_STATE_CANCELLED)))"
    by (simp add: doc_view_def demo_world_def demo_doc_def migrationDocToDomain_def
        doc_roadmap_def unmarshal_field_def)
  show ?thesis
    using terminal_states_absorbing [OF mem_service_over demo_world_ok prod.collapse [symmetric] m]
    by (simp add: demo_doc_def migrationDocToDomain_def doc_roadmap_def unmarshal_field_def
        del: serve_all.simps)
qed

text \<open>
  C3. Code is generated only for plans with service boundaries: if that holds of the stored
  migrations before, it holds after any sequence of requests.
\<close>

theorem generating_has_boundaries:
  assumes "service_over D docs S" and "docs_ok (db_codecs D) (docs w)"
    and "run_state (serve_all S reqs) w = (x, w')"
    and "\<forall>i m. doc_view (db_codecs D) (docs w) i = Some m \<and>
      mig_State m = MIGRATION_STATE_GENERATING \<longrightarrow> \<not> GetNoServiceBoundaries (mig_Plan m)"
  shows "\<forall>i m. doc_view (db_codecs D) (docs w') i = Some m \<and>
      mig_State m = MIGRATION_STATE_GENERATING \<longrightarrow> \<not> GetNoServiceBoundaries (mig_Plan m)"
  by (rule view_steps_gate [OF conjunct2 [OF serve_all_view [OF assms(1) refl assms(2,3)]] assms(4)])

theorem generating_has_boundaries_witness:
  "\<exists>m. doc_view (db_codecs mem_db) (mem_docs (snd (run_state
       (serve_all mem_service [RApprove 1 True [], RGet 1])
       (demo_world MIGRATION_STATE_AWAITING_APPROVAL)))) 1 = Some m \<and>
     mig_State m = MIGRATION_STATE_GENERATING \<and> \<not> GetNoServiceBoundaries (mig_Plan m)"
proof -
  let ?w = "demo_world MIGRATION_STATE_AWAITING_APPROVAL"
  let ?w' = "snd (run_state (serve_all mem_service [RApprove 1 True [], RGet 1]) ?w)"
  have pre: "\<forall>i m. doc_view (db_codecs mem_db) (mem_docs ?w) i = Some m \<and>
      mig_State m = MIGRATION_STATE_GENERATING \<longrightarrow> \<not> GetNoServiceBoundaries (mig_Plan m)"
    by (auto simp: doc_view_def demo_world_def demo_doc_def migrationDocToDomain_def
        split: option.splits sum.splits if_splits)
  have "case doc_view (db_codecs mem_db) (mem_docs ?w') 1 of None \<Rightarrow> False
      | Some m \<Rightarrow> mig_State m = MIGRATION_STATE_GENERATING" by code_simp
  then obtain m where m: "doc_view (db_codecs mem_db) (mem_docs ?w') 1 = Some m"
    "mig_State m = MIGRATION_STATE_GENERATING" by (auto split: option.splits)
  with generating_has_boundaries [OF mem_service_over demo_world_ok prod.collapse [symmetric] pre]
  show ?thesis by blast
qed

end
