(* ===== verification/Migration_Outcomes.thy ===== *)
theory Migration_Outcomes
  imports Migration_Lifecycle
begin

text \<open>
  What a request does, seen from its answer: a domain error means that no migration changed; a
  success of the requests that decide the course of a migration means that the store holds what
  was returned; and a start that fails is rolled back.
\<close>

section \<open>Domain errors change nothing\<close>

text \<open>A computation whose errors are never bare domain errors.\<close>

definition never_domain :: "('w, 'a) io \<Rightarrow> bool" where
  "never_domain op \<longleftrightarrow> (\<forall>w e w'. run_state op w = (Inl e, w') \<longrightarrow> \<not> domain_error e)"

lemma never_domain_intros [intro, simp]:
  "never_domain (io_ok x)" "never_domain (io_wrap l op)"
  by (auto simp: never_domain_def io_unfold split: prod.splits sum.splits)

lemma never_domain_wrap_error [intro, simp]: "never_domain (io_err (wrap_error p e q))"
  by (simp add: never_domain_def)

lemma never_domain_ignore [intro]: "never_domain n \<Longrightarrow> never_domain (io_ignore m n)"
  by (auto simp: never_domain_def io_unfold)

lemma never_domain_bind [intro]:
  "(\<And>x. never_domain (f x)) \<Longrightarrow> never_domain (State_Monad.bind m f)"
  by (auto simp: never_domain_def split: prod.splits)

lemma never_domain_io_bind [intro]:
  "never_domain m \<Longrightarrow> (\<And>x. never_domain (f x)) \<Longrightarrow> never_domain (io_bind m f)"
  by (auto simp: never_domain_def io_unfold split: prod.splits sum.splits)

context migration_service_env
begin

definition clean :: "(u64 \<Rightarrow> Migration option) \<Rightarrow> ('w, 'a) io \<Rightarrow> bool" where
  "clean V op \<longleftrightarrow> triple (here V) op (\<lambda>r w. case r of Inl e \<Rightarrow> domain_error e \<longrightarrow> view w = V | Inr _ \<Rightarrow> True)"

lemma clean_return [intro, simp]: "clean V (State_Monad.return x)"
  by (auto simp: clean_def here_def split: sum.split intro!: triple_return)

lemma clean_never: "never_domain op \<Longrightarrow> clean V op"
  by (auto simp: clean_def triple_def never_domain_def split: sum.split)

lemma clean_if: "(c \<Longrightarrow> clean V a) \<Longrightarrow> (\<not> c \<Longrightarrow> clean V b) \<Longrightarrow> clean V (if c then a else b)"
  by simp

lemma clean_option:
  "(x = None \<Longrightarrow> clean V a) \<Longrightarrow> (\<And>y. x = Some y \<Longrightarrow> clean V (b y)) \<Longrightarrow>
   clean V (case x of None \<Rightarrow> a | Some y \<Rightarrow> b y)"
  by (cases x) auto

lemma clean_keeps: "keeps (\<lambda>w. (ok w, view w)) c \<Longrightarrow> clean V c"
  unfolding clean_def
  by (rule triple_weaken [OF keeps_here]) (auto simp: here_def split: sum.split)

lemma clean_bind:
  "keeps (\<lambda>w. (ok w, view w)) c \<Longrightarrow> (\<And>x. clean V (f x)) \<Longrightarrow> clean V (State_Monad.bind c f)"
  unfolding clean_def by (rule triple_bind [OF keeps_here])

lemma clean_io_bind:
  assumes "keeps (\<lambda>w. (ok w, view w)) c" and "\<And>x. clean V (f x)"
  shows "clean V (io_bind c f)"
  unfolding io_bind_def
  by (rule clean_bind [OF assms(1)]) (auto intro: assms(2) split: sum.split)

lemma clean_get:
  assumes "\<And>m. clean V (f m)"
  shows "clean V (io_bind (repo_GetByID R i False) f)"
  unfolding clean_def
proof (rule triple_io_bind [where R = "\<lambda>_. here V"])
  show "triple (here V) (repo_GetByID R i False) (\<lambda>r w. case r of
      Inl e \<Rightarrow> (case Inl e of Inl e \<Rightarrow> domain_error e \<longrightarrow> view w = V | Inr (_ :: 'b) \<Rightarrow> True)
    | Inr m \<Rightarrow> here V w)"
    using GetByID_law [of V i] unfolding here_def
    by (elim triple_weaken) (auto split: sum.splits)
  show "triple (here V) (f m) (\<lambda>r w. case r of Inl e \<Rightarrow> domain_error e \<longrightarrow> view w = V | Inr _ \<Rightarrow> True)" for m
    using assms by (simp add: clean_def)
qed

lemma clean_write: "rec_write view ok i P op \<Longrightarrow> clean V op"
  unfolding clean_def rec_write_def here_def
  by (elim allE [of _ V] triple_weaken) (auto simp: Let_def split: sum.splits)

lemma clean_then_never:
  assumes "clean V op" and "\<And>x. never_domain (f x)"
  shows "clean V (io_bind op f)"
  unfolding clean_def
  using assms
  by (auto simp: triple_def io_unfold clean_def never_domain_def split: prod.splits sum.splits) blast

lemma clean_void: "clean V op \<Longrightarrow> clean V (void op)"
  unfolding void_def by (rule clean_then_never) auto

lemma clean_write_then: "rec_write view ok i P op \<Longrightarrow> (\<And>x. never_domain (f x)) \<Longrightarrow> clean V (io_bind op f)"
  by (rule clean_then_never [OF clean_write])

lemma clean_StartMigration: "clean V (StartMigration S i)"
proof -
  have "clean V (startNormal S m)" for m
    unfolding startNormal_def repo_S
    by (rule clean_io_bind [OF client_keeps(1)], rule clean_write_then [OF UpdateState_law],
        rule never_domain_bind) (auto split: sum.split)
  moreover have "clean V (startWithReuse S m)" for m
    unfolding startWithReuse_def repo_S Let_def
    by (rule clean_io_bind [OF client_keeps(5)], rule clean_if, rule clean_return,
        rule clean_io_bind [OF client_keeps(1)], rule clean_write_then [OF UpdateState_law],
        rule never_domain_bind) (auto split: sum.split)
  ultimately show ?thesis
    unfolding StartMigration_def repo_S by (intro clean_if clean_return clean_get) auto
qed

lemma clean_PublishMigration: "clean V (PublishMigration S i url tok msg)"
proof -
  have push: "clean V (io_bind (case svc_repoSvc S of None \<Rightarrow> nil_deref
      | Some c \<Rightarrow> PushFiles c url tok fs msg) f)" if "\<And>x. clean V (f x)" for fs f
    using client_facts that by (auto split: option.split intro!: clean_io_bind)
  have files: "clean V (case x of None \<Rightarrow> a | Some e \<Rightarrow> io_err e)" if "clean V a"
    for x and a :: "('w, Migration \<times> string) io"
    using that by (cases x) auto
  show ?thesis
    unfolding PublishMigration_def repo_S Let_def
    by (intro clean_if clean_return clean_get clean_io_bind [OF keeps_io_wrap [OF client_keeps(3)]]
        files push clean_write_then [OF UpdateState_law]) auto
qed

lemma clean_answer: "clean V (answer S r)"
proof (cases r)
  case (RCreate p)
  have "clean V (CreateMigration S p)"
    unfolding CreateMigration_def
    by (cases "svc_repoSvc S")
       (use client_facts in \<open>auto simp: io_bind_assoc intro!: clean_if clean_io_bind [OF client_keeps(6)]
          clean_io_bind clean_never [OF never_domain_intros(2)] split: option.split\<close>)
  with RCreate show ?thesis by (simp add: clean_void)
next
  case (RGet i)
  have "clean V (GetMigration S i)"
    unfolding GetMigration_def repo_S
    using client_facts by (auto intro!: clean_get clean_bind split: option.split sum.split)
  with RGet show ?thesis by (simp add: clean_void)
next
  case (RList f p)
  have "clean V (ListMigrations S f p)"
    unfolding ListMigrations_def repo_S clean_def here_def
    by (rule triple_weaken [OF List_law]) (auto split: sum.splits)
  with RList show ?thesis by (simp add: clean_void)
next
  case (RDelete i)
  have "clean V (DeleteMigration S i)"
    unfolding DeleteMigration_def repo_S
    by (intro clean_if clean_return clean_get clean_write [OF SoftDelete_law])
  with RDelete show ?thesis by (simp add: clean_void)
next
  case (RStart i)
  then show ?thesis by (simp add: clean_void clean_StartMigration)
next
  case (RApprove i a f)
  have "clean V (ApproveDesign S i a f)"
    unfolding ApproveDesign_def repo_S Let_def
    by (intro clean_if clean_return clean_get clean_write_then [OF UpdateState_law]) auto
  with RApprove show ?thesis by (simp add: clean_void)
next
  case (RAssess i l)
  have "clean V (AssessMigrability S i l)"
    unfolding AssessMigrability_def repo_S
    by (intro clean_if clean_return clean_get clean_option clean_never [OF never_domain_io_bind]) auto
  with RAssess show ?thesis by (simp add: clean_void)
next
  case (REnrich i)
  have "clean V (EnrichRoadmap S i)"
    unfolding EnrichRoadmap_def repo_S
    by (intro clean_if clean_return clean_get clean_option clean_never [OF never_domain_io_bind]) auto
  with REnrich show ?thesis by (simp add: clean_void)
next
  case (RBlueprint i)
  have "clean V (GenerateBlueprint S i)"
    unfolding GenerateBlueprint_def repo_S
    by (intro clean_if clean_return clean_get clean_option clean_never [OF never_domain_io_bind]) auto
  with RBlueprint show ?thesis by (simp add: clean_void)
next
  case (ROverride i b)
  have "clean V (SetMigrabilityOverride S i b)"
    unfolding SetMigrabilityOverride_def repo_S
    by (intro clean_if clean_return clean_get clean_never [OF never_domain_io_bind]) auto
  with ROverride show ?thesis by (simp add: clean_void)
next
  case (RCancel i)
  have "clean V (CancelMigration S i)"
    unfolding CancelMigration_def repo_S
    by (intro clean_if clean_return clean_get clean_write_then [OF UpdateState_law]) auto
  with RCancel show ?thesis by (simp add: clean_void)
next
  case (RPublish i u t c)
  then show ?thesis by (simp add: clean_void clean_PublishMigration)
next
  case (RRoadmap i)
  have "clean V (GenerateRestructuringRoadmap S i)"
    unfolding GenerateRestructuringRoadmap_def repo_S Let_def
    by (intro clean_if clean_return clean_get clean_never [OF never_domain_bind])
       (auto split: prod.split)
  with RRoadmap show ?thesis by (simp add: clean_void)
next
  case (RPackage i)
  have "clean V (GetGenerationPackage S i)"
    unfolding GetGenerationPackage_def repo_S Let_def
    by (auto intro!: clean_get clean_io_bind keeps_io_wrap client_keeps)
  with RPackage show ?thesis by (simp add: clean_void)
next
  case (RArtifacts i n)
  have "clean V (GetGenerationArtifacts S i n)"
    unfolding GetGenerationArtifacts_def repo_S Let_def
    by (intro clean_if clean_return clean_get clean_never [OF never_domain_io_bind]) auto
  with RArtifacts show ?thesis by (simp add: clean_void)
next
  case (RExport i)
  have "clean V (ExportActionPlanPrompt S i)"
    unfolding ExportActionPlanPrompt_def repo_S
    by (intro clean_if clean_return clean_get clean_option clean_never [OF never_domain_bind])
       (auto split: prod.split)
  with RExport show ?thesis by (simp add: clean_void)
next
  case (RDownload i)
  have "never_domain (State_Monad.return (buildZip Z fs))" for Z fs
    using buildZip_error by (auto simp: never_domain_def)
  then have "clean V (DownloadDeliverable S i)"
    unfolding DownloadDeliverable_def repo_S Let_def
    by (intro clean_if clean_return clean_get clean_never [OF never_domain_io_bind]) auto
  with RDownload show ?thesis by (simp add: clean_void)
qed

end

text \<open>
  C4. When a request is answered with a domain error (a bare code of the registry, which the
  handlers report to the caller as such), no stored migration changed.
\<close>

theorem domain_errors_change_nothing:
  assumes "service_over D docs S" and "docs_ok (db_codecs D) (docs w)"
    and "run_state (answer S r) w = (Inl e, w')" and "domain_error e"
  shows "doc_view (db_codecs D) (docs w') = doc_view (db_codecs D) (docs w)"
proof -
  note env = service_over_env [OF assms(1)]
  show ?thesis
    using tripleD [OF migration_service_env.clean_answer [OF env,
        unfolded migration_service_env.clean_def [OF env]] assms(3),
        of "doc_view (db_codecs D) (docs w)"] assms(2,4)
    by (simp add: migration_service_env.here_def [OF env])
qed

theorem domain_errors_change_nothing_witness:
  "doc_view (db_codecs mem_db) (mem_docs (snd (run_state
      (answer mem_service (RApprove 1 True [])) (demo_world MIGRATION_STATE_READY)))) =
   doc_view (db_codecs mem_db) (mem_docs (demo_world MIGRATION_STATE_READY))"
proof -
  let ?run = "run_state (answer mem_service (RApprove 1 True [])) (demo_world MIGRATION_STATE_READY)"
  have "fst ?run = Inl ErrInvalidStateTransition" by code_simp
  then have "?run = (Inl ErrInvalidStateTransition, snd ?run)" by (metis prod.collapse)
  moreover have "domain_error ErrInvalidStateTransition" by code_simp
  ultimately show ?thesis
    by (rule domain_errors_change_nothing [OF mem_service_over demo_world_ok])
qed

section \<open>Decisions\<close>

context migration_service_env
begin

lemma get_triple:
  "triple (here V) (repo_GetByID R i False) (\<lambda>r w. here V w \<and>
     (case r of Inl e \<Rightarrow> True | Inr m \<Rightarrow> V i = Some m \<and> mig_Identifier m = i \<and> mig_DeleteTime m = None))"
  using GetByID_law [of V i] unfolding here_def by (elim triple_weaken) (auto split: sum.splits)

lemma write_triple:
  "rec_write view ok i P op \<Longrightarrow> triple (here V) op (\<lambda>r w. ok w \<and>
     (case r of Inl e \<Rightarrow> True
      | Inr _ \<Rightarrow> \<exists>m m'. V i = Some m \<and> mig_DeleteTime m = None \<and> P m m' \<and> view w = V(i \<mapsto> m')))"
  unfolding rec_write_def here_def
  by (elim allE [of _ V] triple_weaken) (auto simp: Let_def split: sum.splits)

lemma keeps_run:
  "keeps (\<lambda>w. (ok w, view w)) c \<Longrightarrow> run_state c w = (r, w') \<Longrightarrow> ok w' = ok w \<and> view w' = view w"
  by (drule (1) keepsD) simp

lemma ApproveDesign_result:
  assumes run: "run_state (ApproveDesign S i approved flt) w = (Inr m', w')" and w: "here V w"
  shows "\<exists>m t. V i = Some m \<and> mig_State m = MIGRATION_STATE_AWAITING_APPROVAL \<and>
     (approved \<longrightarrow> \<not> GetNoServiceBoundaries (mig_Plan m) \<and> \<not> migrabilityBlocked m) \<and>
     m' = m\<lparr>mig_State := (if approved then MIGRATION_STATE_GENERATING else MIGRATION_STATE_CANCELLED)\<rparr> \<and>
     view w' = V(i \<mapsto> m'\<lparr>mig_UpdateTime := t\<rparr>)"
proof -
  let ?s = "if approved then MIGRATION_STATE_GENERATING else MIGRATION_STATE_CANCELLED"
  obtain x w1 where x: "run_state (repo_GetByID R i False) w = (x, w1)" by (meson surj_pair)
  obtain y w2 where y: "run_state (repo_UpdateState R i ?s) w1 = (y, w2)" by (meson surj_pair)
  obtain m where m: "x = Inr m" using run x
    by (cases x) (auto simp: ApproveDesign_def repo_S io_unfold split: if_splits)
  have dec: "mig_State m = MIGRATION_STATE_AWAITING_APPROVAL"
    "approved \<longrightarrow> \<not> GetNoServiceBoundaries (mig_Plan m) \<and> \<not> migrabilityBlocked m"
    using run x m by (auto simp: ApproveDesign_def repo_S io_unfold split: if_splits)
  obtain u where u: "y = Inr u" using run x y m dec
    by (cases y) (auto simp: ApproveDesign_def repo_S io_unfold split: if_splits)
  have res: "m' = m\<lparr>mig_State := ?s\<rparr>"
    "w' = snd (run_state (if approved then when_set (svc_generationEnqueuer S) (\<lambda>e. e i flt)
                          else io_ok ()) w2)"
    using run x y m dec u by (auto simp: ApproveDesign_def repo_S io_unfold Let_def split: if_splits)
  have get: "here V w1" "V i = Some m" using tripleD [OF get_triple x w] m by auto
  have "\<exists>m1. upd (put_state ?s) m m1 \<and> view w2 = V(i \<mapsto> m1)"
    using tripleD [OF write_triple [OF UpdateState_law] y get(1)] get(2) unfolding u by simp
  then obtain t where "view w2 = V(i \<mapsto> (put_state ?s m)\<lparr>mig_UpdateTime := t\<rparr>)"
    unfolding upd_def by blast
  then have t: "view w2 = V(i \<mapsto> m'\<lparr>mig_UpdateTime := t\<rparr>)" unfolding res(1) put_state_def .
  have "view w' = view w2"
  proof (cases approved)
    case True
    with res(2) keeps_run [OF client_keeps(7) prod.collapse [symmetric], of i flt w2]
    show ?thesis by simp
  qed (use res(2) in simp)
  with t have "view w' = V(i \<mapsto> m'\<lparr>mig_UpdateTime := t\<rparr>)" by simp
  then show ?thesis
    using get(2) dec res(1) by (intro exI [of _ m] exI [of _ t] conjI)
qed

end

text \<open>
  C5. A successful answer to the decision on a design: the migration was awaiting approval; it
  now generates if the design was approved, and then its plan has service boundaries and its
  verdict does not block it; otherwise it is cancelled. What is returned is what is stored, up to
  the update time, and no other migration changed.
\<close>

theorem approve_design_outcome:
  assumes "service_over D docs S" and "docs_ok (db_codecs D) (docs w)"
    and "run_state (ApproveDesign S i approved flt) w = (Inr m', w')"
  shows "\<exists>m t. doc_view (db_codecs D) (docs w) i = Some m \<and>
     mig_State m = MIGRATION_STATE_AWAITING_APPROVAL \<and>
     (approved \<longrightarrow> \<not> GetNoServiceBoundaries (mig_Plan m) \<and> \<not> migrabilityBlocked m) \<and>
     m' = m\<lparr>mig_State := (if approved then MIGRATION_STATE_GENERATING else MIGRATION_STATE_CANCELLED)\<rparr> \<and>
     doc_view (db_codecs D) (docs w') =
       (doc_view (db_codecs D) (docs w))(i \<mapsto> m'\<lparr>mig_UpdateTime := t\<rparr>)"
proof -
  note env = service_over_env [OF assms(1)]
  show ?thesis
    by (rule migration_service_env.ApproveDesign_result [OF env assms(3)])
       (simp add: migration_service_env.here_def [OF env] assms(2))
qed

theorem approve_design_outcome_witness:
  "let r = run_state (ApproveDesign mem_service 1 True []) (demo_world MIGRATION_STATE_AWAITING_APPROVAL)
   in \<exists>m' t. fst r = Inr m' \<and> mig_State m' = MIGRATION_STATE_GENERATING \<and>
        doc_view (db_codecs mem_db) (mem_docs (snd r)) 1 = Some (m'\<lparr>mig_UpdateTime := t\<rparr>)"
proof -
  let ?r = "run_state (ApproveDesign mem_service 1 True []) (demo_world MIGRATION_STATE_AWAITING_APPROVAL)"
  have "isl (fst ?r) = False" by code_simp
  then obtain m' where m': "fst ?r = Inr m'" by (cases "fst ?r") auto
  then have "?r = (Inr m', snd ?r)" by (metis prod.collapse)
  from approve_design_outcome [OF mem_service_over demo_world_ok this] m' show ?thesis
    by (auto simp: Let_def)
qed

section \<open>A failed start is rolled back\<close>

text \<open>A store that answers: a write that finds its record does not fail.\<close>

locale answering_service_env = migration_service_env R view ok S
  for R :: "'w MigrationRepository" and view and ok and S +
  assumes UpdateState_answers:
      "V i = Some m \<Longrightarrow> mig_DeleteTime m = None \<Longrightarrow>
       triple (\<lambda>w. ok w \<and> view w = V) (repo_UpdateState R i s) (\<lambda>r w. \<exists>u. r = Inr u)"
    and AdoptAnalysis_answers:
      "V i = Some m \<Longrightarrow> mig_DeleteTime m = None \<Longrightarrow> mig_State m = MIGRATION_STATE_ANALYZING \<Longrightarrow>
       triple (\<lambda>w. ok w \<and> view w = V) (repo_AdoptAnalysis R i src br) (\<lambda>r w. \<exists>u. r = Inr u)"
begin

text \<open>From a view with the record \<open>m\<close> as it was read, the computation fails only with the record
  as it was, up to its update time.\<close>

definition undoes :: "(u64 \<Rightarrow> Migration option) \<Rightarrow> u64 \<Rightarrow> Migration \<Rightarrow> ('w \<Rightarrow> bool) \<Rightarrow> ('w, 'a) io \<Rightarrow> bool" where
  "undoes V i m P op \<longleftrightarrow> triple P op (\<lambda>r w. case r of Inr _ \<Rightarrow> True
     | Inl e \<Rightarrow> view w = V \<or> (\<exists>t. view w = V(i \<mapsto> m\<lparr>mig_UpdateTime := t\<rparr>)))"

lemma undoes_return: "undoes V i m (here V) (State_Monad.return x)"
  by (auto simp: undoes_def here_def split: sum.split intro!: triple_return)

lemma undoes_ok: "undoes V i m P (io_ok x)"
  by (auto simp: undoes_def intro!: triple_return)

lemma undoes_keeps:
  assumes "keeps (\<lambda>w. (ok w, view w)) c" and "\<And>x. undoes V i m (here V) (f x)"
  shows "undoes V i m (here V) (io_bind c f)"
  unfolding undoes_def
  by (rule triple_io_bind [where R = "\<lambda>_. here V"], rule triple_weaken [OF keeps_here [OF assms(1)]])
     (use assms(2) in \<open>auto simp: here_def undoes_def split: sum.split\<close>)

lemma undoes_bind:
  "keeps (\<lambda>w. (ok w, view w)) c \<Longrightarrow> (\<And>x. undoes V i m (here W) (f x)) \<Longrightarrow>
   undoes V i m (here W) (State_Monad.bind c f)"
  unfolding undoes_def by (rule triple_bind [OF keeps_here])

lemma set_state_triple:
  assumes "V i = Some m" and "mig_DeleteTime m = None"
  shows "triple (here V) (repo_UpdateState R i s)
     (\<lambda>r w. \<exists>u t. r = Inr u \<and> here (V(i \<mapsto> m\<lparr>mig_State := s, mig_UpdateTime := t\<rparr>)) w)"
proof (rule tripleI)
  fix w r w' assume w: "here V w" and run: "run_state (repo_UpdateState R i s) w = (r, w')"
  obtain u where u: "r = Inr u"
    using tripleD [OF UpdateState_answers [where V = V and i = i, OF assms] run] w by (auto simp: here_def)
  have "ok w' \<and> (\<exists>m1. upd (put_state s) m m1 \<and> view w' = V(i \<mapsto> m1))"
    using tripleD [OF write_triple [OF UpdateState_law] run w] assms(1) unfolding u by simp
  then show "\<exists>u t. r = Inr u \<and> here (V(i \<mapsto> m\<lparr>mig_State := s, mig_UpdateTime := t\<rparr>)) w'"
    unfolding u upd_def put_state_def here_def by blast
qed

lemma undoes_rollback:
  assumes "m1 = m\<lparr>mig_State := MIGRATION_STATE_ANALYZING, mig_UpdateTime := t\<rparr>"
    and "mig_State m = MIGRATION_STATE_PENDING" and "mig_DeleteTime m = None"
  shows "undoes V i m (here (V(i \<mapsto> m1)))
    (io_ignore (repo_UpdateState R i MIGRATION_STATE_PENDING) (io_err e))"
  unfolding undoes_def
proof (rule triple_io_ignore)
  show "triple (here (V(i \<mapsto> m1))) (repo_UpdateState R i MIGRATION_STATE_PENDING)
     (\<lambda>_ w. \<exists>t. view w = V(i \<mapsto> m\<lparr>mig_UpdateTime := t\<rparr>))"
  proof (rule triple_weaken [OF set_state_triple [of "V(i \<mapsto> m1)" i m1]])
    have "m\<lparr>mig_State := MIGRATION_STATE_PENDING\<rparr> = m" using assms(2) by (cases m) simp
    then have "m1\<lparr>mig_State := MIGRATION_STATE_PENDING, mig_UpdateTime := t'\<rparr> = m\<lparr>mig_UpdateTime := t'\<rparr>" for t'
      using assms(1) by simp
    then show "\<exists>u t. r = Inr u \<and> here (V(i \<mapsto> m1, i \<mapsto> m1\<lparr>mig_State := MIGRATION_STATE_PENDING,
        mig_UpdateTime := t\<rparr>)) w \<Longrightarrow> \<exists>t. view w = V(i \<mapsto> m\<lparr>mig_UpdateTime := t\<rparr>)" for r :: "go_error + unit" and w
      by (auto simp: here_def)
  qed (use assms in simp_all)
qed (auto intro!: triple_return)

lemma undoes_start:
  assumes m: "V i = Some m" "mig_State m = MIGRATION_STATE_PENDING" "mig_DeleteTime m = None"
    and cont: "\<And>m1 t. m1 = m\<lparr>mig_State := MIGRATION_STATE_ANALYZING, mig_UpdateTime := t\<rparr> \<Longrightarrow>
      undoes V i m (here (V(i \<mapsto> m1))) (f ())"
  shows "undoes V i m (here V) (io_bind (repo_UpdateState R i MIGRATION_STATE_ANALYZING) f)"
  unfolding undoes_def
proof (rule triple_io_bind [where R = "\<lambda>_ w. \<exists>m1 t. m1 = m\<lparr>mig_State := MIGRATION_STATE_ANALYZING,
      mig_UpdateTime := t\<rparr> \<and> here (V(i \<mapsto> m1)) w"])
  show "triple (here V) (repo_UpdateState R i MIGRATION_STATE_ANALYZING) (\<lambda>r w. case r of
      Inl e \<Rightarrow> (case Inl e of Inl e \<Rightarrow> view w = V \<or> (\<exists>t. view w = V(i \<mapsto> m\<lparr>mig_UpdateTime := t\<rparr>))
                | Inr (_ :: 'b) \<Rightarrow> True)
    | Inr _ \<Rightarrow> \<exists>m1 t. m1 = m\<lparr>mig_State := MIGRATION_STATE_ANALYZING, mig_UpdateTime := t\<rparr> \<and>
        here (V(i \<mapsto> m1)) w)"
    by (rule triple_weaken [OF set_state_triple [where V = V and i = i, OF m(1,3)]]) auto
qed (use cont in \<open>auto simp: undoes_def triple_def\<close>)

lemma undoes_startNormal:
  assumes "V i = Some m" "mig_State m = MIGRATION_STATE_PENDING" "mig_DeleteTime m = None"
    and "mig_Identifier m = i"
  shows "undoes V i m (here V) (startNormal S m)"
  unfolding startNormal_def repo_S assms(4)
proof (rule undoes_keeps [OF client_keeps(1)], rule undoes_start [where V = V and i = i, OF assms(1-3)])
  fix m1 t assume m1: "m1 = m\<lparr>mig_State := MIGRATION_STATE_ANALYZING, mig_UpdateTime := t\<rparr>"
  let ?V = "V(i \<mapsto> m1)"
  show "undoes V i m (here ?V) (State_Monad.bind
      (when_set (svc_analysis S) (\<lambda>c. RunAnalysis c (mig_RepositoryId m) i
        (mig_OwnerUserId m) (mig_SourceBranch m)))
      (\<lambda>r. case r of Inl dispatchErr \<Rightarrow>
          io_ignore (repo_UpdateState R i MIGRATION_STATE_PENDING)
            (io_err (wrap_error ''migration: analysis dispatch failed: '' dispatchErr []))
        | Inr _ \<Rightarrow> io_ok (m\<lparr>mig_State := MIGRATION_STATE_ANALYZING\<rparr>)))"
  proof (rule undoes_bind [OF client_keeps(9)])
    fix r :: "go_error + unit"
    show "undoes V i m (here ?V) (case r of Inl dispatchErr \<Rightarrow>
          io_ignore (repo_UpdateState R i MIGRATION_STATE_PENDING)
            (io_err (wrap_error ''migration: analysis dispatch failed: '' dispatchErr []))
        | Inr _ \<Rightarrow> io_ok (m\<lparr>mig_State := MIGRATION_STATE_ANALYZING\<rparr>))"
      by (cases r) (simp_all add: undoes_ok undoes_rollback [OF m1 assms(2,3)])
  qed
qed

lemma undoes_startWithReuse:
  assumes "V i = Some m" "mig_State m = MIGRATION_STATE_PENDING" "mig_DeleteTime m = None"
    and "mig_Identifier m = i"
  shows "undoes V i m (here V) (startWithReuse S m)"
proof -
  have adopt: "undoes V i m (here (V(i \<mapsto> m1))) (State_Monad.bind (repo_AdoptAnalysis R i src br) (\<lambda>r. case r of
      Inl err \<Rightarrow> io_ignore (repo_UpdateState R i MIGRATION_STATE_PENDING) (io_err (e err))
    | Inr _ \<Rightarrow> io_ignore c (io_ok x)))"
    if m1: "m1 = m\<lparr>mig_State := MIGRATION_STATE_ANALYZING, mig_UpdateTime := t\<rparr>"
    for m1 t src br e x and c :: "('w, unit) io"
    unfolding undoes_def
  proof (rule triple_bind)
    show "triple (here (V(i \<mapsto> m1))) (repo_AdoptAnalysis R i src br) (\<lambda>r w. \<exists>u. r = Inr u)"
      using AdoptAnalysis_answers [of "V(i \<mapsto> m1)" i m1 src br] m1 assms(3) by (simp add: here_def [abs_def])
  qed (auto simp: triple_def io_unfold)
  show ?thesis
    unfolding startWithReuse_def repo_S Let_def assms(4)
    apply (rule undoes_keeps [OF client_keeps(5)])
    subgoal for summary
      apply (cases "case summary of None \<Rightarrow> False | Some s \<Rightarrow>
          as_RepositoryId s \<noteq> mig_RepositoryId m \<or> as_State s \<noteq> ANALYSIS_STATE_COMPLETED")
       apply (simp only: if_True, rule undoes_return)
      apply (simp only: if_False)
      apply (rule undoes_keeps [OF client_keeps(1)], rule undoes_start [where V = V and i = i, OF assms(1-3)], rule adopt, assumption)
      done
    done
qed

lemma StartMigration_undone:
  assumes run: "run_state (StartMigration S i) w = (Inl e, w')" and w: "here V w"
  shows "view w' = V \<or> (\<exists>m t. V i = Some m \<and> view w' = V(i \<mapsto> m\<lparr>mig_UpdateTime := t\<rparr>))"
proof (cases "i = 0")
  case True
  with run w show ?thesis by (simp add: StartMigration_def here_def)
next
  case False
  obtain x w1 where x: "run_state (repo_GetByID R i False) w = (x, w1)" by (meson surj_pair)
  note get = tripleD [OF get_triple x w]
  show ?thesis
  proof (cases x)
    case (Inl e')
    with get run x False show ?thesis by (simp add: StartMigration_def repo_S io_unfold here_def)
  next
    case (Inr m)
    with get have m: "V i = Some m" "mig_Identifier m = i" "mig_DeleteTime m = None" "here V w1" by auto
    show ?thesis
    proof (cases "mig_State m = MIGRATION_STATE_PENDING")
      case True
      with run x Inr False have "run_state (if mig_SourceAnalysisSummaryId m \<noteq> 0 then startWithReuse S m
          else startNormal S m) w1 = (Inl e, w')"
        by (simp add: StartMigration_def repo_S io_unfold)
      moreover have "undoes V i m (here V) (if mig_SourceAnalysisSummaryId m \<noteq> 0 then startWithReuse S m
          else startNormal S m)"
        using m True by (auto intro: undoes_startWithReuse undoes_startNormal)
      ultimately show ?thesis using m unfolding undoes_def by (auto dest: tripleD)
    next
      case False
      with \<open>i \<noteq> 0\<close> run x Inr m show ?thesis
        by (simp add: StartMigration_def repo_S io_unfold here_def)
    qed
  qed
qed

end

definition driver_answers :: "('w, 'b) MongoDB \<Rightarrow> bool" where
  "driver_answers D \<longleftrightarrow> (\<forall>q f w. \<exists>n w'. run_state (UpdateOne (db_coll D) q f) w = (Inr n, w'))"

lemma update_one_answers:
  assumes D: "mongo_ok D docs" and ans: "driver_answers D" and d: "\<exists>d\<in>set ds. q d"
  shows "triple (\<lambda>w. docs w = ds) (update_one D l q f) (\<lambda>r w. \<exists>u. r = Inr u)"
proof (rule tripleI)
  fix w r w' assume w: "docs w = ds" and run: "run_state (update_one D l q f) w = (r, w')"
  obtain n w1 where n: "run_state (UpdateOne (db_coll D) q f) w = (Inr n, w1)"
    using ans unfolding driver_answers_def by blast
  have "triple (\<lambda>w. docs w = ds) (UpdateOne (db_coll D) q f)
     (\<lambda>r w. let updated = (\<exists>xs d ys. ds = xs @ d # ys \<and> q d \<and> docs w = xs @ f d # ys)
            in case r of
                 Inr n \<Rightarrow> if n = 0 then (\<forall>d\<in>set ds. \<not> q d) \<and> docs w = ds else updated
               | Inl _ \<Rightarrow> docs w = ds \<or> updated)"
    using D by (simp add: mongo_ok_def collection_ok_def)
  from tripleD [OF this n w] d have "n \<noteq> 0" by (auto simp: Let_def split: if_splits)
  with run n show "\<exists>u. r = Inr u" by (auto simp: update_one_def io_unfold)
qed

lemma live_doc:
  assumes "docs_ok C ds" and "doc_view C ds i = Some m" and "mig_DeleteTime m = None"
  shows "\<exists>d\<in>set ds. live_at i d \<and> doc_State d = mig_State m"
  using assms by (auto simp: doc_view_Some dest!: decode_fields)

lemma service_over_answers:
  assumes so: "service_over D docs S" and ans: "driver_answers D"
  shows "answering_service_env (MongoMigrationRepository D)
    (\<lambda>w. doc_view (db_codecs D) (docs w)) (\<lambda>w. docs_ok (db_codecs D) (docs w)) S"
proof -
  let ?C = "db_codecs D"
  have D: "mongo_ok D docs" using so by (simp add: service_over_def)
  have now: "triple (\<lambda>w. docs_ok ?C (docs w) \<and> doc_view ?C (docs w) = V) (db_now D)
      (\<lambda>_ w. docs_ok ?C (docs w) \<and> doc_view ?C (docs w) = V)" for V
    using triple_keeps [OF mongo_okD(1) [OF D], where P = "\<lambda>ds. docs_ok ?C ds \<and> doc_view ?C ds = V"] .
  have upd: "triple (\<lambda>w. docs_ok ?C (docs w) \<and> doc_view ?C (docs w) = V) (update_one D l q f)
      (\<lambda>r w. \<exists>u. r = Inr u)"
    if "\<And>ds. docs_ok ?C ds \<Longrightarrow> doc_view ?C ds = V \<Longrightarrow> \<exists>d\<in>set ds. q d" for V l q f
    using update_one_answers [OF D ans] that unfolding triple_def by blast
  note env = service_over_env [OF so, unfolded migration_service_env_def]
  show ?thesis
  proof (intro answering_service_env.intro service_over_env [OF so] answering_service_env_axioms.intro)
    fix V :: "u64 \<Rightarrow> Migration option" and i m s
    assume V: "V i = Some m" "mig_DeleteTime m = None"
    show "triple (\<lambda>w. docs_ok ?C (docs w) \<and> doc_view ?C (docs w) = V)
       (repo_UpdateState (MongoMigrationRepository D) i s) (\<lambda>r w. \<exists>u. r = Inr u)"
      unfolding MongoMigrationRepository_def MigrationRepository.simps mongo_UpdateState_def
      by (rule triple_bind [OF now], rule upd) (use V live_doc in blast)
    fix src br
    assume st: "mig_State m = MIGRATION_STATE_ANALYZING"
    have "\<exists>d\<in>set ds. live_at i d \<and> doc_State d = MIGRATION_STATE_ANALYZING"
      if "docs_ok ?C ds" "doc_view ?C ds = V" for ds
      using live_doc [of ?C ds i m] that V st by simp
    then show "triple (\<lambda>w. docs_ok ?C (docs w) \<and> doc_view ?C (docs w) = V)
       (repo_AdoptAnalysis (MongoMigrationRepository D) i src br) (\<lambda>r w. \<exists>u. r = Inr u)"
      unfolding MongoMigrationRepository_def MigrationRepository.simps mongo_AdoptAnalysis_def
      by (intro triple_bind [OF now] upd) simp
  qed
qed

text \<open>
  C6. When the start of a migration fails, for whatever reason (the connection probe, the source
  analysis, the dispatch of the job, the adoption), and the store itself does not fail, the
  migration is as it was, up to its update time, and no other migration changed: it is still
  pending and can be started again.
\<close>

theorem failed_start_rolled_back:
  assumes "service_over D docs S" and "driver_answers D" and "docs_ok (db_codecs D) (docs w)"
    and "run_state (StartMigration S i) w = (Inl e, w')"
  shows "doc_view (db_codecs D) (docs w') = doc_view (db_codecs D) (docs w) \<or>
    (\<exists>m t. doc_view (db_codecs D) (docs w) i = Some m \<and>
       doc_view (db_codecs D) (docs w') =
         (doc_view (db_codecs D) (docs w))(i \<mapsto> m\<lparr>mig_UpdateTime := t\<rparr>))"
proof -
  note env = service_over_answers [OF assms(1,2)]
  show ?thesis
    by (rule answering_service_env.StartMigration_undone [OF env assms(4)])
       (simp add: migration_service_env.here_def [OF service_over_env [OF assms(1)]] assms(3))
qed

text \<open>The in-memory service with an analysis service that refuses every job.\<close>

definition refusing_service :: "mem Service" where
  "refusing_service = mem_service\<lparr>svc_analysis :=
     Some \<lparr> RunAnalysis = (\<lambda>r m u b. io_err (ErrStr ''queue full'')),
            GetAnalysisSummary = (\<lambda>i. io_err (ErrStr ''unavailable'')) \<rparr>\<rparr>"

lemma refusing_service_over: "service_over mem_db mem_docs refusing_service"
  using mem_service_over
  by (auto simp: service_over_def refusing_service_def clients_keep_def mem_service_def)

lemma mem_driver_answers: "driver_answers mem_db"
  by (auto simp: driver_answers_def mem_defs split: prod.splits)

interpretation mem_answering: answering_service_env
  "MongoMigrationRepository mem_db" "\<lambda>w. doc_view (db_codecs mem_db) (mem_docs w)"
  "\<lambda>w. docs_ok (db_codecs mem_db) (mem_docs w)" refusing_service
  by (rule service_over_answers [OF refusing_service_over mem_driver_answers])

theorem failed_start_rolled_back_witness:
  "let w = demo_world MIGRATION_STATE_PENDING; r = run_state (StartMigration refusing_service 1) w
   in isl (fst r) \<and> map doc_State (mem_docs (snd r)) = [MIGRATION_STATE_PENDING] \<and>
      (doc_view (db_codecs mem_db) (mem_docs (snd r)) = doc_view (db_codecs mem_db) (mem_docs w) \<or>
       (\<exists>m t. doc_view (db_codecs mem_db) (mem_docs w) 1 = Some m \<and>
          doc_view (db_codecs mem_db) (mem_docs (snd r)) =
            (doc_view (db_codecs mem_db) (mem_docs w))(1 \<mapsto> m\<lparr>mig_UpdateTime := t\<rparr>)))"
proof -
  let ?w = "demo_world MIGRATION_STATE_PENDING"
  let ?r = "run_state (StartMigration refusing_service 1) ?w"
  have e: "isl (fst ?r)" by code_simp
  have st: "map doc_State (mem_docs (snd ?r)) = [MIGRATION_STATE_PENDING]" by code_simp
  from e obtain e where "fst ?r = Inl e" by (auto simp: isl_def)
  then have "?r = (Inl e, snd ?r)" by (metis prod.collapse)
  from failed_start_rolled_back [OF refusing_service_over mem_driver_answers demo_world_ok this] e st
  show ?thesis by (simp add: Let_def)
qed

end
