(* ===== verification/Status_Errors.thy ===== *)
theory Status_Errors
  imports Prelude
begin

text \<open>
  The gRPC status errors the handlers of every service return
  (\<^verbatim>\<open>core/shared/error/error.go\<close>, \<^verbatim>\<open>authentication_errors.go\<close>).
\<close>

section \<open>Status errors\<close>

definition codes_InvalidArgument :: nat where "codes_InvalidArgument = 3"
definition codes_NotFound :: nat where "codes_NotFound = 5"
definition codes_AlreadyExists :: nat where "codes_AlreadyExists = 6"
definition codes_PermissionDenied :: nat where "codes_PermissionDenied = 7"
definition codes_FailedPrecondition :: nat where "codes_FailedPrecondition = 9"
definition codes_Internal :: nat where "codes_Internal = 13"
definition codes_Unauthenticated :: nat where "codes_Unauthenticated = 16"

definition coreerror_newError :: "nat \<Rightarrow> string \<Rightarrow> string \<Rightarrow> go_error" where
  "coreerror_newError code msg codeError = Status code (codeError @ '': '' @ msg)"

definition NewInvalidArgumentError :: "string \<Rightarrow> string \<Rightarrow> go_error" where
  "NewInvalidArgumentError codeError msg = coreerror_newError codes_InvalidArgument msg codeError"
definition NewNotFoundError :: "string \<Rightarrow> string \<Rightarrow> go_error" where
  "NewNotFoundError codeError msg = coreerror_newError codes_NotFound msg codeError"
definition NewAlreadyExistsError :: "string \<Rightarrow> string \<Rightarrow> go_error" where
  "NewAlreadyExistsError codeError msg = coreerror_newError codes_AlreadyExists msg codeError"
definition NewPermissionDeniedError :: "string \<Rightarrow> string \<Rightarrow> go_error" where
  "NewPermissionDeniedError codeError msg = coreerror_newError codes_PermissionDenied msg codeError"
definition NewUnauthenticatedError :: "string \<Rightarrow> string \<Rightarrow> go_error" where
  "NewUnauthenticatedError codeError msg = coreerror_newError codes_Unauthenticated msg codeError"
definition NewInternalError :: "string \<Rightarrow> string \<Rightarrow> go_error" where
  "NewInternalError codeError msg = coreerror_newError codes_Internal msg codeError"
definition NewFailedPreconditionError :: "string \<Rightarrow> string \<Rightarrow> go_error" where
  "NewFailedPreconditionError codeError msg = coreerror_newError codes_FailedPrecondition msg codeError"

definition TokenValidationErrorInvalid :: go_error where
  "TokenValidationErrorInvalid = NewUnauthenticatedError ''AUTH202'' ''Failure_Token_Invalid''"

lemmas status_defs = coreerror_newError_def NewInvalidArgumentError_def NewNotFoundError_def
  NewPermissionDeniedError_def NewUnauthenticatedError_def NewInternalError_def
  NewFailedPreconditionError_def NewAlreadyExistsError_def TokenValidationErrorInvalid_def codes_InvalidArgument_def
  codes_NotFound_def codes_AlreadyExists_def codes_PermissionDenied_def codes_FailedPrecondition_def codes_Internal_def
  codes_Unauthenticated_def

end
