(* ===== verification/Migration_Handler.thy ===== *)
theory Migration_Handler
  imports Migration_Outcomes Status_Errors
begin

text \<open>
  The gRPC handlers of the migration service
  (\<^verbatim>\<open>infrastructure/grpc_handlers/migration_handler.go\<close>). The extraction of the caller from the access token is a parameter: it
  returns the caller's identifier and whether it is a system user. The guard that every handler
  of an existing migration repeats (authentication, identifier, ownership) is one definition.
  All handlers of the file are here, the download of the deliverable included (the assembler and
  the ZIP writer are arguments of the service, see \<^verbatim>\<open>Migration_Ports\<close>).
\<close>

section \<open>The mapping of errors\<close>

text \<open>A panic is not an error value: it passes the mapping as it is.\<close>

definition mapError :: "go_error \<Rightarrow> go_error" where
  "mapError err =
     (case err of Panic s \<Rightarrow> Panic s
      | _ \<Rightarrow>
        (case errors_As err of
           None \<Rightarrow> NewInternalError ''MIG500'' ''Failure_Internal''
         | Some (code, msg) \<Rightarrow>
             if code \<in> {''MIG201'', ''MIG217''} then NewNotFoundError code msg
             else if code \<in> {''MIG203'', ''MIG204''} then NewNotFoundError code msg
             else if code = ''MIG205'' then NewPermissionDeniedError code msg
             else if code \<in> {''MIG214'', ''MIG215''} then NewFailedPreconditionError code msg
             else if code \<in> {''MIG202'', ''MIG206'', ''MIG210'', ''MIG207'', ''MIG208'', ''MIG209'', ''MIG211'',
                             ''MIG212'', ''MIG213'', ''MIG216'', ''MIG218'', ''MIG219'', ''MIG220'', ''MIG221''}
             then NewFailedPreconditionError code msg
             else if code \<in> {''MIG101'', ''MIG102'', ''MIG103'', ''MIG104'', ''MIG105''}
             then NewInvalidArgumentError code msg
             else if code = ''MIG500'' then NewInternalError code msg
             else NewInternalError ''MIG500'' ''Failure_Internal''))"

section \<open>The handlers\<close>

record 'w MigrationHandler =
  h_svc :: "'w Service"
  h_authExtract :: "('w, u64 \<times> bool) io"

definition map_errors :: "('w, 'a) io \<Rightarrow> ('w, 'a) io" where
  "map_errors op = State_Monad.bind op (\<lambda>r. case r of Inl e \<Rightarrow> io_err (mapError e) | Inr x \<Rightarrow> io_ok x)"

definition authenticate :: "'w MigrationHandler \<Rightarrow> ('w, u64 \<times> bool) io" where
  "authenticate H = State_Monad.bind (h_authExtract H) (\<lambda>r. case r of
     Inl _ \<Rightarrow> io_err TokenValidationErrorInvalid | Inr x \<Rightarrow> io_ok x)"

definition guarded :: "'w MigrationHandler \<Rightarrow> u64 \<Rightarrow> (Migration \<Rightarrow> ('w, 'a) io) \<Rightarrow> ('w, 'a) io" where
  "guarded H i f =
     io_bind (authenticate H) (\<lambda>(callerID, isSystem).
     if i = 0 then io_err (NewInvalidArgumentError ''MIG101'' ''Failure_Missing_Identifier'')
     else io_bind (map_errors (GetMigration (h_svc H) i)) (\<lambda>m.
       if mig_OwnerUserId m \<noteq> callerID \<and> \<not> isSystem
       then io_err (NewPermissionDeniedError ''MIG205'' ''Failure_Access_Forbidden'')
       else f m))"

definition suppressOrphanRoadmap :: "Migration \<Rightarrow> Migration" where
  "suppressOrphanRoadmap m =
     (if mig_RestructuringRoadmap m = None then m
      else if (case mig_MigrabilityAssessment m of None \<Rightarrow> [] | Some a \<Rightarrow> ma_Verdict a) =
              MigrabilityVerdictIncompleteNoStructuralData
      then m\<lparr>mig_RestructuringRoadmap := None\<rparr> else m)"

definition h_CreateMigration :: "'w MigrationHandler \<Rightarrow> Migration option \<Rightarrow> ('w, Migration) io" where
  "h_CreateMigration H req =
     io_bind (authenticate H) (\<lambda>(callerID, isSystem).
     case req of
       None \<Rightarrow> io_err (NewInvalidArgumentError ''MIG102'' ''Failure_Missing_Payload'')
     | Some m \<Rightarrow>
         map_errors (CreateMigration (h_svc H)
           (Some (if isSystem then m else m\<lparr>mig_OwnerUserId := callerID\<rparr>))))"

definition h_GetMigration :: "'w MigrationHandler \<Rightarrow> u64 \<Rightarrow> ('w, Migration) io" where
  "h_GetMigration H i = guarded H i (\<lambda>m. io_ok (suppressOrphanRoadmap m))"

definition h_ListMigrations ::
  "'w MigrationHandler \<Rightarrow> MigrationsFilter option \<Rightarrow> PageQueryParams option \<Rightarrow>
   ('w, Migration list \<times> Pagination option) io" where
  "h_ListMigrations H flt params =
     io_bind (authenticate H) (\<lambda>(callerID, isSystem).
     let f = (case flt of
                None \<Rightarrow> \<lparr> mf_OwnerUserId = None, mf_RepositoryId = None, mf_State = None, mf_States = [] \<rparr>
              | Some f \<Rightarrow> f);
         f = (if isSystem then f else f\<lparr>mf_OwnerUserId := Some callerID\<rparr>)
     in io_bind (map_errors (ListMigrations (h_svc H) (Some f) params)) (\<lambda>(items, pag).
          io_ok (map suppressOrphanRoadmap items, pag)))"

definition h_DeleteMigration :: "'w MigrationHandler \<Rightarrow> u64 \<Rightarrow> ('w, unit) io" where
  "h_DeleteMigration H i = guarded H i (\<lambda>_. map_errors (DeleteMigration (h_svc H) i))"

definition h_StartMigration :: "'w MigrationHandler \<Rightarrow> u64 \<Rightarrow> ('w, Migration) io" where
  "h_StartMigration H i = guarded H i (\<lambda>_. map_errors (StartMigration (h_svc H) i))"

definition h_ApproveDesign :: "'w MigrationHandler \<Rightarrow> u64 \<Rightarrow> bool \<Rightarrow> string list \<Rightarrow> ('w, Migration) io" where
  "h_ApproveDesign H i approved flt =
     guarded H i (\<lambda>_. map_errors (ApproveDesign (h_svc H) i approved flt))"

definition h_CancelMigration :: "'w MigrationHandler \<Rightarrow> u64 \<Rightarrow> ('w, Migration) io" where
  "h_CancelMigration H i = guarded H i (\<lambda>_. map_errors (CancelMigration (h_svc H) i))"

definition h_GetGenerationPackage :: "'w MigrationHandler \<Rightarrow> u64 \<Rightarrow> ('w, GenerationPackage) io" where
  "h_GetGenerationPackage H i = guarded H i (\<lambda>_. map_errors (GetGenerationPackage (h_svc H) i))"

definition h_PublishMigration ::
  "'w MigrationHandler \<Rightarrow> u64 \<Rightarrow> string \<Rightarrow> string \<Rightarrow> string \<Rightarrow> ('w, Migration \<times> string) io" where
  "h_PublishMigration H i targetURL writeToken commitMessage =
     guarded H i (\<lambda>_. map_errors (PublishMigration (h_svc H) i targetURL writeToken commitMessage))"

definition h_GetGenerationArtifacts ::
  "'w MigrationHandler \<Rightarrow> u64 \<Rightarrow> string \<Rightarrow> ('w, ServiceGenerationArtifacts list) io" where
  "h_GetGenerationArtifacts H i serviceName =
     guarded H i (\<lambda>_. map_errors (GetGenerationArtifacts (h_svc H) i serviceName))"

text \<open>The response of an export or a download: the content-disposition header, the content type, the bytes.\<close>

definition h_DownloadDeliverable ::
  "'w MigrationHandler \<Rightarrow> u64 \<Rightarrow> ('w, string \<times> string \<times> string) io" where
  "h_DownloadDeliverable H i =
     guarded H i (\<lambda>_. io_bind (map_errors (DownloadDeliverable (h_svc H) i)) (\<lambda>data.
       io_ok (''attachment; filename='' @ quoted (''deliverable-'' @ Itoa (uint i) @ ''.zip''),
              ''application/zip'', data)))"

definition h_AssessMigrability :: "'w MigrationHandler \<Rightarrow> u64 \<Rightarrow> string \<Rightarrow> ('w, Migration) io" where
  "h_AssessMigrability H i language =
     guarded H i (\<lambda>_. io_bind (map_errors (AssessMigrability (h_svc H) i language)) (\<lambda>out.
       io_ok (suppressOrphanRoadmap out)))"

definition h_GenerateRestructuringRoadmap :: "'w MigrationHandler \<Rightarrow> u64 \<Rightarrow> ('w, Migration) io" where
  "h_GenerateRestructuringRoadmap H i =
     guarded H i (\<lambda>_. map_errors (GenerateRestructuringRoadmap (h_svc H) i))"

definition h_SetMigrabilityOverride :: "'w MigrationHandler \<Rightarrow> u64 \<Rightarrow> bool \<Rightarrow> ('w, Migration) io" where
  "h_SetMigrabilityOverride H i override =
     guarded H i (\<lambda>_. map_errors (SetMigrabilityOverride (h_svc H) i override))"

definition h_EnrichRoadmap :: "'w MigrationHandler \<Rightarrow> u64 \<Rightarrow> ('w, Migration) io" where
  "h_EnrichRoadmap H i = guarded H i (\<lambda>_. map_errors (EnrichRoadmap (h_svc H) i))"

definition h_GenerateBlueprint :: "'w MigrationHandler \<Rightarrow> u64 \<Rightarrow> ('w, Migration) io" where
  "h_GenerateBlueprint H i = guarded H i (\<lambda>_. map_errors (GenerateBlueprint (h_svc H) i))"

definition h_ExportActionPlanPrompt ::
  "'w MigrationHandler \<Rightarrow> u64 \<Rightarrow> ('w, string \<times> string \<times> string) io" where
  "h_ExportActionPlanPrompt H i =
     guarded H i (\<lambda>_. io_bind (map_errors (ExportActionPlanPrompt (h_svc H) i)) (\<lambda>(filename, content).
       io_ok (''attachment; filename='' @ quoted filename, ''text/markdown; charset=utf-8'', content)))"

section \<open>The error mapping\<close>

text \<open>
  Every error of the registry reaches the caller with its code and message, under a status
  code that is never the internal one except for the internal error itself; so does a conflict of
  artifacts. The status is the same however often the error was wrapped on its way.
\<close>

theorem mapError_registry:
  "(\<forall>e \<in> set (NewErrArtifactConflict details # error_registry).
      \<exists>c. mapError e = Status c (error_text e) \<and> (c = codes_Internal \<longleftrightarrow> e = ErrInternal)) \<and>
   (errors_As e0 \<noteq> None \<longrightarrow> mapError (Wrap pre e0 post) = mapError e0)"
proof
  show "\<forall>e \<in> set (NewErrArtifactConflict details # error_registry).
      \<exists>c. mapError e = Status c (error_text e) \<and> (c = codes_Internal \<longleftrightarrow> e = ErrInternal)"
    by (simp add: error_registry_def mapError_def mig_errors NewErrArtifactConflict_def status_defs)
  show "errors_As e0 \<noteq> None \<longrightarrow> mapError (Wrap pre e0 post) = mapError e0"
    by (cases e0) (auto simp: mapError_def)
qed

theorem mapError_registry_witness:
  "mapError ErrNotMigrableBlocked = Status 9 (error_text ErrNotMigrableBlocked) \<and>
   mapError (Wrap ''create migration: '' ErrMigrationNotFound []) = mapError ErrMigrationNotFound"
proof -
  have "errors_As ErrMigrationNotFound \<noteq> None" by code_simp
  then have "mapError (Wrap ''create migration: '' ErrMigrationNotFound []) = mapError ErrMigrationNotFound"
    using mapError_registry [of "[]" ErrMigrationNotFound] by blast
  moreover have "mapError ErrNotMigrableBlocked = Status 9 (error_text ErrNotMigrableBlocked)" by code_simp
  ultimately show ?thesis by blast
qed

section \<open>Ownership\<close>

text \<open>A request at the handlers, its payload dropped, and the migration it addresses.\<close>

fun handle :: "'w MigrationHandler \<Rightarrow> request \<Rightarrow> ('w, unit) io" where
  "handle H (RCreate p) = void (h_CreateMigration H p)"
| "handle H (RGet i) = void (h_GetMigration H i)"
| "handle H (RList f p) = void (h_ListMigrations H f p)"
| "handle H (RDelete i) = void (h_DeleteMigration H i)"
| "handle H (RStart i) = void (h_StartMigration H i)"
| "handle H (RApprove i a f) = void (h_ApproveDesign H i a f)"
| "handle H (RAssess i l) = void (h_AssessMigrability H i l)"
| "handle H (REnrich i) = void (h_EnrichRoadmap H i)"
| "handle H (RBlueprint i) = void (h_GenerateBlueprint H i)"
| "handle H (ROverride i b) = void (h_SetMigrabilityOverride H i b)"
| "handle H (RCancel i) = void (h_CancelMigration H i)"
| "handle H (RPackage i) = void (h_GetGenerationPackage H i)"
| "handle H (RPublish i u t c) = void (h_PublishMigration H i u t c)"
| "handle H (RArtifacts i n) = void (h_GetGenerationArtifacts H i n)"
| "handle H (RRoadmap i) = void (h_GenerateRestructuringRoadmap H i)"
| "handle H (RExport i) = void (h_ExportActionPlanPrompt H i)"
| "handle H (RDownload i) = void (h_DownloadDeliverable H i)"

fun addressed :: "request \<Rightarrow> u64 option" where
  "addressed (RCreate p) = None"
| "addressed (RList f p) = None"
| "addressed (RGet i) = Some i"
| "addressed (RDelete i) = Some i"
| "addressed (RStart i) = Some i"
| "addressed (RApprove i a f) = Some i"
| "addressed (RAssess i l) = Some i"
| "addressed (REnrich i) = Some i"
| "addressed (RBlueprint i) = Some i"
| "addressed (ROverride i b) = Some i"
| "addressed (RCancel i) = Some i"
| "addressed (RPackage i) = Some i"
| "addressed (RPublish i u t c) = Some i"
| "addressed (RArtifacts i n) = Some i"
| "addressed (RRoadmap i) = Some i"
| "addressed (RExport i) = Some i"
| "addressed (RDownload i) = Some i"

lemma handle_guarded: "addressed r = Some i \<Longrightarrow> \<exists>f :: Migration \<Rightarrow> ('w, unit) io. handle H r = void (guarded H i f) \<or>
    (\<exists>g :: Migration \<Rightarrow> ('w, Migration) io. handle H r = void (guarded H i g)) \<or>
    (\<exists>g :: Migration \<Rightarrow> ('w, GenerationPackage) io. handle H r = void (guarded H i g)) \<or>
    (\<exists>g :: Migration \<Rightarrow> ('w, Migration \<times> string) io. handle H r = void (guarded H i g)) \<or>
    (\<exists>g :: Migration \<Rightarrow> ('w, ServiceGenerationArtifacts list) io. handle H r = void (guarded H i g)) \<or>
    (\<exists>g :: Migration \<Rightarrow> ('w, string \<times> string \<times> string) io. handle H r = void (guarded H i g))"
  by (cases r) (auto simp: h_GetMigration_def h_DeleteMigration_def h_StartMigration_def
      h_ApproveDesign_def h_AssessMigrability_def h_EnrichRoadmap_def h_GenerateBlueprint_def
      h_SetMigrabilityOverride_def h_CancelMigration_def h_GetGenerationPackage_def
      h_PublishMigration_def h_GetGenerationArtifacts_def h_GenerateRestructuringRoadmap_def
      h_ExportActionPlanPrompt_def h_DownloadDeliverable_def)

context migration_service_env
begin

lemma GetMigration_result:
  assumes run: "run_state (GetMigration S i) w = (r, w')" and w: "here V w"
  shows "here V w' \<and> (case r of Inl _ \<Rightarrow> True
    | Inr m \<Rightarrow> \<exists>m0 g. V i = Some m0 \<and> m = m0\<lparr>mig_GenerationRecords := g\<rparr>)"
proof (cases "i = 0")
  case True
  with run w show ?thesis by (auto simp: GetMigration_def)
next
  case False
  obtain x w1 where x: "run_state (repo_GetByID R i False) w = (x, w1)" by (meson surj_pair)
  note get = tripleD [OF get_triple x w]
  show ?thesis
  proof (cases x)
    case (Inl e)
    with get run x False show ?thesis by (auto simp: GetMigration_def repo_S io_unfold)
  next
    case (Inr m)
    have id: "\<exists>g. m = m\<lparr>mig_GenerationRecords := g\<rparr>" by (cases m) auto
    show ?thesis
    proof (cases "svc_generationResultReader S")
      case None
      with get run x False Inr id show ?thesis
        by (auto simp: GetMigration_def repo_S io_unfold split: if_splits)
    next
      case (Some rd)
      obtain y w2 where y: "run_state (rd i) w1 = (y, w2)" by (meson surj_pair)
      have "keeps (\<lambda>w. (ok w, view w)) (rd i)" using client_facts Some by auto
      then have "here V w2" using get y by (auto simp: here_def dest!: keeps_run)
      with get run x y False Inr Some id show ?thesis
        by (auto simp: GetMigration_def repo_S io_unfold split: if_splits sum.splits)
    qed
  qed
qed

lemma guarded_stranger:
  assumes H: "h_svc H = S" and auth: "run_state (h_authExtract H) w = (Inr (caller, False), w1)"
    and keep: "keeps (\<lambda>w. (ok w, view w)) (h_authExtract H)"
    and w: "here V w" and m: "V i = Some m" "mig_OwnerUserId m \<noteq> caller"
    and run: "run_state (guarded H i f) w = (r, w')"
  shows "isl r \<and> here V w'"
proof -
  have w1: "here V w1" using keeps_run [OF keep auth] w by (simp add: here_def)
  have a: "run_state (authenticate H) w = (Inr (caller, False), w1)"
    using auth by (simp add: authenticate_def)
  show ?thesis
  proof (cases "i = 0")
    case True
    with run a w1 show ?thesis by (auto simp: guarded_def io_unfold)
  next
    case False
    obtain x w2 where x: "run_state (GetMigration S i) w1 = (x, w2)" by (meson surj_pair)
    note get = GetMigration_result [OF x w1]
    then have w2: "here V w2" by blast
    show ?thesis
    proof (cases x)
      case (Inl e)
      with run a x False w2 H show ?thesis by (auto simp: guarded_def io_unfold map_errors_def)
    next
      case (Inr m')
      with get m have "mig_OwnerUserId m' \<noteq> caller" by auto
      with Inr run a x False w2 H show ?thesis by (auto simp: guarded_def io_unfold map_errors_def)
    qed
  qed
qed

end

lemma run_void: "run_state (void op) w = (case run_state op w of (Inl e, w') \<Rightarrow> (Inl e, w') | (Inr x, w') \<Rightarrow> (Inr (), w'))"
  by (simp add: void_def io_unfold split: prod.split sum.split)

text \<open>
  C7. A caller who is neither the owner of a migration nor a system user gets an error from every
  handler that addresses the migration (all handlers of the service but the creation and the
  listing, the download of the deliverable included), and no stored migration changes.
\<close>

theorem stranger_changes_nothing:
  assumes "service_over D docs (h_svc H)" and "keeps docs (h_authExtract H)"
    and "docs_ok (db_codecs D) (docs w)"
    and "run_state (h_authExtract H) w = (Inr (caller, False), w1)"
    and "addressed r = Some i" and "doc_view (db_codecs D) (docs w) i = Some m"
    and "mig_OwnerUserId m \<noteq> caller"
    and "run_state (handle H r) w = (out, w')"
  shows "isl out \<and> doc_view (db_codecs D) (docs w') = doc_view (db_codecs D) (docs w)"
proof -
  note env = service_over_env [OF assms(1)]
  let ?ok = "\<lambda>w. docs_ok (db_codecs D) (docs w)" and ?view = "\<lambda>w. doc_view (db_codecs D) (docs w)"
  have keep: "keeps (\<lambda>w. (?ok w, ?view w)) (h_authExtract H)"
    using keeps_comp [OF assms(2), where g = "\<lambda>ds. (docs_ok (db_codecs D) ds, doc_view (db_codecs D) ds)"] .
  have here: "migration_service_env.here ?view ?ok (?view w) w"
    using assms(3) by (simp add: migration_service_env.here_def [OF env])
  have step: "isl y \<and> ?view w' = ?view w" if "run_state (void (guarded H i f)) w = (y, w')"
    for f :: "Migration \<Rightarrow> ('a, 'c) io" and y w'
  proof -
    obtain x w2 where x: "run_state (guarded H i f) w = (x, w2)" by (meson surj_pair)
    from migration_service_env.guarded_stranger [OF env refl assms(4) keep here assms(6,7) x]
    have "isl x" "?view w2 = ?view w" by (auto simp: migration_service_env.here_def [OF env])
    with that x show ?thesis by (cases x) (auto simp: run_void)
  qed
  show ?thesis using handle_guarded [OF assms(5), of H] assms(8) step by metis
qed

text \<open>The handler over the in-memory driver, called by user \<open>u\<close>.\<close>

definition mem_handler :: "u64 \<Rightarrow> mem MigrationHandler" where
  "mem_handler u = \<lparr> h_svc = mem_service, h_authExtract = io_ok (u, False) \<rparr>"

lemma mem_handler_keeps: "keeps mem_docs (h_authExtract (mem_handler u))"
  by (simp add: mem_handler_def keeps_def io_unfold)

lemma demo_world_view:
  "doc_view (db_codecs mem_db) (mem_docs (demo_world s)) 1 =
     Some (projr (migrationDocToDomain (db_codecs mem_db) (demo_doc 1 s)))"
  by (simp add: doc_view_def demo_world_def demo_doc_def migrationDocToDomain_def
      doc_roadmap_def unmarshal_field_def)

theorem stranger_changes_nothing_witness:
  "isl (fst (run_state (handle (mem_handler 43) (RCancel 1)) (demo_world MIGRATION_STATE_PENDING))) \<and>
   doc_view (db_codecs mem_db) (mem_docs (snd (run_state (handle (mem_handler 43) (RCancel 1))
     (demo_world MIGRATION_STATE_PENDING)))) =
   doc_view (db_codecs mem_db) (mem_docs (demo_world MIGRATION_STATE_PENDING))"
proof (rule stranger_changes_nothing [OF _ mem_handler_keeps demo_world_ok _ _ demo_world_view _
      prod.collapse [symmetric], where caller = 43])
  show "service_over mem_db mem_docs (h_svc (mem_handler 43))"
    by (simp add: mem_handler_def mem_service_over)
  show "run_state (h_authExtract (mem_handler 43)) (demo_world MIGRATION_STATE_PENDING) =
      (Inr (43, False), demo_world MIGRATION_STATE_PENDING)"
    by (simp add: mem_handler_def io_unfold)
  show "mig_OwnerUserId (projr (migrationDocToDomain (db_codecs mem_db)
      (demo_doc 1 MIGRATION_STATE_PENDING))) \<noteq> 43"
    by (simp add: demo_doc_def migrationDocToDomain_def doc_roadmap_def unmarshal_field_def)
qed simp

section \<open>Listings and creations\<close>

lemma suppress_fields:
  "mig_Identifier (suppressOrphanRoadmap m) = mig_Identifier m"
  "mig_OwnerUserId (suppressOrphanRoadmap m) = mig_OwnerUserId m"
  "mig_DeleteTime (suppressOrphanRoadmap m) = mig_DeleteTime m"
  by (simp_all add: suppressOrphanRoadmap_def)

context migration_service_env
begin

lemma list_handler:
  assumes H: "h_svc H = S" and auth: "run_state (h_authExtract H) w = (Inr (caller, False), w1)"
    and keep: "keeps (\<lambda>w. (ok w, view w)) (h_authExtract H)"
    and w: "here V w"
    and run: "run_state (h_ListMigrations H f p) w = (Inr (ms, pg), w')"
  shows "here V w' \<and> (\<forall>m \<in> set ms. \<exists>m0. V (mig_Identifier m) = Some m0 \<and>
    m = suppressOrphanRoadmap m0 \<and> mig_DeleteTime m0 = None \<and>
    (caller = 0 \<or> mig_OwnerUserId m0 = caller))"
proof -
  have w1: "here V w1" using keeps_run [OF keep auth] w by (simp add: here_def)
  have a: "run_state (authenticate H) w = (Inr (caller, False), w1)"
    using auth by (simp add: authenticate_def)
  define g where "g = (case f of None \<Rightarrow> \<lparr> mf_OwnerUserId = None, mf_RepositoryId = None,
      mf_State = None, mf_States = [] \<rparr> | Some f \<Rightarrow> f) \<lparr>mf_OwnerUserId := Some caller\<rparr>"
  obtain x w2 where x: "run_state (repo_List R (Some g) p) w1 = (x, w2)" by (meson surj_pair)
  have lst: "ok w2 \<and> view w2 = V \<and> (case x of Inl e \<Rightarrow> True
      | Inr (ms, pg) \<Rightarrow> \<forall>m\<in>set ms. V (mig_Identifier m) = Some m \<and>
          mig_DeleteTime m = None \<and> filter_admits (Some g) m)"
    by (rule tripleD [OF List_law x]) (use w1 in \<open>simp add: here_def\<close>)
  have owner: "caller = 0 \<or> mig_OwnerUserId m = caller" if "filter_admits (Some g) m" for m
    using that by (simp add: filter_admits_def g_def)
  show ?thesis
  proof (cases x)
    case (Inl e)
    with run a x H show ?thesis
      by (simp add: h_ListMigrations_def io_unfold map_errors_def ListMigrations_def repo_S g_def)
  next
    case (Inr y)
    obtain ms0 pg0 where y: "y = (ms0, pg0)" by (cases y)
    have "ms = map suppressOrphanRoadmap ms0" "w' = w2"
      using run a x H Inr y
      by (simp_all add: h_ListMigrations_def io_unfold map_errors_def ListMigrations_def repo_S g_def)
    with lst Inr y owner show ?thesis by (auto simp: here_def suppress_fields)
  qed
qed

end

text \<open>
  C8. A listing asked for by a user who is not a system user returns only live migrations of
  that user (unless the token carries the user identifier zero), each as it is stored up to the
  orphan roadmap that is hidden, whatever owner the filter of the request names; and it changes
  nothing.
\<close>

theorem list_only_own:
  assumes "service_over D docs (h_svc H)" and "keeps docs (h_authExtract H)"
    and "docs_ok (db_codecs D) (docs w)"
    and "run_state (h_authExtract H) w = (Inr (caller, False), w1)" and "caller \<noteq> 0"
    and "run_state (h_ListMigrations H f p) w = (Inr (ms, pg), w')"
  shows "doc_view (db_codecs D) (docs w') = doc_view (db_codecs D) (docs w) \<and>
    (\<forall>m \<in> set ms. \<exists>m0. doc_view (db_codecs D) (docs w) (mig_Identifier m) = Some m0 \<and>
       m = suppressOrphanRoadmap m0 \<and> mig_DeleteTime m0 = None \<and> mig_OwnerUserId m0 = caller)"
proof -
  note env = service_over_env [OF assms(1)]
  have "migration_service_env.here (\<lambda>w. doc_view (db_codecs D) (docs w))
      (\<lambda>w. docs_ok (db_codecs D) (docs w)) (doc_view (db_codecs D) (docs w)) w"
    using assms(3) by (simp add: migration_service_env.here_def [OF env])
  from migration_service_env.list_handler [OF env refl assms(4) _ this assms(6)]
    keeps_comp [OF assms(2), where g = "\<lambda>ds. (docs_ok (db_codecs D) ds, doc_view (db_codecs D) ds)"]
    assms(5)
  show ?thesis by (simp add: migration_service_env.here_def [OF env])
qed

definition two_owners :: mem where
  "two_owners = \<lparr> mem_docs = [demo_doc 1 MIGRATION_STATE_PENDING,
      (demo_doc 2 MIGRATION_STATE_READY)\<lparr>doc_OwnerUserID := 43\<rparr>], mem_seq = Some 10001, mem_time = 100,
      mem_analyses = [] \<rparr>"

lemma two_owners_ok: "docs_ok (db_codecs mem_db) (mem_docs two_owners)"
  by (simp add: docs_ok_def two_owners_def demo_doc_def doc_reads_def migrationDocToDomain_def
      doc_roadmap_def unmarshal_field_def)

theorem list_only_own_witness:
  "\<exists>ms pg w'. run_state (h_ListMigrations (mem_handler 43) None None) two_owners = (Inr (ms, pg), w') \<and>
     map mig_Identifier ms = [2] \<and> (\<forall>m \<in> set ms. \<exists>m0. m = suppressOrphanRoadmap m0 \<and> mig_OwnerUserId m0 = 43)"
proof -
  let ?run = "run_state (h_ListMigrations (mem_handler 43) None None) two_owners"
  have "(case fst ?run of Inr (ms, pg) \<Rightarrow> map mig_Identifier ms = [2] | Inl _ \<Rightarrow> False)" by code_simp
  moreover obtain x w' where run: "?run = (x, w')" by (meson surj_pair)
  ultimately obtain ms pg where x: "x = Inr (ms, pg)" and ids: "map mig_Identifier ms = [2]"
    by (cases x) auto
  note r = run [unfolded x]
  have "\<forall>m \<in> set ms. \<exists>m0. m = suppressOrphanRoadmap m0 \<and> mig_OwnerUserId m0 = 43"
    using list_only_own [OF _ mem_handler_keeps two_owners_ok _ _ r, where caller = 43]
    by (fastforce simp: mem_handler_def mem_service_over io_unfold)
  with r ids show ?thesis by (intro exI conjI)
qed

end
