(* ===== verification/Decomposition_Domain.thy ===== *)
theory Decomposition_Domain
  imports Prism_Messages
begin

text \<open>
  The value types of the decomposition worker
  (\<^verbatim>\<open>worker/decomposition/domain/domain.go\<close>, \<^verbatim>\<open>digest.go\<close>, \<^verbatim>\<open>score.go\<close>) and the pure functions on
  them. A module is its dotted name. The set of all modules of a graph is a Go map that the code
  lists in an arbitrary order: the model returns the names in order of first appearance, and no
  lemma depends on the order.
\<close>

section \<open>Graphs\<close>

type_synonym Module = string

record Edge =
  edge_From :: Module
  edge_To :: Module
  edge_Weight :: u32

type_synonym Graph = "Edge list"

definition AllModules :: "Graph \<Rightarrow> Module list" where
  "AllModules g = remdups (concat (map (\<lambda>e. [edge_From e, edge_To e]) g))"

definition DomainSubgraph :: "Graph \<Rightarrow> Module list \<Rightarrow> Graph" where
  "DomainSubgraph full domainModules =
     filter (\<lambda>e. edge_From e \<in> set domainModules \<and> edge_To e \<in> set domainModules) full"

record Classification =
  cl_Infra :: "Module list"
  cl_Domain :: "Module list"
  cl_Tests :: "Module list"
  cl_StructuralFallback :: bool

record Cluster =
  cluster_BlueprintGroup :: string
  cluster_Modules :: "Module list"

record ProposedGroup =
  pg_Name :: string
  pg_Modules :: "string list"
  pg_Responsibilities :: "string list"
  pg_Confidence :: string

record RestructureRec =
  rec_Kind :: string
  rec_Subject :: string
  rec_Action :: string
  rec_Blocking :: bool

record ClusteringResult =
  cr_Clusters :: "Cluster list"
  cr_Modularity :: rat
  cr_LowConfidence :: bool
  cr_CandidateGroupings :: "ProposedGroup list"
  cr_RestructureRecs :: "RestructureRec list"

section \<open>Coherence of a partition\<close>

text \<open>The index of the last cluster that lists a module; a later assignment of the Go map
  replaces an earlier one.\<close>

definition clusterOf :: "Cluster list \<Rightarrow> Module \<rightharpoonup> nat" where
  "clusterOf clusters m =
     (case filter (\<lambda>i. m \<in> set (cluster_Modules (clusters ! i))) [0..<length clusters] of
        [] \<Rightarrow> None | is \<Rightarrow> Some (last is))"

definition hasInternal :: "Graph \<Rightarrow> Cluster list \<Rightarrow> nat \<Rightarrow> bool" where
  "hasInternal g clusters i \<longleftrightarrow>
     (\<exists>e \<in> set g. clusterOf clusters (edge_From e) = Some i \<and> clusterOf clusters (edge_To e) = Some i)"

definition IsIncoherentFallback :: "Graph \<Rightarrow> Cluster list \<Rightarrow> bool" where
  "IsIncoherentFallback domainGraph clusters =
     (if clusters = [] then False
      else length (filter (hasInternal domainGraph clusters) [0..<length clusters]) * 2 < length clusters)"

section \<open>Candidates, contracts and ownership\<close>

record svc_coupling =
  opc_FromService :: string
  opc_ToService :: string
  opc_FromModule :: string

record ServiceCandidate =
  sc_Name :: string
  sc_ErrorPrefix :: string
  sc_OwnedResources :: "Module list"
  sc_Deps :: "string list"
  sc_OperationalCouplings :: "svc_coupling list"

record ProtoField =
  pf_Name :: string
  pf_Type :: string
  pf_Number :: int
  pf_Comment :: string
  pf_IsCrossFK :: bool
  pf_RefTable :: string
  pf_RefService :: string

record ProtoMessage =
  pm_Name :: string
  pm_Fields :: "ProtoField list"
  pm_Relationships :: "string list"

record ServiceRPC =
  rpc_Name :: string
  rpc_Path :: string
  rpc_HTTPMethod :: string
  rpc_IsTODO :: bool

record DerivedContract =
  dc_ServiceName :: string
  dc_ProtoContent :: string
  dc_ProtoPath :: string
  dc_Messages :: "ProtoMessage list"
  dc_RPCs :: "ServiceRPC list"
  dc_HasTODORoutes :: bool
  dc_Incomplete :: bool
  dc_IncompleteReason :: string

record CrossServiceFK =
  fk_OwnerService :: string
  fk_OwnerMessage :: string
  fk_FieldName :: string
  fk_RefTable :: string
  fk_RefService :: string

record DataOwnership =
  do_SharedDatabase :: bool
  do_CrossServiceFKs :: "CrossServiceFK list"
  do_OperationalCouplings :: "svc_coupling list"

record design_artifact =
  da_ServiceName :: string
  da_ProtoContent :: string
  da_BoundarySpec :: string
  da_Incomplete :: bool
  da_IncompleteReason :: string

section \<open>The boundary specification\<close>

definition line :: "string \<Rightarrow> string" where "line s = s @ [CHR 0x0A]"

definition yaml_items :: "string list \<Rightarrow> string" where
  "yaml_items xs = concat (map (\<lambda>x. line (''  - '' @ x)) xs) @ (if xs = [] then line ''  []'' else [])"

definition yaml_fk :: "CrossServiceFK \<Rightarrow> string" where
  "yaml_fk fk =
     line (''  - owner_message: '' @ fk_OwnerMessage fk) @ line (''    owner: '' @ fk_OwnerService fk) @
     line (''    field: '' @ fk_FieldName fk) @ line (''    ref_table: '' @ fk_RefTable fk) @
     (if fk_RefService fk \<noteq> [] then line (''    ref_service: '' @ fk_RefService fk) else [])"

definition yaml_coupling :: "svc_coupling \<Rightarrow> string" where
  "yaml_coupling oc =
     line (''  - from: '' @ opc_FromService oc) @ line (''    to: '' @ opc_ToService oc) @
     line (''    source_module: '' @ opc_FromModule oc)"

definition BuildBoundarySpecYAML ::
  "ProposedService \<Rightarrow> bool \<Rightarrow> CrossServiceFK list \<Rightarrow> svc_coupling list \<Rightarrow> string" where
  "BuildBoundarySpecYAML svc sharedDB crossFKs opCouplings =
     line (''# Milton Prism boundary spec '' @ em_dash @ '' generated by decomposition engine'') @
     line ''# TODO: per-service data ownership + cross-service consistency'' @
     line (line ''# Review and commit to protobuf/proto/... when ready.'') @
     line (''name: '' @ ps_Name svc) @
     line (''error_prefix: '' @ ps_ErrorPrefix svc) @
     line ''owned_resources:'' @ yaml_items (ps_OwnedResources svc) @
     line ''inter_service_deps:'' @ yaml_items (ps_InterServiceDeps svc) @
     (if sharedDB
      then line (''shared_database: true  # monolith DB '' @ em_dash @ '' per-service separation deferred'')
      else line ''shared_database: false'') @
     (if crossFKs \<noteq> [] then line ''cross_service_fks:'' @ concat (map yaml_fk crossFKs) else []) @
     (if opCouplings \<noteq> []
      then line (''# Operational couplings '' @ em_dash @ '' view-layer imports that become gRPC calls or events:'') @
           line ''operational_couplings:'' @ concat (map yaml_coupling opCouplings)
      else [])"

section \<open>Facts\<close>

lemma set_AllModules: "set (AllModules g) = edge_From ` set g \<union> edge_To ` set g"
  by (auto simp: AllModules_def)

lemma distinct_AllModules [simp]: "distinct (AllModules g)"
  by (simp add: AllModules_def)

lemma set_DomainSubgraph:
  "set (AllModules (DomainSubgraph g ms)) \<subseteq> set ms"
  by (auto simp: set_AllModules DomainSubgraph_def)

text \<open>On a partition the index of a module is the index of its cluster.\<close>

lemma clusterOf_partition:
  assumes "i < length clusters" and "m \<in> set (cluster_Modules (clusters ! i))"
    and disj: "\<And>j. j < length clusters \<Longrightarrow> m \<in> set (cluster_Modules (clusters ! j)) \<Longrightarrow> j = i"
  shows "clusterOf clusters m = Some i"
proof -
  let ?is = "filter (\<lambda>i. m \<in> set (cluster_Modules (clusters ! i))) [0..<length clusters]"
  have idx: "set ?is = {i}"
  proof (rule set_eqI)
    fix j show "j \<in> set ?is \<longleftrightarrow> j \<in> {i}" using assms(1,2) disj [of j] by auto
  qed
  have "set ?is \<noteq> {}" unfolding idx by simp
  then have ne: "?is \<noteq> []" by (metis list.set(1))
  have "last ?is = i" using last_in_set [OF ne] unfolding idx by (rule singletonD)
  with ne show ?thesis by (auto simp: clusterOf_def split: list.splits)
qed

end
