(* ===== verification/Infra_Detection.thy ===== *)
theory Infra_Detection
  imports Decomposition_Domain
begin

text \<open>
  Stage 2 of the decomposition worker: the separation of infrastructure, domain and test modules
  (\<^verbatim>\<open>deterministic_infra_detector.go\<close>, \<^verbatim>\<open>php_aware_infra_detector.go\<close>) and the namespace rules for PHP it
  shares with the analysis worker (\<^verbatim>\<open>core/shared/phpclassify/segment.go\<close>). The modules come from a Go map
  in an arbitrary order, so the passes take their list as an argument.
\<close>

section \<open>Module names\<close>

definition backslash :: char where "backslash = CHR 0x5C"

definition is_php :: "string \<Rightarrow> bool" where "is_php m \<longleftrightarrow> backslash \<in> set m"

definition domainIndicatorSuffixes :: "string set" where
  "domainIndicatorSuffixes =
     {''models'', ''views'', ''serializers'', ''resources'', ''api'', ''handlers'', ''routes'', ''schema'',
      ''schemas'', ''entities'', ''repository'', ''repositories''}"

definition two_components :: "char \<Rightarrow> string \<Rightarrow> string" where
  "two_components sep m =
     (case strings_SplitN 3 m sep of
        a # b # c # _ \<Rightarrow> a @ [sep] @ b
      | _ \<Rightarrow> m)"

definition groupOf :: "string \<Rightarrow> string" where
  "groupOf m = (if is_php m then two_components backslash m else two_components (CHR ''.'') m)"

definition after_last :: "char \<Rightarrow> string \<Rightarrow> string" where
  "after_last sep m = rev (takeWhile (\<lambda>c. c \<noteq> sep) (rev m))"

definition lastComponent :: "string \<Rightarrow> string" where
  "lastComponent m = after_last (CHR ''.'') m"

definition isTestModule :: "string \<Rightarrow> bool" where
  "isTestModule m \<longleftrightarrow>
     (\<exists>part \<in> set (strings_Split m (if is_php m then backslash else CHR ''.'')).
        part \<in> {''tests'', ''test'', ''spec''} \<or> HasPrefix part ''test_'' \<or> HasSuffix part ''_test'')"

section \<open>The fan-in heuristic\<close>

text \<open>The modules that import a module, each once, and the threshold above which a module is a hub.\<close>

definition importers :: "Graph \<Rightarrow> Module \<Rightarrow> Module list" where
  "importers g m = remdups (map edge_From (filter (\<lambda>e. edge_To e = m) g))"

definition hub_threshold :: "Module list \<Rightarrow> nat" where
  "hub_threshold ms = max 2 (length ms div 4)"

definition is_hub :: "Graph \<Rightarrow> Module list \<Rightarrow> Module \<Rightarrow> bool" where
  "is_hub g ms m \<longleftrightarrow> length (importers g m) > hub_threshold ms"

definition classifyByFanIn :: "Graph \<Rightarrow> Module list \<Rightarrow> Classification" where
  "classifyByFanIn g all =
     (let nonTest = filter (\<lambda>m. \<not> isTestModule m) all
      in \<lparr> cl_Infra = filter (is_hub g nonTest) nonTest,
           cl_Domain = filter (\<lambda>m. \<not> is_hub g nonTest m) nonTest,
           cl_Tests = filter isTestModule all, cl_StructuralFallback = True \<rparr>)"

section \<open>The deterministic detector\<close>

definition blueprintGroups :: "Module list \<Rightarrow> string list" where
  "blueprintGroups all =
     map groupOf (filter (\<lambda>m. lastComponent m \<in> domainIndicatorSuffixes) all)"

definition detect_modules :: "Graph \<Rightarrow> Module list \<Rightarrow> Classification" where
  "detect_modules g all =
     (if blueprintGroups all \<noteq> []
      then \<lparr> cl_Infra = filter (\<lambda>m. \<not> isTestModule m \<and> groupOf m \<notin> set (blueprintGroups all)) all,
             cl_Domain = filter (\<lambda>m. \<not> isTestModule m \<and> groupOf m \<in> set (blueprintGroups all)) all,
             cl_Tests = filter isTestModule all, cl_StructuralFallback = False \<rparr>
      else classifyByFanIn g all)"

definition Detect :: "Graph \<Rightarrow> Classification" where
  "Detect g = detect_modules g (AllModules g)"

section \<open>PHP\<close>

definition application_segments :: "string set" where
  "application_segments =
     {''Controllers'', ''Controller'', ''Console'', ''Commands'', ''Command'', ''Middleware'', ''Requests'', ''Request'',
      ''FormRequests'', ''Actions'', ''Action''}"

definition infra_segments :: "string set" where
  "infra_segments =
     {''Repositories'', ''Repository'', ''Repos'', ''Repo'', ''Providers'', ''Provider'', ''Facades'', ''Facade'',
      ''Events'', ''Event'', ''Listeners'', ''Listener'', ''Jobs'', ''Job'', ''Notifications'', ''Notification'',
      ''Mail'', ''Adapters'', ''Adapter'', ''Infrastructure'', ''DependencyInjection'', ''Queries'', ''Query'',
      ''Observers'', ''Observer'', ''Migrations'', ''Migration'', ''Seeders'', ''Seeder'', ''Factories'', ''Factory'',
      ''Casts'', ''Cast'', ''Broadcast'', ''Broadcasting'', ''Uploads'', ''Upload'', ''Exceptions'', ''Exception''}"

definition domain_segments :: "string set" where
  "domain_segments =
     {''Models'', ''Model'', ''Entities'', ''Entity'', ''Services'', ''Service'', ''Policies'', ''Policy'', ''Rules'',
      ''Rule'', ''Contracts'', ''Contract'', ''Permissions'', ''Permission'', ''Tools'', ''Tool'', ''Builders'',
      ''Builder'', ''ValueObjects'', ''ValueObject'', ''Enums'', ''Enum'', ''Domain'', ''Access''}"

definition segmentLayer :: "string \<Rightarrow> string" where
  "segmentLayer seg =
     (if seg \<in> application_segments then ''application''
      else if seg \<in> infra_segments then ''infra''
      else if seg \<in> domain_segments then ''domain'' else [])"

text \<open>The walk over the segments, with the best layer so far.\<close>

fun walk_segments :: "string \<Rightarrow> string list \<Rightarrow> string" where
  "walk_segments best [] = best"
| "walk_segments best (seg # segs) =
     (let layer = segmentLayer seg
      in if layer = [] then walk_segments best segs
         else if layer = ''application'' then ''application''
         else let best = (if layer = ''infra'' \<and> best \<noteq> ''infra'' then ''infra'' else best);
                  best = (if layer = ''domain'' \<and> best = [] then ''domain'' else best)
              in walk_segments best segs)"

definition LayerOf :: "string \<Rightarrow> string" where
  "LayerOf fqn =
     (let segs = strings_Split fqn backslash;
          l = last segs
      in if hd segs \<in> {''Tests'', ''Test''} then ''test''
         else if HasSuffix l ''Test'' \<or> HasSuffix l ''Tests'' \<or> HasSuffix l ''TestCase'' then ''test''
         else walk_segments [] segs)"

definition isPHPGraph :: "Module list \<Rightarrow> bool" where
  "isPHPGraph ms \<longleftrightarrow> (\<exists>m \<in> set ms. is_php m)"

definition classifyPHP :: "Graph \<Rightarrow> Module list \<Rightarrow> Classification" where
  "classifyPHP g all =
     (let unmatched = filter (\<lambda>m. LayerOf m \<notin> {''test'', ''application'', ''infra'', ''domain''}) all
      in \<lparr> cl_Infra = filter (\<lambda>m. LayerOf m \<in> {''application'', ''infra''}) all @
                      filter (is_hub g unmatched) unmatched,
           cl_Domain = filter (\<lambda>m. LayerOf m = ''domain'') all @
                       filter (\<lambda>m. \<not> is_hub g unmatched m) unmatched,
           cl_Tests = filter (\<lambda>m. LayerOf m = ''test'') all, cl_StructuralFallback = False \<rparr>)"

definition detect_php_aware :: "Graph \<Rightarrow> Module list \<Rightarrow> Classification" where
  "detect_php_aware g all = (if isPHPGraph all then classifyPHP g all else detect_modules g all)"

definition PHPAware_Detect :: "Graph \<Rightarrow> Classification" where
  "PHPAware_Detect g = detect_php_aware g (AllModules g)"

section \<open>The classification is a partition\<close>

text \<open>All modules of a classification, with their multiplicity.\<close>

definition classified :: "Classification \<Rightarrow> Module multiset" where
  "classified c = mset (cl_Infra c) + mset (cl_Domain c) + mset (cl_Tests c)"

lemma mset_filter_split: "mset (filter P xs) + mset (filter (\<lambda>x. \<not> P x) xs) = mset xs"
  by (simp add: multiset_partition [symmetric])

lemma mset_filter3:
  assumes "\<And>x. x \<in> set xs \<Longrightarrow> \<not> P x \<Longrightarrow> \<not> Q x \<Longrightarrow> R x" and "\<And>x. P x \<Longrightarrow> \<not> Q x \<and> \<not> R x" and "\<And>x. Q x \<Longrightarrow> \<not> R x"
  shows "mset (filter P xs) + mset (filter Q xs) + mset (filter R xs) = mset xs"
proof (rule multiset_eqI)
  fix x
  show "count (mset (filter P xs) + mset (filter Q xs) + mset (filter R xs)) x = count (mset xs) x"
    using assms [of x] by (auto simp: count_mset_0_iff)
qed

lemma classified_fan_in: "classified (classifyByFanIn g all) = mset all"
proof -
  let ?nt = "filter (\<lambda>m. \<not> isTestModule m) all"
  have "mset (filter (is_hub g ?nt) ?nt) + mset (filter (\<lambda>m. \<not> is_hub g ?nt m) ?nt) = mset ?nt"
    by (rule mset_filter_split)
  moreover have "mset ?nt + mset (filter isTestModule all) = mset all"
    using mset_filter_split [of isTestModule all] by (simp add: union_commute)
  ultimately show ?thesis by (simp add: classified_def classifyByFanIn_def Let_def)
qed

lemma classified_groups:
  "mset (filter (\<lambda>m. \<not> T m \<and> m \<notin> G) all) + mset (filter (\<lambda>m. \<not> T m \<and> m \<in> G) all) + mset (filter T all) = mset all"
  by (rule mset_filter3) auto

lemma classified_detect: "classified (detect_modules g all) = mset all"
proof (cases "blueprintGroups all = []")
  case True
  then show ?thesis by (simp add: detect_modules_def classified_fan_in)
next
  case False
  then show ?thesis
    using classified_groups [of isTestModule "{m. groupOf m \<in> set (blueprintGroups all)}" all]
    by (simp add: detect_modules_def classified_def)
qed

text \<open>The four layers are the only answers of \<^verbatim>\<open>LayerOf\<close>, and the walk keeps the priority: the
  layers of the segments are compared as application over infra over domain.\<close>

definition layer_of_segments :: "string list \<Rightarrow> string" where
  "layer_of_segments segs =
     (let ls = map segmentLayer segs
      in if ''application'' \<in> set ls then ''application''
         else if ''infra'' \<in> set ls then ''infra''
         else if ''domain'' \<in> set ls then ''domain'' else [])"

lemma segmentLayer_cases: "segmentLayer s \<in> {[], ''application'', ''infra'', ''domain''}"
  by (simp add: segmentLayer_def)

lemma layer_of_segments_cases: "layer_of_segments segs \<in> {[], ''application'', ''infra'', ''domain''}"
  by (simp add: layer_of_segments_def Let_def)

lemma layer_of_segments_Cons:
  "layer_of_segments (s # segs) =
     (if segmentLayer s = ''application'' \<or> layer_of_segments segs = ''application'' then ''application''
      else if segmentLayer s = ''infra'' \<or> layer_of_segments segs = ''infra'' then ''infra''
      else if segmentLayer s = ''domain'' then ''domain'' else layer_of_segments segs)"
  by (simp add: layer_of_segments_def Let_def)

lemma walk_segments_best:
  "b \<in> {[], ''infra'', ''domain''} \<Longrightarrow>
   walk_segments b segs =
     (if layer_of_segments segs = ''application'' then ''application''
      else if b = ''infra'' \<or> layer_of_segments segs = ''infra'' then ''infra''
      else if b = ''domain'' then b else layer_of_segments segs)"
proof (induction segs arbitrary: b)
  case Nil
  then show ?case by (simp add: layer_of_segments_def) blast
next
  case (Cons s segs)
  from segmentLayer_cases [of s] consider "segmentLayer s = []" | "segmentLayer s = ''application''"
    | "segmentLayer s = ''infra''" | "segmentLayer s = ''domain''" by blast
  then show ?case
  proof cases
    case 1
    then show ?thesis using Cons by (simp add: layer_of_segments_Cons)
  next
    case 2
    then show ?thesis by (simp add: layer_of_segments_Cons)
  next
    case 3
    then show ?thesis using Cons.IH [of "''infra''"] by (simp add: layer_of_segments_Cons Let_def)
  next
    case 4
    then show ?thesis
      using Cons.IH [of "''infra''"] Cons.IH [of "''domain''"] Cons.prems
      by (elim insertE) (simp_all add: layer_of_segments_Cons Let_def)
  qed
qed

lemma walk_segments_layer: "walk_segments [] segs = layer_of_segments segs"
  using walk_segments_best [of "[]" segs] by auto

lemma segmentLayer_iff:
  "segmentLayer s = ''application'' \<longleftrightarrow> s \<in> application_segments"
  "segmentLayer s = ''infra'' \<longleftrightarrow> s \<notin> application_segments \<and> s \<in> infra_segments"
  "segmentLayer s = ''domain'' \<longleftrightarrow> s \<notin> application_segments \<and> s \<notin> infra_segments \<and> s \<in> domain_segments"
  by (simp_all add: segmentLayer_def)

lemma layer_of_segments_sets:
  "layer_of_segments segs =
     (if \<exists>s \<in> set segs. s \<in> application_segments then ''application''
      else if \<exists>s \<in> set segs. s \<in> infra_segments then ''infra''
      else if \<exists>s \<in> set segs. s \<in> domain_segments then ''domain'' else [])"
proof -
  have mem: "l \<in> set (map segmentLayer segs) \<longleftrightarrow> (\<exists>s \<in> set segs. segmentLayer s = l)" for l by auto
  show ?thesis
    unfolding layer_of_segments_def Let_def mem segmentLayer_iff by (intro if_cong refl) auto
qed

lemma classified_php: "classified (classifyPHP g all) = mset all"
proof -
  let ?un = "filter (\<lambda>m. LayerOf m \<notin> {''test'', ''application'', ''infra'', ''domain''}) all"
  have un: "mset (filter (is_hub g ?un) ?un) + mset (filter (\<lambda>m. \<not> is_hub g ?un m) ?un) = mset ?un"
    by (rule mset_filter_split)
  have "mset (filter (\<lambda>m. LayerOf m \<in> {''application'', ''infra''}) all) +
      mset (filter (\<lambda>m. LayerOf m = ''domain'' \<or> m \<in> set ?un) all) + mset (filter (\<lambda>m. LayerOf m = ''test'') all) = mset all"
    by (rule mset_filter3) auto
  moreover have "mset (filter (\<lambda>m. LayerOf m = ''domain'') all) + mset ?un =
      mset (filter (\<lambda>m. LayerOf m = ''domain'' \<or> m \<in> set ?un) all)"
    by (rule multiset_eqI) (auto simp: count_mset_0_iff)
  ultimately show ?thesis
    unfolding classified_def classifyPHP_def Let_def
    by (simp only: Classification.simps mset_append un [symmetric] ac_simps)
qed

section \<open>The order of the modules\<close>

lemma is_hub_perm: "mset ms = mset ms' \<Longrightarrow> is_hub g ms = is_hub g ms'"
  by (rule ext) (simp add: is_hub_def hub_threshold_def mset_eq_length [of ms ms'])

lemma mset_filter_perm: "mset xs = mset ys \<Longrightarrow> mset (filter P xs) = mset (filter P ys)"
  by simp

definition same_classification :: "Classification \<Rightarrow> Classification \<Rightarrow> bool" where
  "same_classification c d \<longleftrightarrow>
     mset (cl_Infra c) = mset (cl_Infra d) \<and> mset (cl_Domain c) = mset (cl_Domain d) \<and>
     mset (cl_Tests c) = mset (cl_Tests d) \<and> cl_StructuralFallback c = cl_StructuralFallback d"

lemma blueprintGroups_perm:
  assumes "mset ms = mset ms'"
  shows "set (blueprintGroups ms) = set (blueprintGroups ms')" and "blueprintGroups ms = [] \<longleftrightarrow> blueprintGroups ms' = []"
proof -
  from assms have "set ms = set ms'" by (rule mset_eq_setD)
  then show "set (blueprintGroups ms) = set (blueprintGroups ms')" and "blueprintGroups ms = [] \<longleftrightarrow> blueprintGroups ms' = []"
    by (simp_all add: blueprintGroups_def filter_empty_conv)
qed

lemma fan_in_perm:
  assumes "mset ms = mset ms'"
  shows "same_classification (classifyByFanIn g ms) (classifyByFanIn g ms')"
  using is_hub_perm [OF mset_filter_perm [OF assms], of g "\<lambda>m. \<not> isTestModule m"] assms
  by (simp add: same_classification_def classifyByFanIn_def Let_def del: filter_filter)

lemma detect_perm:
  assumes "mset ms = mset ms'"
  shows "same_classification (detect_modules g ms) (detect_modules g ms')"
  using fan_in_perm [OF assms, of g] blueprintGroups_perm [OF assms] assms
  by (simp add: detect_modules_def same_classification_def)

lemma php_perm:
  assumes "mset ms = mset ms'"
  shows "same_classification (classifyPHP g ms) (classifyPHP g ms')"
proof -
  let ?un = "\<lambda>m. LayerOf m \<notin> {''test'', ''application'', ''infra'', ''domain''}"
  have "is_hub g (filter ?un ms) = is_hub g (filter ?un ms')"
    by (rule is_hub_perm [OF mset_filter_perm [OF assms]])
  with assms show ?thesis
    unfolding same_classification_def classifyPHP_def Let_def by (simp only: Classification.simps mset_append mset_filter)
qed

section \<open>Properties\<close>

text \<open>
  The detector of stage 2 returns a partition: every module of the import graph is in exactly one of
  the three lists (infrastructure, domain, tests), once, and no list holds anything else, whichever of the
  three strategies (blueprint groups, fan-in, PHP namespaces) the graph selects.
\<close>
theorem detect_partition:
  "mset (cl_Infra (PHPAware_Detect g)) + mset (cl_Domain (PHPAware_Detect g)) + mset (cl_Tests (PHPAware_Detect g))
     = mset_set (edge_From ` set g \<union> edge_To ` set g)"
proof -
  have "classified (PHPAware_Detect g) = mset (AllModules g)"
    by (simp add: PHPAware_Detect_def detect_php_aware_def classified_php classified_detect)
  also have "\<dots> = mset_set (edge_From ` set g \<union> edge_To ` set g)"
    by (simp add: mset_set_set [OF distinct_AllModules, symmetric] set_AllModules)
  finally show ?thesis by (simp add: classified_def)
qed

text \<open>
  The classification does not depend on the order in which Go's map iteration lists the modules: two
  orders of the same modules give the same three multisets and the same structural-fallback flag.
\<close>
theorem detect_order_irrelevant:
  assumes "mset ms = mset ms'"
  shows "same_classification (detect_php_aware g ms) (detect_php_aware g ms')"
proof -
  have "isPHPGraph ms \<longleftrightarrow> isPHPGraph ms'" using mset_eq_setD [OF assms] by (simp add: isPHPGraph_def)
  then show ?thesis by (simp add: detect_php_aware_def php_perm [OF assms] detect_perm [OF assms])
qed

definition flask_graph :: Graph where
  "flask_graph =
     [\<lparr> edge_From = ''conduit.user.views'', edge_To = ''conduit.user.models'', edge_Weight = 3 \<rparr>,
      \<lparr> edge_From = ''conduit.user.models'', edge_To = ''conduit.database'', edge_Weight = 1 \<rparr>,
      \<lparr> edge_From = ''tests.test_user'', edge_To = ''conduit.user.models'', edge_Weight = 1 \<rparr>]"

theorem detect_order_irrelevant_witness:
  "same_classification
     (detect_php_aware flask_graph [''conduit.user.views'', ''conduit.database'', ''tests.test_user''])
     (detect_php_aware flask_graph [''tests.test_user'', ''conduit.user.views'', ''conduit.database''])"
  by (rule detect_order_irrelevant) simp

text \<open>
  The single pass of \<^verbatim>\<open>phpclassify.LayerOf\<close> computes the documented priority: test over application over
  infra over domain, where a layer counts when any namespace segment belongs to it, and the empty layer
  when none does.
\<close>
theorem LayerOf_priority:
  "LayerOf fqn =
     (let segs = strings_Split fqn backslash
      in if hd segs \<in> {''Tests'', ''Test''} \<or>
            (\<exists>suf \<in> {''Test'', ''Tests'', ''TestCase''}. HasSuffix (last segs) suf) then ''test''
         else if \<exists>s \<in> set segs. s \<in> application_segments then ''application''
         else if \<exists>s \<in> set segs. s \<in> infra_segments then ''infra''
         else if \<exists>s \<in> set segs. s \<in> domain_segments then ''domain'' else [])"
  unfolding LayerOf_def Let_def walk_segments_layer layer_of_segments_sets by simp

end
