(* ===== verification/Undirected_Graph.thy ===== *)
theory Undirected_Graph
  imports Infra_Detection "HOL-Library.AList"
begin

text \<open>
  The weighted undirected graph of the Louvain clusterer and its modularity
  (\<^verbatim>\<open>louvain_clusterer.go\<close>). A Go map is an association list in order of insertion, with the zero value for a
  missing key. The weights are sums of unsigned 32-bit edge weights and of four times such a sum, integers that
  a \<^verbatim>\<open>float64\<close> holds exactly below 2 to the 53: the model adds them exactly, as rational numbers. Where the code
  divides, the rounding is the argument \<open>fl\<close>; exact arithmetic is \<open>fl = (\<lambda>x. x)\<close>.
\<close>

section \<open>Maps with a zero value\<close>

definition lkp :: "'v \<Rightarrow> ('k \<times> 'v) list \<Rightarrow> 'k \<Rightarrow> 'v" where
  "lkp d xs k = (case map_of xs k of Some v \<Rightarrow> v | None \<Rightarrow> d)"

lemma lkp_Nil [simp]: "lkp d [] k = d"
  by (simp add: lkp_def)

lemma lkp_Cons [simp]: "lkp d ((k', v) # xs) k = (if k = k' then v else lkp d xs k)"
  by (simp add: lkp_def)

lemma lkp_update [simp]: "lkp d (AList.update k v xs) j = (if j = k then v else lkp d xs j)"
  by (simp add: lkp_def update_conv')

lemma lkp_outside [simp]: "k \<notin> fst ` set xs \<Longrightarrow> lkp d xs k = d"
  by (simp add: lkp_def map_of_eq_None_iff [THEN iffD2])

lemma lkp_member: "distinct (map fst xs) \<Longrightarrow> (k, v) \<in> set xs \<Longrightarrow> lkp d xs k = v"
  by (simp add: lkp_def)

lemma lkp_append: "lkp d (xs @ ys) k = (if k \<in> fst ` set xs then lkp d xs k else lkp d ys k)"
  using map_of_eq_None_iff [of xs k] by (cases "map_of xs k") (simp_all add: lkp_def map_add_def split: option.split)

lemma keys_update [simp]: "fst ` set (AList.update k v xs) = insert k (fst ` set xs)"
  by (induction xs) auto

lemma sum_list_update:
  fixes f :: "'v \<Rightarrow> rat"
  assumes "distinct (map fst xs)" and "f d = 0"
  shows "(\<Sum>(k, v) \<leftarrow> AList.update j v' xs. f v) = (\<Sum>(k, v) \<leftarrow> xs. f v) - f (lkp d xs j) + f v'"
  using assms(1) by (induction xs) (auto simp: assms(2))

lemma alist_sum:
  fixes f :: "'k \<Rightarrow> 'v \<Rightarrow> rat"
  assumes "distinct (map fst xs)"
  shows "(\<Sum>(k, v) \<leftarrow> xs. f k v) = (\<Sum>k \<in> fst ` set xs. f k (lkp d xs k))"
  using assms
proof (induction xs)
  case (Cons x xs)
  obtain k v where x: "x = (k, v)" by fastforce
  with Cons.prems have k: "k \<notin> fst ` set xs" by simp
  then have "(\<Sum>j \<in> fst ` set xs. f j (lkp d (x # xs) j)) = (\<Sum>j \<in> fst ` set xs. f j (lkp d xs j))"
    by (intro sum.cong) (auto simp: x)
  with Cons k show ?case by (simp add: x)
qed simp

section \<open>The graph\<close>

record undirectedGraph =
  ug_adj :: "(string \<times> (string \<times> rat) list) list"
  ug_deg :: "(string \<times> rat) list"
  ug_m :: rat

definition newUndirectedGraph :: undirectedGraph where
  "newUndirectedGraph = \<lparr> ug_adj = [], ug_deg = [], ug_m = 0 \<rparr>"

definition ensure :: "string \<Rightarrow> undirectedGraph \<Rightarrow> undirectedGraph" where
  "ensure n g = (if n \<in> fst ` set (ug_adj g) then g else g\<lparr>ug_adj := ug_adj g @ [(n, [])]\<rparr>)"

text \<open>\<^verbatim>\<open>adj[a][b] += w\<close>, where \<^verbatim>\<open>adj[a]\<close> exists, and \<^verbatim>\<open>deg[a] += w\<close>.\<close>

definition add_adj :: "string \<Rightarrow> string \<Rightarrow> rat \<Rightarrow> undirectedGraph \<Rightarrow> undirectedGraph" where
  "add_adj a b w g =
     (let ns = lkp [] (ug_adj g) a
      in g\<lparr>ug_adj := AList.update a (AList.update b (lkp 0 ns b + w) ns) (ug_adj g)\<rparr>)"

definition add_deg :: "string \<Rightarrow> rat \<Rightarrow> undirectedGraph \<Rightarrow> undirectedGraph" where
  "add_deg a w g = g\<lparr>ug_deg := AList.update a (lkp 0 (ug_deg g) a + w) (ug_deg g)\<rparr>"

definition addEdge :: "string \<Rightarrow> string \<Rightarrow> rat \<Rightarrow> undirectedGraph \<Rightarrow> undirectedGraph" where
  "addEdge a b w g =
     (if a = b then g
      else let g = ensure b (ensure a g);
               g = add_adj b a w (add_adj a b w g);
               g = add_deg b w (add_deg a w g)
           in g\<lparr>ug_m := ug_m g + w\<rparr>)"

definition cloneGraph :: "undirectedGraph \<Rightarrow> undirectedGraph" where
  "cloneGraph src =
     \<lparr> ug_adj = ug_adj src,
       ug_deg = map (\<lambda>(n, nbrs). (n, lkp 0 (ug_deg src) n)) (ug_adj src),
       ug_m = ug_m src \<rparr>"

section \<open>Well-formed graphs\<close>

definition nodes :: "undirectedGraph \<Rightarrow> string list" where
  "nodes g = map fst (ug_adj g)"

definition nbrs :: "undirectedGraph \<Rightarrow> string \<Rightarrow> (string \<times> rat) list" where
  "nbrs g a = lkp [] (ug_adj g) a"

definition weight :: "undirectedGraph \<Rightarrow> string \<Rightarrow> string \<Rightarrow> rat" where
  "weight g a b = lkp 0 (nbrs g a) b"

definition degree :: "undirectedGraph \<Rightarrow> string \<Rightarrow> rat" where
  "degree g a = lkp 0 (ug_deg g) a"

definition nbr_sum :: "(string \<times> rat) list \<Rightarrow> rat" where
  "nbr_sum ns = (\<Sum>(b, w) \<leftarrow> ns. w)"

definition ug_ok :: "undirectedGraph \<Rightarrow> bool" where
  "ug_ok g \<longleftrightarrow>
     distinct (nodes g) \<and> (\<forall>a. distinct (map fst (nbrs g a))) \<and>
     (\<forall>a b. b \<in> fst ` set (nbrs g a) \<longleftrightarrow> a \<in> fst ` set (nbrs g b)) \<and>
     (\<forall>a. a \<notin> fst ` set (nbrs g a)) \<and> (\<forall>a. fst ` set (nbrs g a) \<subseteq> set (nodes g)) \<and>
     (\<forall>a b. weight g a b = weight g b a) \<and> (\<forall>a b. 0 \<le> weight g a b) \<and>
     (\<forall>a. degree g a = nbr_sum (nbrs g a)) \<and>
     2 * ug_m g = (\<Sum>(a, ns) \<leftarrow> ug_adj g. nbr_sum ns)"

lemma ug_okI:
  assumes "distinct (nodes g)" and "\<And>a. distinct (map fst (nbrs g a))"
    and "\<And>a b. b \<in> fst ` set (nbrs g a) \<longleftrightarrow> a \<in> fst ` set (nbrs g b)"
    and "\<And>a. a \<notin> fst ` set (nbrs g a)" and "\<And>a. fst ` set (nbrs g a) \<subseteq> set (nodes g)"
    and "\<And>a b. weight g a b = weight g b a" and "\<And>a b. 0 \<le> weight g a b"
    and "\<And>a. degree g a = nbr_sum (nbrs g a)" and "2 * ug_m g = (\<Sum>(a, ns) \<leftarrow> ug_adj g. nbr_sum ns)"
  shows "ug_ok g"
  using assms unfolding ug_ok_def by blast

lemma ug_okD:
  assumes "ug_ok g"
  shows "distinct (nodes g)" and "distinct (map fst (nbrs g a))"
    and "b \<in> fst ` set (nbrs g a) \<longleftrightarrow> a \<in> fst ` set (nbrs g b)"
    and "a \<notin> fst ` set (nbrs g a)" and "fst ` set (nbrs g a) \<subseteq> set (nodes g)"
    and "weight g a b = weight g b a" and "0 \<le> weight g a b"
    and "degree g a = nbr_sum (nbrs g a)" and "2 * ug_m g = (\<Sum>(a, ns) \<leftarrow> ug_adj g. nbr_sum ns)"
  using assms unfolding ug_ok_def by - (elim conjE, (assumption | erule spec | (erule allE, erule spec)))+

lemma nbr_sum_Nil [simp]: "nbr_sum [] = 0"
  by (simp add: nbr_sum_def)

lemma nbr_sum_update:
  "distinct (map fst ns) \<Longrightarrow> nbr_sum (AList.update b v ns) = nbr_sum ns - lkp 0 ns b + v"
  unfolding nbr_sum_def using sum_list_update [where f = "\<lambda>w. w" and d = 0 and xs = ns] by simp

lemma new_ok: "ug_ok newUndirectedGraph"
  by (rule ug_okI) (simp_all add: newUndirectedGraph_def nodes_def nbrs_def weight_def degree_def)

lemma ensure_view [simp]:
  "set (nodes (ensure n g)) = insert n (set (nodes g))" "nbrs (ensure n g) = nbrs g"
  "weight (ensure n g) = weight g" "degree (ensure n g) = degree g" "ug_m (ensure n g) = ug_m g"
proof -
  show "set (nodes (ensure n g)) = insert n (set (nodes g))" by (auto simp: ensure_def nodes_def)
  show nb: "nbrs (ensure n g) = nbrs g" by (rule ext) (simp add: ensure_def nbrs_def lkp_append)
  then show "weight (ensure n g) = weight g" by (simp add: weight_def fun_eq_iff)
  show "degree (ensure n g) = degree g" "ug_m (ensure n g) = ug_m g"
    by (simp_all add: ensure_def degree_def fun_eq_iff)
qed

lemma ensure_ok: "ug_ok g \<Longrightarrow> ug_ok (ensure n g)"
proof -
  assume ok: "ug_ok g"
  have "distinct (nodes (ensure n g))" using ug_okD(1) [OF ok] by (auto simp: ensure_def nodes_def)
  moreover have "(\<Sum>(a, ns) \<leftarrow> ug_adj (ensure n g). nbr_sum ns) = (\<Sum>(a, ns) \<leftarrow> ug_adj g. nbr_sum ns)"
    by (simp add: ensure_def)
  ultimately show ?thesis
    using ok unfolding ug_ok_def ensure_view by (metis subset_insertI2)
qed

text \<open>The effect of one edge on every view of the graph.\<close>

definition on_edge :: "string \<Rightarrow> string \<Rightarrow> string \<Rightarrow> string \<Rightarrow> bool" where
  "on_edge a b x y \<longleftrightarrow> (x = a \<and> y = b) \<or> (x = b \<and> y = a)"

lemma nbrs_add_adj:
  "nbrs (add_adj a b w g) x = (if x = a then AList.update b (weight g a b + w) (nbrs g a) else nbrs g x)"
  by (simp add: add_adj_def nbrs_def weight_def Let_def)

lemma add_adj_view [simp]:
  "degree (add_adj a b w g) = degree g" "ug_m (add_adj a b w g) = ug_m g"
  "degree (add_deg a w g) x = (if x = a then degree g a + w else degree g x)" "ug_m (add_deg a w g) = ug_m g"
  "nbrs (add_deg a w g) = nbrs g" "nodes (add_deg a w g) = nodes g" "ug_adj (add_deg a w g) = ug_adj g"
  by (simp_all add: add_adj_def add_deg_def degree_def nbrs_def nodes_def Let_def fun_eq_iff)

lemma nodes_add_adj: "a \<in> set (nodes g) \<Longrightarrow> nodes (add_adj a b w g) = nodes g"
  by (simp add: add_adj_def nodes_def Let_def update_keys)

lemma weight_add_adj: "weight (add_adj a b w g) x y = (if x = a \<and> y = b then weight g a b + w else weight g x y)"
  by (simp add: weight_def [of "add_adj a b w g"] nbrs_add_adj) (simp add: weight_def)

lemma adj_sum_add_adj:
  assumes "distinct (nodes g)" and "distinct (map fst (nbrs g a))"
  shows "(\<Sum>(x, ns) \<leftarrow> ug_adj (add_adj a b w g). nbr_sum ns) = (\<Sum>(x, ns) \<leftarrow> ug_adj g. nbr_sum ns) + w"
proof -
  have "(\<Sum>(x, ns) \<leftarrow> ug_adj (add_adj a b w g). nbr_sum ns) =
      (\<Sum>(x, ns) \<leftarrow> ug_adj g. nbr_sum ns) - nbr_sum (nbrs g a) + nbr_sum (AList.update b (weight g a b + w) (nbrs g a))"
    using sum_list_update [where f = nbr_sum and d = "[]" and xs = "ug_adj g" and j = a] assms(1)
    by (simp add: add_adj_def nodes_def nbrs_def weight_def Let_def)
  then show ?thesis using assms(2) by (simp add: nbr_sum_update weight_def)
qed

text \<open>Adding an edge between two different nodes.\<close>

lemma addEdge_view:
  assumes "a \<noteq> b"
  shows "set (nodes (addEdge a b w g)) = insert a (insert b (set (nodes g)))"
    and "nbrs (addEdge a b w g) x =
      (if x = a then AList.update b (weight g a b + w) (nbrs g a)
       else if x = b then AList.update a (weight g b a + w) (nbrs g b) else nbrs g x)"
    and "weight (addEdge a b w g) x y = weight g x y + (if on_edge a b x y then w else 0)"
    and "degree (addEdge a b w g) x = degree g x + (if x = a \<or> x = b then w else 0)"
    and "ug_m (addEdge a b w g) = ug_m g + w"
proof -
  let ?h = "add_adj b a w (add_adj a b w (ensure b (ensure a g)))"
  have e: "addEdge a b w g = (add_deg b w (add_deg a w ?h))\<lparr>ug_m := ug_m g + w\<rparr>"
    using assms by (simp add: addEdge_def Let_def)
  have nd: "nodes (addEdge a b w g) = nodes (ensure b (ensure a g))"
    using assms by (simp add: e nodes_def [of "ug_m_update _ _"] nodes_def [symmetric] nodes_add_adj)
  then show "set (nodes (addEdge a b w g)) = insert a (insert b (set (nodes g)))" by auto
  have nb: "nbrs (addEdge a b w g) x = nbrs ?h x" for x
    by (simp add: e nbrs_def [of "ug_m_update _ _"] nbrs_def [symmetric])
  show nbx: "nbrs (addEdge a b w g) x =
      (if x = a then AList.update b (weight g a b + w) (nbrs g a)
       else if x = b then AList.update a (weight g b a + w) (nbrs g b) else nbrs g x)" for x
    using assms by (simp add: nb nbrs_add_adj weight_add_adj)
  show "weight (addEdge a b w g) x y = weight g x y + (if on_edge a b x y then w else 0)"
    using assms unfolding weight_def [of "addEdge a b w g"] nbx by (auto simp: weight_def on_edge_def)
  show "degree (addEdge a b w g) x = degree g x + (if x = a \<or> x = b then w else 0)"
    using assms by (simp add: e degree_def [of "ug_m_update _ _"] degree_def [symmetric])
  show "ug_m (addEdge a b w g) = ug_m g + w" by (simp add: e)
qed

lemma distinct_keys_update: "distinct (map fst xs) \<Longrightarrow> distinct (map fst (AList.update k v xs))"
  by (rule distinct_update)

lemma addEdge_sum:
  assumes ok: "ug_ok g" and ab: "a \<noteq> b"
  shows "distinct (nodes (addEdge a b w g))"
    and "(\<Sum>(x, ns) \<leftarrow> ug_adj (addEdge a b w g). nbr_sum ns) = (\<Sum>(x, ns) \<leftarrow> ug_adj g. nbr_sum ns) + 2 * w"
proof -
  let ?e = "ensure b (ensure a g)"
  let ?h = "add_adj a b w ?e"
  have e: "ug_ok ?e" using ok by (intro ensure_ok)
  have nh: "nodes ?h = nodes ?e" by (rule nodes_add_adj) simp
  have d: "distinct (map fst (nbrs ?h b))" using ug_okD(2) [OF e] ab by (simp add: nbrs_add_adj)
  have adj: "ug_adj (addEdge a b w g) = ug_adj (add_adj b a w ?h)" using ab by (simp add: addEdge_def Let_def)
  have "(\<Sum>(x, ns) \<leftarrow> ug_adj (add_adj b a w ?h). nbr_sum ns) = (\<Sum>(x, ns) \<leftarrow> ug_adj ?e. nbr_sum ns) + w + w"
    using adj_sum_add_adj [of ?h b a w] adj_sum_add_adj [of ?e a b w] d ug_okD(1,2) [OF e] nh by simp
  moreover have "(\<Sum>(x, ns) \<leftarrow> ug_adj ?e. nbr_sum ns) = (\<Sum>(x, ns) \<leftarrow> ug_adj g. nbr_sum ns)"
    using ug_okD(9) [OF e] ug_okD(9) [OF ok] by simp
  ultimately show "(\<Sum>(x, ns) \<leftarrow> ug_adj (addEdge a b w g). nbr_sum ns) = (\<Sum>(x, ns) \<leftarrow> ug_adj g. nbr_sum ns) + 2 * w"
    by (simp add: adj)
  have "nodes (add_adj b a w ?h) = nodes ?e" using nodes_add_adj [of b ?h a w] nh by simp
  then have "nodes (addEdge a b w g) = nodes ?e" by (simp add: nodes_def adj)
  then show "distinct (nodes (addEdge a b w g))" using ug_okD(1) [OF e] by simp
qed

lemma addEdge_ok:
  assumes ok: "ug_ok g" and "0 \<le> w"
  shows "ug_ok (addEdge a b w g)"
proof (cases "a = b")
  case True
  then show ?thesis using ok by (simp add: addEdge_def)
next
  case ab: False
  note view = addEdge_view [OF ab, where g = g and w = w]
  note okD = ug_okD [OF ok]
  show ?thesis
  proof (rule ug_okI)
    show "distinct (nodes (addEdge a b w g))" by (rule addEdge_sum(1) [OF ok ab])
    fix x y
    show "distinct (map fst (nbrs (addEdge a b w g) x))" using okD(2) by (simp add: view(2) distinct_keys_update)
    show "y \<in> fst ` set (nbrs (addEdge a b w g) x) \<longleftrightarrow> x \<in> fst ` set (nbrs (addEdge a b w g) y)"
      using ab okD(3) [of y x] by (auto simp: view(2))
    show "x \<notin> fst ` set (nbrs (addEdge a b w g) x)" using ab okD(4) [of x] by (auto simp: view(2))
    show "fst ` set (nbrs (addEdge a b w g) x) \<subseteq> set (nodes (addEdge a b w g))"
      using okD(5) [of x] by (auto simp: view(1,2))
    show "weight (addEdge a b w g) x y = weight (addEdge a b w g) y x"
      using okD(6) [of x y] by (auto simp: view(3) on_edge_def)
    show "0 \<le> weight (addEdge a b w g) x y" using okD(7) [of x y] assms(2) by (simp add: view(3))
    show "degree (addEdge a b w g) x = nbr_sum (nbrs (addEdge a b w g) x)"
      using ab okD(2) [of x] okD(8) [of x] by (auto simp: view(2,4) nbr_sum_update weight_def)
    show "2 * ug_m (addEdge a b w g) = (\<Sum>(a, ns) \<leftarrow> ug_adj (addEdge a b w g). nbr_sum ns)"
      using okD(9) addEdge_sum(2) [OF ok ab, of w] by (simp add: view(5))
  qed
qed

lemma cloneGraph_view:
  assumes "ug_ok g"
  shows "nodes (cloneGraph g) = nodes g" "nbrs (cloneGraph g) = nbrs g" "weight (cloneGraph g) = weight g"
    "degree (cloneGraph g) = degree g" "ug_m (cloneGraph g) = ug_m g"
proof -
  show "nodes (cloneGraph g) = nodes g" by (simp add: cloneGraph_def nodes_def)
  show nb: "nbrs (cloneGraph g) = nbrs g" by (simp add: cloneGraph_def nbrs_def fun_eq_iff)
  then show "weight (cloneGraph g) = weight g" by (simp add: weight_def fun_eq_iff)
  show "ug_m (cloneGraph g) = ug_m g" by (simp add: cloneGraph_def)
  show "degree (cloneGraph g) = degree g"
  proof
    fix a
    have img: "fst ` set (map (\<lambda>(n, ns). (n, lkp 0 (ug_deg g) n)) (ug_adj g)) = set (nodes g)"
      by (force simp: nodes_def)
    have "lkp 0 (map (\<lambda>(n, ns). (n, lkp 0 (ug_deg g) n)) adj) a = (if a \<in> fst ` set adj then degree g a else 0)"
      for adj :: "(string \<times> (string \<times> rat) list) list"
      by (induction adj) (simp_all add: degree_def split: prod.splits)
    moreover have "a \<notin> set (nodes g) \<Longrightarrow> degree g a = 0"
      using ug_okD(8) [OF assms, of a] by (simp add: nbrs_def nodes_def)
    ultimately show "degree (cloneGraph g) a = degree g a"
      by (auto simp: cloneGraph_def degree_def [of "undirectedGraph_ext _ _ _ _"] nodes_def)
  qed
qed

lemma cloneGraph_ok: "ug_ok g \<Longrightarrow> ug_ok (cloneGraph g)"
  unfolding ug_ok_def [of "cloneGraph g"] by (simp add: cloneGraph_view) (simp add: ug_ok_def cloneGraph_def)

section \<open>Sums over sets of nodes\<close>

lemma weight_outside: "b \<notin> fst ` set (nbrs g a) \<Longrightarrow> weight g a b = 0"
  by (simp add: weight_def)

lemma weight_nonzero: "weight g a b \<noteq> 0 \<Longrightarrow> b \<in> fst ` set (nbrs g a)"
  using weight_outside by blast

lemma nbrs_sum:
  assumes ok: "ug_ok g" and N: "finite N" "set (nodes g) \<subseteq> N"
  shows "(\<Sum>(b, w) \<leftarrow> nbrs g a. if P b then w else 0) = (\<Sum>b \<in> N. if P b then weight g a b else 0)"
proof -
  have "(\<Sum>(b, w) \<leftarrow> nbrs g a. if P b then w else 0) =
      (\<Sum>b \<in> fst ` set (nbrs g a). if P b then weight g a b else 0)"
    unfolding weight_def by (rule alist_sum [OF ug_okD(2) [OF ok]])
  also have "\<dots> = (\<Sum>b \<in> N. if P b then weight g a b else 0)"
    using ug_okD(5) [OF ok, of a] N by (intro sum.mono_neutral_left) (auto simp: weight_outside)
  finally show ?thesis .
qed

lemma degree_sum: "ug_ok g \<Longrightarrow> degree g a = (\<Sum>b \<in> set (nodes g). weight g a b)"
  using nbrs_sum [where g = g and N = "set (nodes g)" and a = a and P = "\<lambda>b. True"] by (simp add: ug_okD(8) nbr_sum_def)

lemma degree_nonneg: "ug_ok g \<Longrightarrow> 0 \<le> degree g a"
  by (simp add: degree_sum ug_okD(7) sum_nonneg)

lemma total_weight: "ug_ok g \<Longrightarrow> 2 * ug_m g = (\<Sum>a \<in> set (nodes g). degree g a)"
  using alist_sum [where xs = "ug_adj g" and f = "\<lambda>a ns. nbr_sum ns" and d = "[]"]
  by (simp add: ug_okD ug_okD(1) [unfolded nodes_def] nbrs_def [symmetric] nodes_def)

section \<open>Modularity\<close>

type_synonym community = "(string \<times> string) list"

abbreviation comm :: "community \<Rightarrow> string \<Rightarrow> string" where
  "comm community n \<equiv> lkp [] community n"

text \<open>The pairs of the nested loop, and the ones that the visited set lets through.\<close>

definition edge_list :: "undirectedGraph \<Rightarrow> (string \<times> string \<times> rat) list" where
  "edge_list g = concat (map (\<lambda>(a, nbrs). map (\<lambda>(b, w). (a, b, w)) nbrs) (ug_adj g))"

fun visit_once :: "(string \<times> string) list \<Rightarrow> (string \<times> string \<times> rat) list \<Rightarrow> (string \<times> string \<times> rat) list" where
  "visit_once visited [] = []"
| "visit_once visited ((a, b, w) # es) =
     (if (b, a) \<in> set visited then visit_once visited es
      else (a, b, w) # visit_once ((a, b) # visited) es)"

definition mod_lc :: "undirectedGraph \<Rightarrow> community \<Rightarrow> string \<Rightarrow> rat" where
  "mod_lc g community c =
     (\<Sum>(a, b, w) \<leftarrow> visit_once [] (edge_list g). if comm community a = comm community b \<and> comm community a = c then w else 0)"

definition mod_dc :: "undirectedGraph \<Rightarrow> community \<Rightarrow> string \<Rightarrow> rat" where
  "mod_dc g community c = (\<Sum>n \<leftarrow> nodes g. if comm community n = c then degree g n else 0)"

definition computeModularity :: "(rat \<Rightarrow> rat) \<Rightarrow> undirectedGraph \<Rightarrow> community \<Rightarrow> rat" where
  "computeModularity fl g community =
     (if ug_m g = 0 then 0
      else let twoM = 2 * ug_m g
           in foldl (\<lambda>Q c. fl (Q + fl (fl (mod_lc g community c / ug_m g) - fl ((fl (mod_dc g community c / twoM))\<^sup>2))))
                0 (remdups (map (comm community) (nodes g))))"

text \<open>The reference: Newman and Girvan's modularity as a sum over pairs of nodes.\<close>

definition modularity_pair :: "undirectedGraph \<Rightarrow> string \<Rightarrow> string \<Rightarrow> rat" where
  "modularity_pair g i j = weight g i j - degree g i * degree g j / (2 * ug_m g)"

definition modularity :: "undirectedGraph \<Rightarrow> (string \<Rightarrow> string) \<Rightarrow> rat" where
  "modularity g f =
     (\<Sum>i \<in> set (nodes g). \<Sum>j \<in> set (nodes g). if f i = f j then modularity_pair g i j else 0) / (2 * ug_m g)"

text \<open>The visited set keeps one of the two directions of every edge.\<close>

definition pair_of :: "string \<times> string \<times> rat \<Rightarrow> string \<times> string" where
  "pair_of e = (fst e, fst (snd e))"

lemma pair_of_simp [simp]: "pair_of (a, b, w) = (a, b)"
  by (simp add: pair_of_def)

lemma visit_once_subset: "set (visit_once vis es) \<subseteq> set es"
  by (induction vis es rule: visit_once.induct) auto

lemma visit_once_distinct: "distinct (map pair_of es) \<Longrightarrow> distinct (map pair_of (visit_once vis es))"
proof (induction vis es rule: visit_once.induct)
  case (2 vis a b w es)
  then have "(a, b) \<notin> pair_of ` set (visit_once ((a, b) # vis) es)"
    using visit_once_subset [of "(a, b) # vis" es] by auto
  with 2 show ?case by auto
qed simp

lemma visit_once_not_both:
  "distinct (map pair_of es) \<Longrightarrow> \<forall>a b. (a, b) \<in> pair_of ` set es \<longrightarrow> a \<noteq> b \<Longrightarrow>
   (a, b) \<in> pair_of ` set (visit_once vis es) \<Longrightarrow> (b, a) \<notin> set vis \<union> pair_of ` set (visit_once vis es)"
proof (induction vis es arbitrary: a b rule: visit_once.induct)
  case (2 vis x y w es)
  have dist: "distinct (map pair_of es)" using "2.prems"(1) by simp
  have irr: "\<forall>a b. (a, b) \<in> pair_of ` set es \<longrightarrow> a \<noteq> b" and "x \<noteq> y" using "2.prems"(2) by auto
  show ?case
  proof (cases "(y, x) \<in> set vis")
    case True
    then show ?thesis using "2.IH"(1) [OF True dist irr] "2.prems"(3) by simp
  next
    case False
    note IH = "2.IH"(2) [OF False dist irr]
    show ?thesis
    proof (cases "(a, b) = (x, y)")
      case True
      have "(y, x) \<notin> pair_of ` set (visit_once ((x, y) # vis) es)" using IH [of y x] by auto
      with True False \<open>x \<noteq> y\<close> show ?thesis by auto
    next
      case ne: False
      with "2.prems"(3) False have "(a, b) \<in> pair_of ` set (visit_once ((x, y) # vis) es)" by auto
      from IH [OF this] False ne show ?thesis by auto
    qed
  qed
qed simp

lemma visit_once_covers:
  "(a, b) \<in> pair_of ` set es \<Longrightarrow>
   (a, b) \<in> pair_of ` set (visit_once vis es) \<or> (b, a) \<in> set vis \<union> pair_of ` set (visit_once vis es)"
proof (induction vis es rule: visit_once.induct)
  case (2 vis x y w es)
  show ?case
  proof (cases "(y, x) \<in> set vis")
    case True
    then show ?thesis using 2 by auto
  next
    case False
    then show ?thesis using "2.IH"(2) [OF False] "2.prems" by auto
  qed
qed simp

lemma sum_pairs:
  fixes f :: "string \<Rightarrow> string \<Rightarrow> rat"
  assumes "distinct (map pair_of es)"
  shows "(\<Sum>(a, b, w) \<leftarrow> es. f a b) = (\<Sum>(a, b) \<in> pair_of ` set es. f a b)"
proof -
  have "(\<Sum>(a, b) \<in> pair_of ` set es. f a b) = (\<Sum>p \<leftarrow> map pair_of es. case p of (a, b) \<Rightarrow> f a b)"
    using sum_list_distinct_conv_sum_set [OF assms, where f = "\<lambda>(a, b). f a b"] by simp
  also have "\<dots> = (\<Sum>(a, b, w) \<leftarrow> es. f a b)"
    by (simp add: comp_def split_def pair_of_def)
  finally show ?thesis by simp
qed

lemma visit_once_half:
  fixes f :: "string \<Rightarrow> string \<Rightarrow> rat"
  assumes dist: "distinct (map pair_of es)" and irr: "\<forall>a b. (a, b) \<in> pair_of ` set es \<longrightarrow> a \<noteq> b"
    and sym: "\<And>a b. (a, b) \<in> pair_of ` set es \<Longrightarrow> (b, a) \<in> pair_of ` set es" and f: "\<And>a b. f a b = f b a"
  shows "2 * (\<Sum>(a, b, w) \<leftarrow> visit_once [] es. f a b) = (\<Sum>(a, b, w) \<leftarrow> es. f a b)"
proof -
  let ?S = "pair_of ` set (visit_once [] es)"
  have sub: "?S \<subseteq> pair_of ` set es" using visit_once_subset [of "[]" es] by auto
  have disj: "?S \<inter> prod.swap ` ?S = {}"
  proof (rule equals0I)
    fix p assume "p \<in> ?S \<inter> prod.swap ` ?S"
    then obtain a b where "(a, b) \<in> ?S" and "(b, a) \<in> ?S" by (metis Int_iff imageE prod.collapse swap_simp)
    then show False using visit_once_not_both [OF dist irr, where vis = "[]"] by blast
  qed
  have un: "pair_of ` set es = ?S \<union> prod.swap ` ?S"
  proof
    show "pair_of ` set es \<subseteq> ?S \<union> prod.swap ` ?S"
    proof
      fix p assume p: "p \<in> pair_of ` set es"
      obtain a b where ab: "p = (a, b)" by fastforce
      with p visit_once_covers [of a b es "[]"] have "(a, b) \<in> ?S \<or> (b, a) \<in> ?S" by auto
      then show "p \<in> ?S \<union> prod.swap ` ?S" unfolding ab by (metis UnI1 UnI2 image_eqI swap_simp)
    qed
    show "?S \<union> prod.swap ` ?S \<subseteq> pair_of ` set es"
    proof
      fix p assume "p \<in> ?S \<union> prod.swap ` ?S"
      then obtain a b where "p = (a, b)" and "(a, b) \<in> ?S \<or> (b, a) \<in> ?S"
        by (metis UnE imageE prod.collapse swap_simp)
      then show "p \<in> pair_of ` set es"
        using subsetD [OF sub, of "(a, b)"] subsetD [OF sub, of "(b, a)"] sym [of b a] by blast
    qed
  qed
  have "(\<Sum>(a, b) \<in> prod.swap ` ?S. f a b) = (\<Sum>(a, b) \<in> ?S. f a b)"
    by (subst sum.reindex) (auto simp: inj_on_def split_def f intro!: sum.cong)
  then have "(\<Sum>(a, b) \<in> pair_of ` set es. f a b) = 2 * (\<Sum>(a, b) \<in> ?S. f a b)"
    unfolding un by (subst sum.union_disjoint) (use disj in auto)
  then show ?thesis
    by (simp add: sum_pairs [OF dist] sum_pairs [OF visit_once_distinct [OF dist]])
qed

lemma distinct_pairs:
  assumes "distinct (map fst adj)" and "\<And>a ns. (a, ns) \<in> set adj \<Longrightarrow> distinct (map fst ns)"
  shows "distinct (map pair_of (concat (map (\<lambda>(a, nbrs). map (\<lambda>(b, w). (a, b, w)) nbrs) adj)))"
  using assms
proof (induction adj)
  case (Cons x adj)
  obtain a ns where x: "x = (a, ns)" by fastforce
  let ?rest = "concat (map (\<lambda>(a, nbrs). map (\<lambda>(b, w). (a, b, w)) nbrs) adj)"
  have "map pair_of (map (\<lambda>(b, w). (a, b, w)) ns) = map (Pair a) (map fst ns)" by (simp add: split_def pair_of_def)
  then have "distinct (map pair_of (map (\<lambda>(b, w). (a, b, w)) ns))"
    using Cons.prems(2) [of a ns] by (simp only: distinct_map) (simp add: x inj_on_def)
  moreover have "pair_of ` set (map (\<lambda>(b, w). (a, b, w)) ns) \<inter> pair_of ` set ?rest = {}"
  proof (rule equals0I)
    fix p assume "p \<in> pair_of ` set (map (\<lambda>(b, w). (a, b, w)) ns) \<inter> pair_of ` set ?rest"
    then have "fst p = a" and "fst p \<in> fst ` set adj" by (auto simp: pair_of_def) force
    with Cons.prems(1) show False by (simp add: x)
  qed
  moreover have "distinct (map pair_of ?rest)" using Cons.prems by (intro Cons.IH) auto
  ultimately show ?case by (simp only: x list.map concat.simps prod.case map_append distinct_append set_map)
qed simp

lemma edge_list_pairs:
  assumes "ug_ok g"
  shows "distinct (map pair_of (edge_list g))"
    and "pair_of ` set (edge_list g) = {(a, b). b \<in> fst ` set (nbrs g a)}"
    and "(a, b, w) \<in> set (edge_list g) \<Longrightarrow> w = weight g a b"
proof -
  have d: "distinct (map fst (ug_adj g))" using ug_okD(1) [OF assms] by (simp add: nodes_def)
  have ns: "(a, ns) \<in> set (ug_adj g) \<Longrightarrow> nbrs g a = ns" for a ns by (simp add: nbrs_def lkp_member [OF d])
  then show "distinct (map pair_of (edge_list g))"
    unfolding edge_list_def using ug_okD(2) [OF assms] by (intro distinct_pairs [OF d]) metis
  have mem: "(a, b, w) \<in> set (edge_list g) \<longleftrightarrow> (b, w) \<in> set (nbrs g a)" for a b w
  proof
    assume "(a, b, w) \<in> set (edge_list g)"
    then obtain ns where "(a, ns) \<in> set (ug_adj g)" "(b, w) \<in> set ns" by (auto simp: edge_list_def)
    then show "(b, w) \<in> set (nbrs g a)" by (simp add: ns)
  next
    assume bw: "(b, w) \<in> set (nbrs g a)"
    then have "a \<in> fst ` set (ug_adj g)" by (metis empty_iff list.set(1) lkp_outside nbrs_def)
    then obtain l where "(a, l) \<in> set (ug_adj g)" by auto
    moreover from this bw have "(b, w) \<in> set l" by (simp add: ns)
    ultimately show "(a, b, w) \<in> set (edge_list g)" unfolding edge_list_def by force
  qed
  show "pair_of ` set (edge_list g) = {(a, b). b \<in> fst ` set (nbrs g a)}"
  proof (rule set_eqI)
    fix p :: "string \<times> string"
    obtain a b where p: "p = (a, b)" by fastforce
    have "p \<in> pair_of ` set (edge_list g) \<longleftrightarrow> (\<exists>w. (a, b, w) \<in> set (edge_list g))" unfolding p by force
    also have "\<dots> \<longleftrightarrow> b \<in> fst ` set (nbrs g a)" unfolding mem by force
    finally show "p \<in> pair_of ` set (edge_list g) \<longleftrightarrow> p \<in> {(a, b). b \<in> fst ` set (nbrs g a)}" by (simp add: p)
  qed
  show "(a, b, w) \<in> set (edge_list g) \<Longrightarrow> w = weight g a b"
    using lkp_member [OF ug_okD(2) [OF assms]] by (simp add: mem weight_def)
qed

text \<open>The internal weight and the degree sum of a community, as sums over sets.\<close>

lemma mod_lc_sum:
  assumes ok: "ug_ok g"
  shows "2 * mod_lc g com c =
    (\<Sum>i \<in> set (nodes g). \<Sum>j \<in> set (nodes g). if comm com i = c \<and> comm com j = c then weight g i j else 0)"
proof -
  let ?f = "\<lambda>a b. if comm com a = comm com b \<and> comm com a = c then weight g a b else 0"
  let ?N = "set (nodes g)"
  note E = edge_list_pairs [OF ok]
  have irr: "\<forall>a b. (a, b) \<in> pair_of ` set (edge_list g) \<longrightarrow> a \<noteq> b" using ug_okD(4) [OF ok] by (auto simp: E(2))
  have sym: "(a, b) \<in> pair_of ` set (edge_list g) \<Longrightarrow> (b, a) \<in> pair_of ` set (edge_list g)" for a b
    using ug_okD(3) [OF ok, of a b] by (simp add: E(2))
  have f: "?f a b = ?f b a" for a b using ug_okD(6) [OF ok, of a b] by (cases "comm com a = comm com b") simp_all
  have "mod_lc g com c = (\<Sum>(a, b, w) \<leftarrow> visit_once [] (edge_list g). ?f a b)"
    unfolding mod_lc_def using visit_once_subset [of "[]" "edge_list g"] E(3)
    by (intro arg_cong [where f = sum_list] map_cong) auto
  then have "2 * mod_lc g com c = (\<Sum>(a, b, w) \<leftarrow> edge_list g. ?f a b)"
    using visit_once_half [OF E(1), where f = ?f, OF irr sym f] by simp
  also have "\<dots> = (\<Sum>(a, b) \<in> {(a, b). b \<in> fst ` set (nbrs g a)}. ?f a b)"
    by (simp add: sum_pairs [OF E(1)] E(2))
  also have "\<dots> = (\<Sum>(a, b) \<in> ?N \<times> ?N. ?f a b)"
  proof (rule sum.mono_neutral_left)
    show "{(a, b). b \<in> fst ` set (nbrs g a)} \<subseteq> ?N \<times> ?N"
    proof
      fix p assume "p \<in> {(a, b). b \<in> fst ` set (nbrs g a)}"
      then obtain a b where p: "p = (a, b)" and b: "b \<in> fst ` set (nbrs g a)" by blast
      then have "a \<in> fst ` set (nbrs g b)" using ug_okD(3) [OF ok] by blast
      with p b show "p \<in> ?N \<times> ?N" using ug_okD(5) [OF ok] by blast
    qed
  qed (auto dest: weight_nonzero split: if_splits)
  also have "\<dots> = (\<Sum>i \<in> ?N. \<Sum>j \<in> ?N. ?f i j)" by (simp add: sum.cartesian_product)
  finally show ?thesis by (auto intro!: sum.cong)
qed

lemma mod_dc_sum:
  "ug_ok g \<Longrightarrow> mod_dc g com c = (\<Sum>i \<in> set (nodes g). if comm com i = c then degree g i else 0)"
  unfolding mod_dc_def by (rule sum_list_distinct_conv_sum_set) (rule ug_okD(1))

lemma foldl_add: "foldl (\<lambda>q c. q + h c) q cs = q + (\<Sum>c \<leftarrow> cs. h c :: rat)"
  by (induction cs arbitrary: q) (simp_all add: algebra_simps)

lemma sum_by_label:
  fixes h :: "'a \<Rightarrow> 'a \<Rightarrow> rat"
  assumes "finite N"
  shows "(\<Sum>c \<in> f ` N. \<Sum>i \<in> N. \<Sum>j \<in> N. if f i = c \<and> f j = c then h i j else 0) =
    (\<Sum>i \<in> N. \<Sum>j \<in> N. if f i = f j then h i j else 0)"
proof -
  have "(\<Sum>c \<in> f ` N. \<Sum>i \<in> N. \<Sum>j \<in> N. if f i = c \<and> f j = c then h i j else 0) =
      (\<Sum>i \<in> N. \<Sum>j \<in> N. \<Sum>c \<in> f ` N. if f i = c \<and> f j = c then h i j else 0)"
    by (subst sum.swap) (intro sum.cong refl sum.swap)
  also have "\<dots> = (\<Sum>i \<in> N. \<Sum>j \<in> N. if f i = f j then h i j else 0)"
  proof (intro sum.cong refl)
    fix i j assume "i \<in> N" "j \<in> N"
    have "(\<Sum>c \<in> f ` N. if f i = c \<and> f j = c then h i j else 0) =
        (\<Sum>c \<in> f ` N. if c = f i then (if f j = f i then h i j else 0) else 0)"
      by (intro sum.cong) auto
    with \<open>i \<in> N\<close> assms show "(\<Sum>c \<in> f ` N. if f i = c \<and> f j = c then h i j else 0) = (if f i = f j then h i j else 0)"
      by (simp add: sum.delta)
  qed
  finally show ?thesis .
qed

lemma square_sum:
  fixes k :: "'a \<Rightarrow> rat"
  shows "(\<Sum>i \<in> N. if f i = c then k i else 0)\<^sup>2 = (\<Sum>i \<in> N. \<Sum>j \<in> N. if f i = c \<and> f j = c then k i * k j else 0)"
  unfolding power2_eq_square sum_product by (intro sum.cong) auto

lemma computeModularity_reference:
  assumes ok: "ug_ok g" and m: "ug_m g \<noteq> 0"
  shows "computeModularity (\<lambda>x. x) g com = modularity g (comm com)"
proof -
  let ?N = "set (nodes g)" and ?M = "2 * ug_m g"
  let ?h = "\<lambda>c. \<Sum>i \<in> ?N. \<Sum>j \<in> ?N. if comm com i = c \<and> comm com j = c then modularity_pair g i j / ?M else 0"
  have summand: "mod_lc g com c / ug_m g - (mod_dc g com c / ?M)\<^sup>2 = ?h c" for c
  proof -
    have lc: "mod_lc g com c / ug_m g =
        (\<Sum>i \<in> ?N. \<Sum>j \<in> ?N. (if comm com i = c \<and> comm com j = c then weight g i j else 0) / ?M)"
      using m by (simp add: sum_divide_distrib [symmetric] mod_lc_sum [OF ok, of com c, symmetric])
    have dc: "(mod_dc g com c / ?M)\<^sup>2 =
        (\<Sum>i \<in> ?N. \<Sum>j \<in> ?N. (if comm com i = c \<and> comm com j = c then degree g i * degree g j else 0) / ?M / ?M)"
      unfolding power_divide mod_dc_sum [OF ok] square_sum
      by (simp only: power2_eq_square [of ?M] divide_divide_eq_left [symmetric] sum_divide_distrib)
    show ?thesis
      unfolding lc dc sum_subtractf [symmetric]
      by (intro sum.cong) (simp_all add: modularity_pair_def diff_divide_distrib)
  qed
  have "computeModularity (\<lambda>x. x) g com = (\<Sum>c \<leftarrow> remdups (map (comm com) (nodes g)). ?h c)"
    using m by (simp add: computeModularity_def Let_def foldl_add summand)
  also have "\<dots> = (\<Sum>c \<in> comm com ` ?N. ?h c)"
    by (simp add: sum_list_distinct_conv_sum_set)
  also have "\<dots> = (\<Sum>i \<in> ?N. \<Sum>j \<in> ?N. if comm com i = comm com j then modularity_pair g i j / ?M else 0)"
    by (rule sum_by_label) simp
  also have "\<dots> = modularity g (comm com)"
    unfolding modularity_def sum_divide_distrib by (intro sum.cong) simp_all
  finally show ?thesis .
qed

end
