(* ===== verification/Cascade_Clusterer.thy ===== *)
theory Cascade_Clusterer
  imports Decomposition_Domain
begin

text \<open>
  The two-stage clusterer (\<^verbatim>\<open>cascade_clusterer.go\<close>) and the coherence guardrail that the pipeline applies
  after it (\<^verbatim>\<open>application/pipeline.go\<close>). The primary clusterer is deterministic: a function of the input.
  The fallback calls a language model, so it is an operation over a world; it is optional.
\<close>

section \<open>The interface of a clusterer\<close>

record ClusterInput =
  ci_DomainGraph :: Graph
  ci_DomainModules :: "Module list"
  ci_StructuralFallback :: bool

type_synonym clusterer = "ClusterInput \<Rightarrow> go_error + ClusteringResult"

definition wouldBeLowConf :: "ClusterInput \<Rightarrow> ClusteringResult \<Rightarrow> bool" where
  "wouldBeLowConf input cr \<longleftrightarrow> cr_LowConfidence cr \<or> ci_StructuralFallback input"

definition guardrailWouldFire :: "ClusterInput \<Rightarrow> ClusteringResult \<Rightarrow> bool" where
  "guardrailWouldFire input cr \<longleftrightarrow>
     ci_StructuralFallback input \<and> wouldBeLowConf input cr \<and>
     (cr_Clusters cr = [] \<or> IsIncoherentFallback (ci_DomainGraph input) (cr_Clusters cr))"

definition Cascade_Cluster ::
  "clusterer \<Rightarrow> (ClusterInput \<Rightarrow> ('w, ClusteringResult) io) option \<Rightarrow> ClusterInput \<Rightarrow> ('w, ClusteringResult) io" where
  "Cascade_Cluster primary fallback input =
     (case primary input of
        Inl e \<Rightarrow> io_err e
      | Inr cr \<Rightarrow>
          if cr_Clusters cr \<noteq> [] \<and> \<not> wouldBeLowConf input cr then io_ok cr
          else if guardrailWouldFire input cr then io_ok cr
          else case fallback of
                 None \<Rightarrow> io_ok cr
               | Some llm \<Rightarrow>
                   State_Monad.bind (llm input)
                     (\<lambda>r. case r of
                            Inl llmErr \<Rightarrow> io_ok (cr\<lparr>cr_LowConfidence := True\<rparr>)
                          | Inr llmResult \<Rightarrow> io_ok llmResult))"

section \<open>The guardrail\<close>

definition ApplyCoherenceGuardrail ::
  "Classification \<Rightarrow> ClusteringResult \<Rightarrow> Graph \<Rightarrow> bool \<times> Classification \<times> ClusteringResult" where
  "ApplyCoherenceGuardrail cls clusterResult domainGraph =
     (let cr = (if cl_StructuralFallback cls then clusterResult\<lparr>cr_LowConfidence := True\<rparr> else clusterResult)
      in if cl_StructuralFallback cls \<and> cr_LowConfidence cr \<and> IsIncoherentFallback domainGraph (cr_Clusters cr)
         then (True, cls\<lparr>cl_Domain := []\<rparr>, cr\<lparr>cr_Clusters := []\<rparr>)
         else (False, cls, cr))"

section \<open>Facts\<close>

lemma guardrail_fires_iff:
  "fst (ApplyCoherenceGuardrail cls cr g) \<longleftrightarrow>
     cl_StructuralFallback cls \<and> IsIncoherentFallback g (cr_Clusters cr)"
  by (simp add: ApplyCoherenceGuardrail_def Let_def)

lemma no_clusters_coherent [simp]: "\<not> IsIncoherentFallback g []"
  by (simp add: IsIncoherentFallback_def)

lemma guardrail_prediction:
  assumes "cl_StructuralFallback cls = ci_StructuralFallback input"
  shows "guardrailWouldFire input cr \<longleftrightarrow>
    fst (ApplyCoherenceGuardrail cls cr (ci_DomainGraph input)) \<or> (ci_StructuralFallback input \<and> cr_Clusters cr = [])"
  using assms by (auto simp: guardrailWouldFire_def wouldBeLowConf_def guardrail_fires_iff)

section \<open>Properties\<close>

text \<open>
  The language model is asked only where its answer can matter: the world of the model call is left
  untouched, and the primary result returned as it is, when the primary fails, when it is confident and
  found clusters, when the guardrail of the pipeline is going to discard the partition, and when a structural
  fallback has no clusters at all.
\<close>
theorem cascade_skips_model:
  assumes "case primary input of
      Inl e \<Rightarrow> True
    | Inr cr \<Rightarrow>
        (cr_Clusters cr \<noteq> [] \<and> \<not> cr_LowConfidence cr \<and> \<not> ci_StructuralFallback input) \<or>
        fst (ApplyCoherenceGuardrail cls cr (ci_DomainGraph input)) \<or>
        (ci_StructuralFallback input \<and> cr_Clusters cr = [])"
    and "cl_StructuralFallback cls = ci_StructuralFallback input"
  shows "run_state (Cascade_Cluster primary fallback input) w = (primary input, w)"
proof (cases "primary input")
  case (Inl e)
  then show ?thesis by (simp add: Cascade_Cluster_def)
next
  case (Inr cr)
  with assms(1) guardrail_prediction [OF assms(2), of cr] show ?thesis
    by (auto simp: Cascade_Cluster_def wouldBeLowConf_def)
qed

definition star_input :: ClusterInput where
  "star_input =
     \<lparr> ci_DomainGraph = [\<lparr> edge_From = ''app.a'', edge_To = ''app.b'', edge_Weight = 1 \<rparr>],
       ci_DomainModules = [''app.a'', ''app.b''], ci_StructuralFallback = True \<rparr>"

definition star_result :: ClusteringResult where
  "star_result =
     \<lparr> cr_Clusters = [\<lparr> cluster_BlueprintGroup = ''app.a'', cluster_Modules = [''app.a''] \<rparr>,
                      \<lparr> cluster_BlueprintGroup = ''app.b'', cluster_Modules = [''app.b''] \<rparr>],
       cr_Modularity = 0, cr_LowConfidence = True, cr_CandidateGroupings = [], cr_RestructureRecs = [] \<rparr>"

theorem cascade_skips_model_witness:
  "run_state (Cascade_Cluster (\<lambda>_. Inr star_result)
      (Some (\<lambda>_. State_Monad.bind (State_Monad.set (1 :: nat)) (\<lambda>_. io_ok star_result))) star_input) 0 =
     (Inr star_result, 0)"
proof -
  have fires: "fst (ApplyCoherenceGuardrail
      \<lparr> cl_Infra = [], cl_Domain = [''app.a'', ''app.b''], cl_Tests = [], cl_StructuralFallback = True \<rparr>
      star_result (ci_DomainGraph star_input))"
    by code_simp
  show ?thesis
    by (rule cascade_skips_model
        [where cls = "\<lparr> cl_Infra = [], cl_Domain = [''app.a'', ''app.b''], cl_Tests = [], cl_StructuralFallback = True \<rparr>"])
      (simp_all add: fires, simp add: star_input_def)
qed

text \<open>
  The fallback never makes a decomposition fail: whatever the language model returns, the cascade has an
  error exactly when the deterministic clusterer has one.
\<close>
theorem cascade_fails_only_with_primary:
  "(\<exists>e. fst (run_state (Cascade_Cluster primary fallback input) w) = Inl e) \<longleftrightarrow> (\<exists>e. primary input = Inl e)"
  by (auto simp: Cascade_Cluster_def run_state_bind split: sum.splits option.splits prod.splits)

end
