(* ===== verification/Louvain.thy ===== *)
theory Louvain
  imports Undirected_Graph Cascade_Clusterer
begin

text \<open>
  Stage 3 of the decomposition worker, the deterministic clusterer (\<^verbatim>\<open>louvain_clusterer.go\<close>): one Louvain
  phase over the graph of domain modules with affinity edges inside blueprint groups, the absorption of
  singletons, and the collection of the clusters.

  Both loops run until a pass moves nothing, so they are partial functions: \<open>None\<close> is a run that does not end.
  \<open>fl\<close> is the rounding of the divisions. The passes of the absorption range over Go maps, whose order is not
  determined: \<open>sched k n xs\<close> is the order in which pass \<open>k\<close> visits \<open>xs\<close> (the nodes for the empty \<open>n\<close>, the
  neighbours of \<open>n\<close> otherwise). The other loops over maps add exact numbers or keep the smallest label among
  the best, so their order does not matter.
\<close>

section \<open>Phase 1\<close>

definition kic :: "undirectedGraph \<Rightarrow> community \<Rightarrow> string \<Rightarrow> string \<Rightarrow> rat" where
  "kic g community node currComm =
     (\<Sum>(n2, c2) \<leftarrow> community. if c2 = currComm \<and> n2 \<noteq> node then weight g node n2 else 0)"

definition sigmaCExcl :: "undirectedGraph \<Rightarrow> community \<Rightarrow> string \<Rightarrow> string \<Rightarrow> rat" where
  "sigmaCExcl g community node currComm =
     - degree g node + (\<Sum>(n2, c2) \<leftarrow> community. if c2 = currComm then degree g n2 else 0)"

definition cands :: "undirectedGraph \<Rightarrow> community \<Rightarrow> string \<Rightarrow> string \<Rightarrow> string list" where
  "cands g community node currComm =
     remdups (filter (\<lambda>c. c \<noteq> currComm) (map (\<lambda>(nb, w). comm community nb) (nbrs g node)))"

definition kid :: "undirectedGraph \<Rightarrow> community \<Rightarrow> string \<Rightarrow> string \<Rightarrow> rat" where
  "kid g community node c = (\<Sum>(nb, w) \<leftarrow> nbrs g node. if comm community nb = c then w else 0)"

definition sigmaD :: "undirectedGraph \<Rightarrow> community \<Rightarrow> string \<Rightarrow> string \<Rightarrow> rat" where
  "sigmaD g community node c =
     (\<Sum>(n2, c2) \<leftarrow> community. if n2 \<noteq> node \<and> c2 = c then degree g n2 else 0)"

definition move_delta :: "(rat \<Rightarrow> rat) \<Rightarrow> undirectedGraph \<Rightarrow> community \<Rightarrow> string \<Rightarrow> string \<Rightarrow> rat" where
  "move_delta fl g community node c =
     (let currComm = comm community node;
          ki = degree g node;
          twoM = 2 * ug_m g
      in fl (fl ((kid g community node c - kic g community node currComm) / ug_m g) -
             fl (fl (ki * (sigmaD g community node c - sigmaCExcl g community node currComm)) / fl (twoM * ug_m g))))"

definition better_candidate :: "(string \<Rightarrow> rat) \<Rightarrow> string \<times> rat \<Rightarrow> string \<Rightarrow> string \<times> rat" where
  "better_candidate delta best c =
     (let (bestComm, bestDelta) = best
      in if delta c > bestDelta \<or> (delta c = bestDelta \<and> c < bestComm) then (c, delta c) else best)"

definition bestComm :: "(rat \<Rightarrow> rat) \<Rightarrow> undirectedGraph \<Rightarrow> community \<Rightarrow> string \<Rightarrow> string" where
  "bestComm fl g community node =
     (let currComm = comm community node
      in fst (foldl (better_candidate (move_delta fl g community node)) (currComm, 0)
                (cands g community node currComm)))"

definition louvain_node :: "(rat \<Rightarrow> rat) \<Rightarrow> undirectedGraph \<Rightarrow> bool \<times> community \<Rightarrow> string \<Rightarrow> bool \<times> community" where
  "louvain_node fl g st node =
     (let (moved, community) = st;
          best = bestComm fl g community node
      in if best \<noteq> comm community node then (True, AList.update node best community) else st)"

partial_function (option) louvain_loop ::
  "(rat \<Rightarrow> rat) \<Rightarrow> undirectedGraph \<Rightarrow> string list \<Rightarrow> community \<Rightarrow> community option" where
  "louvain_loop fl g ns community =
     (case foldl (louvain_node fl g) (False, community) ns of
        (moved, community') \<Rightarrow> if moved then louvain_loop fl g ns community' else Some community')"

declare louvain_loop.simps [code]

definition louvainPhase1 :: "(rat \<Rightarrow> rat) \<Rightarrow> undirectedGraph \<Rightarrow> community \<Rightarrow> community option" where
  "louvainPhase1 fl g community =
     (if 2 * ug_m g = 0 then Some community else louvain_loop fl g (sort (nodes g)) community)"

section \<open>Absorption of singletons\<close>

type_synonym schedule = "nat \<Rightarrow> string \<Rightarrow> string list \<Rightarrow> string list"

definition sizes :: "community \<Rightarrow> string \<Rightarrow> nat" where
  "sizes community c = length (filter (\<lambda>(n, c'). c' = c) community)"

text \<open>The neighbour of the heaviest edge into another community; the first one met wins a tie.\<close>

definition strongest ::
  "undirectedGraph \<Rightarrow> community \<Rightarrow> string \<Rightarrow> string \<Rightarrow> string \<times> rat \<Rightarrow> string \<Rightarrow> string \<times> rat" where
  "strongest orig community node c best nb =
     (let (bestComm, bestW) = best;
          w = weight orig node nb;
          nbComm = comm community nb
      in if nbComm \<noteq> c \<and> w > bestW then (nbComm, w) else best)"

definition absorb_node ::
  "schedule \<Rightarrow> nat \<Rightarrow> undirectedGraph \<Rightarrow> (string \<Rightarrow> nat) \<Rightarrow> bool \<times> community \<Rightarrow> string \<Rightarrow> bool \<times> community" where
  "absorb_node sched k orig sz st node =
     (let (moved, community) = st;
          c = comm community node
      in if sz c > 1 then st
         else let best = fst (foldl (strongest orig community node c) (c, 0)
                                (sched k node (map fst (nbrs orig node))))
              in if best \<noteq> c then (True, AList.update node best community) else st)"

definition absorb_pass :: "schedule \<Rightarrow> nat \<Rightarrow> undirectedGraph \<Rightarrow> community \<Rightarrow> bool \<times> community" where
  "absorb_pass sched k orig community =
     foldl (absorb_node sched k orig (sizes community)) (False, community) (sched k [] (map fst community))"

partial_function (option) absorb_loop ::
  "schedule \<Rightarrow> nat \<Rightarrow> undirectedGraph \<Rightarrow> community \<Rightarrow> community option" where
  "absorb_loop sched k orig community =
     (case absorb_pass sched k orig community of
        (moved, community') \<Rightarrow> if moved then absorb_loop sched (Suc k) orig community' else Some community')"

declare absorb_loop.simps [code]

definition absorbSingletons :: "schedule \<Rightarrow> undirectedGraph \<Rightarrow> community \<Rightarrow> community option" where
  "absorbSingletons sched orig community = absorb_loop sched 0 orig community"

section \<open>The clusterer\<close>

definition blueprintBiasMultiplier :: rat where "blueprintBiasMultiplier = 4"

definition lowConfidenceThreshold :: rat where "lowConfidenceThreshold = 1 / 4"

definition blueprintGroupsFor :: "Module list \<Rightarrow> (string \<times> string list) list" where
  "blueprintGroupsFor modules =
     map (\<lambda>g. (g, filter (\<lambda>m. groupOf m = g) modules)) (remdups (map groupOf modules))"

definition float_weight :: "Edge \<Rightarrow> rat" where
  "float_weight e = of_nat (unat (edge_Weight e))"

definition projection :: "Graph \<Rightarrow> Module list \<Rightarrow> undirectedGraph" where
  "projection graph domainModules =
     foldl (\<lambda>g e. addEdge (edge_From e) (edge_To e) (float_weight e) g)
       (foldl (\<lambda>g m. ensure m g) newUndirectedGraph domainModules) graph"

definition max_weight :: "undirectedGraph \<Rightarrow> rat" where
  "max_weight g = foldl (\<lambda>maxW (a, b, w). if w > maxW then w else maxW) 0 (edge_list g)"

fun member_pairs :: "'a list \<Rightarrow> ('a \<times> 'a) list" where
  "member_pairs [] = []"
| "member_pairs (x # xs) = map (Pair x) xs @ member_pairs xs"

definition augment :: "undirectedGraph \<Rightarrow> Module list \<Rightarrow> undirectedGraph" where
  "augment orig domainModules =
     (let maxW = (if max_weight orig = 0 then 1 else max_weight orig);
          affinity = blueprintBiasMultiplier * maxW
      in foldl (\<lambda>g (a, b). addEdge a b affinity g) (cloneGraph orig)
           (concat (map (\<lambda>(gr, members). member_pairs members) (blueprintGroupsFor domainModules))))"

definition seed :: "Module list \<Rightarrow> community" where
  "seed domainModules = map (\<lambda>m. (m, groupOf m)) (remdups domainModules)"

definition collect :: "Module list \<Rightarrow> community \<Rightarrow> Cluster list" where
  "collect domainModules community =
     map (\<lambda>c. \<lparr> cluster_BlueprintGroup = c,
                cluster_Modules = sort (filter (\<lambda>m. comm community m = c) domainModules) \<rparr>)
       (sort (remdups (map (comm community) domainModules)))"

definition Louvain_Cluster :: "(rat \<Rightarrow> rat) \<Rightarrow> schedule \<Rightarrow> ClusterInput \<Rightarrow> ClusteringResult option" where
  "Louvain_Cluster fl sched input =
     (let graph = ci_DomainGraph input;
          domainModules = ci_DomainModules input
      in if domainModules = []
         then Some \<lparr> cr_Clusters = [], cr_Modularity = 0, cr_LowConfidence = False,
                     cr_CandidateGroupings = [], cr_RestructureRecs = [] \<rparr>
         else let orig = projection graph domainModules;
                  aug = augment orig domainModules
              in case louvainPhase1 fl aug (seed domainModules) of
                   None \<Rightarrow> None
                 | Some community \<Rightarrow>
                     (case absorbSingletons sched orig community of
                        None \<Rightarrow> None
                      | Some community \<Rightarrow>
                          let Q = computeModularity fl orig community
                          in Some \<lparr> cr_Clusters = collect domainModules community, cr_Modularity = Q,
                                    cr_LowConfidence = Q < lowConfidenceThreshold,
                                    cr_CandidateGroupings = [], cr_RestructureRecs = [] \<rparr>))"

section \<open>Communities\<close>

text \<open>A community assignment over the nodes of a graph.\<close>

definition over :: "undirectedGraph \<Rightarrow> community \<Rightarrow> bool" where
  "over g com \<longleftrightarrow> distinct (map fst com) \<and> fst ` set com = set (nodes g)"

lemma keys_relabel: "n \<in> fst ` set com \<Longrightarrow> map fst (AList.update n c com) = map fst com"
  by (simp add: update_keys)

lemma over_relabel: "over g com \<Longrightarrow> n \<in> set (nodes g) \<Longrightarrow> over g (AList.update n c com)"
  by (auto simp: over_def keys_relabel)

lemma comm_relabel: "comm (AList.update n c com) = (comm com)(n := c)"
  by (rule ext) simp

lemma comm_label: "n \<in> fst ` set com \<Longrightarrow> comm com n \<in> snd ` set com"
proof -
  assume "n \<in> fst ` set com"
  then obtain v where v: "map_of com n = Some v" by (metis map_of_eq_None_iff not_None_eq)
  then have "(n, v) \<in> set com" by (rule map_of_SomeD)
  with v show ?thesis by (force simp: lkp_def)
qed

lemma labels_relabel: "snd ` set (AList.update n c com) \<subseteq> insert c (snd ` set com)"
  by (induction com) auto

lemma over_sum:
  fixes f :: "string \<Rightarrow> string \<Rightarrow> rat"
  assumes "over g com"
  shows "(\<Sum>(n, c) \<leftarrow> com. f n c) = (\<Sum>n \<in> set (nodes g). f n (comm com n))"
  using assms alist_sum [where xs = com and f = f and d = "[]"] by (simp add: over_def)

section \<open>A move changes the modularity by its gain\<close>

lemma pair_sum_split:
  fixes B :: "'a \<Rightarrow> 'a \<Rightarrow> rat"
  assumes "finite N" and "v \<in> N" and sym: "\<And>i j. B i j = B j i"
  shows "(\<Sum>i \<in> N. \<Sum>j \<in> N. if h i = h j then B i j else 0) =
    B v v + 2 * (\<Sum>j \<in> N - {v}. if h j = h v then B v j else 0) +
    (\<Sum>i \<in> N - {v}. \<Sum>j \<in> N - {v}. if h i = h j then B i j else 0)"
proof -
  let ?b = "\<lambda>i j. if h i = h j then B i j else 0"
  have row: "(\<Sum>j \<in> N. ?b i j) = ?b i v + (\<Sum>j \<in> N - {v}. ?b i j)" for i
    using assms(1,2) by (rule sum.remove)
  have "(\<Sum>i \<in> N. \<Sum>j \<in> N. ?b i j) = (\<Sum>j \<in> N. ?b v j) + (\<Sum>i \<in> N - {v}. \<Sum>j \<in> N. ?b i j)"
    using assms(1,2) by (rule sum.remove)
  also have "\<dots> = B v v + (\<Sum>j \<in> N - {v}. ?b v j) + (\<Sum>i \<in> N - {v}. ?b i v) + (\<Sum>i \<in> N - {v}. \<Sum>j \<in> N - {v}. ?b i j)"
    by (simp add: row sum.distrib)
  also have "(\<Sum>j \<in> N - {v}. ?b v j) = (\<Sum>j \<in> N - {v}. if h j = h v then B v j else 0)" by (intro sum.cong) auto
  also have "(\<Sum>i \<in> N - {v}. ?b i v) = (\<Sum>j \<in> N - {v}. if h j = h v then B v j else 0)"
    using sym by (intro sum.cong) auto
  finally show ?thesis by simp
qed

lemma pair_sum_move:
  fixes B :: "'a \<Rightarrow> 'a \<Rightarrow> rat"
  assumes "finite N" and "v \<in> N" and sym: "\<And>i j. B i j = B j i"
  shows "(\<Sum>i \<in> N. \<Sum>j \<in> N. if (h(v := d)) i = (h(v := d)) j then B i j else 0) -
      (\<Sum>i \<in> N. \<Sum>j \<in> N. if h i = h j then B i j else 0) =
    2 * ((\<Sum>j \<in> N - {v}. if h j = d then B v j else 0) - (\<Sum>j \<in> N - {v}. if h j = h v then B v j else 0))"
proof -
  have "(\<Sum>j \<in> N - {v}. if (h(v := d)) j = (h(v := d)) v then B v j else 0) = (\<Sum>j \<in> N - {v}. if h j = d then B v j else 0)"
    by (intro sum.cong) auto
  moreover have "(\<Sum>i \<in> N - {v}. \<Sum>j \<in> N - {v}. if (h(v := d)) i = (h(v := d)) j then B i j else 0) =
      (\<Sum>i \<in> N - {v}. \<Sum>j \<in> N - {v}. if h i = h j then B i j else 0)"
    by (intro sum.cong) auto
  ultimately show ?thesis
    using pair_sum_split [OF assms, where h = h] pair_sum_split [OF assms, where h = "h(v := d)"] by simp
qed

text \<open>The quantities of the code as sums over the other nodes.\<close>

lemma kid_sum:
  assumes ok: "ug_ok g"
  shows "kid g com v c = (\<Sum>j \<in> set (nodes g) - {v}. if comm com j = c then weight g v j else 0)"
proof -
  have "kid g com v c = (\<Sum>j \<in> set (nodes g). if comm com j = c then weight g v j else 0)"
    unfolding kid_def by (rule nbrs_sum [OF ok]) simp_all
  also have "\<dots> = (\<Sum>j \<in> set (nodes g) - {v}. if comm com j = c then weight g v j else 0)"
    using weight_outside [OF ug_okD(4) [OF ok], of v] by (intro sum.mono_neutral_right) auto
  finally show ?thesis .
qed

lemma kic_sum:
  assumes "over g com"
  shows "kic g com v c = (\<Sum>j \<in> set (nodes g) - {v}. if comm com j = c then weight g v j else 0)"
proof -
  have "kic g com v c = (\<Sum>j \<in> set (nodes g). if comm com j = c \<and> j \<noteq> v then weight g v j else 0)"
    unfolding kic_def by (rule over_sum [OF assms])
  also have "\<dots> = (\<Sum>j \<in> set (nodes g) - {v}. if comm com j = c \<and> j \<noteq> v then weight g v j else 0)"
    by (intro sum.mono_neutral_right) auto
  also have "\<dots> = (\<Sum>j \<in> set (nodes g) - {v}. if comm com j = c then weight g v j else 0)"
    by (intro sum.cong) auto
  finally show ?thesis .
qed

lemma sigmaD_sum:
  assumes "over g com"
  shows "sigmaD g com v c = (\<Sum>j \<in> set (nodes g) - {v}. if comm com j = c then degree g j else 0)"
proof -
  have "sigmaD g com v c = (\<Sum>j \<in> set (nodes g). if j \<noteq> v \<and> comm com j = c then degree g j else 0)"
    unfolding sigmaD_def by (rule over_sum [OF assms])
  also have "\<dots> = (\<Sum>j \<in> set (nodes g) - {v}. if j \<noteq> v \<and> comm com j = c then degree g j else 0)"
    by (intro sum.mono_neutral_right) auto
  also have "\<dots> = (\<Sum>j \<in> set (nodes g) - {v}. if comm com j = c then degree g j else 0)"
    by (intro sum.cong) auto
  finally show ?thesis .
qed

lemma sigmaCExcl_sum:
  assumes ov: "over g com" and v: "v \<in> set (nodes g)"
  shows "sigmaCExcl g com v (comm com v) = (\<Sum>j \<in> set (nodes g) - {v}. if comm com j = comm com v then degree g j else 0)"
proof -
  have "(\<Sum>(n, c) \<leftarrow> com. if c = comm com v then degree g n else 0) =
      (\<Sum>j \<in> set (nodes g). if comm com j = comm com v then degree g j else 0)"
    by (rule over_sum [OF ov])
  also have "\<dots> = degree g v + (\<Sum>j \<in> set (nodes g) - {v}. if comm com j = comm com v then degree g j else 0)"
    by (subst sum.remove [OF _ v]) simp_all
  finally show ?thesis by (simp add: sigmaCExcl_def)
qed

lemma modularity_pair_sum:
  "(\<Sum>j \<in> M. if P j then modularity_pair g v j else 0) =
     (\<Sum>j \<in> M. if P j then weight g v j else 0) - degree g v * (\<Sum>j \<in> M. if P j then degree g j else 0) / (2 * ug_m g)"
  unfolding sum_distrib_left sum_divide_distrib sum_subtractf [symmetric]
  by (intro sum.cong) (simp_all add: modularity_pair_def)

lemma modularity_move:
  assumes ok: "ug_ok g" and m: "ug_m g \<noteq> 0" and ov: "over g com" and v: "v \<in> set (nodes g)"
  shows "modularity g (comm (AList.update v d com)) - modularity g (comm com) = move_delta (\<lambda>x. x) g com v d"
proof -
  let ?N = "set (nodes g)" and ?m = "ug_m g" and ?k = "degree g v"
  let ?W = "\<lambda>c. \<Sum>j \<in> ?N - {v}. if comm com j = c then weight g v j else 0"
  let ?D = "\<lambda>c. \<Sum>j \<in> ?N - {v}. if comm com j = c then degree g j else 0"
  let ?c = "comm com v"
  have sym: "modularity_pair g i j = modularity_pair g j i" for i j
    using ug_okD(6) [OF ok, of i j] by (simp add: modularity_pair_def)
  have "modularity g (comm (AList.update v d com)) - modularity g (comm com) =
      2 * ((?W d - ?k * ?D d / (2 * ?m)) - (?W ?c - ?k * ?D ?c / (2 * ?m))) / (2 * ?m)"
    unfolding comm_relabel modularity_def diff_divide_distrib [symmetric]
    unfolding pair_sum_move [where B = "modularity_pair g", OF finite_set v sym] by (simp only: modularity_pair_sum)
  also have "\<dots> = (?W d - ?W ?c) / ?m - ?k * (?D d - ?D ?c) / (2 * ?m * ?m)"
    using m by (simp add: field_simps)
  finally show ?thesis
    by (simp add: move_delta_def Let_def kid_sum [OF ok] kic_sum [OF ov] sigmaD_sum [OF ov] sigmaCExcl_sum [OF ov v])
qed

section \<open>The choice of a community\<close>

text \<open>The best candidate, whatever the order of the candidates: a strict gain, or no loss and a smaller label.\<close>

lemma better_candidate_if:
  "better_candidate d (b, y) z = (if d z > y \<or> (d z = y \<and> z < b) then (z, d z) else (b, y))"
  by (simp add: better_candidate_def)

lemma better_candidate_fold:
  assumes "foldl (better_candidate d) (c0, 0) cs = (c, x)"
  shows "(c = c0 \<and> x = 0) \<or> (c \<in> set cs \<and> x = d c \<and> (x > 0 \<or> (x = 0 \<and> c < c0)))"
proof -
  have "foldl (better_candidate d) (b, y) cs = (c, x) \<Longrightarrow>
      (b = c0 \<and> y = 0) \<or> (b \<in> X \<and> y = d b \<and> (y > 0 \<or> (y = 0 \<and> b < c0))) \<Longrightarrow>
      (c = c0 \<and> x = 0) \<or> (c \<in> X \<union> set cs \<and> x = d c \<and> (x > 0 \<or> (x = 0 \<and> c < c0)))" for b y X
  proof (induction cs arbitrary: b y X)
    case (Cons z cs)
    show ?case
    proof (cases "d z > y \<or> (d z = y \<and> z < b)")
      case True
      with Cons.prems have "foldl (better_candidate d) (z, d z) cs = (c, x)" by (simp add: better_candidate_if)
      moreover have "d z > 0 \<or> (d z = 0 \<and> z < c0)" using True Cons.prems(2) by (auto intro: less_trans)
      ultimately show ?thesis using Cons.IH [of z "d z" "insert z X"] by auto
    next
      case False
      with Cons.prems have "foldl (better_candidate d) (b, y) cs = (c, x)" by (simp add: better_candidate_if)
      from Cons.IH [OF this, of X] Cons.prems(2) show ?thesis by auto
    qed
  qed auto
  from this [of c0 0 "{}"] assms show ?thesis by simp
qed

lemma bestComm_cases:
  assumes "bestComm fl g com v \<noteq> comm com v"
  shows "bestComm fl g com v \<in> set (cands g com v (comm com v))"
    and "move_delta fl g com v (bestComm fl g com v) > 0 \<or>
      (move_delta fl g com v (bestComm fl g com v) = 0 \<and> bestComm fl g com v < comm com v)"
proof -
  obtain c x where f: "foldl (better_candidate (move_delta fl g com v)) (comm com v, 0) (cands g com v (comm com v)) = (c, x)"
    by fastforce
  then have "bestComm fl g com v = c" by (simp add: bestComm_def)
  with better_candidate_fold [OF f] assms
  show "bestComm fl g com v \<in> set (cands g com v (comm com v))"
    and "move_delta fl g com v (bestComm fl g com v) > 0 \<or>
      (move_delta fl g com v (bestComm fl g com v) = 0 \<and> bestComm fl g com v < comm com v)"
    by auto
qed

section \<open>Every pass that moves something improves the assignment\<close>

text \<open>The assignments over the same nodes with the same labels, ordered by modularity and then by labels.\<close>

definition assignments :: "string list \<Rightarrow> string set \<Rightarrow> community set" where
  "assignments ns L = {com. map fst com = ns \<and> snd ` set com \<subseteq> L}"

definition rank :: "string set \<Rightarrow> string \<Rightarrow> nat" where
  "rank L c = card {l \<in> L. l < c}"

definition rank_sum :: "string set \<Rightarrow> community \<Rightarrow> nat" where
  "rank_sum L com = (\<Sum>(n, c) \<leftarrow> com. rank L c)"

definition improves :: "undirectedGraph \<Rightarrow> string set \<Rightarrow> community \<Rightarrow> community \<Rightarrow> bool" where
  "improves g L com' com \<longleftrightarrow>
     modularity g (comm com') > modularity g (comm com) \<or>
     (modularity g (comm com') = modularity g (comm com) \<and> rank_sum L com' < rank_sum L com)"

lemma improves_trans: "improves g L c b \<Longrightarrow> improves g L b a \<Longrightarrow> improves g L c a"
  by (auto simp: improves_def)

lemma improves_irrefl: "\<not> improves g L a a"
  by (simp add: improves_def)

lemma finite_assignments: "finite L \<Longrightarrow> finite (assignments ns L)"
proof -
  assume "finite L"
  then have "finite {xs. set xs \<subseteq> set ns \<times> L \<and> length xs = length ns}" by (intro finite_lists_length_eq) simp
  moreover have "assignments ns L \<subseteq> {xs. set xs \<subseteq> set ns \<times> L \<and> length xs = length ns}"
  proof
    fix xs assume xs: "xs \<in> assignments ns L"
    then have keys: "map fst xs = ns" and labels: "snd ` set xs \<subseteq> L" by (simp_all add: assignments_def)
    have "set xs \<subseteq> fst ` set xs \<times> snd ` set xs" by (rule subset_fst_snd)
    moreover have "fst ` set xs = set ns" and "length xs = length ns" using keys by (metis set_map, metis length_map)
    ultimately show "xs \<in> {xs. set xs \<subseteq> set ns \<times> L \<and> length xs = length ns}" using labels by blast
  qed
  ultimately show ?thesis by (rule finite_subset [rotated])
qed

lemma rank_less: "finite L \<Longrightarrow> c \<in> L \<Longrightarrow> c < d \<Longrightarrow> rank L c < rank L d"
  unfolding rank_def by (rule psubset_card_mono) (auto intro: less_trans)

lemma rank_sum_relabel:
  assumes "distinct (map fst com)" and "n \<in> fst ` set com" and "rank L c < rank L (comm com n)"
  shows "rank_sum L (AList.update n c com) < rank_sum L com"
  using assms
proof (induction com)
  case (Cons x com)
  obtain k v where x: "x = (k, v)" by fastforce
  show ?case
  proof (cases "k = n")
    case True
    with Cons.prems show ?thesis by (simp add: x rank_sum_def)
  next
    case False
    with Cons.prems Cons.IH have "rank_sum L (AList.update n c com) < rank_sum L com" by (auto simp: x)
    with False show ?thesis by (simp add: x rank_sum_def)
  qed
qed simp

text \<open>The state of phase 1: an assignment over the graph with labels of \<open>L\<close>.\<close>

definition phase_state :: "undirectedGraph \<Rightarrow> string list \<Rightarrow> string set \<Rightarrow> community \<Rightarrow> bool" where
  "phase_state g ns L com \<longleftrightarrow> com \<in> assignments ns L \<and> over g com"

lemma phase_state_relabel:
  assumes "phase_state g ns L com" and "v \<in> set (nodes g)" and "c \<in> L"
  shows "phase_state g ns L (AList.update v c com)"
  using assms labels_relabel [of v c com] over_relabel [of g com v c] keys_relabel [of v com c]
  by (auto simp: phase_state_def assignments_def over_def)

lemma cands_labels:
  assumes "ug_ok g" and "phase_state g ns L com" and "c \<in> set (cands g com v k)"
  shows "c \<in> L" and "c \<noteq> k"
proof -
  from assms(3) obtain nb where nb: "nb \<in> fst ` set (nbrs g v)" "c = comm com nb" "c \<noteq> k" by (force simp: cands_def)
  then have "nb \<in> fst ` set com" using ug_okD(5) [OF assms(1)] assms(2) by (auto simp: phase_state_def over_def)
  then have "c \<in> snd ` set com" unfolding nb(2) by (rule comm_label)
  with assms(2) show "c \<in> L" unfolding phase_state_def assignments_def by blast
  show "c \<noteq> k" by (rule nb(3))
qed

lemma louvain_node_keeps:
  assumes "ug_ok g" and "phase_state g ns L com" and "v \<in> set (nodes g)" and "louvain_node fl g (b, com) v = (b', com')"
  shows "phase_state g ns L com'"
proof (cases "bestComm fl g com v = comm com v")
  case True
  with assms show ?thesis by (simp add: louvain_node_def)
next
  case False
  with bestComm_cases(1) [OF False] cands_labels [OF assms(1,2)] have "bestComm fl g com v \<in> L" by blast
  with False assms show ?thesis by (auto simp: louvain_node_def Let_def intro: phase_state_relabel)
qed

lemma louvain_pass_keeps:
  assumes "ug_ok g" and "phase_state g ns L com" and "set vs \<subseteq> set (nodes g)"
    and "foldl (louvain_node fl g) (b, com) vs = (b', com')"
  shows "phase_state g ns L com'"
  using assms(2-)
proof (induction vs arbitrary: b com)
  case (Cons v vs)
  obtain b1 com1 where "louvain_node fl g (b, com) v = (b1, com1)" by fastforce
  moreover from this have "phase_state g ns L com1" using louvain_node_keeps [OF assms(1)] Cons.prems by auto
  ultimately show ?case using Cons.IH [of com1 b1] Cons.prems by simp
qed simp

lemma louvain_node_improves:
  assumes "ug_ok g" and "ug_m g \<noteq> 0" and "finite L" and ps: "phase_state g ns L com" and v: "v \<in> set (nodes g)"
    and "louvain_node (\<lambda>x. x) g (b, com) v = (b', com')"
  shows "(b' = b \<and> com' = com) \<or> (b' \<and> improves g L com' com)"
proof (cases "bestComm (\<lambda>x. x) g com v = comm com v")
  case True
  with assms(6) show ?thesis by (simp add: louvain_node_def)
next
  case False
  let ?c = "bestComm (\<lambda>x. x) g com v"
  have ov: "over g com" using ps by (simp add: phase_state_def)
  have new: "b' = True" "com' = AList.update v ?c com" using False assms(6) by (auto simp: louvain_node_def Let_def)
  have "?c \<in> L" using bestComm_cases(1) [OF False] cands_labels [OF assms(1) ps] by blast
  have gain: "modularity g (comm com') - modularity g (comm com) = move_delta (\<lambda>x. x) g com v ?c"
    unfolding new by (rule modularity_move [OF assms(1,2) ov v])
  from bestComm_cases(2) [OF False] have "improves g L com' com"
  proof
    assume "move_delta (\<lambda>x. x) g com v ?c > 0"
    with gain show ?thesis by (simp add: improves_def)
  next
    assume 0: "move_delta (\<lambda>x. x) g com v ?c = 0 \<and> ?c < comm com v"
    have "rank_sum L com' < rank_sum L com"
      unfolding new using ov v 0 \<open>?c \<in> L\<close> assms(3) by (intro rank_sum_relabel rank_less) (auto simp: over_def)
    with gain 0 show ?thesis by (simp add: improves_def)
  qed
  with new show ?thesis by simp
qed

lemma louvain_pass_improves:
  assumes "ug_ok g" and "ug_m g \<noteq> 0" and "finite L" and "phase_state g ns L com" and "set vs \<subseteq> set (nodes g)"
    and "foldl (louvain_node (\<lambda>x. x) g) (b, com) vs = (b', com')"
  shows "(b' = b \<and> com' = com) \<or> (b' \<and> improves g L com' com)"
  using assms(4-)
proof (induction vs arbitrary: b com)
  case (Cons v vs)
  obtain b1 com1 where step: "louvain_node (\<lambda>x. x) g (b, com) v = (b1, com1)" by fastforce
  have "phase_state g ns L com1" using louvain_node_keeps [OF assms(1) _ _ step] Cons.prems by auto
  then have "(b' = b1 \<and> com' = com1) \<or> (b' \<and> improves g L com' com1)" using Cons step by simp
  moreover have "(b1 = b \<and> com1 = com) \<or> (b1 \<and> improves g L com1 com)"
    using louvain_node_improves [OF assms(1,2,3) _ _ step] Cons.prems by simp
  ultimately show ?case by (auto intro: improves_trans)
qed simp

lemma louvain_loop_terminates:
  assumes "ug_ok g" and "ug_m g \<noteq> 0" and "finite L" and "phase_state g ns L com" and "set vs \<subseteq> set (nodes g)"
  shows "\<exists>com'. louvain_loop (\<lambda>x. x) g vs com = Some com'"
  using assms(4)
proof (induction "card {d \<in> assignments ns L. improves g L d com}" arbitrary: com rule: less_induct)
  case less
  obtain b com1 where pass: "foldl (louvain_node (\<lambda>x. x) g) (False, com) vs = (b, com1)" by fastforce
  have unfold: "louvain_loop (\<lambda>x. x) g vs com = (if b then louvain_loop (\<lambda>x. x) g vs com1 else Some com1)"
    by (subst louvain_loop.simps) (simp add: pass)
  show ?case
  proof (cases b)
    case True
    have ps: "phase_state g ns L com1" by (rule louvain_pass_keeps [OF assms(1) less.prems assms(5) pass])
    have imp: "improves g L com1 com"
      using louvain_pass_improves [OF assms(1,2,3) less.prems assms(5) pass] True by blast
    have "{d \<in> assignments ns L. improves g L d com1} \<subset> {d \<in> assignments ns L. improves g L d com}"
    proof (rule psubsetI)
      show "{d \<in> assignments ns L. improves g L d com1} \<subseteq> {d \<in> assignments ns L. improves g L d com}"
        using improves_trans [OF _ imp] by blast
      have "com1 \<in> {d \<in> assignments ns L. improves g L d com}" using ps imp by (simp add: phase_state_def)
      then show "{d \<in> assignments ns L. improves g L d com1} \<noteq> {d \<in> assignments ns L. improves g L d com}"
        using improves_irrefl [of g L com1] by blast
    qed
    then have "card {d \<in> assignments ns L. improves g L d com1} < card {d \<in> assignments ns L. improves g L d com}"
      using finite_assignments [OF assms(3)] by (intro psubset_card_mono) auto
    from less.hyps [OF this ps] show ?thesis by (simp add: unfold True)
  next
    case False
    then show ?thesis by (simp add: unfold)
  qed
qed

section \<open>Absorption\<close>

definition labels :: "community \<Rightarrow> string set" where
  "labels com = snd ` set com"

text \<open>Every pass visits what is there, each once.\<close>

definition fair :: "schedule \<Rightarrow> bool" where
  "fair sched \<longleftrightarrow> (\<forall>k n xs. mset (sched k n xs) = mset xs)"

lemma fair_set: "fair sched \<Longrightarrow> set (sched k n xs) = set xs"
  unfolding fair_def by (metis set_mset_mset)

lemma strongest_fold:
  assumes "foldl (strongest g com v c) (c, 0) nbs = (b, w)"
  shows "(b = c \<and> (\<forall>nb \<in> set nbs. comm com nb = c \<or> weight g v nb \<le> 0)) \<or> (b \<noteq> c \<and> (\<exists>nb \<in> set nbs. b = comm com nb))"
proof -
  have "foldl (strongest g com v c) (b0, w0) nbs = (b, w) \<Longrightarrow>
      (b0 = c \<and> w0 = 0 \<and> (\<forall>nb \<in> X. comm com nb = c \<or> weight g v nb \<le> 0)) \<or>
      (b0 \<noteq> c \<and> (\<exists>nb \<in> X. b0 = comm com nb)) \<Longrightarrow>
      (b = c \<and> w = 0 \<and> (\<forall>nb \<in> X \<union> set nbs. comm com nb = c \<or> weight g v nb \<le> 0)) \<or>
      (b \<noteq> c \<and> (\<exists>nb \<in> X \<union> set nbs. b = comm com nb))" for b0 w0 X
  proof (induction nbs arbitrary: b0 w0 X)
    case (Cons z nbs)
    obtain b1 w1 where st: "strongest g com v c (b0, w0) z = (b1, w1)" by fastforce
    then have "foldl (strongest g com v c) (b1, w1) nbs = (b, w)" using Cons.prems(1) by simp
    moreover have "(b1 = c \<and> w1 = 0 \<and> (\<forall>nb \<in> insert z X. comm com nb = c \<or> weight g v nb \<le> 0)) \<or>
        (b1 \<noteq> c \<and> (\<exists>nb \<in> insert z X. b1 = comm com nb))"
      using st Cons.prems(2) by (auto simp: strongest_def Let_def split: if_splits)
    ultimately show ?case using Cons.IH [of b1 w1 "insert z X"] by simp
  qed auto
  from this [of c 0 "{}"] assms show ?thesis by auto
qed

text \<open>One node: nothing happens, or a node whose community counted at most one member moves to a label in use.\<close>

lemma absorb_node_cases:
  assumes ok: "ug_ok g" and ov: "over g com" and fair: "fair sched" and v: "v \<in> set (nodes g)"
    and "absorb_node sched k g sz (b, com) v = (b', com')"
  obtains (stays) "b' = b" "com' = com"
      "sz (comm com v) > 1 \<or> (\<forall>nb \<in> fst ` set (nbrs g v). comm com nb = comm com v \<or> weight g v nb \<le> 0)"
    | (moves) c where "b'" "com' = AList.update v c com" "c \<noteq> comm com v" "c \<in> labels com" "sz (comm com v) \<le> 1"
proof (cases "sz (comm com v) > 1")
  case True
  with assms(5) show ?thesis by (intro stays) (simp_all add: absorb_node_def)
next
  case False
  let ?ns = "sched k v (map fst (nbrs g v))"
  obtain c w where f: "foldl (strongest g com v (comm com v)) (comm com v, 0) ?ns = (c, w)" by fastforce
  have ns: "set ?ns = fst ` set (nbrs g v)" by (simp add: fair_set [OF fair])
  have step: "(b', com') = (if c \<noteq> comm com v then (True, AList.update v c com) else (b, com))"
    using assms(5) False f by (simp add: absorb_node_def)
  from strongest_fold [OF f] show ?thesis
  proof (elim disjE conjE)
    assume "c = comm com v" and "\<forall>nb \<in> set ?ns. comm com nb = comm com v \<or> weight g v nb \<le> 0"
    with step show ?thesis by (intro stays) (simp_all add: ns)
  next
    assume "c \<noteq> comm com v" and "\<exists>nb \<in> set ?ns. c = comm com nb"
    then obtain nb where nb: "nb \<in> fst ` set (nbrs g v)" "c = comm com nb" by (auto simp: ns)
    then have "nb \<in> fst ` set com" using ug_okD(5) [OF ok] ov unfolding over_def by blast
    then have "c \<in> labels com" unfolding labels_def nb(2) by (rule comm_label)
    with step \<open>c \<noteq> comm com v\<close> False show ?thesis by (intro moves [of c]) simp_all
  qed
qed

lemma absorb_fold_keeps:
  assumes ok: "ug_ok g" and fair: "fair sched"
    and "over g com" and "set vs \<subseteq> set (nodes g)" and "foldl (absorb_node sched k g sz) (b, com) vs = (b', com')"
  shows "over g com' \<and> labels com' \<subseteq> labels com \<and> (b \<longrightarrow> b')"
  using assms(3-)
proof (induction vs arbitrary: b com)
  case (Cons v vs)
  obtain b1 com1 where st: "absorb_node sched k g sz (b, com) v = (b1, com1)" by fastforce
  have v: "v \<in> set (nodes g)" using Cons.prems(2) by simp
  have "over g com1 \<and> labels com1 \<subseteq> labels com \<and> (b \<longrightarrow> b1)"
  proof (cases rule: absorb_node_cases [OF ok Cons.prems(1) fair v st])
    case 1
    then show ?thesis using Cons.prems(1) by simp
  next
    case (2 c)
    then show ?thesis
      using over_relabel [OF Cons.prems(1) v, of c] labels_relabel [of v c com] by (auto simp: labels_def)
  qed
  with Cons.IH [of com1 b1] Cons.prems st show ?case by auto
qed simp

lemma sizes_single:
  assumes "distinct (map fst com)" and "u \<in> fst ` set com" "v \<in> fst ` set com" and "comm com u = comm com v"
    and "sizes com (comm com v) \<le> 1"
  shows "u = v"
proof (rule ccontr)
  assume "u \<noteq> v"
  let ?P = "\<lambda>(n, c'). c' = comm com v"
  have pair: "(n, comm com n) \<in> set com" if "n \<in> fst ` set com" for n
  proof -
    from that obtain l where "(n, l) \<in> set com" by auto
    with lkp_member [OF assms(1) this] show ?thesis by simp
  qed
  have "{(u, comm com u), (v, comm com v)} \<subseteq> set (filter ?P com)"
    using pair [OF assms(2)] pair [OF assms(3)] assms(4) by simp
  then have "card {(u, comm com u), (v, comm com v)} \<le> length (filter ?P com)"
    by (meson card_length card_mono finite_set le_trans)
  with \<open>u \<noteq> v\<close> assms(5) show False by (simp add: sizes_def)
qed

lemma label_vanishes:
  assumes ov: "over g com" and v: "v \<in> set (nodes g)" and "sizes com (comm com v) \<le> 1" and "c \<noteq> comm com v"
  shows "comm com v \<notin> labels (AList.update v c com)"
proof
  assume "comm com v \<in> labels (AList.update v c com)"
  then obtain u where u: "(u, comm com v) \<in> set (AList.update v c com)" by (auto simp: labels_def)
  have d: "distinct (map fst (AList.update v c com))" using ov by (simp add: over_def distinct_update)
  have lab: "comm (AList.update v c com) u = comm com v" using lkp_member [OF d u] .
  with assms(4) have "u \<noteq> v" by auto
  with lab have "comm com u = comm com v" by simp
  moreover have "u \<in> fst ` set com"
    using image_eqI [OF _ u, of u fst] ov v by (auto simp: over_def)
  ultimately have "u = v" using sizes_single [of com u v] ov v assms(3) by (simp add: over_def)
  with \<open>u \<noteq> v\<close> show False ..
qed

text \<open>The first move of a pass takes a label out of use for good.\<close>

lemma absorb_fold_progress:
  assumes ok: "ug_ok g" and fair: "fair sched" and ov: "over g com"
    and "set vs \<subseteq> set (nodes g)" and "foldl (absorb_node sched k g (sizes com)) (False, com) vs = (b', com')"
  shows "(b' \<and> labels com' \<subset> labels com) \<or>
    (\<not> b' \<and> com' = com \<and> (\<forall>v \<in> set vs. sizes com (comm com v) > 1 \<or>
      (\<forall>nb \<in> fst ` set (nbrs g v). comm com nb = comm com v \<or> weight g v nb \<le> 0)))"
  using assms(4-)
proof (induction vs)
  case (Cons v vs)
  obtain b1 com1 where st: "absorb_node sched k g (sizes com) (False, com) v = (b1, com1)" by fastforce
  have v: "v \<in> set (nodes g)" and vs: "set vs \<subseteq> set (nodes g)" using Cons.prems(1) by auto
  have rest: "foldl (absorb_node sched k g (sizes com)) (b1, com1) vs = (b', com')" using Cons.prems(2) st by simp
  show ?case
  proof (cases rule: absorb_node_cases [OF ok ov fair v st])
    case 1
    then show ?thesis using Cons.IH [OF vs] rest by auto
  next
    case (2 c)
    note moves = 2
    have "over g com1" using over_relabel [OF ov v] moves by simp
    from absorb_fold_keeps [OF ok fair this vs rest] have sub: "labels com' \<subseteq> labels com1" and "b'" using moves by auto
    have "comm com v \<in> labels com" using ov v comm_label [of v com] by (simp add: over_def labels_def)
    moreover have "comm com v \<notin> labels com1" using label_vanishes [OF ov v] moves by simp
    moreover have "labels com1 \<subseteq> labels com" using labels_relabel [of v c com] moves by (auto simp: labels_def)
    ultimately show ?thesis using sub \<open>b'\<close> by blast
  qed
qed simp

text \<open>Settled: no node that is alone in its community has a neighbour of positive weight elsewhere.\<close>

definition settled :: "undirectedGraph \<Rightarrow> community \<Rightarrow> bool" where
  "settled g com \<longleftrightarrow> (\<forall>v \<in> set (nodes g). sizes com (comm com v) > 1 \<or>
     (\<forall>nb \<in> fst ` set (nbrs g v). comm com nb = comm com v \<or> weight g v nb \<le> 0))"

lemma absorb_loop_ends:
  assumes ok: "ug_ok g" and fair: "fair sched" and ov: "over g com"
  shows "\<exists>com'. absorb_loop sched k g com = Some com' \<and> over g com' \<and> settled g com' \<and> labels com' \<subseteq> labels com"
  using ov
proof (induction "card (labels com)" arbitrary: com k rule: less_induct)
  case less
  obtain b com1 where pass: "absorb_pass sched k g com = (b, com1)" by fastforce
  have vs: "set (sched k [] (map fst com)) = set (nodes g)"
    using less.prems by (simp add: fair_set [OF fair] over_def)
  note fold = pass [unfolded absorb_pass_def]
  have keep: "over g com1" and sub: "labels com1 \<subseteq> labels com"
    using absorb_fold_keeps [OF ok fair less.prems _ fold] vs by simp_all
  have unfold: "absorb_loop sched k g com = (if b then absorb_loop sched (Suc k) g com1 else Some com1)"
    by (subst absorb_loop.simps) (simp add: pass)
  from absorb_fold_progress [OF ok fair less.prems eq_refl [OF vs] fold] show ?case
  proof (elim disjE conjE)
    assume "b" and "labels com1 \<subset> labels com"
    then have "card (labels com1) < card (labels com)" by (intro psubset_card_mono) (simp_all add: labels_def)
    from less.hyps [OF this keep, of "Suc k"] sub show ?thesis by (auto simp: unfold \<open>b\<close>)
  next
    assume "\<not> b" and "com1 = com" and "\<forall>v \<in> set (sched k [] (map fst com)). sizes com (comm com v) > 1 \<or>
      (\<forall>nb \<in> fst ` set (nbrs g v). comm com nb = comm com v \<or> weight g v nb \<le> 0)"
    with vs less.prems show ?thesis by (simp add: unfold settled_def)
  qed
qed

lemma distinct_filter_eq: "distinct xs \<Longrightarrow> length (filter (\<lambda>x. x = v) xs) \<le> 1"
proof (induction xs)
  case (Cons x xs)
  then have "x = v \<Longrightarrow> filter (\<lambda>x. x = v) xs = []" by (auto simp: filter_empty_conv)
  with Cons show ?case by auto
qed simp

lemma settled_single:
  assumes ok: "ug_ok g" and ov: "over g com" and "settled g com" and v: "v \<in> set (nodes g)"
    and single: "\<And>u. u \<in> set (nodes g) \<Longrightarrow> comm com u = comm com v \<Longrightarrow> u = v"
  shows "weight g v u = 0"
proof (cases "u \<in> fst ` set (nbrs g v)")
  case True
  have "filter (\<lambda>(n, c'). c' = comm com v) com = filter (\<lambda>(n, c'). n = v) com"
  proof (rule filter_cong [OF refl])
    fix x assume x: "x \<in> set com"
    obtain n l where nl: "x = (n, l)" by fastforce
    with x ov have "comm com n = l" and "n \<in> set (nodes g)"
      using lkp_member [of com n l] image_eqI [of n fst x "set com"] by (simp_all add: over_def)
    with single [of n] show "(case x of (n, c') \<Rightarrow> c' = comm com v) = (case x of (n, c') \<Rightarrow> n = v)" by (auto simp: nl)
  qed
  moreover have "length (filter (\<lambda>(n, c'). n = v) com) \<le> 1"
  proof -
    have "map fst (filter (\<lambda>(n, c'). n = v) com) = filter (\<lambda>n. n = v) (map fst com)"
      by (simp add: filter_map comp_def split_def)
    then have "length (filter (\<lambda>(n, c'). n = v) com) = length (filter (\<lambda>n. n = v) (map fst com))" by (metis length_map)
    also have "\<dots> \<le> 1" using ov by (intro distinct_filter_eq) (simp add: over_def)
    finally show ?thesis .
  qed
  ultimately have "sizes com (comm com v) \<le> 1" by (simp add: sizes_def)
  moreover have "u \<noteq> v" using True ug_okD(4) [OF ok] by blast
  moreover have "u \<in> set (nodes g)" using True ug_okD(5) [OF ok] by blast
  ultimately have "weight g v u \<le> 0"
    using assms(3) v True single [of u] unfolding settled_def by (meson not_le)
  with ug_okD(7) [OF ok, of v u] show ?thesis by simp
qed (rule weight_outside)

section \<open>The two graphs of a run\<close>

text \<open>The edges stay among the domain modules, as \<^verbatim>\<open>DomainSubgraph\<close> guarantees.\<close>

definition input_ok :: "ClusterInput \<Rightarrow> bool" where
  "input_ok input \<longleftrightarrow>
     (\<forall>e \<in> set (ci_DomainGraph input).
        edge_From e \<in> set (ci_DomainModules input) \<and> edge_To e \<in> set (ci_DomainModules input))"

definition link_weight :: "Graph \<Rightarrow> Module \<Rightarrow> Module \<Rightarrow> rat" where
  "link_weight graph a b =
     (\<Sum>e \<leftarrow> graph. if on_edge (edge_From e) (edge_To e) a b \<and> a \<noteq> b then float_weight e else 0)"

lemma float_weight_nonneg: "0 \<le> float_weight e"
  unfolding float_weight_def by (rule of_nat_0_le_iff)

lemma ensure_all:
  assumes "ug_ok g"
  shows "ug_ok (foldl (\<lambda>g m. ensure m g) g ms) \<and>
    set (nodes (foldl (\<lambda>g m. ensure m g) g ms)) = set (nodes g) \<union> set ms \<and>
    weight (foldl (\<lambda>g m. ensure m g) g ms) = weight g"
  using assms by (induction ms arbitrary: g) (auto simp: ensure_ok)

lemma addEdge_loop [simp]: "addEdge a a w g = g"
  by (simp add: addEdge_def)

lemma nodes_addEdge:
  "a \<in> set (nodes g) \<Longrightarrow> b \<in> set (nodes g) \<Longrightarrow> set (nodes (addEdge a b w g)) = set (nodes g)"
  by (cases "a = b") (auto simp: addEdge_view)

lemma weight_addEdge:
  "weight (addEdge a b w g) x y = weight g x y + (if on_edge a b x y \<and> x \<noteq> y then w else 0)"
  by (cases "a = b") (auto simp: addEdge_view on_edge_def)

lemma project_edges:
  assumes "ug_ok g" and "\<forall>e \<in> set es. edge_From e \<in> set (nodes g) \<and> edge_To e \<in> set (nodes g)"
  shows "ug_ok (foldl (\<lambda>g e. addEdge (edge_From e) (edge_To e) (float_weight e) g) g es) \<and>
    set (nodes (foldl (\<lambda>g e. addEdge (edge_From e) (edge_To e) (float_weight e) g) g es)) = set (nodes g) \<and>
    weight (foldl (\<lambda>g e. addEdge (edge_From e) (edge_To e) (float_weight e) g) g es) x y =
      weight g x y + link_weight es x y"
  using assms
proof (induction es arbitrary: g)
  case (Cons e es)
  let ?g = "addEdge (edge_From e) (edge_To e) (float_weight e) g"
  have "ug_ok ?g" using Cons.prems(1) by (rule addEdge_ok) (rule float_weight_nonneg)
  moreover have n: "set (nodes ?g) = set (nodes g)" using Cons.prems(2) by (simp add: nodes_addEdge)
  ultimately show ?case using Cons.IH [of ?g] Cons.prems(2) by (simp add: weight_addEdge link_weight_def)
qed (simp add: link_weight_def)

lemma projection_ok:
  assumes "input_ok input"
  shows "ug_ok (projection (ci_DomainGraph input) (ci_DomainModules input))"
    and "set (nodes (projection (ci_DomainGraph input) (ci_DomainModules input))) = set (ci_DomainModules input)"
    and "weight (projection (ci_DomainGraph input) (ci_DomainModules input)) a b = link_weight (ci_DomainGraph input) a b"
proof -
  let ?e = "foldl (\<lambda>g m. ensure m g) newUndirectedGraph (ci_DomainModules input)"
  note e = ensure_all [OF new_ok, of "ci_DomainModules input"]
  have n: "set (nodes ?e) = set (ci_DomainModules input)" and "weight ?e a b = 0"
    using e by (simp_all add: newUndirectedGraph_def nodes_def weight_def nbrs_def)
  moreover have "\<forall>e \<in> set (ci_DomainGraph input). edge_From e \<in> set (nodes ?e) \<and> edge_To e \<in> set (nodes ?e)"
    using assms by (simp add: input_ok_def n)
  ultimately show "ug_ok (projection (ci_DomainGraph input) (ci_DomainModules input))"
    and "set (nodes (projection (ci_DomainGraph input) (ci_DomainModules input))) = set (ci_DomainModules input)"
    and "weight (projection (ci_DomainGraph input) (ci_DomainModules input)) a b = link_weight (ci_DomainGraph input) a b"
    using project_edges [of ?e "ci_DomainGraph input" a b] e by (simp_all add: projection_def)
qed

lemma running_max_nonneg:
  "0 \<le> x \<Longrightarrow> 0 \<le> foldl (\<lambda>maxW (a, b, w). if w > maxW then w else maxW) (x :: rat) es"
proof (induction es arbitrary: x)
  case (Cons e es)
  obtain a b w where e: "e = (a, b, w)" by (cases e)
  have "0 \<le> (if w > x then w else x)" using Cons.prems by simp
  from Cons.IH [OF this] show ?case by (simp add: e)
qed simp

lemma max_weight_nonneg: "0 \<le> max_weight g"
  unfolding max_weight_def by (rule running_max_nonneg) simp

lemma add_pairs_ok:
  assumes "ug_ok g" and "0 \<le> w" and "\<forall>(a, b) \<in> set ps. a \<in> set (nodes g) \<and> b \<in> set (nodes g)"
  shows "ug_ok (foldl (\<lambda>g (a, b). addEdge a b w g) g ps) \<and> set (nodes (foldl (\<lambda>g (a, b). addEdge a b w g) g ps)) = set (nodes g)"
  using assms
proof (induction ps arbitrary: g)
  case (Cons p ps)
  obtain a b where p: "p = (a, b)" by fastforce
  have "ug_ok (addEdge a b w g)" using Cons.prems by (simp add: addEdge_ok)
  moreover have "set (nodes (addEdge a b w g)) = set (nodes g)" using Cons.prems(3) by (simp add: p nodes_addEdge)
  ultimately show ?case using Cons.IH [of "addEdge a b w g"] Cons.prems by (simp add: p)
qed simp

lemma member_pairs_members: "(a, b) \<in> set (member_pairs xs) \<Longrightarrow> a \<in> set xs \<and> b \<in> set xs"
  by (induction xs) auto

lemma augment_ok:
  assumes ok: "ug_ok orig" and n: "set (nodes orig) = set ms"
  shows "ug_ok (augment orig ms)" and "set (nodes (augment orig ms)) = set ms"
proof -
  let ?ps = "concat (map (\<lambda>(gr, members). member_pairs members) (blueprintGroupsFor ms))"
  have "\<forall>(a, b) \<in> set ?ps. a \<in> set (nodes (cloneGraph orig)) \<and> b \<in> set (nodes (cloneGraph orig))"
    by (auto simp: blueprintGroupsFor_def cloneGraph_view [OF ok] n dest!: member_pairs_members)
  moreover have "0 \<le> blueprintBiasMultiplier * (if max_weight orig = 0 then 1 else max_weight orig)"
    using max_weight_nonneg [of orig] by (simp add: blueprintBiasMultiplier_def)
  ultimately show "ug_ok (augment orig ms)" and "set (nodes (augment orig ms)) = set ms"
    using add_pairs_ok [OF cloneGraph_ok [OF ok]] by (simp_all add: augment_def Let_def cloneGraph_view [OF ok] n)
qed

section \<open>The clusters\<close>

lemma louvain_loop_keeps:
  assumes "louvain_loop fl g vs com = Some com'" and "ug_ok g" and "phase_state g ns L com" and "set vs \<subseteq> set (nodes g)"
  shows "phase_state g ns L com'"
proof -
  have "ug_ok g \<longrightarrow> phase_state g ns L com \<longrightarrow> set vs \<subseteq> set (nodes g) \<longrightarrow> phase_state g ns L com'"
  proof (rule louvain_loop.raw_induct
      [where P = "\<lambda>fl g vs com com'. ug_ok g \<longrightarrow> phase_state g ns L com \<longrightarrow> set vs \<subseteq> set (nodes g) \<longrightarrow> phase_state g ns L com'",
       OF _ assms(1)], intro impI)
    fix loop fl g vs com r
    assume IH: "\<And>fl g vs com r. loop fl g vs com = Some r \<Longrightarrow>
        ug_ok g \<longrightarrow> phase_state g ns L com \<longrightarrow> set vs \<subseteq> set (nodes g) \<longrightarrow> phase_state g ns L r"
      and body: "(case foldl (louvain_node fl g) (False, com) vs of
          (moved, com') \<Rightarrow> if moved then loop fl g vs com' else Some com') = Some r"
      and ok: "ug_ok g" and ps: "phase_state g ns L com" and vs: "set vs \<subseteq> set (nodes g)"
    obtain b com1 where pass: "foldl (louvain_node fl g) (False, com) vs = (b, com1)" by fastforce
    have "phase_state g ns L com1" by (rule louvain_pass_keeps [OF ok ps vs pass])
    with IH body ok vs show "phase_state g ns L r" by (cases b) (simp_all add: pass)
  qed
  with assms show ?thesis by blast
qed

lemma seed_state:
  assumes "set (nodes g) = set ms"
  shows "phase_state g (remdups ms) (groupOf ` set ms) (seed ms)"
proof -
  have "map fst (seed ms) = remdups ms" by (simp add: seed_def comp_def)
  moreover have "snd ` set (seed ms) \<subseteq> groupOf ` set ms" by (auto simp: seed_def)
  moreover from calculation have "fst ` set (seed ms) = set ms" by (metis set_map set_remdups)
  ultimately show ?thesis using assms by (simp add: phase_state_def assignments_def over_def)
qed

lemma phase1_over:
  assumes ok: "ug_ok g" and n: "set (nodes g) = set ms" and "louvainPhase1 fl g (seed ms) = Some com"
  shows "phase_state g (remdups ms) (groupOf ` set ms) com"
  using assms(3) louvain_loop_keeps [OF _ ok seed_state [OF n], of fl "sort (nodes g)"] seed_state [OF n]
  by (simp add: louvainPhase1_def split: if_splits)

lemma phase1_terminates:
  assumes ok: "ug_ok g" and n: "set (nodes g) = set ms"
  shows "\<exists>com. louvainPhase1 (\<lambda>x. x) g (seed ms) = Some com"
  using louvain_loop_terminates [OF ok _ _ seed_state [OF n], of "sort (nodes g)"]
  by (simp add: louvainPhase1_def)

lemma over_same_nodes: "over g com \<Longrightarrow> set (nodes h) = set (nodes g) \<Longrightarrow> over h com"
  by (simp add: over_def)

text \<open>A run that ends has a community assignment over the modules, settled on the original graph.\<close>

lemma Louvain_Cluster_result:
  assumes inp: "input_ok input" and fair: "fair sched" and ne: "ci_DomainModules input \<noteq> []"
    and "Louvain_Cluster fl sched input = Some r"
  obtains com where
    "over (projection (ci_DomainGraph input) (ci_DomainModules input)) com"
    "settled (projection (ci_DomainGraph input) (ci_DomainModules input)) com"
    "cr_Clusters r = collect (ci_DomainModules input) com"
    "labels com \<subseteq> groupOf ` set (ci_DomainModules input)"
proof -
  let ?ms = "ci_DomainModules input"
  let ?orig = "projection (ci_DomainGraph input) ?ms"
  let ?aug = "augment ?orig ?ms"
  note orig = projection_ok [OF inp]
  note aug = augment_ok [OF orig(1,2)]
  from assms(4) ne obtain c1 c2 where c1: "louvainPhase1 fl ?aug (seed ?ms) = Some c1"
    and c2: "absorbSingletons sched ?orig c1 = Some c2" and r: "cr_Clusters r = collect ?ms c2"
    by (auto simp: Louvain_Cluster_def Let_def split: option.splits)
  have "over ?aug c1" and l1: "labels c1 \<subseteq> groupOf ` set ?ms"
    using phase1_over [OF aug c1] by (simp_all add: phase_state_def assignments_def labels_def)
  from this(1) have "over ?orig c1" by (rule over_same_nodes) (simp add: orig(2) aug(2))
  from absorb_loop_ends [OF orig(1) fair this, of 0] c2
  have "over ?orig c2" and "settled ?orig c2" and "labels c2 \<subseteq> labels c1" by (auto simp: absorbSingletons_def)
  with r l1 show ?thesis by (intro that [of c2]) auto
qed

lemma Louvain_Cluster_returns:
  assumes inp: "input_ok input" and fair: "fair sched"
    and phase1: "\<And>g. ug_ok g \<Longrightarrow> set (nodes g) = set (ci_DomainModules input) \<Longrightarrow>
      \<exists>com. louvainPhase1 fl g (seed (ci_DomainModules input)) = Some com"
  shows "\<exists>r. Louvain_Cluster fl sched input = Some r"
proof -
  let ?ms = "ci_DomainModules input"
  let ?orig = "projection (ci_DomainGraph input) ?ms"
  let ?aug = "augment ?orig ?ms"
  note orig = projection_ok [OF inp]
  note aug = augment_ok [OF orig(1,2)]
  obtain c1 where c1: "louvainPhase1 fl ?aug (seed ?ms) = Some c1" using phase1 [OF aug] by blast
  have "over ?orig c1"
    using phase1_over [OF aug c1] over_same_nodes [of ?aug c1 ?orig] by (simp add: phase_state_def orig(2) aug(2))
  from absorb_loop_ends [OF orig(1) fair this, of 0] c1 show ?thesis
    by (auto simp: Louvain_Cluster_def Let_def absorbSingletons_def)
qed

lemma mset_by_label:
  "distinct ls \<Longrightarrow>
   mset (concat (map (\<lambda>c. sort (filter (\<lambda>m. f m = c) xs)) ls)) = mset (filter (\<lambda>m. f m \<in> set ls) xs)"
proof (induction ls)
  case (Cons l ls)
  have "mset (filter (\<lambda>m. f m = l \<or> f m \<in> set ls) xs) = mset (filter (\<lambda>m. f m = l) xs) + mset (filter (\<lambda>m. f m \<in> set ls) xs)"
    using Cons.prems by (induction xs) auto
  with Cons show ?case by simp
qed simp

lemma collect_partition: "mset (concat (map cluster_Modules (collect ms com))) = mset ms"
proof -
  have "mset (filter (\<lambda>m. comm com m \<in> set (sort (remdups (map (comm com) ms)))) ms) = mset ms"
    by (intro arg_cong [where f = mset] filter_True) simp
  then show ?thesis
    using mset_by_label [of "sort (remdups (map (comm com) ms))" "comm com" ms] by (simp add: collect_def comp_def)
qed

lemma collect_cluster:
  assumes "c \<in> set (collect ms com)"
  shows "cluster_Modules c \<noteq> []" and "sorted (cluster_Modules c)"
    and "set (cluster_Modules c) = {m \<in> set ms. comm com m = cluster_BlueprintGroup c}"
    and "cluster_BlueprintGroup c \<in> comm com ` set ms"
proof -
  from assms obtain m where m: "m \<in> set ms" and c: "c = \<lparr> cluster_BlueprintGroup = comm com m,
      cluster_Modules = sort (filter (\<lambda>x. comm com x = comm com m) ms) \<rparr>"
    by (auto simp: collect_def)
  show sets: "set (cluster_Modules c) = {m \<in> set ms. comm com m = cluster_BlueprintGroup c}" by (simp add: c)
  then have "m \<in> set (cluster_Modules c)" using m by (simp add: c)
  then show "cluster_Modules c \<noteq> []" by auto
  show "sorted (cluster_Modules c)" and "cluster_BlueprintGroup c \<in> comm com ` set ms" using m by (simp_all add: c)
qed

lemma collect_labels: "sorted_wrt (<) (map cluster_BlueprintGroup (collect ms com))"
  by (simp add: collect_def comp_def strict_sorted_iff)

end
