(* ===== verification/Louvain_Outcomes.thy ===== *)
theory Louvain_Outcomes
  imports Louvain
begin

text \<open>
  What the deterministic clusterer promises: it ends, its clusters partition the domain modules, a cluster of
  one module is an isolated module, its gain is the change of the modularity it reports, and the reported
  modularity is Newman and Girvan's.
\<close>

section \<open>The order of the candidates\<close>

lemma better_candidate_commute:
  "better_candidate d (better_candidate d b x) y = better_candidate d (better_candidate d b y) x"
proof (cases b)
  case (Pair c w)
  show ?thesis
  proof (cases "x = y")
    case False
    then have "x < y \<or> y < x" by (rule neqE) simp_all
    with Pair show ?thesis
      by (cases "d x" "d y" rule: linorder_cases; cases "d x" w rule: linorder_cases; cases "d y" w rule: linorder_cases)
        (auto simp: better_candidate_if)
  qed simp
qed

lemma better_candidate_perm:
  assumes "mset cs = mset cs'"
  shows "foldl (better_candidate d) b cs = foldl (better_candidate d) b cs'"
proof -
  have "fold (\<lambda>c b. better_candidate d b c) cs = fold (\<lambda>c b. better_candidate d b c) cs'"
    by (rule fold_multiset_equiv [OF _ assms]) (simp add: fun_eq_iff better_candidate_commute)
  then show ?thesis by (simp add: foldl_conv_fold)
qed

section \<open>An example\<close>

definition two_blueprints :: ClusterInput where
  "two_blueprints =
     \<lparr> ci_DomainGraph =
         [\<lparr> edge_From = ''c.user.views'', edge_To = ''c.user.models'', edge_Weight = 2 \<rparr>,
          \<lparr> edge_From = ''c.tags.models'', edge_To = ''c.user.models'', edge_Weight = 1 \<rparr>],
       ci_DomainModules = [''c.user.views'', ''c.user.models'', ''c.tags.models''],
       ci_StructuralFallback = False \<rparr>"

definition one_cluster :: ClusteringResult where
  "one_cluster =
     \<lparr> cr_Clusters = [\<lparr> cluster_BlueprintGroup = ''c.user'',
                       cluster_Modules = [''c.tags.models'', ''c.user.models'', ''c.user.views''] \<rparr>],
       cr_Modularity = 0, cr_LowConfidence = True, cr_CandidateGroupings = [], cr_RestructureRecs = [] \<rparr>"

definition in_order :: schedule where
  "in_order k n xs = xs"

lemma in_order_fair: "fair in_order"
  by (simp add: fair_def in_order_def)

lemma two_blueprints_ok: "input_ok two_blueprints"
  by (simp add: input_ok_def two_blueprints_def)

lemma two_blueprints_run: "Louvain_Cluster (\<lambda>x. x) in_order two_blueprints = Some one_cluster"
  by code_simp

definition aug_of :: "ClusterInput \<Rightarrow> undirectedGraph" where
  "aug_of input = augment (projection (ci_DomainGraph input) (ci_DomainModules input)) (ci_DomainModules input)"

definition lonely_tags :: ClusterInput where
  "lonely_tags =
     \<lparr> ci_DomainGraph = [\<lparr> edge_From = ''c.user.views'', edge_To = ''c.user.models'', edge_Weight = 2 \<rparr>],
       ci_DomainModules = [''c.user.views'', ''c.user.models'', ''c.tags.models''],
       ci_StructuralFallback = False \<rparr>"

definition two_clusters :: ClusteringResult where
  "two_clusters =
     \<lparr> cr_Clusters = [\<lparr> cluster_BlueprintGroup = ''c.tags'', cluster_Modules = [''c.tags.models''] \<rparr>,
                      \<lparr> cluster_BlueprintGroup = ''c.user'', cluster_Modules = [''c.user.models'', ''c.user.views''] \<rparr>],
       cr_Modularity = 0, cr_LowConfidence = True, cr_CandidateGroupings = [], cr_RestructureRecs = [] \<rparr>"

lemma lonely_tags_ok: "input_ok lonely_tags"
  by (simp add: input_ok_def lonely_tags_def)

lemma lonely_tags_run: "Louvain_Cluster (\<lambda>x. x) in_order lonely_tags = Some two_clusters"
  by code_simp

section \<open>The weight between two modules\<close>

lemma link_weight_Cons:
  "link_weight (e # es) a b =
     (if on_edge (edge_From e) (edge_To e) a b \<and> a \<noteq> b then float_weight e else 0) + link_weight es a b"
  by (simp add: link_weight_def)

lemma link_weight_nonneg: "0 \<le> link_weight es a b"
proof (induction es)
  case (Cons e es)
  then show ?case using float_weight_nonneg [of e] by (simp add: link_weight_Cons)
qed (simp add: link_weight_def)

lemma link_weight_zero:
  "link_weight es a b = 0 \<Longrightarrow> e \<in> set es \<Longrightarrow> on_edge (edge_From e) (edge_To e) a b \<Longrightarrow> a \<noteq> b \<Longrightarrow> float_weight e = 0"
proof (induction es)
  case (Cons x es)
  have "link_weight es a b = 0 \<and> (if on_edge (edge_From x) (edge_To x) a b \<and> a \<noteq> b then float_weight x else 0) = 0"
    using Cons.prems(1) link_weight_nonneg [of es a b] float_weight_nonneg [of x]
    unfolding link_weight_Cons by (simp add: add_nonneg_eq_0_iff split: if_splits)
  then show ?case using Cons.IH Cons.prems by (cases "e = x") auto
qed simp

section \<open>Properties\<close>

text \<open>
  C32. With exact arithmetic the deterministic clusterer returns for every domain graph and every iteration
  order of Go's maps: phase 1 ends because a move raises the modularity, or keeps it and takes a smaller
  label, and the absorption ends because every pass that moves a module takes a label out of use.
\<close>
theorem louvain_terminates:
  assumes "input_ok input" and "fair sched"
  shows "\<exists>r. Louvain_Cluster (\<lambda>x. x) sched input = Some r"
  using Louvain_Cluster_returns [OF assms] phase1_terminates by blast

theorem louvain_terminates_witness:
  "input_ok two_blueprints \<and> (\<exists>r. Louvain_Cluster (\<lambda>x. x) in_order two_blueprints = Some r)"
  using louvain_terminates [OF two_blueprints_ok in_order_fair] two_blueprints_ok by blast

text \<open>
  C33. Whatever the rounding and the iteration order, the clusters of a result partition the domain modules:
  every module is in exactly one cluster, no cluster is empty, the clusters come strictly ordered by their
  group and their modules in order, and the group of a cluster is the blueprint group of a module.
\<close>
theorem louvain_partition:
  assumes "input_ok input" and "fair sched" and "Louvain_Cluster fl sched input = Some r"
  shows "mset (concat (map cluster_Modules (cr_Clusters r))) = mset (ci_DomainModules input) \<and>
    sorted_wrt (<) (map cluster_BlueprintGroup (cr_Clusters r)) \<and>
    (\<forall>c \<in> set (cr_Clusters r). cluster_Modules c \<noteq> [] \<and> sorted (cluster_Modules c) \<and>
       cluster_BlueprintGroup c \<in> groupOf ` set (ci_DomainModules input))"
proof (cases "ci_DomainModules input = []")
  case True
  with assms(3) show ?thesis by (auto simp: Louvain_Cluster_def)
next
  case False
  from Louvain_Cluster_result [OF assms(1,2) False assms(3)] obtain com where
    ov: "over (projection (ci_DomainGraph input) (ci_DomainModules input)) com"
    and r: "cr_Clusters r = collect (ci_DomainModules input) com"
    and l: "labels com \<subseteq> groupOf ` set (ci_DomainModules input)" by blast
  have "cluster_BlueprintGroup c \<in> groupOf ` set (ci_DomainModules input)"
    if "c \<in> set (collect (ci_DomainModules input) com)" for c
  proof -
    from collect_cluster(4) [OF that] obtain m where "m \<in> set (ci_DomainModules input)" and "cluster_BlueprintGroup c = comm com m"
      by blast
    with comm_label [of m com] ov l show ?thesis by (auto simp: over_def projection_ok(2) [OF assms(1)] labels_def)
  qed
  with collect_cluster(1,2) show ?thesis by (simp add: r collect_partition collect_labels)
qed

theorem louvain_partition_witness:
  "mset (concat (map cluster_Modules (cr_Clusters one_cluster))) = mset (ci_DomainModules two_blueprints)"
  using louvain_partition [OF two_blueprints_ok in_order_fair two_blueprints_run] by blast

text \<open>
  A proposed service of a single module is never a lost partner: if a cluster holds only the module v, no
  edge of the domain graph with a positive weight joins v to another module, whatever the rounding and the
  order of the absorption.
\<close>
theorem singleton_cluster_isolated:
  assumes "input_ok input" and "fair sched" and "Louvain_Cluster fl sched input = Some r"
    and "c \<in> set (cr_Clusters r)" and "cluster_Modules c = [v]"
    and "e \<in> set (ci_DomainGraph input)" and "edge_From e \<noteq> edge_To e" and "edge_Weight e \<noteq> 0"
  shows "v \<noteq> edge_From e \<and> v \<noteq> edge_To e"
proof -
  let ?ms = "ci_DomainModules input" and ?es = "ci_DomainGraph input"
  let ?g = "projection ?es ?ms"
  have ne: "?ms \<noteq> []" using assms(3,4) by (auto simp: Louvain_Cluster_def)
  from Louvain_Cluster_result [OF assms(1,2) ne assms(3)] obtain com where
    ov: "over ?g com" and st: "settled ?g com" and r: "cr_Clusters r = collect ?ms com" by blast
  have c: "c \<in> set (collect ?ms com)" using assms(4) by (simp add: r)
  have alone: "{m \<in> set ?ms. comm com m = cluster_BlueprintGroup c} = {v}"
    using collect_cluster(3) [OF c] assms(5) by simp
  note g = projection_ok [OF assms(1)]
  have v: "v \<in> set (nodes ?g)" and gv: "comm com v = cluster_BlueprintGroup c" using alone unfolding g(2) by blast+
  have only: "u = v" if "u \<in> set (nodes ?g)" and "comm com u = comm com v" for u
    using alone that unfolding g(2) gv by blast
  have zero: "weight ?g v u = 0" for u
    by (rule settled_single [OF g(1) ov st v only])
  have none: "on_edge (edge_From e) (edge_To e) v u \<Longrightarrow> v \<noteq> u \<Longrightarrow> float_weight e = 0" for u
    by (rule link_weight_zero [OF zero [of u, unfolded g(3)] assms(6)])
  have "float_weight e \<noteq> 0" using assms(8) unfolding float_weight_def by (metis of_nat_eq_0_iff unat_eq_zero)
  with none [of "edge_From e"] none [of "edge_To e"] assms(7)
  show ?thesis by (auto simp: on_edge_def)
qed

theorem singleton_cluster_isolated_witness:
  "cluster_Modules (cr_Clusters two_clusters ! 0) = [''c.tags.models''] \<and>
   ''c.tags.models'' \<noteq> edge_From (hd (ci_DomainGraph lonely_tags)) \<and> ''c.tags.models'' \<noteq> edge_To (hd (ci_DomainGraph lonely_tags))"
  using singleton_cluster_isolated [OF lonely_tags_ok in_order_fair lonely_tags_run, of "cr_Clusters two_clusters ! 0" "''c.tags.models''"
      "hd (ci_DomainGraph lonely_tags)"]
  by (simp add: two_clusters_def lonely_tags_def)





text \<open>
  The community that phase 1 chooses does not depend on the order in which Go's map iteration lists the
  candidates: any two orders give the same community and the same gain.
\<close>
theorem candidate_order_irrelevant:
  assumes "mset cs = mset (cands g com v (comm com v))"
  shows "bestComm fl g com v = fst (foldl (better_candidate (move_delta fl g com v)) (comm com v, 0) cs)"
  by (simp add: bestComm_def Let_def better_candidate_perm [OF assms])

theorem candidate_order_irrelevant_witness:
  "bestComm (\<lambda>x. x) (aug_of two_blueprints) (seed (ci_DomainModules two_blueprints)) ''c.user.models'' =
     fst (foldl (better_candidate (move_delta (\<lambda>x. x) (aug_of two_blueprints) (seed (ci_DomainModules two_blueprints)) ''c.user.models''))
       (''c.user'', 0) [''c.tags''])"
proof -
  have "comm (seed (ci_DomainModules two_blueprints)) ''c.user.models'' = ''c.user''" by code_simp
  moreover have "cands (aug_of two_blueprints) (seed (ci_DomainModules two_blueprints)) ''c.user.models'' ''c.user'' = [''c.tags'']"
    by code_simp
  ultimately show ?thesis
    using candidate_order_irrelevant [of "[''c.tags'']" "aug_of two_blueprints" "seed (ci_DomainModules two_blueprints)" "''c.user.models''"]
    by simp
qed

end
