(* ===== verification/Prefix_Allocator.thy ===== *)
theory Prefix_Allocator
  imports Prelude
begin

text \<open>
  The allocator of error-code prefixes (\<^verbatim>\<open>deterministic_prefix_allocator.go\<close>). Its state is the map from a
  prefix to the service that claimed it first. The mutex makes a call one step, so the state is passed from
  call to call. The candidates of a service are its base (the first three bytes of the upper-cased name,
  padded with X) and the first two bytes of the base followed by the numbers 2 to 99.
\<close>

section \<open>The allocator\<close>

type_synonym prefix_map = "string \<rightharpoonup> string"

definition prefix_base :: "string \<Rightarrow> string" where
  "prefix_base serviceName =
     (let upper = ToUpper serviceName
      in take 3 (upper @ replicate (3 - length upper) (CHR ''X'')))"

function allocate_from :: "string \<Rightarrow> string \<Rightarrow> string \<Rightarrow> nat \<Rightarrow> prefix_map \<Rightarrow> (go_error + string) \<times> prefix_map" where
  "allocate_from serviceName base candidate i assigned =
     (case assigned candidate of
        None \<Rightarrow> (Inr candidate, assigned(candidate \<mapsto> serviceName))
      | Some owner \<Rightarrow>
          if owner = serviceName then (Inr candidate, assigned)
          else if i > 99
          then (Inl (ErrStr (''prefix allocator exhausted candidates for service '' @ quoted serviceName)), assigned)
          else allocate_from serviceName base (take 2 base @ Itoa (int i)) (i + 1) assigned)"
  by pat_completeness auto
termination
  by (relation "measure (\<lambda>(s, b, c, i, a). 100 - i)") auto

declare allocate_from.simps [simp del]

definition Allocate :: "string \<Rightarrow> prefix_map \<Rightarrow> (go_error + string) \<times> prefix_map" where
  "Allocate serviceName assigned =
     allocate_from serviceName (prefix_base serviceName) (prefix_base serviceName) 2 assigned"

text \<open>A sequence of calls, from the allocator a fresh worker has.\<close>

fun allocations :: "string list \<Rightarrow> prefix_map \<Rightarrow> prefix_map" where
  "allocations [] a = a"
| "allocations (s # ss) a = allocations ss (snd (Allocate s a))"

section \<open>Reference: the first free candidate\<close>

definition numbered_candidates :: "string \<Rightarrow> nat \<Rightarrow> string list" where
  "numbered_candidates base i = map (\<lambda>k. take 2 base @ Itoa (int k)) [i..<100]"

definition prefix_candidates :: "string \<Rightarrow> string list" where
  "prefix_candidates s = prefix_base s # numbered_candidates (prefix_base s) 2"

definition available :: "prefix_map \<Rightarrow> string \<Rightarrow> string \<Rightarrow> bool" where
  "available a s c \<longleftrightarrow> (case a c of None \<Rightarrow> True | Some owner \<Rightarrow> owner = s)"

definition first_available :: "prefix_map \<Rightarrow> string \<Rightarrow> string list \<Rightarrow> (go_error + string) \<times> prefix_map" where
  "first_available a s cs =
     (case filter (available a s) cs of
        [] \<Rightarrow> (Inl (ErrStr (''prefix allocator exhausted candidates for service '' @ quoted s)), a)
      | c # _ \<Rightarrow> (Inr c, a(c \<mapsto> s)))"

lemma first_available_Cons:
  "first_available a s (c # cs) = (if available a s c then (Inr c, a(c \<mapsto> s)) else first_available a s cs)"
  by (simp add: first_available_def)

lemma claimed_again [simp]: "a c = Some s \<Longrightarrow> a(c \<mapsto> s) = a"
  by auto

lemma numbered_candidates_step:
  "i \<le> 99 \<Longrightarrow> numbered_candidates base i = (take 2 base @ Itoa (int i)) # numbered_candidates base (Suc i)"
  by (simp add: numbered_candidates_def upt_conv_Cons)

lemma allocate_from_first:
  "allocate_from s base c i a = first_available a s (c # numbered_candidates base i)"
proof (induction s base c i a rule: allocate_from.induct)
  case (1 s base c i a)
  show ?case
  proof (cases "a c")
    case None
    then show ?thesis
      by (simp add: allocate_from.simps [of s base c i a] first_available_Cons available_def)
  next
    case (Some owner)
    show ?thesis
    proof (cases "owner = s")
      case True
      with Some show ?thesis
        by (simp add: allocate_from.simps [of s base c i a] first_available_Cons available_def)
    next
      case False
      then have no: "\<not> available a s c" using Some by (simp add: available_def)
      show ?thesis
      proof (cases "i > 99")
        case True
        with Some False no show ?thesis
          by (simp add: allocate_from.simps [of s base c i a] first_available_def numbered_candidates_def)
      next
        case i: False
        then have "allocate_from s base c i a = allocate_from s base (take 2 base @ Itoa (int i)) (i + 1) a"
          using Some False by (simp add: allocate_from.simps [of s base c i a])
        also have "\<dots> = first_available a s ((take 2 base @ Itoa (int i)) # numbered_candidates base (i + 1))"
          using "1.IH" [OF Some False i] .
        finally show ?thesis
          using i no by (simp add: first_available_Cons [of a s c] numbered_candidates_step)
      qed
    qed
  qed
qed

lemma Allocate_first: "Allocate s a = first_available a s (prefix_candidates s)"
  by (simp add: Allocate_def allocate_from_first prefix_candidates_def)

section \<open>A claimed prefix stays claimed\<close>

lemma first_available_cases:
  assumes "first_available a s cs = (r, a')"
  obtains (exhausted) "r = Inl (ErrStr (''prefix allocator exhausted candidates for service '' @ quoted s))" "a' = a"
      "\<And>c. c \<in> set cs \<Longrightarrow> \<not> available a s c"
    | (claimed) c where "r = Inr c" "a' = a(c \<mapsto> s)" "c \<in> set cs" "available a s c"
proof (cases "filter (available a s) cs")
  case Nil
  with assms show ?thesis by (intro exhausted) (auto simp: first_available_def filter_empty_conv)
next
  case (Cons c ds)
  then have "c \<in> set (filter (available a s) cs)" by simp
  then have "c \<in> set cs" and "available a s c" by simp_all
  with assms Cons show ?thesis by (intro claimed [of c]) (simp_all add: first_available_def)
qed

lemma Allocate_extends: "a \<subseteq>\<^sub>m snd (Allocate s a)"
proof -
  obtain r a' where *: "first_available a s (prefix_candidates s) = (r, a')" by fastforce
  then have "a \<subseteq>\<^sub>m a'"
    by (cases rule: first_available_cases) (auto simp: map_le_def available_def split: option.splits)
  with * show ?thesis by (simp add: Allocate_first)
qed

lemma allocations_extend: "a \<subseteq>\<^sub>m allocations ss a"
proof (induction ss arbitrary: a)
  case (Cons s ss)
  show ?case using map_le_trans [OF Allocate_extends Cons.IH] by simp
qed simp

text \<open>Every candidate before the claimed one has another owner, now and after any extension.\<close>

lemma first_available_stable:
  assumes "first_available a s cs = (Inr c, a')" and "a' \<subseteq>\<^sub>m b"
  shows "first_available b s cs = (Inr c, b)"
  using assms(1)
proof (induction cs)
  case Nil
  then show ?case by (simp add: first_available_def)
next
  case (Cons d ds)
  show ?case
  proof (cases "available a s d")
    case True
    with Cons.prems have "d = c" and "a' = a(c \<mapsto> s)" by (auto simp: first_available_Cons)
    with assms(2) have "b c = Some s" by (auto simp: map_le_def)
    with \<open>d = c\<close> show ?thesis by (simp add: first_available_Cons available_def)
  next
    case False
    with Cons.prems have rest: "first_available a s ds = (Inr c, a')" by (simp add: first_available_Cons)
    from False obtain owner where own: "a d = Some owner" "owner \<noteq> s" by (auto simp: available_def split: option.splits)
    from rest have "a \<subseteq>\<^sub>m a'"
      by (cases rule: first_available_cases) (auto simp: map_le_def available_def split: option.splits)
    with own assms(2) have "b d = Some owner" by (metis map_le_def domI)
    with own have "\<not> available b s d" by (simp add: available_def)
    with Cons.IH [OF rest] show ?thesis by (simp add: first_available_Cons)
  qed
qed

section \<open>The shape of a prefix\<close>

lemma length_prefix_base [simp]: "length (prefix_base s) = 3"
  by (simp add: prefix_base_def Let_def)

lemma length_digits: "n < 10 \<Longrightarrow> length (digits n) = 1" "10 \<le> n \<Longrightarrow> n < 100 \<Longrightarrow> length (digits n) = 2"
  by (simp_all add: digits.simps [of n] digits.simps [of "n div 10"] div_less_iff_less_mult)

lemma candidate_length: "c \<in> set (prefix_candidates s) \<Longrightarrow> length c \<in> {3, 4}"
proof -
  assume "c \<in> set (prefix_candidates s)"
  then consider "c = prefix_base s" | k where "k \<in> {2..<100}" and "c = take 2 (prefix_base s) @ digits k"
    unfolding prefix_candidates_def numbered_candidates_def Itoa_def set_map set_upt list.set by fastforce
  then show "length c \<in> {3, 4}"
  proof cases
    case 2
    then show ?thesis using length_digits [of k] by (cases "k < 10") simp_all
  qed simp
qed

section \<open>Properties\<close>

text \<open>
  The retry loop of the allocator equals its specification: the first candidate that is free or already
  owned by the service (base, then the numbered ones up to 99) is claimed and returned, and when there is
  none the call fails without changing the registry.
\<close>
theorem Allocate_spec:
  "Allocate s a =
     (case filter (\<lambda>c. a c = None \<or> a c = Some s) (prefix_candidates s) of
        [] \<Rightarrow> (Inl (ErrStr (''prefix allocator exhausted candidates for service '' @ quoted s)), a)
      | c # _ \<Rightarrow> (Inr c, a(c \<mapsto> s)))"
proof -
  have "available a s = (\<lambda>c. a c = None \<or> a c = Some s)"
    by (rule ext) (simp add: available_def split: option.split)
  then show ?thesis by (simp add: Allocate_first first_available_def)
qed

text \<open>
  A prefix identifies one service for the life of the allocator: after a call for s returned p, and after
  any further calls for any services, s still gets p and changes nothing, no other service gets p, and p has
  three characters, or four once nine services share its first two letters.
\<close>
theorem prefix_is_stable_and_unique:
  assumes "Allocate s a = (Inr p, a')"
  shows "Allocate s (allocations ss a') = (Inr p, allocations ss a') \<and>
    (\<forall>t. t \<noteq> s \<longrightarrow> fst (Allocate t (allocations ss a')) \<noteq> Inr p) \<and> length p \<in> {3, 4}"
proof (intro conjI allI impI)
  let ?b = "allocations ss a'"
  have first: "first_available a s (prefix_candidates s) = (Inr p, a')" using assms by (simp add: Allocate_first)
  have ext: "a' \<subseteq>\<^sub>m ?b" by (rule allocations_extend)
  show "Allocate s ?b = (Inr p, ?b)"
    using first_available_stable [OF first ext] by (simp add: Allocate_first)
  from first have p: "p \<in> set (prefix_candidates s)" and "a' p = Some s" by (cases rule: first_available_cases; simp)+
  with ext have own: "?b p = Some s" by (metis map_le_def domI)
  fix t assume "t \<noteq> s"
  obtain r b' where t: "first_available ?b t (prefix_candidates t) = (r, b')" by fastforce
  then have "r \<noteq> Inr p"
    by (cases rule: first_available_cases) (use own \<open>t \<noteq> s\<close> in \<open>auto simp: available_def\<close>)
  with t show "fst (Allocate t ?b) \<noteq> Inr p" by (simp add: Allocate_first)
next
  from assms have "first_available a s (prefix_candidates s) = (Inr p, a')" by (simp add: Allocate_first)
  then have "p \<in> set (prefix_candidates s)" by (cases rule: first_available_cases) simp_all
  then show "length p \<in> {3, 4}" by (rule candidate_length)
qed

theorem prefix_is_stable_and_unique_witness:
  "Allocate ''articles'' (allocations [''art_store'', ''users'']  (Map.empty(''ART'' \<mapsto> ''articles''))) =
     (Inr ''ART'', allocations [''art_store'', ''users''] (Map.empty(''ART'' \<mapsto> ''articles''))) \<and>
   fst (Allocate ''art_store'' (allocations [''art_store'', ''users''] (Map.empty(''ART'' \<mapsto> ''articles'')))) \<noteq> Inr ''ART''"
proof -
  have base: "prefix_base ''articles'' = ''ART''" by code_simp
  have "Allocate ''articles'' Map.empty = (Inr ''ART'', Map.empty(''ART'' \<mapsto> ''articles''))"
    unfolding Allocate_def base by (simp add: allocate_from.simps)
  from prefix_is_stable_and_unique [OF this, of "[''art_store'', ''users'']"] show ?thesis by simp
qed

end
