(* ===== verification/Decomposition_Plan.thy ===== *)
theory Decomposition_Plan
  imports Louvain Prefix_Allocator
begin

text \<open>
  Stages 4, 6 and 7 of the decomposition worker (\<^verbatim>\<open>worker/decomposition/application/pipeline.go\<close>): a service
  candidate per cluster with its prefix, resources, dependencies and couplings; the ownership of data; and the
  plan and the design artifacts that the writers persist. The prefix allocator is an operation over a world;
  on the registry of the deterministic allocator it is \<open>allocate_io\<close>.
\<close>

section \<open>Stage 4: characterization\<close>

definition serviceNameFromBlueprint :: "string \<Rightarrow> string" where
  "serviceNameFromBlueprint blueprintGroup =
     (let sep = (if backslash \<in> set blueprintGroup then backslash else CHR ''.'')
      in ToLower (last (strings_Split blueprintGroup sep)))"

text \<open>The map from a module to its service; a later cluster overrides an earlier one, and a module of no
  cluster has the empty name.\<close>

definition moduleToService :: "Cluster list \<Rightarrow> Module \<Rightarrow> string" where
  "moduleToService clusters m =
     (case find (\<lambda>c. m \<in> set (cluster_Modules c)) (rev clusters) of
        None \<Rightarrow> [] | Some c \<Rightarrow> serviceNameFromBlueprint (cluster_BlueprintGroup c))"

definition crosses :: "Cluster list \<Rightarrow> string \<Rightarrow> Edge \<Rightarrow> bool" where
  "crosses clusters svcName e \<longleftrightarrow>
     (let fromSvc = moduleToService clusters (edge_From e);
          toSvc = moduleToService clusters (edge_To e)
      in \<not> (fromSvc \<noteq> svcName \<or> toSvc = [] \<or> toSvc = svcName))"

definition model_deps :: "Graph \<Rightarrow> Cluster list \<Rightarrow> string \<Rightarrow> string list" where
  "model_deps domainGraph clusters svcName =
     sort (remdups (map (\<lambda>e. moduleToService clusters (edge_To e))
       (filter (\<lambda>e. crosses clusters svcName e \<and> HasSuffix (edge_From e) ''.models'') domainGraph)))"

definition coupling_key :: "svc_coupling \<Rightarrow> string" where
  "coupling_key oc = opc_FromModule oc @ arrow_right @ opc_ToService oc"

text \<open>The set of keys keeps the first occurrence, so the couplings are in the order of the edges before the
  sort.\<close>

definition model_couplings :: "Graph \<Rightarrow> Cluster list \<Rightarrow> string \<Rightarrow> svc_coupling list" where
  "model_couplings domainGraph clusters svcName =
     sort_slice (\<lambda>a b. coupling_key a < coupling_key b)
       (rev (remdups (rev (map (\<lambda>e. \<lparr> opc_FromService = moduleToService clusters (edge_From e),
                          opc_ToService = moduleToService clusters (edge_To e), opc_FromModule = edge_From e \<rparr>)
          (filter (\<lambda>e. crosses clusters svcName e \<and> \<not> HasSuffix (edge_From e) ''.models'') domainGraph)))))"

definition candidate :: "Graph \<Rightarrow> Cluster list \<Rightarrow> Cluster \<Rightarrow> string \<Rightarrow> ServiceCandidate" where
  "candidate domainGraph clusters c prefix =
     (let svcName = serviceNameFromBlueprint (cluster_BlueprintGroup c)
      in \<lparr> sc_Name = svcName, sc_ErrorPrefix = prefix,
           sc_OwnedResources = sort (filter (\<lambda>m. HasSuffix m ''.models'') (cluster_Modules c)),
           sc_Deps = model_deps domainGraph clusters svcName,
           sc_OperationalCouplings = model_couplings domainGraph clusters svcName \<rparr>)"

fun characterize_clusters ::
  "(string \<Rightarrow> ('w, string) io) \<Rightarrow> Graph \<Rightarrow> Cluster list \<Rightarrow> Cluster list \<Rightarrow> ('w, ServiceCandidate list) io" where
  "characterize_clusters allocate domainGraph clusters [] = io_ok []"
| "characterize_clusters allocate domainGraph clusters (c # cs) =
     (let svcName = serviceNameFromBlueprint (cluster_BlueprintGroup c)
      in io_bind (io_wrap (''prefix allocation for '' @ quoted svcName @ '': '') (allocate svcName)) (\<lambda>prefix.
         io_bind (characterize_clusters allocate domainGraph clusters cs) (\<lambda>rest.
           io_ok (candidate domainGraph clusters c prefix # rest))))"

definition characterize ::
  "(string \<Rightarrow> ('w, string) io) \<Rightarrow> Graph \<Rightarrow> Cluster list \<Rightarrow> ('w, ServiceCandidate list) io" where
  "characterize allocate domainGraph clusters = characterize_clusters allocate domainGraph clusters clusters"

definition allocate_io :: "string \<Rightarrow> (prefix_map, string) io" where
  "allocate_io s = State (Allocate s)"

section \<open>Stage 6: ownership of data\<close>

definition fk_key :: "CrossServiceFK \<Rightarrow> string" where
  "fk_key fk = fk_OwnerService fk @ ''.'' @ fk_OwnerMessage fk @ ''.'' @ fk_FieldName fk"

definition contract_fks :: "DerivedContract \<Rightarrow> CrossServiceFK list" where
  "contract_fks contract =
     concat (map (\<lambda>msg. map (\<lambda>field. \<lparr> fk_OwnerService = dc_ServiceName contract, fk_OwnerMessage = pm_Name msg,
                                       fk_FieldName = pf_Name field, fk_RefTable = pf_RefTable field,
                                       fk_RefService = pf_RefService field \<rparr>)
                (filter (\<lambda>field. pf_IsCrossFK field \<and> pf_RefService field \<noteq> dc_ServiceName contract) (pm_Fields msg)))
       (dc_Messages contract))"

definition full_coupling_key :: "svc_coupling \<Rightarrow> string" where
  "full_coupling_key oc = opc_FromService oc @ ''.'' @ opc_FromModule oc @ arrow_right @ opc_ToService oc"

definition analyzeDataOwnership :: "ServiceCandidate list \<Rightarrow> DerivedContract list \<Rightarrow> DataOwnership" where
  "analyzeDataOwnership candidates contracts =
     \<lparr> do_SharedDatabase = True,
       do_CrossServiceFKs = sort_slice (\<lambda>a b. fk_key a < fk_key b) (concat (map contract_fks contracts)),
       do_OperationalCouplings = sort_slice (\<lambda>a b. full_coupling_key a < full_coupling_key b)
         (concat (map sc_OperationalCouplings candidates)) \<rparr>"

text \<open>The index by name holds the last candidate of a name.\<close>

definition candidate_index :: "ServiceCandidate list \<Rightarrow> string \<Rightarrow> nat option" where
  "candidate_index candidates name =
     (case filter (\<lambda>i. sc_Name (candidates ! i) = name) [0..<length candidates] of
        [] \<Rightarrow> None | is \<Rightarrow> Some (last is))"

definition add_fk_dep :: "ServiceCandidate list \<Rightarrow> CrossServiceFK \<Rightarrow> ServiceCandidate list" where
  "add_fk_dep candidates fk =
     (if fk_RefService fk = [] then candidates
      else case candidate_index candidates (fk_OwnerService fk) of
             None \<Rightarrow> candidates
           | Some i \<Rightarrow>
               if fk_RefService fk \<in> set (sc_Deps (candidates ! i)) then candidates
               else candidates[i := (candidates ! i)\<lparr>sc_Deps := sc_Deps (candidates ! i) @ [fk_RefService fk]\<rparr>])"

definition augmentDataDeps :: "ServiceCandidate list \<Rightarrow> CrossServiceFK list \<Rightarrow> ServiceCandidate list" where
  "augmentDataDeps candidates crossFKs =
     map (\<lambda>c. c\<lparr>sc_Deps := sort (sc_Deps c)\<rparr>) (foldl add_fk_dep candidates crossFKs)"

section \<open>Stage 7: the plan\<close>

definition noServiceBoundariesExplanation :: string where
  "noServiceBoundariesExplanation =
     ''No service boundaries were found. '' @
     ''The codebase has no identifiable domain layer '' @ em_dash @ '' all modules were classified '' @
     ''as infrastructure or utilities. This is typical of script-style code without '' @
     ''separation between domain logic and infrastructure. '' @
     ''Automatic microservices decomposition is not possible; the code would need '' @
     ''to be restructured before a clean split can be made.''"

definition proto_group :: "ProposedGroup \<Rightarrow> CandidateGrouping" where
  "proto_group g = \<lparr> cg_Name = pg_Name g, cg_Modules = pg_Modules g,
                     cg_Responsibilities = pg_Responsibilities g, cg_Confidence = pg_Confidence g \<rparr>"

definition proto_rec :: "RestructureRec \<Rightarrow> RestructureRecommendation" where
  "proto_rec r = \<lparr> rr_Kind = rec_Kind r, rr_Subject = rec_Subject r, rr_Action = rec_Action r, rr_Blocking = rec_Blocking r \<rparr>"

text \<open>The message of a foreign key has one more field, the referenced resource, which stays empty.\<close>

definition proto_fk :: "CrossServiceFK \<Rightarrow> CrossServiceFk" where
  "proto_fk fk =
     \<lparr> CrossServiceFk.fk_OwnerService = fk_OwnerService fk, fk_Field = fk_FieldName fk,
       CrossServiceFk.fk_RefTable = fk_RefTable fk, CrossServiceFk.fk_RefService = fk_RefService fk,
       fk_RefResource = [], CrossServiceFk.fk_OwnerMessage = fk_OwnerMessage fk \<rparr>"

definition proto_service :: "DataOwnership \<Rightarrow> ServiceCandidate \<Rightarrow> ProposedService" where
  "proto_service ownership c =
     \<lparr> ps_Name = sc_Name c, ps_ErrorPrefix = sc_ErrorPrefix c, ps_OwnedResources = sc_OwnedResources c,
       ps_InterServiceDeps = sc_Deps c,
       ps_CrossServiceFks = map proto_fk
         (filter (\<lambda>fk. fk_OwnerService fk = sc_Name c) (do_CrossServiceFKs ownership)) \<rparr>"

definition proto_coupling :: "svc_coupling \<Rightarrow> OperationalCoupling" where
  "proto_coupling oc = \<lparr> oc_FromService = opc_FromService oc, oc_ToService = opc_ToService oc,
                         oc_SourceModule = opc_FromModule oc \<rparr>"

definition fk_summary :: "CrossServiceFK \<Rightarrow> string" where
  "fk_summary fk =
     (let ref = (if fk_RefService fk \<noteq> [] then fk_RefTable fk @ '' (service: '' @ fk_RefService fk @ '')'' else fk_RefTable fk)
      in fk_OwnerService fk @ ''.'' @ fk_OwnerMessage fk @ ''.'' @ fk_FieldName fk @ '' '' @ arrow_right @ '' '' @ ref)"

definition plan_rationale :: "ServiceCandidate list \<Rightarrow> DataOwnership \<Rightarrow> bool \<Rightarrow> string" where
  "plan_rationale candidates ownership lowConfidence =
     (if lowConfidence then ''[LOW CONFIDENCE '' @ em_dash @ '' human review recommended] '' else []) @
     ''Blueprint-biased Louvain community detection produced '' @ Itoa (int (length candidates)) @
     '' service boundaries. Shared database declared: all services share one DB in v1 '' @ em_dash @
     '' per-service data separation is deferred. '' @
     Itoa (int (length (do_CrossServiceFKs ownership))) @
     '' cross-service FK(s) identified as consistency debt: '' @
     strings_Join (map fk_summary (do_CrossServiceFKs ownership)) ''; '' @ ''.''"

definition assemblePlan :: "ServiceCandidate list \<Rightarrow> DataOwnership \<Rightarrow> ClusteringResult option \<Rightarrow> RestructurePlan" where
  "assemblePlan candidates ownership cr =
     (let lowConfidence = (case cr of None \<Rightarrow> False | Some cr \<Rightarrow> cr_LowConfidence cr);
          groups = (case cr of None \<Rightarrow> [] | Some cr \<Rightarrow> map proto_group (cr_CandidateGroupings cr));
          recs = (case cr of None \<Rightarrow> [] | Some cr \<Rightarrow> map proto_rec (cr_RestructureRecs cr));
          modularity = (case cr of None \<Rightarrow> 0 | Some cr \<Rightarrow> cr_Modularity cr)
      in if candidates = []
         then \<lparr> rp_Services = [], rp_Rationale = ''Decomposition produced 0 service boundaries.'',
                rp_OperationalCouplings = [], rp_IsLowConfidence = lowConfidence, rp_NoServiceBoundaries = True,
                rp_BoundariesExplanation = noServiceBoundariesExplanation, rp_CandidateGroupings = groups,
                rp_RestructureRecommendations = recs, rp_PartitionModularity = modularity \<rparr>
         else \<lparr> rp_Services = map (proto_service ownership) candidates,
                rp_Rationale = plan_rationale candidates ownership lowConfidence,
                rp_OperationalCouplings = map proto_coupling (do_OperationalCouplings ownership),
                rp_IsLowConfidence = lowConfidence, rp_NoServiceBoundaries = False,
                rp_BoundariesExplanation = [], rp_CandidateGroupings = groups,
                rp_RestructureRecommendations = recs, rp_PartitionModularity = modularity \<rparr>)"

section \<open>Stage 7b: the design artifacts\<close>

text \<open>A map that is filled from a list holds the last entry of a key.\<close>

definition last_by :: "('a \<Rightarrow> string) \<Rightarrow> 'a list \<Rightarrow> string \<Rightarrow> 'a option" where
  "last_by name xs k = find (\<lambda>x. name x = k) (rev xs)"

definition artifact_for ::
  "DerivedContract list \<Rightarrow> DataOwnership \<Rightarrow> ServiceCandidate list \<Rightarrow> ProposedService \<Rightarrow> design_artifact" where
  "artifact_for contracts ownership candidates svc =
     (let spec = BuildBoundarySpecYAML svc (do_SharedDatabase ownership)
            (filter (\<lambda>fk. fk_OwnerService fk = ps_Name svc) (do_CrossServiceFKs ownership))
            (case last_by sc_Name candidates (ps_Name svc) of None \<Rightarrow> [] | Some c \<Rightarrow> sc_OperationalCouplings c)
      in case last_by dc_ServiceName contracts (ps_Name svc) of
           None \<Rightarrow> \<lparr> da_ServiceName = ps_Name svc, da_ProtoContent = [], da_BoundarySpec = spec,
                     da_Incomplete = True, da_IncompleteReason = ''no contract derived for this service'' \<rparr>
         | Some contract \<Rightarrow>
             \<lparr> da_ServiceName = ps_Name svc, da_ProtoContent = dc_ProtoContent contract, da_BoundarySpec = spec,
               da_Incomplete = dc_Incomplete contract, da_IncompleteReason = dc_IncompleteReason contract \<rparr>)"

definition buildArtifacts ::
  "RestructurePlan \<Rightarrow> DerivedContract list \<Rightarrow> DataOwnership \<Rightarrow> ServiceCandidate list \<Rightarrow> design_artifact list" where
  "buildArtifacts plan contracts ownership candidates =
     map (artifact_for contracts ownership candidates) (rp_Services plan)"

end
