(* ===== verification/Analysis_Service.thy ===== *)
theory Analysis_Service
  imports Memory_Driver Status_Errors
begin

text \<open>
  The analysis service (\<^verbatim>\<open>services/analysis/application/service.go\<close>) and its gRPC handlers
  (\<^verbatim>\<open>infrastructure/grpc_handlers/analysis_handler.go\<close>). The client of the repository service, the
  job queue, the assessor and the extraction of the caller are parameters.
\<close>

section \<open>The service\<close>

record 'w anl_RepositoryClient =
  anl_ValidateRepositoryExists :: "u64 \<Rightarrow> ('w, unit) io"
  anl_GetRemoteURL :: "u64 \<Rightarrow> ('w, string \<times> string) io"
  anl_ProbeConnection :: "u64 \<Rightarrow> ('w, unit) io"
  anl_GetBranchSHA :: "u64 \<Rightarrow> string \<Rightarrow> ('w, string) io"

record 'w AnalysisService =
  asvc_repo :: "'w AnalysisSummaryRepository"
  asvc_repoSvc :: "'w anl_RepositoryClient option"
  asvc_enqueuer :: "(u64 \<Rightarrow> u64 \<Rightarrow> u64 \<Rightarrow> string \<Rightarrow> string \<Rightarrow> ('w, unit) io) option"
  asvc_assessor :: "(u64 \<Rightarrow> string \<Rightarrow> ('w, MigrabilityAssessment) io) option"

definition asvc_GetAnalysisSummary :: "'w AnalysisService \<Rightarrow> u64 \<Rightarrow> ('w, AnalysisSummary) io" where
  "asvc_GetAnalysisSummary S i =
     (if i = 0 then io_err anl_ErrMissingIdentifier else arepo_GetByID (asvc_repo S) i False)"

definition asvc_ListAnalysisSummaries ::
  "'w AnalysisService \<Rightarrow> AnalysisSummariesFilter option \<Rightarrow> PageQueryParams option \<Rightarrow>
   ('w, AnalysisSummary list \<times> Pagination option) io" where
  "asvc_ListAnalysisSummaries S flt params = arepo_List (asvc_repo S) flt params"

definition asvc_AssessMigrability :: "'w AnalysisService \<Rightarrow> u64 \<Rightarrow> string \<Rightarrow> ('w, MigrabilityAssessment) io" where
  "asvc_AssessMigrability S i language =
     (if i = 0 then io_err anl_ErrMissingIdentifier
      else case asvc_assessor S of None \<Rightarrow> io_err anl_ErrInternal | Some Assess \<Rightarrow> Assess i language)"

record RunAnalysisResult =
  rar_Summary :: "AnalysisSummary option"
  rar_Duplicate :: "AnalysisSummary option"

definition zero_AnalysisSummariesFilter :: AnalysisSummariesFilter where
  "zero_AnalysisSummariesFilter =
     \<lparr> af_RepositoryId = None, af_Standalone = False, af_MigrationId = None, af_States = [],
       af_State = None, af_SourceBranch = None, af_OwnerUserId = None \<rparr>"

text \<open>The parts of \<^verbatim>\<open>RunAnalysis\<close>: the probe, the resolution of the branch, the search for a
  duplicate, the creation with its dispatch.\<close>

definition run_probe :: "'w AnalysisService \<Rightarrow> u64 \<Rightarrow> u64 \<Rightarrow> ('w, unit) io" where
  "run_probe S repositoryID migrationID =
     (case asvc_repoSvc S of
        Some c \<Rightarrow> if migrationID = 0 then anl_ProbeConnection c repositoryID else io_ok ()
      | None \<Rightarrow> io_ok ())"

definition run_branch :: "'w AnalysisService \<Rightarrow> u64 \<Rightarrow> string \<Rightarrow> ('w, string \<times> string) io" where
  "run_branch S repositoryID sourceBranch =
     (case asvc_repoSvc S of
        None \<Rightarrow> io_ok ([], [])
      | Some c \<Rightarrow> io_bind (anl_GetRemoteURL c repositoryID) (\<lambda>(url, defaultBranch).
          io_ok (url, if sourceBranch \<noteq> [] then sourceBranch else defaultBranch)))"

definition dedup_filter :: "u64 \<Rightarrow> string \<Rightarrow> AnalysisSummariesFilter" where
  "dedup_filter repositoryID branch = zero_AnalysisSummariesFilter\<lparr>af_RepositoryId := Some repositoryID,
     af_SourceBranch := Some branch, af_State := Some ANALYSIS_STATE_COMPLETED\<rparr>"

definition dedup_page :: PageQueryParams where
  "dedup_page = \<lparr> pq_Order = ORDER_DESC_UNSPECIFIED, pq_PageNumber = 0, pq_PageSize = 1, pq_SortBy = [] \<rparr>"

definition find_duplicate ::
  "'w AnalysisService \<Rightarrow> u64 \<Rightarrow> u64 \<Rightarrow> string \<Rightarrow> bool \<Rightarrow> ('w, AnalysisSummary option) state" where
  "find_duplicate S repositoryID migrationID branch force =
     (case asvc_repoSvc S of
        None \<Rightarrow> State_Monad.return None
      | Some c \<Rightarrow>
          if migrationID = 0 \<and> \<not> force \<and> branch \<noteq> []
          then State_Monad.bind (anl_GetBranchSHA c repositoryID branch) (\<lambda>sha. case sha of
                 Inl _ \<Rightarrow> State_Monad.return None
               | Inr headSHA \<Rightarrow>
                   if headSHA \<noteq> []
                   then State_Monad.bind (arepo_List (asvc_repo S) (Some (dedup_filter repositoryID branch))
                          (Some dedup_page)) (\<lambda>r. State_Monad.return (case r of
                            Inl _ \<Rightarrow> None
                          | Inr (existing, _) \<Rightarrow> (case existing of
                                [] \<Rightarrow> None
                              | e # _ \<Rightarrow> if as_CommitSha e = headSHA then Some e else None)))
                   else State_Monad.return None)
          else State_Monad.return None)"

definition run_create ::
  "'w AnalysisService \<Rightarrow> u64 \<Rightarrow> u64 \<Rightarrow> u64 \<Rightarrow> string \<Rightarrow> string \<Rightarrow> ('w, RunAnalysisResult) io" where
  "run_create S repositoryID migrationID ownerUserID remoteURL branch =
     io_bind (arepo_Create (asvc_repo S) (zero_AnalysisSummary\<lparr>as_RepositoryId := repositoryID,
                as_MigrationId := migrationID, as_OwnerUserId := ownerUserID,
                as_RepositoryUrl := remoteURL, as_SourceBranch := branch,
                as_State := ANALYSIS_STATE_RUNNING\<rparr>)) (\<lambda>created.
     let result = io_ok \<lparr> rar_Summary = Some created, rar_Duplicate = None \<rparr>
     in case asvc_enqueuer S of
          None \<Rightarrow> result
        | Some enqueue \<Rightarrow>
            io_ignore (enqueue (as_Identifier created) repositoryID migrationID remoteURL branch) result)"

definition asvc_RunAnalysis ::
  "'w AnalysisService \<Rightarrow> u64 \<Rightarrow> u64 \<Rightarrow> u64 \<Rightarrow> string \<Rightarrow> bool \<Rightarrow> ('w, RunAnalysisResult) io" where
  "asvc_RunAnalysis S repositoryID migrationID ownerUserID sourceBranch force =
     (if repositoryID = 0 then io_err anl_ErrMissingRepositoryID
      else io_bind (run_probe S repositoryID migrationID) (\<lambda>_.
           io_bind (run_branch S repositoryID sourceBranch) (\<lambda>(remoteURL, branch).
           State_Monad.bind (find_duplicate S repositoryID migrationID branch force) (\<lambda>dup. case dup of
             Some d \<Rightarrow> io_ok \<lparr> rar_Summary = None, rar_Duplicate = Some d \<rparr>
           | None \<Rightarrow> run_create S repositoryID migrationID ownerUserID remoteURL branch))))"

section \<open>The handlers\<close>

definition anl_mapError :: "go_error \<Rightarrow> go_error" where
  "anl_mapError err =
     (case err of Panic s \<Rightarrow> Panic s
      | _ \<Rightarrow>
        (case errors_As err of
           None \<Rightarrow> NewInternalError ''ANL500'' ''Failure_Internal''
         | Some (code, msg) \<Rightarrow>
             if code = ''ANL201'' then NewNotFoundError code msg
             else if code = ''ANL202'' then NewNotFoundError code msg
             else if code \<in> {''ANL203'', ''ANL204''} then NewFailedPreconditionError code msg
             else if code = ''ANL205'' then NewFailedPreconditionError code msg
             else if code \<in> {''ANL101'', ''ANL102''} then NewInvalidArgumentError code msg
             else if code = ''ANL500'' then NewInternalError code msg
             else NewInternalError ''ANL500'' ''Failure_Internal''))"

record 'w AnalysisHandler =
  ah_svc :: "'w AnalysisService"
  ah_authExtract :: "('w, u64 \<times> bool) io"

definition ah_authenticate :: "'w AnalysisHandler \<Rightarrow> ('w, u64 \<times> bool) io" where
  "ah_authenticate H = State_Monad.bind (ah_authExtract H) (\<lambda>r. case r of
     Inl _ \<Rightarrow> io_err TokenValidationErrorInvalid | Inr x \<Rightarrow> io_ok x)"

definition ah_map_errors :: "('w, 'a) io \<Rightarrow> ('w, 'a) io" where
  "ah_map_errors op =
     State_Monad.bind op (\<lambda>r. case r of Inl e \<Rightarrow> io_err (anl_mapError e) | Inr x \<Rightarrow> io_ok x)"

text \<open>The guard of the handlers of an existing summary.\<close>

definition ah_guarded :: "'w AnalysisHandler \<Rightarrow> u64 \<Rightarrow> (AnalysisSummary \<Rightarrow> ('w, 'a) io) \<Rightarrow> ('w, 'a) io" where
  "ah_guarded H i f =
     io_bind (ah_authenticate H) (\<lambda>(callerID, isSystem).
     if i = 0 then io_err (NewInvalidArgumentError ''ANL101'' ''Failure_Missing_Identifier'')
     else io_bind (ah_map_errors (asvc_GetAnalysisSummary (ah_svc H) i)) (\<lambda>s.
       if \<not> isSystem \<and> as_OwnerUserId s \<noteq> callerID
       then io_err (anl_mapError ErrAnalysisSummaryNotFound)
       else f s))"

definition ah_GetAnalysisSummary :: "'w AnalysisHandler \<Rightarrow> u64 \<Rightarrow> ('w, AnalysisSummary) io" where
  "ah_GetAnalysisSummary H i = ah_guarded H i (\<lambda>s. io_ok s)"

definition ah_ListAnalysisSummaries ::
  "'w AnalysisHandler \<Rightarrow> AnalysisSummariesFilter option \<Rightarrow> PageQueryParams option \<Rightarrow>
   ('w, AnalysisSummary list \<times> Pagination option) io" where
  "ah_ListAnalysisSummaries H flt params =
     io_bind (ah_authenticate H) (\<lambda>(callerID, isSystem).
     let f = (case flt of None \<Rightarrow> zero_AnalysisSummariesFilter | Some f \<Rightarrow> f);
         f = (if isSystem then f else f\<lparr>af_OwnerUserId := Some callerID\<rparr>)
     in ah_map_errors (asvc_ListAnalysisSummaries (ah_svc H) (Some f) params))"

record RunAnalysisResponse =
  resp_DuplicateFound :: bool
  resp_ExistingAnalysis :: "AnalysisSummary option"
  resp_AnalysisSummary :: "AnalysisSummary option"

definition ah_RunAnalysis ::
  "'w AnalysisHandler \<Rightarrow> u64 \<Rightarrow> u64 \<Rightarrow> string \<Rightarrow> bool \<Rightarrow> ('w, RunAnalysisResponse) io" where
  "ah_RunAnalysis H repositoryId migrationId sourceBranch force =
     io_bind (ah_authenticate H) (\<lambda>(callerID, _).
     if repositoryId = 0 then io_err (NewInvalidArgumentError ''ANL102'' ''Failure_Missing_Repository_ID'')
     else io_bind (ah_map_errors (asvc_RunAnalysis (ah_svc H) repositoryId migrationId callerID
                     sourceBranch force)) (\<lambda>result.
       io_ok (if rar_Duplicate result \<noteq> None
              then \<lparr> resp_DuplicateFound = True, resp_ExistingAnalysis = rar_Duplicate result,
                     resp_AnalysisSummary = None \<rparr>
              else \<lparr> resp_DuplicateFound = False, resp_ExistingAnalysis = None,
                     resp_AnalysisSummary = rar_Summary result \<rparr>)))"

definition ah_EvaluateMigrability ::
  "'w AnalysisHandler \<Rightarrow> u64 \<Rightarrow> string \<Rightarrow> ('w, MigrabilityAssessment) io" where
  "ah_EvaluateMigrability H i language =
     ah_guarded H i (\<lambda>_. ah_map_errors (asvc_AssessMigrability (ah_svc H) i language))"

section \<open>Reading the stored summaries\<close>

lemma summary_fields:
  "summaryDocToDomain C d = Inr s \<Longrightarrow>
     as_Identifier s = sdoc_Identifier d \<and> as_RepositoryId s = sdoc_RepositoryID d \<and>
     as_MigrationId s = sdoc_MigrationID d \<and> as_OwnerUserId s = sdoc_OwnerUserID d \<and>
     as_State s = sdoc_State d \<and> as_SourceBranch s = sdoc_SourceBranch d \<and>
     as_CommitSha s = sdoc_CommitSHA d \<and> as_DeleteTime s = sdoc_DeleteTime d"
  by (auto simp: summaryDocToDomain_def)

lemma listProjection_fields [simp]:
  "sdoc_Identifier (listProjection d) = sdoc_Identifier d"
  "sdoc_RepositoryID (listProjection d) = sdoc_RepositoryID d"
  "sdoc_OwnerUserID (listProjection d) = sdoc_OwnerUserID d"
  "sdoc_State (listProjection d) = sdoc_State d"
  "sdoc_SourceBranch (listProjection d) = sdoc_SourceBranch d"
  "sdoc_CommitSHA (listProjection d) = sdoc_CommitSHA d"
  "sdoc_DeleteTime (listProjection d) = sdoc_DeleteTime d"
  by (simp_all add: listProjection_def)

lemma summaries_to_domain_map:
  "summaries_to_domain C ds = Inr ss \<Longrightarrow> list_all2 (\<lambda>d s. summaryDocToDomain C d = Inr s) ds ss"
  by (induction ds arbitrary: ss) (auto split: sum.splits)

lemma analysis_FindPage:
  assumes "analysis_ok D docs"
  shows "triple (\<lambda>w. docs w = ds) (adb_FindPage D q srt s l p)
     (\<lambda>r w. docs w = ds \<and>
        (case r of Inl _ \<Rightarrow> True
         | Inr cur \<Rightarrow> triple (\<lambda>w. docs w = ds) cur
             (\<lambda>r w. docs w = ds \<and>
                (case r of Inl _ \<Rightarrow> True | Inr out \<Rightarrow> page_law q srt s l p ds out))))"
  using assms unfolding analysis_ok_def by blast

lemma asr_List_run:
  assumes D: "analysis_ok D docs" and run: "run_state (asr_List D f p) w = (r, w')"
  shows "docs w' = docs w \<and> (case r of Inl _ \<Rightarrow> True
    | Inr (ss, _) \<Rightarrow> \<exists>out. page_law (summaries_query f) (summaries_sort p) (summaries_skip p)
        (uint (PageSizeOf p)) listProjection (docs w) out \<and>
        list_all2 (\<lambda>d s. summaryDocToDomain (adb_codec D) d = Inr s) out ss)"
proof -
  let ?find = "adb_FindPage D (summaries_query f) (summaries_sort p) (summaries_skip p)
      (uint (PageSizeOf p)) listProjection"
  obtain x w1 where x: "run_state ?find w = (x, w1)" by (meson surj_pair)
  have law: "docs w1 = docs w \<and> (case x of Inl _ \<Rightarrow> True
      | Inr cur \<Rightarrow> triple (\<lambda>v. docs v = docs w) cur (\<lambda>r v. docs v = docs w \<and>
          (case r of Inl _ \<Rightarrow> True | Inr out \<Rightarrow> page_law (summaries_query f) (summaries_sort p)
             (summaries_skip p) (uint (PageSizeOf p)) listProjection (docs w) out)))"
    by (rule tripleD [OF analysis_FindPage [OF D] x]) (rule refl)
  show ?thesis
  proof (cases x)
    case (Inl e)
    with run x law show ?thesis by (auto simp: asr_List_def io_unfold)
  next
    case (Inr cur)
    obtain y w2 where y: "run_state cur w1 = (y, w2)" by (meson surj_pair)
    have law2: "docs w2 = docs w \<and> (case y of Inl _ \<Rightarrow> True
        | Inr out \<Rightarrow> page_law (summaries_query f) (summaries_sort p) (summaries_skip p)
            (uint (PageSizeOf p)) listProjection (docs w) out)"
      by (rule tripleD [OF _ y, where P = "\<lambda>v. docs v = docs w"]) (use law Inr in auto)
    show ?thesis
    proof (cases y)
      case (Inl e)
      with run x law2 \<open>x = Inr cur\<close> y show ?thesis by (auto simp: asr_List_def io_unfold)
    next
      case out: (Inr out)
      obtain c w3 where c: "run_state (CountDocuments (adb_coll D) (summaries_query f)) w2 = (c, w3)"
        by (meson surj_pair)
      have "keeps docs (CountDocuments (adb_coll D) (summaries_query f))"
        using D by (simp add: analysis_ok_def collection_ok_def)
      then have w3: "docs w3 = docs w" using c law2 by (auto dest: keepsD)
      have w': "w' = w3" using run x Inr y out c
        by (auto simp: asr_List_def io_unfold Let_def split: sum.splits)
      show ?thesis
      proof (cases "summaries_to_domain (adb_codec D) out")
        case (Inl e)
        with run x Inr y out c w3 w' \<open>x = Inr cur\<close> show ?thesis
          by (auto simp: asr_List_def io_unfold Let_def)
      next
        case ss: (Inr ss)
        have "\<exists>pg. r = Inr (ss, pg)" using run x Inr y out c ss
          by (auto simp: asr_List_def io_unfold Let_def)
        with w' w3 law2 out summaries_to_domain_map [OF ss] show ?thesis by auto
      qed
    qed
  qed
qed

section \<open>Running an analysis\<close>

definition anl_clients_keep :: "'w AnalysisService \<Rightarrow> ('w \<Rightarrow> 'v) \<Rightarrow> bool" where
  "anl_clients_keep S obs \<longleftrightarrow>
     (\<forall>c. asvc_repoSvc S = Some c \<longrightarrow>
        (\<forall>i. keeps obs (anl_ProbeConnection c i)) \<and> (\<forall>i. keeps obs (anl_GetRemoteURL c i)) \<and>
        (\<forall>i b. keeps obs (anl_GetBranchSHA c i b))) \<and>
     (\<forall>e i r m u b. asvc_enqueuer S = Some e \<longrightarrow> keeps obs (e i r m u b))"

lemma dedup_query:
  "rid \<noteq> 0 \<Longrightarrow> b \<noteq> [] \<Longrightarrow> summaries_query (Some (dedup_filter rid b)) =
     (\<lambda>d. sdoc_RepositoryID d = rid \<and> sdoc_SourceBranch d = b \<and>
        sdoc_State d = ANALYSIS_STATE_COMPLETED \<and> sdoc_DeleteTime d = None)"
  by (rule ext) (auto simp: summaries_query_def dedup_filter_def zero_AnalysisSummariesFilter_def)

lemma find_duplicate_run:
  assumes D: "analysis_ok D docs" and S: "asvc_repo S = MongoAnalysisSummaryRepository D"
    and keep: "anl_clients_keep S docs"
    and run: "run_state (find_duplicate S rid mid branch force) w = (dup, w')"
  shows "docs w' = docs w \<and> (case dup of None \<Rightarrow> True
    | Some x \<Rightarrow> mid = 0 \<and> \<not> force \<and> branch \<noteq> [] \<and>
        (\<exists>c sha v d. asvc_repoSvc S = Some c \<and> run_state (anl_GetBranchSHA c rid branch) w = (Inr sha, v) \<and>
           sha \<noteq> [] \<and> as_CommitSha x = sha \<and>
           summaryDocToDomain (adb_codec D) (listProjection d) = Inr x \<and>
           newest (summaries_query (Some (dedup_filter rid branch))) (docs w) d))"
proof (cases "\<exists>c. asvc_repoSvc S = Some c \<and> mid = 0 \<and> \<not> force \<and> branch \<noteq> []")
  case False
  with run show ?thesis by (auto simp: find_duplicate_def split: option.splits if_splits)
next
  case True
  then obtain c where c: "asvc_repoSvc S = Some c" and g: "mid = 0" "\<not> force" "branch \<noteq> []" by blast
  obtain x w1 where x: "run_state (anl_GetBranchSHA c rid branch) w = (x, w1)" by (meson surj_pair)
  have "keeps docs (anl_GetBranchSHA c rid branch)" using keep c by (simp add: anl_clients_keep_def)
  then have w1: "docs w1 = docs w" using x by (rule keepsD)
  show ?thesis
  proof (cases "\<exists>sha. x = Inr sha \<and> sha \<noteq> []")
    case False
    with run c g x w1 show ?thesis
      by (auto simp: find_duplicate_def io_unfold split: sum.splits if_splits)
  next
    case True
    then obtain sha where sha: "x = Inr sha" "sha \<noteq> []" by blast
    let ?f = "Some (dedup_filter rid branch)"
    obtain y w2 where y: "run_state (asr_List D ?f (Some dedup_page)) w1 = (y, w2)" by (meson surj_pair)
    note lst = asr_List_run [OF D y]
    have out: "w' = w2" "dup = (case y of Inl _ \<Rightarrow> None | Inr (existing, _) \<Rightarrow> (case existing of
        [] \<Rightarrow> None | e # _ \<Rightarrow> if as_CommitSha e = sha then Some e else None))"
      using run c g x sha y S
      by (auto simp: find_duplicate_def io_unfold MongoAnalysisSummaryRepository_def)
    show ?thesis
    proof (cases dup)
      case None
      with out lst w1 show ?thesis by simp
    next
      case (Some e)
      with out obtain es pg where e: "y = Inr (e # es, pg)" "as_CommitSha e = sha"
        by (auto split: sum.splits prod.splits list.splits if_splits)
      with lst obtain d ds where
        law: "page_law (summaries_query ?f) (summaries_sort (Some dedup_page))
          (summaries_skip (Some dedup_page)) (uint (PageSizeOf (Some dedup_page))) listProjection
          (docs w1) (d # ds)" and d: "summaryDocToDomain (adb_codec D) d = Inr e"
        by (auto simp: list_all2_Cons2)
      have "\<exists>d0. newest (summaries_query ?f) (docs w1) d0 \<and> d = listProjection d0"
        using law by (simp add: page_law_def summaries_sort_def summaries_skip_def PageSizeOf_def
            PageNumberOf_def dedup_page_def)
      with Some e g sha d out lst w1 c x show ?thesis by auto
    qed
  qed
qed

text \<open>No duplicate is reported for a listing whose first summary has the commit of the branch
  head only because the run is forced, belongs to a migration or has no branch.\<close>

lemma find_duplicate_None:
  assumes "run_state (find_duplicate S rid mid b force) w = (None, w')"
    and "asvc_repoSvc S = Some c" "mid = 0" "\<not> force" "b \<noteq> []"
    and "run_state (anl_GetBranchSHA c rid b) w = (Inr sha, v)" "sha \<noteq> []"
    and "run_state (arepo_List (asvc_repo S) (Some (dedup_filter rid b)) (Some dedup_page)) v =
      (Inr (e # es, pg), v')"
  shows "as_CommitSha e \<noteq> sha"
  using assms by (auto simp: find_duplicate_def split: if_splits)

lemma run_create_run:
  assumes D: "analysis_ok D docs" and S: "asvc_repo S = MongoAnalysisSummaryRepository D"
    and keep: "anl_clients_keep S docs" and run: "run_state (run_create S rid mid uid url b) w = (r, w')"
  shows "case r of
      Inl e \<Rightarrow> docs w' = docs w \<or> (\<exists>d. docs w' = docs w @ [d])
    | Inr res \<Rightarrow>
        (\<exists>x d. res = \<lparr> rar_Summary = Some x, rar_Duplicate = None \<rparr> \<and> docs w' = docs w @ [d] \<and>
           summaryDocToDomain (adb_codec D) d = Inr x \<and> as_State x = ANALYSIS_STATE_RUNNING \<and>
           as_RepositoryId x = rid \<and> as_MigrationId x = mid \<and> as_OwnerUserId x = uid \<and>
           as_RepositoryUrl x = url \<and> as_SourceBranch x = b \<and>
           as_Identifier x \<notin> sdoc_Identifier ` set (docs w))"
proof -
  let ?s = "zero_AnalysisSummary\<lparr>as_RepositoryId := rid, as_MigrationId := mid,
      as_OwnerUserId := uid, as_RepositoryUrl := url, as_SourceBranch := b,
      as_State := ANALYSIS_STATE_RUNNING\<rparr>"
  obtain z w4 where z: "run_state (asr_Create D ?s) w = (z, w4)" by (meson surj_pair)
  have enq: "docs v' = docs v" if "asvc_enqueuer S = Some e" "run_state (e i rid mid url b) v = (q, v')"
    for e i v q v'
  proof -
    have "keeps docs (e i rid mid url b)" using keep that(1) by (simp add: anl_clients_keep_def)
    then show ?thesis using that(2) by (rule keepsD)
  qed
  have end_w: "docs w' = docs w4"
    and res: "r = (case z of Inl e \<Rightarrow> Inl e | Inr c \<Rightarrow> Inr \<lparr> rar_Summary = Some c, rar_Duplicate = None \<rparr>)"
    using run z S
    by (auto simp: run_create_def io_unfold io_ignore_def MongoAnalysisSummaryRepository_def Let_def
        dest: enq split: sum.splits option.splits prod.splits)
  from asr_Create_run [OF D z] show ?thesis
  proof (elim disjE exE conjE)
    assume "docs w4 = docs w" "isl z"
    with res end_w show ?thesis by (cases z) auto
  next
    fix d i t
    assume d: "sdoc_Identifier d = i" "i \<notin> sdoc_Identifier ` set (docs w)"
      "summaryDocToDomain (adb_codec D) d = Inr (kept_summary ?s i t)" "docs w4 = docs w @ [d]"
    assume "isl z"
    with res end_w d show ?thesis by (cases z) auto
  next
    fix d i t
    assume d: "sdoc_Identifier d = i" "i \<notin> sdoc_Identifier ` set (docs w)"
      "summaryDocToDomain (adb_codec D) d = Inr (kept_summary ?s i t)" "docs w4 = docs w @ [d]"
    assume "z = Inr (kept_summary ?s i t)"
    with res end_w d show ?thesis by (auto simp: kept_summary_def)
  qed
qed

text \<open>
  What a run learns from the repository service before it looks for a duplicate: a standalone run
  probes the connection, then the URL and the default branch of the repository are read; the branch
  of the request wins over the default branch. Without a client both are empty.
\<close>

definition resolves :: "'w AnalysisService \<Rightarrow> u64 \<Rightarrow> u64 \<Rightarrow> string \<Rightarrow> 'w \<Rightarrow> string \<Rightarrow> string \<Rightarrow> 'w \<Rightarrow> bool" where
  "resolves S rid mid branch w url b w2 \<longleftrightarrow>
     (case asvc_repoSvc S of
        None \<Rightarrow> url = [] \<and> b = [] \<and> w2 = w
      | Some c \<Rightarrow> \<exists>w1 deflt.
          (if mid = 0 then run_state (anl_ProbeConnection c rid) w = (Inr (), w1) else w1 = w) \<and>
          run_state (anl_GetRemoteURL c rid) w1 = (Inr (url, deflt), w2) \<and>
          b = (if branch \<noteq> [] then branch else deflt))"

lemma resolves_run:
  assumes "run_state (run_probe S rid mid) w = (Inr (), w1)"
    and "run_state (run_branch S rid branch) w1 = (Inr (url, b), w2)"
  shows "resolves S rid mid branch w url b w2"
  using assms by (auto simp: resolves_def run_probe_def run_branch_def io_unfold
      split: option.splits if_splits sum.splits prod.splits)

text \<open>The way of a run to its two ends: an error before anything is stored, or the search for a duplicate.\<close>

lemma RunAnalysis_cases:
  assumes keep: "anl_clients_keep S docs"
    and run: "run_state (asvc_RunAnalysis S rid mid uid branch force) w = (r, w')"
  obtains (failed) e where "r = Inl e" "docs w' = docs w"
  | (resolved) url b w2 dup w3 where "rid \<noteq> 0" "resolves S rid mid branch w url b w2" "docs w2 = docs w"
      "run_state (find_duplicate S rid mid b force) w2 = (dup, w3)"
      "case dup of Some d \<Rightarrow> r = Inr \<lparr> rar_Summary = None, rar_Duplicate = Some d \<rparr> \<and> w' = w3
       | None \<Rightarrow> run_state (run_create S rid mid uid url b) w3 = (r, w')"
proof (cases "rid = 0")
  case True
  with run failed show ?thesis by (auto simp: asvc_RunAnalysis_def)
next
  case False
  obtain x w1 where x: "run_state (run_probe S rid mid) w = (x, w1)" by (meson surj_pair)
  have "keeps docs (run_probe S rid mid)"
    using keep by (auto simp: run_probe_def anl_clients_keep_def split: option.splits)
  then have w1: "docs w1 = docs w" using x by (rule keepsD)
  obtain y w2 where y: "run_state (run_branch S rid branch) w1 = (y, w2)" by (meson surj_pair)
  have "keeps docs (run_branch S rid branch)"
    using keep unfolding run_branch_def anl_clients_keep_def
    by (auto simp: io_bind_def split: option.splits sum.splits intro!: keeps_bind)
  then have w2: "docs w2 = docs w" using keepsD y w1 by metis
  show ?thesis
  proof (cases "isl x \<or> isl y")
    case True
    with run False x y w1 w2 failed show ?thesis
      by (auto simp: asvc_RunAnalysis_def io_unfold split: sum.splits)
  next
    case False
    then obtain url b where xy: "x = Inr ()" "y = Inr (url, b)"
      by (cases x; cases y) auto
    obtain dup w3 where dup: "run_state (find_duplicate S rid mid b force) w2 = (dup, w3)" by (meson surj_pair)
    show ?thesis
      by (rule resolved [OF \<open>rid \<noteq> 0\<close> resolves_run [OF x [unfolded xy] y [unfolded xy]] w2 dup])
        (use run \<open>rid \<noteq> 0\<close> x y xy dup in \<open>auto simp: asvc_RunAnalysis_def io_unfold split: option.split\<close>)
  qed
qed

text \<open>
  C23. What a run of an analysis does. It either reports a duplicate and stores nothing: the run is
  a standalone one that was not forced; the branch is the one of the request or else the default
  one, and not empty; the duplicate is a newest one among the completed live summaries of that
  repository and that branch, and its commit is the head of the branch as the repository service
  just told it. Or it stores one new summary, in the state \<open>RUNNING\<close> with the repository, URL,
  branch, migration and owner of the request, and returns it; then the first summary of the same
  listing, when the head and the listing could be read, was of another commit, or the run was
  forced, belongs to a migration or has no branch. Or it fails, with at most one summary stored.
\<close>

theorem run_analysis_outcome:
  assumes D: "analysis_ok D docs" and S: "asvc_repo S = MongoAnalysisSummaryRepository D"
    and keep: "anl_clients_keep S docs"
    and run: "run_state (asvc_RunAnalysis S rid mid uid branch force) w = (r, w')"
  shows "case r of
      Inl e \<Rightarrow> docs w' = docs w \<or> (\<exists>d. docs w' = docs w @ [d])
    | Inr res \<Rightarrow> \<exists>url b w2. resolves S rid mid branch w url b w2 \<and>
        ((\<exists>x d c sha w3. res = \<lparr> rar_Summary = None, rar_Duplicate = Some x \<rparr> \<and> docs w' = docs w \<and>
           mid = 0 \<and> \<not> force \<and> b \<noteq> [] \<and> asvc_repoSvc S = Some c \<and>
           run_state (anl_GetBranchSHA c rid b) w2 = (Inr sha, w3) \<and> sha \<noteq> [] \<and> as_CommitSha x = sha \<and>
           summaryDocToDomain (adb_codec D) (listProjection d) = Inr x \<and>
           newest (\<lambda>d. sdoc_RepositoryID d = rid \<and> sdoc_SourceBranch d = b \<and>
             sdoc_State d = ANALYSIS_STATE_COMPLETED \<and> sdoc_DeleteTime d = None) (docs w) d) \<or>
         (\<exists>x d. res = \<lparr> rar_Summary = Some x, rar_Duplicate = None \<rparr> \<and> docs w' = docs w @ [d] \<and>
           summaryDocToDomain (adb_codec D) d = Inr x \<and> as_State x = ANALYSIS_STATE_RUNNING \<and>
           as_RepositoryId x = rid \<and> as_MigrationId x = mid \<and> as_OwnerUserId x = uid \<and>
           as_RepositoryUrl x = url \<and> as_SourceBranch x = b \<and>
           as_Identifier x \<notin> sdoc_Identifier ` set (docs w) \<and>
           (\<forall>c sha w3 e es pg w4. asvc_repoSvc S = Some c \<and> mid = 0 \<and> \<not> force \<and> b \<noteq> [] \<and>
              run_state (anl_GetBranchSHA c rid b) w2 = (Inr sha, w3) \<and> sha \<noteq> [] \<and>
              run_state (arepo_List (asvc_repo S) (Some (dedup_filter rid b)) (Some dedup_page)) w3 =
                (Inr (e # es, pg), w4) \<longrightarrow> as_CommitSha e \<noteq> sha)))"
  using keep run
proof (cases rule: RunAnalysis_cases)
  case failed
  then show ?thesis by simp
next
  case (resolved url b w2 dup w3)
  note fd = find_duplicate_run [OF D S keep resolved(4)] and w2 = resolved(3) and res = resolved(2)
  show ?thesis
  proof (cases dup)
    case (Some d0)
    with resolved(5) have r: "r = Inr \<lparr> rar_Summary = None, rar_Duplicate = Some d0 \<rparr>" "w' = w3" by auto
    from fd Some have "b \<noteq> []" by simp
    note fd' = fd [unfolded Some option.case dedup_query [OF resolved(1) this] w2]
    show ?thesis
      unfolding r sum.case
      by (rule exI [of _ url], rule exI [of _ b], rule exI [of _ w2], use fd' res in blast)
  next
    case None
    with resolved(5) have run': "run_state (run_create S rid mid uid url b) w3 = (r, w')" by simp
    have w3: "docs w3 = docs w" using fd w2 None by simp
    note none = find_duplicate_None [OF resolved(4) [unfolded None]]
    note create = run_create_run [OF D S keep run', unfolded w3]
    show ?thesis
    proof (cases r)
      case (Inl e)
      with create show ?thesis by simp
    next
      case (Inr res0)
      show ?thesis
        unfolding Inr sum.case
        by (rule exI [of _ url], rule exI [of _ b], rule exI [of _ w2],
            use create Inr res none in auto)
    qed
  qed
qed

text \<open>A service over the in-memory driver, its repository client and one completed summary.\<close>

definition demo_summary :: "u64 \<Rightarrow> u64 \<Rightarrow> AnalysisState \<Rightarrow> proto_msg mongoAnalysisSummaryDoc" where
  "demo_summary i owner st =
     \<lparr> sdoc_Identifier = i, sdoc_RepositoryID = 7, sdoc_MigrationID = 0, sdoc_OwnerUserID = owner,
       sdoc_RepositoryURL = ''https://git.example/app'', sdoc_SourceBranch = ''main'',
       sdoc_CommitSHA = ''abc'', sdoc_State = st, sdoc_TechnologiesBytes = [],
       sdoc_VulnerabilitiesBytes = [], sdoc_DependencyGraphBytes = [], sdoc_ModuleCardsBytes = [],
       sdoc_BlueprintsBytes = [], sdoc_ModuleClassificationBytes = [],
       sdoc_MigrabilityScoreBytes = [], sdoc_MigrabilityAssessmentBytes = [],
       sdoc_SharedStateHubsBytes = [], sdoc_UnreachableModulesBytes = [],
       sdoc_DeepAnalysisAvailable = True, sdoc_TotalFiles = 3, sdoc_TotalLines = 90,
       sdoc_ModuleCountProduction = 3, sdoc_ModuleCountTest = 0, sdoc_CreateTime = 50,
       sdoc_UpdateTime = None, sdoc_DeleteTime = None, sdoc_PurgeTime = None,
       sbson_FailureReason = [] \<rparr>"

definition summary_world :: "u64 \<Rightarrow> AnalysisState \<Rightarrow> mem" where
  "summary_world owner st =
     \<lparr> mem_docs = [], mem_seq = Some 10001, mem_time = 100, mem_analyses = [demo_summary 5 owner st] \<rparr>"

definition mem_repo_client :: "mem anl_RepositoryClient" where
  "mem_repo_client =
     \<lparr> anl_ValidateRepositoryExists = (\<lambda>i. io_ok ()),
       anl_GetRemoteURL = (\<lambda>i. io_ok (''https://git.example/app'', ''main'')),
       anl_ProbeConnection = (\<lambda>i. io_ok ()), anl_GetBranchSHA = (\<lambda>i b. io_ok ''abc'') \<rparr>"

definition mem_analysis_service :: "mem AnalysisService" where
  "mem_analysis_service =
     \<lparr> asvc_repo = MongoAnalysisSummaryRepository mem_adb, asvc_repoSvc = Some mem_repo_client,
       asvc_enqueuer = None, asvc_assessor = None \<rparr>"

lemma mem_analysis_service_keeps: "anl_clients_keep mem_analysis_service mem_analyses"
  by (auto simp: anl_clients_keep_def mem_analysis_service_def mem_repo_client_def)

theorem run_analysis_outcome_witness:
  "\<exists>x w'. run_state (asvc_RunAnalysis mem_analysis_service 7 0 42 [] False)
        (summary_world 42 ANALYSIS_STATE_COMPLETED) =
      (Inr \<lparr> rar_Summary = None, rar_Duplicate = Some x \<rparr>, w') \<and>
    as_CommitSha x = ''abc'' \<and>
    mem_analyses w' = mem_analyses (summary_world 42 ANALYSIS_STATE_COMPLETED)"
proof -
  let ?run = "run_state (asvc_RunAnalysis mem_analysis_service 7 0 42 [] False)
      (summary_world 42 ANALYSIS_STATE_COMPLETED)"
  have ok: "case fst ?run of Inl _ \<Rightarrow> False | Inr res \<Rightarrow> rar_Summary res = None" by code_simp
  obtain r w' where run: "?run = (r, w')" by (meson surj_pair)
  from run_analysis_outcome [OF mem_adb_ok _ mem_analysis_service_keeps run] ok run
  show ?thesis by (cases r) (auto simp: mem_analysis_service_def mem_repo_client_def)
qed

theorem summary_create_get_witness:
  "\<exists>s' w1 r w2. run_state (asr_Create mem_adb (zero_AnalysisSummary\<lparr>as_RepositoryId := 7\<rparr>))
       (summary_world 42 ANALYSIS_STATE_COMPLETED) = (Inr s', w1) \<and>
     run_state (asr_GetByID mem_adb (as_Identifier s') False) w1 = (r, w2) \<and>
     (r = Inr s' \<or> (\<exists>e. r = Inl (wrap_error ''analysis: find one failed: '' e [])))"
proof -
  let ?run = "run_state (asr_Create mem_adb (zero_AnalysisSummary\<lparr>as_RepositoryId := 7\<rparr>))
      (summary_world 42 ANALYSIS_STATE_COMPLETED)"
  have ok: "\<not> isl (fst ?run)" by code_simp
  obtain x w1 where x: "?run = (x, w1)" by (meson surj_pair)
  with ok obtain s' where s': "?run = (Inr s', w1)" by (cases x) auto
  obtain r w2 where r: "run_state (asr_GetByID mem_adb (as_Identifier s') False) w1 = (r, w2)"
    by (meson surj_pair)
  from summary_create_get [OF mem_adb_ok s' r] s' r show ?thesis by blast
qed

text \<open>
  The dispatch of the job is best effort: a queue that refuses every job gives the caller the
  same answer and leaves the same world behind as no queue at all, so the summary stays
  \<open>RUNNING\<close> with no job that could end it.
\<close>

theorem dispatch_failure_is_silent:
  "run_state (asvc_RunAnalysis (S\<lparr>asvc_enqueuer := Some (\<lambda>i r m u b. io_err e)\<rparr>) rid mid uid br force) w =
   run_state (asvc_RunAnalysis (S\<lparr>asvc_enqueuer := None\<rparr>) rid mid uid br force) w"
proof -
  have "run_state (run_create (S\<lparr>asvc_enqueuer := Some (\<lambda>i r m u b. io_err e)\<rparr>) rid mid uid url b) v =
      run_state (run_create (S\<lparr>asvc_enqueuer := None\<rparr>) rid mid uid url b) v" for url b v
    by (simp add: run_create_def io_unfold io_ignore_def Let_def split: prod.splits sum.splits)
  then have "run_create (S\<lparr>asvc_enqueuer := Some (\<lambda>i r m u b. io_err e)\<rparr>) rid mid uid url b =
      run_create (S\<lparr>asvc_enqueuer := None\<rparr>) rid mid uid url b" for url b
    by (intro state.expand ext) simp
  moreover have "run_probe (S\<lparr>asvc_enqueuer := x\<rparr>) = run_probe S"
      "run_branch (S\<lparr>asvc_enqueuer := x\<rparr>) = run_branch S"
      "find_duplicate (S\<lparr>asvc_enqueuer := x\<rparr>) = find_duplicate S" for x
    by (simp_all add: fun_eq_iff run_probe_def run_branch_def find_duplicate_def
        cong: sum.case_cong option.case_cong if_cong)
  ultimately show ?thesis by (simp add: asvc_RunAnalysis_def)
qed

section \<open>Ownership\<close>

lemma asr_GetByID_run:
  assumes D: "analysis_ok D docs" and run: "run_state (asr_GetByID D i False) w = (r, w')"
  shows "docs w' = docs w \<and> (case r of Inl _ \<Rightarrow> True
    | Inr s \<Rightarrow> \<exists>d \<in> set (docs w). slive_at i d \<and> summaryDocToDomain (adb_codec D) d = Inr s)"
proof -
  let ?q = "\<lambda>d. sdoc_Identifier d = i \<and> (False \<or> sdoc_DeleteTime d = None)"
  obtain x w1 where x: "run_state (FindOne (adb_coll D) ?q) w = (x, w1)" by (meson surj_pair)
  have "collection_ok sdoc_Identifier (adb_coll D) docs" using D by (simp add: analysis_ok_def)
  from collection_FindOne [OF this x] run x show ?thesis
    by (auto simp: asr_GetByID_def io_unfold Let_def split: sum.splits option.splits)
qed

text \<open>
  C24. A summary is hidden from strangers: a caller who is neither a system user nor the owner of
  the stored summary gets the answer "not found" or an error, from the reading and from the
  evaluation, the assessor is not called, and the stored summaries do not change.
\<close>

theorem summary_hidden_from_strangers:
  assumes D: "analysis_ok D docs" and S: "asvc_repo (ah_svc H) = MongoAnalysisSummaryRepository D"
    and keep: "keeps docs (ah_authExtract H)"
    and auth: "run_state (ah_authExtract H) w = (Inr (caller, False), w1)"
    and owner: "\<forall>d \<in> set (docs w). sdoc_Identifier d = i \<longrightarrow> sdoc_OwnerUserID d \<noteq> caller"
    and get: "run_state (ah_GetAnalysisSummary H i) w = (r, w')"
    and eval: "run_state (ah_EvaluateMigrability H i language) w = (q, w'')"
  shows "isl r \<and> isl q \<and> docs w' = docs w \<and> docs w'' = docs w"
proof -
  have w1: "docs w1 = docs w" using keep auth by (rule keepsD)
  have main: "isl x \<and> docs v = docs w" if run: "run_state (ah_guarded H i f) w = (x, v)"
    for f :: "AnalysisSummary \<Rightarrow> ('a, 'c) io" and x v
  proof -
    obtain y w2 where y: "run_state (asr_GetByID D i False) w1 = (y, w2)" by (meson surj_pair)
    note g = asr_GetByID_run [OF D y]
    have "as_OwnerUserId s \<noteq> caller" if "y = Inr s" for s
      using g that owner w1 summary_fields [of "adb_codec D" _ s] by auto
    with run auth y S g w1 show ?thesis
      by (auto simp: ah_guarded_def ah_authenticate_def ah_map_errors_def asvc_GetAnalysisSummary_def
          MongoAnalysisSummaryRepository_def io_unfold split: sum.splits if_splits)
  qed
  from main [of "\<lambda>s. io_ok s"] main [of "\<lambda>_. ah_map_errors (asvc_AssessMigrability (ah_svc H) i language)"]
    get eval
  show ?thesis by (simp add: ah_GetAnalysisSummary_def ah_EvaluateMigrability_def)
qed

definition mem_analysis_handler :: "u64 \<Rightarrow> mem AnalysisHandler" where
  "mem_analysis_handler u = \<lparr> ah_svc = mem_analysis_service, ah_authExtract = io_ok (u, False) \<rparr>"

theorem summary_hidden_from_strangers_witness:
  "isl (fst (run_state (ah_GetAnalysisSummary (mem_analysis_handler 43) 5)
     (summary_world 42 ANALYSIS_STATE_COMPLETED)))"
proof -
  let ?w = "summary_world 42 ANALYSIS_STATE_COMPLETED" and ?H = "mem_analysis_handler 43"
  obtain r w' where r: "run_state (ah_GetAnalysisSummary ?H 5) ?w = (r, w')" by (meson surj_pair)
  obtain q w'' where q: "run_state (ah_EvaluateMigrability ?H 5 ''en'') ?w = (q, w'')" by (meson surj_pair)
  have "isl r"
    using summary_hidden_from_strangers [OF mem_adb_ok _ _ _ _ r q, where caller = 43 and ?w1.0 = ?w]
    by (simp add: mem_analysis_handler_def mem_analysis_service_def summary_world_def demo_summary_def
        keeps_def io_unfold)
  then show ?thesis by (simp add: r)
qed

text \<open>
  The search for a duplicate does not ask whose summary it finds: user 43, who is told that
  summary 5 of user 42 does not exist, gets that summary from a run of an analysis on the same
  repository.
\<close>

theorem duplicate_of_another_owner:
  "fst (run_state (ah_GetAnalysisSummary (mem_analysis_handler 43) 5)
       (summary_world 42 ANALYSIS_STATE_COMPLETED)) = Inl (anl_mapError ErrAnalysisSummaryNotFound) \<and>
   (case fst (run_state (ah_RunAnalysis (mem_analysis_handler 43) 7 0 [] False)
       (summary_world 42 ANALYSIS_STATE_COMPLETED)) of
      Inl _ \<Rightarrow> False
    | Inr resp \<Rightarrow> resp_DuplicateFound resp \<and>
        map_option (\<lambda>x. (as_Identifier x, as_OwnerUserId x)) (resp_ExistingAnalysis resp) = Some (5, 42))"
  by code_simp

end
