(* ===== verification/Worker_Writers.thy ===== *)
theory Worker_Writers
  imports Migration_Handler Analysis_Service Decomposition_Domain
begin

text \<open>
  What the workers write into the collections of the services: the summary writer of the analysis
  worker (\<^verbatim>\<open>worker/analysis/infrastructure/adapters/mongo_summary_writer.go\<close>), the plan writer of the
  decomposition worker (\<^verbatim>\<open>mongo_plan_writer.go\<close>) and the state updater of the generation worker
  (\<^verbatim>\<open>mongo_migration_state_updater.go\<close>). Most of their updates name the state they start from in the
  filter; the plan and the end of the generation do not, and the theorems show what follows.
\<close>

section \<open>File paths\<close>

text \<open>The Unix version of \<^verbatim>\<open>filepath.Clean\<close> and \<^verbatim>\<open>filepath.Join\<close>. The stack of the components that are
  kept has its top first.\<close>

fun clean_components :: "bool \<Rightarrow> string list \<Rightarrow> string list \<Rightarrow> string list" where
  "clean_components rooted [] st = rev st"
| "clean_components rooted (c # cs) st =
     (if c = [] \<or> c = ''.'' then clean_components rooted cs st
      else if c = ''..'' then
        (case st of
           t # ts \<Rightarrow> if t \<noteq> ''..'' then clean_components rooted cs ts
                     else clean_components rooted cs (c # st)
         | [] \<Rightarrow> if rooted then clean_components rooted cs [] else clean_components rooted cs [c])
      else clean_components rooted cs (c # st))"

definition filepath_Clean :: "string \<Rightarrow> string" where
  "filepath_Clean p =
     (let rooted = HasPrefix p ''/'';
          cs = clean_components rooted (strings_Split p (CHR ''/'')) []
      in if rooted then ''/'' @ strings_Join cs ''/''
         else if cs = [] then ''.'' else strings_Join cs ''/'')"

definition filepath_Join :: "string list \<Rightarrow> string" where
  "filepath_Join elems =
     (case filter (\<lambda>e. e \<noteq> []) elems of [] \<Rightarrow> [] | es \<Rightarrow> filepath_Clean (strings_Join es ''/''))"

section \<open>The stores of the workers\<close>

record ('w, 'b) WorkerStores =
  ws_analyses :: "('w, 'b) AnalysisDB"
  ws_migrations :: "('w, 'b mongoMigrationDoc) Collection"
  ws_planCodec :: "(RestructurePlan, 'b) Codec"
  ws_now :: "('w, Timestamp) state"
  ws_MkdirAll :: "string \<Rightarrow> ('w, unit) io"
  ws_WriteFile :: "string \<Rightarrow> string \<Rightarrow> ('w, unit) io"

section \<open>The analysis worker\<close>

text \<open>The update of a summary: each part that is not empty is marshalled, in the order of the code,
  and the first failure ends the write.\<close>

definition set_part ::
  "'b summary_codec \<Rightarrow> bool \<Rightarrow> AnalysisSummary \<Rightarrow>
   ('b list \<Rightarrow> 'b mongoAnalysisSummaryDoc \<Rightarrow> 'b mongoAnalysisSummaryDoc) \<Rightarrow>
   go_error + ('b mongoAnalysisSummaryDoc \<Rightarrow> 'b mongoAnalysisSummaryDoc)" where
  "set_part C present wrapper put =
     (if present then (case Marshal C wrapper of Inl e \<Rightarrow> Inl e | Inr b \<Rightarrow> Inr (put b)) else Inr id)"

definition summary_setDoc ::
  "'b summary_codec \<Rightarrow> AnalysisSummary \<Rightarrow> Timestamp \<Rightarrow>
   go_error + ('b mongoAnalysisSummaryDoc \<Rightarrow> 'b mongoAnalysisSummaryDoc)" where
  "summary_setDoc C s now =
     (let z = zero_AnalysisSummary;
          f0 = (\<lambda>d. d\<lparr>sdoc_State := ANALYSIS_STATE_COMPLETED, sdoc_TotalFiles := as_TotalFiles s,
                      sdoc_TotalLines := as_TotalLines s, sdoc_UpdateTime := Some now,
                      sdoc_DeepAnalysisAvailable := as_DeepAnalysisAvailable s\<rparr>);
          f1 = (\<lambda>d. if as_ModuleCountProduction s > 0
                    then d\<lparr>sdoc_ModuleCountProduction := uint (as_ModuleCountProduction s)\<rparr> else d);
          f2 = (\<lambda>d. if as_ModuleCountTest s > 0
                    then d\<lparr>sdoc_ModuleCountTest := uint (as_ModuleCountTest s)\<rparr> else d);
          f3 = (\<lambda>d. if as_CommitSha s \<noteq> [] then d\<lparr>sdoc_CommitSHA := as_CommitSha s\<rparr> else d)
      in sum_bind (set_part C (as_Technologies s \<noteq> []) (z\<lparr>as_Technologies := as_Technologies s\<rparr>)
                     (\<lambda>b d. d\<lparr>sdoc_TechnologiesBytes := b\<rparr>)) (\<lambda>g1.
         sum_bind (set_part C (as_Vulnerabilities s \<noteq> []) (z\<lparr>as_Vulnerabilities := as_Vulnerabilities s\<rparr>)
                     (\<lambda>b d. d\<lparr>sdoc_VulnerabilitiesBytes := b\<rparr>)) (\<lambda>g2.
         sum_bind (set_part C (as_DependencyGraph s \<noteq> []) (z\<lparr>as_DependencyGraph := as_DependencyGraph s\<rparr>)
                     (\<lambda>b d. d\<lparr>sdoc_DependencyGraphBytes := b\<rparr>)) (\<lambda>g3.
         sum_bind (set_part C (as_ModuleCards s \<noteq> []) (z\<lparr>as_ModuleCards := as_ModuleCards s\<rparr>)
                     (\<lambda>b d. d\<lparr>sdoc_ModuleCardsBytes := b\<rparr>)) (\<lambda>g4.
         sum_bind (set_part C (as_Blueprints s \<noteq> []) (z\<lparr>as_Blueprints := as_Blueprints s\<rparr>)
                     (\<lambda>b d. d\<lparr>sdoc_BlueprintsBytes := b\<rparr>)) (\<lambda>g5.
         sum_bind (set_part C (as_ModuleClassification s \<noteq> None)
                     (z\<lparr>as_ModuleClassification := as_ModuleClassification s\<rparr>)
                     (\<lambda>b d. d\<lparr>sdoc_ModuleClassificationBytes := b\<rparr>)) (\<lambda>g6.
         sum_bind (set_part C (as_MigrabilityScore s \<noteq> None)
                     (z\<lparr>as_MigrabilityScore := as_MigrabilityScore s\<rparr>)
                     (\<lambda>b d. d\<lparr>sdoc_MigrabilityScoreBytes := b\<rparr>)) (\<lambda>g7.
         sum_bind (set_part C (as_SharedStateHubs s \<noteq> []) (z\<lparr>as_SharedStateHubs := as_SharedStateHubs s\<rparr>)
                     (\<lambda>b d. d\<lparr>sdoc_SharedStateHubsBytes := b\<rparr>)) (\<lambda>g8.
         sum_bind (set_part C (as_UnreachableModules s \<noteq> [])
                     (z\<lparr>as_UnreachableModules := as_UnreachableModules s\<rparr>)
                     (\<lambda>b d. d\<lparr>sdoc_UnreachableModulesBytes := b\<rparr>)) (\<lambda>g9.
         Inr (g9 \<circ> g8 \<circ> g7 \<circ> g6 \<circ> g5 \<circ> g4 \<circ> g3 \<circ> g2 \<circ> g1 \<circ> f3 \<circ> f2 \<circ> f1 \<circ> f0)))))))))))"

definition in_state :: "u64 \<Rightarrow> MigrationState \<Rightarrow> 'b mongoMigrationDoc \<Rightarrow> bool" where
  "in_state i st d \<longleftrightarrow> doc_Identifier d = i \<and> doc_State d = st \<and> doc_DeleteTime d = None"

definition is_running :: "u64 \<Rightarrow> 'b mongoAnalysisSummaryDoc \<Rightarrow> bool" where
  "is_running i d \<longleftrightarrow> sdoc_Identifier d = i \<and> sdoc_State d = ANALYSIS_STATE_RUNNING"

definition sw_Write :: "('w, 'b) WorkerStores \<Rightarrow> AnalysisSummary \<Rightarrow> ('w, unit) io" where
  "sw_Write W s =
     State_Monad.bind (ws_now W) (\<lambda>now.
     case summary_setDoc (adb_codec (ws_analyses W)) s now of
       Inl e \<Rightarrow> io_err e
     | Inr setDoc \<Rightarrow>
         io_bind (UpdateOne (adb_coll (ws_analyses W)) (is_running (as_Identifier s)) setDoc) (\<lambda>matched.
         if matched = 0 then io_ok ()
         else if as_MigrationId s = 0 then io_ok ()
         else io_bind (UpdateOne (ws_migrations W) (in_state (as_MigrationId s) MIGRATION_STATE_ANALYZING)
                (\<lambda>d. d\<lparr>doc_State := MIGRATION_STATE_DESIGNING, doc_AnalysisSummaryID := as_Identifier s,
                       doc_UpdateTime := Some now\<rparr>)) (\<lambda>_. io_ok ())))"

definition sw_MarkAnalysisFailed :: "('w, 'b) WorkerStores \<Rightarrow> u64 \<Rightarrow> string \<Rightarrow> ('w, unit) io" where
  "sw_MarkAnalysisFailed W summaryID reason =
     State_Monad.bind (ws_now W) (\<lambda>now.
       io_bind (UpdateOne (adb_coll (ws_analyses W)) (is_running summaryID)
         (\<lambda>d. d\<lparr>sdoc_State := ANALYSIS_STATE_FAILED, sbson_FailureReason := reason,
                sdoc_UpdateTime := Some now\<rparr>)) (\<lambda>_. io_ok ()))"

definition sw_FindCompletedForBranch ::
  "('w, 'b) WorkerStores \<Rightarrow> u64 \<Rightarrow> string \<Rightarrow> ('w, AnalysisSummary option) io" where
  "sw_FindCompletedForBranch W repositoryID branch =
     io_bind (adb_FindNewest (ws_analyses W) (\<lambda>d. sdoc_RepositoryID d = repositoryID \<and>
                branch \<noteq> [] \<and> sdoc_SourceBranch d = branch \<and> sdoc_State d = ANALYSIS_STATE_COMPLETED \<and>
                sdoc_DeleteTime d = None)) (\<lambda>found.
       io_ok (map_option (\<lambda>d. zero_AnalysisSummary\<lparr>as_Identifier := sdoc_Identifier d,
         as_RepositoryId := sdoc_RepositoryID d, as_SourceBranch := sdoc_SourceBranch d,
         as_CommitSha := sdoc_CommitSHA d, as_State := ANALYSIS_STATE_COMPLETED\<rparr>) found))"

definition sw_WriteReuse :: "('w, 'b) WorkerStores \<Rightarrow> u64 \<Rightarrow> u64 \<Rightarrow> ('w, unit) io" where
  "sw_WriteReuse W existingSummaryID migrationID =
     State_Monad.bind (ws_now W) (\<lambda>now.
     io_bind (UpdateOne (ws_migrations W) (in_state migrationID MIGRATION_STATE_ANALYZING)
       (\<lambda>d. d\<lparr>doc_State := MIGRATION_STATE_DESIGNING, doc_AnalysisSummaryID := existingSummaryID,
              doc_AnalysisReused := True, doc_UpdateTime := Some now\<rparr>)) (\<lambda>_.
     io_bind (UpdateOne (adb_coll (ws_analyses W))
       (\<lambda>d. sdoc_Identifier d = existingSummaryID \<and> sdoc_MigrationID d = 0)
       (\<lambda>d. d\<lparr>sdoc_MigrationID := migrationID, sdoc_UpdateTime := Some now\<rparr>)) (\<lambda>_. io_ok ())))"

definition sw_MarkFailed :: "('w, 'b) WorkerStores \<Rightarrow> u64 \<Rightarrow> string \<Rightarrow> ('w, unit) io" where
  "sw_MarkFailed W migrationID reason =
     State_Monad.bind (ws_now W) (\<lambda>now.
       io_bind (UpdateOne (ws_migrations W) (in_state migrationID MIGRATION_STATE_ANALYZING)
         (\<lambda>d. d\<lparr>doc_State := MIGRATION_STATE_FAILED, bson_FailureReason := reason,
                doc_UpdateTime := Some now\<rparr>)) (\<lambda>_. io_ok ()))"

section \<open>The decomposition worker\<close>

fun write_specs ::
  "('w, 'b) WorkerStores \<Rightarrow> string \<Rightarrow> DataOwnership \<Rightarrow> ProposedService list \<Rightarrow> ('w, unit) io" where
  "write_specs W dir ownership [] = io_ok ()"
| "write_specs W dir ownership (svc # svcs) =
     io_bind (io_wrap (''write spec '' @ ps_Name svc @ '': '')
       (ws_WriteFile W (filepath_Join [dir, ps_Name svc @ ''.yaml''])
          (BuildBoundarySpecYAML svc (do_SharedDatabase ownership)
             (filter (\<lambda>fk. fk_OwnerService fk = ps_Name svc) (do_CrossServiceFKs ownership))
             (filter (\<lambda>oc. opc_FromService oc = ps_Name svc) (do_OperationalCouplings ownership)))))
       (\<lambda>_. write_specs W dir ownership svcs)"

definition writeBoundarySpecs ::
  "('w, 'b) WorkerStores \<Rightarrow> string \<Rightarrow> RestructurePlan \<Rightarrow> DataOwnership \<Rightarrow> ('w, unit) io" where
  "writeBoundarySpecs W workspacePath plan ownership =
     (let dir = filepath_Join [workspacePath, ''.milton_prism'', ''boundary_specs'']
      in io_bind (io_wrap ''mkdir boundary_specs: '' (ws_MkdirAll W dir)) (\<lambda>_.
           write_specs W dir ownership (rp_Services plan)))"

definition pw_WritePlan ::
  "('w, 'b) WorkerStores \<Rightarrow> u64 \<Rightarrow> RestructurePlan \<Rightarrow> string \<Rightarrow> DataOwnership \<Rightarrow> ('w, unit) io" where
  "pw_WritePlan W migrationID plan workspacePath ownership =
     io_ignore (if workspacePath \<noteq> [] then writeBoundarySpecs W workspacePath plan ownership else io_ok ())
     (io_bind (io_wrap ''plan-writer: marshal plan: ''
                 (State_Monad.return (Marshal (ws_planCodec W) plan))) (\<lambda>planBytes.
      State_Monad.bind (ws_now W) (\<lambda>now.
      io_bind (io_wrap ''plan-writer: update migration: ''
                 (UpdateOne (ws_migrations W) (live_at migrationID)
                    (\<lambda>d. d\<lparr>doc_PlanBytes := planBytes, doc_State := MIGRATION_STATE_AWAITING_APPROVAL,
                           doc_UpdateTime := Some now\<rparr>))) (\<lambda>matched.
        if matched = 0
        then io_err (ErrStr (''plan-writer: migration '' @ Itoa (uint migrationID) @
               '' not found or already deleted''))
        else io_ok ()))))"

definition pw_MarkFailed :: "('w, 'b) WorkerStores \<Rightarrow> u64 \<Rightarrow> string \<Rightarrow> ('w, unit) io" where
  "pw_MarkFailed W migrationID reason =
     State_Monad.bind (ws_now W) (\<lambda>now.
       io_bind (UpdateOne (ws_migrations W) (in_state migrationID MIGRATION_STATE_DESIGNING)
         (\<lambda>d. d\<lparr>doc_State := MIGRATION_STATE_FAILED, bson_FailureReason := reason,
                doc_UpdateTime := Some now\<rparr>)) (\<lambda>_. io_ok ()))"

section \<open>The generation worker\<close>

fun state_String :: "MigrationState \<Rightarrow> string" where
  "state_String MIGRATION_STATE_UNSPECIFIED = ''MIGRATION_STATE_UNSPECIFIED''"
| "state_String MIGRATION_STATE_PENDING = ''MIGRATION_STATE_PENDING''"
| "state_String MIGRATION_STATE_ANALYZING = ''MIGRATION_STATE_ANALYZING''"
| "state_String MIGRATION_STATE_DESIGNING = ''MIGRATION_STATE_DESIGNING''"
| "state_String MIGRATION_STATE_AWAITING_APPROVAL = ''MIGRATION_STATE_AWAITING_APPROVAL''"
| "state_String MIGRATION_STATE_GENERATING = ''MIGRATION_STATE_GENERATING''"
| "state_String MIGRATION_STATE_TESTING = ''MIGRATION_STATE_TESTING''"
| "state_String MIGRATION_STATE_READY = ''MIGRATION_STATE_READY''"
| "state_String MIGRATION_STATE_PUSHED = ''MIGRATION_STATE_PUSHED''"
| "state_String MIGRATION_STATE_FAILED = ''MIGRATION_STATE_FAILED''"
| "state_String MIGRATION_STATE_CANCELLED = ''MIGRATION_STATE_CANCELLED''"
| "state_String MIGRATION_STATE_RESTRUCTURING_READY = ''MIGRATION_STATE_RESTRUCTURING_READY''"
| "state_String (MIGRATION_STATE_OTHER n) = Itoa n"

definition setFinalState :: "('w, 'b) WorkerStores \<Rightarrow> u64 \<Rightarrow> MigrationState \<Rightarrow> ('w, unit) io" where
  "setFinalState W migrationID state =
     State_Monad.bind (ws_now W) (\<lambda>now.
     io_bind (io_wrap (''state-updater: migration_id='' @ Itoa (uint migrationID) @ '' state='' @
                 state_String state @ '': '')
               (UpdateOne (ws_migrations W) (live_at migrationID)
                  (\<lambda>d. d\<lparr>doc_State := state, doc_UpdateTime := Some now\<rparr>))) (\<lambda>matched.
       if matched = 0
       then io_err (ErrStr (''state-updater: migration_id='' @ Itoa (uint migrationID) @ '' not found''))
       else io_ok ()))"

definition su_MarkReady :: "('w, 'b) WorkerStores \<Rightarrow> u64 \<Rightarrow> ('w, unit) io" where
  "su_MarkReady W migrationID = setFinalState W migrationID MIGRATION_STATE_READY"

definition su_MarkFailed :: "('w, 'b) WorkerStores \<Rightarrow> u64 \<Rightarrow> ('w, unit) io" where
  "su_MarkFailed W migrationID = setFinalState W migrationID MIGRATION_STATE_FAILED"

section \<open>What a write does to a record\<close>

inductive worker_step :: "Migration \<Rightarrow> Migration \<Rightarrow> bool" where
  analysed: "mig_State m = MIGRATION_STATE_ANALYZING \<Longrightarrow> mig_AnalysisReused m \<longrightarrow> reused \<Longrightarrow>
     worker_step m (m\<lparr>mig_State := MIGRATION_STATE_DESIGNING, mig_AnalysisSummaryId := s,
       mig_AnalysisReused := reused, mig_UpdateTime := Some t\<rparr>)"
| analysis_failed: "mig_State m = MIGRATION_STATE_ANALYZING \<Longrightarrow>
     worker_step m (m\<lparr>mig_State := MIGRATION_STATE_FAILED, mig_UpdateTime := Some t\<rparr>)"
| design_failed: "mig_State m = MIGRATION_STATE_DESIGNING \<Longrightarrow>
     worker_step m (m\<lparr>mig_State := MIGRATION_STATE_FAILED, mig_UpdateTime := Some t\<rparr>)"
| planned: "worker_step m (m\<lparr>mig_Plan := p, mig_State := MIGRATION_STATE_AWAITING_APPROVAL,
       mig_UpdateTime := Some t\<rparr>)"
| generated: "st \<in> {MIGRATION_STATE_READY, MIGRATION_STATE_FAILED} \<Longrightarrow>
     worker_step m (m\<lparr>mig_State := st, mig_UpdateTime := Some t\<rparr>)"

datatype worker_write =
    WSummary AnalysisSummary | WAnalysisFailed u64 string | WReuse u64 u64 | WMigrationFailed u64 string
  | WPlan u64 RestructurePlan string DataOwnership | WDesignFailed u64 string
  | WReady u64 | WGenerationFailed u64

fun perform :: "('w, 'b) WorkerStores \<Rightarrow> worker_write \<Rightarrow> ('w, unit) io" where
  "perform W (WSummary s) = sw_Write W s"
| "perform W (WAnalysisFailed i reason) = sw_MarkAnalysisFailed W i reason"
| "perform W (WReuse s i) = sw_WriteReuse W s i"
| "perform W (WMigrationFailed i reason) = sw_MarkFailed W i reason"
| "perform W (WPlan i plan path own) = pw_WritePlan W i plan path own"
| "perform W (WDesignFailed i reason) = pw_MarkFailed W i reason"
| "perform W (WReady i) = su_MarkReady W i"
| "perform W (WGenerationFailed i) = su_MarkFailed W i"

text \<open>The writes whose filter names the state they start from.\<close>

fun guarded_write :: "worker_write \<Rightarrow> bool" where
  "guarded_write (WPlan i plan path own) = False"
| "guarded_write (WReady i) = False"
| "guarded_write (WGenerationFailed i) = False"
| "guarded_write _ = True"

definition workers_ok ::
  "('w, 'b) WorkerStores \<Rightarrow> 'b Codecs \<Rightarrow> ('w \<Rightarrow> 'b mongoMigrationDoc list) \<Rightarrow> bool" where
  "workers_ok W C docs \<longleftrightarrow>
     collection_ok doc_Identifier (ws_migrations W) docs \<and> ws_planCodec W = cPlan C \<and>
     codec_ok zero_RestructurePlan (cPlan C) \<and> keeps docs (ws_now W) \<and>
     (\<forall>q f. keeps docs (UpdateOne (adb_coll (ws_analyses W)) q f)) \<and>
     (\<forall>p. keeps docs (ws_MkdirAll W p)) \<and> (\<forall>p c. keeps docs (ws_WriteFile W p c))"

definition changes :: "'b Codecs \<Rightarrow> 'b mongoMigrationDoc list \<Rightarrow> 'b mongoMigrationDoc list \<Rightarrow>
    (Migration \<Rightarrow> Migration \<Rightarrow> bool) \<Rightarrow> bool" where
  "changes C ds ds' P \<longleftrightarrow> docs_ok C ds' \<and>
     (doc_view C ds' = doc_view C ds \<or>
      (\<exists>i m m'. doc_view C ds i = Some m \<and> mig_DeleteTime m = None \<and> P m m' \<and>
         doc_view C ds' = (doc_view C ds)(i \<mapsto> m')))"

lemma changes_same: "docs_ok C ds \<Longrightarrow> changes C ds ds P"
  by (simp add: changes_def)

text \<open>One update of the migrations: what it may change, and what it has changed when it matched.\<close>

lemma update_changes:
  assumes coll: "collection_ok doc_Identifier coll docs" and ok: "docs_ok C (docs w)"
    and run: "run_state (UpdateOne coll q f) w = (y, w')"
    and q: "\<And>d. q d \<Longrightarrow> live_at i d"
    and f: "\<And>d m. q d \<Longrightarrow> doc_reads C d m \<Longrightarrow>
       doc_Identifier (f d) = i \<and> (\<exists>m'. doc_reads C (f d) m' \<and> P m m')"
  shows "changes C (docs w) (docs w') P \<and>
    (case y of Inl _ \<Rightarrow> True
     | Inr n \<Rightarrow> if n = 0 then (\<forall>d \<in> set (docs w). \<not> q d) \<and> docs w' = docs w
         else \<exists>m m'. doc_view C (docs w) i = Some m \<and> P m m' \<and>
                doc_view C (docs w') = (doc_view C (docs w))(i \<mapsto> m'))"
proof -
  have eff: "docs_ok C (docs w') \<and> (\<exists>m m'. doc_view C (docs w) i = Some m \<and>
      mig_DeleteTime m = None \<and> P m m' \<and> doc_view C (docs w') = (doc_view C (docs w))(i \<mapsto> m'))"
    if "\<exists>xs d ys. docs w = xs @ d # ys \<and> q d \<and> docs w' = xs @ f d # ys"
  proof -
    from that obtain xs d ys where eq: "docs w = xs @ d # ys" "docs w' = xs @ f d # ys" and "q d"
      by blast
    from replaced_view [of C xs d ys i "f d" P] ok q [OF \<open>q d\<close>] f [OF \<open>q d\<close>] eq
    show ?thesis by auto
  qed
  from collection_UpdateOne [OF coll run] eff ok show ?thesis
    by (auto simp: Let_def changes_def split: sum.splits if_splits)
qed

lemma decode_analysed:
  "doc_reads C d m \<Longrightarrow>
   doc_reads C (d\<lparr>doc_State := st, doc_AnalysisSummaryID := s, doc_UpdateTime := t\<rparr>)
     (m\<lparr>mig_State := st, mig_AnalysisSummaryId := s, mig_UpdateTime := t\<rparr>)"
  by (auto simp: doc_reads_def migrationDocToDomain_def)

lemma decode_reused:
  "doc_reads C d m \<Longrightarrow>
   doc_reads C (d\<lparr>doc_State := st, doc_AnalysisSummaryID := s, doc_AnalysisReused := r, doc_UpdateTime := t\<rparr>)
     (m\<lparr>mig_State := st, mig_AnalysisSummaryId := s, mig_AnalysisReused := r, mig_UpdateTime := t\<rparr>)"
  by (auto simp: doc_reads_def migrationDocToDomain_def)

lemma decode_failure:
  "doc_reads C d m \<Longrightarrow>
   doc_reads C (d\<lparr>doc_State := st, bson_FailureReason := r, doc_UpdateTime := t\<rparr>)
     (m\<lparr>mig_State := st, mig_UpdateTime := t\<rparr>)"
  by (auto simp: doc_reads_def migrationDocToDomain_def)

lemma decode_plan:
  "doc_reads C d m \<Longrightarrow> unmarshal_field (cPlan C) ''plan'' b = Inr p \<Longrightarrow>
   doc_reads C (d\<lparr>doc_PlanBytes := b, doc_State := st, doc_UpdateTime := t\<rparr>)
     (m\<lparr>mig_Plan := p, mig_State := st, mig_UpdateTime := t\<rparr>)"
  by (auto simp: doc_reads_def migrationDocToDomain_def)

lemma decode_keeps:
  "doc_reads C d m \<Longrightarrow> mig_State m = doc_State d \<and> mig_Identifier m = doc_Identifier d \<and>
     mig_AnalysisReused m = doc_AnalysisReused d"
  by (auto simp: doc_reads_def migrationDocToDomain_def)

lemma analysed_keep_reused:
  "mig_State m = MIGRATION_STATE_ANALYZING \<Longrightarrow>
   worker_step m (m\<lparr>mig_State := MIGRATION_STATE_DESIGNING, mig_AnalysisSummaryId := s, mig_UpdateTime := Some t\<rparr>)"
  using worker_step.analysed [where m = m and reused = "mig_AnalysisReused m" and s = s and t = t] by simp

section \<open>The writes refine the steps\<close>

text \<open>The guarded update of a migration, followed by nothing.\<close>

lemma guarded_update:
  assumes W: "workers_ok W C docs" and ok: "docs_ok C (docs w)"
    and run: "run_state (UpdateOne (ws_migrations W) (in_state i st) f) w = (y, w')"
    and f: "\<And>d m. doc_State d = st \<Longrightarrow> doc_reads C d m \<Longrightarrow>
       doc_Identifier (f d) = doc_Identifier d \<and> (\<exists>m'. doc_reads C (f d) m' \<and> worker_step m m')"
  shows "changes C (docs w) (docs w') (\<lambda>m m'. mig_State m = st \<and> worker_step m m')"
proof -
  have "collection_ok doc_Identifier (ws_migrations W) docs" using W by (simp add: workers_ok_def)
  from update_changes [OF this ok run, of i "\<lambda>m m'. mig_State m = st \<and> worker_step m m'"] f
  show ?thesis using decode_keeps by (fastforce simp: in_state_def)
qed

lemma workers_okD:
  assumes "workers_ok W C docs"
  shows "keeps docs (ws_now W)" and "keeps docs (UpdateOne (adb_coll (ws_analyses W)) q f)"
    and "keeps docs (ws_MkdirAll W p)" and "keeps docs (ws_WriteFile W p c)"
    and "collection_ok doc_Identifier (ws_migrations W) docs"
  using assms by (auto simp: workers_ok_def)

lemma keeps_write_specs:
  assumes "workers_ok W C docs"
  shows "keeps docs (write_specs W dir own svcs)"
  using workers_okD [OF assms]
  by (induction svcs) (auto simp: io_bind_def io_wrap_def split: sum.splits intro!: keeps_bind)

lemma keeps_writeBoundarySpecs:
  assumes "workers_ok W C docs"
  shows "keeps docs (writeBoundarySpecs W path plan own)"
  using workers_okD [OF assms] keeps_write_specs [OF assms]
  by (auto simp: writeBoundarySpecs_def Let_def io_bind_def io_wrap_def split: sum.splits intro!: keeps_bind)

text \<open>The pattern of the writes that end in one guarded update.\<close>

lemma now_guarded_update:
  assumes W: "workers_ok W C docs" and ok: "docs_ok C (docs w)"
    and run: "run_state (State_Monad.bind (ws_now W) (\<lambda>now.
        io_bind (UpdateOne (ws_migrations W) (in_state i st) (f now)) (\<lambda>_. g now))) w = (r, w')"
    and g: "\<And>now. keeps docs (g now)"
    and f: "\<And>now d m. doc_State d = st \<Longrightarrow> doc_reads C d m \<Longrightarrow>
       doc_Identifier (f now d) = doc_Identifier d \<and> (\<exists>m'. doc_reads C (f now d) m' \<and> worker_step m m')"
  shows "changes C (docs w) (docs w') (\<lambda>m m'. mig_State m = st \<and> worker_step m m')"
proof -
  obtain now w1 where now: "run_state (ws_now W) w = (now, w1)" by (meson surj_pair)
  have w1: "docs w1 = docs w" using workers_okD(1) [OF W] now by (rule keepsD)
  obtain y w2 where y: "run_state (UpdateOne (ws_migrations W) (in_state i st) (f now)) w1 = (y, w2)"
    by (meson surj_pair)
  have ch: "changes C (docs w1) (docs w2) (\<lambda>m m'. mig_State m = st \<and> worker_step m m')"
    by (rule guarded_update [OF W _ y]) (use ok w1 f in auto)
  have "docs w' = docs w2"
  proof (cases y)
    case (Inl e)
    with run now y show ?thesis by (simp add: io_unfold)
  next
    case (Inr n)
    with run now y have "run_state (g now) w2 = (r, w')" by (simp add: io_unfold)
    with g show ?thesis by (rule keepsD)
  qed
  with ch w1 show ?thesis by simp
qed

lemma analysed_update:
  assumes "doc_State d = MIGRATION_STATE_ANALYZING" and "doc_reads C d m"
  shows "\<exists>m'. doc_reads C (d\<lparr>doc_State := MIGRATION_STATE_DESIGNING, doc_AnalysisSummaryID := s,
      doc_UpdateTime := Some t\<rparr>) m' \<and> worker_step m m'"
    and "\<exists>m'. doc_reads C (d\<lparr>doc_State := MIGRATION_STATE_DESIGNING, doc_AnalysisSummaryID := s,
      doc_AnalysisReused := True, doc_UpdateTime := Some t\<rparr>) m' \<and> worker_step m m'"
    and "\<exists>m'. doc_reads C (d\<lparr>doc_State := MIGRATION_STATE_FAILED, bson_FailureReason := reason,
      doc_UpdateTime := Some t\<rparr>) m' \<and> worker_step m m'"
proof -
  have "mig_State m = MIGRATION_STATE_ANALYZING" using assms decode_keeps by fastforce
  then show "\<exists>m'. doc_reads C (d\<lparr>doc_State := MIGRATION_STATE_DESIGNING, doc_AnalysisSummaryID := s,
      doc_UpdateTime := Some t\<rparr>) m' \<and> worker_step m m'"
    and "\<exists>m'. doc_reads C (d\<lparr>doc_State := MIGRATION_STATE_DESIGNING, doc_AnalysisSummaryID := s,
      doc_AnalysisReused := True, doc_UpdateTime := Some t\<rparr>) m' \<and> worker_step m m'"
    and "\<exists>m'. doc_reads C (d\<lparr>doc_State := MIGRATION_STATE_FAILED, bson_FailureReason := reason,
      doc_UpdateTime := Some t\<rparr>) m' \<and> worker_step m m'"
    using decode_analysed [OF assms(2)] decode_reused [OF assms(2)] decode_failure [OF assms(2)]
      analysed_keep_reused worker_step.analysed [where reused = True] worker_step.analysis_failed
    by (meson, meson, meson)
qed

lemma design_failed_update:
  assumes "doc_State d = MIGRATION_STATE_DESIGNING" and "doc_reads C d m"
  shows "\<exists>m'. doc_reads C (d\<lparr>doc_State := MIGRATION_STATE_FAILED, bson_FailureReason := reason,
      doc_UpdateTime := Some t\<rparr>) m' \<and> worker_step m m'"
proof -
  have "mig_State m = MIGRATION_STATE_DESIGNING" using assms decode_keeps by fastforce
  then show ?thesis using decode_failure [OF assms(2)] worker_step.design_failed by meson
qed

lemma guarded_write_changes:
  assumes W: "workers_ok W C docs" and ok: "docs_ok C (docs w)"
    and wr: "guarded_write x" and run: "run_state (perform W x) w = (r, w')"
  shows "changes C (docs w) (docs w')
    (\<lambda>m m'. mig_State m \<in> {MIGRATION_STATE_ANALYZING, MIGRATION_STATE_DESIGNING} \<and> worker_step m m')"
proof -
  have weaken: "?thesis" if "changes C (docs w) (docs w') (\<lambda>m m'. mig_State m = st \<and> worker_step m m')"
    "st \<in> {MIGRATION_STATE_ANALYZING, MIGRATION_STATE_DESIGNING}" for st
    using that by (fastforce simp: changes_def)
  show ?thesis
  proof (cases x)
    case (WSummary s)
    obtain now w1 where now: "run_state (ws_now W) w = (now, w1)" by (meson surj_pair)
    have w1: "docs w1 = docs w" using workers_okD(1) [OF W] now by (rule keepsD)
    show ?thesis
    proof (cases "summary_setDoc (adb_codec (ws_analyses W)) s now")
      case (Inl e)
      with run WSummary now w1 ok show ?thesis by (simp add: sw_Write_def io_unfold changes_same)
    next
      case (Inr f)
      obtain y w2 where y: "run_state (UpdateOne (adb_coll (ws_analyses W))
          (is_running (as_Identifier s)) f) w1 = (y, w2)" by (meson surj_pair)
      have w2: "docs w2 = docs w" using keepsD [OF workers_okD(2) [OF W] y] w1 by simp
      show ?thesis
      proof (cases "\<exists>n. y = Inr n \<and> n \<noteq> 0 \<and> as_MigrationId s \<noteq> 0")
        case False
        then have "w' = w2" using run WSummary now Inr y
          by (cases y) (auto simp: sw_Write_def io_unfold split: if_splits)
        with w2 ok show ?thesis by (simp add: changes_same)
      next
        case True
        let ?f = "\<lambda>d. d\<lparr>doc_State := MIGRATION_STATE_DESIGNING, doc_AnalysisSummaryID := as_Identifier s,
            doc_UpdateTime := Some now\<rparr>"
        obtain z w3 where z: "run_state (UpdateOne (ws_migrations W)
            (in_state (as_MigrationId s) MIGRATION_STATE_ANALYZING) ?f) w2 = (z, w3)" by (meson surj_pair)
        have "w' = w3" using run WSummary now Inr y True z
          by (cases z) (auto simp: sw_Write_def io_unfold)
        moreover have "changes C (docs w2) (docs w3)
            (\<lambda>m m'. mig_State m = MIGRATION_STATE_ANALYZING \<and> worker_step m m')"
          by (rule guarded_update [OF W _ z]) (use ok w2 analysed_update(1) in auto)
        ultimately show ?thesis using weaken w2 by auto
      qed
    qed
  next
    case (WAnalysisFailed i reason)
    have "keeps docs (sw_MarkAnalysisFailed W i reason)"
      using workers_okD [OF W]
      by (auto simp: sw_MarkAnalysisFailed_def io_bind_def split: sum.splits intro!: keeps_bind)
    then have "docs w' = docs w" using run WAnalysisFailed by (auto dest: keepsD)
    with ok show ?thesis by (simp add: changes_same)
  next
    case (WReuse s i)
    have "changes C (docs w) (docs w') (\<lambda>m m'. mig_State m = MIGRATION_STATE_ANALYZING \<and> worker_step m m')"
      by (rule now_guarded_update [OF W ok run [unfolded WReuse perform.simps sw_WriteReuse_def]])
         (use workers_okD [OF W] analysed_update(2) in
           \<open>auto simp: io_bind_def split: sum.splits intro!: keeps_bind\<close>)
    with weaken show ?thesis by auto
  next
    case (WMigrationFailed i reason)
    have "changes C (docs w) (docs w') (\<lambda>m m'. mig_State m = MIGRATION_STATE_ANALYZING \<and> worker_step m m')"
      by (rule now_guarded_update [OF W ok run [unfolded WMigrationFailed perform.simps sw_MarkFailed_def]])
         (use analysed_update(3) in auto)
    with weaken show ?thesis by auto
  next
    case (WDesignFailed i reason)
    have "changes C (docs w) (docs w') (\<lambda>m m'. mig_State m = MIGRATION_STATE_DESIGNING \<and> worker_step m m')"
      by (rule now_guarded_update [OF W ok run [unfolded WDesignFailed perform.simps pw_MarkFailed_def]])
         (use design_failed_update in auto)
    with weaken show ?thesis by auto
  qed (use wr in auto)
qed

text \<open>The two writes that do not look at the state: the plan and the end of the generation.\<close>

lemma WritePlan_run:
  assumes W: "workers_ok W C docs" and ok: "docs_ok C (docs w)"
    and run: "run_state (pw_WritePlan W i plan path own) w = (r, w')"
  shows "changes C (docs w) (docs w') worker_step \<and>
    (r = Inr () \<longrightarrow> (\<exists>m t. doc_view C (docs w) i = Some m \<and>
       doc_view C (docs w') = (doc_view C (docs w))(i \<mapsto> m\<lparr>mig_Plan := stored zero_RestructurePlan plan,
         mig_State := MIGRATION_STATE_AWAITING_APPROVAL, mig_UpdateTime := Some t\<rparr>))) \<and>
    (doc_view C (docs w) i = Some m \<and> mig_DeleteTime m = None \<longrightarrow>
       r = Inr () \<or> (\<exists>l e. r = Inl (wrap_error l e [])))"
proof -
  let ?specs = "if path \<noteq> [] then writeBoundarySpecs W path plan own else io_ok ()"
  obtain x w1 where x: "run_state ?specs w = (x, w1)" by (meson surj_pair)
  have "keeps docs ?specs" using keeps_writeBoundarySpecs [OF W] by simp
  then have w1: "docs w1 = docs w" using x by (rule keepsD)
  show ?thesis
  proof (cases "Marshal (ws_planCodec W) plan")
    case (Inl e)
    with run x have "w' = w1" "r = Inl (wrap_error ''plan-writer: marshal plan: '' e [])"
      by (auto simp: pw_WritePlan_def io_unfold io_ignore_def)
    with w1 ok show ?thesis by (auto simp: changes_same)
  next
    case (Inr b)
    obtain now w2 where now: "run_state (ws_now W) w1 = (now, w2)" by (meson surj_pair)
    have w2: "docs w2 = docs w" using keepsD [OF workers_okD(1) [OF W] now] w1 by simp
    let ?f = "\<lambda>d. d\<lparr>doc_PlanBytes := b, doc_State := MIGRATION_STATE_AWAITING_APPROVAL,
        doc_UpdateTime := Some now\<rparr>"
    let ?P = "\<lambda>m m'. m' = m\<lparr>mig_Plan := stored zero_RestructurePlan plan,
         mig_State := MIGRATION_STATE_AWAITING_APPROVAL, mig_UpdateTime := Some now\<rparr>"
    obtain y w3 where y: "run_state (UpdateOne (ws_migrations W) (live_at i) ?f) w2 = (y, w3)"
      by (meson surj_pair)
    have bytes: "unmarshal_field (cPlan C) ''plan'' b = Inr (stored zero_RestructurePlan plan)"
      using W Inr by (auto simp: workers_ok_def intro: unmarshal_stored)
    have ch: "changes C (docs w2) (docs w3) ?P \<and> (case y of Inl _ \<Rightarrow> True
      | Inr n \<Rightarrow> if n = 0 then (\<forall>d \<in> set (docs w2). \<not> live_at i d) \<and> docs w3 = docs w2
         else \<exists>m m'. doc_view C (docs w2) i = Some m \<and> ?P m m' \<and>
                doc_view C (docs w3) = (doc_view C (docs w2))(i \<mapsto> m'))"
      by (rule update_changes [OF workers_okD(5) [OF W] _ y])
         (use ok w2 decode_plan [OF _ bytes] in auto)
    have out: "w' = w3" "r = (case y of Inl e \<Rightarrow> Inl (wrap_error ''plan-writer: update migration: '' e [])
        | Inr n \<Rightarrow> if n = 0 then Inl (ErrStr (''plan-writer: migration '' @ Itoa (uint i) @
               '' not found or already deleted'')) else Inr ())"
      using run x Inr now y by (auto simp: pw_WritePlan_def io_unfold io_ignore_def split: sum.splits if_splits)
    have steps: "changes C (docs w) (docs w') worker_step"
      using ch w2 out worker_step.planned unfolding changes_def by metis
    have live: "\<exists>d \<in> set (docs w). live_at i d" if "doc_view C (docs w) i = Some m" "mig_DeleteTime m = None"
      using that doc_view_Some [OF ok] decode_fields by metis
    show ?thesis
      using steps ch w2 out live by (cases y) (auto split: if_splits)
  qed
qed

lemma setFinalState_run:
  assumes W: "workers_ok W C docs" and ok: "docs_ok C (docs w)"
    and st: "st \<in> {MIGRATION_STATE_READY, MIGRATION_STATE_FAILED}"
    and run: "run_state (setFinalState W i st) w = (r, w')"
  shows "changes C (docs w) (docs w') worker_step \<and>
    (r = Inr () \<longrightarrow> (\<exists>m t. doc_view C (docs w) i = Some m \<and>
       doc_view C (docs w') = (doc_view C (docs w))(i \<mapsto> m\<lparr>mig_State := st, mig_UpdateTime := Some t\<rparr>)))"
proof -
  obtain now w2 where now: "run_state (ws_now W) w = (now, w2)" by (meson surj_pair)
  have w2: "docs w2 = docs w" using keepsD [OF workers_okD(1) [OF W] now] .
  let ?f = "\<lambda>d. d\<lparr>doc_State := st, doc_UpdateTime := Some now\<rparr>"
  let ?P = "\<lambda>m m'. m' = m\<lparr>mig_State := st, mig_UpdateTime := Some now\<rparr>"
  obtain y w3 where y: "run_state (UpdateOne (ws_migrations W) (live_at i) ?f) w2 = (y, w3)"
    by (meson surj_pair)
  have ch: "changes C (docs w2) (docs w3) ?P \<and> (case y of Inl _ \<Rightarrow> True
    | Inr n \<Rightarrow> if n = 0 then (\<forall>d \<in> set (docs w2). \<not> live_at i d) \<and> docs w3 = docs w2
       else \<exists>m m'. doc_view C (docs w2) i = Some m \<and> ?P m m' \<and>
              doc_view C (docs w3) = (doc_view C (docs w2))(i \<mapsto> m'))"
    by (rule update_changes [OF workers_okD(5) [OF W] _ y]) (use ok w2 decode_state in auto)
  have out: "w' = w3" "r = Inr () \<longrightarrow> (\<exists>n. y = Inr n \<and> n \<noteq> 0)"
    using run now y by (auto simp: setFinalState_def io_unfold split: sum.splits if_splits)
  have "changes C (docs w) (docs w') worker_step"
    using ch w2 out worker_step.generated [OF st] unfolding changes_def by metis
  with ch w2 out show ?thesis by (cases y) (auto split: if_splits)
qed

text \<open>
  C25. Whatever a worker writes, and however its write ends, the stored migrations stay readable
  and at most one of them changes, a live one, by a step of the workers' life cycle. The writes
  that name the state they start from only touch migrations under analysis or in design.
\<close>

theorem worker_writes_refine_steps:
  assumes W: "workers_ok W C docs" and ok: "docs_ok C (docs w)"
    and run: "run_state (perform W x) w = (r, w')"
  shows "docs_ok C (docs w') \<and>
    (doc_view C (docs w') = doc_view C (docs w) \<or>
     (\<exists>i m m'. doc_view C (docs w) i = Some m \<and> mig_DeleteTime m = None \<and> worker_step m m' \<and>
        (guarded_write x \<longrightarrow> mig_State m \<in> {MIGRATION_STATE_ANALYZING, MIGRATION_STATE_DESIGNING}) \<and>
        doc_view C (docs w') = (doc_view C (docs w))(i \<mapsto> m')))"
proof (cases "guarded_write x")
  case True
  from guarded_write_changes [OF W ok True run] show ?thesis unfolding changes_def by blast
next
  case False
  have "changes C (docs w) (docs w') worker_step"
  proof (cases x)
    case (WPlan i plan path own)
    with run WritePlan_run [OF W ok] show ?thesis by auto
  next
    case (WReady i)
    with run have "run_state (setFinalState W i MIGRATION_STATE_READY) w = (r, w')"
      by (simp add: su_MarkReady_def)
    from setFinalState_run [OF W ok _ this] show ?thesis by blast
  next
    case (WGenerationFailed i)
    with run have "run_state (setFinalState W i MIGRATION_STATE_FAILED) w = (r, w')"
      by (simp add: su_MarkFailed_def)
    from setFinalState_run [OF W ok _ this] show ?thesis by blast
  qed (use False in auto)
  with False show ?thesis unfolding changes_def by blast
qed

text \<open>
  The plan writer does not look at the state. When the driver answers, writing a plan for a
  live migration succeeds and leaves it awaiting approval with the plan, whatever state it was in:
  a migration that was cancelled while its design was under way is open for approval again.
\<close>

theorem plan_overrides_any_state:
  assumes "workers_ok W C docs" and "docs_ok C (docs w)"
    and "doc_view C (docs w) i = Some m" and "mig_DeleteTime m = None"
    and "run_state (pw_WritePlan W i plan path own) w = (r, w')"
  shows "(\<exists>l e. r = Inl (wrap_error l e [])) \<or>
    (r = Inr () \<and> (\<exists>t. doc_view C (docs w') i = Some (m\<lparr>mig_Plan := stored zero_RestructurePlan plan,
       mig_State := MIGRATION_STATE_AWAITING_APPROVAL, mig_UpdateTime := Some t\<rparr>)))"
proof -
  note run = WritePlan_run [OF assms(1,2,5), of m]
  then have "r = Inr () \<or> (\<exists>l e. r = Inl (wrap_error l e []))" using assms(3,4) by blast
  moreover have "\<exists>t. doc_view C (docs w') i = Some (m\<lparr>mig_Plan := stored zero_RestructurePlan plan,
       mig_State := MIGRATION_STATE_AWAITING_APPROVAL, mig_UpdateTime := Some t\<rparr>)" if "r = Inr ()"
    using conjunct1 [OF conjunct2 [OF run]] that by (auto simp: assms(3))
  ultimately show ?thesis by blast
qed

text \<open>
  A second run of the summary writer does nothing: when no summary of that identifier is
  running, a write that gets past the driver changes no migration and reports success. So when the
  first run completed the summary and then failed to advance the migration, the migration stays in
  \<open>ANALYZING\<close> however often the job is repeated.
\<close>

theorem summary_rerun_skips_migration:
  assumes W: "workers_ok W C docs"
    and A: "collection_ok sdoc_Identifier (adb_coll (ws_analyses W)) adocs" "keeps adocs (ws_now W)"
    and none: "\<forall>d \<in> set (adocs w). \<not> is_running (as_Identifier s) d"
    and run: "run_state (sw_Write W s) w = (r, w')"
  shows "docs w' = docs w \<and> (r = Inr () \<longrightarrow> adocs w' = adocs w)"
proof -
  obtain now w1 where now: "run_state (ws_now W) w = (now, w1)" by (meson surj_pair)
  have w1: "docs w1 = docs w" "adocs w1 = adocs w"
    using keepsD [OF workers_okD(1) [OF W] now] keepsD [OF A(2) now] by auto
  show ?thesis
  proof (cases "summary_setDoc (adb_codec (ws_analyses W)) s now")
    case (Inl e)
    with run now w1 show ?thesis by (auto simp: sw_Write_def io_unfold)
  next
    case (Inr f)
    obtain y w2 where y: "run_state (UpdateOne (adb_coll (ws_analyses W))
        (is_running (as_Identifier s)) f) w1 = (y, w2)" by (meson surj_pair)
    have w2: "docs w2 = docs w" using keepsD [OF workers_okD(2) [OF W] y] w1 by simp
    from collection_UpdateOne [OF A(1) y] none w1
    have "adocs w2 = adocs w" and "(\<exists>e. y = Inl e) \<or> y = Inr 0"
      by (auto simp: Let_def split: sum.splits if_splits)
    with run now Inr y w2 show ?thesis by (auto simp: sw_Write_def io_unfold)
  qed
qed

section \<open>Requests and workers interleaved\<close>

datatype event = Request request | Worker worker_write

fun run_events :: "'w Service \<Rightarrow> ('w, 'b) WorkerStores \<Rightarrow> event list \<Rightarrow> ('w, unit) state" where
  "run_events S W [] = State_Monad.return ()"
| "run_events S W (Request r # es) = io_ignore (serve S r) (run_events S W es)"
| "run_events S W (Worker x # es) = io_ignore (perform W x) (run_events S W es)"





section \<open>The workers over the in-memory driver\<close>

definition mem_workers :: "(mem, proto_msg) WorkerStores" where
  "mem_workers =
     \<lparr> ws_analyses = mem_adb, ws_migrations = mem_coll, ws_planCodec = cPlan (db_codecs mem_db),
       ws_now = db_now mem_db, ws_MkdirAll = (\<lambda>p. io_ok ()), ws_WriteFile = (\<lambda>p c. io_ok ()) \<rparr>"

lemma mem_workers_ok: "workers_ok mem_workers (db_codecs mem_db) mem_docs"
proof -
  have "codec_ok zero_RestructurePlan (cPlan (db_codecs mem_db))"
    using mem_codecs_ok by (simp add: codecs_ok_def mem_db_def)
  then show ?thesis using mem_coll_ok
    by (auto simp: workers_ok_def mem_workers_def keeps_def mem_db_def mem_adb_def
        mem_analyses_coll_def list_coll_def split: prod.splits)
qed

definition no_ownership :: DataOwnership where
  "no_ownership = \<lparr> do_SharedDatabase = True, do_CrossServiceFKs = [], do_OperationalCouplings = [] \<rparr>"

definition demo_plan :: RestructurePlan where
  "demo_plan = zero_RestructurePlan\<lparr>rp_Rationale := ''split by domain''\<rparr>"

theorem worker_writes_refine_steps_witness:
  "\<exists>m m'. doc_view (db_codecs mem_db) (mem_docs (demo_world MIGRATION_STATE_DESIGNING)) 1 = Some m \<and>
     worker_step m m' \<and> mig_State m' = MIGRATION_STATE_FAILED"
proof -
  let ?w = "demo_world MIGRATION_STATE_DESIGNING"
  let ?run = "run_state (perform mem_workers (WDesignFailed 1 ''boom'')) ?w"
  let ?V = "doc_view (db_codecs mem_db) (mem_docs ?w)"
    and ?V' = "doc_view (db_codecs mem_db) (mem_docs (snd ?run))"
  have st: "map_option mig_State (?V' 1) = Some MIGRATION_STATE_FAILED"
      "map_option mig_State (?V 1) = Some MIGRATION_STATE_DESIGNING"
    by code_simp+
  then have ne: "?V' \<noteq> ?V" by auto
  from worker_writes_refine_steps [OF mem_workers_ok demo_world_ok prod.collapse [symmetric],
      of "WDesignFailed 1 ''boom''" MIGRATION_STATE_DESIGNING] ne
  obtain i m m' where s: "?V i = Some m" "worker_step m m'" "?V' = ?V(i \<mapsto> m')" by blast
  have "i = 1" using st s(3) by (cases "i = 1") auto
  with s st show ?thesis by (intro exI [of _ m] exI [of _ m']) auto
qed

theorem plan_overrides_any_state_witness:
  "\<exists>m t. doc_view (db_codecs mem_db) (mem_docs (snd (run_state
       (pw_WritePlan mem_workers 1 demo_plan [] no_ownership)
       (demo_world MIGRATION_STATE_CANCELLED)))) 1 =
     Some (m\<lparr>mig_Plan := Some demo_plan, mig_State := MIGRATION_STATE_AWAITING_APPROVAL,
             mig_UpdateTime := Some t\<rparr>) \<and> mig_State m = MIGRATION_STATE_CANCELLED"
proof -
  let ?w = "demo_world MIGRATION_STATE_CANCELLED"
  let ?run = "run_state (pw_WritePlan mem_workers 1 demo_plan [] no_ownership) ?w"
  let ?m = "projr (migrationDocToDomain (db_codecs mem_db) (demo_doc 1 MIGRATION_STATE_CANCELLED))"
  have ok: "\<not> isl (fst ?run)" by code_simp
  have m: "mig_DeleteTime ?m = None" "mig_State ?m = MIGRATION_STATE_CANCELLED"
    by (simp_all add: demo_doc_def migrationDocToDomain_def doc_roadmap_def unmarshal_field_def)
  have plan: "stored zero_RestructurePlan demo_plan = Some demo_plan"
    by (simp add: stored_def demo_plan_def zero_RestructurePlan_def)
  from plan_overrides_any_state [OF mem_workers_ok demo_world_ok demo_world_view m(1) prod.collapse [symmetric],
      of demo_plan "[]" no_ownership] ok plan m(2)
  show ?thesis by (cases "fst ?run") auto
qed

text \<open>Stores whose migrations cannot be reached: every update of them fails.\<close>

definition failing_workers :: "(mem, proto_msg) WorkerStores" where
  "failing_workers = mem_workers\<lparr>ws_migrations := mem_coll\<lparr>UpdateOne := (\<lambda>q f. io_err (ErrStr ''timeout''))\<rparr>\<rparr>"

definition analyzing_world :: mem where
  "analyzing_world = (demo_world MIGRATION_STATE_ANALYZING)
     \<lparr>mem_analyses := [(demo_summary 5 42 ANALYSIS_STATE_RUNNING)\<lparr>sdoc_MigrationID := 1\<rparr>]\<rparr>"

definition finished_summary :: AnalysisSummary where
  "finished_summary = zero_AnalysisSummary\<lparr>as_Identifier := 5, as_MigrationId := 1, as_TotalFiles := 3\<rparr>"

theorem summary_rerun_skips_migration_witness:
  "let w1 = snd (run_state (sw_Write failing_workers finished_summary) analyzing_world);
       run = run_state (sw_Write mem_workers finished_summary) w1
   in fst run = Inr () \<and> mem_docs (snd run) = mem_docs w1 \<and>
      map doc_State (mem_docs w1) = [MIGRATION_STATE_ANALYZING] \<and>
      map sdoc_State (mem_analyses w1) = [ANALYSIS_STATE_COMPLETED]"
proof -
  let ?w = "snd (run_state (sw_Write failing_workers finished_summary) analyzing_world)"
  have st: "map doc_State (mem_docs ?w) = [MIGRATION_STATE_ANALYZING]"
      "map sdoc_State (mem_analyses ?w) = [ANALYSIS_STATE_COMPLETED]"
      "fst (run_state (sw_Write mem_workers finished_summary) ?w) = Inr ()"
    by code_simp+
  have none: "\<forall>d \<in> set (mem_analyses ?w). \<not> is_running (as_Identifier finished_summary) d"
    using st(2) by (auto simp: is_running_def)
  have A: "collection_ok sdoc_Identifier (adb_coll (ws_analyses mem_workers)) mem_analyses"
    using mem_adb_ok by (simp add: mem_workers_def analysis_ok_def)
  have "keeps mem_analyses (ws_now mem_workers)" by (simp add: mem_workers_def mem_db_def keeps_def)
  from summary_rerun_skips_migration [OF mem_workers_ok A this none prod.collapse [symmetric]] st
  show ?thesis by (simp add: Let_def)
qed


text \<open>
  With the unguarded writes the terminal states are not final: a cancelled migration becomes
  \<open>AWAITING_APPROVAL\<close> when its plan arrives, is approved, and ends in \<open>READY\<close>.
\<close>

theorem cancelled_migration_comes_back:
  "map doc_State (mem_docs (snd (run_state
     (run_events mem_service mem_workers
        [Request (RCancel 1), Worker (WPlan 1 demo_plan [] no_ownership), Request (RApprove 1 True []),
         Worker (WReady 1)])
     (demo_world MIGRATION_STATE_DESIGNING)))) = [MIGRATION_STATE_READY]"
  by code_simp

text \<open>
  The failure reason is written and never read: after the decomposition worker has marked a
  migration as failed, the stored document has the reason and the migration that the service
  returns has none.
\<close>

theorem failure_reason_not_returned:
  "let w = snd (run_state (pw_MarkFailed mem_workers 1 ''clone failed'') (demo_world MIGRATION_STATE_DESIGNING))
   in map bson_FailureReason (mem_docs w) = [''clone failed''] \<and>
      (case fst (run_state (GetMigration mem_service 1) w) of
         Inl _ \<Rightarrow> False
       | Inr m \<Rightarrow> mig_State m = MIGRATION_STATE_FAILED \<and> mig_FailureReason m = [])"
  by code_simp

end
