(* ===== verification/Table_Map.thy ===== *)
theory Table_Map
  imports Decomposition_Plan Worker_Writers
begin

text \<open>
  The map from database tables to services that stage 5 of the decomposition worker builds
  (\<^verbatim>\<open>worker/decomposition/application/pipeline.go\<close>): table declarations in Python models and PHP Eloquent models,
  with the PSR-4 map of \<^verbatim>\<open>composer.json\<close> that finds the file of a class. The regular expressions of the source
  are translated into matchers; in each of them a repetition ends at the first byte outside its class, which
  the next item needs, so that no match backtracks. The working copy is a partial function from paths to contents.
\<close>

type_synonym files = "string \<rightharpoonup> string"

section \<open>Matchers\<close>

text \<open>A matcher consumes a prefix of a string and returns its group with the rest. \<open>find_all\<close> is
  \<^verbatim>\<open>FindAllStringSubmatch\<close>: the matches from the left that do not overlap.\<close>

type_synonym 'g matcher = "string \<Rightarrow> ('g \<times> string) option"

definition re_space :: "char \<Rightarrow> bool" where
  "re_space c \<longleftrightarrow> c \<in> {CHR 0x09, CHR 0x0A, CHR 0x0C, CHR 0x0D, CHR '' ''}"

definition skip_space :: "string \<Rightarrow> string" where
  "skip_space s = dropWhile re_space s"

definition quote_char :: "char \<Rightarrow> bool" where
  "quote_char c \<longleftrightarrow> c = CHR 0x22 \<or> c = CHR 0x27"

definition word_char :: "char \<Rightarrow> bool" where
  "word_char c \<longleftrightarrow> (CHR ''A'' \<le> c \<and> c \<le> CHR ''Z'') \<or> (CHR ''a'' \<le> c \<and> c \<le> CHR ''z'') \<or>
     (CHR ''0'' \<le> c \<and> c \<le> CHR ''9'') \<or> c = CHR ''_''"

function find_all :: "'g matcher \<Rightarrow> string \<Rightarrow> 'g list" where
  "find_all f s =
     (case f s of
        Some (g, rest) \<Rightarrow> if length rest < length s then g # find_all f rest else []
      | None \<Rightarrow> (case s of [] \<Rightarrow> [] | c # cs \<Rightarrow> find_all f cs))"
  by pat_completeness auto
termination
  by (relation "measure (\<lambda>(f, s). length s)") auto

declare find_all.simps [simp del]

text \<open>The common tail of the two table patterns: an equals sign between spaces, then the name in quotes, whose
  class of bytes is \<open>P\<close>, not empty and starting in \<open>Q\<close>.\<close>

definition assigned_name :: "(char \<Rightarrow> bool) \<Rightarrow> (char \<Rightarrow> bool) \<Rightarrow> string matcher" where
  "assigned_name Q P s =
     (case skip_space s of
        [] \<Rightarrow> None
      | c # s1 \<Rightarrow>
          if c \<noteq> CHR ''='' then None
          else case skip_space s1 of
                 [] \<Rightarrow> None
               | q # s2 \<Rightarrow>
                   let name = takeWhile P s2;
                       rest = dropWhile P s2
                   in if quote_char q \<and> name \<noteq> [] \<and> Q (hd name) \<and> rest \<noteq> [] \<and> quote_char (hd rest)
                      then Some (name, tl rest) else None)"

definition tableNameRe :: "string matcher" where
  "tableNameRe s =
     (if HasPrefix s ''__tablename__''
      then assigned_name (\<lambda>c. True) (\<lambda>c. \<not> quote_char c) (TrimPrefix s ''__tablename__'') else None)"

definition eloquentTableRe :: "string matcher" where
  "eloquentTableRe s =
     (if HasPrefix s ''$table''
      then assigned_name (\<lambda>c. \<not> (CHR ''0'' \<le> c \<and> c \<le> CHR ''9'')) word_char (TrimPrefix s ''$table'') else None)"

definition laravelModelModuleRe :: "string \<Rightarrow> bool" where
  "laravelModelModuleRe fqn \<longleftrightarrow>
     (\<exists>seg \<in> set (butlast (strings_Split fqn backslash)). seg = ''Model'' \<or> seg = ''Models'')"

text \<open>A PSR-4 entry: the prefix is a sequence of words, each with an escaped backslash after it.\<close>

function psr4_segments :: "string \<Rightarrow> string \<times> string" where
  "psr4_segments s =
     (let w = takeWhile word_char s;
          rest = dropWhile word_char s
      in if w \<noteq> [] \<and> HasPrefix rest [backslash, backslash]
         then let (p, r) = psr4_segments (drop 2 rest) in (w @ [backslash, backslash] @ p, r)
         else ([], s))"
  by pat_completeness auto
termination
proof (relation "measure length")
  fix s w rest
  assume w: "w = takeWhile word_char s" and rest: "rest = dropWhile word_char s"
    and ne: "w \<noteq> [] \<and> HasPrefix rest [backslash, backslash]"
  have "length w + length rest = length s" unfolding w rest by (metis length_append takeWhile_dropWhile_id)
  with ne show "(drop 2 rest, s) \<in> measure length" by (cases w) auto
qed simp

declare psr4_segments.simps [simp del]

definition psr4_value :: "string \<Rightarrow> string matcher" where
  "psr4_value prefix s =
     (case skip_space s of
        [] \<Rightarrow> None
      | c # s1 \<Rightarrow>
          if c \<noteq> CHR '':'' then None
          else case skip_space s1 of
                 [] \<Rightarrow> None
               | q # s2 \<Rightarrow>
                   let dir = takeWhile (\<lambda>c. c \<noteq> CHR 0x22) s2;
                       rest = dropWhile (\<lambda>c. c \<noteq> CHR 0x22) s2
                   in if q = CHR 0x22 \<and> rest \<noteq> [] then Some (dir, tl rest) else None)"

definition composerPSR4Re :: "(string \<times> string) matcher" where
  "composerPSR4Re s =
     (case s of
        [] \<Rightarrow> None
      | q # s1 \<Rightarrow>
          let (prefix, s2) = psr4_segments s1
          in if q \<noteq> CHR 0x22 \<or> prefix = [] \<or> s2 = [] \<or> hd s2 \<noteq> CHR 0x22 then None
             else map_option (\<lambda>(dir, rest). ((prefix, dir), rest)) (psr4_value prefix (tl s2)))"

section \<open>PSR-4\<close>

text \<open>\<^verbatim>\<open>strings.ReplaceAll\<close> of two backslashes by one.\<close>

fun unescape :: "string \<Rightarrow> string" where
  "unescape (a # b # cs) =
     (if a = backslash \<and> b = backslash then backslash # unescape cs else a # unescape (b # cs))"
| "unescape s = s"

definition psr4_entry :: "string \<times> string \<Rightarrow> string \<times> string" where
  "psr4_entry e = (unescape (fst e), TrimSuffix (snd e) ''/'')"

definition loadComposerPSR4 :: "files \<Rightarrow> string \<Rightarrow> (string \<times> string) list" where
  "loadComposerPSR4 fs workspacePath =
     (case fs (filepath_Join [workspacePath, ''composer.json'']) of
        None \<Rightarrow> []
      | Some data \<Rightarrow> foldl (\<lambda>out e. AList.update (fst (psr4_entry e)) (snd (psr4_entry e)) out) []
                       (find_all composerPSR4Re data))"

definition longer_prefix :: "string \<Rightarrow> string \<times> string \<Rightarrow> string \<times> string \<Rightarrow> string \<times> string" where
  "longer_prefix fqn best e =
     (if HasPrefix fqn (fst e) \<and> length (fst e) > length (fst best) then e else best)"

definition best_prefix :: "string \<Rightarrow> (string \<times> string) list \<Rightarrow> string \<times> string" where
  "best_prefix fqn psr4 = foldl (longer_prefix fqn) ([], []) psr4"

definition resolveLaravelClassPath :: "files \<Rightarrow> string \<Rightarrow> string \<Rightarrow> (string \<times> string) list \<Rightarrow> string option" where
  "resolveLaravelClassPath fs workspacePath fqn psr4 =
     (let (bestPrefix, bestDir) = best_prefix fqn psr4
      in if bestPrefix = [] then None
         else let rest = TrimPrefix fqn bestPrefix;
                  rel = filepath_Join (strings_Split rest backslash) @ ''.php'';
                  full = filepath_Join [workspacePath, bestDir, rel]
              in if fs full = None then None else Some full)"

section \<open>Table names\<close>

definition is_upper :: "char \<Rightarrow> bool" where
  "is_upper c \<longleftrightarrow> CHR ''A'' \<le> c \<and> c \<le> CHR ''Z''"

definition snake_byte :: "nat \<Rightarrow> char \<Rightarrow> string" where
  "snake_byte i ch = (if i > 0 \<and> is_upper ch then ''_'' else []) @ [if is_upper ch then char_of ((of_char ch :: nat) + 32) else ch]"

definition snake :: "string \<Rightarrow> string" where
  "snake name = concat (map (\<lambda>(i, ch). snake_byte i ch) (enumerate 0 name))"

definition pluralizeSnake :: "string \<Rightarrow> string" where
  "pluralizeSnake name =
     (let s = snake name
      in if HasSuffix s ''y'' \<and> length s > 1 \<and> s ! (length s - 2) \<notin> set ''aeiou'' then take (length s - 1) s @ ''ies''
         else if HasSuffix s ''fe'' then take (length s - 2) s @ ''ves''
         else if HasSuffix s ''f'' then take (length s - 1) s @ ''ves''
         else if HasSuffix s ''s'' \<or> HasSuffix s ''x'' \<or> HasSuffix s ''ch'' \<or> HasSuffix s ''sh'' then s @ ''es''
         else s @ ''s'')"

definition eloquentTableForModule :: "files \<Rightarrow> string \<Rightarrow> string \<Rightarrow> string option" where
  "eloquentTableForModule fs workspacePath fqn =
     (if \<not> laravelModelModuleRe fqn then None
      else let declared =
                 (case resolveLaravelClassPath fs workspacePath fqn (loadComposerPSR4 fs workspacePath) of
                    None \<Rightarrow> []
                  | Some path \<Rightarrow> (case fs path of None \<Rightarrow> [] | Some data \<Rightarrow> find_all eloquentTableRe data))
           in case declared of
                t # _ \<Rightarrow> Some t
              | [] \<Rightarrow> Some (pluralizeSnake (after_last backslash fqn)))"

section \<open>The map\<close>

definition module_tables :: "files \<Rightarrow> string \<Rightarrow> Module \<Rightarrow> string list" where
  "module_tables fs workspacePath m =
     (if is_php m
      then (case eloquentTableForModule fs workspacePath m of Some table \<Rightarrow> [table] | None \<Rightarrow> [])
      else if \<not> HasSuffix m ''.models'' then []
      else let relPath = filepath_Join (strings_Split m (CHR ''.'')) @ ''.py''
           in case fs (filepath_Join [workspacePath, relPath]) of
                None \<Rightarrow> [] | Some data \<Rightarrow> find_all tableNameRe data)"

definition cluster_tables :: "files \<Rightarrow> string \<Rightarrow> Cluster \<Rightarrow> (string \<times> string) list" where
  "cluster_tables fs workspacePath c =
     map (\<lambda>t. (t, serviceNameFromBlueprint (cluster_BlueprintGroup c)))
       (concat (map (module_tables fs workspacePath) (cluster_Modules c)))"

definition buildTableServiceMap :: "files \<Rightarrow> string \<Rightarrow> Cluster list \<Rightarrow> (string \<rightharpoonup> string)" where
  "buildTableServiceMap fs workspacePath clusters =
     foldl (\<lambda>result (t, svcName). result(t \<mapsto> svcName)) Map.empty
       (concat (map (cluster_tables fs workspacePath) clusters))"

section \<open>Facts\<close>

lemma find_all_nil [simp]: "f [] = None \<Longrightarrow> find_all f [] = []"
  by (subst find_all.simps) simp

text \<open>The tables of the map are the declared ones, and a table belongs to a service that declares it.\<close>

lemma fold_map_last:
  "foldl (\<lambda>r (t, v). r(t \<mapsto> v)) m xs t = (case map_of (rev xs) t of None \<Rightarrow> m t | Some v \<Rightarrow> Some v)"
  by (induction xs arbitrary: m) (auto simp: map_add_def split: option.splits)

lemma map_of_const: "map_of (map (\<lambda>t. (t, v)) ts) t = (if t \<in> set ts then Some v else None)"
  by (induction ts) auto

lemma cluster_tables_of:
  "map_of (rev (concat (map (cluster_tables fs ws) clusters))) t =
     map_option (\<lambda>c. serviceNameFromBlueprint (cluster_BlueprintGroup c))
       (find (\<lambda>c. \<exists>m \<in> set (cluster_Modules c). t \<in> set (module_tables fs ws m)) (rev clusters))"
proof (induction clusters rule: rev_induct)
  case (snoc c cs)
  have "map_of (rev (cluster_tables fs ws c)) t =
      (if \<exists>m \<in> set (cluster_Modules c). t \<in> set (module_tables fs ws m)
       then Some (serviceNameFromBlueprint (cluster_BlueprintGroup c)) else None)"
    by (simp add: cluster_tables_def rev_map map_of_const)
  with snoc show ?case by (simp add: map_add_def)
qed simp

text \<open>The longest prefix of an entry of the PSR-4 map is found in any order of iteration.\<close>

lemma best_prefix_cases:
  assumes "foldl (longer_prefix fqn) b es = r"
  shows "(r = b \<or> r \<in> set es \<and> HasPrefix fqn (fst r) \<and> length (fst r) > length (fst b)) \<and>
    (\<forall>e \<in> set es. HasPrefix fqn (fst e) \<longrightarrow> length (fst e) \<le> length (fst r))"
  using assms
proof (induction es arbitrary: b)
  case (Cons e es)
  from Cons.IH [OF Cons.prems [unfolded foldl_Cons]] show ?case
    by (auto simp: longer_prefix_def split: if_splits)
qed simp

lemma same_length_prefix: "HasPrefix s p \<Longrightarrow> HasPrefix s q \<Longrightarrow> length p = length q \<Longrightarrow> p = q"
  by (auto simp: HasPrefix_def)

lemma best_prefix_perm:
  assumes keys: "distinct (map fst es)" and perm: "mset es' = mset es"
  shows "best_prefix fqn es' = best_prefix fqn es"
proof -
  let ?r = "best_prefix fqn es" and ?r' = "best_prefix fqn es'"
  have same: "set es' = set es" using perm by (rule mset_eq_setD)
  note c = best_prefix_cases [of fqn "([], [])" es ?r, folded best_prefix_def, OF refl]
  note c' = best_prefix_cases [of fqn "([], [])" es' ?r', folded best_prefix_def, OF refl, unfolded same]
  show ?thesis
  proof (cases "?r = ([], []) \<or> ?r' = ([], [])")
    case True
    with c c' show ?thesis by fastforce
  next
    case False
    with c c' have "fst ?r = fst ?r'" by (intro same_length_prefix [of fqn]) (auto intro: le_antisym)
    moreover have "?r \<in> set es" "?r' \<in> set es" using False c c' by auto
    ultimately show ?thesis using keys by (metis eq_key_imp_eq_value prod.collapse)
  qed
qed

lemma psr4_keys: "distinct (map fst (loadComposerPSR4 fs ws))"
proof -
  have "distinct (map fst (foldl (\<lambda>out e. AList.update (fst (psr4_entry e)) (snd (psr4_entry e)) out) m es))"
    if "distinct (map fst m)" for m es
    using that by (induction es arbitrary: m) (simp_all add: distinct_update)
  then show ?thesis by (simp add: loadComposerPSR4_def split: option.split)
qed

section \<open>Properties\<close>

text \<open>
  The map of stage 5 names for a table the service of the last cluster, in the order of the clustering, one of
  whose modules declares the table, and has no entry for a table that no module declares.
\<close>
theorem table_map_last_declaration:
  "buildTableServiceMap fs ws clusters t =
     map_option (\<lambda>c. serviceNameFromBlueprint (cluster_BlueprintGroup c))
       (find (\<lambda>c. \<exists>m \<in> set (cluster_Modules c). t \<in> set (module_tables fs ws m)) (rev clusters))"
  by (simp add: buildTableServiceMap_def fold_map_last cluster_tables_of split: option.split)

text \<open>
  The file of a PHP class does not depend on the order in which Go's map iteration lists the PSR-4 entries of
  composer.json: every order resolves to the longest prefix of the class name.
\<close>
theorem psr4_order_irrelevant:
  assumes "mset es = mset (loadComposerPSR4 fs ws)"
  shows "resolveLaravelClassPath fs ws fqn es = resolveLaravelClassPath fs ws fqn (loadComposerPSR4 fs ws)"
  unfolding resolveLaravelClassPath_def best_prefix_perm [OF psr4_keys assms] ..

text \<open>A working copy of a Laravel application.\<close>

definition laravel_files :: files where
  "laravel_files =
     [''/w/composer.json'' \<mapsto>
        ''{'' @ quoted (''App'' @ [backslash, backslash]) @ '': '' @ quoted ''app/'' @ '', '' @
        quoted (''App'' @ [backslash, backslash] @ ''Shop'' @ [backslash, backslash]) @ '': '' @ quoted ''shop/src'' @ ''}'',
      ''/w/shop/src/Models/Order.php'' \<mapsto> ''protected $table = '' @ quoted ''shop_orders'' @ '';'']"

theorem psr4_order_irrelevant_witness:
  "resolveLaravelClassPath laravel_files ''/w'' (''App'' @ [backslash] @ ''Shop'' @ [backslash] @ ''Models'' @ [backslash] @ ''Order'')
     (rev (loadComposerPSR4 laravel_files ''/w'')) = Some ''/w/shop/src/Models/Order.php''"
proof -
  have "resolveLaravelClassPath laravel_files ''/w'' (''App'' @ [backslash] @ ''Shop'' @ [backslash] @ ''Models'' @ [backslash] @ ''Order'')
      (loadComposerPSR4 laravel_files ''/w'') = Some ''/w/shop/src/Models/Order.php''"
    by code_simp
  then show ?thesis by (subst psr4_order_irrelevant) simp_all
qed

end
