(* ===== verification/Plan_Outcomes.thy ===== *)
theory Plan_Outcomes
  imports Decomposition_Plan
begin

text \<open>
  What the plan of a decomposition promises: dependencies point to other services of the plan and come from
  model imports or foreign keys, an error prefix belongs to one service name, and every service of the plan
  has its artifact.
\<close>

section \<open>Services of modules\<close>

lemma moduleToService_cases:
  "moduleToService clusters m = [] \<or>
   (\<exists>c \<in> set clusters. m \<in> set (cluster_Modules c) \<and> moduleToService clusters m = serviceNameFromBlueprint (cluster_BlueprintGroup c))"
proof (cases "find (\<lambda>c. m \<in> set (cluster_Modules c)) (rev clusters)")
  case (Some c)
  from find_SomeD [OF Some] Some show ?thesis by (auto simp: moduleToService_def)
qed (simp add: moduleToService_def)

lemma set_model_deps:
  "set (model_deps g clusters s) =
     {d. d \<noteq> [] \<and> d \<noteq> s \<and> (\<exists>e \<in> set g. HasSuffix (edge_From e) ''.models'' \<and>
        moduleToService clusters (edge_From e) = s \<and> moduleToService clusters (edge_To e) = d)}"
  by (auto simp: model_deps_def crosses_def Let_def)

lemma model_deps_named:
  "d \<in> set (model_deps g clusters s) \<Longrightarrow> d \<in> (\<lambda>c. serviceNameFromBlueprint (cluster_BlueprintGroup c)) ` set clusters - {s}"
  using moduleToService_cases [of clusters] by (force simp: set_model_deps)

section \<open>Characterization\<close>

lemma run_allocate_io: "run_state (allocate_io s) a = Allocate s a"
  by (simp add: allocate_io_def)

text \<open>A claim that holds in a registry holds in every extension.\<close>

definition claims :: "prefix_map \<Rightarrow> string \<Rightarrow> string \<Rightarrow> bool" where
  "claims a s p \<longleftrightarrow> a p = Some s \<and> (\<forall>b. a \<subseteq>\<^sub>m b \<longrightarrow> Allocate s b = (Inr p, b))"

lemma claims_extend:
  assumes "claims a s p" and "a \<subseteq>\<^sub>m b"
  shows "claims b s p"
proof -
  have "b p = Some s" using assms by (metis claims_def domI map_le_def)
  then show ?thesis using assms by (auto simp: claims_def intro: map_le_trans)
qed

lemma Allocate_claims:
  assumes "Allocate s a = (Inr p, a')"
  shows "claims a' s p" and "a \<subseteq>\<^sub>m a'"
proof -
  have first: "first_available a s (prefix_candidates s) = (Inr p, a')" using assms by (simp add: Allocate_first)
  then have "a' p = Some s" by (cases rule: first_available_cases) simp_all
  with first_available_stable [OF first] show "claims a' s p" by (simp add: claims_def Allocate_first)
  show "a \<subseteq>\<^sub>m a'" using Allocate_extends [of a s] assms by simp
qed

lemma characterize_clusters_run:
  assumes "run_state (characterize_clusters allocate_io g all cs) a = (Inr svcs, a')"
  shows "a \<subseteq>\<^sub>m a' \<and> length svcs = length cs \<and>
    (\<forall>i < length cs. claims a' (serviceNameFromBlueprint (cluster_BlueprintGroup (cs ! i))) (sc_ErrorPrefix (svcs ! i)) \<and>
       svcs ! i = candidate g all (cs ! i) (sc_ErrorPrefix (svcs ! i)))"
  using assms
proof (induction cs arbitrary: a svcs)
  case (Cons c cs)
  let ?s = "serviceNameFromBlueprint (cluster_BlueprintGroup c)"
  from Cons.prems obtain p a1 rest where al: "Allocate ?s a = (Inr p, a1)"
    and rest: "run_state (characterize_clusters allocate_io g all cs) a1 = (Inr rest, a')"
    and svcs: "svcs = candidate g all c p # rest"
    by (auto simp: Let_def run_io_bind run_io_wrap run_allocate_io split: prod.splits sum.splits)
  note IH = Cons.IH [OF rest]
  have "claims a' ?s p" using claims_extend [OF Allocate_claims(1) [OF al]] IH by blast
  moreover have "a \<subseteq>\<^sub>m a'" using Allocate_claims(2) [OF al] IH by (blast intro: map_le_trans)
  moreover have "sc_ErrorPrefix (candidate g all c p) = p" by (simp add: candidate_def Let_def)
  ultimately show ?case using IH by (auto simp: svcs less_Suc_eq_0_disj)
qed simp

lemma candidate_fields:
  "sc_Name (candidate g cl c p) = serviceNameFromBlueprint (cluster_BlueprintGroup c)"
  "sc_Deps (candidate g cl c p) = model_deps g cl (serviceNameFromBlueprint (cluster_BlueprintGroup c))"
  "sc_OperationalCouplings (candidate g cl c p) = model_couplings g cl (serviceNameFromBlueprint (cluster_BlueprintGroup c))"
  by (simp_all add: candidate_def Let_def)

section \<open>Dependencies from foreign keys\<close>

definition fk_deps :: "CrossServiceFK list \<Rightarrow> string \<Rightarrow> string set" where
  "fk_deps fks name = {fk_RefService fk | fk. fk \<in> set fks \<and> fk_OwnerService fk = name \<and> fk_RefService fk \<noteq> []}"

lemma filter_upt_eq: "i < n \<Longrightarrow> filter (\<lambda>j. j = i) [0..<n] = [i]"
proof (induction n)
  case (Suc n)
  have "filter (\<lambda>j. j = n) [0..<n] = []" by (auto simp: filter_empty_conv)
  with Suc show ?case by (cases "i = n") auto
qed simp

lemma candidate_index_distinct:
  assumes "distinct (map sc_Name cs)" and "i < length cs"
  shows "candidate_index cs (sc_Name (cs ! i)) = Some i"
proof -
  have "filter (\<lambda>j. sc_Name (cs ! j) = sc_Name (cs ! i)) [0..<length cs] = filter (\<lambda>j. j = i) [0..<length cs]"
    using assms by (intro filter_cong) (auto simp: distinct_conv_nth)
  then show ?thesis using assms(2) by (simp add: candidate_index_def filter_upt_eq)
qed

lemma candidate_index_name:
  assumes "candidate_index cs name = Some i"
  shows "i < length cs \<and> sc_Name (cs ! i) = name"
proof -
  let ?is = "filter (\<lambda>i. sc_Name (cs ! i) = name) [0..<length cs]"
  from assms have "?is \<noteq> []" and "i = last ?is" by (auto simp: candidate_index_def split: list.splits)
  then have "i \<in> set ?is" using last_in_set by blast
  then show ?thesis by simp
qed

lemma add_fk_dep_names: "map sc_Name (add_fk_dep cs fk) = map sc_Name cs"
proof -
  have upd: "map sc_Name (cs[i := (cs ! i)\<lparr>sc_Deps := ds\<rparr>]) = map sc_Name cs" for i ds
  proof (cases "i < length cs")
    case True
    then show ?thesis by (simp add: map_update list_update_same_conv)
  qed (simp add: list_update_beyond)
  then show ?thesis by (simp add: add_fk_dep_def split: option.splits)
qed

lemma add_fk_dep_effect:
  assumes "distinct (map sc_Name cs)" and "i < length cs"
  shows "add_fk_dep cs fk ! i = (cs ! i)\<lparr>sc_Deps := sc_Deps (add_fk_dep cs fk ! i)\<rparr> \<and>
    set (sc_Deps (add_fk_dep cs fk ! i)) = set (sc_Deps (cs ! i)) \<union> fk_deps [fk] (sc_Name (cs ! i)) \<and>
    (distinct (sc_Deps (cs ! i)) \<longrightarrow> distinct (sc_Deps (add_fk_dep cs fk ! i)))"
proof (cases "fk_RefService fk = [] \<or> candidate_index cs (fk_OwnerService fk) \<noteq> Some i")
  case True
  have "fk_deps [fk] (sc_Name (cs ! i)) = {}"
    using True candidate_index_distinct [OF assms] by (auto simp: fk_deps_def)
  moreover have "add_fk_dep cs fk ! i = cs ! i"
    using True by (auto simp: add_fk_dep_def split: option.split)
  ultimately show ?thesis by simp
next
  case False
  then have "fk_OwnerService fk = sc_Name (cs ! i)" using candidate_index_name [of cs "fk_OwnerService fk" i] by simp
  then have "fk_deps [fk] (sc_Name (cs ! i)) = {fk_RefService fk}" using False by (auto simp: fk_deps_def)
  with False assms(2) show ?thesis by (auto simp: add_fk_dep_def)
qed

lemma add_fk_deps_effect:
  assumes "distinct (map sc_Name cs)" and "i < length cs"
  shows "length (foldl add_fk_dep cs fks) = length cs \<and>
    foldl add_fk_dep cs fks ! i = (cs ! i)\<lparr>sc_Deps := sc_Deps (foldl add_fk_dep cs fks ! i)\<rparr> \<and>
    set (sc_Deps (foldl add_fk_dep cs fks ! i)) = set (sc_Deps (cs ! i)) \<union> fk_deps fks (sc_Name (cs ! i)) \<and>
    (distinct (sc_Deps (cs ! i)) \<longrightarrow> distinct (sc_Deps (foldl add_fk_dep cs fks ! i)))"
  using assms
proof (induction fks arbitrary: cs)
  case (Cons fk fks)
  let ?cs = "add_fk_dep cs fk"
  note names = add_fk_dep_names [of cs fk]
  have len: "length ?cs = length cs" using arg_cong [OF names, of length] by simp
  have name: "sc_Name (?cs ! i) = sc_Name (cs ! i)" using nth_map [of i] names len Cons.prems(2) by metis
  note step = add_fk_dep_effect [OF Cons.prems, of fk]
  have "distinct (map sc_Name ?cs)" and "i < length ?cs" using Cons.prems by (simp_all add: names len)
  from Cons.IH [OF this] step have
    "foldl add_fk_dep ?cs fks ! i = (cs ! i)\<lparr>sc_Deps := sc_Deps (foldl add_fk_dep ?cs fks ! i)\<rparr>"
    by (metis ServiceCandidate.select_convs(4) ServiceCandidate.update_convs(4) ServiceCandidate.surjective)
  moreover have "fk_deps (fk # fks) n = fk_deps [fk] n \<union> fk_deps fks n" for n by (auto simp: fk_deps_def)
  ultimately show ?case using Cons.IH [OF \<open>distinct (map sc_Name ?cs)\<close> \<open>i < length ?cs\<close>] step by (auto simp: len name)
qed (simp add: fk_deps_def)

section \<open>Properties\<close>

text \<open>
  Stage 4 on the deterministic allocator: a successful characterization has one candidate per cluster, in
  order, named after its blueprint group; two candidates have the same error prefix exactly when they have the
  same name; and the dependencies of a candidate are other services of the plan, each reached by an edge of
  the domain graph that starts in a models module of the service.
\<close>
theorem characterize_candidates:
  assumes "run_state (characterize allocate_io g clusters) a = (Inr svcs, a')"
  shows "map sc_Name svcs = map (\<lambda>c. serviceNameFromBlueprint (cluster_BlueprintGroup c)) clusters \<and>
    (\<forall>c \<in> set svcs. \<forall>d \<in> set svcs. sc_ErrorPrefix c = sc_ErrorPrefix d \<longleftrightarrow> sc_Name c = sc_Name d) \<and>
    (\<forall>c \<in> set svcs. set (sc_Deps c) \<subseteq> sc_Name ` set svcs - {sc_Name c} \<and>
       (\<forall>d \<in> set (sc_Deps c). \<exists>e \<in> set g. HasSuffix (edge_From e) ''.models'' \<and>
          moduleToService clusters (edge_From e) = sc_Name c \<and> moduleToService clusters (edge_To e) = d))"
proof -
  let ?name = "\<lambda>c. serviceNameFromBlueprint (cluster_BlueprintGroup c)"
  note run = characterize_clusters_run [OF assms [unfolded characterize_def]]
  then have len: "length svcs = length clusters" by blast
  have name: "sc_Name (svcs ! i) = ?name (clusters ! i)" if "i < length clusters" for i
    using run that candidate_fields(1) by metis
  then have names: "map sc_Name svcs = map ?name clusters" by (simp add: list_eq_iff_nth_eq len)
  have claim: "claims a' (sc_Name c) (sc_ErrorPrefix c)" and deps: "sc_Deps c = model_deps g clusters (sc_Name c)"
    if "c \<in> set svcs" for c
  proof -
    from that obtain i where "i < length clusters" and "c = svcs ! i" by (auto simp: in_set_conv_nth len)
    with run name show "claims a' (sc_Name c) (sc_ErrorPrefix c)" by simp
    from run \<open>i < length clusters\<close> \<open>c = svcs ! i\<close> show "sc_Deps c = model_deps g clusters (sc_Name c)"
      by (metis candidate_fields(1,2))
  qed
  have "sc_ErrorPrefix c = sc_ErrorPrefix d \<longleftrightarrow> sc_Name c = sc_Name d" if "c \<in> set svcs" "d \<in> set svcs" for c d
  proof
    show "sc_ErrorPrefix c = sc_ErrorPrefix d \<Longrightarrow> sc_Name c = sc_Name d"
      using claim [OF that(1)] claim [OF that(2)] by (simp add: claims_def)
    assume "sc_Name c = sc_Name d"
    moreover have "Allocate (sc_Name c) a' = (Inr (sc_ErrorPrefix c), a')" "Allocate (sc_Name d) a' = (Inr (sc_ErrorPrefix d), a')"
      using claim [OF that(1)] claim [OF that(2)] by (simp_all add: claims_def)
    ultimately show "sc_ErrorPrefix c = sc_ErrorPrefix d" by simp
  qed
  moreover have "(\<lambda>c. ?name c) ` set clusters = sc_Name ` set svcs"
    using arg_cong [OF names, of set] by simp
  ultimately show ?thesis
    using names deps model_deps_named [of _ g clusters] set_model_deps [of g clusters] by (simp add: subset_iff) blast
qed

definition shop_clusters :: "Cluster list" where
  "shop_clusters =
     [\<lparr> cluster_BlueprintGroup = ''shop.orders'', cluster_Modules = [''shop.orders.models''] \<rparr>,
      \<lparr> cluster_BlueprintGroup = ''shop.users'', cluster_Modules = [''shop.users.models''] \<rparr>]"

definition shop_graph :: Graph where
  "shop_graph = [\<lparr> edge_From = ''shop.orders.models'', edge_To = ''shop.users.models'', edge_Weight = 1 \<rparr>]"

definition shop_candidates :: "ServiceCandidate list" where
  "shop_candidates =
     [\<lparr> sc_Name = ''orders'', sc_ErrorPrefix = ''ORD'', sc_OwnedResources = [''shop.orders.models''],
        sc_Deps = [''users''], sc_OperationalCouplings = [] \<rparr>,
      \<lparr> sc_Name = ''users'', sc_ErrorPrefix = ''USE'', sc_OwnedResources = [''shop.users.models''],
        sc_Deps = [], sc_OperationalCouplings = [] \<rparr>]"

lemma shop_run:
  "run_state (characterize allocate_io shop_graph shop_clusters) Map.empty =
     (Inr shop_candidates, [''ORD'' \<mapsto> ''orders'', ''USE'' \<mapsto> ''users''])"
proof -
  have names: "serviceNameFromBlueprint ''shop.orders'' = ''orders''" "serviceNameFromBlueprint ''shop.users'' = ''users''"
    "prefix_base ''orders'' = ''ORD''" "prefix_base ''users'' = ''USE''"
    by code_simp+
  have cands: "candidate shop_graph shop_clusters (shop_clusters ! 0) ''ORD'' = shop_candidates ! 0"
    "candidate shop_graph shop_clusters (shop_clusters ! Suc 0) ''USE'' = shop_candidates ! Suc 0"
    by code_simp+
  have clusters: "shop_clusters = [shop_clusters ! 0, shop_clusters ! Suc 0]" and svcs: "shop_candidates = [shop_candidates ! 0, shop_candidates ! Suc 0]"
    by (simp_all add: shop_clusters_def shop_candidates_def)
  have groups: "cluster_BlueprintGroup (shop_clusters ! 0) = ''shop.orders''" "cluster_BlueprintGroup (shop_clusters ! Suc 0) = ''shop.users''"
    by (simp_all add: shop_clusters_def)
  have al: "Allocate ''orders'' Map.empty = (Inr ''ORD'', [''ORD'' \<mapsto> ''orders''])"
    "Allocate ''users'' [''ORD'' \<mapsto> ''orders''] = (Inr ''USE'', [''ORD'' \<mapsto> ''orders'', ''USE'' \<mapsto> ''users''])"
    by (simp_all add: Allocate_def names allocate_from.simps)
  have "run_state (characterize_clusters allocate_io shop_graph shop_clusters [shop_clusters ! 0, shop_clusters ! Suc 0]) Map.empty =
      (Inr [shop_candidates ! 0, shop_candidates ! Suc 0], [''ORD'' \<mapsto> ''orders'', ''USE'' \<mapsto> ''users''])"
    by (simp add: Let_def groups names run_io_bind run_io_wrap run_allocate_io al cands)
  then show ?thesis using clusters svcs by (simp add: characterize_def)
qed

theorem characterize_candidates_witness:
  "\<exists>e. e \<in> set shop_graph \<and> moduleToService shop_clusters (edge_From e) = ''orders'' \<and> moduleToService shop_clusters (edge_To e) = ''users''"
  using characterize_candidates [OF shop_run] by (simp add: shop_candidates_def) blast

text \<open>
  Stage 6 closes the dependencies over the foreign keys: for candidates with different names, the
  augmented list has the same candidates, where only the dependencies changed: they are the old ones and the
  services that a foreign key of the candidate refers to, sorted and without repetition.
\<close>
theorem augment_adds_fk_deps:
  assumes "distinct (map sc_Name cs)" and "i < length cs" and "distinct (sc_Deps (cs ! i))"
  shows "length (augmentDataDeps cs fks) = length cs \<and>
    augmentDataDeps cs fks ! i = (cs ! i)\<lparr>sc_Deps := sc_Deps (augmentDataDeps cs fks ! i)\<rparr> \<and>
    set (sc_Deps (augmentDataDeps cs fks ! i)) = set (sc_Deps (cs ! i)) \<union>
      {fk_RefService fk | fk. fk \<in> set fks \<and> fk_OwnerService fk = sc_Name (cs ! i) \<and> fk_RefService fk \<noteq> []} \<and>
    sorted_wrt (<) (sc_Deps (augmentDataDeps cs fks ! i))"
proof -
  let ?f = "foldl add_fk_dep cs fks"
  note eff = add_fk_deps_effect [OF assms(1,2), of fks]
  have nth: "augmentDataDeps cs fks ! i = (?f ! i)\<lparr>sc_Deps := sort (sc_Deps (?f ! i))\<rparr>"
    using assms(2) eff by (simp add: augmentDataDeps_def)
  have "(?f ! i)\<lparr>sc_Deps := sort (sc_Deps (?f ! i))\<rparr> = (cs ! i)\<lparr>sc_Deps := sort (sc_Deps (?f ! i))\<rparr>"
    using eff by (metis ServiceCandidate.update_convs(4) ServiceCandidate.surjective)
  moreover have "length (augmentDataDeps cs fks) = length cs" using eff by (simp add: augmentDataDeps_def)
  moreover have "sorted_wrt (<) (sort (sc_Deps (?f ! i)))" using eff assms(3) by (simp add: strict_sorted_iff)
  ultimately show ?thesis using eff by (simp add: nth fk_deps_def)
qed

theorem augment_adds_fk_deps_witness:
  "set (sc_Deps (augmentDataDeps shop_candidates
     [\<lparr> fk_OwnerService = ''users'', fk_OwnerMessage = ''User'', fk_FieldName = ''cart'', fk_RefTable = ''carts'',
        fk_RefService = ''orders'' \<rparr>] ! 1)) = {''orders''}"
  using augment_adds_fk_deps [of shop_candidates 1 "[\<lparr> fk_OwnerService = ''users'', fk_OwnerMessage = ''User'',
      fk_FieldName = ''cart'', fk_RefTable = ''carts'', fk_RefService = ''orders'' \<rparr>]"]
  by (simp add: shop_candidates_def)

text \<open>
  The plan and its artifacts have the services of the candidates: same names in the same order, one
  artifact per service, incomplete exactly when no contract was derived for the name or the last contract for
  it is incomplete; and a plan says that there are no service boundaries exactly when it has no service.
\<close>
theorem plan_services_and_artifacts:
  "map ps_Name (rp_Services (assemblePlan cs own cr)) = map sc_Name cs \<and>
   (rp_NoServiceBoundaries (assemblePlan cs own cr) \<longleftrightarrow> rp_Services (assemblePlan cs own cr) = []) \<and>
   map da_ServiceName (buildArtifacts (assemblePlan cs own cr) contracts own cs) = map sc_Name cs \<and>
   map da_Incomplete (buildArtifacts (assemblePlan cs own cr) contracts own cs) =
     map (\<lambda>c. case last_by dc_ServiceName contracts (sc_Name c) of None \<Rightarrow> True | Some d \<Rightarrow> dc_Incomplete d) cs"
proof -
  let ?plan = "assemblePlan cs own cr"
  have services: "rp_Services ?plan = map (proto_service own) cs" by (simp add: assemblePlan_def Let_def)
  have "rp_NoServiceBoundaries ?plan \<longleftrightarrow> cs = []" by (simp add: assemblePlan_def Let_def)
  moreover have "da_ServiceName (artifact_for contracts own cs s) = ps_Name s" for s
    by (simp add: artifact_for_def Let_def split: option.split)
  moreover have "da_Incomplete (artifact_for contracts own cs (proto_service own c)) =
      (case last_by dc_ServiceName contracts (sc_Name c) of None \<Rightarrow> True | Some d \<Rightarrow> dc_Incomplete d)" for c
    by (simp add: artifact_for_def proto_service_def Let_def split: option.split)
  ultimately show ?thesis by (simp add: services buildArtifacts_def proto_service_def)
qed

text \<open>
  Two clusters whose groups end in the same segment become two services with one name and one error
  prefix: the plan of an application with a user package in two top-level packages has USE for both.
\<close>
theorem same_name_services:
  "map (\<lambda>c. (sc_Name c, sc_ErrorPrefix c))
     (case fst (run_state (characterize allocate_io []
        [\<lparr> cluster_BlueprintGroup = ''admin.users'', cluster_Modules = [''admin.users.models''] \<rparr>,
         \<lparr> cluster_BlueprintGroup = ''shop.users'', cluster_Modules = [''shop.users.models''] \<rparr>]) Map.empty) of
        Inl e \<Rightarrow> [] | Inr svcs \<Rightarrow> svcs) =
   [(''users'', ''USE''), (''users'', ''USE'')]"
proof -
  have name: "serviceNameFromBlueprint ''admin.users'' = ''users''" "serviceNameFromBlueprint ''shop.users'' = ''users''"
    by code_simp+
  have base: "prefix_base ''users'' = ''USE''" by code_simp
  show ?thesis
    by (simp add: characterize_def Let_def run_io_bind run_io_wrap run_allocate_io name Allocate_def
        allocate_from.simps base candidate_def)
qed

end
