(* ===== verification/Digest.thy ===== *)
theory Digest
  imports Decomposition_Domain
begin

text \<open>
  Stage 3b of the decomposition worker: the digest of an analysis
  (\<^verbatim>\<open>worker/decomposition/domain/digest.go\<close>, \<^verbatim>\<open>application/distiller.go\<close>). Fan-in and fan-out are sums of
  unsigned 32-bit weights and wrap around; every pointer argument is an option.
\<close>

section \<open>The data of the summary\<close>

record SummaryRoute =
  sr_Method :: string
  sr_Path :: string
  sr_Handler :: string

record SummaryModuleCard =
  smc_Module :: string
  smc_File :: string
  smc_Functions :: "string list"
  smc_Classes :: "string list"
  smc_State :: "string list"
  smc_Routes :: "SummaryRoute list"
  smc_Docstring :: string
  smc_LOC :: u32

record SummaryBlueprint =
  sbp_Name :: string
  sbp_File :: string
  sbp_URLPrefix :: string

record SummaryCards =
  sd_ModuleCards :: "SummaryModuleCard list"
  sd_Blueprints :: "SummaryBlueprint list"
  sd_Technologies :: "string list"
  sd_Framework :: string

section \<open>The digest\<close>

record DigestModuleCard =
  dmc_Module :: string
  dmc_File :: string
  dmc_Functions :: "string list"
  dmc_Classes :: "string list"
  dmc_MutableState :: "string list"
  dmc_Routes :: "SummaryRoute list"
  dmc_DocstringHead :: string
  dmc_LOC :: u32
  dmc_FanIn :: u32
  dmc_FanOut :: u32
  dmc_IsSharedStateHub :: bool

record DigestAggregateCard =
  ag_ModuleCount :: nat
  ag_TotalLOC :: u32
  ag_TotalFunctions :: nat
  ag_TotalClasses :: nat
  ag_MutableStateCount :: nat
  ag_TotalRoutes :: nat

record DigestEntryPoints =
  ep_HasHTTPRoutes :: bool
  ep_TotalRoutes :: nat
  ep_BlueprintCount :: nat
  ep_SingleBlueprint :: bool

record DigestClassification =
  dcl_DomainModules :: "string list"
  dcl_InfraModules :: "string list"
  dcl_TestModules :: "string list"
  dcl_DomainEmpty :: bool

record DigestSharedStateHub =
  hub_Module :: string
  hub_State :: "string list"
  hub_FanIn :: u32

record AnalysisDigest =
  dg_Technologies :: "string list"
  dg_Framework :: string
  dg_Nodes :: "string list"
  dg_Edges :: "Edge list"
  dg_Clusters :: "Cluster list"
  dg_NoServiceBoundaries :: bool
  dg_LowConfidence :: bool
  dg_ModuleCards :: "DigestModuleCard list"
  dg_AggregateCard :: "DigestAggregateCard option"
  dg_TotalModules :: nat
  dg_SampledModules :: nat
  dg_Blueprints :: "SummaryBlueprint list"
  dg_EntryPoints :: DigestEntryPoints
  dg_Classification :: DigestClassification
  dg_SharedStateHubs :: "DigestSharedStateHub list"

section \<open>Shared-state hubs\<close>

definition defaultTopK :: int where "defaultTopK = 250"

definition sharedStateHubFanIn :: u32 where "sharedStateHubFanIn = 2"

definition isConventionRoutedCard :: "SummaryModuleCard \<Rightarrow> bool" where
  "isConventionRoutedCard c \<longleftrightarrow>
     smc_File c \<noteq> [] \<and> smc_Module c = smc_File c \<and> HasSuffix (ToLower (smc_File c)) ''.php''"

definition isSharedStateHub :: "SummaryModuleCard \<Rightarrow> u32 \<Rightarrow> bool" where
  "isSharedStateHub c fanIn \<longleftrightarrow>
     (if fanIn < sharedStateHubFanIn then False
      else if length (smc_State c) > 0 then True else isConventionRoutedCard c)"

section \<open>The distiller\<close>

definition fan_in :: "Graph \<Rightarrow> string \<Rightarrow> u32" where
  "fan_in g m = sum_list (map edge_Weight (filter (\<lambda>e. edge_To e = m) g))"

definition fan_out :: "Graph \<Rightarrow> string \<Rightarrow> u32" where
  "fan_out g m = sum_list (map edge_Weight (filter (\<lambda>e. edge_From e = m) g))"

definition edge_before :: "Edge \<Rightarrow> Edge \<Rightarrow> bool" where
  "edge_before a b \<longleftrightarrow> (if edge_From a \<noteq> edge_From b then edge_From a < edge_From b else edge_To a < edge_To b)"

definition card_before :: "Graph \<Rightarrow> SummaryModuleCard \<Rightarrow> SummaryModuleCard \<Rightarrow> bool" where
  "card_before g a b \<longleftrightarrow>
     (let di = fan_in g (smc_Module a) + fan_out g (smc_Module a);
          dj = fan_in g (smc_Module b) + fan_out g (smc_Module b)
      in if di \<noteq> dj then di > dj else smc_Module a < smc_Module b)"

definition digest_card :: "Graph \<Rightarrow> SummaryModuleCard \<Rightarrow> DigestModuleCard" where
  "digest_card g c =
     (let fi = fan_in g (smc_Module c)
      in \<lparr> dmc_Module = smc_Module c, dmc_File = smc_File c, dmc_Functions = smc_Functions c,
           dmc_Classes = smc_Classes c, dmc_MutableState = smc_State c, dmc_Routes = smc_Routes c,
           dmc_DocstringHead = smc_Docstring c, dmc_LOC = smc_LOC c, dmc_FanIn = fi,
           dmc_FanOut = fan_out g (smc_Module c), dmc_IsSharedStateHub = isSharedStateHub c fi \<rparr>)"

definition aggregate_card :: "SummaryModuleCard list \<Rightarrow> DigestAggregateCard option" where
  "aggregate_card overflow =
     (if overflow = [] then None
      else Some \<lparr> ag_ModuleCount = length overflow, ag_TotalLOC = sum_list (map smc_LOC overflow),
                  ag_TotalFunctions = sum_list (map (\<lambda>c. length (smc_Functions c)) overflow),
                  ag_TotalClasses = sum_list (map (\<lambda>c. length (smc_Classes c)) overflow),
                  ag_MutableStateCount = sum_list (map (\<lambda>c. length (smc_State c)) overflow),
                  ag_TotalRoutes = sum_list (map (\<lambda>c. length (smc_Routes c)) overflow) \<rparr>)"

definition hub_before :: "DigestSharedStateHub \<Rightarrow> DigestSharedStateHub \<Rightarrow> bool" where
  "hub_before a b \<longleftrightarrow> (if hub_FanIn a \<noteq> hub_FanIn b then hub_FanIn a > hub_FanIn b else hub_Module a < hub_Module b)"

definition card_hubs :: "DigestModuleCard list \<Rightarrow> DigestSharedStateHub list" where
  "card_hubs cards =
     map (\<lambda>c. \<lparr> hub_Module = dmc_Module c, hub_State = dmc_MutableState c, hub_FanIn = dmc_FanIn c \<rparr>)
       (filter dmc_IsSharedStateHub cards)"

definition overflow_hubs :: "Graph \<Rightarrow> SummaryModuleCard list \<Rightarrow> DigestSharedStateHub list" where
  "overflow_hubs g overflow =
     map (\<lambda>c. \<lparr> hub_Module = smc_Module c, hub_State = smc_State c, hub_FanIn = fan_in g (smc_Module c) \<rparr>)
       (filter (\<lambda>c. isSharedStateHub c (fan_in g (smc_Module c))) overflow)"

definition route_key :: "SummaryRoute \<Rightarrow> string" where
  "route_key r = sr_Method r @ [CHR 0x00] @ sr_Path r @ [CHR 0x00] @ sr_Handler r"

definition route_keys :: "DigestModuleCard list \<Rightarrow> SummaryModuleCard list \<Rightarrow> string list" where
  "route_keys cards overflow =
     remdups (map route_key (concat (map dmc_Routes cards)) @ map route_key (concat (map smc_Routes overflow)))"

definition Distill ::
  "Graph \<Rightarrow> Classification option \<Rightarrow> ClusteringResult option \<Rightarrow> SummaryCards option \<Rightarrow> int \<Rightarrow> AnalysisDigest" where
  "Distill graph cls clusterResult data topK0 =
     (let topK = nat (if topK0 \<le> 0 then defaultTopK else topK0);
          allCards = sort_slice (card_before graph) (case data of None \<Rightarrow> [] | Some d \<Rightarrow> sd_ModuleCards d);
          sampled = take topK allCards;
          overflow = drop topK allCards;
          digestCards = map (digest_card graph) sampled;
          totalRoutes = length (route_keys digestCards overflow);
          blueprints = (case data of None \<Rightarrow> [] | Some d \<Rightarrow> sd_Blueprints d);
          domainMods = (case cls of None \<Rightarrow> [] | Some c \<Rightarrow> sort (cl_Domain c))
      in \<lparr> dg_Technologies = (case data of None \<Rightarrow> [] | Some d \<Rightarrow> sd_Technologies d),
           dg_Framework = (case data of None \<Rightarrow> [] | Some d \<Rightarrow> sd_Framework d),
           dg_Nodes = sort (AllModules graph), dg_Edges = sort_slice edge_before graph,
           dg_Clusters = (case clusterResult of None \<Rightarrow> []
              | Some cr \<Rightarrow> map (\<lambda>c. c\<lparr>cluster_Modules := sort (cluster_Modules c)\<rparr>) (cr_Clusters cr)),
           dg_NoServiceBoundaries = (case clusterResult of None \<Rightarrow> True | Some cr \<Rightarrow> cr_Clusters cr = []),
           dg_LowConfidence = (case clusterResult of None \<Rightarrow> False | Some cr \<Rightarrow> cr_LowConfidence cr),
           dg_ModuleCards = digestCards, dg_AggregateCard = aggregate_card overflow,
           dg_TotalModules = length allCards, dg_SampledModules = length sampled, dg_Blueprints = blueprints,
           dg_EntryPoints = \<lparr> ep_HasHTTPRoutes = totalRoutes > 0, ep_TotalRoutes = totalRoutes,
                             ep_BlueprintCount = length blueprints, ep_SingleBlueprint = length blueprints = 1 \<rparr>,
           dg_Classification = \<lparr> dcl_DomainModules = domainMods,
              dcl_InfraModules = (case cls of None \<Rightarrow> [] | Some c \<Rightarrow> sort (cl_Infra c)),
              dcl_TestModules = (case cls of None \<Rightarrow> [] | Some c \<Rightarrow> sort (cl_Tests c)),
              dcl_DomainEmpty = domainMods = [] \<rparr>,
           dg_SharedStateHubs = sort_slice hub_before (card_hubs digestCards @ overflow_hubs graph overflow) \<rparr>)"

section \<open>Facts\<close>

text \<open>The hubs of the sampled and of the overflowing cards are the hubs of all cards.\<close>

lemma card_hubs_digest: "card_hubs (map (digest_card g) cs) = overflow_hubs g cs"
  by (induction cs) (simp_all add: card_hubs_def overflow_hubs_def digest_card_def Let_def)

lemma overflow_hubs_append: "overflow_hubs g (xs @ ys) = overflow_hubs g xs @ overflow_hubs g ys"
  by (simp add: overflow_hubs_def)

lemma hubs_of_all:
  "card_hubs (map (digest_card g) (take k cs)) @ overflow_hubs g (drop k cs) = overflow_hubs g cs"
  by (simp only: card_hubs_digest overflow_hubs_append [symmetric] append_take_drop_id)

lemma dmc_Routes_digest [simp]: "dmc_Routes (digest_card g c) = smc_Routes c"
  by (simp add: digest_card_def Let_def)

lemma route_keys_all:
  "route_keys (map (digest_card g) (take k cs)) (drop k cs) = remdups (map route_key (concat (map smc_Routes cs)))"
proof -
  have "map dmc_Routes (map (digest_card g) (take k cs)) = map smc_Routes (take k cs)" by simp
  then show ?thesis
    by (simp only: route_keys_def map_append [symmetric] concat_append [symmetric] append_take_drop_id)
qed

section \<open>Properties\<close>

text \<open>
  Sampling loses no signal: whatever the cap on detailed cards, the digest has the same shared-state hubs,
  route count, entry points, module count and classification, the number of sampled and aggregated modules is
  the number of cards, and the hubs are exactly the cards with fan-in of at least two that have mutable state
  or are routed by convention.
\<close>
theorem sampling_loses_nothing:
  "dg_SharedStateHubs (Distill g cls cr data k) = dg_SharedStateHubs (Distill g cls cr data k') \<and>
   dg_EntryPoints (Distill g cls cr data k) = dg_EntryPoints (Distill g cls cr data k') \<and>
   dg_Classification (Distill g cls cr data k) = dg_Classification (Distill g cls cr data k') \<and>
   dg_TotalModules (Distill g cls cr data k) =
     dg_SampledModules (Distill g cls cr data k) +
     (case dg_AggregateCard (Distill g cls cr data k) of None \<Rightarrow> 0 | Some a \<Rightarrow> ag_ModuleCount a) \<and>
   set (map hub_Module (dg_SharedStateHubs (Distill g cls cr data k))) =
     {smc_Module c | c. c \<in> set (case data of None \<Rightarrow> [] | Some d \<Rightarrow> sd_ModuleCards d) \<and>
        2 \<le> fan_in g (smc_Module c) \<and> \<not> (smc_State c = [] \<and> \<not> isConventionRoutedCard c)}"
proof -
  let ?cards = "sort_slice (card_before g) (case data of None \<Rightarrow> [] | Some d \<Rightarrow> sd_ModuleCards d)"
  have hubs: "dg_SharedStateHubs (Distill g cls cr data j) = sort_slice hub_before (overflow_hubs g ?cards)" for j
    by (simp add: Distill_def Let_def hubs_of_all)
  have "set (map hub_Module (overflow_hubs g ?cards)) =
      {smc_Module c | c. c \<in> set (case data of None \<Rightarrow> [] | Some d \<Rightarrow> sd_ModuleCards d) \<and>
        2 \<le> fan_in g (smc_Module c) \<and> \<not> (smc_State c = [] \<and> \<not> isConventionRoutedCard c)}"
    by (auto simp: overflow_hubs_def isSharedStateHub_def sharedStateHubFanIn_def not_less split: if_splits)
  moreover have "dg_EntryPoints (Distill g cls cr data k) = dg_EntryPoints (Distill g cls cr data k')"
    by (simp add: Distill_def Let_def route_keys_all)
  moreover have "dg_Classification (Distill g cls cr data k) = dg_Classification (Distill g cls cr data k')"
    by (simp add: Distill_def Let_def)
  moreover have "dg_TotalModules (Distill g cls cr data k) = dg_SampledModules (Distill g cls cr data k) +
      (case dg_AggregateCard (Distill g cls cr data k) of None \<Rightarrow> 0 | Some a \<Rightarrow> ag_ModuleCount a)"
    by (auto simp: Distill_def Let_def aggregate_card_def)
  ultimately show ?thesis unfolding hubs by (simp add: image_image)
qed

end
