(* ===== verification/Cycles.thy ===== *)
theory Cycles
  imports Decomposition_Domain
begin

text \<open>
  The cycle findings of the scorer (\<^verbatim>\<open>worker/decomposition/application/cycles.go\<close>): Tarjan's algorithm on the
  dependency graph without self-loops. The maps and the stack that the recursive closure shares are the state;
  the recursion has a fuel argument, which is the number of nodes and always enough (the lemma \<open>tarjan_returns\<close>).
  The stack has its top first.
\<close>

section \<open>The algorithm\<close>

record tarjan =
  tj_index :: "string \<rightharpoonup> nat"
  tj_lowlink :: "string \<Rightarrow> nat"
  tj_onStack :: "string \<Rightarrow> bool"
  tj_stk :: "string list"
  tj_counter :: nat
  tj_sccs :: "string list list"

definition adjacency :: "Edge list \<Rightarrow> string \<Rightarrow> string list" where
  "adjacency edges v = map edge_To (filter (\<lambda>e. edge_From e = v \<and> edge_From e \<noteq> edge_To e) edges)"

definition nodeList :: "Edge list \<Rightarrow> string list" where
  "nodeList edges = sort (AllModules (filter (\<lambda>e. edge_From e \<noteq> edge_To e) edges))"

definition sc_enter :: "string \<Rightarrow> tarjan \<Rightarrow> tarjan" where
  "sc_enter v st =
     st\<lparr>tj_index := (tj_index st)(v \<mapsto> tj_counter st), tj_lowlink := (tj_lowlink st)(v := tj_counter st),
        tj_onStack := (tj_onStack st)(v := True), tj_stk := v # tj_stk st, tj_counter := tj_counter st + 1\<rparr>"

definition lower_to :: "string \<Rightarrow> nat \<Rightarrow> tarjan \<Rightarrow> tarjan" where
  "lower_to v l st = (if l < tj_lowlink st v then st\<lparr>tj_lowlink := (tj_lowlink st)(v := l)\<rparr> else st)"

text \<open>The pop loop takes the stack down to and including \<open>v\<close>.\<close>

fun pop_until :: "string \<Rightarrow> string list \<Rightarrow> string list \<times> string list" where
  "pop_until v [] = ([], [])"
| "pop_until v (w # stk) = (if w = v then ([w], stk) else let (scc, rest) = pop_until v stk in (w # scc, rest))"

definition sc_leave :: "string \<Rightarrow> tarjan \<Rightarrow> tarjan" where
  "sc_leave v st =
     (if Some (tj_lowlink st v) = tj_index st v
      then let (scc, rest) = pop_until v (tj_stk st)
           in st\<lparr>tj_stk := rest, tj_onStack := (\<lambda>w. tj_onStack st w \<and> w \<notin> set scc),
                 tj_sccs := (if length scc > 1 then tj_sccs st @ [sort scc] else tj_sccs st)\<rparr>
      else st)"

fun sc :: "(string \<Rightarrow> string list) \<Rightarrow> nat \<Rightarrow> string \<Rightarrow> tarjan \<Rightarrow> tarjan option"
and sc_succs :: "(string \<Rightarrow> string list) \<Rightarrow> nat \<Rightarrow> string \<Rightarrow> string list \<Rightarrow> tarjan \<Rightarrow> tarjan option" where
  "sc adj 0 v st = None"
| "sc adj (Suc n) v st =
     (case sc_succs adj n v (adj v) (sc_enter v st) of None \<Rightarrow> None | Some st' \<Rightarrow> Some (sc_leave v st'))"
| "sc_succs adj n v [] st = Some st"
| "sc_succs adj n v (w # ws) st =
     (case tj_index st w of
        None \<Rightarrow> (case sc adj n w st of
                   None \<Rightarrow> None
                 | Some st' \<Rightarrow> sc_succs adj n v ws (lower_to v (tj_lowlink st' w) st'))
      | Some i \<Rightarrow> sc_succs adj n v ws (if tj_onStack st w then lower_to v i st else st))"

definition tarjan_start :: tarjan where
  "tarjan_start = \<lparr> tj_index = Map.empty, tj_lowlink = (\<lambda>_. 0), tj_onStack = (\<lambda>_. False), tj_stk = [],
                    tj_counter = 0, tj_sccs = [] \<rparr>"

fun tarjan_roots :: "(string \<Rightarrow> string list) \<Rightarrow> nat \<Rightarrow> string list \<Rightarrow> tarjan \<Rightarrow> tarjan option" where
  "tarjan_roots adj n [] st = Some st"
| "tarjan_roots adj n (r # rs) st =
     (case tj_index st r of
        None \<Rightarrow> (case sc adj n r st of None \<Rightarrow> None | Some st' \<Rightarrow> tarjan_roots adj n rs st')
      | Some _ \<Rightarrow> tarjan_roots adj n rs st)"

definition tarjan_sccs :: "Edge list \<Rightarrow> string list list option" where
  "tarjan_sccs edges =
     map_option tj_sccs (tarjan_roots (adjacency edges) (length (nodeList edges)) (nodeList edges) tarjan_start)"

definition cycle_finding :: "(string \<Rightarrow> bool) \<Rightarrow> string list \<Rightarrow> StructuralFinding" where
  "cycle_finding domainSet scc =
     \<lparr> sf_Kind = ''cycle'',
       sf_Severity = (if (\<exists>m \<in> set scc. domainSet m) \<or> length scc \<ge> 3 then ''high'' else ''medium''),
       sf_TitleKey = ''finding.cycle'', sf_Params = [(''n'', Itoa (int (length scc)))], sf_Modules = scc \<rparr>"

definition detectCycles :: "Edge list \<Rightarrow> (string \<Rightarrow> bool) \<Rightarrow> StructuralFinding list" where
  "detectCycles edges domainSet =
     (case tarjan_sccs edges of None \<Rightarrow> [] | Some sccs \<Rightarrow> map (cycle_finding domainSet) sccs)"

section \<open>The reference: strongly connected components\<close>

definition arcs :: "(string \<Rightarrow> string list) \<Rightarrow> (string \<times> string) set" where
  "arcs adj = {(v, w). w \<in> set (adj v)}"

definition scc_of :: "(string \<Rightarrow> string list) \<Rightarrow> string \<Rightarrow> string set" where
  "scc_of adj v = {w. (v, w) \<in> (arcs adj)\<^sup>* \<and> (w, v) \<in> (arcs adj)\<^sup>*}"

section \<open>The invariant\<close>

abbreviation idx :: "tarjan \<Rightarrow> string \<Rightarrow> nat" where
  "idx st v \<equiv> the (tj_index st v)"

abbreviation visited :: "tarjan \<Rightarrow> string set" where
  "visited st \<equiv> dom (tj_index st)"

definition finished :: "tarjan \<Rightarrow> string set" where
  "finished st = visited st - set (tj_stk st)"

text \<open>\<open>G\<close> is the set of nodes whose call has not returned. The parts: the stack; the black nodes have no white
  successor; the finished nodes have only finished successors; every node on the stack reaches a gray node
  below it; a gray node reaches everything above it; the recorded components are those of finished nodes.\<close>

definition stack_ok :: "string set \<Rightarrow> tarjan \<Rightarrow> bool" where
  "stack_ok V st \<longleftrightarrow> visited st \<subseteq> V \<and> set (tj_stk st) \<subseteq> visited st \<and>
     (\<forall>x. tj_onStack st x \<longleftrightarrow> x \<in> set (tj_stk st)) \<and> (\<forall>x \<in> visited st. idx st x < tj_counter st) \<and>
     sorted_wrt (\<lambda>x y. idx st x > idx st y) (tj_stk st)"

definition recorded :: "(string \<Rightarrow> string list) \<Rightarrow> tarjan \<Rightarrow> bool" where
  "recorded adj st \<longleftrightarrow>
     set (map set (tj_sccs st)) = {C. \<exists>x \<in> finished st. C = scc_of adj x \<and> card C > 1} \<and>
     distinct (map set (tj_sccs st)) \<and> (\<forall>l \<in> set (tj_sccs st). sorted_wrt (<) l)"

definition tj_inv :: "(string \<Rightarrow> string list) \<Rightarrow> string set \<Rightarrow> string set \<Rightarrow> tarjan \<Rightarrow> bool" where
  "tj_inv adj V G st \<longleftrightarrow> stack_ok V st \<and> G \<subseteq> set (tj_stk st) \<and>
     (\<forall>x \<in> visited st - G. set (adj x) \<subseteq> visited st) \<and>
     (\<forall>x \<in> finished st. set (adj x) \<subseteq> finished st) \<and>
     (\<forall>x \<in> set (tj_stk st). \<exists>g \<in> G. idx st g \<le> idx st x \<and> (x, g) \<in> (arcs adj)\<^sup>*) \<and>
     (\<forall>g \<in> G. \<forall>y \<in> set (tj_stk st). idx st g \<le> idx st y \<longrightarrow> (g, y) \<in> (arcs adj)\<^sup>*) \<and>
     recorded adj st"

lemma tj_invD:
  assumes "tj_inv adj V G st"
  shows "stack_ok V st" and "G \<subseteq> set (tj_stk st)"
    and "x \<in> visited st \<Longrightarrow> x \<notin> G \<Longrightarrow> w \<in> set (adj x) \<Longrightarrow> w \<in> visited st"
    and "x \<in> finished st \<Longrightarrow> w \<in> set (adj x) \<Longrightarrow> w \<in> finished st"
    and "x \<in> set (tj_stk st) \<Longrightarrow> \<exists>g \<in> G. idx st g \<le> idx st x \<and> (x, g) \<in> (arcs adj)\<^sup>*"
    and "g \<in> G \<Longrightarrow> y \<in> set (tj_stk st) \<Longrightarrow> idx st g \<le> idx st y \<Longrightarrow> (g, y) \<in> (arcs adj)\<^sup>*"
    and "recorded adj st"
  using assms unfolding tj_inv_def by blast+

lemma stack_okD:
  assumes "stack_ok V st"
  shows "visited st \<subseteq> V" and "set (tj_stk st) \<subseteq> visited st" and "tj_onStack st x \<longleftrightarrow> x \<in> set (tj_stk st)"
    and "x \<in> visited st \<Longrightarrow> idx st x < tj_counter st" and "sorted_wrt (\<lambda>x y. idx st x > idx st y) (tj_stk st)"
  using assms unfolding stack_ok_def by blast+

lemma decreasing_distinct: "sorted_wrt (\<lambda>x y. f x > (f y :: nat)) xs \<Longrightarrow> distinct xs"
  by (induction xs) auto

lemma stack_distinct: "stack_ok V st \<Longrightarrow> distinct (tj_stk st)"
  by (rule decreasing_distinct [OF stack_okD(5)])

text \<open>Below a node of the stack the indices are smaller, above it they are larger.\<close>

lemma stack_split:
  assumes "stack_ok V st" and "tj_stk st = pre @ v # stk0"
  shows "x \<in> set pre \<Longrightarrow> idx st v < idx st x" and "x \<in> set stk0 \<Longrightarrow> idx st x < idx st v"
    and "v \<notin> set pre" and "v \<notin> set stk0" and "set pre \<inter> set stk0 = {}"
proof -
  have s: "sorted_wrt (\<lambda>x y. idx st x > idx st y) (pre @ v # stk0)" using stack_okD(5) [OF assms(1)] assms(2) by simp
  then show "x \<in> set pre \<Longrightarrow> idx st v < idx st x" and "x \<in> set stk0 \<Longrightarrow> idx st x < idx st v"
    by (auto simp: sorted_wrt_append)
  show "v \<notin> set pre" and "v \<notin> set stk0" and "set pre \<inter> set stk0 = {}"
    using stack_distinct [OF assms(1)] assms(2) by auto
qed

lemma pop_until_split: "v \<notin> set pre \<Longrightarrow> pop_until v (pre @ v # stk0) = (pre @ [v], stk0)"
  by (induction pre) auto

lemma arcsI: "w \<in> set (adj v) \<Longrightarrow> (v, w) \<in> (arcs adj)\<^sup>*"
  by (auto simp: arcs_def)

text \<open>A set that is closed under successors is closed under reachability.\<close>

lemma closed_reach:
  assumes "(x, y) \<in> (arcs adj)\<^sup>*" and "x \<in> S" and "\<And>x w. x \<in> S \<Longrightarrow> w \<in> set (adj x) \<Longrightarrow> w \<in> S"
  shows "y \<in> S"
  using assms(1,2) by (induction rule: rtrancl_induct) (auto simp: arcs_def intro: assms(3))

section \<open>Entering a node\<close>

lemma enter_view:
  "tj_index (sc_enter v st) = (tj_index st)(v \<mapsto> tj_counter st)" "tj_lowlink (sc_enter v st) = (tj_lowlink st)(v := tj_counter st)"
  "tj_onStack (sc_enter v st) = (tj_onStack st)(v := True)" "tj_stk (sc_enter v st) = v # tj_stk st"
  "tj_counter (sc_enter v st) = tj_counter st + 1" "tj_sccs (sc_enter v st) = tj_sccs st"
  by (simp_all add: sc_enter_def)

lemma enter_inv:
  assumes inv: "tj_inv adj V G st" and new: "v \<notin> visited st" and "v \<in> V"
    and reach: "\<And>g. g \<in> G \<Longrightarrow> (g, v) \<in> (arcs adj)\<^sup>*"
  shows "tj_inv adj V (insert v G) (sc_enter v st)"
proof -
  note I = tj_invD [OF inv]
  note S = stack_okD [OF I(1)]
  have old: "x \<noteq> v" if "x \<in> set (tj_stk st)" for x using that S(2) new by auto
  have idx': "idx (sc_enter v st) x = (if x = v then tj_counter st else idx st x)" for x by (simp add: enter_view)
  have fin: "finished (sc_enter v st) = finished st" using new by (auto simp: finished_def enter_view)
  have less: "idx st x < tj_counter st" if "x \<in> set (tj_stk st)" for x using that S(2,4) by blast
  have "stack_ok V (sc_enter v st)"
    unfolding stack_ok_def
  proof (intro conjI)
    show "visited (sc_enter v st) \<subseteq> V" using S(1) assms(3) by (auto simp: enter_view)
    show "set (tj_stk (sc_enter v st)) \<subseteq> visited (sc_enter v st)" using S(2) by (auto simp: enter_view)
    show "\<forall>x. tj_onStack (sc_enter v st) x \<longleftrightarrow> x \<in> set (tj_stk (sc_enter v st))" using S(3) by (simp add: enter_view)
    show "\<forall>x \<in> visited (sc_enter v st). idx (sc_enter v st) x < tj_counter (sc_enter v st)"
      using S(4) by (auto simp: enter_view less_SucI)
    have "sorted_wrt (\<lambda>x y. idx (sc_enter v st) x > idx (sc_enter v st) y) (tj_stk st)"
      by (rule sorted_wrt_mono_rel [OF _ S(5)]) (use old in \<open>simp add: idx'\<close>)
    then show "sorted_wrt (\<lambda>x y. idx (sc_enter v st) x > idx (sc_enter v st) y) (tj_stk (sc_enter v st))"
      using less old by (simp add: enter_view(4) idx')
  qed
  moreover have "recorded adj (sc_enter v st)" using I(7) by (simp add: recorded_def fin enter_view)
  moreover have "\<forall>x \<in> set (tj_stk (sc_enter v st)). \<exists>g \<in> insert v G. idx (sc_enter v st) g \<le> idx (sc_enter v st) x \<and> (x, g) \<in> (arcs adj)\<^sup>*"
    using I(2,5) old unfolding idx' by (fastforce simp: enter_view(4))
  moreover have "\<forall>g \<in> insert v G. \<forall>y \<in> set (tj_stk (sc_enter v st)). idx (sc_enter v st) g \<le> idx (sc_enter v st) y \<longrightarrow> (g, y) \<in> (arcs adj)\<^sup>*"
    using I(2,6) old reach less unfolding idx' by (auto simp: enter_view(4) not_less [symmetric])
  moreover have "\<forall>x \<in> visited (sc_enter v st) - insert v G. set (adj x) \<subseteq> visited (sc_enter v st)"
    using I(3) by (auto simp: enter_view)
  ultimately show ?thesis
    using I(2,4) unfolding tj_inv_def fin by (auto simp: enter_view(4))
qed

section \<open>Inside a call\<close>

lemma lower_view [simp]:
  "tj_index (lower_to v l st) = tj_index st" "tj_onStack (lower_to v l st) = tj_onStack st"
  "tj_stk (lower_to v l st) = tj_stk st" "tj_counter (lower_to v l st) = tj_counter st"
  "tj_sccs (lower_to v l st) = tj_sccs st" "finished (lower_to v l st) = finished st"
  "tj_lowlink (lower_to v l st) = (tj_lowlink st)(v := min l (tj_lowlink st v))"
  by (auto simp: lower_to_def finished_def fun_eq_iff)

lemma lower_inv [simp]: "tj_inv adj V G (lower_to v l st) \<longleftrightarrow> tj_inv adj V G st"
  by (simp add: tj_inv_def stack_ok_def recorded_def)

text \<open>The state of the loop over the successors of \<open>v\<close>: \<open>stk0\<close> is the stack below \<open>v\<close>, \<open>ds\<close> the successors
  that are done.\<close>

definition in_loop ::
  "(string \<Rightarrow> string list) \<Rightarrow> string set \<Rightarrow> string set \<Rightarrow> string \<Rightarrow> string list \<Rightarrow> string set \<Rightarrow> tarjan \<Rightarrow> bool" where
  "in_loop adj V G v stk0 ds st \<longleftrightarrow>
     tj_inv adj V (insert v G) st \<and> v \<notin> G \<and> G \<subseteq> set stk0 \<and>
     (\<exists>pre. tj_stk st = pre @ v # stk0 \<and>
        (\<forall>x \<in> set pre. \<forall>w \<in> set (adj x). w \<in> set stk0 \<longrightarrow> tj_lowlink st v \<le> idx st w)) \<and>
     tj_lowlink st v \<le> idx st v \<and>
     (tj_lowlink st v = idx st v \<or> (\<exists>y \<in> set stk0. idx st y = tj_lowlink st v \<and> (v, y) \<in> (arcs adj)\<^sup>*)) \<and>
     (\<forall>w \<in> ds. w \<in> visited st \<and> (w \<in> set stk0 \<longrightarrow> tj_lowlink st v \<le> idx st w))"

lemma in_loopE:
  assumes "in_loop adj V G v stk0 ds st"
  obtains pre where "tj_inv adj V (insert v G) st" and "v \<notin> G" and "G \<subseteq> set stk0" and "tj_stk st = pre @ v # stk0"
    and "\<And>x w. x \<in> set pre \<Longrightarrow> w \<in> set (adj x) \<Longrightarrow> w \<in> set stk0 \<Longrightarrow> tj_lowlink st v \<le> idx st w"
    and "tj_lowlink st v \<le> idx st v"
    and "tj_lowlink st v = idx st v \<or> (\<exists>y \<in> set stk0. idx st y = tj_lowlink st v \<and> (v, y) \<in> (arcs adj)\<^sup>*)"
    and "\<And>w. w \<in> ds \<Longrightarrow> w \<in> visited st \<and> (w \<in> set stk0 \<longrightarrow> tj_lowlink st v \<le> idx st w)"
  using assms unfolding in_loop_def by blast

lemma in_loopI:
  assumes "tj_inv adj V (insert v G) st" and "v \<notin> G" and "G \<subseteq> set stk0" and "tj_stk st = pre @ v # stk0"
    and "\<And>x w. x \<in> set pre \<Longrightarrow> w \<in> set (adj x) \<Longrightarrow> w \<in> set stk0 \<Longrightarrow> tj_lowlink st v \<le> idx st w"
    and "tj_lowlink st v \<le> idx st v"
    and "tj_lowlink st v = idx st v \<or> (\<exists>y \<in> set stk0. idx st y = tj_lowlink st v \<and> (v, y) \<in> (arcs adj)\<^sup>*)"
    and "\<And>w. w \<in> ds \<Longrightarrow> w \<in> visited st \<and> (w \<in> set stk0 \<longrightarrow> tj_lowlink st v \<le> idx st w)"
  shows "in_loop adj V G v stk0 ds st"
  using assms unfolding in_loop_def by blast

text \<open>What a call for \<open>v\<close> leaves behind.\<close>

definition returned :: "(string \<Rightarrow> string list) \<Rightarrow> string set \<Rightarrow> string set \<Rightarrow> string \<Rightarrow> tarjan \<Rightarrow> tarjan \<Rightarrow> bool" where
  "returned adj V G v st st' \<longleftrightarrow>
     tj_inv adj V G st' \<and> tj_index st \<subseteq>\<^sub>m tj_index st' \<and> v \<in> visited st' \<and>
     (\<forall>u \<in> visited st. tj_lowlink st' u = tj_lowlink st u) \<and>
     (\<exists>pre. tj_stk st' = pre @ tj_stk st \<and>
        (\<forall>x \<in> set pre. \<forall>w \<in> set (adj x). w \<in> set (tj_stk st) \<longrightarrow> tj_lowlink st' v \<le> idx st' w)) \<and>
     (tj_lowlink st' v < tj_counter st \<longrightarrow>
        (\<exists>y \<in> set (tj_stk st). idx st' y = tj_lowlink st' v \<and> (v, y) \<in> (arcs adj)\<^sup>*))"

lemma map_le_idx: "tj_index st \<subseteq>\<^sub>m tj_index st' \<Longrightarrow> x \<in> visited st \<Longrightarrow> idx st' x = idx st x"
  by (metis map_le_def)

lemma map_le_visited: "tj_index st \<subseteq>\<^sub>m tj_index st' \<Longrightarrow> visited st \<subseteq> visited st'"
  by (rule map_le_implies_dom_le)

lemma loop_white:
  assumes loop: "in_loop adj V G v stk0 ds st" and ret: "returned adj V (insert v G) w st st'" and arc: "w \<in> set (adj v)"
    and new: "w \<notin> visited st"
  shows "in_loop adj V G v stk0 (insert w ds) (lower_to v (tj_lowlink st' w) st')"
proof -
  from loop obtain pre where inv: "tj_inv adj V (insert v G) st" and vG: "v \<notin> G" "G \<subseteq> set stk0" and stk: "tj_stk st = pre @ v # stk0"
    and pre: "\<And>x y. x \<in> set pre \<Longrightarrow> y \<in> set (adj x) \<Longrightarrow> y \<in> set stk0 \<Longrightarrow> tj_lowlink st v \<le> idx st y"
    and le: "tj_lowlink st v \<le> idx st v"
    and low: "tj_lowlink st v = idx st v \<or> (\<exists>y \<in> set stk0. idx st y = tj_lowlink st v \<and> (v, y) \<in> (arcs adj)\<^sup>*)"
    and ds: "\<And>y. y \<in> ds \<Longrightarrow> y \<in> visited st \<and> (y \<in> set stk0 \<longrightarrow> tj_lowlink st v \<le> idx st y)"
    by (rule in_loopE) (rule that; blast)
  from ret obtain pre2 where inv': "tj_inv adj V (insert v G) st'" and ext: "tj_index st \<subseteq>\<^sub>m tj_index st'" and w: "w \<in> visited st'"
    and same: "\<And>u. u \<in> visited st \<Longrightarrow> tj_lowlink st' u = tj_lowlink st u" and stk': "tj_stk st' = pre2 @ tj_stk st"
    and pre2: "\<And>x y. x \<in> set pre2 \<Longrightarrow> y \<in> set (adj x) \<Longrightarrow> y \<in> set (tj_stk st) \<Longrightarrow> tj_lowlink st' w \<le> idx st' y"
    and roww: "tj_lowlink st' w < tj_counter st \<Longrightarrow> \<exists>y \<in> set (tj_stk st). idx st' y = tj_lowlink st' w \<and> (w, y) \<in> (arcs adj)\<^sup>*"
    unfolding returned_def by blast
  have on: "x \<in> visited st" if "x \<in> set (pre @ v # stk0)" for x
    using that stack_okD(2) [OF tj_invD(1) [OF inv]] stk by auto
  have i: "idx st' x = idx st x" if "x \<in> set (pre @ v # stk0)" for x using map_le_idx [OF ext on [OF that]] .
  have lv: "tj_lowlink st' v = tj_lowlink st v" using same on by simp
  let ?l = "tj_lowlink st' w"
  show ?thesis
  proof (rule in_loopI [where pre = "pre2 @ pre"])
    show "tj_inv adj V (insert v G) (lower_to v ?l st')" using inv' by simp
    show "tj_stk (lower_to v ?l st') = (pre2 @ pre) @ v # stk0" by (simp add: stk' stk)
    fix x y assume "x \<in> set (pre2 @ pre)" "y \<in> set (adj x)" "y \<in> set stk0"
    then show "tj_lowlink (lower_to v ?l st') v \<le> idx (lower_to v ?l st') y"
      using pre [of x y] pre2 [of x y] i [of y] lv by (auto simp: stk)
  next
    show "tj_lowlink (lower_to v ?l st') v \<le> idx (lower_to v ?l st') v" using le lv i [of v] by simp
    show "tj_lowlink (lower_to v ?l st') v = idx (lower_to v ?l st') v \<or>
      (\<exists>y \<in> set stk0. idx (lower_to v ?l st') y = tj_lowlink (lower_to v ?l st') v \<and> (v, y) \<in> (arcs adj)\<^sup>*)"
    proof (cases "?l < tj_lowlink st v")
      case True
      have "idx st v < tj_counter st" using stack_okD(4) [OF tj_invD(1) [OF inv]] on [of v] by simp
      with True le roww obtain y where y: "y \<in> set (tj_stk st)" "idx st' y = ?l" "(w, y) \<in> (arcs adj)\<^sup>*" by force
      with True le i have "idx st y < idx st v" by (simp add: stk)
      with y stack_split(1) [OF tj_invD(1) [OF inv] stk] have "y \<in> set stk0" by (force simp: stk)
      moreover have "(v, y) \<in> (arcs adj)\<^sup>*" using arcsI [where adj = adj and v = v, OF arc] y(3) by (rule rtrancl_trans)
      ultimately show ?thesis using y True lv by auto
    next
      case False
      then show ?thesis using low lv i by auto
    qed
    fix y assume "y \<in> insert w ds"
    then show "y \<in> visited (lower_to v ?l st') \<and> (y \<in> set stk0 \<longrightarrow> tj_lowlink (lower_to v ?l st') v \<le> idx (lower_to v ?l st') y)"
      using ds [of y] w new on [of y] lv i [of y] map_le_visited [OF ext] by auto
  qed (use vG in simp_all)
qed

lemma loop_seen:
  assumes loop: "in_loop adj V G v stk0 ds st" and arc: "w \<in> set (adj v)" and seen: "tj_index st w = Some i"
  shows "in_loop adj V G v stk0 (insert w ds) (if tj_onStack st w then lower_to v i st else st)"
proof -
  from loop obtain pre where inv: "tj_inv adj V (insert v G) st" and vG: "v \<notin> G" "G \<subseteq> set stk0" and stk: "tj_stk st = pre @ v # stk0"
    and pre: "\<And>x y. x \<in> set pre \<Longrightarrow> y \<in> set (adj x) \<Longrightarrow> y \<in> set stk0 \<Longrightarrow> tj_lowlink st v \<le> idx st y"
    and le: "tj_lowlink st v \<le> idx st v"
    and low: "tj_lowlink st v = idx st v \<or> (\<exists>y \<in> set stk0. idx st y = tj_lowlink st v \<and> (v, y) \<in> (arcs adj)\<^sup>*)"
    and ds: "\<And>y. y \<in> ds \<Longrightarrow> y \<in> visited st \<and> (y \<in> set stk0 \<longrightarrow> tj_lowlink st v \<le> idx st y)"
    by (rule in_loopE) (rule that; blast)
  note on = stack_okD(3) [OF tj_invD(1) [OF inv]]
  have iw: "idx st w = i" "w \<in> visited st" using seen by auto
  show ?thesis
  proof (cases "tj_onStack st w")
    case False
    then have "w \<notin> set stk0" using on stk by simp
    with False show ?thesis using iw ds by (auto intro!: in_loopI [OF inv vG stk pre le low])
  next
    case True
    have "in_loop adj V G v stk0 (insert w ds) (lower_to v i st)"
    proof (rule in_loopI [where pre = pre])
      show "tj_inv adj V (insert v G) (lower_to v i st)" using inv by simp
      show "tj_stk (lower_to v i st) = pre @ v # stk0" by (simp add: stk)
      show "tj_lowlink (lower_to v i st) v \<le> idx (lower_to v i st) v" using le by simp
      show "tj_lowlink (lower_to v i st) v = idx (lower_to v i st) v \<or>
        (\<exists>y \<in> set stk0. idx (lower_to v i st) y = tj_lowlink (lower_to v i st) v \<and> (v, y) \<in> (arcs adj)\<^sup>*)"
      proof (cases "i < tj_lowlink st v")
        case less: True
        then have "idx st w < idx st v" using le iw by simp
        moreover have "w \<in> set (pre @ v # stk0)" using True on stk by simp
        ultimately have "w \<in> set stk0" using stack_split(1) [OF tj_invD(1) [OF inv] stk] by force
        with less iw arcsI [where adj = adj and v = v, OF arc] show ?thesis by auto
      qed (use low in auto)
      fix y assume "y \<in> insert w ds"
      then show "y \<in> visited (lower_to v i st) \<and> (y \<in> set stk0 \<longrightarrow> tj_lowlink (lower_to v i st) v \<le> idx (lower_to v i st) y)"
        using ds [of y] iw by auto
    next
      fix x y assume "x \<in> set pre" "y \<in> set (adj x)" "y \<in> set stk0"
      then show "tj_lowlink (lower_to v i st) v \<le> idx (lower_to v i st) y" using pre [of x y] by simp
    qed (use vG in simp_all)
    with True show ?thesis by simp
  qed
qed

section \<open>Leaving a node\<close>

text \<open>The nodes above and including \<open>v\<close> are its component when no edge leaves them downwards.\<close>

lemma component_of_root:
  assumes inv: "tj_inv adj V (insert v G) st" and "v \<notin> G" "G \<subseteq> set stk0" and stk: "tj_stk st = pre @ v # stk0"
    and succ: "set (adj v) \<subseteq> visited st" and reach: "\<forall>g \<in> G. (g, v) \<in> (arcs adj)\<^sup>*"
    and up: "\<forall>x \<in> set (pre @ [v]). set (adj x) \<inter> set stk0 = {}"
  shows "scc_of adj v = set (pre @ [v])"
    and "\<forall>x \<in> set (pre @ [v]) \<union> finished st. set (adj x) \<subseteq> set (pre @ [v]) \<union> finished st"
proof -
  note I = tj_invD [OF inv]
  note split = stack_split [OF I(1) stk]
  have v: "v \<in> visited st" "v \<notin> finished st" using stack_okD(2) [OF I(1)] by (auto simp: stk finished_def)
  have closed: "w \<in> set (pre @ [v]) \<union> finished st" if x: "x \<in> set (pre @ [v]) \<union> finished st" and w: "w \<in> set (adj x)" for x w
  proof (cases "x \<in> finished st")
    case True
    then show ?thesis using I(4) w by blast
  next
    case False
    with x have xp: "x \<in> set (pre @ [v])" by simp
    have "w \<in> visited st"
    proof (cases "x = v")
      case True
      then show ?thesis using succ w by auto
    next
      case False
      then have "x \<in> visited st" "x \<notin> insert v G"
        using xp split(5) assms(3) stack_okD(2) [OF I(1)] by (auto simp: stk)
      then show ?thesis using I(3) w by blast
    qed
    moreover have "w \<notin> set stk0" using up xp w by blast
    ultimately show ?thesis by (auto simp: finished_def stk)
  qed
  then show "\<forall>x \<in> set (pre @ [v]) \<union> finished st. set (adj x) \<subseteq> set (pre @ [v]) \<union> finished st" by blast
  show "scc_of adj v = set (pre @ [v])"
  proof
    show "set (pre @ [v]) \<subseteq> scc_of adj v"
    proof
      fix x assume x: "x \<in> set (pre @ [v])"
      then have on: "x \<in> set (tj_stk st)" and le: "idx st v \<le> idx st x" using split(1) by (auto simp: stk less_imp_le)
      have "(v, x) \<in> (arcs adj)\<^sup>*" using I(6) [of v x] on le by simp
      moreover from I(5) [OF on] obtain g where "g \<in> insert v G" "(x, g) \<in> (arcs adj)\<^sup>*" by blast
      then have "(x, v) \<in> (arcs adj)\<^sup>*" using reach by (auto intro: rtrancl_trans)
      ultimately show "x \<in> scc_of adj v" by (simp add: scc_of_def)
    qed
    show "scc_of adj v \<subseteq> set (pre @ [v])"
    proof
      fix y assume "y \<in> scc_of adj v"
      then have vy: "(v, y) \<in> (arcs adj)\<^sup>*" and yv: "(y, v) \<in> (arcs adj)\<^sup>*" by (simp_all add: scc_of_def)
      have "y \<in> set (pre @ [v]) \<union> finished st" by (rule closed_reach [OF vy]) (simp, rule closed)
      moreover have "y \<notin> finished st"
      proof
        assume "y \<in> finished st"
        with yv have "v \<in> finished st" by (rule closed_reach) (rule I(4))
        with v(2) show False ..
      qed
      ultimately show "y \<in> set (pre @ [v])" by simp
    qed
  qed
qed

lemma leave_keep:
  assumes "tj_lowlink st v \<noteq> idx st v" and "v \<in> visited st"
  shows "sc_leave v st = st"
  using assms by (auto simp: sc_leave_def)

lemma leave_pop:
  assumes "tj_lowlink st v = idx st v" and "v \<in> visited st" and "tj_stk st = pre @ v # stk0" and "v \<notin> set pre"
  shows "sc_leave v st = st\<lparr>tj_stk := stk0, tj_onStack := (\<lambda>w. tj_onStack st w \<and> w \<notin> set (pre @ [v])),
      tj_sccs := (if pre \<noteq> [] then tj_sccs st @ [sort (pre @ [v])] else tj_sccs st)\<rparr>"
  using assms by (auto simp: sc_leave_def pop_until_split)

lemma stays_gray:
  assumes inv: "tj_inv adj V (insert v G) st" and vG: "v \<notin> G" "G \<subseteq> set stk0" and stk: "tj_stk st = pre @ v # stk0"
    and x: "x \<in> set stk0"
  shows "\<exists>g \<in> G. idx st g \<le> idx st x \<and> (x, g) \<in> (arcs adj)\<^sup>*"
proof -
  from tj_invD(5) [OF inv] x stk obtain g where g: "g \<in> insert v G" "idx st g \<le> idx st x" "(x, g) \<in> (arcs adj)\<^sup>*"
    by (metis UnCI list.set_intros(2) set_append)
  with stack_split(2) [OF tj_invD(1) [OF inv] stk x] show ?thesis by auto
qed

lemma recorded_more:
  assumes rec: "recorded adj st" and scc: "scc_of adj v = set scc" and dist: "distinct scc" and disj: "set scc \<inter> finished st = {}"
    and fin: "finished st' = set scc \<union> finished st"
    and sccs: "tj_sccs st' = (if length scc > 1 then tj_sccs st @ [sort scc] else tj_sccs st)"
    and vs: "v \<in> set scc"
  shows "recorded adj st'"
proof -
  have same: "scc_of adj x = scc_of adj v" if "x \<in> set scc" for x
  proof -
    from that scc have "(v, x) \<in> (arcs adj)\<^sup>*" "(x, v) \<in> (arcs adj)\<^sup>*" by (auto simp: scc_of_def)
    then show ?thesis by (auto simp: scc_of_def intro: rtrancl_trans)
  qed
  have new: "set scc \<notin> set (map set (tj_sccs st))"
  proof
    assume "set scc \<in> set (map set (tj_sccs st))"
    then obtain x where "x \<in> finished st" "set scc = scc_of adj x" using rec unfolding recorded_def by blast
    moreover have "x \<in> scc_of adj x" by (simp add: scc_of_def)
    ultimately show False using disj by blast
  qed
  have "{C. \<exists>x \<in> finished st'. C = scc_of adj x \<and> card C > 1} =
      {C. \<exists>x \<in> finished st. C = scc_of adj x \<and> card C > 1} \<union> (if length scc > 1 then {set scc} else {})"
    using same vs scc distinct_card [OF dist] unfolding fin by auto
  then show ?thesis
    using rec new dist unfolding recorded_def sccs by (auto simp: strict_sorted_iff)
qed

text \<open>A call that has looped over all successors ends as promised.\<close>

lemma leave_returned:
  assumes loop: "in_loop adj V G v (tj_stk st) (set (adj v)) st1" and ext: "tj_index st \<subseteq>\<^sub>m tj_index st1"
    and v: "v \<in> visited st1" "idx st1 v = tj_counter st" and reach: "\<forall>g \<in> G. (g, v) \<in> (arcs adj)\<^sup>*"
    and same: "\<And>u. u \<in> visited st \<Longrightarrow> tj_lowlink st1 u = tj_lowlink st u"
    and on0: "set (tj_stk st) \<subseteq> visited st"
  shows "returned adj V G v st (sc_leave v st1)"
proof -
  let ?stk0 = "tj_stk st"
  from loop obtain pre where inv: "tj_inv adj V (insert v G) st1" and vG: "v \<notin> G" "G \<subseteq> set ?stk0" and stk: "tj_stk st1 = pre @ v # ?stk0"
    and pre: "\<And>x y. x \<in> set pre \<Longrightarrow> y \<in> set (adj x) \<Longrightarrow> y \<in> set ?stk0 \<Longrightarrow> tj_lowlink st1 v \<le> idx st1 y"
    and le: "tj_lowlink st1 v \<le> idx st1 v"
    and low: "tj_lowlink st1 v = idx st1 v \<or> (\<exists>y \<in> set ?stk0. idx st1 y = tj_lowlink st1 v \<and> (v, y) \<in> (arcs adj)\<^sup>*)"
    and ds: "\<And>y. y \<in> set (adj v) \<Longrightarrow> y \<in> visited st1 \<and> (y \<in> set ?stk0 \<longrightarrow> tj_lowlink st1 v \<le> idx st1 y)"
    by (rule in_loopE) (rule that; blast)
  note I = tj_invD [OF inv]
  note S = stack_okD [OF I(1)]
  note split = stack_split [OF I(1) stk]
  have edges: "tj_lowlink st1 v \<le> idx st1 w" if "x \<in> set (pre @ [v])" "w \<in> set (adj x)" "w \<in> set ?stk0" for x w
    using that pre [of x w] ds [of w] by auto
  have succ: "set (adj v) \<subseteq> visited st1" using ds by blast
  have black: "\<forall>x \<in> visited st1 - G. set (adj x) \<subseteq> visited st1" using I(3) succ by blast
  have gray: "\<forall>g \<in> G. \<forall>y \<in> set ?stk0. idx st1 g \<le> idx st1 y \<longrightarrow> (g, y) \<in> (arcs adj)\<^sup>*" using I(6) by (simp add: stk)
  show ?thesis
  proof (cases "tj_lowlink st1 v = idx st1 v")
    case True
    have pop: "sc_leave v st1 = st1\<lparr>tj_stk := ?stk0, tj_onStack := (\<lambda>w. tj_onStack st1 w \<and> w \<notin> set (pre @ [v])),
        tj_sccs := (if pre \<noteq> [] then tj_sccs st1 @ [sort (pre @ [v])] else tj_sccs st1)\<rparr>"
      by (rule leave_pop [OF True v(1) stk split(3)])
    have up: "\<forall>x \<in> set (pre @ [v]). set (adj x) \<inter> set ?stk0 = {}"
    proof (rule ballI, rule equals0I)
      fix x w assume "x \<in> set (pre @ [v])" "w \<in> set (adj x) \<inter> set ?stk0"
      then show False using edges [of x w] split(2) [of w] True by auto
    qed
    note comp = component_of_root [OF inv vG stk succ reach up]
    have fin: "finished (sc_leave v st1) = set (pre @ [v]) \<union> finished st1"
      using split S(2) by (auto simp: pop finished_def stk)
    have "recorded adj (sc_leave v st1)"
      by (rule recorded_more [where st = st1 and v = v and scc = "pre @ [v]"])
        (use I(7) comp(1) split stack_distinct [OF I(1)] in \<open>auto simp: fin, auto simp: pop finished_def stk\<close>)
    moreover have "stack_ok V (sc_leave v st1)"
      using S split unfolding stack_ok_def by (auto simp: pop stk sorted_wrt_append)
    ultimately have "tj_inv adj V G (sc_leave v st1)"
      unfolding tj_inv_def fin using vG black comp(2) gray stays_gray [OF inv vG stk] by (simp add: pop)
    with ext v True same show ?thesis unfolding returned_def by (auto simp: pop)
  next
    case False
    then have keep: "sc_leave v st1 = st1" using v(1) by (rule leave_keep)
    from False low obtain y where y: "y \<in> set ?stk0" "idx st1 y = tj_lowlink st1 v" "(v, y) \<in> (arcs adj)\<^sup>*" by blast
    from stays_gray [OF inv vG stk y(1)] obtain g where g: "g \<in> G" "idx st1 g \<le> idx st1 y" "(y, g) \<in> (arcs adj)\<^sup>*" by blast
    have vg: "(v, g) \<in> (arcs adj)\<^sup>*" "idx st1 g \<le> idx st1 v" using y g le by (auto intro: rtrancl_trans)
    have "\<exists>g \<in> G. idx st1 g \<le> idx st1 x \<and> (x, g) \<in> (arcs adj)\<^sup>*" if "x \<in> set (tj_stk st1)" for x
    proof -
      from I(5) [OF that] obtain h where h: "h \<in> insert v G" "idx st1 h \<le> idx st1 x" "(x, h) \<in> (arcs adj)\<^sup>*" by blast
      then show ?thesis using vg g(1) by (cases "h = v") (auto intro: rtrancl_trans order_trans)
    qed
    then have "tj_inv adj V G st1"
      unfolding tj_inv_def using I(1,2,4,6,7) black by blast
    moreover have "\<forall>x \<in> set (pre @ [v]). \<forall>w \<in> set (adj x). w \<in> set ?stk0 \<longrightarrow> tj_lowlink st1 v \<le> idx st1 w"
      using edges by blast
    ultimately show ?thesis
      unfolding returned_def keep using ext v same y stk by (intro conjI) (auto intro!: exI [of _ "pre @ [v]"])
  qed
qed

section \<open>The recursion\<close>

lemma enter_loop:
  assumes inv: "tj_inv adj V G st" and new: "v \<notin> visited st" and "v \<in> V" and reach: "\<forall>g \<in> G. (g, v) \<in> (arcs adj)\<^sup>*"
  shows "in_loop adj V G v (tj_stk st) {} (sc_enter v st)"
proof (rule in_loopI [where pre = "[]"])
  show "tj_inv adj V (insert v G) (sc_enter v st)" by (rule enter_inv [OF inv new assms(3)]) (use reach in blast)
  show "v \<notin> G" using tj_invD(2) [OF inv] stack_okD(2) [OF tj_invD(1) [OF inv]] new by blast
  show "G \<subseteq> set (tj_stk st)" by (rule tj_invD(2) [OF inv])
qed (simp_all add: enter_view)

lemma unvisited_less:
  assumes "finite V" and "visited st \<subset> visited st'" and "visited st' \<subseteq> V"
  shows "card (V - visited st') < card (V - visited st)"
proof (rule psubset_card_mono)
  show "finite (V - visited st)" using assms(1) by simp
  from assms(2) obtain x where "x \<in> visited st'" "x \<notin> visited st" by blast
  then have "x \<in> V - visited st" "x \<notin> V - visited st'" using assms(3) by blast+
  moreover have "V - visited st' \<subseteq> V - visited st" using assms(2) by blast
  ultimately show "V - visited st' \<subset> V - visited st" by blast
qed

lemma sc_correct:
  fixes V :: "string set"
  assumes fin: "finite V"
  shows "\<lbrakk>tj_inv adj V G st; \<forall>x \<in> V. set (adj x) \<subseteq> V; v \<in> V; v \<notin> visited st; \<forall>g \<in> G. (g, v) \<in> (arcs adj)\<^sup>*;
      card (V - visited st) \<le> n\<rbrakk> \<Longrightarrow> \<exists>st'. sc adj n v st = Some st' \<and> returned adj V G v st st'"
    and "\<lbrakk>in_loop adj V G v stk0 ds st; \<forall>x \<in> V. set (adj x) \<subseteq> V; v \<in> V; set ws \<subseteq> set (adj v);
      \<forall>g \<in> G. (g, v) \<in> (arcs adj)\<^sup>*; card (V - visited st) \<le> n\<rbrakk> \<Longrightarrow>
      \<exists>st'. sc_succs adj n v ws st = Some st' \<and> in_loop adj V G v stk0 (ds \<union> set ws) st' \<and>
        tj_index st \<subseteq>\<^sub>m tj_index st' \<and> (\<forall>u \<in> visited st - {v}. tj_lowlink st' u = tj_lowlink st u)"
proof (induction adj n v st and adj n v ws st arbitrary: G and G stk0 ds rule: sc_sc_succs.induct)
  case (1 adj v st)
  then have "V - visited st = {}" using fin by auto
  with 1 show ?case by blast
next
  case (2 adj n v st)
  let ?st = "sc_enter v st"
  have new: "tj_index st v = None" using "2.prems"(4) by auto
  have vis: "visited ?st = insert v (visited st)" by (simp add: enter_view)
  have sub: "visited ?st \<subseteq> V" using stack_okD(1) [OF tj_invD(1) [OF "2.prems"(1)]] "2.prems"(3) by (simp add: vis)
  have "card (V - visited ?st) < card (V - visited st)"
    by (rule unvisited_less [OF fin _ sub]) (use "2.prems"(4) in \<open>auto simp: vis\<close>)
  then have fuel: "card (V - visited ?st) \<le> n" using "2.prems"(6) by simp
  have loop: "in_loop adj V G v (tj_stk st) {} ?st" by (rule enter_loop [OF "2.prems"(1,4,3,5)])
  from "2.IH" [OF loop "2.prems"(2,3) subset_refl "2.prems"(5) fuel] obtain st1 where
    run: "sc_succs adj n v (adj v) ?st = Some st1" and loop1: "in_loop adj V G v (tj_stk st) (set (adj v)) st1"
    and ext: "tj_index ?st \<subseteq>\<^sub>m tj_index st1" and same: "\<forall>u \<in> visited ?st - {v}. tj_lowlink st1 u = tj_lowlink ?st u"
    by auto
  have "tj_index st \<subseteq>\<^sub>m tj_index ?st" using new by (auto simp: enter_view map_le_def)
  then have ext0: "tj_index st \<subseteq>\<^sub>m tj_index st1" using ext by (rule map_le_trans)
  have v1: "v \<in> visited st1" "idx st1 v = tj_counter st"
    using map_le_idx [OF ext, of v] map_le_visited [OF ext] by (auto simp: enter_view)
  have low: "tj_lowlink st1 u = tj_lowlink st u" if "u \<in> visited st" for u
    using same that "2.prems"(4) by (auto simp: vis enter_view)
  have "returned adj V G v st (sc_leave v st1)"
    by (rule leave_returned [OF loop1 ext0 v1 "2.prems"(5) low stack_okD(2) [OF tj_invD(1) [OF "2.prems"(1)]]])
  then show ?case by (simp add: run)
next
  case (3 adj n v st)
  then show ?case by simp
next
  case (4 adj n v w ws st)
  have w: "w \<in> set (adj v)" and wV: "w \<in> V" and ws: "set ws \<subseteq> set (adj v)" using "4.prems"(2-4) by auto
  from "4.prems"(1) have inv: "tj_inv adj V (insert v G) st" by (simp add: in_loop_def)
  have reachw: "\<forall>g \<in> insert v G. (g, w) \<in> (arcs adj)\<^sup>*"
    using "4.prems"(5) arcsI [where adj = adj and v = v, OF w] by (auto intro: rtrancl_trans)
  show ?case
  proof (cases "tj_index st w")
    case None
    then have new: "w \<notin> visited st" by auto
    from "4.IH"(1) [OF None inv "4.prems"(2) wV new reachw "4.prems"(6)] obtain st1 where
      run: "sc adj n w st = Some st1" and ret: "returned adj V (insert v G) w st st1" by blast
    let ?st = "lower_to v (tj_lowlink st1 w) st1"
    from ret have ext: "tj_index st \<subseteq>\<^sub>m tj_index st1" and low: "\<forall>u \<in> visited st. tj_lowlink st1 u = tj_lowlink st u"
      by (simp_all add: returned_def)
    have loop: "in_loop adj V G v stk0 (insert w ds) ?st" by (rule loop_white [OF "4.prems"(1) ret w new])
    have "V - visited ?st \<subseteq> V - visited st" using map_le_visited [OF ext] by auto
    then have fuel: "card (V - visited ?st) \<le> n" using "4.prems"(6) fin by (meson card_mono finite_Diff le_trans)
    from "4.IH"(2) [OF None run loop "4.prems"(2,3) ws "4.prems"(5) fuel] obtain st2 where
      run2: "sc_succs adj n v ws ?st = Some st2" and "in_loop adj V G v stk0 (insert w ds \<union> set ws) st2"
      and ext2: "tj_index st1 \<subseteq>\<^sub>m tj_index st2" and low2: "\<forall>u \<in> visited st1 - {v}. tj_lowlink st2 u = tj_lowlink ?st u"
      by auto
    moreover have "tj_lowlink st2 u = tj_lowlink st u" if "u \<in> visited st - {v}" for u
    proof -
      have "u \<in> visited st1 - {v}" using that map_le_visited [OF ext] by blast
      then have "tj_lowlink st2 u = tj_lowlink ?st u" using low2 by blast
      also have "\<dots> = tj_lowlink st1 u" using that by simp
      finally show ?thesis using low that by simp
    qed
    ultimately show ?thesis using map_le_trans [OF ext ext2] by (simp add: None run)
  next
    case (Some i)
    let ?st = "if tj_onStack st w then lower_to v i st else st"
    have loop: "in_loop adj V G v stk0 (insert w ds) ?st" by (rule loop_seen [OF "4.prems"(1) w Some])
    have idx: "tj_index ?st = tj_index st" by simp
    from "4.IH"(3) [OF Some loop "4.prems"(2,3) ws "4.prems"(5)] "4.prems"(6) obtain st2 where
      "sc_succs adj n v ws ?st = Some st2" and "in_loop adj V G v stk0 (insert w ds \<union> set ws) st2"
      and "tj_index st \<subseteq>\<^sub>m tj_index st2" and "\<forall>u \<in> visited st - {v}. tj_lowlink st2 u = tj_lowlink ?st u"
      by (auto simp: idx)
    then show ?thesis by (auto simp: Some)
  qed
qed

section \<open>All roots\<close>

lemma idle_stack: "tj_inv adj V {} st \<Longrightarrow> tj_stk st = []"
  using tj_invD(5) [of adj V "{}" st] by (cases "tj_stk st") fastforce+

lemma tarjan_returns:
  assumes fin: "finite V" and closed: "\<forall>x \<in> V. set (adj x) \<subseteq> V"
    and "tj_inv adj V {} st" and "set rs \<subseteq> V" and "card V \<le> n"
  shows "\<exists>st'. tarjan_roots adj n rs st = Some st' \<and> tj_inv adj V {} st' \<and> visited st \<union> set rs \<subseteq> visited st'"
  using assms(3,4)
proof (induction rs arbitrary: st)
  case (Cons r rs)
  show ?case
  proof (cases "tj_index st r")
    case None
    have "card (V - visited st) \<le> n" using assms(5) fin by (meson Diff_subset card_mono le_trans)
    with sc_correct(1) [OF fin Cons.prems(1) closed, of r n] None Cons.prems(2) obtain st1 where
      run: "sc adj n r st = Some st1" and ret: "returned adj V {} r st st1" by auto
    then have inv1: "tj_inv adj V {} st1" and v1: "visited st \<subseteq> visited st1" and r1: "r \<in> visited st1"
      using map_le_visited [of st st1] unfolding returned_def by blast+
    have "set rs \<subseteq> V" using Cons.prems(2) by simp
    from Cons.IH [OF inv1 this] obtain st2 where
      run2: "tarjan_roots adj n rs st1 = Some st2" and inv2: "tj_inv adj V {} st2" and v2: "visited st1 \<union> set rs \<subseteq> visited st2"
      by blast
    have "visited st \<union> set (r # rs) \<subseteq> visited st2" using v1 r1 v2 by (simp only: list.set) blast
    with inv2 show ?thesis by (simp only: tarjan_roots.simps None run run2 option.case) blast
  next
    case (Some i)
    then have r: "r \<in> visited st" by auto
    have "set rs \<subseteq> V" using Cons.prems(2) by simp
    from Cons.IH [OF Cons.prems(1) this] obtain st2 where
      run2: "tarjan_roots adj n rs st = Some st2" and inv2: "tj_inv adj V {} st2" and v2: "visited st \<union> set rs \<subseteq> visited st2"
      by blast
    have "visited st \<union> set (r # rs) \<subseteq> visited st2" using r v2 by (simp only: list.set) blast
    with inv2 show ?thesis by (simp only: tarjan_roots.simps Some run2 option.case) blast
  qed
qed auto

lemma start_inv: "tj_inv adj V {} tarjan_start"
  by (simp add: tj_inv_def tarjan_start_def stack_ok_def recorded_def finished_def)

lemma set_nodeList: "set (nodeList edges) = (\<Union>e \<in> {e \<in> set edges. edge_From e \<noteq> edge_To e}. {edge_From e, edge_To e})"
  by (auto simp: nodeList_def set_AllModules)

lemma adjacency_closed: "x \<in> set (nodeList edges) \<Longrightarrow> set (adjacency edges x) \<subseteq> set (nodeList edges)"
  by (auto simp: set_nodeList adjacency_def)

lemma tarjan_sccs_correct:
  "\<exists>sccs. tarjan_sccs edges = Some sccs \<and> distinct (map set sccs) \<and> (\<forall>l \<in> set sccs. sorted_wrt (<) l) \<and>
     set (map set sccs) = {C. \<exists>x \<in> set (nodeList edges). C = scc_of (adjacency edges) x \<and> card C > 1}"
proof -
  let ?V = "set (nodeList edges)" and ?adj = "adjacency edges"
  have card: "card ?V \<le> length (nodeList edges)" by (rule card_length)
  have closed: "\<forall>x \<in> ?V. set (?adj x) \<subseteq> ?V" using adjacency_closed by blast
  from tarjan_returns [OF finite_set closed start_inv subset_refl card] obtain st where
    run: "tarjan_roots ?adj (length (nodeList edges)) (nodeList edges) tarjan_start = Some st"
    and inv: "tj_inv ?adj ?V {} st" and vis: "?V \<subseteq> visited st" by auto
  have "finished st = ?V"
    using idle_stack [OF inv] vis stack_okD(1) [OF tj_invD(1) [OF inv]] by (auto simp: finished_def)
  with tj_invD(7) [OF inv] run show ?thesis by (simp add: tarjan_sccs_def recorded_def)
qed

section \<open>Properties\<close>

text \<open>The dependencies of a graph as a relation; a self-loop changes no component.\<close>

definition depends :: "Edge list \<Rightarrow> (string \<times> string) set" where
  "depends edges = (\<lambda>e. (edge_From e, edge_To e)) ` set edges"

lemma arcs_depends: "arcs (adjacency edges) = depends edges - Id"
  by (force simp: arcs_def adjacency_def depends_def)

lemma scc_depends:
  "scc_of (adjacency edges) x = {y. (x, y) \<in> (depends edges)\<^sup>* \<and> (y, x) \<in> (depends edges)\<^sup>*}"
  by (simp add: scc_of_def arcs_depends rtrancl_r_diff_Id)

lemma scc_outside:
  assumes "x \<notin> set (nodeList edges)"
  shows "scc_of (adjacency edges) x = {x}"
proof -
  have "y = x" if "(x, y) \<in> (arcs (adjacency edges))\<^sup>*" for y
    using that
  proof (cases rule: converse_rtranclE)
    case (step z)
    then obtain e where "e \<in> set edges" "edge_From e = x" "edge_From e \<noteq> edge_To e" by (auto simp: arcs_def adjacency_def)
    with assms show ?thesis by (auto simp: set_nodeList)
  qed simp
  then show ?thesis by (auto simp: scc_of_def)
qed

lemma detectCycles_components:
  "set (map (\<lambda>f. set (sf_Modules f)) (detectCycles edges domainSet)) =
     {C. (\<exists>x. C = {y. (x, y) \<in> (depends edges)\<^sup>* \<and> (y, x) \<in> (depends edges)\<^sup>*}) \<and> card C > 1} \<and>
   distinct (map (\<lambda>f. set (sf_Modules f)) (detectCycles edges domainSet)) \<and>
   (\<forall>f \<in> set (detectCycles edges domainSet). sorted_wrt (<) (sf_Modules f) \<and> sf_Kind f = ''cycle'' \<and>
      sf_Severity f = (if (\<exists>m \<in> set (sf_Modules f). domainSet m) \<or> card (set (sf_Modules f)) \<ge> 3
                       then ''high'' else ''medium''))"
proof -
  from tarjan_sccs_correct [of edges] obtain sccs where run: "tarjan_sccs edges = Some sccs"
    and dist: "distinct (map set sccs)" and sorted: "\<forall>l \<in> set sccs. sorted_wrt (<) l"
    and sets: "set (map set sccs) = {C. \<exists>x \<in> set (nodeList edges). C = scc_of (adjacency edges) x \<and> card C > 1}"
    by blast
  have mods: "map (\<lambda>f. set (sf_Modules f)) (detectCycles edges domainSet) = map set sccs"
    by (simp add: detectCycles_def run cycle_finding_def)
  have "{C. \<exists>x \<in> set (nodeList edges). C = scc_of (adjacency edges) x \<and> card C > 1} =
      {C. (\<exists>x. C = scc_of (adjacency edges) x) \<and> card C > 1}"
    using scc_outside by fastforce
  moreover have "\<forall>f \<in> set (detectCycles edges domainSet). sorted_wrt (<) (sf_Modules f) \<and> sf_Kind f = ''cycle'' \<and>
      sf_Severity f = (if (\<exists>m \<in> set (sf_Modules f). domainSet m) \<or> card (set (sf_Modules f)) \<ge> 3 then ''high'' else ''medium'')"
  proof
    fix f assume "f \<in> set (detectCycles edges domainSet)"
    then obtain l where l: "l \<in> set sccs" "f = cycle_finding domainSet l" by (auto simp: detectCycles_def run)
    then have "sorted_wrt (<) l" using sorted by blast
    then have "card (set l) = length l" by (intro distinct_card) (simp add: strict_sorted_iff)
    with \<open>sorted_wrt (<) l\<close> show "sorted_wrt (<) (sf_Modules f) \<and> sf_Kind f = ''cycle'' \<and>
      sf_Severity f = (if (\<exists>m \<in> set (sf_Modules f). domainSet m) \<or> card (set (sf_Modules f)) \<ge> 3 then ''high'' else ''medium'')"
      by (simp add: l(2) cycle_finding_def)
  qed
  ultimately show ?thesis unfolding mods using dist sets by (simp only: scc_depends)
qed

text \<open>
  C36. The cycle findings are exactly the cycles: detectCycles reports every strongly connected component of at
  least two modules of the dependency graph, each once, and nothing else; the modules of a finding are sorted
  without repetition, and its severity is high exactly when it has a domain module or at least three modules.
\<close>
theorem detectCycles_finds_components:
  "set (map (\<lambda>f. set (sf_Modules f)) (detectCycles edges domainSet)) =
     {C. (\<exists>x. C = {y. (x, y) \<in> (depends edges)\<^sup>* \<and> (y, x) \<in> (depends edges)\<^sup>*}) \<and> card C > 1} \<and>
   distinct (map (\<lambda>f. set (sf_Modules f)) (detectCycles edges domainSet)) \<and>
   (\<forall>f \<in> set (detectCycles edges domainSet). sorted_wrt (<) (sf_Modules f) \<and> sf_Kind f = ''cycle'' \<and>
      sf_Severity f = (if (\<exists>m \<in> set (sf_Modules f). domainSet m) \<or> card (set (sf_Modules f)) \<ge> 3
                       then ''high'' else ''medium''))"
  by (rule detectCycles_components)

definition import_cycle :: "Edge list" where
  "import_cycle =
     [\<lparr> edge_From = ''a'', edge_To = ''b'', edge_Weight = 1 \<rparr>, \<lparr> edge_From = ''b'', edge_To = ''c'', edge_Weight = 1 \<rparr>,
      \<lparr> edge_From = ''b'', edge_To = ''a'', edge_Weight = 1 \<rparr>, \<lparr> edge_From = ''c'', edge_To = ''c'', edge_Weight = 1 \<rparr>]"

theorem detectCycles_finds_components_witness:
  "{''a'', ''b''} \<in> {C. (\<exists>x. C = {y. (x, y) \<in> (depends import_cycle)\<^sup>* \<and> (y, x) \<in> (depends import_cycle)\<^sup>*}) \<and> card C > 1}"
proof -
  have "map sf_Modules (detectCycles import_cycle (\<lambda>_. False)) = [[''a'', ''b'']]" by code_simp
  then have "map set (map sf_Modules (detectCycles import_cycle (\<lambda>_. False))) = [{''a'', ''b''}]" by simp
  then have "{''a'', ''b''} \<in> set (map (\<lambda>f. set (sf_Modules f)) (detectCycles import_cycle (\<lambda>_. False)))"
    by (simp only: map_map comp_def) simp
  then show ?thesis using detectCycles_finds_components [of import_cycle "\<lambda>_. False"] by (simp only:)
qed

end
