(* ===== verification/Go_Float.thy ===== *)
theory Go_Float
  imports Prelude
begin

text \<open>
  Go's \<^verbatim>\<open>float64\<close> arithmetic on rational numbers: an operation is the exact operation followed by the
  rounding of IEEE 754 to the nearest number with a significand of 53 bits, ties to the even one. The exponent
  is not bounded: the values of the sources are ratios of counts and percentages, far from overflow and from
  the subnormal numbers. Also \<^verbatim>\<open>math.Round\<close>, which rounds half away from zero, and the \<^verbatim>\<open>%.0f\<close> verb, which
  rounds half to even.
\<close>

section \<open>Rounding to an integer\<close>

definition round_even :: "rat \<Rightarrow> int" where
  "round_even x =
     (let f = \<lfloor>x\<rfloor>; d = x - of_int f
      in if d < 1 / 2 then f else if d > 1 / 2 then f + 1 else if even f then f else f + 1)"

definition math_Round :: "rat \<Rightarrow> int" where
  "math_Round x = (if x < 0 then - \<lfloor>1 / 2 - x\<rfloor> else \<lfloor>x + 1 / 2\<rfloor>)"

text \<open>The text of a number that is not negative.\<close>

definition fmt_f0 :: "rat \<Rightarrow> string" where
  "fmt_f0 x = Itoa (round_even x)"

lemma round_even_floor: "\<lfloor>x\<rfloor> \<le> round_even x" "round_even x \<le> \<lfloor>x\<rfloor> + 1"
  by (simp_all add: round_even_def Let_def)

lemma round_even_int [simp]: "round_even (of_int n) = n"
  by (simp add: round_even_def Let_def)

lemma round_even_mono: "x \<le> y \<Longrightarrow> round_even x \<le> round_even y"
proof -
  assume le: "x \<le> y"
  then have "\<lfloor>x\<rfloor> \<le> \<lfloor>y\<rfloor>" by (rule floor_mono)
  then consider "\<lfloor>x\<rfloor> + 1 \<le> \<lfloor>y\<rfloor>" | "\<lfloor>x\<rfloor> = \<lfloor>y\<rfloor>" by linarith
  then show ?thesis
  proof cases
    case 1
    then show ?thesis using round_even_floor(2) [of x] round_even_floor(1) [of y] by linarith
  next
    case 2
    then show ?thesis using le by (auto simp: round_even_def Let_def)
  qed
qed

lemma math_Round_mono: "x \<le> y \<Longrightarrow> math_Round x \<le> math_Round y"
proof -
  assume le: "x \<le> y"
  have "math_Round x \<le> 0" if "x < 0" using that by (simp add: math_Round_def le_floor_iff)
  moreover have "0 \<le> math_Round y" if "\<not> y < 0" using that by (simp add: math_Round_def le_floor_iff)
  moreover have "math_Round x \<le> math_Round y" if "x < 0" "\<not> y < 0"
    using calculation(1) [OF that(1)] calculation(2) [OF that(2)] by linarith
  moreover have "\<lfloor>x + 1 / 2\<rfloor> \<le> \<lfloor>y + 1 / 2\<rfloor>" and "\<lfloor>1 / 2 - y\<rfloor> \<le> \<lfloor>1 / 2 - x\<rfloor>"
    using le by (simp_all add: floor_mono)
  ultimately show ?thesis using le by (cases "x < 0"; cases "y < 0") (simp_all add: math_Round_def)
qed

lemma math_Round_int [simp]: "math_Round (of_int n) = n"
proof -
  have "\<lfloor>(of_int n :: rat) + 1 / 2\<rfloor> = n" and "\<lfloor>1 / 2 - (of_int n :: rat)\<rfloor> = - n" by linarith+
  then show ?thesis by (simp add: math_Round_def)
qed

section \<open>Rounding to a significand of 53 bits\<close>

function bit_len :: "int \<Rightarrow> nat" where
  "bit_len n = (if n \<le> 0 then 0 else Suc (bit_len (n div 2)))"
  by pat_completeness auto
termination
  by (relation "measure nat") auto

declare bit_len.simps [simp del]

text \<open>The exponent of the leading binary digit of a positive number.\<close>

definition exponent :: "rat \<Rightarrow> int" where
  "exponent x =
     (let (p, q) = quotient_of x; e = int (bit_len p) - int (bit_len q)
      in if 2 powi e \<le> x then e else e - 1)"

definition fl64_pos :: "rat \<Rightarrow> rat" where
  "fl64_pos x = (let ulp = 2 powi (exponent x - 52) in of_int (round_even (x / ulp)) * ulp)"

definition fl64 :: "rat \<Rightarrow> rat" where
  "fl64 x = (if x = 0 then 0 else if x < 0 then - fl64_pos (- x) else fl64_pos x)"

lemma bit_len_bounds: "n > 0 \<Longrightarrow> 2 ^ (bit_len n - 1) \<le> n \<and> n < 2 ^ bit_len n"
proof (induction n rule: bit_len.induct)
  case (1 n)
  show ?case
  proof (cases "n div 2 = 0")
    case True
    with 1 have "n = 1" by presburger
    then show ?thesis by (simp add: bit_len.simps)
  next
    case False
    with 1 have "n div 2 > 0" by presburger
    with 1 have IH: "2 ^ (bit_len (n div 2) - 1) \<le> n div 2" "n div 2 < 2 ^ bit_len (n div 2)" by simp_all
    have pos: "bit_len (n div 2) > 0" using \<open>n div 2 > 0\<close> by (simp add: bit_len.simps [of "n div 2"])
    have "bit_len n = Suc (bit_len (n div 2))" using 1 by (simp add: bit_len.simps [of n])
    moreover have "(2 :: int) ^ bit_len (n div 2) = 2 * 2 ^ (bit_len (n div 2) - 1)" using pos by (metis Suc_diff_1 power_Suc)
    moreover have "2 * k \<le> n \<and> n < 2 * (2 * k)" if "k \<le> n div 2" and "n div 2 < 2 * k" for k
      using that by linarith
    ultimately show ?thesis using IH by simp
  qed
qed

lemma bit_len_rat:
  assumes "n > 0"
  shows "(2 :: rat) powi (int (bit_len n) - 1) \<le> of_int n" and "of_int n < (2 :: rat) powi int (bit_len n)"
proof -
  let ?a = "bit_len n"
  have b: "2 ^ (?a - 1) \<le> n" "n < 2 ^ ?a" using bit_len_bounds [OF assms] by auto
  have "?a > 0" using assms by (simp add: bit_len.simps)
  then have "int ?a - 1 = int (?a - 1)" by simp
  from b(1) have "(of_int (2 ^ (?a - 1)) :: rat) \<le> of_int n" by (simp only: of_int_le_iff)
  then show "(2 :: rat) powi (int ?a - 1) \<le> of_int n" by (simp add: \<open>int ?a - 1 = int (?a - 1)\<close>)
  from b(2) have "(of_int n :: rat) < of_int (2 ^ ?a)" by (simp only: of_int_less_iff)
  then show "of_int n < (2 :: rat) powi int ?a" by simp
qed

lemma exponent_bounds:
  assumes "x > 0"
  shows "2 powi exponent x \<le> x" and "x < 2 powi (exponent x + 1)"
proof -
  obtain p q where pq: "quotient_of x = (p, q)" by fastforce
  have q: "q > 0" and x: "x = of_int p / of_int q" using quotient_of_denom_pos [OF pq] quotient_of_div [OF pq] by simp_all
  with assms have p: "p > 0" by (simp add: zero_less_divide_iff)
  let ?a = "int (bit_len p)" and ?b = "int (bit_len q)"
  have "(2 :: rat) powi (?a - 1) / 2 powi ?b \<le> of_int p / of_int q"
    using bit_len_rat [OF p] bit_len_rat [OF q] p q by (intro frac_le) auto
  then have lo: "2 powi (?a - ?b - 1) \<le> x" by (simp add: x power_int_diff power_int_add)
  have "(of_int p :: rat) / of_int q < 2 powi ?a / 2 powi (?b - 1)"
    using bit_len_rat [OF p] bit_len_rat [OF q] p q by (intro frac_less) auto
  moreover have "(2 :: rat) powi ?a / 2 powi (?b - 1) = 2 powi (?a - ?b + 1)"
    by (simp add: power_int_diff power_int_add)
  ultimately have hi: "x < 2 powi (?a - ?b + 1)" by (simp add: x)
  show "2 powi exponent x \<le> x" and "x < 2 powi (exponent x + 1)"
    using lo hi by (auto simp: exponent_def pq Let_def)
qed

lemma fl64_pos_bounds:
  assumes "x > 0"
  shows "2 powi exponent x \<le> fl64_pos x" and "fl64_pos x \<le> 2 powi (exponent x + 1)"
proof -
  let ?u = "(2 :: rat) powi (exponent x - 52)"
  have u: "?u > 0" by simp
  have lo: "(2 :: rat) powi exponent x = of_int (2 ^ 52) * ?u" and hi: "(2 :: rat) powi (exponent x + 1) = of_int (2 ^ 53) * ?u"
    by (simp_all add: power_int_diff power_int_add)
  have "of_int (2 ^ 52) \<le> x / ?u" and "x / ?u \<le> of_int (2 ^ 53)"
    using exponent_bounds [OF assms] u by (simp_all only: lo hi pos_le_divide_eq pos_divide_le_eq less_imp_le)
  then have "2 ^ 52 \<le> round_even (x / ?u)" and "round_even (x / ?u) \<le> 2 ^ 53"
    using round_even_mono round_even_int by metis+
  then have "(of_int (2 ^ 52) :: rat) \<le> of_int (round_even (x / ?u))" and "of_int (round_even (x / ?u)) \<le> (of_int (2 ^ 53) :: rat)"
    by (simp_all only: of_int_le_iff)
  then show "2 powi exponent x \<le> fl64_pos x" and "fl64_pos x \<le> 2 powi (exponent x + 1)"
    unfolding fl64_pos_def Let_def lo hi using u by (simp_all only: mult_right_mono less_imp_le)
qed

lemma exponent_mono:
  assumes "0 < x" and "x \<le> y"
  shows "exponent x \<le> exponent y"
proof (rule ccontr)
  assume "\<not> exponent x \<le> exponent y"
  then have "(2 :: rat) powi (exponent y + 1) \<le> 2 powi exponent x" by (intro power_int_increasing) auto
  then show False using exponent_bounds(1) [OF assms(1)] exponent_bounds(2) [of y] assms by simp
qed

lemma fl64_pos_mono:
  assumes "0 < x" and "x \<le> y"
  shows "fl64_pos x \<le> fl64_pos y"
proof (cases "exponent x = exponent y")
  case True
  let ?u = "(2 :: rat) powi (exponent y - 52)"
  have "x / ?u \<le> y / ?u" using assms(2) by (intro divide_right_mono) simp_all
  then have "round_even (x / ?u) \<le> round_even (y / ?u)" by (rule round_even_mono)
  then have "(of_int (round_even (x / ?u)) :: rat) \<le> of_int (round_even (y / ?u))" by (simp only: of_int_le_iff)
  then show ?thesis unfolding fl64_pos_def Let_def True by (intro mult_right_mono) simp_all
next
  case False
  with exponent_mono [OF assms] have "exponent x + 1 \<le> exponent y" by simp
  then have "(2 :: rat) powi (exponent x + 1) \<le> 2 powi exponent y" by (intro power_int_increasing) auto
  with fl64_pos_bounds(2) [OF assms(1)] fl64_pos_bounds(1) [of y] assms show ?thesis by (meson less_le_trans order_trans)
qed

lemma fl64_pos_positive: "0 < x \<Longrightarrow> 0 < fl64_pos x"
  using fl64_pos_bounds(1) [of x] by (meson less_le_trans zero_less_numeral zero_less_power_int)

lemma fl64_0 [simp]: "fl64 0 = 0"
  by (simp add: fl64_def)

lemma fl64_mono: "x \<le> y \<Longrightarrow> fl64 x \<le> fl64 y"
  using fl64_pos_mono [of x y] fl64_pos_mono [of "- y" "- x"] fl64_pos_positive [of y] fl64_pos_positive [of "- x"]
  by (auto simp: fl64_def)

lemma fl64_nonneg: "0 \<le> x \<Longrightarrow> 0 \<le> fl64 x"
  using fl64_mono [of 0 x] by simp

lemma fl64_nonpos: "x \<le> 0 \<Longrightarrow> fl64 x \<le> 0"
  using fl64_mono [of x 0] by simp

lemma fl64_le_1: "x \<le> 1 \<Longrightarrow> fl64 x \<le> 1"
proof -
  have "fl64 1 = 1" by code_simp
  then show "x \<le> 1 \<Longrightarrow> fl64 x \<le> 1" using fl64_mono [of x 1] by simp
qed

text \<open>The relative error of a rounding: half a unit in the last of 53 binary places.\<close>

lemma round_even_error: "\<bar>of_int (round_even x) - x\<bar> \<le> 1 / 2"
proof -
  have f: "of_int \<lfloor>x\<rfloor> \<le> x" "x < of_int \<lfloor>x\<rfloor> + 1" by linarith+
  consider "x - of_int \<lfloor>x\<rfloor> < 1 / 2" | "x - of_int \<lfloor>x\<rfloor> = 1 / 2" | "x - of_int \<lfloor>x\<rfloor> > 1 / 2" by linarith
  then show ?thesis
  proof cases
    case 1
    then show ?thesis using f by (simp add: round_even_def Let_def abs_le_iff)
  next
    case 2
    then show ?thesis by (simp add: round_even_def Let_def abs_le_iff)
  next
    case 3
    then have "round_even x = \<lfloor>x\<rfloor> + 1" by (simp add: round_even_def Let_def)
    then have "of_int (round_even x) = of_int \<lfloor>x\<rfloor> + (1 :: rat)" by simp
    with 3 f show ?thesis by (simp only: abs_le_iff) linarith
  qed
qed

lemma fl64_pos_error:
  assumes "0 < x"
  shows "\<bar>fl64_pos x - x\<bar> \<le> x / 2 ^ 53"
proof -
  let ?u = "(2 :: rat) powi (exponent x - 52)"
  have u: "?u > 0" by simp
  have "\<bar>fl64_pos x - x\<bar> = \<bar>of_int (round_even (x / ?u)) - x / ?u\<bar> * ?u"
  proof -
    have "fl64_pos x - x = (of_int (round_even (x / ?u)) - x / ?u) * ?u"
      using u by (simp add: fl64_pos_def Let_def left_diff_distrib)
    with u show ?thesis by (simp add: abs_mult)
  qed
  also have "\<dots> \<le> 1 / 2 * ?u" using round_even_error [of "x / ?u"] u by (intro mult_right_mono) simp_all
  also have "\<dots> = 2 powi exponent x / 2 ^ 53" by (simp add: power_int_diff)
  also have "\<dots> \<le> x / 2 ^ 53" using exponent_bounds(1) [OF assms] by (intro divide_right_mono) simp_all
  finally show ?thesis .
qed

end
