(* ===== verification/Scorer.thy ===== *)
theory Scorer
  imports Digest Cycles Go_Float
begin

text \<open>
  The deterministic migrability score (\<^verbatim>\<open>worker/decomposition/application/scorer.go\<close>, \<^verbatim>\<open>domain/score.go\<close>):
  five penalties over a digest, the band, the structural findings and the typed blockers. The ratios are
  \<^verbatim>\<open>float64\<close> numbers, rounded by \<open>fl64\<close> after every operation.
\<close>

section \<open>The penalties\<close>

definition godFunctionThreshold :: nat where "godFunctionThreshold = 20"

definition clamp01 :: "rat \<Rightarrow> rat" where
  "clamp01 x = (if x < 0 then 0 else if x > 1 then 1 else x)"

definition domainPresencePenalty :: "rat \<Rightarrow> int" where
  "domainPresencePenalty ratio =
     math_Round (fl64 (40 * clamp01 (fl64 (fl64 (fl64 (3 / 10) - ratio) / fl64 (3 / 10)))))"

text \<open>The quotient of the worst hub; the denominator is an unsigned 32-bit sum, and \<open>None\<close> is the infinite
  quotient of a sum that wraps around to zero.\<close>

definition hub_ratio :: "u32 \<Rightarrow> nat \<Rightarrow> rat option" where
  "hub_ratio fanIn totalNodes =
     (let d = of_nat totalNodes + fanIn
      in if d = 0 then None else Some (fl64 (of_nat (unat fanIn) / of_nat (unat d))))"

definition at_least :: "rat option \<Rightarrow> rat \<Rightarrow> bool" where
  "at_least r c \<longleftrightarrow> (case r of None \<Rightarrow> True | Some x \<Rightarrow> x \<ge> c)"

definition hubSeverityPenalty :: "rat option \<Rightarrow> int" where
  "hubSeverityPenalty hubRatio =
     (if at_least hubRatio (fl64 (1 / 2)) then math_Round 20
      else if at_least hubRatio (fl64 (3 / 10))
      then math_Round (fl64 (12 + fl64 (fl64 (fl64 (the hubRatio - fl64 (3 / 10)) / fl64 (1 / 5)) * 8)))
      else math_Round (fl64 (fl64 (the hubRatio / fl64 (3 / 10)) * 12)))"

section \<open>The signals\<close>

definition percent :: "rat option \<Rightarrow> string" where
  "percent r = (case r of None \<Rightarrow> ''+Inf'' | Some x \<Rightarrow> fmt_f0 (fl64 (x * 100)))"

definition godModules :: "AnalysisDigest \<Rightarrow> string list" where
  "godModules d =
     map dmc_Module (filter (\<lambda>c. length (dmc_Functions c) \<ge> godFunctionThreshold \<and> dmc_IsSharedStateHub c)
       (dg_ModuleCards d))"

definition score_signal :: "string \<Rightarrow> int \<Rightarrow> string \<Rightarrow> string list \<Rightarrow> string \<Rightarrow> string_map \<Rightarrow> ScoreSignal" where
  "score_signal signal p detail modules key params =
     \<lparr> sig_Signal = signal, sig_Penalty = p, sig_Detail = detail, sig_Modules = modules, sig_DetailKey = key,
       sig_DetailParams = params \<rparr>"

definition domain_signal :: "DigestClassification \<Rightarrow> ScoreSignal" where
  "domain_signal c =
     (if dcl_DomainEmpty c
      then score_signal ''domain_presence'' 40
             (''no domain modules detected '' @ em_dash @ '' automatic decomposition is structurally blocked'') []
             ''signal.domain_presence.blocked'' []
      else let n = length (dcl_DomainModules c) + length (dcl_InfraModules c)
           in if n = 0 then score_signal ''domain_presence'' 0 [] [] [] []
              else let ratio = fl64 (of_nat (length (dcl_DomainModules c)) / of_nat n);
                       pct = fmt_f0 (fl64 (ratio * 100));
                       p = domainPresencePenalty ratio
                   in if ratio < fl64 (15 / 100)
                      then score_signal ''domain_presence'' p
                             (''domain ratio '' @ pct @ ''% '' @ em_dash @ '' very few domain modules relative to infrastructure'')
                             [] ''signal.domain_presence.very_low'' [(''ratio'', pct)]
                      else if ratio < fl64 (3 / 10)
                      then score_signal ''domain_presence'' p
                             (''domain ratio '' @ pct @ ''% '' @ em_dash @ '' low domain-to-infra ratio'')
                             [] ''signal.domain_presence.low'' [(''ratio'', pct)]
                      else score_signal ''domain_presence'' p (''domain ratio '' @ pct @ ''%'') []
                             ''signal.domain_presence.ok'' [(''ratio'', pct)])"

definition cluster_signal :: "nat \<Rightarrow> ScoreSignal" where
  "cluster_signal n =
     (if n = 0
      then score_signal ''cluster_count'' 25
             (''no service boundaries detected '' @ em_dash @ '' monolith cannot be decomposed as-is'') []
             ''signal.cluster_count.none'' []
      else if n = 1
      then score_signal ''cluster_count'' 15
             (''single cluster '' @ em_dash @ '' one-service result does not decompose the monolith'') []
             ''signal.cluster_count.one'' []
      else if n = 2
      then score_signal ''cluster_count'' 5 (''two clusters '' @ em_dash @ '' limited decomposition scope'') []
             ''signal.cluster_count.two'' []
      else score_signal ''cluster_count'' 0 (Itoa (int n) @ '' clusters detected'') []
             ''signal.cluster_count.ok'' [(''count'', Itoa (int n))])"

definition hub_signal :: "DigestSharedStateHub list \<Rightarrow> nat \<Rightarrow> ScoreSignal" where
  "hub_signal hubs nodes =
     (case hubs of
        [] \<Rightarrow> score_signal ''hub_severity'' 0 ''no shared-state hubs'' [] ''signal.hub_severity.none'' []
      | worst # _ \<Rightarrow>
          let totalNodes = (if nodes = 0 then 1 else nodes);
              hubRatio = hub_ratio (hub_FanIn worst) totalNodes;
              fanIn = Itoa (uint (hub_FanIn worst));
              p = hubSeverityPenalty hubRatio;
              modules = map hub_Module hubs
          in if at_least hubRatio (fl64 (1 / 2))
             then score_signal ''hub_severity'' p
                    (hub_Module worst @ '' fan-in='' @ fanIn @ '' '' @ em_dash @ '' severe shared-state hub (concentrates '' @
                     percent hubRatio @ ''% of incoming coupling)'') modules ''signal.hub_severity.severe''
                    [(''module'', hub_Module worst), (''fan_in'', fanIn), (''pct'', percent hubRatio)]
             else if at_least hubRatio (fl64 (3 / 10))
             then score_signal ''hub_severity'' p
                    (hub_Module worst @ '' fan-in='' @ fanIn @ '' '' @ em_dash @ '' moderate shared-state hub'') modules
                    ''signal.hub_severity.moderate'' [(''module'', hub_Module worst), (''fan_in'', fanIn)]
             else score_signal ''hub_severity'' p
                    (hub_Module worst @ '' fan-in='' @ fanIn @ '' '' @ em_dash @ '' shared-state hub present'') modules
                    ''signal.hub_severity.minor'' [(''module'', hub_Module worst), (''fan_in'', fanIn)])"

definition god_signal :: "string list \<Rightarrow> ScoreSignal" where
  "god_signal gods =
     (let godCount = length gods;
          p = (if int godCount * 5 > 10 then 10 else int godCount * 5)
      in if godCount = 0
         then score_signal ''god_modules'' p ''no god-modules detected'' gods ''signal.god_modules.none'' []
         else score_signal ''god_modules'' p
                (Itoa (int godCount) @ '' god-module(s): ['' @ strings_Join gods '' '' @ ''] ('' @ geq_sign @
                 Itoa (int godFunctionThreshold) @ '' functions + shared state)'') gods ''signal.god_modules.found''
                [(''count'', Itoa (int godCount)), (''threshold'', Itoa (int godFunctionThreshold))])"

definition routing_signal :: "DigestEntryPoints \<Rightarrow> ScoreSignal" where
  "routing_signal e =
     (let routes = Itoa (int (ep_TotalRoutes e))
      in if ep_SingleBlueprint e \<and> ep_HasHTTPRoutes e
         then score_signal ''routing_layout'' 5
                (''all '' @ routes @ '' routes in a single blueprint '' @ em_dash @ '' no per-domain routing separation'') []
                ''signal.routing_layout.single_blueprint'' [(''routes'', routes)]
         else if ep_HasHTTPRoutes e
         then score_signal ''routing_layout'' 0
                (routes @ '' routes across '' @ Itoa (int (ep_BlueprintCount e)) @ '' blueprints'') []
                ''signal.routing_layout.multiple''
                [(''routes'', routes), (''blueprints'', Itoa (int (ep_BlueprintCount e)))]
         else score_signal ''routing_layout'' 0 ''no HTTP routes detected'' [] ''signal.routing_layout.none'' [])"

definition score_signals :: "AnalysisDigest \<Rightarrow> ScoreSignal list" where
  "score_signals d =
     [domain_signal (dg_Classification d), cluster_signal (length (dg_Clusters d)),
      hub_signal (dg_SharedStateHubs d) (length (dg_Nodes d)), god_signal (godModules d),
      routing_signal (dg_EntryPoints d)]"

section \<open>Findings and blockers\<close>

definition hub_finding :: "DigestSharedStateHub \<Rightarrow> StructuralFinding" where
  "hub_finding hub =
     \<lparr> sf_Kind = ''shared_state'',
       sf_Severity = (if hub_FanIn hub \<ge> 10 then ''high'' else if hub_FanIn hub \<ge> 5 then ''medium'' else ''low''),
       sf_TitleKey = ''finding.shared_state.hub'',
       sf_Params = [(''module'', hub_Module hub), (''state_count'', Itoa (int (length (hub_State hub)))),
                    (''fan_in'', Itoa (uint (hub_FanIn hub)))],
       sf_Modules = [hub_Module hub] \<rparr>"

definition god_finding :: "AnalysisDigest \<Rightarrow> string \<Rightarrow> StructuralFinding" where
  "god_finding d name =
     (let c = find (\<lambda>c. dmc_Module c = name) (dg_ModuleCards d);
          fnCount = (case c of None \<Rightarrow> 0 | Some c \<Rightarrow> length (dmc_Functions c));
          fanIn = (case c of None \<Rightarrow> 0 | Some c \<Rightarrow> dmc_FanIn c)
      in \<lparr> sf_Kind = ''god_module'', sf_Severity = ''high'', sf_TitleKey = ''finding.god_module'',
           sf_Params = [(''module'', name), (''fn_count'', Itoa (int fnCount)), (''fan_in'', Itoa (uint fanIn))],
           sf_Modules = [name] \<rparr>)"

definition topology_finding :: StructuralFinding where
  "topology_finding =
     \<lparr> sf_Kind = ''topology'', sf_Severity = ''medium'', sf_TitleKey = ''finding.topology.no_domain_layer'',
       sf_Params = [], sf_Modules = [] \<rparr>"

definition cycle_findings :: "AnalysisDigest \<Rightarrow> StructuralFinding list" where
  "cycle_findings d = detectCycles (dg_Edges d) (\<lambda>m. m \<in> set (dcl_DomainModules (dg_Classification d)))"

definition score_findings :: "AnalysisDigest \<Rightarrow> StructuralFinding list" where
  "score_findings d =
     map hub_finding (dg_SharedStateHubs d) @ map (god_finding d) (godModules d) @
     (if dcl_DomainEmpty (dg_Classification d) then [topology_finding] else []) @ cycle_findings d"

definition count_blocker :: "string \<Rightarrow> nat \<Rightarrow> TypedBlocker list" where
  "count_blocker key n = (if n > 0 then [\<lparr> tb_BlockerKey = key, tb_Params = [(''count'', Itoa (int n))] \<rparr>] else [])"

definition score_blockers :: "AnalysisDigest \<Rightarrow> TypedBlocker list" where
  "score_blockers d =
     (if dcl_DomainEmpty (dg_Classification d)
      then [\<lparr> tb_BlockerKey = ''blocker.no_domain_layer'', tb_Params = [] \<rparr>] else []) @
     (if dg_Clusters d = [] then [\<lparr> tb_BlockerKey = ''blocker.no_service_boundaries'', tb_Params = [] \<rparr>] else []) @
     count_blocker ''blocker.shared_state''
       (length (filter (\<lambda>f. sf_Kind f = ''shared_state'' \<and> sf_Severity f = ''high'') (score_findings d))) @
     count_blocker ''blocker.god_modules'' (length (godModules d)) @
     count_blocker ''blocker.cycles'' (length (filter (\<lambda>f. sf_Severity f = ''high'') (cycle_findings d)))"

section \<open>The score\<close>

record ScoreResult =
  sres_Value :: int
  sres_Breakdown :: "ScoreSignal list"
  sres_ScoreBand :: string
  sres_StructuralFindings :: "StructuralFinding list"
  sres_TypedBlockers :: "TypedBlocker list"

definition score_band :: "int \<Rightarrow> string" where
  "score_band v = (if v \<ge> 70 then ''good'' else if v \<ge> 40 then ''medium'' else ''bad'')"

definition Score :: "AnalysisDigest \<Rightarrow> ScoreResult" where
  "Score d =
     (let total = 100 - sum_list (map sig_Penalty (score_signals d));
          total = (if total < 0 then 0 else total)
      in \<lparr> sres_Value = total, sres_Breakdown = score_signals d, sres_ScoreBand = score_band total,
           sres_StructuralFindings = score_findings d, sres_TypedBlockers = score_blockers d \<rparr>)"

section \<open>Bounds of the penalties\<close>

lemma clamp01_bounds: "0 \<le> clamp01 x" "clamp01 x \<le> 1"
  by (simp_all add: clamp01_def)

lemma clamp01_mono: "x \<le> y \<Longrightarrow> clamp01 x \<le> clamp01 y"
  by (simp add: clamp01_def)

lemma float_constants:
  "fl64 40 = 40" "fl64 8 = 8" "fl64 20 = 20" "fl64 12 = 12" "fl64 1 = 1" "fl64 (1 / 2) = 1 / 2"
  "0 < fl64 (3 / 10)" "0 < fl64 (1 / 5)" "fl64 (1 / 2 - fl64 (3 / 10)) = fl64 (1 / 5)" "fl64 (3 / 10) < 1 / 2"
  by code_simp+

lemma math_Round_between: "of_int a \<le> x \<Longrightarrow> x \<le> of_int b \<Longrightarrow> a \<le> math_Round x \<and> math_Round x \<le> b"
  using math_Round_mono [of "of_int a" x] math_Round_mono [of x "of_int b"] by simp

lemma fl64_between: "fl64 a = a \<Longrightarrow> fl64 b = b \<Longrightarrow> a \<le> x \<Longrightarrow> x \<le> b \<Longrightarrow> a \<le> fl64 x \<and> fl64 x \<le> b"
  using fl64_mono [of a x] fl64_mono [of x b] by simp

lemma domain_penalty_bounds: "0 \<le> domainPresencePenalty r \<and> domainPresencePenalty r \<le> 40"
proof -
  let ?c = "clamp01 (fl64 (fl64 (fl64 (3 / 10) - r) / fl64 (3 / 10)))"
  have "0 \<le> fl64 (40 * ?c) \<and> fl64 (40 * ?c) \<le> 40"
    using clamp01_bounds by (intro fl64_between) (simp_all add: float_constants)
  then show ?thesis
    unfolding domainPresencePenalty_def using math_Round_between [of 0 "fl64 (40 * ?c)" 40] by simp
qed

lemma domain_penalty_antimono: "r \<le> s \<Longrightarrow> domainPresencePenalty s \<le> domainPresencePenalty r"
  unfolding domainPresencePenalty_def using float_constants(7)
  by (intro math_Round_mono fl64_mono mult_left_mono clamp01_mono divide_right_mono) auto

text \<open>The two ramps of the hub penalty stay in their segments.\<close>

lemma hub_ramp_high:
  assumes "fl64 (3 / 10) \<le> x" and "x \<le> 1 / 2"
  shows "12 \<le> fl64 (12 + fl64 (fl64 (fl64 (x - fl64 (3 / 10)) / fl64 (1 / 5)) * 8))"
    and "fl64 (12 + fl64 (fl64 (fl64 (x - fl64 (3 / 10)) / fl64 (1 / 5)) * 8)) \<le> 20"
proof -
  have "0 \<le> fl64 (x - fl64 (3 / 10)) \<and> fl64 (x - fl64 (3 / 10)) \<le> fl64 (1 / 5)"
    using fl64_mono [of "x - fl64 (3 / 10)" "1 / 2 - fl64 (3 / 10)"] assms by (simp add: fl64_nonneg float_constants)
  then have "0 \<le> fl64 (fl64 (x - fl64 (3 / 10)) / fl64 (1 / 5)) \<and> fl64 (fl64 (x - fl64 (3 / 10)) / fl64 (1 / 5)) \<le> 1"
    using float_constants(8) by (intro fl64_between) (simp_all add: float_constants)
  then have "0 \<le> fl64 (fl64 (fl64 (x - fl64 (3 / 10)) / fl64 (1 / 5)) * 8) \<and>
      fl64 (fl64 (fl64 (x - fl64 (3 / 10)) / fl64 (1 / 5)) * 8) \<le> 8"
    by (intro fl64_between) (simp_all add: float_constants)
  then have "12 \<le> fl64 (12 + fl64 (fl64 (fl64 (x - fl64 (3 / 10)) / fl64 (1 / 5)) * 8)) \<and>
      fl64 (12 + fl64 (fl64 (fl64 (x - fl64 (3 / 10)) / fl64 (1 / 5)) * 8)) \<le> 20"
    by (intro fl64_between) (simp_all add: float_constants)
  then show "12 \<le> fl64 (12 + fl64 (fl64 (fl64 (x - fl64 (3 / 10)) / fl64 (1 / 5)) * 8))"
    and "fl64 (12 + fl64 (fl64 (fl64 (x - fl64 (3 / 10)) / fl64 (1 / 5)) * 8)) \<le> 20" by auto
qed

lemma hub_ramp_low:
  assumes "0 \<le> x" and "x \<le> fl64 (3 / 10)"
  shows "0 \<le> fl64 (fl64 (x / fl64 (3 / 10)) * 12)" and "fl64 (fl64 (x / fl64 (3 / 10)) * 12) \<le> 12"
proof -
  have "0 \<le> fl64 (x / fl64 (3 / 10)) \<and> fl64 (x / fl64 (3 / 10)) \<le> 1"
    using assms float_constants(7) by (intro fl64_between) (simp_all add: float_constants)
  then have "0 \<le> fl64 (fl64 (x / fl64 (3 / 10)) * 12) \<and> fl64 (fl64 (x / fl64 (3 / 10)) * 12) \<le> 12"
    by (intro fl64_between) (simp_all add: float_constants)
  then show "0 \<le> fl64 (fl64 (x / fl64 (3 / 10)) * 12)" and "fl64 (fl64 (x / fl64 (3 / 10)) * 12) \<le> 12" by auto
qed

definition ratio_ok :: "rat option \<Rightarrow> bool" where
  "ratio_ok r \<longleftrightarrow> (case r of None \<Rightarrow> True | Some x \<Rightarrow> 0 \<le> x)"

definition ratio_le :: "rat option \<Rightarrow> rat option \<Rightarrow> bool" where
  "ratio_le r s \<longleftrightarrow> (case s of None \<Rightarrow> True | Some y \<Rightarrow> (case r of None \<Rightarrow> False | Some x \<Rightarrow> x \<le> y))"

lemma hub_ratio_ok: "ratio_ok (hub_ratio f n)"
proof -
  have "0 \<le> fl64 (of_nat (unat f) / of_nat (unat (of_nat n + f)))"
    by (intro fl64_nonneg divide_nonneg_nonneg of_nat_0_le_iff)
  then show ?thesis by (simp add: ratio_ok_def hub_ratio_def Let_def)
qed

lemma hub_penalty_cases:
  assumes "ratio_ok r"
  obtains (severe) "hubSeverityPenalty r = 20" "at_least r (1 / 2)"
    | (moderate) x where "r = Some x" "fl64 (3 / 10) \<le> x" "x < 1 / 2"
        "hubSeverityPenalty r = math_Round (fl64 (12 + fl64 (fl64 (fl64 (x - fl64 (3 / 10)) / fl64 (1 / 5)) * 8)))"
    | (minor) x where "r = Some x" "0 \<le> x" "x < fl64 (3 / 10)"
        "hubSeverityPenalty r = math_Round (fl64 (fl64 (x / fl64 (3 / 10)) * 12))"
proof (cases r)
  case None
  then show ?thesis using math_Round_int [of 20] by (intro severe) (simp_all add: hubSeverityPenalty_def at_least_def)
next
  case (Some x)
  consider "1 / 2 \<le> x" | "fl64 (3 / 10) \<le> x" "x < 1 / 2" | "x < fl64 (3 / 10)" by linarith
  then show ?thesis
  proof cases
    case 1
    then show ?thesis using Some math_Round_int [of 20]
      by (intro severe) (simp_all add: hubSeverityPenalty_def at_least_def float_constants)
  next
    case 2
    then show ?thesis using Some by (intro moderate [of x]) (simp_all add: hubSeverityPenalty_def at_least_def float_constants)
  next
    case 3
    then show ?thesis using Some assms float_constants(10)
      by (intro minor [of x]) (simp_all add: hubSeverityPenalty_def at_least_def float_constants ratio_ok_def)
  qed
qed

lemma hub_penalty_bounds:
  assumes "ratio_ok r"
  shows "0 \<le> hubSeverityPenalty r \<and> hubSeverityPenalty r \<le> 20"
  using assms
proof (cases rule: hub_penalty_cases)
  case (moderate x)
  then show ?thesis using math_Round_between [of 12 _ 20] hub_ramp_high [of x] by fastforce
next
  case (minor x)
  then show ?thesis using math_Round_between [of 0 _ 12] hub_ramp_low [of x] by fastforce
qed simp

lemma hub_penalty_mono:
  assumes "ratio_ok r" and "ratio_ok s" and "ratio_le r s"
  shows "hubSeverityPenalty r \<le> hubSeverityPenalty s"
  using assms(2)
proof (cases rule: hub_penalty_cases)
  case severe
  then show ?thesis using hub_penalty_bounds [OF assms(1)] by simp
next
  case (moderate y)
  have s12: "12 \<le> hubSeverityPenalty s" using moderate math_Round_between [of 12 _ 20] hub_ramp_high [of y] by fastforce
  from assms(1) show ?thesis
  proof (cases rule: hub_penalty_cases)
    case severe
    with moderate assms(3) show ?thesis by (auto simp: ratio_le_def at_least_def split: option.splits)
  next
    case mod_r: (moderate x)
    have "x \<le> y" using assms(3) moderate mod_r by (simp add: ratio_le_def)
    then show ?thesis unfolding moderate(4) mod_r(4) using float_constants(8)
      by (intro math_Round_mono fl64_mono add_left_mono mult_right_mono divide_right_mono) auto
  next
    case (minor x)
    then have "hubSeverityPenalty r \<le> 12" using math_Round_between [of 0 _ 12] hub_ramp_low [of x] by fastforce
    with s12 show ?thesis by simp
  qed
next
  case (minor y)
  then obtain x where x: "r = Some x" "x \<le> y" using assms(3) by (auto simp: ratio_le_def split: option.splits)
  then have "0 \<le> x" "x < fl64 (3 / 10)" using assms(1) minor by (auto simp: ratio_ok_def)
  then have "hubSeverityPenalty r = math_Round (fl64 (fl64 (x / fl64 (3 / 10)) * 12))"
    using x(1) float_constants(10) by (simp add: hubSeverityPenalty_def at_least_def float_constants)
  then show ?thesis unfolding minor(4) using x(2) float_constants(7)
    by (simp only:) (intro math_Round_mono fl64_mono mult_right_mono divide_right_mono, auto)
qed

text \<open>The penalty of every signal, as a function of the digest.\<close>

lemma signal_penalties:
  "sig_Penalty (score_signal n p det m k ps) = p"
  "sig_Penalty (cluster_signal c) = (if c = 0 then 25 else if c = 1 then 15 else if c = 2 then 5 else 0)"
  "sig_Penalty (god_signal gods) = min 10 (int (length gods) * 5)"
  "sig_Penalty (routing_signal e) = (if ep_SingleBlueprint e \<and> ep_HasHTTPRoutes e then 5 else 0)"
  by (simp_all add: score_signal_def cluster_signal_def god_signal_def routing_signal_def Let_def)

lemma domain_signal_penalty:
  "sig_Penalty (domain_signal c) =
     (if dcl_DomainEmpty c then 40
      else let n = length (dcl_DomainModules c) + length (dcl_InfraModules c)
           in if n = 0 then 0 else domainPresencePenalty (fl64 (of_nat (length (dcl_DomainModules c)) / of_nat n)))"
  by (simp add: domain_signal_def Let_def signal_penalties)

lemma hub_signal_penalty:
  "sig_Penalty (hub_signal hubs nodes) =
     (case hubs of [] \<Rightarrow> 0 | worst # _ \<Rightarrow> hubSeverityPenalty (hub_ratio (hub_FanIn worst) (if nodes = 0 then 1 else nodes)))"
  by (simp add: hub_signal_def Let_def signal_penalties split: list.split)

lemma penalty_bounds:
  "0 \<le> sig_Penalty (domain_signal c)" "sig_Penalty (domain_signal c) \<le> 40"
  "0 \<le> sig_Penalty (cluster_signal n)" "sig_Penalty (cluster_signal n) \<le> 25"
  "0 \<le> sig_Penalty (hub_signal hubs nodes)" "sig_Penalty (hub_signal hubs nodes) \<le> 20"
  "0 \<le> sig_Penalty (god_signal gods)" "sig_Penalty (god_signal gods) \<le> 10"
  "0 \<le> sig_Penalty (routing_signal e)" "sig_Penalty (routing_signal e) \<le> 5"
  using domain_penalty_bounds hub_penalty_bounds [OF hub_ratio_ok]
  by (simp_all add: domain_signal_penalty hub_signal_penalty signal_penalties Let_def split: list.split)

lemma score_sum: "sum_list (map sig_Penalty (score_signals d)) \<in> {0..100}"
proof -
  have "sum_list (map sig_Penalty (score_signals d)) =
      sig_Penalty (domain_signal (dg_Classification d)) + sig_Penalty (cluster_signal (length (dg_Clusters d))) +
      sig_Penalty (hub_signal (dg_SharedStateHubs d) (length (dg_Nodes d))) + sig_Penalty (god_signal (godModules d)) +
      sig_Penalty (routing_signal (dg_EntryPoints d))"
    by (simp add: score_signals_def)
  then show ?thesis
    using penalty_bounds(1,2) [of "dg_Classification d"] penalty_bounds(3,4) [of "length (dg_Clusters d)"]
      penalty_bounds(5,6) [of "dg_SharedStateHubs d" "length (dg_Nodes d)"] penalty_bounds(7,8) [of "godModules d"]
      penalty_bounds(9,10) [of "dg_EntryPoints d"]
    unfolding atLeastAtMost_iff by linarith
qed

lemma Score_value: "sres_Value (Score d) = 100 - sum_list (map sig_Penalty (score_signals d))"
  using score_sum [of d] by (simp add: Score_def Let_def)

section \<open>Better digests\<close>

text \<open>Without wrap-around the quotient of a hub is at most one and grows with the fan-in.\<close>

lemma hub_ratio_nowrap:
  assumes "n > 0" and "n + unat f < 2 ^ 32"
  shows "hub_ratio f n = Some (fl64 (of_nat (unat f) / of_nat (n + unat f)))"
proof -
  have u: "unat (of_nat n + f) = n + unat f"
    using assms(2) by (simp add: unat_word_ariths unat_of_nat mod_simps)
  then have "of_nat n + f \<noteq> 0" using assms(1) by (metis add_is_0 less_irrefl unat_0)
  then show ?thesis by (simp only: hub_ratio_def Let_def u if_False)
qed

lemma frac_nat_le:
  assumes "0 < b" and "0 < d" and "a * d \<le> c * b"
  shows "(of_nat a :: rat) / of_nat b \<le> of_nat c / of_nat d"
proof -
  have "(of_nat a :: rat) * of_nat d \<le> of_nat c * of_nat b" using assms(3) by (metis of_nat_le_iff of_nat_mult)
  then show ?thesis using assms(1,2) by (simp add: divide_simps)
qed

lemma no_hub_penalty: "hubSeverityPenalty (Some 0) = 0"
  by code_simp

lemma share_mono: "n > 0 \<Longrightarrow> a \<le> b \<Longrightarrow> (of_nat a :: rat) / of_nat (n + a) \<le> of_nat b / of_nat (n + b)"
proof -
  assume n: "n > 0" and ab: "a \<le> b"
  then have "a * (n + b) \<le> b * (n + a)" by (simp add: distrib_left mult.commute)
  then show ?thesis using n by (intro frac_nat_le) simp_all
qed

text \<open>\<open>worse d d'\<close>: \<open>d'\<close> has at least as many domain modules and clusters, and at most as many infrastructure
  modules, god modules and routing problems, and its worst hub has at most the fan-in.\<close>

definition worst_fan_in :: "AnalysisDigest \<Rightarrow> nat" where
  "worst_fan_in d = (case dg_SharedStateHubs d of [] \<Rightarrow> 0 | h # _ \<Rightarrow> unat (hub_FanIn h))"

definition digest_ok :: "AnalysisDigest \<Rightarrow> bool" where
  "digest_ok d \<longleftrightarrow>
     (dcl_DomainEmpty (dg_Classification d) \<longleftrightarrow> dcl_DomainModules (dg_Classification d) = []) \<and>
     dg_Nodes d \<noteq> [] \<and> length (dg_Nodes d) + worst_fan_in d < 2 ^ 32"

definition worse :: "AnalysisDigest \<Rightarrow> AnalysisDigest \<Rightarrow> bool" where
  "worse d d' \<longleftrightarrow>
     length (dcl_DomainModules (dg_Classification d)) \<le> length (dcl_DomainModules (dg_Classification d')) \<and>
     length (dcl_InfraModules (dg_Classification d')) \<le> length (dcl_InfraModules (dg_Classification d)) \<and>
     length (dg_Clusters d) \<le> length (dg_Clusters d') \<and> length (dg_Nodes d) = length (dg_Nodes d') \<and>
     worst_fan_in d' \<le> worst_fan_in d \<and> length (godModules d') \<le> length (godModules d) \<and>
     (ep_SingleBlueprint (dg_EntryPoints d') \<and> ep_HasHTTPRoutes (dg_EntryPoints d') \<longrightarrow>
      ep_SingleBlueprint (dg_EntryPoints d) \<and> ep_HasHTTPRoutes (dg_EntryPoints d))"

lemma domain_part_mono:
  assumes "dcl_DomainEmpty c \<longleftrightarrow> dcl_DomainModules c = []" and "dcl_DomainEmpty c' \<longleftrightarrow> dcl_DomainModules c' = []"
    and "length (dcl_DomainModules c) \<le> length (dcl_DomainModules c')" and "length (dcl_InfraModules c') \<le> length (dcl_InfraModules c)"
  shows "sig_Penalty (domain_signal c') \<le> sig_Penalty (domain_signal c)"
proof (cases "dcl_DomainModules c = []")
  case True
  then show ?thesis using penalty_bounds(2) [of c'] assms(1) by (simp add: domain_signal_penalty [of c])
next
  case False
  then have ne': "dcl_DomainModules c' \<noteq> []" using assms(3) by auto
  let ?a = "length (dcl_DomainModules c)" and ?b = "length (dcl_DomainModules c')"
  let ?i = "length (dcl_InfraModules c)" and ?j = "length (dcl_InfraModules c')"
  have pos: "0 < ?a + ?i" "0 < ?b + ?j" using False ne' by auto
  have "?a * ?j \<le> ?b * ?i" using assms(3,4) by (intro mult_le_mono)
  then have "?a * (?b + ?j) \<le> ?b * (?a + ?i)" by (simp add: distrib_left mult.commute)
  then have "(of_nat ?a :: rat) / of_nat (?a + ?i) \<le> of_nat ?b / of_nat (?b + ?j)" by (rule frac_nat_le [OF pos])
  then have "domainPresencePenalty (fl64 (of_nat ?b / of_nat (?b + ?j))) \<le> domainPresencePenalty (fl64 (of_nat ?a / of_nat (?a + ?i)))"
    by (intro domain_penalty_antimono fl64_mono)
  then show ?thesis using False ne' assms(1,2) by (simp add: domain_signal_penalty Let_def)
qed

lemma cluster_part_mono: "m \<le> n \<Longrightarrow> sig_Penalty (cluster_signal n) \<le> sig_Penalty (cluster_signal m)"
  by (simp add: signal_penalties)

lemma count_blocker_key: "(\<exists>b \<in> set (count_blocker k n). tb_BlockerKey b = k') \<longleftrightarrow> n > 0 \<and> k = k'"
  by (simp add: count_blocker_def)

lemma bex_image_Collect: "(\<exists>C \<in> {C. (\<exists>x. C = f x) \<and> P C}. B C) \<longleftrightarrow> (\<exists>x. P (f x) \<and> B (f x))"
  by blast

lemma blockers_cycles:
  "(\<exists>b \<in> set (score_blockers d). tb_BlockerKey b = ''blocker.cycles'') \<longleftrightarrow> (\<exists>f \<in> set (cycle_findings d). sf_Severity f = ''high'')"
  unfolding score_blockers_def set_append bex_Un count_blocker_key by (simp add: filter_empty_conv)

lemma hub_part_mono:
  assumes "digest_ok d" and "digest_ok d'" and "worst_fan_in d' \<le> worst_fan_in d" and "length (dg_Nodes d) = length (dg_Nodes d')"
  shows "sig_Penalty (hub_signal (dg_SharedStateHubs d') (length (dg_Nodes d'))) \<le>
    sig_Penalty (hub_signal (dg_SharedStateHubs d) (length (dg_Nodes d)))"
proof (cases "dg_SharedStateHubs d'")
  case Nil
  then show ?thesis using penalty_bounds(5) by (simp add: hub_signal_penalty [of "[]"])
next
  case (Cons h' hs')
  let ?n = "length (dg_Nodes d)"
  have n: "?n > 0" using assms(1) by (simp add: digest_ok_def)
  have p': "sig_Penalty (hub_signal (dg_SharedStateHubs d') (length (dg_Nodes d'))) =
      hubSeverityPenalty (Some (fl64 (of_nat (worst_fan_in d') / of_nat (?n + worst_fan_in d'))))"
    using hub_ratio_nowrap [OF n, of "hub_FanIn h'"] assms(2,4) n Cons
    by (simp add: hub_signal_penalty digest_ok_def worst_fan_in_def)
  show ?thesis
  proof (cases "dg_SharedStateHubs d")
    case Nil
    then have "worst_fan_in d' = 0" using assms(3) by (simp add: worst_fan_in_def)
    then have "sig_Penalty (hub_signal (dg_SharedStateHubs d') (length (dg_Nodes d'))) = 0"
      unfolding p' by (simp add: no_hub_penalty)
    then show ?thesis using penalty_bounds(5) by simp
  next
    case (Cons h hs)
    have p: "sig_Penalty (hub_signal (dg_SharedStateHubs d) (length (dg_Nodes d))) =
        hubSeverityPenalty (Some (fl64 (of_nat (worst_fan_in d) / of_nat (?n + worst_fan_in d))))"
      using hub_ratio_nowrap [OF n, of "hub_FanIn h"] assms(1) n Cons
      by (simp add: hub_signal_penalty digest_ok_def worst_fan_in_def)
    have "ratio_le (Some (fl64 (of_nat (worst_fan_in d') / of_nat (?n + worst_fan_in d'))))
        (Some (fl64 (of_nat (worst_fan_in d) / of_nat (?n + worst_fan_in d))))"
      unfolding ratio_le_def option.case using share_mono [OF n assms(3)] by (rule fl64_mono)
    moreover have "ratio_ok (Some (fl64 (of_nat a / of_nat b)))" for a b
      unfolding ratio_ok_def option.case by (intro fl64_nonneg divide_nonneg_nonneg of_nat_0_le_iff)
    ultimately show ?thesis unfolding p p' by (intro hub_penalty_mono)
  qed
qed

section \<open>Properties\<close>

text \<open>
  C37. The score is in range and accounted for: its value is between 0 and 100 and is exactly 100 minus the
  penalties of its five signals (the clamp at zero never acts), which stay within their maxima 40, 25, 20, 10
  and 5, in \<^verbatim>\<open>float64\<close> arithmetic and for every digest.
\<close>
theorem score_in_range:
  "0 \<le> sres_Value (Score d) \<and> sres_Value (Score d) \<le> 100 \<and>
   sres_Value (Score d) = 100 - sum_list (map sig_Penalty (sres_Breakdown (Score d))) \<and>
   list_all2 (\<lambda>s (name, most). sig_Signal s = name \<and> 0 \<le> sig_Penalty s \<and> sig_Penalty s \<le> most)
     (sres_Breakdown (Score d))
     [(''domain_presence'', 40), (''cluster_count'', 25), (''hub_severity'', 20), (''god_modules'', 10), (''routing_layout'', 5)]"
proof -
  have names: "sig_Signal (domain_signal c) = ''domain_presence''" "sig_Signal (cluster_signal n) = ''cluster_count''"
    "sig_Signal (hub_signal hs n) = ''hub_severity''" "sig_Signal (god_signal gs) = ''god_modules''"
    "sig_Signal (routing_signal e) = ''routing_layout''" for c n hs gs e
    by (simp_all add: domain_signal_def cluster_signal_def hub_signal_def god_signal_def routing_signal_def
        score_signal_def Let_def split: list.split)
  have breakdown: "sres_Breakdown (Score d) = score_signals d" by (simp add: Score_def Let_def)
  then show ?thesis
    using score_sum [of d] by (simp add: Score_value) (simp add: score_signals_def names penalty_bounds)
qed

text \<open>
  A better structure never lowers the score: with at least as many domain modules and clusters, at most
  as much infrastructure, hub fan-in, god modules and routing problems over a graph of the same size, the
  value does not drop, the rounding of \<^verbatim>\<open>float64\<close> included.
\<close>
theorem score_monotone:
  assumes "digest_ok d" and "digest_ok d'" and "worse d d'"
  shows "sres_Value (Score d) \<le> sres_Value (Score d')"
proof -
  have "sig_Penalty (domain_signal (dg_Classification d')) \<le> sig_Penalty (domain_signal (dg_Classification d))"
    using assms by (intro domain_part_mono) (simp_all add: digest_ok_def worse_def)
  moreover have "sig_Penalty (hub_signal (dg_SharedStateHubs d') (length (dg_Nodes d'))) \<le>
      sig_Penalty (hub_signal (dg_SharedStateHubs d) (length (dg_Nodes d)))"
    using assms by (intro hub_part_mono) (simp_all add: worse_def)
  moreover have "sig_Penalty (cluster_signal (length (dg_Clusters d'))) \<le> sig_Penalty (cluster_signal (length (dg_Clusters d)))"
    using assms(3) by (intro cluster_part_mono) (simp add: worse_def)
  moreover have "sig_Penalty (god_signal (godModules d')) \<le> sig_Penalty (god_signal (godModules d))"
    using assms(3) by (simp add: worse_def signal_penalties min_def)
  moreover have "sig_Penalty (routing_signal (dg_EntryPoints d')) \<le> sig_Penalty (routing_signal (dg_EntryPoints d))"
    using assms(3) by (simp add: worse_def signal_penalties)
  ultimately show ?thesis by (simp add: Score_value score_signals_def)
qed

definition small_digest :: "string list \<Rightarrow> u32 \<Rightarrow> AnalysisDigest" where
  "small_digest domain f =
     \<lparr> dg_Technologies = [], dg_Framework = [], dg_Nodes = [''a'', ''b''], dg_Edges = [], dg_Clusters = [],
       dg_NoServiceBoundaries = True, dg_LowConfidence = True, dg_ModuleCards = [], dg_AggregateCard = None,
       dg_TotalModules = 2, dg_SampledModules = 0, dg_Blueprints = [],
       dg_EntryPoints = \<lparr> ep_HasHTTPRoutes = False, ep_TotalRoutes = 0, ep_BlueprintCount = 0, ep_SingleBlueprint = False \<rparr>,
       dg_Classification = \<lparr> dcl_DomainModules = domain, dcl_InfraModules = [], dcl_TestModules = [], dcl_DomainEmpty = (domain = []) \<rparr>,
       dg_SharedStateHubs = [\<lparr> hub_Module = ''b'', hub_State = [], hub_FanIn = f \<rparr>] \<rparr>"

theorem score_monotone_witness:
  "sres_Value (Score (small_digest [] 3)) \<le> sres_Value (Score (small_digest [''a''] 1))"
  by (rule score_monotone) (simp_all add: digest_ok_def worse_def worst_fan_in_def godModules_def small_digest_def)

text \<open>
  The quotient of the worst hub is in the interval from 0 to 1 as long as the number of modules plus the fan-in
  fits in 32 bits; beyond that the sum wraps around and the quotient leaves it: two modules and a fan-in of
  the largest unsigned number give 4294967295.
\<close>
theorem hub_ratio_range:
  "(n > 0 \<and> n + unat f < 2 ^ 32 \<longrightarrow> (\<exists>x. hub_ratio f n = Some x \<and> 0 \<le> x \<and> x \<le> 1)) \<and>
   hub_ratio (- 1) 2 = Some 4294967295"
proof (intro conjI impI)
  assume *: "n > 0 \<and> n + unat f < 2 ^ 32"
  let ?x = "(of_nat (unat f) :: rat) / of_nat (n + unat f)"
  have "0 \<le> ?x" by (intro divide_nonneg_nonneg of_nat_0_le_iff)
  then have "0 \<le> fl64 ?x" by (rule fl64_nonneg)
  moreover have "?x \<le> 1" using frac_nat_le [of "n + unat f" 1 "unat f" 1] * by simp
  then have "fl64 ?x \<le> 1" by (rule fl64_le_1)
  moreover have "hub_ratio f n = Some (fl64 ?x)" using * by (intro hub_ratio_nowrap) simp_all
  ultimately show "\<exists>x. hub_ratio f n = Some x \<and> 0 \<le> x \<and> x \<le> 1" by (intro exI conjI)
next
  have "unat (- 1 :: u32) = 4294967295" "of_nat 2 + (- 1 :: u32) = 1"
    by (simp add: unsigned_minus_1_eq_mask mask_eq_exp_minus_1, simp)
  then have "hub_ratio (- 1) 2 = Some (fl64 (of_nat 4294967295 / of_nat 1))" by (simp add: hub_ratio_def)
  moreover have "fl64 4294967295 = 4294967295" by code_simp
  ultimately show "hub_ratio (- 1) 2 = Some 4294967295" by simp
qed

theorem hub_ratio_range_witness: "\<exists>x. hub_ratio 3 5 = Some x \<and> 0 \<le> x \<and> x \<le> 1"
  using hub_ratio_range [of 5 3] by simp

text \<open>
  The blocker for cycles is raised exactly when the dependency graph has a cycle that matters: a strongly
  connected component of at least two modules with a domain module among them, or of at least three modules.
\<close>
theorem cycle_blocker_iff:
  "(\<exists>b \<in> set (sres_TypedBlockers (Score d)). tb_BlockerKey b = ''blocker.cycles'') \<longleftrightarrow>
   (\<exists>x. let C = {y. (x, y) \<in> (depends (dg_Edges d))\<^sup>* \<and> (y, x) \<in> (depends (dg_Edges d))\<^sup>*}
        in card C > 1 \<and> (card C \<ge> 3 \<or> C \<inter> set (dcl_DomainModules (dg_Classification d)) \<noteq> {}))"
proof -
  let ?scc = "\<lambda>x. {y. (x, y) \<in> (depends (dg_Edges d))\<^sup>* \<and> (y, x) \<in> (depends (dg_Edges d))\<^sup>*}"
  let ?F = "cycle_findings d" and ?dom = "\<lambda>m. m \<in> set (dcl_DomainModules (dg_Classification d))"
  let ?bad = "\<lambda>C. card C \<ge> 3 \<or> C \<inter> set (dcl_DomainModules (dg_Classification d)) \<noteq> {}"
  note comp = detectCycles_components [of "dg_Edges d" ?dom, folded cycle_findings_def]
  have key: "(\<exists>b \<in> set (sres_TypedBlockers (Score d)). tb_BlockerKey b = ''blocker.cycles'') \<longleftrightarrow>
      (\<exists>f \<in> set ?F. sf_Severity f = ''high'')"
    using blockers_cycles [of d] by (simp add: Score_def Let_def)
  have high: "sf_Severity f = ''high'' \<longleftrightarrow> ?bad (set (sf_Modules f))" if "f \<in> set ?F" for f
    using comp that by auto
  have "(\<exists>f \<in> set ?F. ?bad (set (sf_Modules f))) \<longleftrightarrow> (\<exists>C \<in> set (map (\<lambda>f. set (sf_Modules f)) ?F). ?bad C)"
    by auto
  also have "set (map (\<lambda>f. set (sf_Modules f)) ?F) = {C. (\<exists>x. C = ?scc x) \<and> card C > 1}"
    using comp by (rule conjunct1)
  also have "(\<exists>C \<in> {C. (\<exists>x. C = ?scc x) \<and> card C > 1}. ?bad C) \<longleftrightarrow> (\<exists>x. let C = ?scc x in card C > 1 \<and> ?bad C)"
    unfolding Let_def by (rule bex_image_Collect)
  finally have "(\<exists>f \<in> set ?F. ?bad (set (sf_Modules f))) \<longleftrightarrow> (\<exists>x. let C = ?scc x in card C > 1 \<and> ?bad C)" .
  moreover have "(\<exists>f \<in> set ?F. sf_Severity f = ''high'') \<longleftrightarrow> (\<exists>f \<in> set ?F. ?bad (set (sf_Modules f)))"
    by (intro bex_cong refl high)
  ultimately show ?thesis using key by (simp only:)
qed

theorem cycle_blocker_iff_witness:
  "\<exists>x. card {y. (x, y) \<in> (depends import_cycle)\<^sup>* \<and> (y, x) \<in> (depends import_cycle)\<^sup>*} > 1"
proof -
  let ?d = "small_digest [''a''] 1\<lparr>dg_Edges := import_cycle\<rparr>"
  have "map sf_Severity (detectCycles import_cycle (\<lambda>m. m = ''a'')) = [''high'']" by code_simp
  then have "map sf_Severity (cycle_findings ?d) = [''high'']"
    by (simp add: cycle_findings_def small_digest_def)
  then have "\<exists>b \<in> set (sres_TypedBlockers (Score ?d)). tb_BlockerKey b = ''blocker.cycles''"
    using blockers_cycles [of ?d] by (auto simp: Score_def Let_def map_eq_Cons_conv)
  then show ?thesis
    unfolding cycle_blocker_iff [of ?d] Let_def by (auto simp: small_digest_def)
qed

end
