(* ===== verification/Decomposition_Pipeline.thy ===== *)
theory Decomposition_Pipeline
  imports Table_Map Plan_Outcomes Scorer
begin

text \<open>
  The orchestration of the decomposition worker: \<^verbatim>\<open>Pipeline.Run\<close>
  (\<^verbatim>\<open>worker/decomposition/application/pipeline.go\<close>) and the job handler
  (\<^verbatim>\<open>worker/decomposition/jobs/decompose_job.go\<close>). An optional stage is an option; the log is left out. The verdict
  of the assessor is only logged, so the assessor returns no value here.
\<close>

section \<open>Ports\<close>

record JobPayload =
  job_MigrationID :: u64
  job_SummaryID :: u64
  job_RemoteURL :: string
  job_DefaultBranch :: string

record 'w PlanWriter =
  WritePlan :: "u64 \<Rightarrow> RestructurePlan \<Rightarrow> string \<Rightarrow> DataOwnership \<Rightarrow> ('w, unit) io"
  plan_MarkFailed :: "u64 \<Rightarrow> string \<Rightarrow> ('w, unit) io"

record 'w SummaryLoader =
  LoadCards :: "u64 \<Rightarrow> ('w, SummaryCards option) io"
  LoadDeepAnalysisAvailable :: "u64 \<Rightarrow> ('w, bool) io"

type_synonym 'w ContractDeriver =
  "Cluster \<Rightarrow> string \<Rightarrow> (string \<rightharpoonup> string) \<Rightarrow> ('w, DerivedContract) io"

text \<open>The acquirer returns the path of the working copy with the function that removes it; \<open>dp_files\<close> reads the
  files that are there.\<close>

record 'w DecompositionPipeline =
  dp_loader :: "u64 \<Rightarrow> ('w, Graph) io"
  dp_detector :: "Graph \<Rightarrow> ('w, Classification) io"
  dp_clusterer :: "(ClusterInput \<Rightarrow> ('w, ClusteringResult) io) option"
  dp_allocator :: "(string \<Rightarrow> ('w, string) io) option"
  dp_summaryLoader :: "'w SummaryLoader option"
  dp_assessor :: "(AnalysisDigest \<Rightarrow> ScoreResult \<Rightarrow> string \<Rightarrow> ('w, unit) io) option"
  dp_acquirer :: "(string \<Rightarrow> string \<Rightarrow> ('w, string \<times> ('w, unit) state) io) option"
  dp_files :: "('w, files) state"
  dp_deriver :: "'w ContractDeriver option"
  dp_planWriter :: "'w PlanWriter option"
  dp_artifactStore :: "(u64 \<Rightarrow> design_artifact list \<Rightarrow> ('w, unit) io) option"

section \<open>The stages that cannot fail a job\<close>

definition stage_digest ::
  "'w DecompositionPipeline \<Rightarrow> u64 \<Rightarrow> Graph \<Rightarrow> Classification \<Rightarrow> ClusteringResult \<Rightarrow> ('w, AnalysisDigest option) state" where
  "stage_digest p summaryID graph cls clusterResult =
     (case dp_summaryLoader p of
        None \<Rightarrow> State_Monad.return None
      | Some sl \<Rightarrow> State_Monad.bind (LoadCards sl summaryID) (\<lambda>r. case r of
            Inl loadErr \<Rightarrow> State_Monad.return None
          | Inr summaryData \<Rightarrow>
              State_Monad.return (Some (Distill graph (Some cls) (Some clusterResult) summaryData 0))))"

definition deep_analysis_available :: "'w DecompositionPipeline \<Rightarrow> u64 \<Rightarrow> ('w, bool) state" where
  "deep_analysis_available p summaryID =
     (case dp_summaryLoader p of
        None \<Rightarrow> State_Monad.return True
      | Some sl \<Rightarrow> State_Monad.bind (LoadDeepAnalysisAvailable sl summaryID)
                     (\<lambda>r. State_Monad.return (case r of Inl availErr \<Rightarrow> True | Inr a \<Rightarrow> a)))"

definition stage_assess :: "'w DecompositionPipeline \<Rightarrow> u64 \<Rightarrow> AnalysisDigest option \<Rightarrow> ('w, unit) state" where
  "stage_assess p summaryID digest =
     (case dp_assessor p of
        None \<Rightarrow> State_Monad.return ()
      | Some assess \<Rightarrow> (case digest of
            None \<Rightarrow> State_Monad.return ()
          | Some d \<Rightarrow> State_Monad.bind (deep_analysis_available p summaryID) (\<lambda>available.
              if \<not> available then State_Monad.return ()
              else io_ignore (assess d (Score d) ''en'') (State_Monad.return ()))))"

text \<open>Stage 5: a cluster whose contract cannot be derived is left out.\<close>

fun derive_contracts ::
  "'w ContractDeriver \<Rightarrow> string \<Rightarrow> (string \<rightharpoonup> string) \<Rightarrow> Cluster list \<Rightarrow> ('w, DerivedContract list) state" where
  "derive_contracts derive workspacePath tableServiceMap [] = State_Monad.return []"
| "derive_contracts derive workspacePath tableServiceMap (c # cs) =
     State_Monad.bind (derive c workspacePath tableServiceMap) (\<lambda>r.
     State_Monad.bind (derive_contracts derive workspacePath tableServiceMap cs) (\<lambda>contracts.
       State_Monad.return (case r of Inl err \<Rightarrow> contracts | Inr contract \<Rightarrow> contract # contracts)))"

definition upsert_artifacts ::
  "'w DecompositionPipeline \<Rightarrow> u64 \<Rightarrow> design_artifact list \<Rightarrow> ('w, unit) io" where
  "upsert_artifacts p migrationID artifacts =
     (case dp_artifactStore p of
        None \<Rightarrow> io_ok ()
      | Some upsert \<Rightarrow> io_ignore (upsert migrationID artifacts) (io_ok ()))"

section \<open>Run\<close>

text \<open>Stages 1 to 3 with the guardrail: the graph, the subgraph of the domain as it was clustered, the
  classification and the clusters that are left. \<open>None\<close> is the early return of a pipeline without a clusterer.\<close>

definition load_and_cluster ::
  "'w DecompositionPipeline \<Rightarrow> JobPayload \<Rightarrow> ('w, (Graph \<times> Graph \<times> Classification \<times> ClusteringResult) option) io" where
  "load_and_cluster p job =
     io_bind (io_wrap ''stage 1 (graph-load): '' (dp_loader p (job_SummaryID job))) (\<lambda>graph.
     io_bind (io_wrap ''stage 2 (infra-detect): '' (dp_detector p graph)) (\<lambda>cls.
     case dp_clusterer p of
       None \<Rightarrow> io_ok None
     | Some cluster \<Rightarrow>
         let domainGraph = DomainSubgraph graph (cl_Domain cls);
             input = \<lparr> ci_DomainGraph = domainGraph, ci_DomainModules = cl_Domain cls,
                       ci_StructuralFallback = cl_StructuralFallback cls \<rparr>
         in io_bind (io_wrap ''stage 3 (cluster): '' (cluster input)) (\<lambda>clusterResult.
            let (fired, cls', clusterResult') = ApplyCoherenceGuardrail cls clusterResult domainGraph
            in io_ok (Some (graph, domainGraph, cls', clusterResult')))))"

definition write_no_boundaries ::
  "'w DecompositionPipeline \<Rightarrow> JobPayload \<Rightarrow> ClusteringResult \<Rightarrow> ('w, unit) io" where
  "write_no_boundaries p job clusterResult =
     (case dp_planWriter p of
        None \<Rightarrow> io_ok ()
      | Some pw \<Rightarrow>
          let none = \<lparr> do_SharedDatabase = False, do_CrossServiceFKs = [], do_OperationalCouplings = [] \<rparr>
          in io_wrap ''stage 7 (plan-write, no-boundaries): ''
               (WritePlan pw (job_MigrationID job) (assemblePlan [] none (Some clusterResult)) [] none))"

definition write_design ::
  "'w DecompositionPipeline \<Rightarrow> JobPayload \<Rightarrow> ServiceCandidate list \<Rightarrow> ClusteringResult \<Rightarrow> string \<Rightarrow>
   DerivedContract list \<Rightarrow> ('w, unit) io" where
  "write_design p job candidates clusterResult workspacePath contracts =
     (case dp_planWriter p of
        None \<Rightarrow> io_ok ()
      | Some pw \<Rightarrow>
          let ownership = analyzeDataOwnership candidates contracts;
              candidates' = augmentDataDeps candidates (do_CrossServiceFKs ownership);
              plan = assemblePlan candidates' ownership (Some clusterResult)
          in io_bind (io_wrap ''stage 7 (plan-write): ''
                        (WritePlan pw (job_MigrationID job) plan workspacePath ownership)) (\<lambda>_.
             upsert_artifacts p (job_MigrationID job) (buildArtifacts plan contracts ownership candidates')))"

text \<open>A deferred function runs after the body, whatever its result.\<close>

definition with_defer :: "('w, unit) state \<Rightarrow> ('w, 'a) state \<Rightarrow> ('w, 'a) state" where
  "with_defer cleanup body = State_Monad.bind body (\<lambda>r. State_Monad.bind cleanup (\<lambda>_. State_Monad.return r))"

definition design_services ::
  "'w DecompositionPipeline \<Rightarrow> JobPayload \<Rightarrow> ServiceCandidate list \<Rightarrow> ClusteringResult \<Rightarrow> ('w, unit) io" where
  "design_services p job candidates clusterResult =
     (case dp_acquirer p of
        None \<Rightarrow> io_ok ()
      | Some acquire \<Rightarrow> (case dp_deriver p of
            None \<Rightarrow> io_ok ()
          | Some derive \<Rightarrow>
              io_bind (io_wrap ''stage 5 (workspace-acquire): ''
                         (acquire (job_RemoteURL job) (job_DefaultBranch job))) (\<lambda>(workspacePath, cleanupWS).
              with_defer cleanupWS
                (State_Monad.bind (dp_files p) (\<lambda>fs.
                 State_Monad.bind (derive_contracts derive workspacePath
                   (buildTableServiceMap fs workspacePath (cr_Clusters clusterResult)) (cr_Clusters clusterResult)) (\<lambda>contracts.
                   write_design p job candidates clusterResult workspacePath contracts))))))"

definition characterize_and_design ::
  "'w DecompositionPipeline \<Rightarrow> JobPayload \<Rightarrow> Graph \<Rightarrow> ClusteringResult \<Rightarrow> ('w, unit) io" where
  "characterize_and_design p job domainGraph clusterResult =
     (case dp_allocator p of
        None \<Rightarrow> io_ok ()
      | Some allocate \<Rightarrow>
          io_bind (io_wrap ''stage 4 (characterize): ''
                     (characterize allocate domainGraph (cr_Clusters clusterResult))) (\<lambda>candidates.
            if candidates = [] then write_no_boundaries p job clusterResult
            else design_services p job candidates clusterResult))"

definition pipeline_Run :: "'w DecompositionPipeline \<Rightarrow> JobPayload \<Rightarrow> ('w, unit) io" where
  "pipeline_Run p job =
     io_bind (load_and_cluster p job) (\<lambda>r. case r of
       None \<Rightarrow> io_ok ()
     | Some (graph, domainGraph, cls, clusterResult) \<Rightarrow>
         State_Monad.bind (stage_digest p (job_SummaryID job) graph cls clusterResult) (\<lambda>digest.
         State_Monad.bind (stage_assess p (job_SummaryID job) digest) (\<lambda>_.
           characterize_and_design p job domainGraph clusterResult)))"

definition pipeline_MarkFailed :: "'w DecompositionPipeline \<Rightarrow> u64 \<Rightarrow> string \<Rightarrow> ('w, unit) io" where
  "pipeline_MarkFailed p migrationID reason =
     (case dp_planWriter p of None \<Rightarrow> io_ok () | Some pw \<Rightarrow> plan_MarkFailed pw migrationID reason)"

section \<open>The job handler\<close>

definition decomposeFailureReason :: "go_error \<Rightarrow> string" where
  "decomposeFailureReason err =
     (let msg = error_text err;
          msg = (if length msg > 200 then take 200 msg @ ''...'' else msg)
      in ''Decomposition failed: '' @ msg @ ''. You can retry this migration.'')"

text \<open>The payload is what the JSON library made of the task, \<open>skipRetry\<close> is the text of the queue's sentinel.\<close>

definition ProcessTask ::
  "'w DecompositionPipeline \<Rightarrow> string \<Rightarrow> bool \<Rightarrow> go_error + JobPayload \<Rightarrow> ('w, unit) io" where
  "ProcessTask p skipRetry isLastAttempt task =
     (case task of
        Inl err \<Rightarrow> io_err (wrap_error (skipRetry @ '': '') err [])
      | Inr payload \<Rightarrow>
          State_Monad.bind (pipeline_Run p payload) (\<lambda>r. case r of
            Inr _ \<Rightarrow> io_ok ()
          | Inl err \<Rightarrow>
              if job_MigrationID payload \<noteq> 0 \<and> isLastAttempt
              then io_ignore (pipeline_MarkFailed p (job_MigrationID payload) (decomposeFailureReason err)) (io_err err)
              else io_err err))"

end
