(* ===== verification/Workspace_Acquirer.thy ===== *)
theory Workspace_Acquirer
  imports Prelude
begin

text \<open>
  The acquirer of the decomposition worker: \<^verbatim>\<open>GitWorkspaceAcquirer.Acquire\<close>
  (\<^verbatim>\<open>worker/decomposition/infrastructure/adapters/git_workspace_acquirer.go\<close>). What it uses of the operating system is
  a record of operations: making a temporary directory, removing a directory with what is in it, and running git,
  which answers with its combined output and with an error when it fails. With an error \<open>Acquire\<close> returns a clean-up
  function that does nothing, and its caller does not call it; so none is returned here.
\<close>

section \<open>The acquirer\<close>

record 'w WorkspaceOS =
  os_MkdirTemp :: "string \<Rightarrow> ('w, string) io"
  os_RemoveAll :: "string \<Rightarrow> ('w, unit) io"
  os_Git :: "string list \<Rightarrow> ('w, string \<times> go_error option) state"

definition workspace_cleanup :: "'w WorkspaceOS \<Rightarrow> string \<Rightarrow> ('w, unit) state" where
  "workspace_cleanup os workDir = io_ignore (os_RemoveAll os workDir) (State_Monad.return ())"

definition clone_args :: "string \<Rightarrow> string \<Rightarrow> string \<Rightarrow> string list" where
  "clone_args remoteURL branch workDir =
     [''clone'', ''--depth=1'', ''--single-branch''] @
     (if branch \<noteq> [] then [''--branch'', branch] else []) @ [remoteURL, workDir]"

definition GitWorkspaceAcquirer_Acquire ::
  "'w WorkspaceOS \<Rightarrow> string \<Rightarrow> string \<Rightarrow> ('w, string \<times> ('w, unit) state) io" where
  "GitWorkspaceAcquirer_Acquire os remoteURL branch =
     (if remoteURL = [] \<or> HasPrefix remoteURL ''repo://''
      then io_err (ErrStr (''git workspace acquirer: invalid URL '' @ quoted remoteURL))
      else io_bind (io_wrap ''git workspace acquirer: create temp dir: ''
                      (os_MkdirTemp os ''prism-decomp-workspace-*'')) (\<lambda>workDir.
           State_Monad.bind (os_Git os (clone_args remoteURL branch workDir)) (\<lambda>(out, err). case err of
             Some e \<Rightarrow>
               io_ignore (workspace_cleanup os workDir)
                 (io_err (wrap_error ''git workspace acquirer: clone failed: '' e (CHR 0x0A # out)))
           | None \<Rightarrow> io_ok (workDir, workspace_cleanup os workDir))))"

section \<open>The directories that exist\<close>

text \<open>
  What the operating system does to the temporary directories that exist, \<open>dirs\<close>: a call that makes one makes a fresh
  one, the one it returns, and makes none when it fails; a removal removes the directory; git, which writes into the
  directory it is given, makes and removes none of them.
\<close>

definition workspace_os_ok :: "('w \<Rightarrow> string set) \<Rightarrow> 'w WorkspaceOS \<Rightarrow> bool" where
  "workspace_os_ok dirs os \<longleftrightarrow>
     (\<forall>pattern w. case run_state (os_MkdirTemp os pattern) w of
        (Inl _, w') \<Rightarrow> dirs w' = dirs w
      | (Inr d, w') \<Rightarrow> d \<notin> dirs w \<and> dirs w' = insert d (dirs w)) \<and>
     (\<forall>d w. dirs (snd (run_state (os_RemoveAll os d) w)) = dirs w - {d}) \<and>
     (\<forall>args. keeps dirs (os_Git os args))"

lemma cleanup_removes:
  "workspace_os_ok dirs os \<Longrightarrow> dirs (snd (run_state (workspace_cleanup os d) w)) = dirs w - {d}"
  by (simp add: workspace_os_ok_def workspace_cleanup_def run_io_ignore)

text \<open>An acquisition that fails leaves no directory behind, wherever it fails; one that succeeds leaves one more, which
  its clean-up function removes whenever it is called.\<close>

lemma acquire_workspace_run:
  assumes os: "workspace_os_ok dirs os" and run: "run_state (GitWorkspaceAcquirer_Acquire os u b) w = (r, w')"
  shows "case r of
      Inl _ \<Rightarrow> dirs w' = dirs w
    | Inr (path, cleanup) \<Rightarrow> path \<notin> dirs w \<and> dirs w' = insert path (dirs w) \<and>
        (\<forall>v. dirs (snd (run_state cleanup v)) = dirs v - {path})"
proof (cases "u = [] \<or> HasPrefix u ''repo://''")
  case True
  with run show ?thesis by (auto simp: GitWorkspaceAcquirer_Acquire_def)
next
  case False
  obtain d w1 where d: "run_state (os_MkdirTemp os ''prism-decomp-workspace-*'') w = (d, w1)" by (meson surj_pair)
  have made: "case d of Inl _ \<Rightarrow> dirs w1 = dirs w | Inr d \<Rightarrow> d \<notin> dirs w \<and> dirs w1 = insert d (dirs w)"
    using os [unfolded workspace_os_ok_def, THEN conjunct1, THEN spec [of _ "''prism-decomp-workspace-*''"],
        THEN spec [of _ w]] d by (auto split: sum.splits)
  show ?thesis
  proof (cases d)
    case (Inl e)
    with run False d made show ?thesis by (auto simp: GitWorkspaceAcquirer_Acquire_def io_unfold)
  next
    case (Inr dir)
    obtain out err w2 where git: "run_state (os_Git os (clone_args u b dir)) w1 = ((out, err), w2)"
      by (metis surj_pair)
    have "keeps dirs (os_Git os (clone_args u b dir))" using os by (simp add: workspace_os_ok_def)
    then have w2: "dirs w2 = insert dir (dirs w)" "dir \<notin> dirs w"
      using git made Inr by (auto dest: keepsD)
    show ?thesis
    proof (cases err)
      case None
      with run False d Inr git w2 cleanup_removes [OF os] show ?thesis
        by (auto simp: GitWorkspaceAcquirer_Acquire_def io_unfold)
    next
      case (Some e)
      then have "isl r" "w' = snd (run_state (workspace_cleanup os dir) w2)"
        using run False d Inr git by (auto simp: GitWorkspaceAcquirer_Acquire_def io_unfold)
      with cleanup_removes [OF os] w2 show ?thesis by (cases r) auto
    qed
  qed
qed

end
