(* ===== verification/Pipeline_Outcomes.thy ===== *)
theory Pipeline_Outcomes
  imports Decomposition_Pipeline Workspace_Acquirer Migration_Handler Louvain_Outcomes
begin

text \<open>
  What a decomposition job promises: it writes at most one plan, whose services are the clusters that are left
  after the guardrail; on its last attempt it never leaves a migration in design; it touches no working copy when
  there are no boundaries, and it removes every working copy it acquired. The contract of the plan writer is a
  locale, which the Mongo writer meets.
\<close>

section \<open>What the other ports keep\<close>

lemma keeps_io_bind: "keeps obs m \<Longrightarrow> (\<And>x. keeps obs (f x)) \<Longrightarrow> keeps obs (io_bind m f)"
  by (auto simp: io_bind_def split: sum.splits intro!: keeps_bind)

lemma wrapped_keeps: "keeps obs m \<Longrightarrow> keeps obs (io_wrap pre m)"
  by (auto simp: io_wrap_def split: sum.splits intro!: keeps_bind)

lemma keeps_io_ignore: "keeps obs m \<Longrightarrow> keeps obs n \<Longrightarrow> keeps obs (io_ignore m n)"
  by (auto simp: io_ignore_def intro!: keeps_bind)

lemma io_wrap_ok [simp]: "io_wrap pre (io_ok x) = io_ok x"
  by (simp add: io_wrap_def)

lemmas keeps_intros = keeps_io_bind wrapped_keeps keeps_io_ignore keeps_bind keeps_return

text \<open>All ports but the plan writer, and the function that removes the working copy, keep an observation.\<close>

definition pipeline_keeps :: "('w \<Rightarrow> 'v) \<Rightarrow> 'w DecompositionPipeline \<Rightarrow> bool" where
  "pipeline_keeps obs p \<longleftrightarrow>
     (\<forall>i. keeps obs (dp_loader p i)) \<and> (\<forall>g. keeps obs (dp_detector p g)) \<and>
     (\<forall>c i. dp_clusterer p = Some c \<longrightarrow> keeps obs (c i)) \<and> (\<forall>a s. dp_allocator p = Some a \<longrightarrow> keeps obs (a s)) \<and>
     (\<forall>s i. dp_summaryLoader p = Some s \<longrightarrow> keeps obs (LoadCards s i) \<and> keeps obs (LoadDeepAnalysisAvailable s i)) \<and>
     (\<forall>a d s l. dp_assessor p = Some a \<longrightarrow> keeps obs (a d s l)) \<and> keeps obs (dp_files p) \<and>
     (\<forall>d c ws t. dp_deriver p = Some d \<longrightarrow> keeps obs (d c ws t)) \<and>
     (\<forall>u i as. dp_artifactStore p = Some u \<longrightarrow> keeps obs (u i as))"

definition acquirer_keeps :: "('w \<Rightarrow> 'v) \<Rightarrow> 'w DecompositionPipeline \<Rightarrow> bool" where
  "acquirer_keeps obs p \<longleftrightarrow>
     (\<forall>a u b. dp_acquirer p = Some a \<longrightarrow> keeps obs (a u b) \<and>
        (\<forall>w path cl w'. run_state (a u b) w = (Inr (path, cl), w') \<longrightarrow> keeps obs cl))"

lemma load_and_cluster_keeps: "pipeline_keeps obs p \<Longrightarrow> keeps obs (load_and_cluster p job)"
  unfolding load_and_cluster_def
  by (intro keeps_intros) (auto simp: pipeline_keeps_def Let_def split: option.split prod.split intro!: keeps_intros)

lemma stage_digest_keeps: "pipeline_keeps obs p \<Longrightarrow> keeps obs (stage_digest p i g cls cr)"
  unfolding stage_digest_def
  by (auto simp: pipeline_keeps_def split: option.split sum.split intro!: keeps_intros)

lemma stage_assess_keeps: "pipeline_keeps obs p \<Longrightarrow> keeps obs (stage_assess p i d)"
  unfolding stage_assess_def deep_analysis_available_def
  by (auto simp: pipeline_keeps_def split: option.split intro!: keeps_intros)

lemma derive_contracts_keeps:
  "(\<And>c. keeps obs (derive c ws t)) \<Longrightarrow> keeps obs (derive_contracts derive ws t cs)"
  by (induction cs) (auto intro!: keeps_intros)

lemma characterize_keeps:
  assumes "\<And>s. keeps obs (allocate s)"
  shows "keeps obs (characterize allocate g cs)"
proof -
  have "keeps obs (characterize_clusters allocate g all ds)" for all ds
    by (induction ds) (auto simp: Let_def assms intro!: keeps_intros)
  then show ?thesis by (simp add: characterize_def)
qed

lemma upsert_keeps: "pipeline_keeps obs p \<Longrightarrow> keeps obs (upsert_artifacts p i as)"
  unfolding upsert_artifacts_def by (auto simp: pipeline_keeps_def split: option.split intro!: keeps_intros)

lemma upsert_ok: "\<exists>w'. run_state (upsert_artifacts p i as) w = (Inr (), w')"
  by (auto simp: upsert_artifacts_def run_io_ignore split: option.split)

section \<open>The plan\<close>

lemma characterize_names:
  assumes "run_state (characterize allocate g cs) w = (Inr svcs, w')"
  shows "map sc_Name svcs = map (\<lambda>c. serviceNameFromBlueprint (cluster_BlueprintGroup c)) cs"
proof -
  have "run_state (characterize_clusters allocate g all ds) v = (Inr xs, v') \<Longrightarrow>
      map sc_Name xs = map (\<lambda>c. serviceNameFromBlueprint (cluster_BlueprintGroup c)) ds" for all ds v xs v'
    by (induction ds arbitrary: v xs)
      (auto simp: Let_def run_io_bind run_io_wrap candidate_def split: prod.splits sum.splits)
  with assms show ?thesis by (simp add: characterize_def)
qed

lemma augment_names: "map sc_Name (augmentDataDeps cs fks) = map sc_Name cs"
proof -
  have "map sc_Name (foldl add_fk_dep cs fks) = map sc_Name cs"
    by (induction fks arbitrary: cs) (simp_all add: add_fk_dep_names)
  then show ?thesis by (simp add: augmentDataDeps_def comp_def)
qed

text \<open>The plan of a clustering: one service per cluster, the flags of the clustering.\<close>

definition plan_of :: "ClusteringResult \<Rightarrow> RestructurePlan \<Rightarrow> bool" where
  "plan_of cr plan \<longleftrightarrow>
     map ps_Name (rp_Services plan) = map (\<lambda>c. serviceNameFromBlueprint (cluster_BlueprintGroup c)) (cr_Clusters cr) \<and>
     (rp_NoServiceBoundaries plan \<longleftrightarrow> cr_Clusters cr = []) \<and> (rp_IsLowConfidence plan \<longleftrightarrow> cr_LowConfidence cr)"

lemma plan_of_assemble:
  assumes "map sc_Name cs = map (\<lambda>c. serviceNameFromBlueprint (cluster_BlueprintGroup c)) (cr_Clusters cr)"
  shows "plan_of cr (assemblePlan cs own (Some cr))"
proof -
  have "map ps_Name (map (proto_service own) cs) = map sc_Name cs" by (simp add: proto_service_def)
  moreover have "cs = [] \<longleftrightarrow> cr_Clusters cr = []" using assms by (metis map_is_Nil_conv)
  ultimately show ?thesis using assms by (simp add: plan_of_def assemblePlan_def Let_def)
qed

section \<open>One write of the plan\<close>

text \<open>The run from \<open>w\<close> to \<open>w'\<close> is, up to an observation, one write of a plan of the clustering, and it fails when
  the write does.\<close>

definition plan_written ::
  "('w \<Rightarrow> 'v) \<Rightarrow> 'w PlanWriter \<Rightarrow> u64 \<Rightarrow> ClusteringResult \<Rightarrow> 'w \<Rightarrow> go_error + unit \<Rightarrow> 'w \<Rightarrow> bool" where
  "plan_written obs pw i cr w r w' \<longleftrightarrow>
     (\<exists>plan path own w1 w2 q. obs w1 = obs w \<and> plan_of cr plan \<and>
        run_state (WritePlan pw i plan path own) w1 = (q, w2) \<and> obs w' = obs w2 \<and> (isl r \<longleftrightarrow> isl q))"

lemma plan_written_intro:
  "obs v = obs w \<Longrightarrow> plan_of cr plan \<Longrightarrow> run_state (WritePlan pw i plan path own) v = (q, w2) \<Longrightarrow>
     obs w' = obs w2 \<Longrightarrow> (isl r \<longleftrightarrow> isl q) \<Longrightarrow> plan_written obs pw i cr w r w'"
  unfolding plan_written_def by blast

lemma plan_written_shift: "plan_written obs pw i cr w1 r w2 \<Longrightarrow> obs w1 = obs w \<Longrightarrow> obs w' = obs w2 \<Longrightarrow>
    plan_written obs pw i cr w r w'"
  unfolding plan_written_def by metis

lemma write_design_run:
  assumes keep: "pipeline_keeps obs p" and pw: "dp_planWriter p = Some pw"
    and names: "map sc_Name svcs = map (\<lambda>c. serviceNameFromBlueprint (cluster_BlueprintGroup c)) (cr_Clusters cr)"
    and run: "run_state (write_design p job svcs cr ws contracts) w = (r, w')"
  shows "plan_written obs pw (job_MigrationID job) cr w r w'"
proof -
  let ?own = "analyzeDataOwnership svcs contracts"
  let ?augmented = "augmentDataDeps svcs (do_CrossServiceFKs ?own)"
  let ?plan = "assemblePlan ?augmented ?own (Some cr)"
  have plan: "plan_of cr ?plan" using names by (intro plan_of_assemble) (simp add: augment_names)
  obtain q w2 where q: "run_state (WritePlan pw (job_MigrationID job) ?plan ws ?own) w = (q, w2)" by (meson surj_pair)
  have "obs w' = obs w2 \<and> (isl r \<longleftrightarrow> isl q)"
  proof (cases q)
    case (Inl e)
    with run pw q show ?thesis by (auto simp: write_design_def Let_def run_io_bind run_io_wrap)
  next
    case (Inr u)
    let ?up = "upsert_artifacts p (job_MigrationID job) (buildArtifacts ?plan contracts ?own ?augmented)"
    from run pw q Inr have up: "run_state ?up w2 = (r, w')"
      by (simp add: write_design_def Let_def run_io_bind run_io_wrap)
    with upsert_ok [of p "job_MigrationID job" "buildArtifacts ?plan contracts ?own ?augmented" w2] have "r = Inr ()" by simp
    with up Inr show ?thesis using upsert_keeps [OF keep] by (auto dest: keepsD)
  qed
  then show ?thesis using plan q by (intro plan_written_intro [where v = w]) auto
qed

lemma write_no_boundaries_run:
  assumes pw: "dp_planWriter p = Some pw" and none: "cr_Clusters cr = []"
    and run: "run_state (write_no_boundaries p job cr) w = (r, w')"
  shows "plan_written obs pw (job_MigrationID job) cr w r w'"
proof -
  let ?own = "\<lparr> do_SharedDatabase = False, do_CrossServiceFKs = [], do_OperationalCouplings = [] \<rparr>"
  have "plan_of cr (assemblePlan [] ?own (Some cr))" by (rule plan_of_assemble) (simp add: none)
  then show ?thesis using run pw
    by (auto simp: write_no_boundaries_def Let_def run_io_wrap intro!: plan_written_intro [where v = w] split: prod.splits sum.splits)
qed

lemma design_services_run:
  assumes keep: "pipeline_keeps obs p" "acquirer_keeps obs p" and pw: "dp_planWriter p = Some pw"
    and stages: "dp_acquirer p = Some acquire" "dp_deriver p = Some derive"
    and names: "map sc_Name svcs = map (\<lambda>c. serviceNameFromBlueprint (cluster_BlueprintGroup c)) (cr_Clusters cr)"
    and run: "run_state (design_services p job svcs cr) w = (r, w')"
  shows "isl r \<and> obs w' = obs w \<or> plan_written obs pw (job_MigrationID job) cr w r w'"
proof -
  obtain a w1 where a: "run_state (acquire (job_RemoteURL job) (job_DefaultBranch job)) w = (a, w1)" by (meson surj_pair)
  have w1: "obs w1 = obs w" using keep(2) stages(1) a unfolding acquirer_keeps_def by (metis keepsD)
  show ?thesis
  proof (cases a)
    case (Inl e)
    with run stages a w1 show ?thesis by (auto simp: design_services_def run_io_bind run_io_wrap)
  next
    case (Inr pc)
    obtain path cl where pc: "pc = (path, cl)" by fastforce
    have cl: "keeps obs cl" using keep(2) stages(1) a Inr pc unfolding acquirer_keeps_def by metis
    obtain fs w2 where fs: "run_state (dp_files p) w1 = (fs, w2)" by (meson surj_pair)
    let ?derive = "derive_contracts derive path (buildTableServiceMap fs path (cr_Clusters cr)) (cr_Clusters cr)"
    obtain cs w3 where cs: "run_state ?derive w2 = (cs, w3)" by (meson surj_pair)
    obtain q w4 where q: "run_state (write_design p job svcs cr path cs) w3 = (q, w4)" by (meson surj_pair)
    have "keeps obs (dp_files p)" "keeps obs ?derive"
      using keep(1) stages(2) by (auto simp: pipeline_keeps_def intro!: derive_contracts_keeps)
    with fs cs w1 have w3: "obs w3 = obs w" by (metis keepsD)
    obtain u w5 where u: "run_state cl w4 = (u, w5)" by (meson surj_pair)
    have out: "r = q" "w' = w5"
      using run stages a Inr pc fs cs q u
      by (simp_all add: design_services_def with_defer_def run_io_bind run_io_wrap run_state_bind)
    have "obs w5 = obs w4" using cl u by (rule keepsD)
    with write_design_run [OF keep(1) pw names q] w3 show ?thesis unfolding out by (blast intro: plan_written_shift)
  qed
qed

definition wired :: "'w DecompositionPipeline \<Rightarrow> 'w PlanWriter \<Rightarrow> bool" where
  "wired p pw \<longleftrightarrow>
     dp_clusterer p \<noteq> None \<and> dp_allocator p \<noteq> None \<and> dp_acquirer p \<noteq> None \<and> dp_deriver p \<noteq> None \<and>
     dp_planWriter p = Some pw"

lemma characterize_and_design_run:
  assumes keep: "pipeline_keeps obs p" "acquirer_keeps obs p" and wired: "wired p pw"
    and run: "run_state (characterize_and_design p job g cr) w = (r, w')"
  shows "isl r \<and> obs w' = obs w \<or> plan_written obs pw (job_MigrationID job) cr w r w'"
proof -
  obtain allocate acquire derive where stages: "dp_allocator p = Some allocate" "dp_acquirer p = Some acquire"
      "dp_deriver p = Some derive" and pw: "dp_planWriter p = Some pw"
    using wired by (auto simp: wired_def)
  obtain a w1 where a: "run_state (characterize allocate g (cr_Clusters cr)) w = (a, w1)" by (meson surj_pair)
  have "keeps obs (characterize allocate g (cr_Clusters cr))"
    using keep(1) stages(1) by (intro characterize_keeps) (simp add: pipeline_keeps_def)
  then have w1: "obs w1 = obs w" using a by (rule keepsD)
  show ?thesis
  proof (cases a)
    case (Inl e)
    with run stages a w1 show ?thesis by (auto simp: characterize_and_design_def run_io_bind run_io_wrap)
  next
    case (Inr svcs)
    note names = characterize_names [OF a [unfolded Inr]]
    show ?thesis
    proof (cases "svcs = []")
      case True
      with run stages a Inr have "run_state (write_no_boundaries p job cr) w1 = (r, w')"
        by (simp add: characterize_and_design_def run_io_bind run_io_wrap)
      moreover have "cr_Clusters cr = []" using names True by simp
      ultimately show ?thesis using write_no_boundaries_run [OF pw] w1 by (metis plan_written_shift)
    next
      case False
      with run stages a Inr have "run_state (design_services p job svcs cr) w1 = (r, w')"
        by (simp add: characterize_and_design_def run_io_bind run_io_wrap)
      from design_services_run [OF keep pw stages(2,3) names this] w1 show ?thesis
        by (metis plan_written_shift)
    qed
  qed
qed

lemma pipeline_run_cases:
  assumes keep: "pipeline_keeps obs p" "acquirer_keeps obs p" and wired: "wired p pw"
    and run: "run_state (pipeline_Run p job) w = (r, w')"
  shows "isl r \<and> obs w' = obs w \<or>
    (\<exists>g dg cls cr w0. run_state (load_and_cluster p job) w = (Inr (Some (g, dg, cls, cr)), w0) \<and>
       plan_written obs pw (job_MigrationID job) cr w r w')"
proof -
  obtain a w0 where a: "run_state (load_and_cluster p job) w = (a, w0)" by (meson surj_pair)
  have w0: "obs w0 = obs w" using load_and_cluster_keeps [OF keep(1)] a by (rule keepsD)
  have some: "a \<noteq> Inr None" using a wired
    by (auto simp: load_and_cluster_def wired_def Let_def run_io_bind run_io_wrap split: prod.splits sum.splits)
  show ?thesis
  proof (cases a)
    case (Inl e)
    with run a w0 show ?thesis by (auto simp: pipeline_Run_def run_io_bind)
  next
    case (Inr x)
    with some obtain g dg cls cr where x: "x = Some (g, dg, cls, cr)" by (metis option.exhaust prod_cases4)
    obtain d w1 where d: "run_state (stage_digest p (job_SummaryID job) g cls cr) w0 = (d, w1)" by (meson surj_pair)
    obtain u w2 where u: "run_state (stage_assess p (job_SummaryID job) d) w1 = (u, w2)" by (meson surj_pair)
    have "obs w1 = obs w0" using stage_digest_keeps [OF keep(1)] d by (rule keepsD)
    moreover have "obs w2 = obs w1" using stage_assess_keeps [OF keep(1)] u by (rule keepsD)
    ultimately have w2: "obs w2 = obs w" using w0 by simp
    have "run_state (characterize_and_design p job dg cr) w2 = (r, w')"
      using run a Inr x d u by (simp add: pipeline_Run_def run_io_bind run_state_bind)
    from characterize_and_design_run [OF keep wired this] w2 a [unfolded Inr x] show ?thesis
      by (metis plan_written_shift)
  qed
qed

section \<open>The contract of the plan writer\<close>

definition planned :: "RestructurePlan \<Rightarrow> Timestamp \<Rightarrow> Migration \<Rightarrow> Migration" where
  "planned plan t m = m\<lparr>mig_Plan := stored zero_RestructurePlan plan,
     mig_State := MIGRATION_STATE_AWAITING_APPROVAL, mig_UpdateTime := Some t\<rparr>"

definition design_lost :: "Timestamp \<Rightarrow> Migration \<Rightarrow> Migration" where
  "design_lost t m = m\<lparr>mig_State := MIGRATION_STATE_FAILED, mig_UpdateTime := Some t\<rparr>"

text \<open>At most one live record took a step.\<close>

definition moved :: "(u64 \<rightharpoonup> Migration) \<Rightarrow> (u64 \<rightharpoonup> Migration) \<Rightarrow> bool" where
  "moved V V' \<longleftrightarrow> V' = V \<or> (\<exists>j m m'. V j = Some m \<and> mig_DeleteTime m = None \<and> worker_step m m' \<and> V' = V(j \<mapsto> m'))"

text \<open>A failure is recorded for a migration in design only.\<close>

definition marked :: "u64 \<Rightarrow> (u64 \<rightharpoonup> Migration) \<Rightarrow> (u64 \<rightharpoonup> Migration) \<Rightarrow> bool" where
  "marked i V V' \<longleftrightarrow> (\<exists>m t. V i = Some m \<and> mig_State m = MIGRATION_STATE_DESIGNING \<and> V' = V(i \<mapsto> design_lost t m))"

locale plan_writer_port =
  fixes pw :: "'w PlanWriter" and view :: "'w \<Rightarrow> u64 \<Rightarrow> Migration option" and ok :: "'w \<Rightarrow> bool"
  assumes WritePlan_law:
      "ok w \<Longrightarrow> run_state (WritePlan pw i plan path own) w = (r, w') \<Longrightarrow>
         ok w' \<and> moved (view w) (view w') \<and>
         (r = Inr () \<longrightarrow> (\<exists>m t. view w i = Some m \<and> view w' = (view w)(i \<mapsto> planned plan t m)))"
    and MarkFailed_law:
      "ok w \<Longrightarrow> run_state (plan_MarkFailed pw i reason) w = (q, w') \<Longrightarrow>
         ok w' \<and> (view w' = view w \<or> marked i (view w) (view w'))"

text \<open>A pipeline over such a writer whose other ports leave the migrations alone.\<close>

locale decompose_env = plan_writer_port pw view ok
  for pw :: "'w PlanWriter" and view and ok +
  fixes p :: "'w DecompositionPipeline"
  assumes wired: "wired p pw"
    and ports_keep: "pipeline_keeps (\<lambda>w. (ok w, view w)) p" "acquirer_keeps (\<lambda>w. (ok w, view w)) p"
begin

lemma run_outcome:
  assumes "ok w" and "run_state (pipeline_Run p job) w = (r, w')"
  shows "ok w' \<and> moved (view w) (view w') \<and> (r = Inr () \<longrightarrow>
    (\<exists>g dg cls cr w0 plan m t. run_state (load_and_cluster p job) w = (Inr (Some (g, dg, cls, cr)), w0) \<and>
       plan_of cr plan \<and> view w (job_MigrationID job) = Some m \<and>
       view w' = (view w)(job_MigrationID job \<mapsto> planned plan t m)))"
  using pipeline_run_cases [OF ports_keep wired assms(2)]
proof (elim disjE exE conjE)
  assume "isl r" and "(ok w', view w') = (ok w, view w)"
  with assms(1) show ?thesis by (auto simp: moved_def)
next
  fix g dg cls cr w0
  assume load: "run_state (load_and_cluster p job) w = (Inr (Some (g, dg, cls, cr)), w0)"
    and "plan_written (\<lambda>w. (ok w, view w)) pw (job_MigrationID job) cr w r w'"
  then obtain plan path own w1 w2 q where w1: "ok w1 = ok w" "view w1 = view w" and plan: "plan_of cr plan"
    and q: "run_state (WritePlan pw (job_MigrationID job) plan path own) w1 = (q, w2)"
    and w2: "ok w' = ok w2" "view w' = view w2" and r: "isl r \<longleftrightarrow> isl q"
    unfolding plan_written_def by auto
  have law: "ok w2 \<and> moved (view w) (view w2) \<and> (q = Inr () \<longrightarrow> (\<exists>m t. view w (job_MigrationID job) = Some m \<and>
      view w2 = (view w)(job_MigrationID job \<mapsto> planned plan t m)))"
    using WritePlan_law [OF _ q] assms(1) w1 by simp
  moreover have "q = Inr ()" if "r = Inr ()" using r that by (cases q) auto
  ultimately show ?thesis using load plan w2 by metis
qed

lemma job_outcome:
  assumes "ok w" and "run_state (ProcessTask p skip lastAttempt (Inr job)) w = (r, w')"
  shows "ok w' \<and> (case r of
      Inr _ \<Rightarrow> (\<exists>g dg cls cr w0 plan m t. run_state (load_and_cluster p job) w = (Inr (Some (g, dg, cls, cr)), w0) \<and>
        plan_of cr plan \<and> view w (job_MigrationID job) = Some m \<and>
        view w' = (view w)(job_MigrationID job \<mapsto> planned plan t m))
    | Inl _ \<Rightarrow> (\<exists>V. moved (view w) V \<and> (view w' = V \<or>
        (lastAttempt \<and> job_MigrationID job \<noteq> 0 \<and> marked (job_MigrationID job) V (view w')))))"
proof -
  obtain q w1 where q: "run_state (pipeline_Run p job) w = (q, w1)" by (meson surj_pair)
  note out = run_outcome [OF assms(1) q]
  show ?thesis
  proof (cases q)
    case (Inr u)
    with assms(2) q have "r = Inr ()" "w' = w1" by (simp_all add: ProcessTask_def run_state_bind)
    with out Inr show ?thesis by simp
  next
    case (Inl e)
    show ?thesis
    proof (cases "job_MigrationID job \<noteq> 0 \<and> lastAttempt")
      case False
      with assms(2) q Inl have "r = Inl e" "w' = w1" by (auto simp: ProcessTask_def run_state_bind)
      with out show ?thesis by auto
    next
      case True
      obtain u w2 where u: "run_state (plan_MarkFailed pw (job_MigrationID job) (decomposeFailureReason e)) w1 = (u, w2)"
        by (meson surj_pair)
      have "dp_planWriter p = Some pw" using wired by (simp add: wired_def)
      with True assms(2) q Inl u have "r = Inl e" "w' = w2"
        by (auto simp: ProcessTask_def run_state_bind run_io_ignore pipeline_MarkFailed_def)
      with MarkFailed_law [OF _ u] out True show ?thesis by auto
    qed
  qed
qed

end

text \<open>A writer over a store that answers: it fails only before it writes, and a failure is recorded.\<close>

locale answering_decompose_env = decompose_env pw view ok p
  for pw :: "'w PlanWriter" and view and ok and p +
  assumes WritePlan_answers:
      "ok w \<Longrightarrow> view w i = Some m \<Longrightarrow> mig_DeleteTime m = None \<Longrightarrow>
         run_state (WritePlan pw i plan path own) w = (Inl e, w') \<Longrightarrow> view w' = view w"
    and MarkFailed_answers:
      "ok w \<Longrightarrow> view w i = Some m \<Longrightarrow> mig_DeleteTime m = None \<Longrightarrow> mig_State m = MIGRATION_STATE_DESIGNING \<Longrightarrow>
         run_state (plan_MarkFailed pw i reason) w = (q, w') \<Longrightarrow> \<exists>t. view w' = (view w)(i \<mapsto> design_lost t m)"
begin

lemma failed_run_keeps:
  assumes "ok w" and "view w (job_MigrationID job) = Some m" and "mig_DeleteTime m = None"
    and "run_state (pipeline_Run p job) w = (Inl e, w')"
  shows "view w' = view w"
  using pipeline_run_cases [OF ports_keep wired assms(4)]
proof (elim disjE exE conjE)
  fix g dg cls cr w0
  assume "plan_written (\<lambda>w. (ok w, view w)) pw (job_MigrationID job) cr w (Inl e) w'"
  then obtain plan path own w1 w2 q where w1: "ok w1 = ok w" "view w1 = view w"
    and q: "run_state (WritePlan pw (job_MigrationID job) plan path own) w1 = (q, w2)"
    and w2: "view w' = view w2" and "isl q"
    unfolding plan_written_def by auto
  then obtain e' where "q = Inl e'" by (auto simp: isl_def)
  with WritePlan_answers [OF _ _ assms(3), of w1 "job_MigrationID job" plan path own e' w2] q w1 w2 assms(1,2)
  show ?thesis by simp
qed simp

lemma last_attempt_settles:
  assumes ok: "ok w" and m: "view w (job_MigrationID job) = Some m" "mig_DeleteTime m = None"
      "mig_State m = MIGRATION_STATE_DESIGNING"
    and i: "job_MigrationID job \<noteq> 0"
    and run: "run_state (ProcessTask p skip True (Inr job)) w = (r, w')"
  shows "\<exists>m'. view w' = (view w)(job_MigrationID job \<mapsto> m') \<and>
    mig_State m' = (if isl r then MIGRATION_STATE_FAILED else MIGRATION_STATE_AWAITING_APPROVAL)"
proof -
  obtain q w1 where q: "run_state (pipeline_Run p job) w = (q, w1)" by (meson surj_pair)
  show ?thesis
  proof (cases q)
    case (Inr u)
    with run q have "r = Inr ()" "w' = w1" by (simp_all add: ProcessTask_def run_state_bind)
    with run_outcome [OF ok q] Inr show ?thesis by (auto simp: planned_def)
  next
    case (Inl e)
    obtain u w2 where u: "run_state (plan_MarkFailed pw (job_MigrationID job) (decomposeFailureReason e)) w1 = (u, w2)"
      by (meson surj_pair)
    have same: "view w1 = view w" using failed_run_keeps [OF ok m(1,2) q [unfolded Inl]] .
    have "ok w1" using run_outcome [OF ok q] by simp
    from MarkFailed_answers [OF this _ m(2,3) u] same m(1)
    obtain t where "view w2 = (view w)(job_MigrationID job \<mapsto> design_lost t m)" by auto
    moreover have "dp_planWriter p = Some pw" using wired by (simp add: wired_def)
    with run q Inl u i have "r = Inl e" "w' = w2"
      by (auto simp: ProcessTask_def run_state_bind run_io_ignore pipeline_MarkFailed_def)
    ultimately show ?thesis by (auto simp: design_lost_def)
  qed
qed

end

section \<open>The Mongo plan writer meets the contract\<close>

definition MongoPlanWriter :: "('w, 'b) WorkerStores \<Rightarrow> 'w PlanWriter" where
  "MongoPlanWriter W = \<lparr> WritePlan = pw_WritePlan W, plan_MarkFailed = pw_MarkFailed W \<rparr>"

definition workers_answer :: "('w, 'b) WorkerStores \<Rightarrow> bool" where
  "workers_answer W \<longleftrightarrow> (\<forall>q f w. \<exists>n w'. run_state (UpdateOne (ws_migrations W) q f) w = (Inr n, w'))"

lemma MarkFailed_run:
  assumes W: "workers_ok W C docs" and ok: "docs_ok C (docs w)"
    and run: "run_state (pw_MarkFailed W i reason) w = (r, w')"
  shows "docs_ok C (docs w') \<and> (doc_view C (docs w') = doc_view C (docs w) \<or> marked i (doc_view C (docs w)) (doc_view C (docs w'))) \<and>
    (workers_answer W \<and> doc_view C (docs w) i = Some m \<and> mig_DeleteTime m = None \<and> mig_State m = MIGRATION_STATE_DESIGNING \<longrightarrow>
       (\<exists>t. doc_view C (docs w') = (doc_view C (docs w))(i \<mapsto> design_lost t m)))"
proof -
  obtain now w1 where now: "run_state (ws_now W) w = (now, w1)" by (meson surj_pair)
  have w1: "docs w1 = docs w" using workers_okD(1) [OF W] now by (rule keepsD)
  let ?f = "\<lambda>d. d\<lparr>doc_State := MIGRATION_STATE_FAILED, bson_FailureReason := reason, doc_UpdateTime := Some now\<rparr>"
  let ?P = "\<lambda>m m'. mig_Identifier m = i \<and> mig_State m = MIGRATION_STATE_DESIGNING \<and> m' = design_lost now m"
  obtain y w2 where y: "run_state (UpdateOne (ws_migrations W) (in_state i MIGRATION_STATE_DESIGNING) ?f) w1 = (y, w2)"
    by (meson surj_pair)
  have end_w: "w' = w2" using run now y by (auto simp: pw_MarkFailed_def run_state_bind run_io_bind split: sum.splits)
  have "changes C (docs w1) (docs w2) ?P \<and> (case y of Inl _ \<Rightarrow> True
    | Inr n \<Rightarrow> if n = 0 then (\<forall>d \<in> set (docs w1). \<not> in_state i MIGRATION_STATE_DESIGNING d) \<and> docs w2 = docs w1
       else \<exists>m m'. doc_view C (docs w1) i = Some m \<and> ?P m m' \<and> doc_view C (docs w2) = (doc_view C (docs w1))(i \<mapsto> m'))"
  proof (rule update_changes [OF workers_okD(5) [OF W] _ y])
    show "docs_ok C (docs w1)" using ok w1 by simp
  qed (use decode_failure decode_keeps in \<open>fastforce simp: in_state_def design_lost_def\<close>)+
  then have ch: "changes C (docs w) (docs w') ?P"
    and ans: "case y of Inl _ \<Rightarrow> True
      | Inr n \<Rightarrow> if n = 0 then (\<forall>d \<in> set (docs w). \<not> in_state i MIGRATION_STATE_DESIGNING d)
         else \<exists>m. doc_view C (docs w) i = Some m \<and> doc_view C (docs w') = (doc_view C (docs w))(i \<mapsto> design_lost now m)"
    unfolding w1 end_w by (auto split: sum.splits if_splits)
  have id: "j = i" if "doc_view C (docs w) j = Some m" "mig_Identifier m = i" for j m
    using that doc_view_Some [OF ok] decode_fields by metis
  have "\<exists>n. y = Inr n" if "workers_answer W" using that y unfolding workers_answer_def by (metis prod.inject)
  moreover have "\<exists>d \<in> set (docs w). in_state i MIGRATION_STATE_DESIGNING d"
    if "doc_view C (docs w) i = Some m" "mig_DeleteTime m = None" "mig_State m = MIGRATION_STATE_DESIGNING" for m
    using live_doc [OF ok that(1,2)] that(3) by (auto simp: in_state_def)
  ultimately have third: "workers_answer W \<and> doc_view C (docs w) i = Some m \<and> mig_DeleteTime m = None \<and>
      mig_State m = MIGRATION_STATE_DESIGNING \<longrightarrow> (\<exists>t. doc_view C (docs w') = (doc_view C (docs w))(i \<mapsto> design_lost t m))"
    using ans by (clarsimp split: if_splits) blast
  have "doc_view C (docs w') = doc_view C (docs w) \<or> marked i (doc_view C (docs w)) (doc_view C (docs w'))"
    using ch id unfolding changes_def marked_def by metis
  with ch third show ?thesis by (simp add: changes_def)
qed

lemma WritePlan_answers_run:
  assumes W: "workers_ok W C docs" and ok: "docs_ok C (docs w)" and ans: "workers_answer W"
    and m: "doc_view C (docs w) i = Some m" "mig_DeleteTime m = None"
    and run: "run_state (pw_WritePlan W i plan path own) w = (Inl e, w')"
  shows "docs w' = docs w"
proof -
  let ?specs = "if path \<noteq> [] then writeBoundarySpecs W path plan own else io_ok ()"
  obtain x w1 where x: "run_state ?specs w = (x, w1)" by (meson surj_pair)
  have "keeps docs ?specs" using keeps_writeBoundarySpecs [OF W] by simp
  then have w1: "docs w1 = docs w" using x by (rule keepsD)
  show ?thesis
  proof (cases "Marshal (ws_planCodec W) plan")
    case (Inl e')
    with run x w1 show ?thesis by (simp add: pw_WritePlan_def run_io_ignore run_io_bind run_io_wrap)
  next
    case (Inr b)
    obtain now w2 where now: "run_state (ws_now W) w1 = (now, w2)" by (meson surj_pair)
    have w2: "docs w2 = docs w" using keepsD [OF workers_okD(1) [OF W] now] w1 by simp
    let ?f = "\<lambda>d. d\<lparr>doc_PlanBytes := b, doc_State := MIGRATION_STATE_AWAITING_APPROVAL, doc_UpdateTime := Some now\<rparr>"
    obtain n w3 where n: "run_state (UpdateOne (ws_migrations W) (live_at i) ?f) w2 = (Inr n, w3)"
      using ans unfolding workers_answer_def by blast
    have "n \<noteq> 0"
    proof
      assume "n = 0"
      with collection_UpdateOne [OF workers_okD(5) [OF W] n] have "\<forall>d \<in> set (docs w). \<not> live_at i d"
        unfolding Let_def w2 by simp
      with live_doc [OF ok m] show False by blast
    qed
    with run x Inr now n show ?thesis
      by (simp add: pw_WritePlan_def run_io_ignore run_io_bind run_io_wrap run_state_bind)
  qed
qed

text \<open>The pipeline over the stores of the workers.\<close>

definition pipeline_over ::
  "('w, 'b) WorkerStores \<Rightarrow> ('w \<Rightarrow> 'b mongoMigrationDoc list) \<Rightarrow> 'w DecompositionPipeline \<Rightarrow> bool" where
  "pipeline_over W docs p \<longleftrightarrow> wired p (MongoPlanWriter W) \<and> pipeline_keeps docs p \<and> acquirer_keeps docs p"

lemma pipeline_keeps_comp: "pipeline_keeps obs p \<Longrightarrow> pipeline_keeps (\<lambda>w. g (obs w)) p"
  unfolding pipeline_keeps_def by (auto intro!: keeps_comp [of obs _ g])

lemma acquirer_keeps_comp: "acquirer_keeps obs p \<Longrightarrow> acquirer_keeps (\<lambda>w. g (obs w)) p"
  unfolding acquirer_keeps_def by (simp add: keeps_comp [of obs _ g])

lemma mongo_plan_writer_port:
  assumes W: "workers_ok W C docs"
  shows "plan_writer_port (MongoPlanWriter W) (\<lambda>w. doc_view C (docs w)) (\<lambda>w. docs_ok C (docs w))"
proof
  fix w w' i plan path own and r :: "go_error + unit"
  assume ok: "docs_ok C (docs w)" and "run_state (WritePlan (MongoPlanWriter W) i plan path own) w = (r, w')"
  then have "run_state (pw_WritePlan W i plan path own) w = (r, w')" by (simp add: MongoPlanWriter_def)
  from WritePlan_run [OF W ok this]
  show "docs_ok C (docs w') \<and> moved (doc_view C (docs w)) (doc_view C (docs w')) \<and>
    (r = Inr () \<longrightarrow> (\<exists>m t. doc_view C (docs w) i = Some m \<and>
       doc_view C (docs w') = (doc_view C (docs w))(i \<mapsto> planned plan t m)))"
    unfolding changes_def moved_def planned_def by blast
next
  fix w w' i reason and q :: "go_error + unit"
  assume ok: "docs_ok C (docs w)" and "run_state (plan_MarkFailed (MongoPlanWriter W) i reason) w = (q, w')"
  then have "run_state (pw_MarkFailed W i reason) w = (q, w')" by (simp add: MongoPlanWriter_def)
  from MarkFailed_run [OF W ok this] show "docs_ok C (docs w') \<and>
    (doc_view C (docs w') = doc_view C (docs w) \<or> marked i (doc_view C (docs w)) (doc_view C (docs w')))"
    by blast
qed

lemma mongo_decompose_env:
  assumes W: "workers_ok W C docs" and p: "pipeline_over W docs p"
  shows "decompose_env (MongoPlanWriter W) (\<lambda>w. doc_view C (docs w)) (\<lambda>w. docs_ok C (docs w)) p"
proof (intro decompose_env.intro mongo_plan_writer_port [OF W] decompose_env_axioms.intro)
  let ?obs = "\<lambda>w. (docs_ok C (docs w), doc_view C (docs w))"
  show "wired p (MongoPlanWriter W)" using p by (simp add: pipeline_over_def)
  show "pipeline_keeps ?obs p"
    using p unfolding pipeline_over_def by (intro pipeline_keeps_comp [of docs p "\<lambda>ds. (docs_ok C ds, doc_view C ds)"]) blast
  show "acquirer_keeps ?obs p"
    using p unfolding pipeline_over_def by (intro acquirer_keeps_comp [of docs p "\<lambda>ds. (docs_ok C ds, doc_view C ds)"]) blast
qed

lemma mongo_answering_env:
  assumes W: "workers_ok W C docs" and p: "pipeline_over W docs p" and ans: "workers_answer W"
  shows "answering_decompose_env (MongoPlanWriter W) (\<lambda>w. doc_view C (docs w)) (\<lambda>w. docs_ok C (docs w)) p"
proof (intro answering_decompose_env.intro mongo_decompose_env [OF W p] answering_decompose_env_axioms.intro)
  fix w i m plan path own e w'
  assume A: "docs_ok C (docs w)" "doc_view C (docs w) i = Some m" "mig_DeleteTime m = None"
    and "run_state (WritePlan (MongoPlanWriter W) i plan path own) w = (Inl e, w')"
  then have run: "run_state (pw_WritePlan W i plan path own) w = (Inl e, w')" by (simp add: MongoPlanWriter_def)
  show "doc_view C (docs w') = doc_view C (docs w)"
    by (simp only: WritePlan_answers_run [OF W A(1) ans A(2,3) run])
next
  fix w i m reason w' and q :: "go_error + unit"
  assume A: "docs_ok C (docs w)" "doc_view C (docs w) i = Some m" "mig_DeleteTime m = None"
      "mig_State m = MIGRATION_STATE_DESIGNING"
    and "run_state (plan_MarkFailed (MongoPlanWriter W) i reason) w = (q, w')"
  then have run: "run_state (pw_MarkFailed W i reason) w = (q, w')" by (simp add: MongoPlanWriter_def)
  show "\<exists>t. doc_view C (docs w') = (doc_view C (docs w))(i \<mapsto> design_lost t m)"
    using MarkFailed_run [OF W A(1) run] A(2-4) ans by blast
qed

section \<open>Properties\<close>

text \<open>
  C38. What a decomposition job does to the migrations. When it succeeds, the migration of the job waits for approval
  with a plan that has one service per cluster left after the guardrail, in their order, and is flagged as having
  no boundaries exactly when there are none; nothing else changed. When it fails, at most one record took a
  step of the workers, and only on the last attempt a migration that is then in design is marked as failed.
\<close>
theorem decompose_job_outcome:
  assumes "workers_ok W C docs" and "pipeline_over W docs p" and "docs_ok C (docs w)"
    and "run_state (ProcessTask p skip lastAttempt (Inr job)) w = (r, w')"
  shows "docs_ok C (docs w') \<and> (case r of
      Inr _ \<Rightarrow> (\<exists>g dg cls cr w0 plan m t. run_state (load_and_cluster p job) w = (Inr (Some (g, dg, cls, cr)), w0) \<and>
        plan_of cr plan \<and> doc_view C (docs w) (job_MigrationID job) = Some m \<and>
        doc_view C (docs w') = (doc_view C (docs w))(job_MigrationID job \<mapsto> planned plan t m))
    | Inl _ \<Rightarrow> (\<exists>V. moved (doc_view C (docs w)) V \<and> (doc_view C (docs w') = V \<or>
        (lastAttempt \<and> job_MigrationID job \<noteq> 0 \<and> marked (job_MigrationID job) V (doc_view C (docs w'))))))"
  by (rule decompose_env.job_outcome [OF mongo_decompose_env [OF assms(1,2)] assms(3,4)])

text \<open>
  C39. No migration is stuck in design: if the store answers, the last attempt of a job leaves a migration that was in
  design waiting for approval when the job succeeds and failed when it does not, whichever stage failed,
  and leaves every other migration alone.
\<close>
theorem last_attempt_settles_design:
  assumes "workers_ok W C docs" and "pipeline_over W docs p" and "workers_answer W" and "docs_ok C (docs w)"
    and "doc_view C (docs w) (job_MigrationID job) = Some m" and "mig_DeleteTime m = None"
    and "mig_State m = MIGRATION_STATE_DESIGNING" and "job_MigrationID job \<noteq> 0"
    and "run_state (ProcessTask p skip True (Inr job)) w = (r, w')"
  shows "\<exists>m'. doc_view C (docs w') = (doc_view C (docs w))(job_MigrationID job \<mapsto> m') \<and>
    mig_State m' = (if isl r then MIGRATION_STATE_FAILED else MIGRATION_STATE_AWAITING_APPROVAL)"
  by (rule answering_decompose_env.last_attempt_settles [OF mongo_answering_env [OF assms(1-3)] assms(4-9)])

text \<open>
  A migration without service boundaries needs no working copy: when no cluster is left after the guardrail, the run
  is the same whatever the acquirer, the contract deriver, the files and the artifact store are, so a repository
  that cannot be cloned does not make it fail.
\<close>
theorem no_boundaries_needs_no_workspace:
  assumes "run_state (load_and_cluster p job) w = (Inr (Some (g, dg, cls, cr)), w1)" and "cr_Clusters cr = []"
  shows "run_state (pipeline_Run p job) w =
    run_state (pipeline_Run (p\<lparr>dp_acquirer := a, dp_deriver := d, dp_files := f, dp_artifactStore := s\<rparr>) job) w"
proof -
  let ?p = "p\<lparr>dp_acquirer := a, dp_deriver := d, dp_files := f, dp_artifactStore := s\<rparr>"
  have same: "load_and_cluster ?p job = load_and_cluster p job" by (simp add: load_and_cluster_def)
  have digest: "stage_digest ?p = stage_digest p" by (intro ext) (simp add: stage_digest_def)
  have avail: "deep_analysis_available ?p = deep_analysis_available p" by (intro ext) (simp add: deep_analysis_available_def)
  have assess: "stage_assess ?p = stage_assess p" unfolding stage_assess_def [abs_def] avail by simp
  have rest: "characterize_and_design ?p job dg cr = characterize_and_design p job dg cr"
    by (simp add: characterize_and_design_def write_no_boundaries_def assms(2) characterize_def cong: option.case_cong)
  show ?thesis
    by (simp only: pipeline_Run_def run_io_bind same assms(1) prod.case sum.case option.case digest assess rest)
qed

text \<open>The working copies that exist: the acquirer adds the one it returns and the function it returns removes it. The
  acquirer of the worker is of this kind; the plan writer is assumed to be.\<close>

definition workspaces_of :: "('w \<Rightarrow> string set) \<Rightarrow> 'w DecompositionPipeline \<Rightarrow> bool" where
  "workspaces_of copies p \<longleftrightarrow>
     (\<forall>a u b w. dp_acquirer p = Some a \<longrightarrow>
        (case run_state (a u b) w of
           (Inl _, w') \<Rightarrow> copies w' = copies w
         | (Inr (path, cleanup), w') \<Rightarrow> path \<notin> copies w \<and> copies w' = insert path (copies w) \<and>
             (\<forall>v. copies (snd (run_state cleanup v)) = copies v - {path}))) \<and>
     (\<forall>pw i plan path own. dp_planWriter p = Some pw \<longrightarrow> keeps copies (WritePlan pw i plan path own))"

lemma git_workspaces:
  assumes os: "workspace_os_ok copies os" and p: "dp_acquirer p = Some (GitWorkspaceAcquirer_Acquire os)"
    and pw: "\<forall>pw i plan path own. dp_planWriter p = Some pw \<longrightarrow> keeps copies (WritePlan pw i plan path own)"
  shows "workspaces_of copies p"
  unfolding workspaces_of_def
proof (intro conjI allI impI)
  fix a u b w
  assume "dp_acquirer p = Some a"
  with p have a: "a = GitWorkspaceAcquirer_Acquire os" by simp
  obtain r w' where run: "run_state (GitWorkspaceAcquirer_Acquire os u b) w = (r, w')" by (meson surj_pair)
  from acquire_workspace_run [OF os run] run a
  show "case run_state (a u b) w of
      (Inl _, w') \<Rightarrow> copies w' = copies w
    | (Inr (path, cleanup), w') \<Rightarrow> path \<notin> copies w \<and> copies w' = insert path (copies w) \<and>
        (\<forall>v. copies (snd (run_state cleanup v)) = copies v - {path})"
    by (auto split: sum.splits)
qed (use pw in blast)

lemma write_design_keeps:
  "pipeline_keeps copies p \<Longrightarrow> workspaces_of copies p \<Longrightarrow> keeps copies (write_design p job svcs cr ws cs)"
  unfolding write_design_def
  by (auto simp: workspaces_of_def Let_def split: option.split intro!: keeps_io_bind wrapped_keeps upsert_keeps)

lemma design_services_copies:
  assumes keep: "pipeline_keeps copies p" and copies: "workspaces_of copies p"
  shows "keeps copies (design_services p job svcs cr)"
  unfolding keeps_def
proof (intro allI impI)
  fix w r w' assume run: "run_state (design_services p job svcs cr) w = (r, w')"
  show "copies w' = copies w"
  proof (cases "dp_acquirer p = None \<or> dp_deriver p = None")
    case True
    with run show ?thesis by (auto simp: design_services_def split: option.splits)
  next
    case False
    then obtain acquire derive where stages: "dp_acquirer p = Some acquire" "dp_deriver p = Some derive" by auto
    obtain a w1 where a: "run_state (acquire (job_RemoteURL job) (job_DefaultBranch job)) w = (a, w1)" by (meson surj_pair)
    have law: "case a of Inl _ \<Rightarrow> copies w1 = copies w
      | Inr (path, cleanup) \<Rightarrow> path \<notin> copies w \<and> copies w1 = insert path (copies w) \<and>
          (\<forall>v. copies (snd (run_state cleanup v)) = copies v - {path})"
      using copies [unfolded workspaces_of_def, THEN conjunct1, THEN spec [of _ acquire], THEN spec [of _ "job_RemoteURL job"],
        THEN spec [of _ "job_DefaultBranch job"], THEN spec [of _ w]] stages(1) a
      by (cases a) auto
    show ?thesis
    proof (cases a)
      case (Inl e)
      with run stages a law show ?thesis by (simp add: design_services_def run_io_bind run_io_wrap)
    next
      case (Inr pc)
      obtain path cl where pc: "pc = (path, cl)" by fastforce
      obtain fs w2 where fs: "run_state (dp_files p) w1 = (fs, w2)" by (meson surj_pair)
      let ?derive = "derive_contracts derive path (buildTableServiceMap fs path (cr_Clusters cr)) (cr_Clusters cr)"
      obtain cs w3 where cs: "run_state ?derive w2 = (cs, w3)" by (meson surj_pair)
      obtain q w4 where q: "run_state (write_design p job svcs cr path cs) w3 = (q, w4)" by (meson surj_pair)
      have "keeps copies (dp_files p)" "keeps copies ?derive"
        using keep stages(2) by (auto simp: pipeline_keeps_def intro!: derive_contracts_keeps)
      with fs cs q write_design_keeps [OF keep copies] have "copies w4 = copies w1" by (metis keepsD)
      moreover have "w' = snd (run_state cl w4)"
        using run stages a Inr pc fs cs q
        by (auto simp: design_services_def with_defer_def run_io_bind run_io_wrap run_state_bind split: prod.splits)
      ultimately show ?thesis using law Inr pc by simp
    qed
  qed
qed

lemma pipeline_Run_copies:
  assumes "pipeline_keeps copies p" and "workspaces_of copies p"
  shows "keeps copies (pipeline_Run p job)"
proof -
  have "keeps copies (write_no_boundaries p job cr)" for cr
    using assms(2) by (auto simp: write_no_boundaries_def workspaces_of_def Let_def split: option.split intro!: wrapped_keeps)
  then have "keeps copies (characterize_and_design p job g cr)" for g cr
    using assms(1) design_services_copies [OF assms]
    by (auto simp: characterize_and_design_def pipeline_keeps_def split: option.split
        intro!: keeps_io_bind wrapped_keeps characterize_keeps)
  then show ?thesis
    unfolding pipeline_Run_def
    by (intro keeps_io_bind load_and_cluster_keeps [OF assms(1)])
      (auto split: option.split intro!: keeps_bind stage_digest_keeps [OF assms(1)] stage_assess_keeps [OF assms(1)])
qed

text \<open>
  C40. No working copy is leaked: with the acquirer of the worker, whatever a run returns and whichever stage fails, the
  acquisition included (an unusable URL, no temporary directory, a clone that fails), the temporary directories that
  exist after it are those that existed before. Assumed of the operating system is that a temporary directory it makes
  is fresh, that a removal succeeds (a failure of it is only logged), and that git and the other ports, the plan writer
  included, make and remove no temporary directory of their own. \<open>Run\<close> does not call the clean-up function of a failed
  acquisition, although the contract of the port demands it; the acquirer itself cleans up then, which is why nothing
  is leaked.
\<close>
theorem workspaces_released:
  assumes "pipeline_keeps copies p" and "workspace_os_ok copies os"
    and "dp_acquirer p = Some (GitWorkspaceAcquirer_Acquire os)"
    and "\<forall>pw i plan path own. dp_planWriter p = Some pw \<longrightarrow> keeps copies (WritePlan pw i plan path own)"
    and "run_state (pipeline_Run p job) w = (r, w')"
  shows "copies w' = copies w"
  using pipeline_Run_copies [OF assms(1) git_workspaces [OF assms(2-4)]] assms(5) by (rule keepsD)

section \<open>The pipeline of the worker over the in-memory stores\<close>

text \<open>The detector, the cascade without a language model, the Louvain clusterer and the allocator are the models of
  the code; the working copy is empty and no contract can be derived. The graph is an argument.\<close>

definition demo_clusterer :: clusterer where
  "demo_clusterer input =
     (case Louvain_Cluster (\<lambda>x. x) in_order input of None \<Rightarrow> Inl (ErrStr ''no result'') | Some cr \<Rightarrow> Inr cr)"

definition demo_pipeline :: "Graph \<Rightarrow> mem DecompositionPipeline" where
  "demo_pipeline g =
     \<lparr> dp_loader = (\<lambda>i. if i = 5 then io_ok g else io_err (ErrStr ''no summary'')),
       dp_detector = (\<lambda>g. io_ok (PHPAware_Detect g)),
       dp_clusterer = Some (Cascade_Cluster demo_clusterer None),
       dp_allocator = Some (\<lambda>s. State_Monad.return (fst (Allocate s Map.empty))),
       dp_summaryLoader = None, dp_assessor = None,
       dp_acquirer = Some (\<lambda>u b. io_ok (''/w'', State_Monad.return ())),
       dp_files = State_Monad.return Map.empty,
       dp_deriver = Some (\<lambda>c ws t. io_err (ErrStr ''not implemented'')),
       dp_planWriter = Some (MongoPlanWriter mem_workers), dp_artifactStore = None \<rparr>"

lemma keeps_Cascade:
  "(\<And>f i. fallback = Some f \<Longrightarrow> keeps obs (f i)) \<Longrightarrow> keeps obs (Cascade_Cluster primary fallback input)"
  unfolding Cascade_Cluster_def by (auto split: sum.split option.split intro!: keeps_bind)

lemma demo_pipeline_over: "pipeline_over mem_workers mem_docs (demo_pipeline g)"
  by (auto simp: pipeline_over_def wired_def pipeline_keeps_def acquirer_keeps_def demo_pipeline_def intro: keeps_Cascade)

lemma mem_workers_answer: "workers_answer mem_workers"
  by (auto simp: workers_answer_def mem_workers_def mem_coll_def list_coll_def split: prod.splits)

interpretation mem_design: answering_decompose_env "MongoPlanWriter mem_workers"
  "\<lambda>w. doc_view (db_codecs mem_db) (mem_docs w)" "\<lambda>w. docs_ok (db_codecs mem_db) (mem_docs w)" "demo_pipeline []"
  by (rule mongo_answering_env [OF mem_workers_ok demo_pipeline_over mem_workers_answer])

definition demo_job :: JobPayload where
  "demo_job = \<lparr> job_MigrationID = 1, job_SummaryID = 5, job_RemoteURL = ''https://git/r'', job_DefaultBranch = [] \<rparr>"

theorem decompose_job_outcome_witness:
  "\<exists>cr plan m t. plan_of cr plan \<and> map (serviceNameFromBlueprint \<circ> cluster_BlueprintGroup) (cr_Clusters cr) = [''user''] \<and>
     doc_view (db_codecs mem_db) (mem_docs (snd (run_state
       (ProcessTask (demo_pipeline (ci_DomainGraph two_blueprints)) ''skip'' False (Inr demo_job))
       (demo_world MIGRATION_STATE_DESIGNING)))) 1 = Some (planned plan t m)"
proof -
  let ?p = "demo_pipeline (ci_DomainGraph two_blueprints)" and ?w = "demo_world MIGRATION_STATE_DESIGNING"
  let ?run = "run_state (ProcessTask ?p ''skip'' False (Inr demo_job)) ?w"
  have r: "fst ?run = Inr ()" by code_simp
  have load: "map_option (\<lambda>(g, dg, cls, cr). map (serviceNameFromBlueprint \<circ> cluster_BlueprintGroup) (cr_Clusters cr))
      (projr (fst (run_state (load_and_cluster ?p demo_job) ?w))) = Some [''user'']" by code_simp
  from decompose_job_outcome [OF mem_workers_ok demo_pipeline_over demo_world_ok prod.collapse [symmetric],
      of "ci_DomainGraph two_blueprints" "''skip''" False demo_job MIGRATION_STATE_DESIGNING] r
  obtain g dg cls cr w0 plan m t where l: "run_state (load_and_cluster ?p demo_job) ?w = (Inr (Some (g, dg, cls, cr)), w0)"
    and plan: "plan_of cr plan"
    and view: "doc_view (db_codecs mem_db) (mem_docs (snd ?run)) =
      (doc_view (db_codecs mem_db) (mem_docs ?w))(job_MigrationID demo_job \<mapsto> planned plan t m)"
    by auto
  have "doc_view (db_codecs mem_db) (mem_docs (snd ?run)) 1 = Some (planned plan t m)"
    unfolding view by (simp add: demo_job_def)
  moreover have "map (serviceNameFromBlueprint \<circ> cluster_BlueprintGroup) (cr_Clusters cr) = [''user'']"
    using load by (simp add: l)
  ultimately show ?thesis using plan by (intro exI [of _ cr] exI [of _ plan] exI [of _ m] exI [of _ t] conjI)
qed

theorem last_attempt_settles_design_witness:
  "\<exists>m'. doc_view (db_codecs mem_db) (mem_docs (snd (run_state
       (ProcessTask (demo_pipeline []) ''skip'' True (Inr (demo_job\<lparr>job_SummaryID := 6\<rparr>)))
       (demo_world MIGRATION_STATE_DESIGNING)))) 1 = Some m' \<and> mig_State m' = MIGRATION_STATE_FAILED"
proof -
  let ?job = "demo_job\<lparr>job_SummaryID := 6\<rparr>" and ?w = "demo_world MIGRATION_STATE_DESIGNING"
  let ?run = "run_state (ProcessTask (demo_pipeline []) ''skip'' True (Inr ?job)) ?w"
  obtain m where m: "doc_view (db_codecs mem_db) (mem_docs ?w) (job_MigrationID ?job) = Some m" "mig_DeleteTime m = None"
      "mig_State m = MIGRATION_STATE_DESIGNING"
    using demo_world_view [of MIGRATION_STATE_DESIGNING]
    by (simp add: demo_job_def demo_doc_def migrationDocToDomain_def doc_roadmap_def unmarshal_field_def)
  have "isl (fst ?run)" by code_simp
  with last_attempt_settles_design [OF mem_workers_ok demo_pipeline_over mem_workers_answer demo_world_ok m _
      prod.collapse [symmetric], of "[]" "''skip''"]
  obtain m' where "doc_view (db_codecs mem_db) (mem_docs (snd ?run)) =
      (doc_view (db_codecs mem_db) (mem_docs ?w))(job_MigrationID ?job \<mapsto> m')" "mig_State m' = MIGRATION_STATE_FAILED"
    by (auto simp: demo_job_def)
  moreover have "job_MigrationID ?job = 1" by (simp add: demo_job_def)
  ultimately show ?thesis by (intro exI [of _ m']) (simp only: fun_upd_same simp_thms)
qed

text \<open>A graph of unrelated modules of one group each leaves no boundaries.\<close>

theorem no_boundaries_needs_no_workspace_witness:
  "run_state (pipeline_Run (demo_pipeline []) demo_job) (demo_world MIGRATION_STATE_DESIGNING) =
     run_state (pipeline_Run ((demo_pipeline [])\<lparr>dp_acquirer := Some (\<lambda>u b. io_err (ErrStr ''authentication failed'')),
       dp_deriver := None, dp_files := State_Monad.return Map.empty, dp_artifactStore := None\<rparr>) demo_job)
       (demo_world MIGRATION_STATE_DESIGNING)"
proof -
  let ?load = "run_state (load_and_cluster (demo_pipeline []) demo_job) (demo_world MIGRATION_STATE_DESIGNING)"
  have "map_option (\<lambda>(g, dg, cls, cr). cr_Clusters cr) (projr (fst ?load)) = Some [] \<and> \<not> isl (fst ?load)" by code_simp
  then obtain g dg cls cr where "?load = (Inr (Some (g, dg, cls, cr)), snd ?load)" "cr_Clusters cr = []"
    by (cases "fst ?load") (auto simp: prod_eq_iff)
  then show ?thesis by (rule no_boundaries_needs_no_workspace)
qed

text \<open>A worker whose world is the list of the temporary directories that exist. Git refuses to clone a branch that is
  named, and the plan cannot be written.\<close>

definition listed_os :: "string list WorkspaceOS" where
  "listed_os =
     \<lparr> os_MkdirTemp = (\<lambda>pattern. State (\<lambda>w. (Inr (CHR ''x'' # concat w), (CHR ''x'' # concat w) # w))),
       os_RemoveAll = (\<lambda>d. State (\<lambda>w. (Inr (), removeAll d w))),
       os_Git = (\<lambda>args. State_Monad.return (if ''--branch'' \<in> set args
         then (''fatal: Remote branch not found'', Some (ErrStr ''exit status 128'')) else ([], None))) \<rparr>"

lemma listed_os_ok: "workspace_os_ok set listed_os"
proof -
  have "length x \<le> length (concat w)" if "x \<in> set w" for x and w :: "string list"
    using that by (induction w) auto
  then have "CHR ''x'' # concat w \<notin> set w" for w by fastforce
  then show ?thesis by (auto simp: workspace_os_ok_def listed_os_def)
qed

definition copying_pipeline :: "Graph \<Rightarrow> string list DecompositionPipeline" where
  "copying_pipeline g =
     \<lparr> dp_loader = (\<lambda>i. io_ok g), dp_detector = (\<lambda>g. io_ok (PHPAware_Detect g)),
       dp_clusterer = Some (Cascade_Cluster demo_clusterer None),
       dp_allocator = Some (\<lambda>s. State_Monad.return (fst (Allocate s Map.empty))),
       dp_summaryLoader = None, dp_assessor = None,
       dp_acquirer = Some (GitWorkspaceAcquirer_Acquire listed_os),
       dp_files = State_Monad.return Map.empty, dp_deriver = Some (\<lambda>c ws t. io_err (ErrStr ''not implemented'')),
       dp_planWriter = Some \<lparr> WritePlan = (\<lambda>i plan path own. io_err (ErrStr ''timeout'')),
                             plan_MarkFailed = (\<lambda>i reason. io_ok ()) \<rparr>,
       dp_artifactStore = None \<rparr>"

text \<open>The clone fails for the first job; for the second one the copy is made and the plan cannot be written.\<close>

theorem workspaces_released_witness:
  "let p = copying_pipeline (ci_DomainGraph two_blueprints);
       failed = run_state (pipeline_Run p (demo_job\<lparr>job_DefaultBranch := ''gone''\<rparr>)) [''/old''];
       cloned = run_state (pipeline_Run p demo_job) [''/old'']
   in isl (fst failed) \<and> isl (fst cloned) \<and> set (snd failed) = {''/old''} \<and> set (snd cloned) = {''/old''}"
proof -
  let ?p = "copying_pipeline (ci_DomainGraph two_blueprints)"
  have "pipeline_keeps set ?p"
    by (auto simp: pipeline_keeps_def copying_pipeline_def intro: keeps_Cascade)
  moreover have "dp_acquirer ?p = Some (GitWorkspaceAcquirer_Acquire listed_os)"
    and "\<forall>pw i plan path own. dp_planWriter ?p = Some pw \<longrightarrow> keeps set (WritePlan pw i plan path own)"
    by (auto simp: copying_pipeline_def)
  ultimately have kept: "set (snd (run_state (pipeline_Run ?p job) [''/old''])) = {''/old''}" for job
    using workspaces_released [OF _ listed_os_ok _ _ prod.collapse [symmetric], of ?p job "[''/old'']"] by simp
  have "isl (fst (run_state (pipeline_Run ?p (demo_job\<lparr>job_DefaultBranch := ''gone''\<rparr>)) [''/old'']))"
    and "isl (fst (run_state (pipeline_Run ?p demo_job) [''/old'']))" by code_simp+
  with kept show ?thesis by (simp add: Let_def)
qed

end
