(* ===== verification/Generation_Store.thy ===== *)
theory Generation_Store
  imports Prism_Messages "HOL-Library.AList"
begin

text \<open>
  The data of the generation worker (\<^verbatim>\<open>worker/generation/domain/domain.go\<close>, the ports) and its store over
  MongoDB (\<^verbatim>\<open>worker/generation/infrastructure/adapters/mongo_generation_store.go\<close>). The two collections are the
  lists of their documents in the order of insertion, without the time of the last update, which nothing reads.
  Whether a write took effect is an argument: the worker only logs an error of the store.
\<close>

section \<open>Data\<close>

datatype ServiceStatus = StatusPending | StatusGenerating | StatusDone | StatusFailed

record GenFileArtifact =
  fa_Path :: string
  fa_Content :: string

record ServiceRecord =
  sg_MigrationID :: u64
  sg_ServiceName :: string
  sg_Status :: ServiceStatus
  sg_GatesPassed :: bool
  sg_FailureReason :: string
  sg_TotalCostUSD :: rat
  sg_GeneratedFileCount :: int
  sg_InputTokens :: u64
  sg_CacheCreationInputTokens :: u64
  sg_CacheReadInputTokens :: u64
  sg_OutputTokens :: u64
  sg_AgentRawResult :: string

record ArtifactDoc =
  ad_MigrationID :: u64
  ad_ServiceName :: string
  ad_Path :: string
  ad_Content :: string

record GenStore =
  gs_records :: "ServiceRecord list"
  gs_artifacts :: "ArtifactDoc list"

definition zero_record :: ServiceRecord where
  "zero_record =
     \<lparr> sg_MigrationID = 0, sg_ServiceName = [], sg_Status = StatusPending, sg_GatesPassed = False,
       sg_FailureReason = [], sg_TotalCostUSD = 0, sg_GeneratedFileCount = 0, sg_InputTokens = 0,
       sg_CacheCreationInputTokens = 0, sg_CacheReadInputTokens = 0, sg_OutputTokens = 0, sg_AgentRawResult = [] \<rparr>"

section \<open>Upserts\<close>

text \<open>An update with the upsert option: the first document with the key is rewritten, without one a document is
  inserted. \<open>merge old new\<close> is what \<^verbatim>\<open>$set\<close> of the fields of \<open>new\<close> makes of \<open>old\<close>.\<close>

fun upsert :: "('d \<Rightarrow> 'd \<Rightarrow> bool) \<Rightarrow> ('d \<Rightarrow> 'd \<Rightarrow> 'd) \<Rightarrow> 'd \<Rightarrow> 'd list \<Rightarrow> 'd list" where
  "upsert same merge new [] = [new]"
| "upsert same merge new (d # ds) = (if same d new then merge d new # ds else d # upsert same merge new ds)"

definition same_record :: "ServiceRecord \<Rightarrow> ServiceRecord \<Rightarrow> bool" where
  "same_record d rec \<longleftrightarrow> sg_MigrationID d = sg_MigrationID rec \<and> sg_ServiceName d = sg_ServiceName rec"

text \<open>The failure reason and the raw result are marked \<^verbatim>\<open>omitempty\<close>: an empty one is not among the fields that are set.\<close>

definition merge_record :: "ServiceRecord \<Rightarrow> ServiceRecord \<Rightarrow> ServiceRecord" where
  "merge_record d rec = rec
     \<lparr> sg_FailureReason := (if sg_FailureReason rec = [] then sg_FailureReason d else sg_FailureReason rec),
       sg_AgentRawResult := (if sg_AgentRawResult rec = [] then sg_AgentRawResult d else sg_AgentRawResult rec) \<rparr>"

definition UpsertRecord :: "ServiceRecord \<Rightarrow> bool \<Rightarrow> GenStore \<Rightarrow> GenStore" where
  "UpsertRecord rec effect s =
     (if effect then s\<lparr>gs_records := upsert same_record merge_record rec (gs_records s)\<rparr> else s)"

definition ListRecords :: "u64 \<Rightarrow> GenStore \<Rightarrow> ServiceRecord list" where
  "ListRecords migrationID s = filter (\<lambda>d. sg_MigrationID d = migrationID) (gs_records s)"

definition same_artifact :: "ArtifactDoc \<Rightarrow> ArtifactDoc \<Rightarrow> bool" where
  "same_artifact d doc \<longleftrightarrow>
     ad_MigrationID d = ad_MigrationID doc \<and> ad_ServiceName d = ad_ServiceName doc \<and> ad_Path d = ad_Path doc"

text \<open>The bulk write is not ordered and writes each document that is accepted; the fallback writes them one by
  one. So either way an artifact is written or rejected on its own; \<open>accepted\<close> says which ones are.\<close>

definition UpsertArtifacts :: "u64 \<Rightarrow> string \<Rightarrow> GenFileArtifact list \<Rightarrow> (GenFileArtifact \<Rightarrow> bool) \<Rightarrow> GenStore \<Rightarrow> GenStore" where
  "UpsertArtifacts migrationID serviceName artifacts accepted s =
     s\<lparr>gs_artifacts := foldl
        (\<lambda>ds a. if accepted a
                then upsert same_artifact (\<lambda>d doc. doc)
                       \<lparr> ad_MigrationID = migrationID, ad_ServiceName = serviceName, ad_Path = fa_Path a,
                         ad_Content = fa_Content a \<rparr> ds
                else ds) (gs_artifacts s) artifacts\<rparr>"

definition ListArtifacts :: "u64 \<Rightarrow> string \<Rightarrow> GenStore \<Rightarrow> GenFileArtifact list" where
  "ListArtifacts migrationID serviceName s =
     sort_slice (\<lambda>x y. fa_Path x < fa_Path y)
       (map (\<lambda>d. \<lparr> fa_Path = ad_Path d, fa_Content = ad_Content d \<rparr>)
          (filter (\<lambda>d. ad_MigrationID d = migrationID \<and> ad_ServiceName d = serviceName) (gs_artifacts s)))"

section \<open>The records of one migration\<close>

text \<open>A unique index covers the key, so a key has one document; \<open>record_of\<close> finds it.\<close>

definition record_key :: "ServiceRecord \<Rightarrow> u64 \<times> string" where
  "record_key d = (sg_MigrationID d, sg_ServiceName d)"

definition record_of :: "u64 \<Rightarrow> string \<Rightarrow> GenStore \<Rightarrow> ServiceRecord option" where
  "record_of migrationID name s = find (\<lambda>d. record_key d = (migrationID, name)) (gs_records s)"

definition store_ok :: "GenStore \<Rightarrow> bool" where
  "store_ok s \<longleftrightarrow> distinct (map record_key (gs_records s))"

lemma same_record_key: "same_record d rec \<longleftrightarrow> record_key d = record_key rec"
  by (simp add: same_record_def record_key_def)

lemma merge_record_key [simp]: "record_key (merge_record d rec) = record_key rec"
  by (simp add: merge_record_def record_key_def)

lemma merge_record_status [simp]: "sg_Status (merge_record d rec) = sg_Status rec"
  by (simp add: merge_record_def)

lemma upsert_keys:
  "record_key ` set (upsert same_record merge_record rec ds) = insert (record_key rec) (record_key ` set ds)"
  by (induction ds) (auto simp: same_record_key)

lemma upsert_distinct:
  "distinct (map record_key ds) \<Longrightarrow> distinct (map record_key (upsert same_record merge_record rec ds))"
proof (induction ds)
  case (Cons d ds)
  moreover have "record_key d \<notin> record_key ` set (upsert same_record merge_record rec ds)" if "record_key d \<noteq> record_key rec"
    using Cons.prems that unfolding upsert_keys by auto
  ultimately show ?case by (auto simp: same_record_key [of d])
qed simp

lemma upsert_find:
  "find (\<lambda>d. record_key d = k) (upsert same_record merge_record rec ds) =
     (if k = record_key rec
      then Some (case find (\<lambda>d. record_key d = k) ds of None \<Rightarrow> rec | Some d \<Rightarrow> merge_record d rec)
      else find (\<lambda>d. record_key d = k) ds)"
  by (induction ds) (auto simp: same_record_key)

lemma UpsertRecord_ok: "store_ok s \<Longrightarrow> store_ok (UpsertRecord rec effect s)"
  by (simp add: store_ok_def UpsertRecord_def upsert_distinct)

lemma UpsertRecord_record_of:
  "record_of i name (UpsertRecord rec True s) =
     (if record_key rec = (i, name)
      then Some (case record_of i name s of None \<Rightarrow> rec | Some d \<Rightarrow> merge_record d rec) else record_of i name s)"
  by (auto simp: record_of_def UpsertRecord_def upsert_find)

lemma UpsertRecord_other:
  "record_key rec \<noteq> (i, name) \<Longrightarrow> record_of i name (UpsertRecord rec effect s) = record_of i name s"
  by (auto simp: record_of_def UpsertRecord_def upsert_find)

lemma UpsertArtifacts_records [simp]:
  "gs_records (UpsertArtifacts i name as accepted s) = gs_records s"
  "record_of i' n' (UpsertArtifacts i name as accepted s) = record_of i' n' s"
  "store_ok (UpsertArtifacts i name as accepted s) = store_ok s"
  by (simp_all add: UpsertArtifacts_def record_of_def store_ok_def)

lemma find_distinct_key:
  "distinct (map f ds) \<Longrightarrow> d \<in> set ds \<Longrightarrow> f d = k \<Longrightarrow> find (\<lambda>d. f d = k) ds = Some d"
  by (induction ds) auto

lemma record_of_ListRecords:
  assumes "store_ok s"
  shows "d \<in> set (ListRecords i s) \<longleftrightarrow> (\<exists>name. record_of i name s = Some d)"
proof
  assume "d \<in> set (ListRecords i s)"
  then have "d \<in> set (gs_records s)" "record_key d = (i, sg_ServiceName d)"
    by (auto simp: ListRecords_def record_key_def)
  with assms have "record_of i (sg_ServiceName d) s = Some d"
    by (simp add: record_of_def store_ok_def find_distinct_key)
  then show "\<exists>name. record_of i name s = Some d" by blast
next
  assume "\<exists>name. record_of i name s = Some d"
  then obtain name where "find (\<lambda>d. record_key d = (i, name)) (gs_records s) = Some d"
    by (auto simp: record_of_def)
  from find_SomeD [OF this] show "d \<in> set (ListRecords i s)"
    by (auto simp: ListRecords_def record_key_def)
qed

lemma record_of_key: "record_of i name s = Some d \<Longrightarrow> record_key d = (i, name)"
  by (auto simp: record_of_def dest: find_SomeD)

end
