(* ===== verification/Generation_Pipeline.thy ===== *)
theory Generation_Pipeline
  imports Generation_Store
begin

text \<open>
  The run of the generation worker (\<^verbatim>\<open>worker/generation/application/pipeline.go\<close>): one goroutine per service, a
  semaphore that bounds how many of them work, retries with a back-off, and a record per service in the store. The
  goroutines interleave at their calls of the semaphore, the store and the agent, so the run is a state machine:
  an event is one such call with the answer of the outside.
\<close>

section \<open>Data of the ports\<close>

record ServiceSpec =
  ss_Name :: string
  ss_ErrorPrefix :: string
  ss_ProtoContent :: string
  ss_BoundarySpec :: string
  ss_Incomplete :: bool
  ss_IncompleteReason :: string
  ss_GeneratorPromptRef :: string

record GenPackage =
  wp_MigrationID :: u64
  wp_OutputProfile :: string
  wp_Services :: "ServiceSpec list"

record GenPayload =
  gj_MigrationID :: u64
  gj_ServiceFilter :: "string list"

record InvokeRequest =
  iq_ServiceName :: string
  iq_ErrorPrefix :: string
  iq_ProtoContent :: string
  iq_BoundarySpec :: string
  iq_GeneratorPromptRef :: string
  iq_OutputProfile :: string
  iq_APIKey :: string
  iq_SessionCredentialsDir :: string

record InvokeResult =
  ir_Success :: bool
  ir_ExitCode :: int
  ir_RawResult :: string
  ir_GatesPassed :: bool
  ir_GeneratedFiles :: "string list"
  ir_FileArtifacts :: "GenFileArtifact list"
  ir_TotalCostUSD :: rat
  ir_InputTokens :: u64
  ir_CacheCreationInputTokens :: u64
  ir_CacheReadInputTokens :: u64
  ir_OutputTokens :: u64
  ir_FailureReason :: string

definition zero_result :: InvokeResult where
  "zero_result =
     \<lparr> ir_Success = False, ir_ExitCode = 0, ir_RawResult = [], ir_GatesPassed = False, ir_GeneratedFiles = [],
       ir_FileArtifacts = [], ir_TotalCostUSD = 0, ir_InputTokens = 0, ir_CacheCreationInputTokens = 0,
       ir_CacheReadInputTokens = 0, ir_OutputTokens = 0, ir_FailureReason = [] \<rparr>"

definition invoke_request :: "string \<Rightarrow> string \<Rightarrow> string \<Rightarrow> ServiceSpec \<Rightarrow> InvokeRequest" where
  "invoke_request apiKey credDir profile spec =
     \<lparr> iq_ServiceName = ss_Name spec, iq_ErrorPrefix = ss_ErrorPrefix spec, iq_ProtoContent = ss_ProtoContent spec,
       iq_BoundarySpec = ss_BoundarySpec spec, iq_GeneratorPromptRef = ss_GeneratorPromptRef spec,
       iq_OutputProfile = profile, iq_APIKey = apiKey, iq_SessionCredentialsDir = credDir \<rparr>"

section \<open>Retries\<close>

definition maxServiceAttempts :: nat where "maxServiceAttempts = 3"

definition rateLimitKeywords :: "string list" where
  "rateLimitKeywords =
     [''rate limit'', ''rate_limit'', ''too many requests'', ''429'', ''overloaded'', ''server temporarily unavailable'']"

definition isTransientError :: "go_error option \<Rightarrow> string \<Rightarrow> bool" where
  "isTransientError invokeErr failureReason \<longleftrightarrow>
     invokeErr \<noteq> None \<or> (\<exists>kw \<in> set rateLimitKeywords. Contains (ToLower failureReason) kw)"

section \<open>The selection of the services\<close>

definition select_services :: "ServiceSpec list \<Rightarrow> string list \<Rightarrow> ServiceSpec list" where
  "select_services services serviceFilter =
     (if serviceFilter = [] then services else filter (\<lambda>svc. ss_Name svc \<in> set serviceFilter) services)"

definition done_names :: "ServiceRecord list \<Rightarrow> string set" where
  "done_names rs = sg_ServiceName ` set (filter (\<lambda>r. sg_Status r = StatusDone) rs)"

section \<open>The records that are written\<close>

definition incomplete_record :: "u64 \<Rightarrow> ServiceSpec \<Rightarrow> ServiceRecord" where
  "incomplete_record migrationID svc = zero_record
     \<lparr> sg_MigrationID := migrationID, sg_ServiceName := ss_Name svc, sg_Status := StatusFailed,
       sg_FailureReason := ss_IncompleteReason svc \<rparr>"

definition cancelled_record :: "u64 \<Rightarrow> ServiceSpec \<Rightarrow> ServiceRecord" where
  "cancelled_record migrationID svc = zero_record
     \<lparr> sg_MigrationID := migrationID, sg_ServiceName := ss_Name svc, sg_Status := StatusFailed,
       sg_FailureReason := ''context cancelled before generation started'' \<rparr>"

definition generating_record :: "u64 \<Rightarrow> ServiceSpec \<Rightarrow> ServiceRecord" where
  "generating_record migrationID spec = zero_record
     \<lparr> sg_MigrationID := migrationID, sg_ServiceName := ss_Name spec, sg_Status := StatusGenerating \<rparr>"

definition result_record :: "u64 \<Rightarrow> ServiceSpec \<Rightarrow> InvokeResult \<Rightarrow> go_error option \<Rightarrow> ServiceRecord" where
  "result_record migrationID spec result invokeErr =
     (let rec =
        \<lparr> sg_MigrationID = migrationID, sg_ServiceName = ss_Name spec, sg_Status = StatusPending,
          sg_GatesPassed = False, sg_FailureReason = [], sg_TotalCostUSD = ir_TotalCostUSD result,
          sg_GeneratedFileCount = int (length (ir_GeneratedFiles result)),
          sg_InputTokens = ir_InputTokens result,
          sg_CacheCreationInputTokens = ir_CacheCreationInputTokens result,
          sg_CacheReadInputTokens = ir_CacheReadInputTokens result,
          sg_OutputTokens = ir_OutputTokens result, sg_AgentRawResult = ir_RawResult result \<rparr>
      in case invokeErr of
           Some e \<Rightarrow> rec\<lparr>sg_Status := StatusFailed, sg_FailureReason := error_text e\<rparr>
         | None \<Rightarrow>
             if \<not> ir_GatesPassed result
             then rec\<lparr>sg_Status := StatusFailed, sg_FailureReason := ir_FailureReason result\<rparr>
             else rec\<lparr>sg_Status := StatusDone, sg_GatesPassed := True\<rparr>)"

section \<open>One goroutine\<close>

text \<open>Where a goroutine is: before the semaphore, before the mark, in an attempt, in the back-off after an attempt,
  before the write of the result, before the write of the files, and at its end.\<close>

datatype phase =
    Waiting
  | Marking
  | Invoking nat
  | BackingOff nat InvokeResult
  | Persisting InvokeResult "go_error option"
  | Storing InvokeResult
  | Finished

definition holds_slot :: "phase \<Rightarrow> bool" where
  "holds_slot p \<longleftrightarrow> p \<noteq> Waiting \<and> p \<noteq> Finished"

definition after_attempt :: "nat \<Rightarrow> InvokeResult \<Rightarrow> go_error option \<Rightarrow> phase" where
  "after_attempt attempt result invokeErr =
     (if invokeErr = None \<and> ir_GatesPassed result then Persisting result invokeErr
      else if \<not> isTransientError invokeErr (ir_FailureReason result) then Persisting result invokeErr
      else if attempt < maxServiceAttempts then BackingOff attempt result
      else Persisting result invokeErr)"

text \<open>Its events: it gets the semaphore or its context ends first, the agent answers, the timer of the back-off
  fires or the context ends first, and the three writes. A boolean says whether a write took effect.\<close>

datatype goroutine_event =
    Acquire
  | AcquireFails bool
  | MarkGenerating bool
  | AgentAnswers InvokeResult "go_error option"
  | TimerFires
  | ContextDone go_error
  | PersistResult bool
  | PersistArtifacts "GenFileArtifact \<Rightarrow> bool"

fun goroutine_step ::
  "u64 \<Rightarrow> bool \<Rightarrow> ServiceSpec \<Rightarrow> goroutine_event \<Rightarrow> phase \<Rightarrow> GenStore \<Rightarrow> (phase \<times> GenStore) option" where
  "goroutine_step m free spec Acquire Waiting s = (if free then Some (Marking, s) else None)"
| "goroutine_step m free spec (AcquireFails effect) Waiting s =
     Some (Finished, UpsertRecord (cancelled_record m spec) effect s)"
| "goroutine_step m free spec (MarkGenerating effect) Marking s =
     Some (Invoking 1, UpsertRecord (generating_record m spec) effect s)"
| "goroutine_step m free spec (AgentAnswers result invokeErr) (Invoking attempt) s =
     Some (after_attempt attempt result invokeErr, s)"
| "goroutine_step m free spec TimerFires (BackingOff attempt result) s = Some (Invoking (attempt + 1), s)"
| "goroutine_step m free spec (ContextDone e) (BackingOff attempt result) s = Some (Persisting result (Some e), s)"
| "goroutine_step m free spec (PersistResult effect) (Persisting result invokeErr) s =
     Some (if ir_FileArtifacts result = [] then Finished else Storing result,
           UpsertRecord (result_record m spec result invokeErr) effect s)"
| "goroutine_step m free spec (PersistArtifacts accepted) (Storing result) s =
     Some (Finished, UpsertArtifacts m (ss_Name spec) (ir_FileArtifacts result) accepted s)"
| "goroutine_step m free spec e p s = None"

section \<open>The run\<close>

record GenState =
  gt_todo :: "ServiceSpec list"
  gt_workers :: "(ServiceSpec \<times> phase) list"
  gt_store :: GenStore

datatype gen_event = NextService bool | Goroutine nat goroutine_event

definition slots_used :: "GenState \<Rightarrow> nat" where
  "slots_used st = length (filter (\<lambda>(spec, p). holds_slot p) (gt_workers st))"

definition next_service :: "u64 \<Rightarrow> string set \<Rightarrow> bool \<Rightarrow> GenState \<Rightarrow> GenState option" where
  "next_service m doneSet effect st =
     (case gt_todo st of
        [] \<Rightarrow> None
      | svc # rest \<Rightarrow>
          if ss_Name svc \<in> doneSet then Some (st\<lparr>gt_todo := rest\<rparr>)
          else if ss_Incomplete svc
          then Some (st\<lparr>gt_todo := rest, gt_store := UpsertRecord (incomplete_record m svc) effect (gt_store st)\<rparr>)
          else Some (st\<lparr>gt_todo := rest, gt_workers := gt_workers st @ [(svc, Waiting)]\<rparr>))"

fun gen_step :: "int \<Rightarrow> u64 \<Rightarrow> string set \<Rightarrow> gen_event \<Rightarrow> GenState \<Rightarrow> GenState option" where
  "gen_step concurrency m doneSet (NextService effect) st = next_service m doneSet effect st"
| "gen_step concurrency m doneSet (Goroutine i e) st =
     (if i < length (gt_workers st)
      then let (spec, p) = gt_workers st ! i
           in case goroutine_step m (int (slots_used st) < concurrency) spec e p (gt_store st) of
                None \<Rightarrow> None
              | Some (p', s') \<Rightarrow> Some (st\<lparr>gt_workers := (gt_workers st)[i := (spec, p')], gt_store := s'\<rparr>)
      else None)"

fun gen_steps :: "int \<Rightarrow> u64 \<Rightarrow> string set \<Rightarrow> gen_event list \<Rightarrow> GenState \<Rightarrow> GenState option" where
  "gen_steps concurrency m doneSet [] st = Some st"
| "gen_steps concurrency m doneSet (e # es) st =
     (case gen_step concurrency m doneSet e st of
        None \<Rightarrow> None | Some st' \<Rightarrow> gen_steps concurrency m doneSet es st')"

text \<open>\<^verbatim>\<open>wg.Wait\<close> returns when the loop is over and every goroutine has ended.\<close>

definition all_finished :: "GenState \<Rightarrow> bool" where
  "all_finished st \<longleftrightarrow> gt_todo st = [] \<and> (\<forall>w \<in> set (gt_workers st). snd w = Finished)"

definition gen_start :: "ServiceSpec list \<Rightarrow> GenStore \<Rightarrow> GenState" where
  "gen_start services s = \<lparr> gt_todo = services, gt_workers = [], gt_store = s \<rparr>"

text \<open>The end of the run: the migration fails when a record of it does.\<close>

definition gen_verdict :: "ServiceRecord list \<Rightarrow> MigrationState" where
  "gen_verdict records =
     (if \<exists>r \<in> set records. sg_Status r = StatusFailed then MIGRATION_STATE_FAILED else MIGRATION_STATE_READY)"

end
