(* ===== verification/Generation_Outcomes.thy ===== *)
theory Generation_Outcomes
  imports Generation_Pipeline Worker_Writers
begin

text \<open>
  What the run of the generation worker promises: at most \<open>concurrency\<close> services are with the agent and none more
  than three times, every run ends, and the records at its end say what the agent answered.
\<close>

section \<open>Runs\<close>

lemma gen_steps_snoc:
  "gen_steps c m D (es @ [e]) st = Option.bind (gen_steps c m D es st) (gen_step c m D e)"
  by (induction es arbitrary: st) (auto split: option.splits)

lemma gen_steps_induct [consumes 1, case_names start step]:
  assumes "gen_steps c m D es st0 = Some st"
    and "P [] st0"
    and "\<And>es st e st'. gen_steps c m D es st0 = Some st \<Longrightarrow> P es st \<Longrightarrow> gen_step c m D e st = Some st' \<Longrightarrow> P (es @ [e]) st'"
  shows "P es st"
  using assms(1)
proof (induction es arbitrary: st rule: rev_induct)
  case Nil
  then show ?case using assms(2) by simp
next
  case (snoc e es)
  from snoc.prems obtain st1 where "gen_steps c m D es st0 = Some st1" "gen_step c m D e st1 = Some st"
    by (auto simp: gen_steps_snoc bind_eq_Some_conv)
  then show ?case using snoc.IH assms(3) by blast
qed

text \<open>A step is a turn of the loop or an event of one goroutine.\<close>

lemma gen_stepE:
  assumes "gen_step c m D e st = Some st'"
  obtains (loop) effect where "e = NextService effect" "next_service m D effect st = Some st'"
  | (work) i we spec p p' s' where "e = Goroutine i we" "i < length (gt_workers st)" "gt_workers st ! i = (spec, p)"
      "goroutine_step m (int (slots_used st) < c) spec we p (gt_store st) = Some (p', s')"
      "st' = st\<lparr>gt_workers := (gt_workers st)[i := (spec, p')], gt_store := s'\<rparr>"
  using assms by (cases e) (auto split: if_splits option.splits prod.splits)

fun_cases goroutine_stepE: "goroutine_step m free spec e p s = Some r"

section \<open>Slots and attempts\<close>

lemma length_filter_update:
  "i < length xs \<Longrightarrow> length (filter P (xs[i := y])) \<le> length (filter P xs) + (if P y \<and> \<not> P (xs ! i) then 1 else 0)"
proof (induction xs arbitrary: i)
  case (Cons x xs)
  show ?case
  proof (cases i)
    case (Suc j)
    with Cons.IH [of j] Cons.prems show ?thesis by (auto split: if_splits)
  qed simp
qed simp

definition agent_calls :: "nat \<Rightarrow> gen_event list \<Rightarrow> nat" where
  "agent_calls i es = length (filter (\<lambda>e. case e of Goroutine j (AgentAnswers r x) \<Rightarrow> j = i | _ \<Rightarrow> False) es)"

fun attempts_ok :: "nat \<Rightarrow> phase \<Rightarrow> bool" where
  "attempts_ok n Waiting \<longleftrightarrow> n = 0"
| "attempts_ok n Marking \<longleftrightarrow> n = 0"
| "attempts_ok n (Invoking a) \<longleftrightarrow> a = n + 1 \<and> n < maxServiceAttempts"
| "attempts_ok n (BackingOff a result) \<longleftrightarrow> a = n \<and> n < maxServiceAttempts"
| "attempts_ok n (Persisting result err) \<longleftrightarrow> n \<le> maxServiceAttempts"
| "attempts_ok n (Storing result) \<longleftrightarrow> n \<le> maxServiceAttempts"
| "attempts_ok n Finished \<longleftrightarrow> n \<le> maxServiceAttempts"

lemma attempts_bound: "attempts_ok n p \<Longrightarrow> n \<le> maxServiceAttempts"
  by (cases p) auto

lemma worker_attempts:
  assumes "goroutine_step m free spec e p s = Some (p', s')" and "attempts_ok n p"
  shows "attempts_ok (n + (case e of AgentAnswers r x \<Rightarrow> 1 | _ \<Rightarrow> 0)) p'"
  using assms by (elim goroutine_stepE) (auto simp: after_attempt_def maxServiceAttempts_def split: if_splits)

lemma worker_slot:
  assumes "goroutine_step m free spec e p s = Some (p', s')" and "holds_slot p'" and "\<not> holds_slot p"
  shows "free"
  using assms by (elim goroutine_stepE) (auto simp: holds_slot_def split: if_splits)

lemma agent_calls_snoc:
  "agent_calls i (es @ [e]) =
     agent_calls i es + (case e of Goroutine j (AgentAnswers r x) \<Rightarrow> of_bool (j = i) | _ \<Rightarrow> 0)"
  by (auto simp: agent_calls_def split: gen_event.splits goroutine_event.splits)

definition run_bounded :: "int \<Rightarrow> gen_event list \<Rightarrow> GenState \<Rightarrow> bool" where
  "run_bounded c es st \<longleftrightarrow> int (slots_used st) \<le> max 0 c \<and>
     (\<forall>i < length (gt_workers st). attempts_ok (agent_calls i es) (snd (gt_workers st ! i))) \<and>
     (\<forall>i \<ge> length (gt_workers st). agent_calls i es = 0)"

lemma run_bounded_step:
  assumes inv: "run_bounded c es st" and step: "gen_step c m D e st = Some st'"
  shows "run_bounded c (es @ [e]) st'"
  using step
proof (cases rule: gen_stepE)
  case (loop effect)
  then show ?thesis using inv
    by (auto simp: run_bounded_def next_service_def agent_calls_snoc slots_used_def nth_append holds_slot_def
        less_Suc_eq split: list.splits if_splits)
next
  case (work i we spec p p' s')
  let ?n = "agent_calls i es"
  have att: "attempts_ok (?n + (case we of AgentAnswers r x \<Rightarrow> 1 | _ \<Rightarrow> 0)) p'"
    using inv work(2,3,4) worker_attempts by (fastforce simp: run_bounded_def)
  have slots: "int (slots_used st') \<le> max 0 c"
  proof (cases "holds_slot p' \<and> \<not> holds_slot p")
    case True
    with worker_slot [OF work(4)] have "int (slots_used st) < c" by blast
    with length_filter_update [OF work(2), of "\<lambda>(spec, p). holds_slot p" "(spec, p')"] show ?thesis
      by (auto simp: slots_used_def work(5) split: if_splits)
  next
    case False
    with length_filter_update [OF work(2), of "\<lambda>(spec, p). holds_slot p" "(spec, p')"] inv work(3) show ?thesis
      by (auto simp: run_bounded_def slots_used_def work(5) split: if_splits)
  qed
  have calls: "agent_calls j (es @ [e]) = agent_calls j es + (if j = i then (case we of AgentAnswers r x \<Rightarrow> 1 | _ \<Rightarrow> 0) else 0)" for j
    by (auto simp: agent_calls_snoc work(1) split: goroutine_event.splits)
  show ?thesis unfolding run_bounded_def
  proof (intro conjI allI impI)
    show "int (slots_used st') \<le> max 0 c" by (rule slots)
    fix j
    show "attempts_ok (agent_calls j (es @ [e])) (snd (gt_workers st' ! j))" if "j < length (gt_workers st')"
      using that att inv work(2) by (cases "j = i") (simp_all add: calls work(5) run_bounded_def)
    show "agent_calls j (es @ [e]) = 0" if "length (gt_workers st') \<le> j"
      using that inv work(2) by (simp add: calls work(5) run_bounded_def)
  qed
qed

lemma run_bounded:
  assumes "gen_steps c m D es (gen_start services s) = Some st"
  shows "run_bounded c es st"
  using assms
proof (induction rule: gen_steps_induct)
  case start
  show ?case by (simp add: run_bounded_def gen_start_def slots_used_def agent_calls_def)
qed (rule run_bounded_step)

section \<open>Termination\<close>

text \<open>What is left to do: an upper bound on the number of events.\<close>

fun phase_work :: "phase \<Rightarrow> nat" where
  "phase_work Waiting = 9"
| "phase_work Marking = 8"
| "phase_work (Invoking a) = 3 + 2 * (maxServiceAttempts - a)"
| "phase_work (BackingOff a result) = 2 + 2 * (maxServiceAttempts - a)"
| "phase_work (Persisting result err) = 2"
| "phase_work (Storing result) = 1"
| "phase_work Finished = 0"

definition work_left :: "GenState \<Rightarrow> nat" where
  "work_left st = 10 * length (gt_todo st) + sum_list (map (phase_work \<circ> snd) (gt_workers st))"

lemma goroutine_work:
  assumes "goroutine_step m free spec e p s = Some (p', s')" and "attempts_ok n p"
  shows "phase_work p' < phase_work p"
  using assms by (elim goroutine_stepE) (auto simp: after_attempt_def maxServiceAttempts_def split: if_splits)

lemma step_work:
  assumes inv: "run_bounded c es st" and step: "gen_step c m D e st = Some st'"
  shows "work_left st' < work_left st"
  using step
proof (cases rule: gen_stepE)
  case (loop effect)
  then show ?thesis by (auto simp: next_service_def work_left_def split: list.splits if_splits)
next
  case (work i we spec p p' s')
  let ?ws = "map (phase_work \<circ> snd) (gt_workers st)"
  have "attempts_ok (agent_calls i es) p" using inv work(2,3) by (auto simp: run_bounded_def)
  then have less: "phase_work p' < phase_work p" by (rule goroutine_work [OF work(4)])
  have nth: "?ws ! i = phase_work p" using work(2,3) by simp
  then have "phase_work p \<le> sum_list ?ws" using elem_le_sum_list [of i ?ws] work(2) by simp
  moreover have "sum_list (?ws[i := phase_work p']) = sum_list ?ws + phase_work p' - phase_work p"
    using sum_list_update [of i ?ws "phase_work p'"] work(2) nth by simp
  ultimately show ?thesis using less by (simp add: work(5) work_left_def map_update)
qed

lemma run_work:
  assumes "gen_steps c m D es (gen_start services s) = Some st"
  shows "length es + work_left st \<le> 10 * length services"
proof -
  have "run_bounded c es st \<and> length es + work_left st \<le> 10 * length services"
    using assms
  proof (induction rule: gen_steps_induct)
    case start
    show ?case using run_bounded [of c m D "[]" services s] by (simp add: work_left_def gen_start_def)
  next
    case (step es st e st')
    from step.IH have b: "run_bounded c es st" and le: "length es + work_left st \<le> 10 * length services" by simp_all
    from run_bounded_step [OF b step.hyps(2)] step_work [OF b step.hyps(2)] le show ?case by simp
  qed
  then show ?thesis ..
qed

text \<open>The events that the worker itself or an answer of the agent brings about.\<close>

fun gives_up :: "gen_event \<Rightarrow> bool" where
  "gives_up (Goroutine i (AcquireFails effect)) = True"
| "gives_up (Goroutine i (ContextDone e)) = True"
| "gives_up e = False"

lemma slot_moves:
  assumes "holds_slot p"
  shows "\<exists>e r. goroutine_step m free spec e p s = Some r \<and> \<not> gives_up (Goroutine i e)"
proof (cases p)
  case Marking
  then show ?thesis by (intro exI [of _ "MarkGenerating True"]) auto
next
  case (Invoking a)
  then show ?thesis by (intro exI [of _ "AgentAnswers zero_result None"]) auto
next
  case (BackingOff a result)
  then show ?thesis by (intro exI [of _ TimerFires]) auto
next
  case (Persisting result err)
  then show ?thesis by (intro exI [of _ "PersistResult True"]) auto
next
  case (Storing result)
  then show ?thesis by (intro exI [of _ "PersistArtifacts (\<lambda>a. True)"]) auto
qed (use assms in \<open>auto simp: holds_slot_def\<close>)

lemma run_progress:
  assumes "0 < c" and "\<not> all_finished st"
  shows "\<exists>e st'. gen_step c m D e st = Some st' \<and> \<not> gives_up e"
proof (cases "gt_todo st")
  case (Cons svc rest)
  then show ?thesis by (intro exI [of _ "NextService True"]) (simp add: next_service_def)
next
  case Nil
  have moves: ?thesis if "i < length (gt_workers st)" "gt_workers st ! i = (spec, p)"
      "goroutine_step m (int (slots_used st) < c) spec e p (gt_store st) = Some r" "\<not> gives_up (Goroutine i e)" for i spec p e r
    using that by (intro exI [of _ "Goroutine i e"]) (auto split: prod.split)
  show ?thesis
  proof (cases "\<exists>w \<in> set (gt_workers st). holds_slot (snd w)")
    case True
    then obtain i spec p where "i < length (gt_workers st)" "gt_workers st ! i = (spec, p)" "holds_slot p"
      by (metis in_set_conv_nth prod.collapse)
    with slot_moves [of p m "int (slots_used st) < c" spec "gt_store st" i] moves show ?thesis by blast
  next
    case False
    then have "slots_used st = 0" by (force simp: slots_used_def filter_empty_conv)
    moreover from Nil assms(2) obtain w where w: "w \<in> set (gt_workers st)" "snd w \<noteq> Finished"
      by (auto simp: all_finished_def)
    with False have "snd w = Waiting" by (auto simp: holds_slot_def)
    moreover from w(1) obtain i where "i < length (gt_workers st)" "gt_workers st ! i = w"
      by (auto simp: in_set_conv_nth)
    ultimately show ?thesis using assms(1) moves [of i "fst w" Waiting Acquire "(Marking, gt_store st)"]
      by (cases w) auto
  qed
qed

text \<open>
  C11. The semaphore and the retries of the generation worker: in every state of a run at most \<open>concurrency\<close> services
  are between their mark and their last write, and no service has been sent to the agent more than three times.
\<close>

theorem generation_run_bounded:
  assumes "gen_steps c m D es (gen_start services s) = Some st"
  shows "int (slots_used st) \<le> max 0 c \<and> agent_calls i es \<le> 3"
proof -
  note b = run_bounded [OF assms]
  then have "agent_calls i es \<le> maxServiceAttempts"
    by (cases "i < length (gt_workers st)") (auto simp: run_bounded_def intro: attempts_bound)
  with b show ?thesis by (simp add: run_bounded_def maxServiceAttempts_def)
qed

text \<open>
  C12. Every run of the generation worker ends: it has at most ten events per service, and where it is not at its end
  the worker can go on without its context being cancelled, if the concurrency is positive.
\<close>

theorem generation_run_ends:
  assumes "gen_steps c m D es (gen_start services s) = Some st"
  shows "length es \<le> 10 * length services \<and>
    (0 < c \<and> \<not> all_finished st \<longrightarrow> (\<exists>e st'. gen_step c m D e st = Some st' \<and> \<not> gives_up e))"
  using run_work [OF assms] run_progress by simp_all

section \<open>The records at the end\<close>

fun effective :: "gen_event \<Rightarrow> bool" where
  "effective (NextService b) = b"
| "effective (Goroutine i (AcquireFails b)) = b"
| "effective (Goroutine i (MarkGenerating b)) = b"
| "effective (Goroutine i (PersistResult b)) = b"
| "effective e = True"

text \<open>The agent answered goroutine \<open>i\<close> that the gates are passed.\<close>

definition passing :: "nat \<Rightarrow> gen_event \<Rightarrow> bool" where
  "passing i e \<longleftrightarrow> (case e of Goroutine j (AgentAnswers r None) \<Rightarrow> j = i \<and> ir_GatesPassed r | _ \<Rightarrow> False)"

definition passed :: "nat \<Rightarrow> gen_event list \<Rightarrow> bool" where
  "passed i es \<longleftrightarrow> (\<exists>e \<in> set es. passing i e)"

definition settled_as :: "u64 \<Rightarrow> GenStore \<Rightarrow> ServiceSpec \<Rightarrow> bool \<Rightarrow> bool" where
  "settled_as m s svc ok \<longleftrightarrow>
     (\<exists>r. record_of m (ss_Name svc) s = Some r \<and> sg_Status r = (if ok then StatusDone else StatusFailed))"

fun phase_outcome :: "u64 \<Rightarrow> bool \<Rightarrow> GenStore \<Rightarrow> ServiceSpec \<Rightarrow> phase \<Rightarrow> bool" where
  "phase_outcome m ok s spec Finished = settled_as m s spec ok"
| "phase_outcome m ok s spec (Storing result) = settled_as m s spec ok"
| "phase_outcome m ok s spec (Persisting result err) \<longleftrightarrow> (err = None \<and> ir_GatesPassed result) = ok"
| "phase_outcome m ok s spec p \<longleftrightarrow> \<not> ok"

lemma passed_snoc [simp]: "passed i (es @ [e]) \<longleftrightarrow> passed i es \<or> passing i e"
  by (auto simp: passed_def)

lemma settled_upsert:
  "record_key rec = (m, ss_Name svc) \<Longrightarrow> sg_Status rec = (if ok then StatusDone else StatusFailed) \<Longrightarrow>
     settled_as m (UpsertRecord rec True s) svc ok"
  by (auto simp: settled_as_def UpsertRecord_record_of split: option.split)

lemma settled_artifacts [simp]: "settled_as m (UpsertArtifacts i n as accepted s) svc ok = settled_as m s svc ok"
  by (simp add: settled_as_def)

lemma record_keys:
  "record_key (incomplete_record m svc) = (m, ss_Name svc)"
  "record_key (cancelled_record m svc) = (m, ss_Name svc)"
  "record_key (generating_record m svc) = (m, ss_Name svc)"
  "record_key (result_record m svc result err) = (m, ss_Name svc)"
  by (auto simp: record_key_def incomplete_record_def cancelled_record_def generating_record_def result_record_def Let_def
      split: option.split)

lemma record_statuses:
  "sg_Status (incomplete_record m svc) = StatusFailed"
  "sg_Status (cancelled_record m svc) = StatusFailed"
  "sg_Status (result_record m svc result err) = (if err = None \<and> ir_GatesPassed result then StatusDone else StatusFailed)"
  by (auto simp: incomplete_record_def cancelled_record_def result_record_def Let_def split: option.split)

text \<open>A goroutine writes the record of its service only.\<close>

lemma goroutine_writes:
  assumes "goroutine_step m free spec e p s = Some (p', s')" and "(j, n) \<noteq> (m, ss_Name spec)"
  shows "record_of j n s' = record_of j n s"
  using assms by (elim goroutine_stepE) (auto simp: record_keys UpsertRecord_other split: if_splits)

lemma goroutine_outcome:
  assumes "goroutine_step m free spec e p s = Some (p', s')" and "effective (Goroutine i e)"
    and "phase_outcome m ok s spec p"
  shows "phase_outcome m (ok \<or> passing i (Goroutine i e)) s' spec p'"
  using assms
  by (elim goroutine_stepE)
     (auto simp: passing_def after_attempt_def record_keys record_statuses intro!: settled_upsert
       split: if_splits option.splits)

lemma phase_outcome_cong:
  "record_of m (ss_Name spec) s' = record_of m (ss_Name spec) s \<Longrightarrow> phase_outcome m ok s' spec p = phase_outcome m ok s spec p"
  by (cases p) (simp_all add: settled_as_def)

definition started :: "string set \<Rightarrow> ServiceSpec \<Rightarrow> bool" where
  "started D svc \<longleftrightarrow> ss_Name svc \<notin> D \<and> \<not> ss_Incomplete svc"

definition outcome_inv ::
  "u64 \<Rightarrow> string set \<Rightarrow> ServiceSpec list \<Rightarrow> GenStore \<Rightarrow> gen_event list \<Rightarrow> GenState \<Rightarrow> bool" where
  "outcome_inv m D services s0 es st \<longleftrightarrow>
     (\<exists>pre. services = pre @ gt_todo st \<and> map fst (gt_workers st) = filter (started D) pre \<and>
        (\<forall>svc \<in> set pre. ss_Name svc \<notin> D \<and> ss_Incomplete svc \<longrightarrow> settled_as m (gt_store st) svc False)) \<and>
     (\<forall>i < length (gt_workers st).
        phase_outcome m (passed i es) (gt_store st) (fst (gt_workers st ! i)) (snd (gt_workers st ! i))) \<and>
     (\<forall>i \<ge> length (gt_workers st). \<not> passed i es) \<and>
     (\<forall>j n. j \<noteq> m \<or> n \<notin> ss_Name ` set services - D \<longrightarrow> record_of j n (gt_store st) = record_of j n s0)"

lemma settled_cong:
  "record_of m (ss_Name svc) s' = record_of m (ss_Name svc) s \<Longrightarrow> settled_as m s' svc ok = settled_as m s svc ok"
  by (simp add: settled_as_def)

lemma outcome_start: "outcome_inv m D services s [] (gen_start services s)"
  by (simp add: outcome_inv_def gen_start_def passed_def)

text \<open>Whatever writes nothing but the record of one service keeps what is known of the others.\<close>

lemma others_kept:
  assumes "distinct (map ss_Name services)" and "svc \<in> set services" "svc' \<in> set services" "svc' \<noteq> svc"
    and "\<And>j n. (j, n) \<noteq> (m, ss_Name svc) \<Longrightarrow> record_of j n s' = record_of j n s"
  shows "record_of m (ss_Name svc') s' = record_of m (ss_Name svc') s"
  using assms by (auto simp: distinct_map inj_on_def)

lemma outcome_loop:
  assumes names: "distinct (map ss_Name services)" and inv: "outcome_inv m D services s0 es st"
    and step: "next_service m D True st = Some st'"
  shows "outcome_inv m D services s0 (es @ [NextService True]) st'"
proof -
  have np: "\<not> passing i (NextService True)" for i by (simp add: passing_def)
  from inv obtain pre where pre: "services = pre @ gt_todo st" "map fst (gt_workers st) = filter (started D) pre"
      "\<forall>svc \<in> set pre. ss_Name svc \<notin> D \<and> ss_Incomplete svc \<longrightarrow> settled_as m (gt_store st) svc False"
    by (auto simp: outcome_inv_def)
  from step obtain svc rest where todo: "gt_todo st = svc # rest" by (auto simp: next_service_def split: list.splits)
  have here: "svc \<in> set services" "services = (pre @ [svc]) @ rest" using pre(1) todo by simp_all
  have specs: "fst (gt_workers st ! i) \<in> set (filter (started D) pre)" if "i < length (gt_workers st)" for i
    using that pre(2) by (metis length_map nth_map nth_mem)
  consider "ss_Name svc \<in> D" | "ss_Name svc \<notin> D" "ss_Incomplete svc" | "started D svc" by (auto simp: started_def)
  then show ?thesis
  proof cases
    case 1
    with step todo have st': "st' = st\<lparr>gt_todo := rest\<rparr>" by (simp add: next_service_def)
    have "started D svc = False" using 1 by (simp add: started_def)
    with inv pre here 1 show ?thesis unfolding outcome_inv_def st'
      by (auto simp: np intro!: exI [of _ "pre @ [svc]"])
  next
    case 2
    define s' where "s' = UpsertRecord (incomplete_record m svc) True (gt_store st)"
    from 2 step todo have st': "st' = st\<lparr>gt_todo := rest, gt_store := s'\<rparr>" by (simp add: next_service_def s'_def)
    have writes: "record_of j n s' = record_of j n (gt_store st)" if "(j, n) \<noteq> (m, ss_Name svc)" for j n
      unfolding s'_def by (rule UpsertRecord_other) (use that in \<open>auto simp: record_keys\<close>)
    have new: "settled_as m s' svc False" unfolding s'_def by (rule settled_upsert) (simp_all add: record_keys record_statuses)
    have "svc \<notin> set pre" using names here(2) by auto
    have kept: "record_of m (ss_Name svc') s' = record_of m (ss_Name svc') (gt_store st)" if "svc' \<in> set pre" for svc'
      by (rule others_kept [OF names here(1) _ _ writes]) (use that here(2) \<open>svc \<notin> set pre\<close> in auto)
    have ns: "\<not> started D svc" using 2 by (simp add: started_def)
    have holes: "settled_as m s' svc' False" if "svc' \<in> set (pre @ [svc])" "ss_Name svc' \<notin> D" "ss_Incomplete svc'" for svc'
      using that pre(3) new settled_cong [OF kept, of svc' False] by auto
    have workers: "phase_outcome m (passed i es) s' (fst (gt_workers st ! i)) (snd (gt_workers st ! i))"
      if "i < length (gt_workers st)" for i
      using inv that phase_outcome_cong [OF kept] specs [OF that] by (simp add: outcome_inv_def)
    have rest: "record_of j n s' = record_of j n s0" if "j \<noteq> m \<or> n \<notin> ss_Name ` set services - D" for j n
      using that inv writes [of j n] here(1) 2(1) by (auto simp: outcome_inv_def)
    show ?thesis unfolding outcome_inv_def st'
    proof (intro conjI exI [of _ "pre @ [svc]"])
      show "map fst (gt_workers (st\<lparr>gt_todo := rest, gt_store := s'\<rparr>)) = filter (started D) (pre @ [svc])"
        using pre(2) ns by simp
    qed (use here holes workers rest inv np in \<open>auto simp: outcome_inv_def\<close>)
  next
    case 3
    with step todo have st': "st' = st\<lparr>gt_todo := rest, gt_workers := gt_workers st @ [(svc, Waiting)]\<rparr>"
      by (auto simp: next_service_def started_def)
    with inv pre here 3 show ?thesis unfolding outcome_inv_def st'
      by (auto simp: np nth_append less_Suc_eq started_def intro!: exI [of _ "pre @ [svc]"])
  qed
qed

lemma outcome_work:
  assumes names: "distinct (map ss_Name services)" and inv: "outcome_inv m D services s0 es st"
    and i: "i < length (gt_workers st)" "gt_workers st ! i = (spec, p)"
    and step: "goroutine_step m free spec e p (gt_store st) = Some (p', s')" and eff: "effective (Goroutine i e)"
  shows "outcome_inv m D services s0 (es @ [Goroutine i e])
    (st\<lparr>gt_workers := (gt_workers st)[i := (spec, p')], gt_store := s'\<rparr>)"
proof -
  have np: "\<not> passing j (Goroutine i e)" if "j \<noteq> i" for j
    using that by (auto simp: passing_def split: goroutine_event.splits option.splits)
  from inv obtain pre where pre: "services = pre @ gt_todo st" "map fst (gt_workers st) = filter (started D) pre"
      "\<forall>svc \<in> set pre. ss_Name svc \<notin> D \<and> ss_Incomplete svc \<longrightarrow> settled_as m (gt_store st) svc False"
    by (auto simp: outcome_inv_def)
  have specs: "fst (gt_workers st ! j) \<in> set (filter (started D) pre)" if "j < length (gt_workers st)" for j
    using that pre(2) by (metis length_map nth_map nth_mem)
  have spec: "spec \<in> set services" "started D spec" using specs [OF i(1)] i(2) pre(1) by auto
  note writes = goroutine_writes [OF step]
  have kept: "record_of m (ss_Name svc') s' = record_of m (ss_Name svc') (gt_store st)" if "svc' \<in> set pre" "svc' \<noteq> spec" for svc'
    by (rule others_kept [OF names spec(1) _ that(2) writes]) (use that pre(1) in auto)
  have "distinct (map fst (gt_workers st))"
    using names pre by (simp add: distinct_map)
  then have other: "fst (gt_workers st ! j) \<noteq> spec" if "j < length (gt_workers st)" "j \<noteq> i" for j
    using that i by (metis distinct_conv_nth fst_conv length_map nth_map)
  have workers: "phase_outcome m (passed j (es @ [Goroutine i e])) s' (fst (((gt_workers st)[i := (spec, p')]) ! j))
      (snd (((gt_workers st)[i := (spec, p')]) ! j))" if "j < length (gt_workers st)" for j
  proof (cases "j = i")
    case True
    have "phase_outcome m (passed i es) (gt_store st) spec p" using inv i by (force simp: outcome_inv_def)
    from goroutine_outcome [OF step eff this] True i(1) show ?thesis by simp
  next
    case False
    have "phase_outcome m (passed j es) (gt_store st) (fst (gt_workers st ! j)) (snd (gt_workers st ! j))"
      using inv that by (simp add: outcome_inv_def)
    moreover have k: "record_of m (ss_Name (fst (gt_workers st ! j))) s' = record_of m (ss_Name (fst (gt_workers st ! j))) (gt_store st)"
      by (rule kept) (use specs [OF that] other [OF that False] in auto)
    ultimately show ?thesis using False np [OF False] by (simp add: phase_outcome_cong [OF k])
  qed
  have fsts: "map fst ((gt_workers st)[i := (spec, p')]) = map fst (gt_workers st)"
    using i by (metis fst_conv list_update_id map_update)
  have holes: "settled_as m s' svc False" if "svc \<in> set pre" "ss_Name svc \<notin> D" "ss_Incomplete svc" for svc
    using that pre(3) kept [OF that(1)] spec(2) by (metis settled_cong started_def)
  have rest: "record_of j n s' = record_of j n s0" if "j \<noteq> m \<or> n \<notin> ss_Name ` set services - D" for j n
    using that inv writes [of j n] spec by (auto simp: outcome_inv_def started_def)
  show ?thesis unfolding outcome_inv_def
  proof (intro conjI)
    show "\<exists>pre. services = pre @ gt_todo (st\<lparr>gt_workers := (gt_workers st)[i := (spec, p')], gt_store := s'\<rparr>) \<and>
      map fst (gt_workers (st\<lparr>gt_workers := (gt_workers st)[i := (spec, p')], gt_store := s'\<rparr>)) = filter (started D) pre \<and>
      (\<forall>svc \<in> set pre. ss_Name svc \<notin> D \<and> ss_Incomplete svc \<longrightarrow>
         settled_as m (gt_store (st\<lparr>gt_workers := (gt_workers st)[i := (spec, p')], gt_store := s'\<rparr>)) svc False)"
      using pre holes fsts by (intro exI [of _ pre]) simp
    show "\<forall>j \<ge> length (gt_workers (st\<lparr>gt_workers := (gt_workers st)[i := (spec, p')], gt_store := s'\<rparr>)). \<not> passed j (es @ [Goroutine i e])"
      using inv i(1) np by (auto simp: outcome_inv_def)
  qed (use workers rest in auto)
qed

lemma goroutine_outcomes:
  assumes run: "gen_steps c m D es (gen_start services s) = Some st"
    and eff: "\<forall>e \<in> set es. effective e" and names: "distinct (map ss_Name services)"
  shows "outcome_inv m D services s es st"
  using run eff
proof (induction rule: gen_steps_induct)
  case start
  show ?case by (rule outcome_start)
next
  case (step es st e st')
  then have inv: "outcome_inv m D services s es st" and e: "effective e" by simp_all
  from step.hyps(2) show ?case
  proof (cases rule: gen_stepE)
    case (loop b)
    with e outcome_loop [OF names inv] show ?thesis by simp
  next
    case (work i we spec p p' s')
    with e outcome_work [OF names inv work(2-4)] show ?thesis by simp
  qed
qed

lemma UpsertRecord_ok_step: "goroutine_step m free spec e p s = Some (p', s') \<Longrightarrow> store_ok s \<Longrightarrow> store_ok s'"
  by (elim goroutine_stepE) (auto simp: UpsertRecord_ok split: if_splits)

lemma run_store_ok:
  assumes "gen_steps c m D es (gen_start services s) = Some st" and "store_ok s"
  shows "store_ok (gt_store st)"
  using assms
proof (induction rule: gen_steps_induct)
  case start
  then show ?case by (simp add: gen_start_def)
next
  case (step es st e st')
  then have ok: "store_ok (gt_store st)" by simp
  from step.hyps(2) show ?case
  proof (cases rule: gen_stepE)
    case (loop b)
    with ok show ?thesis by (auto simp: next_service_def UpsertRecord_ok split: list.splits if_splits)
  next
    case (work i we spec p p' s')
    with UpsertRecord_ok_step [OF work(4) ok] show ?thesis by simp
  qed
qed

lemma done_record:
  assumes "store_ok s"
  shows "name \<in> done_names (ListRecords m s) \<longleftrightarrow> (\<exists>r. record_of m name s = Some r \<and> sg_Status r = StatusDone)"
proof
  assume "name \<in> done_names (ListRecords m s)"
  then obtain r where r: "r \<in> set (ListRecords m s)" "sg_Status r = StatusDone" "sg_ServiceName r = name"
    by (auto simp: done_names_def)
  with record_of_ListRecords [OF assms] record_of_key show "\<exists>r. record_of m name s = Some r \<and> sg_Status r = StatusDone"
    by (metis Pair_inject record_key_def)
next
  assume "\<exists>r. record_of m name s = Some r \<and> sg_Status r = StatusDone"
  then obtain r where r: "record_of m name s = Some r" "sg_Status r = StatusDone" by blast
  then have "r \<in> set (ListRecords m s)" using record_of_ListRecords [OF assms] by blast
  with r record_of_key [OF r(1)] show "name \<in> done_names (ListRecords m s)"
    by (force simp: done_names_def record_key_def)
qed

text \<open>A run that is at its end, over a store that took every write, with services of distinct names.\<close>

definition complete_run ::
  "int \<Rightarrow> u64 \<Rightarrow> string set \<Rightarrow> gen_event list \<Rightarrow> ServiceSpec list \<Rightarrow> GenStore \<Rightarrow> GenState \<Rightarrow> bool" where
  "complete_run c m D es services s st \<longleftrightarrow>
     gen_steps c m D es (gen_start services s) = Some st \<and> all_finished st \<and> (\<forall>e \<in> set es. effective e) \<and>
     distinct (map ss_Name services)"

lemma finished_cases:
  assumes "complete_run c m D es services s st" and "svc \<in> set services" and "ss_Name svc \<notin> D"
  shows "if ss_Incomplete svc then settled_as m (gt_store st) svc False
    else \<exists>i < length (gt_workers st). fst (gt_workers st ! i) = svc \<and> settled_as m (gt_store st) svc (passed i es)"
proof -
  have inv: "outcome_inv m D services s es st" and fin: "all_finished st"
    using assms(1) goroutine_outcomes by (auto simp: complete_run_def)
  from inv fin have pre: "map fst (gt_workers st) = filter (started D) services"
      "\<forall>svc \<in> set services. ss_Name svc \<notin> D \<and> ss_Incomplete svc \<longrightarrow> settled_as m (gt_store st) svc False"
    by (auto simp: outcome_inv_def all_finished_def)
  show ?thesis
  proof (cases "ss_Incomplete svc")
    case True
    with pre(2) assms show ?thesis by simp
  next
    case False
    with assms have "svc \<in> set (map fst (gt_workers st))" unfolding pre(1) by (simp add: started_def)
    then obtain i where i: "i < length (gt_workers st)" "fst (gt_workers st ! i) = svc" by (auto simp: in_set_conv_nth)
    then have "snd (gt_workers st ! i) = Finished" using fin by (simp add: all_finished_def)
    moreover have "phase_outcome m (passed i es) (gt_store st) svc (snd (gt_workers st ! i))"
      using inv i by (auto simp: outcome_inv_def)
    ultimately show ?thesis using False i by auto
  qed
qed

lemma complete_run_others:
  assumes "complete_run c m D es services s st" and "j \<noteq> m \<or> n \<notin> ss_Name ` set services - D"
  shows "record_of j n (gt_store st) = record_of j n s"
  using assms goroutine_outcomes by (auto simp: complete_run_def outcome_inv_def)

text \<open>
  C10. The records at the end of a run of the generation worker whose writes take effect: a selected service that was
  not done has a record with the status DONE when the agent answered once that its gates are passed, and FAILED
  otherwise; so has a service with an incomplete design. Every other record, of this or another migration, is as
  it was before the run.
\<close>

theorem generation_records:
  assumes "complete_run c m D es services s st"
  shows "(\<forall>svc \<in> set services. ss_Name svc \<notin> D \<longrightarrow>
      (if ss_Incomplete svc then settled_as m (gt_store st) svc False
       else \<exists>i < length (gt_workers st). fst (gt_workers st ! i) = svc \<and> settled_as m (gt_store st) svc (passed i es))) \<and>
    (\<forall>j n. j \<noteq> m \<or> n \<notin> ss_Name ` set services - D \<longrightarrow> record_of j n (gt_store st) = record_of j n s)"
  using finished_cases [OF assms] complete_run_others [OF assms] by simp

text \<open>The verdict, in terms of the records before and after the run.\<close>

lemma verdict_iff:
  assumes run: "complete_run c m (done_names (ListRecords m s)) es services s st" and ok: "store_ok s"
  shows "gen_verdict (ListRecords m (gt_store st)) = MIGRATION_STATE_READY \<longleftrightarrow>
    (\<forall>svc \<in> set services. ss_Name svc \<in> done_names (ListRecords m (gt_store st))) \<and>
    (\<forall>r \<in> set (ListRecords m s). sg_ServiceName r \<notin> ss_Name ` set services \<longrightarrow> sg_Status r \<noteq> StatusFailed)"
    (is "?ready \<longleftrightarrow> ?done \<and> ?rest")
proof -
  let ?D = "done_names (ListRecords m s)" and ?s = "gt_store st"
  have ok': "store_ok ?s" using run run_store_ok ok by (auto simp: complete_run_def)
  note dn = done_record [OF ok] and dn' = done_record [OF ok'] and ls = record_of_ListRecords [OF ok]
    and ls' = record_of_ListRecords [OF ok']
  have ready: "?ready \<longleftrightarrow> (\<forall>n r. record_of m n ?s = Some r \<longrightarrow> sg_Status r \<noteq> StatusFailed)"
    by (simp add: gen_verdict_def Bex_def ls') blast
  have key: "sg_ServiceName r = n" if "record_of m n s' = Some r" for n s' r
    using record_of_key [OF that] by (simp add: record_key_def)
  have same: "record_of m n ?s = record_of m n s" if "n \<notin> ss_Name ` set services - ?D" for n
    using complete_run_others [OF run] that by blast
  have settled: "\<exists>r. record_of m (ss_Name svc) ?s = Some r \<and> (sg_Status r = StatusDone \<or> sg_Status r = StatusFailed)"
    if "svc \<in> set services" "ss_Name svc \<notin> ?D" for svc
    using finished_cases [OF run that] by (auto simp: settled_as_def split: if_splits)
  show ?thesis
  proof
    assume r: ?ready
    have "ss_Name svc \<in> done_names (ListRecords m ?s)" if "svc \<in> set services" for svc
    proof (cases "ss_Name svc \<in> ?D")
      case True
      then have "record_of m (ss_Name svc) ?s = record_of m (ss_Name svc) s" by (intro same) simp
      with True show ?thesis unfolding dn' dn by simp
    next
      case False
      then show ?thesis using settled [OF that] r unfolding ready dn' by blast
    qed
    moreover have "sg_Status r' \<noteq> StatusFailed" if "r' \<in> set (ListRecords m s)" "sg_ServiceName r' \<notin> ss_Name ` set services" for r'
    proof -
      from that(1) ls obtain n where n: "record_of m n s = Some r'" by blast
      with that(2) key same [of n] have "record_of m n ?s = Some r'" by auto
      with r ready show ?thesis by blast
    qed
    ultimately show "?done \<and> ?rest" by blast
  next
    assume d: "?done \<and> ?rest"
    have "sg_Status r \<noteq> StatusFailed" if "record_of m n ?s = Some r" for n r
    proof (cases "n \<in> ss_Name ` set services")
      case True
      then show ?thesis using d that unfolding dn' by force
    next
      case False
      then have "record_of m n s = Some r" using that same by simp
      with d False key [OF that] ls show ?thesis by auto
    qed
    then show ?ready unfolding ready by blast
  qed
qed

section \<open>What a lost write does\<close>

text \<open>
  A run whose last write is lost: the agent fails the service, the store does not take the record of the result,
  the record stays GENERATING and the verdict is READY.
\<close>

definition demo_service :: "string \<Rightarrow> ServiceSpec" where
  "demo_service name = \<lparr> ss_Name = name, ss_ErrorPrefix = ''ART'', ss_ProtoContent = [], ss_BoundarySpec = [],
     ss_Incomplete = False, ss_IncompleteReason = [], ss_GeneratorPromptRef = [] \<rparr>"

definition gates_failed :: "string \<Rightarrow> InvokeResult" where
  "gates_failed reason = zero_result\<lparr>ir_ExitCode := 1, ir_FailureReason := reason\<rparr>"

definition gates_passed :: InvokeResult where
  "gates_passed = zero_result\<lparr>ir_Success := True, ir_GatesPassed := True\<rparr>"

definition empty_store :: GenStore where "empty_store = \<lparr> gs_records = [], gs_artifacts = [] \<rparr>"

text \<open>One service from its start to its end with the given answer.\<close>

definition one_service :: "nat \<Rightarrow> InvokeResult \<Rightarrow> bool \<Rightarrow> gen_event list" where
  "one_service i result kept = [NextService True, Goroutine i Acquire, Goroutine i (MarkGenerating True),
     Goroutine i (AgentAnswers result None), Goroutine i (PersistResult kept)]"

theorem lost_result_is_ready:
  "case gen_steps 2 7 {} (one_service 0 (gates_failed ''go vet'') False) (gen_start [demo_service ''articles''] empty_store) of
     None \<Rightarrow> False
   | Some st \<Rightarrow> all_finished st \<and> map sg_Status (ListRecords 7 (gt_store st)) = [StatusGenerating] \<and>
       gen_verdict (ListRecords 7 (gt_store st)) = MIGRATION_STATE_READY"
  by code_simp

text \<open>
  A service that failed and is generated again keeps the failure reason of its first run: the update leaves out
  an empty reason, so the record says DONE and still names the failure.
\<close>

theorem failure_reason_survives:
  assumes old: "record_of m (ss_Name spec) s = Some old" and pass: "ir_GatesPassed result"
  shows "\<exists>r. record_of m (ss_Name spec) (UpsertRecord (result_record m spec result None) True
      (UpsertRecord (generating_record m spec) True s)) = Some r \<and>
    sg_Status r = StatusDone \<and> sg_FailureReason r = sg_FailureReason old"
  using assms
  by (simp add: UpsertRecord_record_of record_keys record_statuses merge_record_def result_record_def generating_record_def
      zero_record_def record_key_def)

section \<open>Witnesses\<close>

text \<open>Two services: the first is rate-limited once and passes in its second attempt, the second fails its gates.\<close>

definition demo_services :: "ServiceSpec list" where
  "demo_services = [demo_service ''articles'', demo_service ''users'']"

definition demo_run :: "gen_event list" where
  "demo_run =
     [NextService True, NextService True, Goroutine 0 Acquire, Goroutine 0 (MarkGenerating True), Goroutine 1 Acquire,
      Goroutine 1 (MarkGenerating True), Goroutine 0 (AgentAnswers (gates_failed ''Rate limit reached'') None),
      Goroutine 1 (AgentAnswers (gates_failed ''go vet'') None), Goroutine 0 TimerFires,
      Goroutine 1 (PersistResult True), Goroutine 0 (AgentAnswers gates_passed None), Goroutine 0 (PersistResult True)]"

definition demo_end :: GenState where
  "demo_end = the (gen_steps 2 7 {} demo_run (gen_start demo_services empty_store))"

lemma demo_steps: "gen_steps 2 7 {} demo_run (gen_start demo_services empty_store) = Some demo_end"
proof -
  have "gen_steps 2 7 {} demo_run (gen_start demo_services empty_store) \<noteq> None" by code_simp
  then show ?thesis by (auto simp: demo_end_def)
qed

lemma demo_complete: "complete_run 2 7 {} demo_run demo_services empty_store demo_end"
proof -
  have "all_finished demo_end" "\<forall>e \<in> set demo_run. effective e" "distinct (map ss_Name demo_services)" by code_simp+
  with demo_steps show ?thesis by (simp add: complete_run_def)
qed

theorem generation_run_bounded_witness:
  "int (slots_used demo_end) \<le> 2 \<and> agent_calls 0 demo_run \<le> 3 \<and> agent_calls 0 demo_run = 2"
  using generation_run_bounded [OF demo_steps, of 0] by (simp add: agent_calls_def demo_run_def)

theorem generation_run_ends_witness:
  "\<exists>st. gen_steps 2 7 {} (take 6 demo_run) (gen_start demo_services empty_store) = Some st \<and> \<not> all_finished st \<and>
     slots_used st = 2 \<and> (\<exists>e st'. gen_step 2 7 {} e st = Some st' \<and> \<not> gives_up e)"
proof -
  let ?r = "gen_steps 2 7 {} (take 6 demo_run) (gen_start demo_services empty_store)"
  have "case ?r of None \<Rightarrow> False | Some st \<Rightarrow> \<not> all_finished st \<and> slots_used st = 2" by code_simp
  then obtain st where st: "?r = Some st" "\<not> all_finished st" "slots_used st = 2" by (auto split: option.splits)
  with generation_run_ends [OF st(1)] show ?thesis by simp
qed

theorem generation_records_witness:
  "settled_as 7 (gt_store demo_end) (demo_service ''articles'') True \<and>
   settled_as 7 (gt_store demo_end) (demo_service ''users'') False"
proof -
  have specs: "map fst (gt_workers demo_end) = demo_services" by code_simp
  then have len: "length (gt_workers demo_end) = 2" by (metis demo_services_def length_map length_Cons list.size(3) numeral_2_eq_2)
  have spec: "fst (gt_workers demo_end ! i) = demo_services ! i" if "i < 2" for i
    using that specs len by (metis nth_map)
  have names: "demo_service ''articles'' \<noteq> demo_service ''users''" by (simp add: demo_service_def)
  have ans: "passed 0 demo_run" "\<not> passed 1 demo_run"
    by (simp_all add: passed_def passing_def demo_run_def gates_failed_def gates_passed_def zero_result_def)
  note g = generation_records [OF demo_complete, THEN conjunct1]
  have idx: "i = k" if "i < 2" "fst (gt_workers demo_end ! i) = demo_services ! k" "k < 2" for i k
    using that spec [of i] names by (auto simp: demo_services_def less_2_cases_iff)
  have "settled_as 7 (gt_store demo_end) (demo_services ! k) (passed k demo_run)" if "k < 2" for k
  proof -
    have "demo_services ! k \<in> set demo_services" "\<not> ss_Incomplete (demo_services ! k)"
      using that by (auto simp: demo_services_def demo_service_def less_2_cases_iff)
    with g len idx that show ?thesis by fastforce
  qed
  from this [of 0] this [of 1] ans show ?thesis by (simp add: demo_services_def)
qed

theorem failure_reason_survives_witness:
  "\<exists>r. record_of 7 ''users'' (UpsertRecord (result_record 7 (demo_service ''users'') gates_passed None) True
      (UpsertRecord (generating_record 7 (demo_service ''users'')) True (gt_store demo_end))) = Some r \<and>
    sg_Status r = StatusDone \<and> sg_FailureReason r = ''go vet''"
proof -
  have "map_option sg_FailureReason (record_of 7 ''users'' (gt_store demo_end)) = Some ''go vet''" by code_simp
  then obtain old where old: "record_of 7 (ss_Name (demo_service ''users'')) (gt_store demo_end) = Some old"
      "sg_FailureReason old = ''go vet''" by (auto simp: demo_service_def)
  have "ir_GatesPassed gates_passed" by (simp add: gates_passed_def)
  from failure_reason_survives [OF old(1) this] old(2) show ?thesis by (simp add: demo_service_def)
qed

end
