(* ===== verification/Error_Aggregator.thy ===== *)
theory Error_Aggregator
  imports Generation_Outcomes Table_Map
begin

text \<open>
  The shared error aggregator of the gateway: the generation worker assembles the file \<^verbatim>\<open>message_error.go\<close> from the
  names of all error maps (\<^verbatim>\<open>worker/generation/application/error_aggregator.go\<close>), and the workspace of the agent
  takes the line of the service that is generated again out of it (\<^verbatim>\<open>worker/generation/infrastructure/agent/workspace.go\<close>).
  The directory on disk is the list of its entries, a name with the content of the file, \<open>None\<close> for a directory or
  a file that cannot be read.
\<close>

section \<open>Names of error maps\<close>

definition newline :: char where "newline = CHR 0x0A"

definition tabs :: "nat \<Rightarrow> string" where "tabs n = replicate n (CHR 0x09)"

definition dq :: char where "dq = CHR 0x22"

definition errorAggregatorPath :: string where
  "errorAggregatorPath = ''pkg/gateway/common/error/message_error.go''"

definition errorAggregatorService :: string where "errorAggregatorService = ''__pipeline__''"

text \<open>The regular expression at the start of a line. The name is a whole word, since a word character cannot
  follow it.\<close>

definition errorMessagesVarRE :: "string matcher" where
  "errorMessagesVarRE s =
     (if \<not> HasPrefix s ''var '' then None
      else let w = takeWhile word_char (drop 4 s);
               rest = skip_space (dropWhile word_char (drop 4 s))
           in if HasSuffix w ''ErrorMessages'' \<and> length w > length ''ErrorMessages'' \<and> rest \<noteq> [] \<and> hd rest = CHR ''=''
              then Some (w, tl rest) else None)"

text \<open>The matches from the left, at the starts of lines; \<open>bol\<close> says that a line starts here.\<close>

function scan_lines :: "bool \<Rightarrow> string \<Rightarrow> string list" where
  "scan_lines bol s =
     (case (if bol then errorMessagesVarRE s else None) of
        Some (name, rest) \<Rightarrow> if length rest < length s then name # scan_lines False rest else []
      | None \<Rightarrow> (case s of [] \<Rightarrow> [] | c # cs \<Rightarrow> scan_lines (c = newline) cs))"
  by pat_completeness auto
termination
  by (relation "measure (\<lambda>(bol, s). length s)") auto

declare scan_lines.simps [simp del]

definition extractErrorVarNames :: "string \<Rightarrow> string list" where
  "extractErrorVarNames content = scan_lines True content"

definition is_errors_file :: "string \<Rightarrow> bool" where
  "is_errors_file name \<longleftrightarrow> HasSuffix name ''_errors.go'' \<and> name \<noteq> ''message_error.go''"

definition scanExistingErrorVarNames :: "(string \<times> string option) list option \<Rightarrow> string set" where
  "scanExistingErrorVarNames entries =
     (case entries of
        None \<Rightarrow> {}
      | Some es \<Rightarrow> \<Union> (set (map (\<lambda>(name, content).
            if \<not> is_errors_file name then {}
            else case content of None \<Rightarrow> {} | Some data \<Rightarrow> set (extractErrorVarNames data)) es)))"

section \<open>The file\<close>

text \<open>The lines before and after the names.\<close>

definition preamble :: "string list" where
  "preamble =
     [''package message_error'',
      [],
      ''import ('',
      tabs 1 @ [dq] @ ''encoding/json'' @ [dq],
      tabs 1 @ [dq] @ ''strings'' @ [dq],
      tabs 1 @ [dq] @ ''unicode'' @ [dq],
      [],
      tabs 1 @ [dq] @ ''github.com/grpc-ecosystem/grpc-gateway/v2/runtime'' @ [dq],
      tabs 1 @ [dq] @ ''golang.org/x/text/cases'' @ [dq],
      tabs 1 @ [dq] @ ''golang.org/x/text/language'' @ [dq],
      tabs 1 @ [dq] @ ''google.golang.org/grpc/status'' @ [dq],
      '')'',
      [],
      ''// ErrorMessage represents an error message with details, status code, and title.'',
      ''type ErrorMessage struct {'',
      tabs 1 @ ''Detail string `json:'' @ [dq] @ ''detail,omitempty'' @ [dq] @ ''` // Human-readable error message'',
      tabs 1 @ ''Status int    `json:'' @ [dq] @ ''status,omitempty'' @ [dq] @ ''` // HTTP status code'',
      tabs 1 @ ''Title  string `json:'' @ [dq] @ ''title,omitempty'' @ [dq] @ ''`  // Short, human-readable error title'',
      ''}'',
      [],
      ''// Error returns the JSON representation of the ErrorMessage.'',
      ''func (e *ErrorMessage) Error() string {'',
      tabs 1 @ ''errStr, _ := json.Marshal(e)'',
      tabs 1 @ ''return string(errStr)'',
      ''}'',
      [],
      ''// HandlerErrorMessage converts a gRPC status to an ErrorMessage.'',
      ''func HandlerErrorMessage(st status.Status) ErrorMessage {'',
      tabs 1 @ ''statusCode := runtime.HTTPStatusFromCode(st.Code())'',
      tabs 1 @ ''detail := st.Message()'',
      [],
      tabs 1 @ ''// Split the detail to extract the error code and the associated message'',
      tabs 1 @ ''parts := strings.SplitN(detail, '' @ [dq] @ '': '' @ [dq] @ '', 2)'',
      tabs 1 @ ''code := parts[0]  // Assume the code is the first part before '' @ [dq] @ '': '' @ [dq],
      tabs 1 @ ''message := detail // Default to using the whole detail as the message'',
      tabs 1 @ ''if len(parts) > 1 {'',
      tabs 2 @ ''message = formatErrorMessage(parts[1])'',
      tabs 1 @ ''}'',
      [],
      tabs 1 @ ''// Try to get a custom error message based on the extracted error code'',
      tabs 1 @ ''if customMsg, ok := lookupErrorMessage(code); ok {'',
      tabs 2 @ ''message = customMsg'',
      tabs 1 @ ''}'',
      [],
      tabs 1 @ ''return ErrorMessage{'',
      tabs 2 @ ''Detail: message,'',
      tabs 2 @ ''Status: statusCode,'',
      tabs 2 @ ''Title:  st.Code().String(),'',
      tabs 1 @ ''}'',
      ''}'',
      [],
      ''// formatErrorMessage converts Failure_X_Y style messages into readable form.'',
      ''//'',
      ''// Examples:'',
      ''//'',
      ''//'' @ tabs 1 @ ''formatErrorMessage('' @ [dq] @ ''Failure_Missing_Identifier'' @ [dq] @ '') '' @ arrow_right @ '' '' @ [dq] @ ''Failure missing identifier.'' @ [dq],
      ''//'' @ tabs 1 @ ''formatErrorMessage('' @ [dq] @ ''Failure_Company_Not_Found'' @ [dq] @ '')  '' @ arrow_right @ '' '' @ [dq] @ ''Failure company not found.'' @ [dq],
      ''func formatErrorMessage(msg string) string {'',
      tabs 1 @ ''parts := strings.Split(msg, '' @ [dq] @ ''_'' @ [dq] @ '')'',
      tabs 1 @ ''for i, part := range parts {'',
      tabs 2 @ ''if containsInternalUppercase(part) {'',
      tabs 3 @ ''parts[i] = part'',
      tabs 2 @ ''} else {'',
      tabs 3 @ ''parts[i] = strings.ToLower(part)'',
      tabs 2 @ ''}'',
      tabs 1 @ ''}'',
      tabs 1 @ ''if len(parts) > 0 {'',
      tabs 2 @ ''parts[0] = cases.Title(language.Und).String(parts[0])'',
      tabs 1 @ ''}'',
      tabs 1 @ ''return strings.Join(parts, '' @ [dq] @ '' '' @ [dq] @ '') + '' @ [dq] @ ''.'' @ [dq],
      ''}'',
      [],
      ''// containsInternalUppercase checks if a word contains uppercase letters other than the first letter.'',
      ''func containsInternalUppercase(word string) bool {'',
      tabs 1 @ ''for i, r := range word {'',
      tabs 2 @ ''if i > 0 && unicode.IsUpper(r) {'',
      tabs 3 @ ''return true'',
      tabs 2 @ ''}'',
      tabs 1 @ ''}'',
      tabs 1 @ ''return false'',
      ''}'',
      [],
      ''// lookupErrorMessage searches for an API-friendly message by error code across all service maps.'',
      ''func lookupErrorMessage(code string) (string, bool) {'',
      tabs 1 @ ''maps := []map[string]string{'']"

definition postamble :: "string list" where
  "postamble =
     [tabs 1 @ ''}'',
      tabs 1 @ ''for _, m := range maps {'',
      tabs 2 @ ''if msg, ok := m[code]; ok {'',
      tabs 3 @ ''return msg, true'',
      tabs 2 @ ''}'',
      tabs 1 @ ''}'',
      tabs 1 @ ''return '' @ [dq] @ [dq] @ '', false'',
      ''}'']"


definition entry_line :: "string \<Rightarrow> string" where
  "entry_line name = tabs 2 @ name @ '',''"

definition unlines :: "string list \<Rightarrow> string" where
  "unlines ls = concat (map (\<lambda>l. l @ [newline]) ls)"

definition buildMessageErrorGo :: "string set \<Rightarrow> string" where
  "buildMessageErrorGo varNames =
     unlines (preamble @ map entry_line (sorted_list_of_set varNames) @ postamble)"

section \<open>Assembly\<close>

text \<open>The Unix version of \<^verbatim>\<open>filepath.Base\<close>.\<close>

definition filepath_Base :: "string \<Rightarrow> string" where
  "filepath_Base path =
     (if path = [] then ''.''
      else let p = rev (dropWhile (\<lambda>c. c = CHR ''/'') (rev path))
           in if p = [] then ''/'' else after_last (CHR ''/'') p)"

definition artifact_names :: "GenFileArtifact list \<Rightarrow> string set" where
  "artifact_names artifacts =
     \<Union> (set (map (\<lambda>a. if is_errors_file (filepath_Base (fa_Path a)) then set (extractErrorVarNames (fa_Content a)) else {})
       artifacts))"

text \<open>The names of the aggregator; \<open>fails\<close> are the services whose artifacts cannot be listed.\<close>

definition aggregator_names ::
  "(string \<times> string option) list option \<Rightarrow> u64 \<Rightarrow> ServiceSpec list \<Rightarrow> ServiceRecord list \<Rightarrow> string set \<Rightarrow> GenStore \<Rightarrow> string set" where
  "aggregator_names disk migrationID services final fails s =
     scanExistingErrorVarNames disk \<union>
     \<Union> (set (map (\<lambda>svc.
       if ss_Name svc \<notin> done_names final then {}
       else if ss_Name svc \<in> fails then {}
       else artifact_names (ListArtifacts migrationID (ss_Name svc) s)) services))"

definition assembleErrorAggregator ::
  "(string \<times> string option) list option \<Rightarrow> u64 \<Rightarrow> ServiceSpec list \<Rightarrow> ServiceRecord list \<Rightarrow> string set \<Rightarrow> bool \<Rightarrow>
   GenStore \<Rightarrow> GenStore" where
  "assembleErrorAggregator disk migrationID services final fails effect s =
     (let varNames = aggregator_names disk migrationID services final fails s
      in if varNames = {} then s
         else UpsertArtifacts migrationID errorAggregatorService
                [\<lparr> fa_Path = errorAggregatorPath, fa_Content = buildMessageErrorGo varNames \<rparr>] (\<lambda>a. effect) s)"

section \<open>The patch of the workspace\<close>

text \<open>The file is \<open>None\<close> where it does not exist. A file that loses no line is not written.\<close>

definition removeServiceFromErrorLookup :: "string \<Rightarrow> string option \<Rightarrow> string option" where
  "removeServiceFromErrorLookup serviceName file =
     (case file of
        None \<Rightarrow> None
      | Some data \<Rightarrow>
          let target = serviceName @ ''ErrorMessages,'';
              lines = strings_Split data newline;
              filtered = filter (\<lambda>line. \<not> Contains line target) lines
          in if length filtered = length lines then Some data
             else Some (strings_Join filtered [newline]))"

section \<open>Facts\<close>

lemma HasPrefix_append: "HasPrefix s p \<longleftrightarrow> (\<exists>b. s = p @ b)"
  by (metis HasPrefix_def append_take_drop_id append_eq_conv_conj)

lemma HasSuffix_append: "HasSuffix s p \<longleftrightarrow> (\<exists>a. s = a @ p)"
  unfolding HasSuffix_def by (metis append_take_drop_id length_append diff_add_inverse2 append_eq_conv_conj le_add2)

lemma Contains_append: "Contains s sub \<longleftrightarrow> (\<exists>a b. s = a @ sub @ b)"
proof
  assume "Contains s sub"
  then have "HasPrefix (drop (nat (strings_Index s sub)) s) sub"
    by (simp add: Contains_def strings_Index_found)
  then show "\<exists>a b. s = a @ sub @ b" by (metis HasPrefix_append append_take_drop_id)
next
  have "0 \<le> strings_Index (a @ sub @ b) sub" for a b
  proof (induction a)
    case Nil
    have "HasPrefix (sub @ b) sub" by (simp add: HasPrefix_def)
    then show ?case by (cases "sub @ b") simp_all
  qed (simp add: Let_def)
  then show "\<exists>a b. s = a @ sub @ b \<Longrightarrow> Contains s sub" by (auto simp: Contains_def)
qed

lemma split_by_line: "(\<forall>c \<in> set l. \<not> p c) \<Longrightarrow> p d \<Longrightarrow> split_by p (l @ d # cs) = l # split_by p cs"
  by (induction l) auto

lemma split_unlines: "\<forall>l \<in> set ls. newline \<notin> set l \<Longrightarrow> strings_Split (unlines ls) newline = ls @ [[]]"
proof (induction ls)
  case (Cons l ls)
  have "split_by (\<lambda>x. x = newline) (l @ newline # unlines ls) = l # split_by (\<lambda>x. x = newline) (unlines ls)"
    by (rule split_by_line) (use Cons.prems in auto)
  with Cons show ?case by (simp add: strings_Split_def unlines_def)
qed (simp add: strings_Split_def unlines_def)

lemma join_unlines: "strings_Join (ls @ [[]]) [newline] = unlines ls"
proof (induction ls)
  case (Cons l ls)
  then show ?case by (cases ls) (simp_all add: unlines_def)
qed (simp add: unlines_def)

lemma static_lines:
  "\<forall>l \<in> set (preamble @ postamble). newline \<notin> set l \<and> \<not> Contains l ''ErrorMessages,''"
  by code_simp

lemma sorted_list_of_filter:
  assumes "finite (S :: 'a :: linorder set)"
  shows "sorted_list_of_set {x \<in> S. P x} = filter P (sorted_list_of_set S)"
  by (rule sorted_distinct_set_unique) (use assms in \<open>auto intro: sorted_filter [of id, simplified]\<close>)

lemma filter_same: "length (filter P xs) = length xs \<Longrightarrow> filter P xs = xs"
proof (induction xs)
  case (Cons x xs)
  have "length (filter P xs) \<noteq> Suc (length xs)" using length_filter_le [of P xs] by linarith
  with Cons show ?case by (auto split: if_splits)
qed simp

lemma word_chars: "\<not> word_char (CHR 0x09)" "\<not> word_char (CHR '','')" "\<not> word_char newline"
    "\<forall>c \<in> set ''ErrorMessages''. word_char c"
  by code_simp+

lemma entry_target:
  assumes name: "\<forall>c \<in> set name. word_char c" and svc: "\<forall>c \<in> set svc. word_char c"
  shows "Contains (entry_line name) (svc @ ''ErrorMessages,'') \<longleftrightarrow> HasSuffix name (svc @ ''ErrorMessages'')"
proof
  let ?w = "svc @ ''ErrorMessages''"
  assume "Contains (entry_line name) (svc @ ''ErrorMessages,'')"
  then obtain a b where ab: "tabs 2 @ name @ '','' = a @ ?w @ '','' @ b"
    by (auto simp: Contains_append entry_line_def)
  have w: "\<forall>c \<in> set ?w. word_char c" using svc word_chars(4) by auto
  show "HasSuffix name ?w"
  proof (cases b rule: rev_exhaust)
    case Nil
    with ab have "tabs 2 @ name = a @ ?w" by simp
    then obtain us where us: "tabs 2 = a @ us \<and> us @ name = ?w \<or> tabs 2 @ us = a \<and> name = us @ ?w"
      unfolding append_eq_append_conv2 by blast
    show ?thesis
    proof (cases "us = []")
      case True
      with us show ?thesis unfolding HasSuffix_append by (metis append_Nil)
    next
      case False
      then have "\<not> (tabs 2 = a @ us \<and> us @ name = ?w)"
        using w word_chars(1) unfolding tabs_def
        by (metis in_set_replicate last_appendR last_in_set last_replicate append_is_Nil_conv in_set_conv_decomp set_append UnCI)
      with us show ?thesis unfolding HasSuffix_append by blast
    qed
  next
    case (snoc b' x)
    with ab have "tabs 2 @ name = a @ ?w @ '','' @ b'" by simp
    then have "CHR '','' \<in> set (tabs 2 @ name)" by simp
    with name word_chars(2) show ?thesis by (auto simp: tabs_def)
  qed
next
  assume "HasSuffix name (svc @ ''ErrorMessages'')"
  then obtain a where "name = a @ svc @ ''ErrorMessages''" by (auto simp: HasSuffix_append)
  then have "entry_line name = (tabs 2 @ a) @ (svc @ ''ErrorMessages,'') @ []" by (simp add: entry_line_def)
  then show "Contains (entry_line name) (svc @ ''ErrorMessages,'')" unfolding Contains_append by blast
qed

lemma static_kept: "l \<in> set (preamble @ postamble) \<Longrightarrow> \<not> Contains l (svc @ ''ErrorMessages,'')"
  using static_lines unfolding Contains_append by (metis append.assoc)

lemma var_word: "errorMessagesVarRE s = Some (name, rest) \<Longrightarrow> \<forall>c \<in> set name. word_char c"
  by (auto simp: errorMessagesVarRE_def Let_def dest: set_takeWhileD split: if_splits)

lemma scan_lines_word: "name \<in> set (scan_lines bol s) \<Longrightarrow> \<forall>c \<in> set name. word_char c"
proof (induction bol s rule: scan_lines.induct)
  case (1 bol s)
  show ?case
  proof (cases "if bol then errorMessagesVarRE s else None")
    case None
    with "1.prems" obtain c cs where "s = c # cs" "name \<in> set (scan_lines (c = newline) cs)"
      by (subst (asm) scan_lines.simps) (auto split: list.splits)
    with "1.IH"(1) [OF None] show ?thesis by blast
  next
    case (Some p)
    obtain n rest where p: "p = (n, rest)" by (cases p)
    with Some "1.prems" have len: "length rest < length s" and nm: "name = n \<or> name \<in> set (scan_lines False rest)"
      by (subst (asm) scan_lines.simps; simp split: if_splits)+
    from Some p have "errorMessagesVarRE s = Some (n, rest)" by (simp split: if_splits)
    with var_word nm "1.IH"(2) [OF Some p [symmetric] len] show ?thesis by blast
  qed
qed

section \<open>Properties\<close>

text \<open>
  C14. Taking a service out of the assembled aggregator is assembling it without the names that end in the name of the
  service's map: every other line of the file stays as it is.
\<close>

theorem patch_of_aggregator:
  assumes fin: "finite names" and words: "\<forall>name \<in> names. \<forall>c \<in> set name. word_char c"
    and svc: "\<forall>c \<in> set svc. word_char c"
  shows "removeServiceFromErrorLookup svc (Some (buildMessageErrorGo names)) =
    Some (buildMessageErrorGo {name \<in> names. \<not> HasSuffix name (svc @ ''ErrorMessages'')})"
proof -
  let ?P = "\<lambda>line. \<not> Contains line (svc @ ''ErrorMessages,'')"
  let ?ls = "preamble @ map entry_line (sorted_list_of_set names) @ postamble"
  have lines: "\<forall>l \<in> set ?ls. newline \<notin> set l"
    using static_lines words fin word_chars(3)
    by (auto simp: entry_line_def tabs_def newline_def split: if_splits)
  have "?P (entry_line name) \<longleftrightarrow> \<not> HasSuffix name (svc @ ''ErrorMessages'')" if "name \<in> names" for name
    using entry_target [OF _ svc] words that by simp
  then have "filter (\<lambda>name. ?P (entry_line name)) (sorted_list_of_set names) =
      filter (\<lambda>name. \<not> HasSuffix name (svc @ ''ErrorMessages'')) (sorted_list_of_set names)"
    by (intro filter_cong) (simp_all add: fin)
  then have "filter ?P (map entry_line (sorted_list_of_set names)) =
      map entry_line (filter (\<lambda>name. \<not> HasSuffix name (svc @ ''ErrorMessages'')) (sorted_list_of_set names))"
    by (simp add: filter_map o_def)
  moreover have "filter ?P preamble = preamble" "filter ?P postamble = postamble" using static_kept by (auto simp: filter_id_conv)
  moreover have "?P []" by (auto simp: Contains_append)
  ultimately have kept: "filter ?P (?ls @ [[]]) =
      (preamble @ map entry_line (sorted_list_of_set {name \<in> names. \<not> HasSuffix name (svc @ ''ErrorMessages'')}) @ postamble) @ [[]]"
    by (simp add: sorted_list_of_filter [OF fin])
  let ?rest = "preamble @ map entry_line (sorted_list_of_set {name \<in> names. \<not> HasSuffix name (svc @ ''ErrorMessages'')}) @ postamble"
  have split: "strings_Split (buildMessageErrorGo names) newline = ?ls @ [[]]"
    unfolding buildMessageErrorGo_def by (rule split_unlines [OF lines])
  show ?thesis
  proof (cases "length (filter ?P (?ls @ [[]])) = length (?ls @ [[]])")
    case True
    then have "filter ?P (?ls @ [[]]) = ?ls @ [[]]" by (rule filter_same)
    with kept have "?ls = ?rest" by simp
    then show ?thesis using True unfolding removeServiceFromErrorLookup_def option.case Let_def split
      by (simp add: buildMessageErrorGo_def)
  next
    case False
    then have "removeServiceFromErrorLookup svc (Some (buildMessageErrorGo names)) = Some (strings_Join (?rest @ [[]]) [newline])"
      unfolding removeServiceFromErrorLookup_def option.case Let_def split kept by simp
    then show ?thesis unfolding join_unlines buildMessageErrorGo_def .
  qed
qed

section \<open>Witness\<close>

text \<open>Taking out the service \<open>user\<close> takes \<open>superuser\<close> out, too.\<close>

definition demo_names :: "string set" where
  "demo_names = {''articlesErrorMessages'', ''superuserErrorMessages'', ''userErrorMessages''}"

theorem patch_of_aggregator_witness:
  "removeServiceFromErrorLookup ''user'' (Some (buildMessageErrorGo demo_names)) =
     Some (buildMessageErrorGo {''articlesErrorMessages''})"
proof -
  have "finite demo_names" by (simp add: demo_names_def)
  moreover have "\<forall>name \<in> demo_names. \<forall>c \<in> set name. word_char c" "\<forall>c \<in> set ''user''. word_char c"
    by code_simp+
  moreover have "{name \<in> demo_names. \<not> HasSuffix name (''user'' @ ''ErrorMessages'')} = {''articlesErrorMessages''}"
  proof -
    have "\<not> HasSuffix ''articlesErrorMessages'' (''user'' @ ''ErrorMessages'')"
      "HasSuffix ''superuserErrorMessages'' (''user'' @ ''ErrorMessages'')"
      "HasSuffix ''userErrorMessages'' (''user'' @ ''ErrorMessages'')" by code_simp+
    then show ?thesis by (auto simp: demo_names_def)
  qed
  ultimately show ?thesis using patch_of_aggregator [of demo_names "''user''"] by simp
qed

end
