(* ===== verification/Design_Artifacts.thy ===== *)
theory Design_Artifacts
  imports Generation_Pipeline Migration_Outcomes Decomposition_Domain
begin

text \<open>
  The way of a design from the decomposition worker to the generation worker: the store of the design artifacts
  (\<^verbatim>\<open>worker/decomposition/infrastructure/adapters/mongo_artifact_store.go\<close>), the reader of the migration service
  (\<^verbatim>\<open>services/migration/infrastructure/repositories/mongo_artifact_reader.go\<close>) and the reader of the generation
  worker (\<^verbatim>\<open>worker/generation/infrastructure/adapters/mongo_generation_package_reader.go\<close>), which joins the artifacts
  with the plan of the migration. The time of an update is left out, nothing reads it.
\<close>

section \<open>The collection\<close>

record DesignDoc =
  dd_MigrationID :: u64
  dd_ServiceName :: string
  dd_ProtoContent :: string
  dd_BoundarySpec :: string
  dd_Incomplete :: bool
  dd_IncompleteReason :: string

text \<open>An upsert with \<^verbatim>\<open>$set\<close> of every field: the document that matches is replaced, or inserted where none does.\<close>

record ('w, 'b) DesignStores =
  ds_migrations :: "('w, 'b mongoMigrationDoc) Collection"
  ds_planCodec :: "(RestructurePlan, 'b) Codec"
  ds_targetCodec :: "(TargetConfig, 'b) Codec"
  ds_Find :: "(DesignDoc \<Rightarrow> bool) \<Rightarrow> ('w, ('w, DesignDoc list) io) io"
  ds_Upsert :: "(DesignDoc \<Rightarrow> bool) \<Rightarrow> DesignDoc \<Rightarrow> ('w, unit) io"

definition design_doc :: "u64 \<Rightarrow> design_artifact \<Rightarrow> DesignDoc" where
  "design_doc migrationID a =
     \<lparr> dd_MigrationID = migrationID, dd_ServiceName = da_ServiceName a, dd_ProtoContent = da_ProtoContent a,
       dd_BoundarySpec = da_BoundarySpec a, dd_Incomplete = da_Incomplete a,
       dd_IncompleteReason = da_IncompleteReason a \<rparr>"

fun UpsertDesign :: "('w, 'b) DesignStores \<Rightarrow> u64 \<Rightarrow> design_artifact list \<Rightarrow> ('w, unit) io" where
  "UpsertDesign D migrationID [] = io_ok ()"
| "UpsertDesign D migrationID (a # as) =
     io_bind (io_wrap (''artifact-store: upsert service='' @ da_ServiceName a @ '' migration='' @
                 Itoa (uint migrationID) @ '': '')
               (ds_Upsert D (\<lambda>d. dd_MigrationID d = migrationID \<and> dd_ServiceName d = da_ServiceName a)
                  (design_doc migrationID a))) (\<lambda>_.
       UpsertDesign D migrationID as)"

section \<open>The readers\<close>

definition service_artifact :: "DesignDoc \<Rightarrow> ServiceArtifact" where
  "service_artifact d =
     \<lparr> sa_ServiceName = dd_ServiceName d, sa_ProtoContent = dd_ProtoContent d, sa_BoundarySpec = dd_BoundarySpec d,
       sa_Incomplete = dd_Incomplete d, sa_IncompleteReason = dd_IncompleteReason d \<rparr>"

definition ReadArtifacts :: "('w, 'b) DesignStores \<Rightarrow> u64 \<Rightarrow> ('w, ServiceArtifact list) io" where
  "ReadArtifacts D migrationID =
     io_bind (io_wrap (''artifact-reader: find migration_id='' @ Itoa (uint migrationID) @ '': '')
               (ds_Find D (\<lambda>d. dd_MigrationID d = migrationID))) (\<lambda>cur.
     io_bind (io_wrap (''artifact-reader: decode migration_id='' @ Itoa (uint migrationID) @ '': '') cur) (\<lambda>docs.
       io_ok (map service_artifact docs)))"

definition plan_prefixes :: "(RestructurePlan, 'b) Codec \<Rightarrow> 'b list \<Rightarrow> go_error + (string \<Rightarrow> string)" where
  "plan_prefixes C planBytes =
     (if planBytes = [] then Inr (\<lambda>name. [])
      else case Unmarshal C planBytes of
          Inl err \<Rightarrow> Inl (wrap_error ''generation-package: unmarshal plan: '' err [])
        | Inr plan \<Rightarrow> Inr (go_map_of (map (\<lambda>svc. (ps_Name svc, ps_ErrorPrefix svc)) (rp_Services plan))))"

definition target_profile :: "(TargetConfig, 'b) Codec \<Rightarrow> 'b list \<Rightarrow> string \<times> string" where
  "target_profile C targetBytes =
     (let go = (''go'', ''docs/prism/milton-prism-service-generator-prompt.md'')
      in if targetBytes = [] then go
         else case Unmarshal C targetBytes of
             Inl err \<Rightarrow> go
           | Inr tc \<Rightarrow> if tc_Language tc = TARGET_LANGUAGE_PYTHON
                       then (''python'', ''docs/prism/milton-prism-python-service-generator-prompt.md'') else go)"

definition service_spec :: "(string \<Rightarrow> string) \<Rightarrow> string \<Rightarrow> DesignDoc \<Rightarrow> ServiceSpec" where
  "service_spec prefixByName promptRef d =
     \<lparr> ss_Name = dd_ServiceName d, ss_ErrorPrefix = prefixByName (dd_ServiceName d),
       ss_ProtoContent = dd_ProtoContent d, ss_BoundarySpec = dd_BoundarySpec d, ss_Incomplete = dd_Incomplete d,
       ss_IncompleteReason = dd_IncompleteReason d, ss_GeneratorPromptRef = promptRef \<rparr>"

definition ReadPackage :: "('w, 'b) DesignStores \<Rightarrow> u64 \<Rightarrow> ('w, GenPackage) io" where
  "ReadPackage D migrationID =
     io_bind (io_wrap (''generation-package: find migration '' @ Itoa (uint migrationID) @ '': '')
               (FindOne (ds_migrations D) (live_at migrationID))) (\<lambda>found.
     case found of
       None \<Rightarrow> io_err (ErrStr (''generation-package: migration '' @ Itoa (uint migrationID) @ '' not found''))
     | Some migDoc \<Rightarrow> (case plan_prefixes (ds_planCodec D) (doc_PlanBytes migDoc) of
           Inl err \<Rightarrow> io_err err
         | Inr prefixByName \<Rightarrow>
             let (profile, promptRef) = target_profile (ds_targetCodec D) (doc_TargetBytes migDoc)
             in io_bind (io_wrap (''generation-package: find artifacts migration_id='' @ Itoa (uint migrationID) @ '': '')
                          (ds_Find D (\<lambda>d. dd_MigrationID d = migrationID))) (\<lambda>cur.
                io_bind (io_wrap (''generation-package: decode artifacts migration_id='' @ Itoa (uint migrationID) @ '': '')
                          cur) (\<lambda>artDocs.
                  if artDocs = []
                  then io_err (ErrStr (''generation-package: no design artifacts for migration '' @ Itoa (uint migrationID)))
                  else io_ok \<lparr> wp_MigrationID = migrationID, wp_OutputProfile = profile,
                               wp_Services = map (service_spec prefixByName promptRef) artDocs \<rparr>))))"

section \<open>What the readers rely on\<close>

text \<open>\<open>design w\<close> are the documents of the collection. A search answers with the documents that match, in any
  order, and changes nothing; an upsert replaces one document that matches or inserts the new one, and neither
  touches the migrations.\<close>

definition design_ok ::
  "('w, 'b) DesignStores \<Rightarrow> ('w \<Rightarrow> DesignDoc list) \<Rightarrow> ('w \<Rightarrow> 'b mongoMigrationDoc list) \<Rightarrow> bool" where
  "design_ok D design docs \<longleftrightarrow>
     (\<forall>q A M. triple (\<lambda>w. design w = A \<and> docs w = M) (ds_Find D q)
        (\<lambda>r w. design w = A \<and> docs w = M \<and>
           (case r of Inl _ \<Rightarrow> True
            | Inr cur \<Rightarrow> triple (\<lambda>w. design w = A \<and> docs w = M) cur
                (\<lambda>r w. design w = A \<and> docs w = M \<and>
                   (case r of Inl _ \<Rightarrow> True | Inr ds \<Rightarrow> mset ds = mset (filter q A)))))) \<and>
     (\<forall>q new A M. triple (\<lambda>w. design w = A \<and> docs w = M) (ds_Upsert D q new)
        (\<lambda>r w. docs w = M \<and>
           (let written = (if \<exists>d \<in> set A. q d then \<exists>xs d ys. A = xs @ d # ys \<and> q d \<and> design w = xs @ new # ys
                           else design w = A @ [new])
            in case r of Inr _ \<Rightarrow> written | Inl _ \<Rightarrow> design w = A \<or> written))) \<and>
     (\<forall>i. keeps design (FindOne (ds_migrations D) (live_at i))) \<and>
     collection_ok doc_Identifier (ds_migrations D) docs"

definition design_key :: "DesignDoc \<Rightarrow> u64 \<times> string" where
  "design_key d = (dd_MigrationID d, dd_ServiceName d)"

definition unique_designs :: "DesignDoc list \<Rightarrow> bool" where
  "unique_designs A \<longleftrightarrow> distinct (map design_key A)"

section \<open>Runs\<close>

lemma design_Find_run:
  assumes D: "design_ok D design docs" and run: "run_state (ds_Find D q) w = (Inr cur, w1)"
    and run1: "run_state cur w1 = (Inr ds, w2)"
  shows "design w2 = design w \<and> docs w2 = docs w \<and> mset ds = mset (filter q (design w))"
proof -
  have "triple (\<lambda>v. design v = design w \<and> docs v = docs w) (ds_Find D q)
      (\<lambda>r v. design v = design w \<and> docs v = docs w \<and>
         (case r of Inl _ \<Rightarrow> True
          | Inr cur \<Rightarrow> triple (\<lambda>v. design v = design w \<and> docs v = docs w) cur
              (\<lambda>r v. design v = design w \<and> docs v = docs w \<and>
                 (case r of Inl _ \<Rightarrow> True | Inr ds \<Rightarrow> mset ds = mset (filter q (design w))))))"
    using D unfolding design_ok_def by blast
  from tripleD [OF this run] have w1: "design w1 = design w" "docs w1 = docs w"
    and t: "triple (\<lambda>v. design v = design w \<and> docs v = docs w) cur
              (\<lambda>r v. design v = design w \<and> docs v = docs w \<and>
                 (case r of Inl _ \<Rightarrow> True | Inr ds \<Rightarrow> mset ds = mset (filter q (design w))))" by auto
  from tripleD [OF t run1] w1 show ?thesis by simp
qed

lemma design_Upsert_run:
  assumes D: "design_ok D design docs" and run: "run_state (ds_Upsert D q new) w = (Inr u, w')"
  shows "docs w' = docs w \<and>
    (if \<exists>d \<in> set (design w). q d then \<exists>xs d ys. design w = xs @ d # ys \<and> q d \<and> design w' = xs @ new # ys
     else design w' = design w @ [new])"
proof -
  have "triple (\<lambda>v. design v = design w \<and> docs v = docs w) (ds_Upsert D q new)
        (\<lambda>r v. docs v = docs w \<and>
           (let written = (if \<exists>d \<in> set (design w). q d
                           then \<exists>xs d ys. design w = xs @ d # ys \<and> q d \<and> design v = xs @ new # ys
                           else design v = design w @ [new])
            in case r of Inr _ \<Rightarrow> written | Inl _ \<Rightarrow> design v = design w \<or> written))"
    using D unfolding design_ok_def by blast
  from tripleD [OF this run] show ?thesis by (simp add: Let_def)
qed

text \<open>An upsert under a unique key: the other documents stay and the new one is there.\<close>

lemma upsert_designs:
  assumes uniq: "unique_designs A" and k: "design_key new = k" and q: "\<And>d. q d \<longleftrightarrow> design_key d = k"
    and eff: "if \<exists>d \<in> set A. q d then \<exists>xs d ys. A = xs @ d # ys \<and> q d \<and> A' = xs @ new # ys
              else A' = A @ [new]"
  shows "unique_designs A' \<and> set A' = insert new {d \<in> set A. design_key d \<noteq> k}"
proof (cases "\<exists>d \<in> set A. q d")
  case True
  with eff obtain xs d ys where A: "A = xs @ d # ys" "q d" "A' = xs @ new # ys" by auto
  with uniq k q have "\<forall>x \<in> set xs \<union> set ys. design_key x \<noteq> k" by (auto simp: unique_designs_def image_iff)
  with A uniq k q show ?thesis by (auto simp: unique_designs_def image_iff)
next
  case False
  with eff uniq k q show ?thesis by (auto simp: unique_designs_def)
qed

lemma UpsertDesign_run:
  assumes D: "design_ok D design docs" and "unique_designs (design w)" and "distinct (map da_ServiceName as)"
    and "run_state (UpsertDesign D m as) w = (Inr u, w')"
  shows "docs w' = docs w \<and> unique_designs (design w') \<and>
    set (design w') = design_doc m ` set as \<union> {d \<in> set (design w). design_key d \<notin> (\<lambda>a. (m, da_ServiceName a)) ` set as}"
  using assms(2-)
proof (induction as arbitrary: w)
  case Nil
  then show ?case by simp
next
  case (Cons a as)
  let ?q = "\<lambda>d. dd_MigrationID d = m \<and> dd_ServiceName d = da_ServiceName a" and ?k = "(m, da_ServiceName a)"
  have q: "?q d \<longleftrightarrow> design_key d = ?k" for d by (auto simp: design_key_def)
  from Cons.prems(3) obtain v w1 where up: "run_state (ds_Upsert D ?q (design_doc m a)) w = (Inr v, w1)"
      and rest: "run_state (UpsertDesign D m as) w1 = (Inr u, w')"
    by (auto simp: io_unfold split: prod.splits sum.splits)
  have key: "design_key (design_doc m a) = ?k" by (simp add: design_key_def design_doc_def)
  note u = design_Upsert_run [OF D up]
  from upsert_designs [OF Cons.prems(1) key q conjunct2 [OF u]]
  have w1: "unique_designs (design w1)" "set (design w1) = insert (design_doc m a) {d \<in> set (design w). design_key d \<noteq> ?k}"
    by simp_all
  have "distinct (map da_ServiceName as)" using Cons.prems(2) by simp
  from Cons.IH [OF w1(1) this rest] have w': "docs w' = docs w1" "unique_designs (design w')"
      "set (design w') = design_doc m ` set as \<union> {d \<in> set (design w1). design_key d \<notin> (\<lambda>a. (m, da_ServiceName a)) ` set as}"
    by simp_all
  have "\<forall>b \<in> set as. da_ServiceName b \<noteq> da_ServiceName a" using Cons.prems(2) by (auto simp: image_iff)
  then have "set (design w') = design_doc m ` set (a # as) \<union> {d \<in> set (design w). design_key d \<notin> (\<lambda>a. (m, da_ServiceName a)) ` set (a # as)}"
    unfolding w'(3) w1(2) using key by auto
  then show ?case using w'(1,2) u by simp
qed

lemma ReadPackage_run:
  assumes D: "design_ok D design docs" and run: "run_state (ReadPackage D m) w = (Inr P, w')"
  obtains migDoc prefixByName where "migDoc \<in> set (docs w)" "live_at m migDoc"
    "plan_prefixes (ds_planCodec D) (doc_PlanBytes migDoc) = Inr prefixByName"
    "wp_MigrationID P = m" "wp_OutputProfile P = fst (target_profile (ds_targetCodec D) (doc_TargetBytes migDoc))"
    "mset (wp_Services P) = image_mset (service_spec prefixByName (snd (target_profile (ds_targetCodec D) (doc_TargetBytes migDoc))))
       (mset (filter (\<lambda>d. dd_MigrationID d = m) (design w)))"
    "docs w' = docs w" "design w' = design w" "wp_Services P \<noteq> []"
proof -
  obtain y w1 where f: "run_state (FindOne (ds_migrations D) (live_at m)) w = (y, w1)" by (meson surj_pair)
  have coll: "collection_ok doc_Identifier (ds_migrations D) docs" using D by (simp add: design_ok_def)
  note find = collection_FindOne [OF coll f]
  have "keeps design (FindOne (ds_migrations D) (live_at m))" using D by (simp add: design_ok_def)
  from keepsD [OF this f] have dw: "design w1 = design w" .
  from run f obtain migDoc prefixByName cur w2 ds w3 where r: "y = Inr (Some migDoc)"
      "plan_prefixes (ds_planCodec D) (doc_PlanBytes migDoc) = Inr prefixByName"
      "run_state (ds_Find D (\<lambda>d. dd_MigrationID d = m)) w1 = (Inr cur, w2)" "run_state cur w2 = (Inr ds, w3)" "w' = w3" "ds \<noteq> []"
      "P = \<lparr> wp_MigrationID = m, wp_OutputProfile = fst (target_profile (ds_targetCodec D) (doc_TargetBytes migDoc)),
         wp_Services = map (service_spec prefixByName (snd (target_profile (ds_targetCodec D) (doc_TargetBytes migDoc)))) ds \<rparr>"
    unfolding ReadPackage_def
    by (auto simp: io_unfold Let_def split: prod.splits sum.splits option.splits if_splits)
  from design_Find_run [OF D r(3,4)] have ds: "design w3 = design w1" "docs w3 = docs w1"
      "mset ds = mset (filter (\<lambda>d. dd_MigrationID d = m) (design w1))" by simp_all
  show thesis
    by (rule that [of migDoc prefixByName]) (use r find ds dw in \<open>simp_all add: mset_map\<close>)
qed

section \<open>Properties\<close>

text \<open>
  C13. What the decomposition worker stores is what the generation worker reads: after the artifacts of a design with
  distinct service names were stored, the package of the migration has one service for each of them, with its
  proto file, boundary specification and hole, and the names of the package are distinct. The other services of
  the package are left over from an earlier design of the migration.
\<close>

theorem design_reaches_generator:
  assumes D: "design_ok D design docs" and uniq: "unique_designs (design w)"
    and names: "distinct (map da_ServiceName as)"
    and stored: "run_state (UpsertDesign D m as) w = (Inr (), w1)" and got: "run_state (ReadPackage D m) w1 = (Inr P, w2)"
  shows "distinct (map ss_Name (wp_Services P)) \<and>
    (\<forall>a \<in> set as. \<exists>svc \<in> set (wp_Services P). ss_Name svc = da_ServiceName a \<and>
       ss_ProtoContent svc = da_ProtoContent a \<and> ss_BoundarySpec svc = da_BoundarySpec a \<and>
       ss_Incomplete svc = da_Incomplete a \<and> ss_IncompleteReason svc = da_IncompleteReason a) \<and>
    (\<forall>svc \<in> set (wp_Services P). ss_Name svc \<notin> da_ServiceName ` set as \<longrightarrow>
       (\<exists>d \<in> set (design w). design_key d = (m, ss_Name svc) \<and> ss_ProtoContent svc = dd_ProtoContent d))"
proof -
  from UpsertDesign_run [OF D uniq names stored]
  have w1: "unique_designs (design w1)" "set (design w1) = design_doc m ` set as \<union>
      {d \<in> set (design w). design_key d \<notin> (\<lambda>a. (m, da_ServiceName a)) ` set as}" by simp_all
  from ReadPackage_run [OF D got] obtain prefixByName promptRef where
    P: "mset (wp_Services P) = image_mset (service_spec prefixByName promptRef) (mset (filter (\<lambda>d. dd_MigrationID d = m) (design w1)))"
    by metis
  then have set: "set (wp_Services P) = service_spec prefixByName promptRef ` {d \<in> set (design w1). dd_MigrationID d = m}"
    by (simp add: P flip: set_mset_mset)
  have "mset (map ss_Name (wp_Services P)) = mset (map dd_ServiceName (filter (\<lambda>d. dd_MigrationID d = m) (design w1)))"
    by (simp add: P image_mset.compositionality o_def service_spec_def)
  moreover have "distinct (map dd_ServiceName (filter (\<lambda>d. dd_MigrationID d = m) ds))" if "distinct (map design_key ds)" for ds
    using that by (induction ds) (auto simp: design_key_def image_iff)
  ultimately have "distinct (map ss_Name (wp_Services P))"
    using w1(1) by (metis mset_eq_imp_distinct_iff unique_designs_def)
  moreover have "\<exists>svc \<in> set (wp_Services P). ss_Name svc = da_ServiceName a \<and>
       ss_ProtoContent svc = da_ProtoContent a \<and> ss_BoundarySpec svc = da_BoundarySpec a \<and>
       ss_Incomplete svc = da_Incomplete a \<and> ss_IncompleteReason svc = da_IncompleteReason a" if "a \<in> set as" for a
  proof
    have "design_doc m a \<in> {d \<in> set (design w1). dd_MigrationID d = m}" using that unfolding w1(2) by (simp add: design_doc_def)
    then show "service_spec prefixByName promptRef (design_doc m a) \<in> set (wp_Services P)" unfolding set by (rule imageI)
  qed (simp add: service_spec_def design_doc_def)
  moreover have "\<exists>d \<in> set (design w). design_key d = (m, ss_Name svc) \<and> ss_ProtoContent svc = dd_ProtoContent d"
    if "svc \<in> set (wp_Services P)" "ss_Name svc \<notin> da_ServiceName ` set as" for svc
  proof -
    from that(1) obtain d where d: "d \<in> set (design w1)" "dd_MigrationID d = m" "svc = service_spec prefixByName promptRef d"
      unfolding set by auto
    then have "ss_Name svc = dd_ServiceName d" by (simp add: service_spec_def)
    have "d \<notin> design_doc m ` set as"
    proof
      assume "d \<in> design_doc m ` set as"
      then obtain a where "a \<in> set as" "d = design_doc m a" by blast
      then have "ss_Name svc = da_ServiceName a" using \<open>ss_Name svc = dd_ServiceName d\<close> by (simp add: design_doc_def)
      with that(2) \<open>a \<in> set as\<close> show False by simp
    qed
    with d w1(2) show ?thesis by (intro bexI [of _ d]) (auto simp: service_spec_def design_key_def)
  qed
  ultimately show ?thesis by blast
qed

text \<open>The spec of the service's package that a spec of the worker's package mirrors.\<close>

definition mirrored :: "ServiceSpec \<Rightarrow> ServiceGenerationSpec" where
  "mirrored s =
     \<lparr> gs_Name = ss_Name s, gs_ErrorPrefix = ss_ErrorPrefix s, gs_ProtoContent = ss_ProtoContent s,
       gs_BoundarySpec = ss_BoundarySpec s, gs_Incomplete = ss_Incomplete s,
       gs_IncompleteReason = ss_IncompleteReason s, gs_GeneratorPromptRef = ss_GeneratorPromptRef s \<rparr>"

lemma GetGenerationPackage_run:
  assumes M: "mongo_ok B docs" and D: "design_ok D design docs"
    and S: "svc_repo S = MongoMigrationRepository B" "svc_artifacts S = ReadArtifacts D"
    and kd: "keeps design (FindOne (db_coll B) (\<lambda>d. doc_Identifier d = i \<and> (False \<or> doc_DeleteTime d = None)))"
    and run: "run_state (GetGenerationPackage S i) w = (Inr P, w')"
  obtains d m where "d \<in> set (docs w)" "live_at i d" "migrationDocToDomain (db_codecs B) d = Inr m"
    "mig_State m = MIGRATION_STATE_GENERATING" "gp_MigrationId P = i" "gp_OutputProfile P = outputProfileLabel (mig_Target m)"
    "mset (gp_Services P) = image_mset (\<lambda>d. mirrored (service_spec
       (go_map_of (map (\<lambda>svc. (ps_Name svc, ps_ErrorPrefix svc)) (GetPlanServices (mig_Plan m))))
       (generatorPromptRef (outputProfileLabel (mig_Target m))) d)) (mset (filter (\<lambda>d. dd_MigrationID d = i) (design w)))"
proof -
  let ?q = "\<lambda>d. doc_Identifier d = i \<and> (False \<or> doc_DeleteTime d = None)"
  have repo: "repo_GetByID (svc_repo S) = mongo_GetByID B" by (simp add: S(1) MongoMigrationRepository_def)
  from run obtain m w1 arts where g: "run_state (mongo_GetByID B i False) w = (Inr m, w1)"
      "mig_State m = MIGRATION_STATE_GENERATING" and a: "run_state (ReadArtifacts D i) w1 = (Inr arts, w')"
    and P: "gp_MigrationId P = i" "gp_OutputProfile P = outputProfileLabel (mig_Target m)"
      "gp_Services P = map (\<lambda>a. \<lparr> gs_Name = sa_ServiceName a, gs_ErrorPrefix = go_map_of
           (map (\<lambda>svc. (ps_Name svc, ps_ErrorPrefix svc)) (GetPlanServices (mig_Plan m))) (sa_ServiceName a),
         gs_ProtoContent = sa_ProtoContent a, gs_BoundarySpec = sa_BoundarySpec a,
         gs_Incomplete = sa_Incomplete a, gs_IncompleteReason = sa_IncompleteReason a,
         gs_GeneratorPromptRef = generatorPromptRef (outputProfileLabel (mig_Target m)) \<rparr>) arts"
    unfolding GetGenerationPackage_def repo S(2) Let_def
    by (auto simp: io_unfold split: prod.splits sum.splits if_splits)
  obtain y v where f: "run_state (FindOne (db_coll B) ?q) w = (y, v)" by (meson surj_pair)
  have coll: "collection_ok doc_Identifier (db_coll B) docs" using M by (simp add: mongo_ok_def)
  note find = collection_FindOne [OF coll f]
  from keepsD [OF kd f] have dw: "design v = design w" .
  from g(1) f obtain d where d: "y = Inr (Some d)" "migrationDocToDomain (db_codecs B) d = Inr m" "v = w1"
    unfolding mongo_GetByID_def Let_def by (auto simp: io_unfold split: prod.splits sum.splits option.splits)
  from a obtain cur w2 ds where r: "run_state (ds_Find D (\<lambda>d. dd_MigrationID d = i)) w1 = (Inr cur, w2)"
      "run_state cur w2 = (Inr ds, w')" "arts = map service_artifact ds"
    unfolding ReadArtifacts_def by (auto simp: io_unfold split: prod.splits sum.splits)
  from design_Find_run [OF D r(1,2)] have "mset ds = mset (filter (\<lambda>d. dd_MigrationID d = i) (design w))"
    using dw d(3) by simp
  moreover have "gp_Services P = map (\<lambda>d. mirrored (service_spec
       (go_map_of (map (\<lambda>svc. (ps_Name svc, ps_ErrorPrefix svc)) (GetPlanServices (mig_Plan m))))
       (generatorPromptRef (outputProfileLabel (mig_Target m))) d)) ds"
    by (simp add: P(3) r(3) mirrored_def service_spec_def service_artifact_def)
  ultimately show thesis
    by (intro that [of d m]) (use find d g(2) P in \<open>simp_all add: mset_map\<close>)
qed

text \<open>
  The package that the generation worker reads mirrors the one that the migration service shows: where both reads
  succeed on the same stores, the packages have the same identifier, profile and services, up to the order in
  which the database lists the artifacts.
\<close>

theorem package_readers_agree:
  assumes M: "mongo_ok B docs" and D: "design_ok D design docs" and ok: "docs_ok (db_codecs B) (docs w)"
    and S: "svc_repo S = MongoMigrationRepository B" "svc_artifacts S = ReadArtifacts D"
    and same: "ds_migrations D = db_coll B" "ds_planCodec D = cPlan (db_codecs B)" "ds_targetCodec D = cTarget (db_codecs B)"
    and service: "run_state (GetGenerationPackage S i) w = (Inr P, w1)" and job: "run_state (ReadPackage D i) w = (Inr Q, w2)"
  shows "gp_MigrationId P = wp_MigrationID Q \<and> gp_OutputProfile P = wp_OutputProfile Q \<and>
    mset (gp_Services P) = image_mset mirrored (mset (wp_Services Q))"
proof -
  have "keeps design (FindOne (ds_migrations D) (live_at i))" using D unfolding design_ok_def by blast
  then have kd: "keeps design (FindOne (db_coll B) (\<lambda>d. doc_Identifier d = i \<and> (False \<or> doc_DeleteTime d = None)))"
    by (simp add: same)
  obtain d m where d: "d \<in> set (docs w)" "live_at i d" "migrationDocToDomain (db_codecs B) d = Inr m"
    "mig_State m = MIGRATION_STATE_GENERATING" "gp_MigrationId P = i" "gp_OutputProfile P = outputProfileLabel (mig_Target m)"
    and P: "mset (gp_Services P) = image_mset (\<lambda>d. mirrored (service_spec
       (go_map_of (map (\<lambda>svc. (ps_Name svc, ps_ErrorPrefix svc)) (GetPlanServices (mig_Plan m))))
       (generatorPromptRef (outputProfileLabel (mig_Target m))) d)) (mset (filter (\<lambda>d. dd_MigrationID d = i) (design w)))"
    by (rule GetGenerationPackage_run [OF M D S kd service])
  obtain migDoc prefixByName where e: "migDoc \<in> set (docs w)" "live_at i migDoc"
    "plan_prefixes (cPlan (db_codecs B)) (doc_PlanBytes migDoc) = Inr prefixByName" "wp_MigrationID Q = i"
    "wp_OutputProfile Q = fst (target_profile (cTarget (db_codecs B)) (doc_TargetBytes migDoc))"
    and Q: "mset (wp_Services Q) = image_mset (service_spec prefixByName (snd (target_profile (cTarget (db_codecs B)) (doc_TargetBytes migDoc))))
       (mset (filter (\<lambda>d. dd_MigrationID d = i) (design w)))"
    and "docs w2 = docs w" "design w2 = design w" "wp_Services Q \<noteq> []"
    by (rule ReadPackage_run [OF D job, unfolded same])
  have "migDoc = d" using ok d(1,2) e(1,2) by (auto simp: docs_ok_def distinct_map dest: inj_onD)
  from d(3) have fields: "unmarshal_field (cTarget (db_codecs B)) ''target'' (doc_TargetBytes d) = Inr (mig_Target m)"
      "unmarshal_field (cPlan (db_codecs B)) ''plan'' (doc_PlanBytes d) = Inr (mig_Plan m)"
    by (auto simp: migrationDocToDomain_def)
  have "prefixByName = go_map_of (map (\<lambda>svc. (ps_Name svc, ps_ErrorPrefix svc)) (GetPlanServices (mig_Plan m)))"
    using fields(2) e(3) \<open>migDoc = d\<close>
    by (cases "mig_Plan m")
       (auto simp: plan_prefixes_def unmarshal_field_def GetPlanServices_def go_map_of_def split: if_splits sum.splits)
  moreover have "target_profile (cTarget (db_codecs B)) (doc_TargetBytes migDoc) =
       (outputProfileLabel (mig_Target m), generatorPromptRef (outputProfileLabel (mig_Target m)))"
    using fields(1) \<open>migDoc = d\<close>
    by (cases "mig_Target m")
       (auto simp: target_profile_def unmarshal_field_def outputProfileLabel_def generatorPromptRef_def Let_def
        split: if_splits sum.splits)
  ultimately show ?thesis using d(5,6) e(4,5) P Q by (simp add: image_mset.compositionality o_def)
qed

section \<open>Stores in memory\<close>

text \<open>The world is the migrations with the design documents.\<close>

type_synonym design_world = "proto_msg mongoMigrationDoc list \<times> DesignDoc list"

fun replace_or_add :: "('d \<Rightarrow> bool) \<Rightarrow> 'd \<Rightarrow> 'd list \<Rightarrow> 'd list" where
  "replace_or_add q new [] = [new]"
| "replace_or_add q new (d # ds) = (if q d then new # ds else d # replace_or_add q new ds)"

definition pair_coll :: "(design_world, proto_msg mongoMigrationDoc) Collection" where
  "pair_coll = list_coll fst (\<lambda>ds w. (ds, snd w)) doc_Identifier"

definition pair_db :: "(design_world, proto_msg) MongoDB" where
  "pair_db =
     \<lparr> db_coll = pair_coll,
       db_counters = \<lparr> IncSeq = (\<lambda>s. io_ok 1), InsertSeq = (\<lambda>s v. io_ok ()), IsDuplicateKeyError = (\<lambda>e. False),
                       CtxErr = State_Monad.return None, SleepMs = (\<lambda>n. State_Monad.return ()) \<rparr>,
       db_codecs = mem_codecs, db_now = State_Monad.return 0 \<rparr>"

definition pair_stores :: "(design_world, proto_msg) DesignStores" where
  "pair_stores =
     \<lparr> ds_migrations = pair_coll, ds_planCodec = cPlan mem_codecs, ds_targetCodec = cTarget mem_codecs,
       ds_Find = (\<lambda>q. State (\<lambda>w. (Inr (State (\<lambda>v. (Inr (filter q (snd v)), v))), w))),
       ds_Upsert = (\<lambda>q new. State (\<lambda>w. (Inr (), (fst w, replace_or_add q new (snd w))))) \<rparr>"

definition pair_service :: "design_world Service" where
  "pair_service =
     \<lparr> svc_repo = MongoMigrationRepository pair_db, svc_tx = MongoTransactionManager None,
       svc_identity = None, svc_repoSvc = None, svc_analysis = None,
       svc_artifacts = ReadArtifacts pair_stores, svc_generationEnqueuer = None,
       svc_decomposeEnqueuer = None, svc_generationResultReader = None,
       svc_fileArtifactReader = (\<lambda>i n. io_ok []), svc_migrabilityAssessor = None,
       svc_roadmapEnricher = None, svc_blueprintGenerator = None, svc_stackDetector = None,
       svc_monorepoPath = [],
       svc_assemble = (\<lambda>root gw fs. io_ok []),
       svc_zip = \<lparr> zw_CreateHeader = (\<lambda>es n. None), zw_Write = (\<lambda>es c. None), zw_Close = (\<lambda>es. Inr []) \<rparr>,
       svc_now = State_Monad.return 0 \<rparr>"

lemma pair_coll_ok: "collection_ok doc_Identifier pair_coll fst"
  unfolding pair_coll_def by (rule list_coll_ok) simp

lemma pair_db_ok: "mongo_ok pair_db fst"
  using mem_codecs_ok pair_coll_ok by (simp add: mongo_ok_def pair_db_def counters_keep_def)

lemma replace_or_add_none: "\<forall>d \<in> set ds. \<not> q d \<Longrightarrow> replace_or_add q new ds = ds @ [new]"
  by (induction ds) auto

lemma replace_or_add_some:
  "\<exists>d \<in> set ds. q d \<Longrightarrow> \<exists>xs d ys. ds = xs @ d # ys \<and> q d \<and> replace_or_add q new ds = xs @ new # ys"
proof (induction ds)
  case (Cons a ds)
  show ?case
  proof (cases "q a")
    case True
    then show ?thesis by (intro exI [of _ "[]"]) auto
  next
    case False
    with Cons obtain xs d ys where "ds = xs @ d # ys" "q d" "replace_or_add q new ds = xs @ new # ys" by auto
    with False show ?thesis by (intro exI [of _ "a # xs"]) auto
  qed
qed simp

lemma pair_stores_ok: "design_ok pair_stores snd fst"
proof -
  have up: "if \<exists>d \<in> set A. q d then \<exists>xs d ys. A = xs @ d # ys \<and> q d \<and> replace_or_add q new A = xs @ new # ys
      else replace_or_add q new A = A @ [new]" for q and new :: DesignDoc and A
    using replace_or_add_some [of A q new] replace_or_add_none [of A q new] by auto
  have "triple (\<lambda>w. snd w = A \<and> fst w = M) (ds_Upsert pair_stores q new)
        (\<lambda>r w. fst w = M \<and>
           (let written = (if \<exists>d \<in> set A. q d then \<exists>xs d ys. A = xs @ d # ys \<and> q d \<and> snd w = xs @ new # ys
                           else snd w = A @ [new])
            in case r of Inr _ \<Rightarrow> written | Inl _ \<Rightarrow> snd w = A \<or> written))" for q new A M
    using up [of A q new] by (auto simp: triple_def pair_stores_def Let_def)
  moreover have "keeps snd (FindOne (ds_migrations pair_stores) (live_at i))" for i
    by (simp add: keeps_def pair_stores_def pair_coll_def list_coll_def)
  moreover have "triple (\<lambda>w. snd w = A \<and> fst w = M) (ds_Find pair_stores q)
        (\<lambda>r w. snd w = A \<and> fst w = M \<and>
           (case r of Inl _ \<Rightarrow> True
            | Inr cur \<Rightarrow> triple (\<lambda>w. snd w = A \<and> fst w = M) cur
                (\<lambda>r w. snd w = A \<and> fst w = M \<and>
                   (case r of Inl _ \<Rightarrow> True | Inr ds \<Rightarrow> mset ds = mset (filter q A)))))" for q A M
    by (auto simp: triple_def pair_stores_def)
  ultimately show ?thesis unfolding design_ok_def using pair_coll_ok by (simp add: pair_stores_def)
qed

section \<open>Witnesses\<close>

definition shop_plan :: RestructurePlan where
  "shop_plan = zero_RestructurePlan\<lparr>rp_Services :=
     [\<lparr> ps_Name = ''users'', ps_ErrorPrefix = ''USE'', ps_OwnedResources = [], ps_InterServiceDeps = [], ps_CrossServiceFks = [] \<rparr>,
      \<lparr> ps_Name = ''orders'', ps_ErrorPrefix = ''ORD'', ps_OwnedResources = [], ps_InterServiceDeps = [], ps_CrossServiceFks = [] \<rparr>]\<rparr>"

definition artifact :: "string \<Rightarrow> string \<Rightarrow> design_artifact" where
  "artifact name proto = \<lparr> da_ServiceName = name, da_ProtoContent = proto, da_BoundarySpec = [],
     da_Incomplete = False, da_IncompleteReason = [] \<rparr>"

definition shop_designs :: "design_artifact list" where
  "shop_designs = [artifact ''users'' ''users.proto'', artifact ''orders'' ''orders.proto'']"

text \<open>A migration with its plan, and a document of an earlier design.\<close>

definition shop_world :: design_world where
  "shop_world = ([(demo_doc 1 MIGRATION_STATE_GENERATING)\<lparr>doc_PlanBytes := [PPlan shop_plan]\<rparr>],
     [design_doc 1 (artifact ''legacy'' ''legacy.proto'')])"

lemma shop_docs_ok: "docs_ok (db_codecs pair_db) (fst shop_world)"
  by (simp add: docs_ok_def shop_world_def demo_doc_def doc_reads_def migrationDocToDomain_def pair_db_def
      doc_roadmap_def unmarshal_field_def mem_codecs_def mem_codec_def)

theorem design_reaches_generator_witness:
  "case fst (run_state (ReadPackage pair_stores 1) (snd (run_state (UpsertDesign pair_stores 1 shop_designs) shop_world))) of
     Inl e \<Rightarrow> False
   | Inr P \<Rightarrow> distinct (map ss_Name (wp_Services P)) \<and>
       (\<exists>svc \<in> set (wp_Services P). ss_Name svc = ''orders'' \<and> ss_ProtoContent svc = ''orders.proto'') \<and>
       map ss_ErrorPrefix (wp_Services P) = [[], ''USE'', ''ORD'']"
proof -
  let ?up = "run_state (UpsertDesign pair_stores 1 shop_designs) shop_world"
  have up: "?up = (Inr (), snd ?up)" by (rule prod_eqI) code_simp+
  let ?rd = "run_state (ReadPackage pair_stores 1) (snd ?up)"
  have "case fst ?rd of Inl e \<Rightarrow> False | Inr P \<Rightarrow> map ss_ErrorPrefix (wp_Services P) = [[], ''USE'', ''ORD'']"
    by code_simp
  then obtain P where P: "fst ?rd = Inr P" "map ss_ErrorPrefix (wp_Services P) = [[], ''USE'', ''ORD'']"
    by (cases "fst ?rd") auto
  then have rd: "?rd = (Inr P, snd ?rd)" by (metis prod.collapse)
  have "unique_designs (snd shop_world)" "distinct (map da_ServiceName shop_designs)" by code_simp+
  from design_reaches_generator [OF pair_stores_ok this up rd]
  have "distinct (map ss_Name (wp_Services P))"
    "\<exists>svc \<in> set (wp_Services P). ss_Name svc = ''orders'' \<and> ss_ProtoContent svc = ''orders.proto''"
    by (auto simp: shop_designs_def artifact_def)
  with P show ?thesis by simp
qed

theorem package_readers_agree_witness:
  "case (fst (run_state (GetGenerationPackage pair_service 1) shop_world), fst (run_state (ReadPackage pair_stores 1) shop_world)) of
     (Inr P, Inr Q) \<Rightarrow> gp_OutputProfile P = wp_OutputProfile Q \<and> mset (gp_Services P) = image_mset mirrored (mset (wp_Services Q)) \<and>
       gp_OutputProfile P = ''go'' \<and> map ss_Name (wp_Services Q) = [''legacy'']
   | _ \<Rightarrow> False"
proof -
  let ?s = "run_state (GetGenerationPackage pair_service 1) shop_world" and ?j = "run_state (ReadPackage pair_stores 1) shop_world"
  have "case fst ?s of Inl e \<Rightarrow> False | Inr P \<Rightarrow> gp_OutputProfile P = ''go''"
    "case fst ?j of Inl e \<Rightarrow> False | Inr Q \<Rightarrow> map ss_Name (wp_Services Q) = [''legacy'']" by code_simp+
  then obtain P Q where PQ: "fst ?s = Inr P" "gp_OutputProfile P = ''go''" "fst ?j = Inr Q" "map ss_Name (wp_Services Q) = [''legacy'']"
    by (cases "fst ?s"; cases "fst ?j") auto
  then have runs: "?s = (Inr P, snd ?s)" "?j = (Inr Q, snd ?j)" by (metis prod.collapse)+
  have S: "svc_repo pair_service = MongoMigrationRepository pair_db" "svc_artifacts pair_service = ReadArtifacts pair_stores"
    "ds_migrations pair_stores = db_coll pair_db" "ds_planCodec pair_stores = cPlan (db_codecs pair_db)"
    "ds_targetCodec pair_stores = cTarget (db_codecs pair_db)"
    by (simp_all add: pair_service_def pair_stores_def pair_db_def)
  from package_readers_agree [OF pair_db_ok pair_stores_ok shop_docs_ok S runs] PQ show ?thesis by simp
qed

end
