(* ===== verification/Generation_Run.thy ===== *)
theory Generation_Run
  imports Error_Aggregator Design_Artifacts
begin

text \<open>
  The whole job of the generation worker: \<^verbatim>\<open>Pipeline.Run\<close> (\<^verbatim>\<open>worker/generation/application/pipeline.go\<close>) from the package
  to the final state of the migration, and the job handler (\<^verbatim>\<open>worker/generation/jobs/run_generation_job.go\<close>). Between
  its beginning and its end the goroutines run, which is \<open>Generation_Pipeline\<close>.
\<close>

section \<open>Beginning and end\<close>

record 'w MigrationStateUpdater =
  msu_MarkReady :: "u64 \<Rightarrow> ('w, unit) io"
  msu_MarkFailed :: "u64 \<Rightarrow> ('w, unit) io"

definition MongoMigrationStateUpdater :: "('w, 'b) WorkerStores \<Rightarrow> 'w MigrationStateUpdater" where
  "MongoMigrationStateUpdater W = \<lparr> msu_MarkReady = su_MarkReady W, msu_MarkFailed = su_MarkFailed W \<rparr>"

text \<open>\<open>pkg\<close> is what the package reader answers, \<open>listErr\<close> the error of the listing of the records, if it fails. The
  result is the set of the services that are done, with the state in which the loop starts.\<close>

definition generation_begin ::
  "GenPayload \<Rightarrow> go_error + GenPackage \<Rightarrow> go_error option \<Rightarrow> GenStore \<Rightarrow> go_error + string set \<times> GenState" where
  "generation_begin payload pkg listErr s =
     (case pkg of
        Inl err \<Rightarrow> Inl (wrap_error ''read package: '' err [])
      | Inr p \<Rightarrow> (case listErr of
            Some err \<Rightarrow> Inl (wrap_error ''list existing records: '' err [])
          | None \<Rightarrow>
              let existing = ListRecords (gj_MigrationID payload) s
              in Inr (done_names existing, gen_start (select_services (wp_Services p) (gj_ServiceFilter payload)) s)))"

text \<open>The store after the assembly of the aggregator, with the write of the final state.\<close>

definition generation_end ::
  "'w MigrationStateUpdater \<Rightarrow> u64 \<Rightarrow> go_error option \<Rightarrow> (string \<times> string option) list option \<Rightarrow> GenPackage \<Rightarrow>
   string set \<Rightarrow> bool \<Rightarrow> GenStore \<Rightarrow> GenStore \<times> ('w, unit) io" where
  "generation_end updater migrationID listErr disk pkg fails effect s =
     (case listErr of
        Some err \<Rightarrow> (s, io_err (wrap_error ''list final records: '' err []))
      | None \<Rightarrow>
          let final = ListRecords migrationID s
          in (assembleErrorAggregator disk migrationID (wp_Services pkg) final fails effect s,
              if gen_verdict final = MIGRATION_STATE_FAILED
              then io_wrap ''mark failed: '' (msu_MarkFailed updater migrationID)
              else io_wrap ''mark ready: '' (msu_MarkReady updater migrationID)))"

text \<open>The handler hands the payload to the run; \<open>skipRetry\<close> is the text of the queue's sentinel.\<close>

definition generation_task :: "string \<Rightarrow> go_error + GenPayload \<Rightarrow> (GenPayload \<Rightarrow> ('w, unit) io) \<Rightarrow> ('w, unit) io" where
  "generation_task skipRetry task run =
     (case task of
        Inl err \<Rightarrow> io_err (wrap_error (skipRetry @ '': '') err [])
      | Inr payload \<Rightarrow> run payload)"

section \<open>Facts\<close>

lemma verdict_cases: "gen_verdict rs = MIGRATION_STATE_READY \<or> gen_verdict rs = MIGRATION_STATE_FAILED"
  by (simp add: gen_verdict_def)

lemma generation_end_run:
  assumes W: "workers_ok W C docs" and ok: "docs_ok C (docs w)"
    and run: "run_state (snd (generation_end (MongoMigrationStateUpdater W) m None disk pkg fails effect s)) w = (Inr (), w')"
  shows "\<exists>mig t. doc_view C (docs w) m = Some mig \<and>
    doc_view C (docs w') = (doc_view C (docs w))
      (m \<mapsto> mig\<lparr>mig_State := gen_verdict (ListRecords m s), mig_UpdateTime := Some t\<rparr>)"
proof -
  let ?v = "gen_verdict (ListRecords m s)"
  from run have "run_state (setFinalState W m ?v) w = (Inr (), w')"
    using verdict_cases [of "ListRecords m s"]
    by (auto simp: generation_end_def MongoMigrationStateUpdater_def su_MarkReady_def su_MarkFailed_def Let_def io_unfold
        split: if_splits prod.splits sum.splits)
  from setFinalState_run [OF W ok _ this] verdict_cases [of "ListRecords m s"] show ?thesis by auto
qed

lemma aggregator_keeps_services:
  assumes "name \<noteq> errorAggregatorService"
  shows "ListArtifacts m name (fst (generation_end u m listErr disk pkg fails effect s)) = ListArtifacts m name s"
proof -
  have "filter (\<lambda>d. ad_MigrationID d = m \<and> ad_ServiceName d = name)
      (upsert same_artifact (\<lambda>d doc. doc) new ds) = filter (\<lambda>d. ad_MigrationID d = m \<and> ad_ServiceName d = name) ds"
    if "ad_ServiceName new = errorAggregatorService" for new ds
    using that assms by (induction ds) (auto simp: same_artifact_def)
  then show ?thesis
    by (auto simp: generation_end_def assembleErrorAggregator_def UpsertArtifacts_def ListArtifacts_def Let_def split: option.split)
qed

section \<open>Properties\<close>

text \<open>
  C9. The end of a generation job that succeeds, the write of the final state included: the migration, and no other
  one, gets its final state. It is FAILED when a record of the migration in the final store is FAILED, otherwise
  READY, also for services outside the filter, and also when a service is not DONE because the write of its result
  was lost (\<open>lost_result_is_ready\<close>). When no write of a record was lost, the services of the package have
  distinct names and the store had one record per service to begin with, the migration is READY exactly when every
  selected service has a record with the status DONE and no service outside the selection has a FAILED one from an
  earlier job.
\<close>

theorem generation_job_outcome:
  assumes W: "workers_ok W C docs" and ok: "docs_ok C (docs w)"
    and begins: "generation_begin payload (Inr pkg) None s = Inr (D, st0)"
    and run: "gen_steps c (gj_MigrationID payload) D es st0 = Some st" "all_finished st"
    and ends: "run_state (snd (generation_end (MongoMigrationStateUpdater W) (gj_MigrationID payload) None disk pkg fails
                 effect (gt_store st))) w = (Inr (), w')"
  shows "\<exists>mig t final. doc_view C (docs w) (gj_MigrationID payload) = Some mig \<and>
    doc_view C (docs w') = (doc_view C (docs w))
      (gj_MigrationID payload \<mapsto> mig\<lparr>mig_State := final, mig_UpdateTime := Some t\<rparr>) \<and>
    final = (if \<exists>r \<in> set (ListRecords (gj_MigrationID payload) (gt_store st)). sg_Status r = StatusFailed
             then MIGRATION_STATE_FAILED else MIGRATION_STATE_READY) \<and>
    ((\<forall>e \<in> set es. effective e) \<and> distinct (map ss_Name (wp_Services pkg)) \<and> store_ok s \<longrightarrow>
     (final = MIGRATION_STATE_READY \<longleftrightarrow>
        (\<forall>svc \<in> set (select_services (wp_Services pkg) (gj_ServiceFilter payload)).
           ss_Name svc \<in> done_names (ListRecords (gj_MigrationID payload) (gt_store st))) \<and>
        (\<forall>r \<in> set (ListRecords (gj_MigrationID payload) s).
           sg_ServiceName r \<notin> ss_Name ` set (select_services (wp_Services pkg) (gj_ServiceFilter payload)) \<longrightarrow>
           sg_Status r \<noteq> StatusFailed)))"
proof -
  let ?services = "select_services (wp_Services pkg) (gj_ServiceFilter payload)" and ?m = "gj_MigrationID payload"
  let ?final = "gen_verdict (ListRecords ?m (gt_store st))"
  from begins have D: "D = done_names (ListRecords ?m s)" "st0 = gen_start ?services s"
    by (auto simp: generation_begin_def Let_def)
  have iff: "?final = MIGRATION_STATE_READY \<longleftrightarrow>
      (\<forall>svc \<in> set ?services. ss_Name svc \<in> done_names (ListRecords ?m (gt_store st))) \<and>
      (\<forall>r \<in> set (ListRecords ?m s). sg_ServiceName r \<notin> ss_Name ` set ?services \<longrightarrow> sg_Status r \<noteq> StatusFailed)"
    if "(\<forall>e \<in> set es. effective e) \<and> distinct (map ss_Name (wp_Services pkg)) \<and> store_ok s"
  proof -
    from that have "distinct (map ss_Name ?services)" by (simp add: select_services_def distinct_map_filter)
    with run that D have "complete_run c ?m (done_names (ListRecords ?m s)) es ?services s st"
      by (simp add: complete_run_def)
    then show ?thesis by (rule verdict_iff) (use that in simp)
  qed
  from generation_end_run [OF W ok ends] iff show ?thesis unfolding gen_verdict_def by blast
qed

section \<open>Witness\<close>

text \<open>One service that passes its gates, for a migration in GENERATING.\<close>

definition job_package :: GenPackage where
  "job_package = \<lparr> wp_MigrationID = 1, wp_OutputProfile = ''go'', wp_Services = [demo_service ''articles''] \<rparr>"

definition job_payload :: GenPayload where
  "job_payload = \<lparr> gj_MigrationID = 1, gj_ServiceFilter = [] \<rparr>"

definition job_state :: GenState where
  "job_state = gen_start [demo_service ''articles''] empty_store"

definition job_end :: GenState where
  "job_end = the (gen_steps 2 1 {} (one_service 0 gates_passed True) job_state)"

definition job_finish :: "(mem, unit) io" where
  "job_finish = snd (generation_end (MongoMigrationStateUpdater mem_workers) 1 None None job_package {} True (gt_store job_end))"

lemma job_run:
  "gen_steps 2 (gj_MigrationID job_payload) {} (one_service 0 gates_passed True) job_state = Some job_end"
  "all_finished job_end"
proof -
  have "gen_steps 2 1 {} (one_service 0 gates_passed True) job_state \<noteq> None" by code_simp
  then show "gen_steps 2 (gj_MigrationID job_payload) {} (one_service 0 gates_passed True) job_state = Some job_end"
    by (auto simp: job_end_def job_payload_def)
  show "all_finished job_end" by code_simp
qed

theorem generation_job_outcome_witness:
  "\<exists>mig t. doc_view (db_codecs mem_db) (mem_docs (demo_world MIGRATION_STATE_GENERATING)) 1 = Some mig \<and>
     doc_view (db_codecs mem_db) (mem_docs (snd (run_state job_finish (demo_world MIGRATION_STATE_GENERATING)))) 1 =
       Some (mig\<lparr>mig_State := MIGRATION_STATE_READY, mig_UpdateTime := Some t\<rparr>)"
proof -
  let ?w = "demo_world MIGRATION_STATE_GENERATING"
  have begins: "generation_begin job_payload (Inr job_package) None empty_store = Inr ({}, job_state)"
    by (simp add: generation_begin_def job_package_def job_payload_def job_state_def select_services_def done_names_def
        ListRecords_def empty_store_def)
  have store: "store_ok empty_store" by (simp add: store_ok_def empty_store_def)
  have effective: "\<forall>e \<in> set (one_service 0 gates_passed True). effective e" by (simp add: one_service_def)
  have names: "distinct (map ss_Name (wp_Services job_package))" by (simp add: job_package_def)
  have "run_state job_finish ?w = (Inr (), snd (run_state job_finish ?w))" by (rule prod_eqI) code_simp+
  then have ends: "run_state (snd (generation_end (MongoMigrationStateUpdater mem_workers) (gj_MigrationID job_payload) None None
      job_package {} True (gt_store job_end))) ?w = (Inr (), snd (run_state job_finish ?w))"
    by (simp add: job_finish_def job_payload_def)
  have dn: "done_names (ListRecords 1 (gt_store job_end)) = {''articles''}" by code_simp
  have none: "ListRecords 1 empty_store = []" by (simp add: ListRecords_def empty_store_def)
  have sel: "select_services (wp_Services job_package) (gj_ServiceFilter job_payload) = [demo_service ''articles'']"
    and m: "gj_MigrationID job_payload = 1" and nm: "ss_Name (demo_service ''articles'') = ''articles''"
    by (simp_all add: select_services_def job_package_def job_payload_def demo_service_def)
  from generation_job_outcome [OF mem_workers_ok demo_world_ok begins job_run ends] store effective names
  obtain mig t where "doc_view (db_codecs mem_db) (mem_docs ?w) 1 = Some mig"
    "doc_view (db_codecs mem_db) (mem_docs (snd (run_state job_finish ?w))) =
      (doc_view (db_codecs mem_db) (mem_docs ?w)) (1 \<mapsto> mig\<lparr>mig_State := MIGRATION_STATE_READY, mig_UpdateTime := Some t\<rparr>)"
    by (auto simp: dn none sel m nm)
  then show ?thesis by auto
qed

end
