(* ===== verification/Module_Classifiers.thy ===== *)
theory Module_Classifiers
  imports Infra_Detection Digest Scorer
begin

text \<open>
  The classification of modules in the analysis worker: the generic classifier
  (\<^verbatim>\<open>worker/analysis/infrastructure/adapters/deterministic_module_classifier.go\<close>), the one for PHP
  (\<^verbatim>\<open>php_module_classifier.go\<close>) and the one that routes the edges (\<^verbatim>\<open>language_aware_classifier.go\<close>), with the
  conversions to the types of the decomposition worker (\<^verbatim>\<open>worker/analysis/application/converters.go\<close>). The lists of a
  result are sorted, so the order in which Go iterates over its maps does not show.
\<close>

section \<open>Conversions\<close>

definition ToWorkerGraph :: "DependencyEdge list \<Rightarrow> Graph" where
  "ToWorkerGraph edges =
     map (\<lambda>e. \<lparr> edge_From = de_FromModule e, edge_To = de_ToModule e, edge_Weight = de_Weight e \<rparr>) edges"

definition ToWorkerClassification :: "ModuleClassification \<Rightarrow> Classification" where
  "ToWorkerClassification mc =
     \<lparr> cl_Infra = mc_ApplicationModules mc @ mc_InfraModules mc, cl_Domain = mc_DomainModules mc,
       cl_Tests = mc_TestModules mc, cl_StructuralFallback = mc_StructuralFallback mc \<rparr>"

definition ToWorkerSummaryCards :: "ModuleCard list \<Rightarrow> BlueprintInfo list \<Rightarrow> Technology list \<Rightarrow> SummaryCards" where
  "ToWorkerSummaryCards cards blueprints techs =
     \<lparr> sd_ModuleCards = map (\<lambda>c.
         \<lparr> smc_Module = card_Module c, smc_File = card_File c, smc_Functions = card_Functions c,
           smc_Classes = card_Classes c, smc_State = card_ModuleLevelState c,
           smc_Routes = map (\<lambda>r. \<lparr> sr_Method = ri_Method r, sr_Path = ri_Path r, sr_Handler = ri_Handler r \<rparr>) (card_Routes c),
           smc_Docstring = card_DocstringHead c, smc_LOC = card_Loc c \<rparr>) cards,
       sd_Blueprints = map (\<lambda>b. \<lparr> sbp_Name = bi_Name b, sbp_File = bi_File b, sbp_URLPrefix = bi_UrlPrefix b \<rparr>) blueprints,
       sd_Technologies = map tech_Name techs,
       sd_Framework = (case filter (\<lambda>t. tech_Category t = ''framework'' \<and> tech_Name t \<noteq> []) techs of
          [] \<Rightarrow> [] | t # _ \<Rightarrow> tech_Name t) \<rparr>"

definition scoreBandToProto :: "string \<Rightarrow> ScoreBand" where
  "scoreBandToProto band =
     (if band = ''good'' then SCORE_BAND_GOOD else if band = ''medium'' then SCORE_BAND_MEDIUM
      else if band = ''bad'' then SCORE_BAND_BAD else SCORE_BAND_UNSPECIFIED)"

definition ToProtoMigrabilityScore :: "ScoreResult \<Rightarrow> MigrabilityScore" where
  "ToProtoMigrabilityScore score =
     \<lparr> ms_Value = to_int32 (sres_Value score),
       ms_Signals = map (\<lambda>c. c\<lparr>sig_Penalty := to_int32 (sig_Penalty c)\<rparr>) (sres_Breakdown score),
       ms_StructuralVerdict = [], ms_ScoreBand = scoreBandToProto (sres_ScoreBand score),
       ms_StructuralFindings = sres_StructuralFindings score, ms_TypedBlockers = sres_TypedBlockers score \<rparr>"

section \<open>The generic classifier\<close>

definition module_set :: "DependencyEdge list \<Rightarrow> string list" where
  "module_set edges =
     remdups (filter (\<lambda>m. m \<noteq> []) (concat (map (\<lambda>e. [de_FromModule e, de_ToModule e]) edges)))"

definition classifierDomainSuffixes :: "string set" where
  "classifierDomainSuffixes =
     {''models'', ''views'', ''serializers'', ''resources'', ''api'', ''handlers'', ''routes'', ''schema'',
      ''schemas'', ''entities'', ''repository'', ''repositories''}"

definition classifierGroupOf :: "string \<Rightarrow> string" where
  "classifierGroupOf m =
     (let parts = strings_SplitN 3 m (CHR ''.'')
      in if length parts \<le> 2 then m else parts ! 0 @ ''.'' @ parts ! 1)"

definition classifierLastComponent :: "string \<Rightarrow> string" where
  "classifierLastComponent m = after_last (CHR ''.'') m"

definition classifierIsTest :: "string \<Rightarrow> bool" where
  "classifierIsTest m \<longleftrightarrow>
     (\<exists>part \<in> set (strings_Split m (CHR ''.'')).
        part \<in> {''tests'', ''test'', ''spec''} \<or> HasPrefix part ''test_'' \<or> HasSuffix part ''_test'')"

text \<open>How many modules import a module, each counted once, and the threshold.\<close>

definition buildFanIn :: "DependencyEdge list \<Rightarrow> string \<Rightarrow> string list" where
  "buildFanIn edges m = remdups (map de_FromModule (filter (\<lambda>e. de_ToModule e = m) edges))"

definition imported_by_many :: "DependencyEdge list \<Rightarrow> string list \<Rightarrow> string \<Rightarrow> bool" where
  "imported_by_many edges ms m \<longleftrightarrow>
     (let threshold = length ms div 4;
          threshold = (if threshold < 2 then 2 else threshold)
      in length (buildFanIn edges m) > threshold)"

definition Deterministic_Classify :: "DependencyEdge list \<Rightarrow> ModuleClassification" where
  "Deterministic_Classify edges =
     (let ms = module_set edges;
          blueprintGroups = map classifierGroupOf (filter (\<lambda>m. classifierLastComponent m \<in> classifierDomainSuffixes) ms);
          nonTest = filter (\<lambda>m. \<not> classifierIsTest m) ms
      in if blueprintGroups \<noteq> []
         then \<lparr> mc_DomainModules = sort (filter (\<lambda>m. classifierGroupOf m \<in> set blueprintGroups) nonTest),
                mc_InfraModules = sort (filter (\<lambda>m. classifierGroupOf m \<notin> set blueprintGroups) nonTest),
                mc_TestModules = sort (filter classifierIsTest ms), mc_ApplicationModules = [],
                mc_StructuralFallback = False \<rparr>
         else \<lparr> mc_DomainModules = sort (filter (\<lambda>m. \<not> imported_by_many edges nonTest m) nonTest),
                mc_InfraModules = sort (filter (imported_by_many edges nonTest) nonTest),
                mc_TestModules = sort (filter classifierIsTest ms), mc_ApplicationModules = [],
                mc_StructuralFallback = True \<rparr>)"

section \<open>The classifier for PHP\<close>

definition PHP_Classify :: "DependencyEdge list \<Rightarrow> ModuleClassification" where
  "PHP_Classify edges =
     (let ms = module_set edges;
          unmatched = filter (\<lambda>m. LayerOf m \<notin> {''test'', ''application'', ''infra'', ''domain''}) ms
      in \<lparr> mc_DomainModules = sort (filter (\<lambda>m. LayerOf m = ''domain'') ms @
             filter (\<lambda>m. \<not> imported_by_many edges unmatched m) unmatched),
           mc_InfraModules = sort (filter (\<lambda>m. LayerOf m = ''infra'') ms @
             filter (imported_by_many edges unmatched) unmatched),
           mc_TestModules = sort (filter (\<lambda>m. LayerOf m = ''test'') ms),
           mc_ApplicationModules = sort (filter (\<lambda>m. LayerOf m = ''application'') ms),
           mc_StructuralFallback = (unmatched \<noteq> []) \<rparr>)"

section \<open>The routing by language\<close>

definition isPHPEdge :: "DependencyEdge \<Rightarrow> bool" where
  "isPHPEdge e \<longleftrightarrow> is_php (de_FromModule e) \<or> is_php (de_ToModule e)"

definition no_modules :: ModuleClassification where
  "no_modules = \<lparr> mc_DomainModules = [], mc_InfraModules = [], mc_TestModules = [], mc_ApplicationModules = [],
     mc_StructuralFallback = False \<rparr>"

definition LanguageAware_Classify :: "DependencyEdge list \<Rightarrow> ModuleClassification" where
  "LanguageAware_Classify edges =
     (let phpEdges = filter isPHPEdge edges;
          genericEdges = filter (\<lambda>e. \<not> isPHPEdge e) edges;
          php = (if phpEdges = [] then no_modules else PHP_Classify phpEdges);
          generic = (if genericEdges = [] then no_modules else Deterministic_Classify genericEdges)
      in \<lparr> mc_DomainModules = sort (mc_DomainModules php @ mc_DomainModules generic),
           mc_InfraModules = sort (mc_InfraModules php @ mc_InfraModules generic),
           mc_TestModules = sort (mc_TestModules php @ mc_TestModules generic),
           mc_ApplicationModules = sort (mc_ApplicationModules php),
           mc_StructuralFallback = (mc_StructuralFallback php \<or> mc_StructuralFallback generic) \<rparr>)"

section \<open>Facts\<close>

lemma AllModules_worker:
  assumes "\<forall>e \<in> set edges. de_FromModule e \<noteq> [] \<and> de_ToModule e \<noteq> []"
  shows "AllModules (ToWorkerGraph edges) = module_set edges"
proof -
  have "filter (\<lambda>m. m \<noteq> []) (concat (map (\<lambda>e. [de_FromModule e, de_ToModule e]) edges)) =
      concat (map (\<lambda>e. [de_FromModule e, de_ToModule e]) edges)"
    using assms by (induction edges) auto
  moreover have "concat (map (\<lambda>e. [edge_From e, edge_To e]) (ToWorkerGraph edges)) =
      concat (map (\<lambda>e. [de_FromModule e, de_ToModule e]) edges)"
    by (induction edges) (auto simp: ToWorkerGraph_def)
  ultimately show ?thesis by (simp add: AllModules_def module_set_def)
qed

lemma set_module_set: "set (module_set edges) = (de_FromModule ` set edges \<union> de_ToModule ` set edges) - {[]}"
  by (auto simp: module_set_def)

lemma importers_worker: "importers (ToWorkerGraph edges) m = buildFanIn edges m"
proof -
  have "map edge_From (filter (\<lambda>e. edge_To e = m) (ToWorkerGraph edges)) =
      map de_FromModule (filter (\<lambda>e. de_ToModule e = m) edges)"
    by (induction edges) (auto simp: ToWorkerGraph_def)
  then show ?thesis by (simp add: importers_def buildFanIn_def)
qed

lemma hub_worker: "is_hub (ToWorkerGraph edges) ms m \<longleftrightarrow> imported_by_many edges ms m"
  by (auto simp: is_hub_def imported_by_many_def importers_worker hub_threshold_def Let_def max_def)

lemma group_worker: "\<not> is_php m \<Longrightarrow> groupOf m = classifierGroupOf m"
  by (auto simp: groupOf_def two_components_def classifierGroupOf_def Let_def split: list.split)

lemma test_worker: "\<not> is_php m \<Longrightarrow> isTestModule m = classifierIsTest m"
  by (simp add: isTestModule_def classifierIsTest_def)

lemma php_graph_iff:
  assumes "\<forall>e \<in> set edges. de_FromModule e \<noteq> [] \<and> de_ToModule e \<noteq> []"
  shows "isPHPGraph (AllModules (ToWorkerGraph edges)) \<longleftrightarrow> (\<exists>e \<in> set edges. isPHPEdge e)"
  unfolding AllModules_worker [OF assms] isPHPGraph_def set_module_set
  using assms by (auto simp: isPHPEdge_def)

lemma generic_groups:
  assumes "\<forall>m \<in> set ms. \<not> is_php m"
  shows "blueprintGroups ms = map classifierGroupOf (filter (\<lambda>m. classifierLastComponent m \<in> classifierDomainSuffixes) ms)"
  using assms
  by (auto simp: blueprintGroups_def group_worker classifierLastComponent_def lastComponent_def
      classifierDomainSuffixes_def domainIndicatorSuffixes_def intro!: filter_cong)

lemma generic_tests: "\<forall>m \<in> set ms. \<not> is_php m \<Longrightarrow> filter isTestModule ms = filter classifierIsTest ms"
  by (rule filter_cong) (simp_all add: test_worker)

lemma generic_nontests:
  "\<forall>m \<in> set ms. \<not> is_php m \<Longrightarrow> filter (\<lambda>m. \<not> isTestModule m) ms = filter (\<lambda>m. \<not> classifierIsTest m) ms"
  by (rule filter_cong) (simp_all add: test_worker)

text \<open>One partition only: the merged result is the result of that classifier.\<close>

lemma LanguageAware_php:
  "\<forall>e \<in> set edges. isPHPEdge e \<Longrightarrow> edges \<noteq> [] \<Longrightarrow> LanguageAware_Classify edges = PHP_Classify edges"
proof -
  assume all: "\<forall>e \<in> set edges. isPHPEdge e" and ne: "edges \<noteq> []"
  then have "filter isPHPEdge edges = edges" "filter (\<lambda>e. \<not> isPHPEdge e) edges = []"
    by (simp_all add: filter_id_conv filter_empty_conv)
  with ne show ?thesis
    by (simp add: LanguageAware_Classify_def Let_def no_modules_def) (simp add: PHP_Classify_def Let_def sorted_sort_id)
qed

lemma LanguageAware_generic:
  "\<forall>e \<in> set edges. \<not> isPHPEdge e \<Longrightarrow> edges \<noteq> [] \<Longrightarrow> LanguageAware_Classify edges = Deterministic_Classify edges"
proof -
  assume all: "\<forall>e \<in> set edges. \<not> isPHPEdge e" and ne: "edges \<noteq> []"
  then have "filter isPHPEdge edges = []" "filter (\<lambda>e. \<not> isPHPEdge e) edges = edges"
    by (simp_all add: filter_id_conv filter_empty_conv)
  with ne show ?thesis
    by (simp add: LanguageAware_Classify_def Let_def no_modules_def) (simp add: Deterministic_Classify_def Let_def sorted_sort_id)
qed

definition same_classes :: "Classification \<Rightarrow> Classification \<Rightarrow> bool" where
  "same_classes a d \<longleftrightarrow> mset (cl_Domain a) = mset (cl_Domain d) \<and> mset (cl_Infra a) = mset (cl_Infra d) \<and>
     mset (cl_Tests a) = mset (cl_Tests d)"

lemma generic_agrees:
  assumes names: "\<forall>e \<in> set edges. de_FromModule e \<noteq> [] \<and> de_ToModule e \<noteq> []"
    and gen: "\<forall>m \<in> set (module_set edges). \<not> is_php m"
  shows "same_classes (ToWorkerClassification (Deterministic_Classify edges)) (Detect (ToWorkerGraph edges)) \<and>
    cl_StructuralFallback (Detect (ToWorkerGraph edges)) = mc_StructuralFallback (Deterministic_Classify edges)"
proof -
  let ?ms = "module_set edges" and ?g = "ToWorkerGraph edges"
  let ?nt = "filter (\<lambda>m. \<not> classifierIsTest m) ?ms"
  let ?bg = "map classifierGroupOf (filter (\<lambda>m. classifierLastComponent m \<in> classifierDomainSuffixes) ?ms)"
  note facts = AllModules_worker [OF names] generic_groups [OF gen] generic_tests [OF gen] generic_nontests [OF gen]
  have nt: "filter (\<lambda>m. \<not> isTestModule m \<and> P (groupOf m)) ?ms = filter (\<lambda>m. P (classifierGroupOf m)) ?nt" for P
    unfolding filter_filter by (rule filter_cong) (use gen in \<open>auto simp: test_worker group_worker\<close>)
  show ?thesis
  proof (cases "?bg = []")
    case True
    then show ?thesis
      by (simp add: same_classes_def ToWorkerClassification_def Deterministic_Classify_def Detect_def detect_modules_def
          classifyByFanIn_def facts hub_worker Let_def)
  next
    case False
    then show ?thesis
      using nt [of "\<lambda>g. g \<in> set ?bg"] nt [of "\<lambda>g. g \<notin> set ?bg"]
      by (simp add: same_classes_def ToWorkerClassification_def Deterministic_Classify_def Detect_def detect_modules_def
          facts Let_def)
  qed
qed

lemma php_agrees:
  assumes names: "\<forall>e \<in> set edges. de_FromModule e \<noteq> [] \<and> de_ToModule e \<noteq> []"
  shows "same_classes (ToWorkerClassification (PHP_Classify edges)) (classifyPHP (ToWorkerGraph edges) (AllModules (ToWorkerGraph edges)))"
proof -
  let ?ms = "module_set edges"
  have "mset (filter (\<lambda>m. LayerOf m = ''application'') ms) + mset (filter (\<lambda>m. LayerOf m = ''infra'') ms) =
      mset (filter (\<lambda>m. LayerOf m \<in> {''application'', ''infra''}) ms)" for ms
    by (induction ms) auto
  from this [of ?ms] show ?thesis
    by (simp add: same_classes_def ToWorkerClassification_def PHP_Classify_def classifyPHP_def AllModules_worker [OF names]
        hub_worker Let_def)
qed

section \<open>Properties\<close>

text \<open>
  C19. On a graph of one language the classification that the analysis worker stores is, in the terms of the
  decomposition worker, the one that the decomposition worker's detector computes again. Only the mark of the
  structural fallback differs: the detector never sets it for PHP.
\<close>

theorem classifiers_agree:
  assumes "edges \<noteq> []" and "\<forall>e \<in> set edges. de_FromModule e \<noteq> [] \<and> de_ToModule e \<noteq> []"
    and "\<forall>e \<in> set edges. isPHPEdge e = php"
  shows "let a = ToWorkerClassification (LanguageAware_Classify edges); d = PHPAware_Detect (ToWorkerGraph edges)
    in same_classes a d \<and> cl_StructuralFallback d = (cl_StructuralFallback a \<and> \<not> php)"
proof (cases php)
  case True
  with assms have "LanguageAware_Classify edges = PHP_Classify edges" "\<exists>e \<in> set edges. isPHPEdge e"
    by (auto simp: LanguageAware_php neq_Nil_conv)
  with True assms(2) php_agrees [OF assms(2)] show ?thesis
    by (simp add: Let_def PHPAware_Detect_def detect_php_aware_def php_graph_iff classifyPHP_def)
next
  case False
  with assms(3) have none: "\<not> isPHPGraph (AllModules (ToWorkerGraph edges))"
    by (simp add: php_graph_iff [OF assms(2)])
  then have "\<forall>m \<in> set (module_set edges). \<not> is_php m"
    unfolding AllModules_worker [OF assms(2)] isPHPGraph_def by blast
  from generic_agrees [OF assms(2) this] False assms(1,3) none show ?thesis
    by (simp add: Let_def LanguageAware_generic PHPAware_Detect_def detect_php_aware_def Detect_def
        ToWorkerClassification_def)
qed

text \<open>
  The mark matters: for a PHP graph whose namespaces match no rule the two workers disagree on whether the domain
  is a fallback, so the guardrail can discard it in one of them only.
\<close>

definition edge :: "string \<Rightarrow> string \<Rightarrow> u32 \<Rightarrow> DependencyEdge" where
  "edge from to weight = \<lparr> de_FromModule = from, de_ToModule = to, de_Weight = weight \<rparr>"

lemma php_fallback_differs:
  assumes "edges \<noteq> []" and "\<forall>e \<in> set edges. de_FromModule e \<noteq> [] \<and> de_ToModule e \<noteq> []"
    and "\<forall>e \<in> set edges. isPHPEdge e" and "m \<in> set (module_set edges)" and "LayerOf m = []"
  shows "cl_StructuralFallback (ToWorkerClassification (LanguageAware_Classify edges)) \<and>
    \<not> cl_StructuralFallback (PHPAware_Detect (ToWorkerGraph edges))"
proof -
  have "\<exists>e \<in> set edges. isPHPEdge e" using assms(1,3) by (auto simp: neq_Nil_conv)
  then have "\<not> cl_StructuralFallback (PHPAware_Detect (ToWorkerGraph edges))"
    by (simp add: PHPAware_Detect_def detect_php_aware_def php_graph_iff [OF assms(2)] classifyPHP_def Let_def)
  moreover have "mc_StructuralFallback (PHP_Classify edges)"
    using assms(4,5) by (auto simp: PHP_Classify_def Let_def filter_empty_conv intro!: bexI [of _ m])
  ultimately show ?thesis by (simp add: ToWorkerClassification_def LanguageAware_php [OF assms(3,1)])
qed

text \<open>The modules of a classification with their multiplicity.\<close>

definition classified_modules :: "ModuleClassification \<Rightarrow> string multiset" where
  "classified_modules mc = mset (mc_DomainModules mc) + mset (mc_InfraModules mc) + mset (mc_TestModules mc) +
     mset (mc_ApplicationModules mc)"

lemma classified_no_modules [simp]: "classified_modules no_modules = {#}"
  by (simp add: classified_modules_def no_modules_def)

lemma classified_generic: "classified_modules (Deterministic_Classify edges) = mset (module_set edges)"
proof -
  have "mset (filter (\<lambda>m. P m) (filter (\<lambda>m. \<not> T m) ms)) + mset (filter (\<lambda>m. \<not> P m) (filter (\<lambda>m. \<not> T m) ms)) + mset (filter T ms) = mset ms"
    for P T and ms :: "string list"
    by (induction ms) auto
  from this [of "\<lambda>m. classifierGroupOf m \<in> classifierGroupOf ` {m \<in> set (module_set edges). classifierLastComponent m \<in> classifierDomainSuffixes}"
      classifierIsTest "module_set edges"]
    this [of "\<lambda>m. \<not> imported_by_many edges (filter (\<lambda>m. \<not> classifierIsTest m) (module_set edges)) m" classifierIsTest "module_set edges"]
  show ?thesis by (simp add: classified_modules_def Deterministic_Classify_def Let_def)
qed

lemma classified_by_php: "classified_modules (PHP_Classify edges) = mset (module_set edges)"
proof -
  have parts: "mset (filter (\<lambda>m. L m = ''domain'') ms) + mset (filter (\<lambda>m. \<not> H m) (filter (\<lambda>m. L m \<notin> {''test'', ''application'', ''infra'', ''domain''}) ms)) +
      (mset (filter (\<lambda>m. L m = ''infra'') ms) + mset (filter H (filter (\<lambda>m. L m \<notin> {''test'', ''application'', ''infra'', ''domain''}) ms))) +
      mset (filter (\<lambda>m. L m = ''test'') ms) + mset (filter (\<lambda>m. L m = ''application'') ms) = mset ms"
    for L :: "string \<Rightarrow> string" and H ms
    by (rule multiset_eqI) auto
  show ?thesis
    by (simp only: classified_modules_def PHP_Classify_def Let_def ModuleClassification.simps mset_sort mset_append parts)
qed

lemma LanguageAware_modules:
  "classified_modules (LanguageAware_Classify edges) =
     mset (module_set (filter isPHPEdge edges)) + mset (module_set (filter (\<lambda>e. \<not> isPHPEdge e) edges))"
proof -
  let ?php = "if filter isPHPEdge edges = [] then no_modules else PHP_Classify (filter isPHPEdge edges)"
  let ?gen = "if filter (\<lambda>e. \<not> isPHPEdge e) edges = [] then no_modules else Deterministic_Classify (filter (\<lambda>e. \<not> isPHPEdge e) edges)"
  have none: "mc_ApplicationModules ?gen = []" by (simp add: no_modules_def Deterministic_Classify_def Let_def)
  have "classified_modules (LanguageAware_Classify edges) = classified_modules ?php + classified_modules ?gen"
    using none by (simp only: LanguageAware_Classify_def classified_modules_def Let_def ModuleClassification.simps mset_sort mset_append)
      (simp add: ac_simps)
  moreover have "classified_modules ?php = mset (module_set (filter isPHPEdge edges))"
    by (simp add: classified_by_php) (simp add: module_set_def)
  moreover have "classified_modules ?gen = mset (module_set (filter (\<lambda>e. \<not> isPHPEdge e) edges))"
    by (simp add: classified_generic) (simp add: module_set_def)
  ultimately show ?thesis by simp
qed

text \<open>
  The classifier loses no module: it classifies every module of the edges of PHP once and every module of the other
  edges once. A module that is on edges of both kinds is therefore classified twice.
\<close>

theorem classification_complete:
  "classified_modules (LanguageAware_Classify edges) =
     mset (module_set (filter isPHPEdge edges)) + mset (module_set (filter (\<lambda>e. \<not> isPHPEdge e) edges))"
  by (rule LanguageAware_modules)

section \<open>Witness\<close>

definition python_edges :: "DependencyEdge list" where
  "python_edges = [edge ''shop.api'' ''shop.cart'' 2, edge ''shop.api'' ''core.db'' 1, edge ''tests.cart'' ''shop.cart'' 1]"

theorem classifiers_agree_witness:
  "mset (mc_DomainModules (LanguageAware_Classify python_edges)) = mset (cl_Domain (PHPAware_Detect (ToWorkerGraph python_edges))) \<and>
   mc_TestModules (LanguageAware_Classify python_edges) = [''tests.cart'']"
proof -
  have "python_edges \<noteq> []" "\<forall>e \<in> set python_edges. de_FromModule e \<noteq> [] \<and> de_ToModule e \<noteq> []"
    "\<forall>e \<in> set python_edges. isPHPEdge e = False"
    by (simp_all add: python_edges_def edge_def isPHPEdge_def is_php_def backslash_def)
  from classifiers_agree [OF this] have "mset (mc_DomainModules (LanguageAware_Classify python_edges)) =
      mset (cl_Domain (PHPAware_Detect (ToWorkerGraph python_edges)))"
    by (simp add: Let_def same_classes_def ToWorkerClassification_def)
  moreover have "mc_TestModules (LanguageAware_Classify python_edges) = [''tests.cart'']" by code_simp
  ultimately show ?thesis by simp
qed

end
