(* ===== verification/Module_Report.thy ===== *)
theory Module_Report
  imports Module_Classifiers
begin

text \<open>
  What the analysis worker reports about single modules (\<^verbatim>\<open>worker/analysis/application/pipeline.go\<close>,
  \<^verbatim>\<open>framework_allowlist.go\<close>): the cards of the modules on the graph, the modules that nothing reaches, the counts of
  production and test modules, the fan-in and fan-out of every card, and the hubs of shared state.
\<close>

section \<open>Names\<close>

text \<open>A test by its name: one of its components, cut at dots and backslashes, whatever its case.\<close>

definition isTestModuleByName :: "string \<Rightarrow> bool" where
  "isTestModuleByName m \<longleftrightarrow>
     (\<exists>part \<in> set (filter (\<lambda>p. p \<noteq> []) (split_by (\<lambda>c. c = CHR ''.'' \<or> c = backslash) m)).
        (let low = ToLower part
         in low \<in> {''tests'', ''test'', ''spec''} \<or> HasPrefix low ''test_'' \<or> HasSuffix low ''_test''))"

definition php_name :: "string list \<Rightarrow> string" where "php_name segments = strings_Join segments [backslash]"

definition isFrameworkEntrypoint :: "string \<Rightarrow> bool" where
  "isFrameworkEntrypoint m \<longleftrightarrow>
     (if \<not> Contains m [backslash] then False
      else Contains m (php_name [[], ''Http'', ''Middleware'', []]) \<or>
           HasSuffix m (php_name [[], ''Http'', ''Kernel'']) \<or> HasSuffix m (php_name [[], ''Console'', ''Kernel'']) \<or>
           Contains m (php_name [[], ''Console'', ''Commands'', []]) \<or>
           Contains m (php_name [[], ''Providers'', []]) \<or> HasSuffix m ''ServiceProvider'' \<or>
           Contains m (php_name [''Database'', ''Factories'', []]) \<or>
           Contains m (php_name [''Database'', ''Seeders'', []]) \<or>
           HasSuffix m (php_name [[], ''App'', ''Application'']) \<or> HasSuffix m ''Interface'')"

section \<open>Islands\<close>

datatype island_kind = Live | TestIsland | EmptyMarker | Entrypoint | Unreachable

definition card_kind :: "DependencyEdge list \<Rightarrow> ModuleCard \<Rightarrow> island_kind" where
  "card_kind edges c =
     (let m = card_Module c
      in if m \<in> set (module_set edges) then Live
         else if isTestModuleByName m then TestIsland
         else if card_Functions c = [] \<and> card_Classes c = [] then EmptyMarker
         else if isFrameworkEntrypoint m then Entrypoint
         else Unreachable)"

definition unreachable_module :: "ModuleCard \<Rightarrow> UnreachableModule" where
  "unreachable_module c = \<lparr> um_Module = card_Module c, um_File = card_File c, um_Loc = card_Loc c \<rparr>"

text \<open>The classification with the test islands, the cards of the live modules, and the report.\<close>

definition live_partition ::
  "DependencyEdge list \<Rightarrow> ModuleClassification \<Rightarrow> ModuleCard list \<Rightarrow>
   ModuleClassification \<times> ModuleCard list \<times> UnreachableModule list" where
  "live_partition edges mc cards =
     (mc\<lparr>mc_TestModules := sort (mc_TestModules mc @ map card_Module (filter (\<lambda>c. card_kind edges c = TestIsland) cards))\<rparr>,
      filter (\<lambda>c. card_kind edges c = Live) cards,
      sort_slice (\<lambda>x y. um_Module x < um_Module y)
        (map unreachable_module (filter (\<lambda>c. card_kind edges c = Unreachable) cards)))"

section \<open>The counts\<close>

definition test_set :: "ModuleClassification option \<Rightarrow> string set" where
  "test_set mc = (case mc of None \<Rightarrow> {} | Some c \<Rightarrow> set (mc_TestModules c))"

definition classified_set :: "ModuleClassification option \<Rightarrow> string set" where
  "classified_set mc = (case mc of None \<Rightarrow> {} | Some c \<Rightarrow> set (mc_DomainModules c) \<union> set (mc_InfraModules c))"

definition counts_as_production :: "ModuleClassification option \<Rightarrow> ModuleCard \<Rightarrow> bool" where
  "counts_as_production mc c \<longleftrightarrow>
     card_Module c \<notin> test_set mc \<and>
     \<not> (card_Module c \<notin> classified_set mc \<and> card_Functions c = [] \<and> card_Classes c = [])"

definition module_counts :: "ModuleClassification option \<Rightarrow> ModuleCard list \<Rightarrow> u32 \<times> u32" where
  "module_counts mc allCards =
     (of_nat (length (filter (counts_as_production mc) allCards)),
      of_nat (length (filter (\<lambda>c. card_Module c \<in> test_set mc) allCards)))"

section \<open>Hubs\<close>

definition weight_sum :: "DependencyEdge list \<Rightarrow> u32" where
  "weight_sum edges = sum_list (map de_Weight edges)"

definition card_fan_in :: "DependencyEdge list \<Rightarrow> string \<Rightarrow> u32" where
  "card_fan_in edges m = (if m = [] then 0 else weight_sum (filter (\<lambda>e. de_ToModule e = m) edges))"

definition card_fan_in_prod :: "DependencyEdge list \<Rightarrow> string set \<Rightarrow> string \<Rightarrow> u32" where
  "card_fan_in_prod edges testModules m =
     (if m = [] then 0 else weight_sum (filter (\<lambda>e. de_ToModule e = m \<and> de_FromModule e \<notin> testModules) edges))"

definition card_fan_out :: "DependencyEdge list \<Rightarrow> string \<Rightarrow> u32" where
  "card_fan_out edges m = (if m = [] then 0 else weight_sum (filter (\<lambda>e. de_FromModule e = m) edges))"

definition isSharedStateHubCard :: "ModuleCard \<Rightarrow> u32 \<Rightarrow> bool" where
  "isSharedStateHubCard c fanIn \<longleftrightarrow>
     (if fanIn < 2 then False
      else if length (card_ModuleLevelState c) > 0 then True
      else card_File c \<noteq> [] \<and> card_Module c = card_File c \<and> HasSuffix (ToLower (card_File c)) ''.php'')"

definition enrich_card :: "DependencyEdge list \<Rightarrow> string set \<Rightarrow> ModuleCard \<Rightarrow> ModuleCard" where
  "enrich_card edges testModules c =
     (let fi = card_fan_in edges (card_Module c)
      in c\<lparr>card_FanIn := fi, card_FanOut := card_fan_out edges (card_Module c),
           card_FanInFromProduction := card_fan_in_prod edges testModules (card_Module c),
           card_IsSharedStateHub := isSharedStateHubCard c fi\<rparr>)"

definition enrichModuleCards ::
  "ModuleCard list \<Rightarrow> DependencyEdge list \<Rightarrow> string set \<Rightarrow> ModuleCard list \<times> SharedStateHub list" where
  "enrichModuleCards cards edges testModules =
     (map (enrich_card edges testModules) cards,
      sort_slice (\<lambda>x y. ssh_FanIn x > ssh_FanIn y)
        (map (\<lambda>c. \<lparr> ssh_Module = card_Module c, ssh_MutableState = card_ModuleLevelState c,
                    ssh_FanIn = card_fan_in edges (card_Module c) \<rparr>)
           (filter (\<lambda>c. isSharedStateHubCard c (card_fan_in edges (card_Module c))) cards)))"

section \<open>The hubs of the distiller\<close>

lemma fan_in_worker: "m \<noteq> [] \<Longrightarrow> fan_in (ToWorkerGraph edges) m = card_fan_in edges m"
  by (simp add: fan_in_def card_fan_in_def weight_sum_def ToWorkerGraph_def filter_map o_def)

lemma fan_out_worker: "m \<noteq> [] \<Longrightarrow> fan_out (ToWorkerGraph edges) m = card_fan_out edges m"
  by (simp add: fan_out_def card_fan_out_def weight_sum_def ToWorkerGraph_def filter_map o_def)

definition summary_card :: "ModuleCard \<Rightarrow> SummaryModuleCard" where
  "summary_card c = hd (sd_ModuleCards (ToWorkerSummaryCards [c] [] []))"

lemma summary_cards: "sd_ModuleCards (ToWorkerSummaryCards cards bps techs) = map summary_card cards"
  by (simp add: ToWorkerSummaryCards_def summary_card_def)

lemma summary_card_fields [simp]:
  "smc_Module (summary_card c) = card_Module c" "smc_State (summary_card c) = card_ModuleLevelState c"
  "smc_File (summary_card c) = card_File c"
  by (simp_all add: summary_card_def ToWorkerSummaryCards_def)

lemma hub_card_worker: "isSharedStateHub (summary_card c) n \<longleftrightarrow> isSharedStateHubCard c n"
  by (simp add: isSharedStateHub_def isSharedStateHubCard_def sharedStateHubFanIn_def isConventionRoutedCard_def)

section \<open>Facts\<close>

lemma tests_on_graph: "set (mc_TestModules (LanguageAware_Classify edges)) \<subseteq> set (module_set edges)"
proof -
  have "set_mset (classified_modules (LanguageAware_Classify edges)) \<subseteq> set (module_set edges)"
    unfolding LanguageAware_modules by (auto simp: set_module_set)
  then show ?thesis by (auto simp: classified_modules_def)
qed

lemma partition_tests:
  "test_set (Some (fst (live_partition edges mc cards))) =
     set (mc_TestModules mc) \<union> card_Module ` {c \<in> set cards. card_kind edges c = TestIsland}"
  by (auto simp: test_set_def live_partition_def)

lemma island_kinds:
  "card_kind edges c = TestIsland \<longleftrightarrow> card_Module c \<notin> set (module_set edges) \<and> isTestModuleByName (card_Module c)"
  "card_kind edges c = Live \<longleftrightarrow> card_Module c \<in> set (module_set edges)"
  "card_kind edges c \<in> {Entrypoint, Unreachable} \<Longrightarrow> card_Module c \<notin> set (module_set edges) \<and>
     \<not> isTestModuleByName (card_Module c) \<and> (card_Functions c \<noteq> [] \<or> card_Classes c \<noteq> [])"
  by (auto simp: card_kind_def Let_def split: if_splits)

lemma island_is_production:
  assumes "card_kind edges c \<in> {Entrypoint, Unreachable}"
  shows "counts_as_production (Some (fst (live_partition edges (LanguageAware_Classify edges) cards))) c"
  using island_kinds(3) [OF assms] tests_on_graph [of edges]
  by (auto simp: counts_as_production_def partition_tests island_kinds)

text \<open>The names of lower case agree with the classifiers' own test for tests.\<close>

lemma test_names_agree:
  assumes "\<not> is_php m" and "ToLower m = m"
  shows "isTestModuleByName m \<longleftrightarrow> classifierIsTest m"
proof -
  have parts: "set p \<subseteq> set s" if "p \<in> set (split_by P s)" for p s P
    using that
  proof (induction s arbitrary: p)
    case (Cons c cs)
    then show ?case by (fastforce split: if_splits list.splits)
  qed simp
  have low: "ToLower p = p" if "set p \<subseteq> set m" for p
  proof -
    have "\<forall>c \<in> set m. ascii_lower c = c" using assms(2) unfolding ToLower_def by (metis map_eq_conv map_ident)
    with that show ?thesis unfolding ToLower_def by (intro map_idI) auto
  qed
  have split: "split_by (\<lambda>c. c = CHR ''.'' \<or> c = backslash) s = split_by (\<lambda>c. c = CHR ''.'') s" if "backslash \<notin> set s" for s
    using that by (induction s) auto
  have m: "split_by (\<lambda>c. c = CHR ''.'' \<or> c = backslash) m = split_by (\<lambda>c. c = CHR ''.'') m"
    by (rule split) (use assms(1) in \<open>simp add: is_php_def\<close>)
  have empty: "\<not> HasPrefix [] ''test_''" "\<not> HasSuffix [] ''_test''" by (simp_all add: HasPrefix_def HasSuffix_def)
  have ne: "p \<noteq> []" if "p \<in> {''tests'', ''test'', ''spec''} \<or> HasPrefix p ''test_'' \<or> HasSuffix p ''_test''" for p
    using that empty by auto
  show ?thesis
    unfolding isTestModuleByName_def classifierIsTest_def strings_Split_def m Let_def
    using parts low ne by (auto simp del: split_by.simps) metis+
qed

section \<open>Properties\<close>

text \<open>
  C20. The inventory of the modules: every card is counted as production, counted as a test, or a marker without code that
  no class claims; a module that nothing reaches is production even where it is reported for review or known as an
  entry point of a framework, an island with the name of a test is a test, and the report is sorted.
\<close>

theorem module_inventory:
  assumes "length cards < 2 ^ 32"
    and "live_partition edges (LanguageAware_Classify edges) cards = (mc, live, unreachable)"
  shows "unat (fst (module_counts (Some mc) cards)) + unat (snd (module_counts (Some mc) cards)) +
      length (filter (\<lambda>c. card_Module c \<notin> test_set (Some mc) \<union> classified_set (Some mc) \<and>
        card_Functions c = [] \<and> card_Classes c = []) cards) = length cards \<and>
    (\<forall>u \<in> set unreachable. \<exists>c \<in> set cards. u = unreachable_module c \<and> counts_as_production (Some mc) c \<and>
       um_Module u \<notin> set (module_set edges)) \<and>
    (\<forall>c \<in> set cards. isTestModuleByName (card_Module c) \<longrightarrow> card_Module c \<in> set (module_set edges) \<union> test_set (Some mc)) \<and>
    sorted_wrt (\<lambda>x y. um_Module x \<le> um_Module y) unreachable"
proof -
  have mc: "mc = fst (live_partition edges (LanguageAware_Classify edges) cards)" using assms(2) by simp
  have counts: "length (filter (counts_as_production (Some mc)) cs) + length (filter (\<lambda>c. card_Module c \<in> test_set (Some mc)) cs) +
      length (filter (\<lambda>c. card_Module c \<notin> test_set (Some mc) \<union> classified_set (Some mc) \<and>
        card_Functions c = [] \<and> card_Classes c = []) cs) = length cs" for cs
    by (induction cs) (auto simp: counts_as_production_def)
  have le: "length (filter P cards) < 2 ^ 32" for P using assms(1) length_filter_le [of P cards] by linarith
  have first: "unat (fst (module_counts (Some mc) cards)) = length (filter (counts_as_production (Some mc)) cards)"
    "unat (snd (module_counts (Some mc) cards)) = length (filter (\<lambda>c. card_Module c \<in> test_set (Some mc)) cards)"
    using le by (simp_all add: module_counts_def unat_of_nat)
  have report: "unreachable = sort_slice (\<lambda>x y. um_Module x < um_Module y)
      (map unreachable_module (filter (\<lambda>c. card_kind edges c = Unreachable) cards))"
    using assms(2) by (simp add: live_partition_def)
  have "\<forall>u \<in> set unreachable. \<exists>c \<in> set cards. u = unreachable_module c \<and> counts_as_production (Some mc) c \<and>
      um_Module u \<notin> set (module_set edges)"
    using island_is_production [of edges _ cards] island_kinds(3) [of edges]
    by (auto simp: report mc unreachable_module_def)
  moreover have "sorted_wrt (\<lambda>x y. \<not> um_Module y < um_Module x) unreachable"
    unfolding report by (rule sorted_sort_slice) auto
  moreover have "\<forall>c \<in> set cards. isTestModuleByName (card_Module c) \<longrightarrow>
      card_Module c \<in> set (module_set edges) \<union> test_set (Some mc)"
    by (auto simp: mc partition_tests island_kinds)
  ultimately show ?thesis using counts [of cards] by (simp add: first not_less)
qed

text \<open>
  C21. The hubs that the analysis worker stores are the hubs that the distiller of the decomposition worker finds again,
  with the same state and fan-in, whatever its limit on detailed cards; the stored list starts with the worst, and the
  flag of a card says whether it is among them.
\<close>

theorem stored_hubs_match_digest:
  assumes "\<forall>c \<in> set cards. card_Module c \<noteq> []" and "enrichModuleCards cards edges tests = (enriched, hubs)"
  shows "image_mset (\<lambda>h. (ssh_Module h, ssh_MutableState h, ssh_FanIn h)) (mset hubs) =
      image_mset (\<lambda>h. (hub_Module h, hub_State h, hub_FanIn h))
        (mset (dg_SharedStateHubs (Distill (ToWorkerGraph edges) cls cr (Some (ToWorkerSummaryCards cards bps techs)) k))) \<and>
    sorted_wrt (\<lambda>x y. ssh_FanIn x \<ge> ssh_FanIn y) hubs \<and>
    mset (map ssh_Module hubs) = mset (map card_Module (filter card_IsSharedStateHub enriched))"
proof -
  let ?g = "ToWorkerGraph edges"
  let ?hub = "\<lambda>c. isSharedStateHubCard c (card_fan_in edges (card_Module c))"
  let ?entry = "\<lambda>c. \<lparr> ssh_Module = card_Module c, ssh_MutableState = card_ModuleLevelState c, ssh_FanIn = card_fan_in edges (card_Module c) \<rparr>"
  have hubs: "mset hubs = mset (map ?entry (filter ?hub cards))"
    and en: "enriched = map (enrich_card edges tests) cards"
    and order: "hubs = sort_slice (\<lambda>x y. ssh_FanIn x > ssh_FanIn y) (map ?entry (filter ?hub cards))"
    using assms(2) by (auto simp: enrichModuleCards_def)
  have "mset (dg_SharedStateHubs (Distill ?g cls cr (Some (ToWorkerSummaryCards cards bps techs)) k)) =
      mset (overflow_hubs ?g (sort_slice (card_before ?g) (map summary_card cards)))"
    by (simp add: Distill_def Let_def hubs_of_all summary_cards)
  also have "\<dots> = mset (overflow_hubs ?g (map summary_card cards))"
    by (simp add: overflow_hubs_def)
  finally have digest: "mset (dg_SharedStateHubs (Distill ?g cls cr (Some (ToWorkerSummaryCards cards bps techs)) k)) =
      mset (overflow_hubs ?g (map summary_card cards))" .
  have f: "filter (\<lambda>c. isSharedStateHub (summary_card c) (fan_in ?g (card_Module c))) cards = filter ?hub cards"
    by (rule filter_cong) (use assms(1) in \<open>simp_all add: fan_in_worker hub_card_worker\<close>)
  have "map (\<lambda>h. (hub_Module h, hub_State h, hub_FanIn h)) (overflow_hubs ?g (map summary_card cards)) =
      map (\<lambda>h. (ssh_Module h, ssh_MutableState h, ssh_FanIn h)) (map ?entry (filter ?hub cards))"
    using assms(1) by (simp add: overflow_hubs_def filter_map o_def f fan_in_worker)
  then have same: "image_mset (\<lambda>h. (ssh_Module h, ssh_MutableState h, ssh_FanIn h)) (mset hubs) =
      image_mset (\<lambda>h. (hub_Module h, hub_State h, hub_FanIn h)) (mset (overflow_hubs ?g (map summary_card cards)))"
    unfolding hubs mset_map [symmetric] by (rule arg_cong [where f = mset, OF sym])
  have "sorted_wrt (\<lambda>x y. \<not> ssh_FanIn y > ssh_FanIn x) hubs"
    unfolding order by (rule sorted_sort_slice) auto
  moreover have "map card_Module (filter card_IsSharedStateHub enriched) = map ssh_Module (map ?entry (filter ?hub cards))"
    by (simp add: en filter_map o_def enrich_card_def Let_def)
  then have "mset (map ssh_Module hubs) = mset (map card_Module (filter card_IsSharedStateHub enriched))"
    unfolding mset_map hubs unfolding mset_map [symmetric] by (rule arg_cong [where f = mset, OF sym])
  ultimately show ?thesis unfolding digest same by (simp add: not_less)
qed

section \<open>Witnesses\<close>

definition demo_card :: "string \<Rightarrow> string list \<Rightarrow> string list \<Rightarrow> ModuleCard" where
  "demo_card m functions state =
     \<lparr> card_Module = m, card_File = m @ ''.py'', card_Functions = functions, card_Classes = [],
       card_ModuleLevelState = state, card_Routes = [], card_DocstringHead = [], card_Loc = 10, card_FanIn = 0,
       card_FanOut = 0, card_IsSharedStateHub = False, card_FanInFromProduction = 0 \<rparr>"

text \<open>A module on the graph, a test that nothing imports, code that nothing imports, and an empty marker.\<close>

definition demo_cards :: "ModuleCard list" where
  "demo_cards = [demo_card ''shop.cart'' [''add''] [''CARTS''], demo_card ''tests.tools'' [''setup''] [],
     demo_card ''legacy.report'' [''main''] [], demo_card ''legacy'' [] []]"

theorem module_inventory_witness:
  "case live_partition python_edges (LanguageAware_Classify python_edges) demo_cards of (mc, live, unreachable) \<Rightarrow>
     map um_Module unreachable = [''legacy.report''] \<and>
     (\<exists>c \<in> set demo_cards. card_Module c = ''legacy.report'' \<and> counts_as_production (Some mc) c)"
proof -
  obtain mc live unreachable where p: "live_partition python_edges (LanguageAware_Classify python_edges) demo_cards =
      (mc, live, unreachable)" by (metis prod_cases3)
  have "map um_Module (snd (snd (live_partition python_edges (LanguageAware_Classify python_edges) demo_cards))) = [''legacy.report'']"
    by code_simp
  then have u: "map um_Module unreachable = [''legacy.report'']" by (simp add: p)
  have "length demo_cards < 2 ^ 32" by (simp add: demo_cards_def)
  from module_inventory [OF this p]
  have inv: "\<forall>v \<in> set unreachable. \<exists>c \<in> set demo_cards. v = unreachable_module c \<and> counts_as_production (Some mc) c"
    by blast
  from u obtain v where "unreachable = [v]" "um_Module v = ''legacy.report''" by auto
  with inv obtain c where "c \<in> set demo_cards" "card_Module c = ''legacy.report''" "counts_as_production (Some mc) c"
    by (auto simp: unreachable_module_def)
  with u show ?thesis unfolding p by blast
qed

theorem stored_hubs_match_digest_witness:
  "case enrichModuleCards demo_cards python_edges {} of (enriched, hubs) \<Rightarrow>
     map (\<lambda>h. (ssh_Module h, ssh_FanIn h)) hubs = [(''shop.cart'', 3)] \<and>
     image_mset hub_Module (mset (dg_SharedStateHubs (Distill (ToWorkerGraph python_edges) None None
       (Some (ToWorkerSummaryCards demo_cards [] [])) 0))) = {#''shop.cart''#}"
proof -
  obtain enriched hubs where e: "enrichModuleCards demo_cards python_edges {} = (enriched, hubs)" by (meson surj_pair)
  have "map (\<lambda>h. (ssh_Module h, ssh_FanIn h)) (snd (enrichModuleCards demo_cards python_edges {})) = [(''shop.cart'', 3)]"
    by code_simp
  then have h: "map (\<lambda>h. (ssh_Module h, ssh_FanIn h)) hubs = [(''shop.cart'', 3)]" by (simp add: e)
  have "\<forall>c \<in> set demo_cards. card_Module c \<noteq> []" by (simp add: demo_cards_def demo_card_def)
  from stored_hubs_match_digest [OF this e, of None None "[]" "[]" 0]
  have "image_mset fst (image_mset (\<lambda>h. (ssh_Module h, ssh_MutableState h, ssh_FanIn h)) (mset hubs)) =
      image_mset fst (image_mset (\<lambda>h. (hub_Module h, hub_State h, hub_FanIn h)) (mset (dg_SharedStateHubs
        (Distill (ToWorkerGraph python_edges) None None (Some (ToWorkerSummaryCards demo_cards [] [])) 0))))"
    by simp
  with h show ?thesis by (auto simp: e image_mset.compositionality o_def map_eq_Cons_conv)
qed

end
