(* ===== verification/Migrability_Scorer.thy ===== *)
theory Migrability_Scorer
  imports Module_Report Louvain_Outcomes
begin

text \<open>
  The score that the analysis worker stores
  (\<^verbatim>\<open>worker/analysis/infrastructure/migrability/louvain_migrability_scorer.go\<close>): it clusters, distils and scores with the
  functions of the decomposition worker, on the classification of the analysis. \<open>None\<close> is a clustering that does not
  return; \<open>fl\<close> and \<open>sched\<close> are those of the clusterer. The caller's classification is changed in place, so it is
  a part of the result.
\<close>

definition moved_to_infra :: "ModuleClassification \<Rightarrow> ModuleClassification" where
  "moved_to_infra cls = cls\<lparr>mc_InfraModules := mc_InfraModules cls @ mc_DomainModules cls, mc_DomainModules := []\<rparr>"

definition LouvainMigrabilityScorer_Score ::
  "(rat \<Rightarrow> rat) \<Rightarrow> schedule \<Rightarrow> DependencyEdge list \<Rightarrow> ModuleClassification \<Rightarrow> ModuleCard list \<Rightarrow> BlueprintInfo list \<Rightarrow>
   (ModuleClassification \<times> MigrabilityScore) option" where
  "LouvainMigrabilityScorer_Score fl sched edges cls cards blueprints =
     (let workerCls = ToWorkerClassification cls;
          graph = ToWorkerGraph edges;
          domainGraph = DomainSubgraph graph (cl_Domain workerCls);
          input = \<lparr> ci_DomainGraph = domainGraph, ci_DomainModules = cl_Domain workerCls,
                    ci_StructuralFallback = cl_StructuralFallback workerCls \<rparr>
      in case Louvain_Cluster fl sched input of
           None \<Rightarrow> None
         | Some clusterResult \<Rightarrow>
             let (fired, workerCls', clusterResult') = ApplyCoherenceGuardrail workerCls clusterResult domainGraph;
                 digest = Distill graph (Some workerCls') (Some clusterResult') (Some (ToWorkerSummaryCards cards blueprints [])) 0
             in Some (if fired then moved_to_infra cls else cls, ToProtoMigrabilityScore (Score digest)))"

section \<open>Facts\<close>

lemma to_int32_small: "0 \<le> i \<Longrightarrow> i \<le> 100 \<Longrightarrow> to_int32 i = i"
  by (simp add: to_int32_def)

lemma no_domain_blocker:
  "(\<exists>b \<in> set (score_blockers d). tb_BlockerKey b = ''blocker.no_domain_layer'') \<longleftrightarrow> dcl_DomainEmpty (dg_Classification d)"
  by (auto simp: score_blockers_def count_blocker_def)

lemma Distill_DomainEmpty: "dcl_DomainEmpty (dg_Classification (Distill g (Some c) cr data k)) \<longleftrightarrow> cl_Domain c = []"
proof -
  have "sort xs = [] \<longleftrightarrow> xs = []" for xs :: "string list" by (metis length_0_conv length_sort)
  then show ?thesis by (simp add: Distill_def Let_def)
qed

lemma Score_percentage: "0 \<le> sres_Value (Score d) \<and> sres_Value (Score d) \<le> 100"
  using score_sum [of d] by (simp add: Score_value)

text \<open>The stored score and the stored classification fit together.\<close>

lemma score_consistent:
  assumes "LouvainMigrabilityScorer_Score fl sched edges cls cards blueprints = Some (cls', score)"
  shows "0 \<le> ms_Value score \<and> ms_Value score \<le> 100 \<and> classified_modules cls' = classified_modules cls \<and>
    mc_TestModules cls' = mc_TestModules cls \<and>
    ((\<exists>b \<in> set (ms_TypedBlockers score). tb_BlockerKey b = ''blocker.no_domain_layer'') \<longleftrightarrow> mc_DomainModules cls' = [])"
proof -
  let ?w = "ToWorkerClassification cls" and ?g = "ToWorkerGraph edges"
  let ?dg = "DomainSubgraph ?g (cl_Domain ?w)"
  from assms obtain cr fired w' cr' where guard: "ApplyCoherenceGuardrail ?w cr ?dg = (fired, w', cr')"
    and cls': "cls' = (if fired then moved_to_infra cls else cls)"
    and score: "score = ToProtoMigrabilityScore (Score (Distill ?g (Some w') (Some cr') (Some (ToWorkerSummaryCards cards blueprints [])) 0))"
    by (auto simp: LouvainMigrabilityScorer_Score_def Let_def split: option.splits prod.splits)
  let ?d = "Distill ?g (Some w') (Some cr') (Some (ToWorkerSummaryCards cards blueprints [])) 0"
  have domain: "cl_Domain w' = [] \<longleftrightarrow> mc_DomainModules cls' = []"
    using guard by (auto simp: cls' ApplyCoherenceGuardrail_def Let_def moved_to_infra_def ToWorkerClassification_def split: if_splits)
  have "ms_TypedBlockers score = score_blockers ?d" by (simp add: score ToProtoMigrabilityScore_def Score_def Let_def)
  then have "(\<exists>b \<in> set (ms_TypedBlockers score). tb_BlockerKey b = ''blocker.no_domain_layer'') \<longleftrightarrow> mc_DomainModules cls' = []"
    using no_domain_blocker [of ?d] Distill_DomainEmpty domain by simp
  moreover have "ms_Value score = sres_Value (Score ?d)"
    using Score_percentage [of ?d] by (simp add: score ToProtoMigrabilityScore_def to_int32_small)
  moreover have "classified_modules cls' = classified_modules cls"
    by (simp add: cls' moved_to_infra_def classified_modules_def)
  moreover have "mc_TestModules cls' = mc_TestModules cls" by (simp add: cls' moved_to_infra_def)
  ultimately show ?thesis using Score_percentage [of ?d] by simp
qed

section \<open>An example\<close>

text \<open>A graph without structure: every module is domain by fallback, the guardrail discards it.\<close>

definition flat_edges :: "DependencyEdge list" where
  "flat_edges = [edge ''a.x'' ''tests.y'' 1, edge ''b.x'' ''tests.y'' 1, edge ''c.x'' ''tests.y'' 1]"

end
