(* ===== verification/Technologies.thy ===== *)
theory Technologies
  imports Prism_Messages
begin

text \<open>
  The technologies of an analysis: the merge of the entries of all stages
  (\<^verbatim>\<open>worker/analysis/application/merge_technologies.go\<close>), the comparison of versions, and the reordering and
  completion of the list before it is written (\<^verbatim>\<open>application/pipeline.go\<close>).
\<close>

section \<open>Data of the worker\<close>

datatype Ecosystem =
    EcosystemMaven | EcosystemNpm | EcosystemComposer | EcosystemPyPI | EcosystemNuGet | EcosystemRubyGems
  | EcosystemOther string

record DetectedLanguage =
  lang_Name :: string
  lang_Files :: u64
  lang_Lines :: u64

record Dependency =
  dep_Ecosystem :: Ecosystem
  dep_Package :: string
  dep_Version :: string
  dep_Category :: string
  dep_Approximate :: bool
  dep_DisplayName :: string
  dep_Slug :: string

record VersionCurrency =
  vc_LatestVersion :: string
  vc_Status :: string

section \<open>The merge\<close>

definition tkey :: "Technology \<Rightarrow> string \<times> string" where
  "tkey t = (tech_Name t, tech_Category t)"

text \<open>What an entry takes from a later one with its key.\<close>

definition fill_gaps :: "Technology \<Rightarrow> Technology \<Rightarrow> Technology" where
  "fill_gaps e t = e
     \<lparr> tech_DetectedVersion := (if tech_DetectedVersion e = [] \<and> tech_DetectedVersion t \<noteq> []
         then tech_DetectedVersion t else tech_DetectedVersion e),
       tech_LatestVersion := (if tech_LatestVersion e = [] \<and> tech_LatestVersion t \<noteq> []
         then tech_LatestVersion t else tech_LatestVersion e),
       tech_Status := (if tech_Status e = TECHNOLOGY_STATUS_UNSPECIFIED \<and> tech_Status t \<noteq> TECHNOLOGY_STATUS_UNSPECIFIED
         then tech_Status t else tech_Status e) \<rparr>"

text \<open>The index of the code points at the last entry with a key.\<close>

definition merge_one :: "Technology list \<Rightarrow> Technology \<Rightarrow> Technology list" where
  "merge_one result t =
     (case filter (\<lambda>i. tkey (result ! i) = tkey t) [0..<length result] of
        [] \<Rightarrow> result @ [t]
      | is \<Rightarrow> result[last is := fill_gaps (result ! last is) t])"

definition MergeTechnologies :: "Technology list \<Rightarrow> Technology list \<Rightarrow> Technology list" where
  "MergeTechnologies existing incoming = foldl merge_one existing incoming"

section \<open>The entries of the stages\<close>

definition zero_Technology :: Technology where
  "zero_Technology =
     \<lparr> tech_Name = [], tech_DetectedVersion = [], tech_LatestVersion = [],
       tech_Status = TECHNOLOGY_STATUS_UNSPECIFIED, tech_Category = [], tech_Slug = [] \<rparr>"

definition inventoryTechnologies :: "DetectedLanguage list \<Rightarrow> Technology list" where
  "inventoryTechnologies detected =
     map (\<lambda>l. zero_Technology\<lparr>tech_Name := lang_Name l, tech_Category := ''language''\<rparr>) detected"

definition manifestTechnologies :: "Dependency list \<Rightarrow> Technology list" where
  "manifestTechnologies deps =
     map (\<lambda>d. zero_Technology
       \<lparr> tech_Name := (if dep_DisplayName d \<noteq> [] then dep_DisplayName d else dep_Package d),
         tech_DetectedVersion := dep_Version d,
         tech_Category := (if dep_Category d = [] then ''library'' else dep_Category d),
         tech_Slug := dep_Slug d \<rparr>) deps"

section \<open>Versions\<close>

text \<open>\<^verbatim>\<open>strings.TrimSpace\<close> on the white space of ASCII, and the value \<^verbatim>\<open>strconv.Atoi\<close> returns, with or without an
  error: zero for a text that is no number, the nearest \<^verbatim>\<open>int64\<close> for one out of range.\<close>

definition strings_TrimSpace :: "string \<Rightarrow> string" where
  "strings_TrimSpace s = rev (dropWhile is_space (rev (dropWhile is_space s)))"

definition is_digit :: "char \<Rightarrow> bool" where
  "is_digit c \<longleftrightarrow> 48 \<le> (of_char c :: nat) \<and> (of_char c :: nat) \<le> 57"

definition digits_value :: "string \<Rightarrow> int" where
  "digits_value s = foldl (\<lambda>n c. 10 * n + (of_char c - 48)) 0 s"

definition Atoi :: "string \<Rightarrow> int" where
  "Atoi s =
     (let neg = HasPrefix s ''-''; ds = (if neg \<or> HasPrefix s ''+'' then tl s else s)
      in if ds = [] \<or> \<not> list_all is_digit ds then 0
         else if neg then max (- digits_value ds) (- (2 ^ 63)) else min (digits_value ds) (2 ^ 63 - 1))"

definition versionInt :: "string list \<Rightarrow> nat \<Rightarrow> int" where
  "versionInt parts i =
     (if i \<ge> length parts then 0
      else Atoi (takeWhile (\<lambda>c. c \<noteq> CHR ''-'' \<and> c \<noteq> CHR ''+'') (parts ! i)))"

fun compare_parts :: "string list \<Rightarrow> string list \<Rightarrow> nat list \<Rightarrow> int" where
  "compare_parts aParts bParts [] = 0"
| "compare_parts aParts bParts (i # is) =
     (let ai = versionInt aParts i; bi = versionInt bParts i
      in if ai < bi then -1 else if ai > bi then 1 else compare_parts aParts bParts is)"

definition stripped :: "string \<Rightarrow> string" where
  "stripped v = TrimPrefix (strings_TrimSpace v) ''v''"

definition compareVersions :: "string \<Rightarrow> string \<Rightarrow> int" where
  "compareVersions a b =
     (if stripped a = stripped b then 0
      else let aParts = strings_SplitN 4 (stripped a) (CHR ''.'');
               bParts = strings_SplitN 4 (stripped b) (CHR ''.'')
           in compare_parts aParts bParts [0..<max (length aParts) (length bParts)])"

definition versionStatus :: "string \<Rightarrow> string \<Rightarrow> TechnologyStatus" where
  "versionStatus detected latest =
     (if detected = [] \<or> latest = [] then TECHNOLOGY_STATUS_UNSPECIFIED
      else if compareVersions detected latest \<ge> 0 then TECHNOLOGY_STATUS_CURRENT
      else TECHNOLOGY_STATUS_OUTDATED)"

section \<open>The list that is written\<close>

fun primary_language :: "string \<Rightarrow> Dependency list \<Rightarrow> string" where
  "primary_language primary [] = primary"
| "primary_language primary (dep # deps) =
     (let primary =
        (case dep_Ecosystem dep of
           EcosystemComposer \<Rightarrow> ''PHP''
         | EcosystemPyPI \<Rightarrow> (if primary = [] then ''Python'' else primary)
         | EcosystemMaven \<Rightarrow> (if primary = [] then ''Java'' else primary)
         | EcosystemNuGet \<Rightarrow> (if primary = [] then ''C#'' else primary)
         | EcosystemRubyGems \<Rightarrow> (if primary = [] then ''Ruby'' else primary)
         | EcosystemNpm \<Rightarrow> (if primary = [] then ''JavaScript'' else primary)
         | EcosystemOther e \<Rightarrow> primary)
      in primary_language primary deps)"

text \<open>Of several entries of the language the last one becomes the head, and the others are left out.\<close>

definition boostManifestLanguage :: "Technology list \<Rightarrow> Dependency list \<Rightarrow> Technology list" where
  "boostManifestLanguage technologies deps =
     (let primary = primary_language [] deps;
          is_head = (\<lambda>t. tech_Category t = ''language'' \<and> tech_Name t = primary)
      in if primary = [] then technologies
         else case filter is_head technologies of
                [] \<Rightarrow> technologies
              | hs \<Rightarrow> last hs # filter (\<lambda>t. \<not> is_head t) technologies)"

definition injectInferredFramework :: "Technology list \<Rightarrow> BlueprintInfo list \<Rightarrow> Technology list" where
  "injectInferredFramework technologies blueprints =
     (if \<exists>t \<in> set technologies. tech_Category t = ''framework'' then technologies
      else if blueprints \<noteq> []
      then technologies @ [zero_Technology\<lparr>tech_Name := ''Flask'', tech_Category := ''framework'', tech_Slug := ''flask''\<rparr>]
      else technologies)"

section \<open>The merge as a grouping\<close>

text \<open>Of the entries with a key the first one is kept, with the first version, latest version and status that is
  set in any of them.\<close>

definition first_set :: "('a \<Rightarrow> bool) \<Rightarrow> 'a \<Rightarrow> 'a list \<Rightarrow> 'a" where
  "first_set unset dflt xs = (case filter (\<lambda>x. \<not> unset x) xs of [] \<Rightarrow> dflt | x # _ \<Rightarrow> x)"

definition combined :: "Technology list \<Rightarrow> string \<times> string \<Rightarrow> Technology" where
  "combined ts k =
     (let group = filter (\<lambda>t. tkey t = k) ts
      in (hd group)
        \<lparr> tech_DetectedVersion := first_set (\<lambda>v. v = []) [] (map tech_DetectedVersion group),
          tech_LatestVersion := first_set (\<lambda>v. v = []) [] (map tech_LatestVersion group),
          tech_Status := first_set (\<lambda>s. s = TECHNOLOGY_STATUS_UNSPECIFIED) TECHNOLOGY_STATUS_UNSPECIFIED
            (map tech_Status group) \<rparr>)"

fun first_keys :: "Technology list \<Rightarrow> (string \<times> string) list" where
  "first_keys [] = []"
| "first_keys (t # ts) = tkey t # filter (\<lambda>k. k \<noteq> tkey t) (first_keys ts)"

definition grouped :: "Technology list \<Rightarrow> Technology list" where
  "grouped ts = map (combined ts) (first_keys ts)"

lemma tkey_fill_gaps [simp]: "tkey (fill_gaps e t) = tkey e"
  by (simp add: tkey_def fill_gaps_def)

lemma set_first_keys: "set (first_keys ts) = tkey ` set ts"
  by (induction ts) auto

lemma distinct_first_keys: "distinct (first_keys ts)"
  by (induction ts) auto

lemma not_tkey: "k \<notin> tkey ` set ts \<longleftrightarrow> (\<forall>t \<in> set ts. tkey t \<noteq> k)"
  by auto

lemma first_keys_distinct: "distinct (map tkey ts) \<Longrightarrow> first_keys ts = map tkey ts"
  by (induction ts) (simp_all add: not_tkey filter_id_conv)

lemma first_keys_snoc:
  "first_keys (ts @ [t]) = first_keys ts @ (if tkey t \<in> tkey ` set ts then [] else [tkey t])"
  by (induction ts) auto

lemma first_set_snoc:
  assumes "\<And>x. unset x \<longleftrightarrow> x = dflt"
  shows "first_set unset dflt (xs @ [x]) =
     (if first_set unset dflt xs = dflt \<and> x \<noteq> dflt then x else first_set unset dflt xs)"
proof (cases "filter (\<lambda>x. \<not> unset x) xs")
  case (Cons y ys)
  then have "\<not> unset y" by (metis filter_eq_ConsD)
  with Cons assms show ?thesis by (simp add: first_set_def)
qed (simp add: first_set_def assms)

lemma group_nonempty: "k \<in> tkey ` set ts \<Longrightarrow> filter (\<lambda>t. tkey t = k) ts \<noteq> []"
  by (auto simp: filter_empty_conv)

lemma combined_key: "k \<in> tkey ` set ts \<Longrightarrow> tkey (combined ts k) = k"
  using group_nonempty [of k ts] hd_in_set [of "filter (\<lambda>t. tkey t = k) ts"]
  by (auto simp: combined_def tkey_def Let_def)

lemma grouped_keys: "map tkey (grouped ts) = first_keys ts"
  unfolding grouped_def map_map by (rule map_idI) (use combined_key set_first_keys in auto)

lemma combined_other: "tkey t \<noteq> k \<Longrightarrow> combined (ts @ [t]) k = combined ts k"
  by (simp add: combined_def)

lemma combined_new: "tkey t \<notin> tkey ` set ts \<Longrightarrow> combined (ts @ [t]) (tkey t) = t"
proof -
  assume "tkey t \<notin> tkey ` set ts"
  then have "filter (\<lambda>u. tkey u = tkey t) ts = []" by (simp add: not_tkey filter_empty_conv)
  then show ?thesis by (auto simp: combined_def first_set_def)
qed

lemma combined_same:
  assumes "tkey t \<in> tkey ` set ts"
  shows "combined (ts @ [t]) (tkey t) = fill_gaps (combined ts (tkey t)) t"
proof -
  let ?g = "filter (\<lambda>u. tkey u = tkey t) ts"
  have ne: "?g \<noteq> []" by (rule group_nonempty [OF assms])
  have hd: "hd (?g @ [t]) = hd ?g" using ne by simp
  show ?thesis
    by (simp add: combined_def Let_def hd fill_gaps_def first_set_snoc)
qed

lemma merge_one_new: "tkey t \<notin> tkey ` set result \<Longrightarrow> merge_one result t = result @ [t]"
proof -
  assume "tkey t \<notin> tkey ` set result"
  then have "filter (\<lambda>i. tkey (result ! i) = tkey t) [0..<length result] = []"
    by (simp add: not_tkey filter_empty_conv)
  then show ?thesis by (simp add: merge_one_def)
qed

lemma singleton_list: "distinct xs \<Longrightarrow> set xs = {x} \<Longrightarrow> xs = [x]"
  by (cases xs; cases "tl xs") auto

lemma merge_one_known:
  assumes "distinct (map tkey result)" and "tkey t \<in> tkey ` set result"
  shows "merge_one result t = map (\<lambda>e. if tkey e = tkey t then fill_gaps e t else e) result"
proof -
  from assms(2) obtain i where i: "i < length result" "tkey (result ! i) = tkey t" by (auto simp: in_set_conv_nth)
  have only: "j = i" if "j < length result" "tkey (result ! j) = tkey t" for j
    using that i nth_eq_iff_index_eq [OF assms(1), of j i] by simp
  have s: "set (filter (\<lambda>j. tkey (result ! j) = tkey t) [0..<length result]) = {i}"
  proof (intro set_eqI iffI)
    fix j assume "j \<in> set (filter (\<lambda>j. tkey (result ! j) = tkey t) [0..<length result])"
    then show "j \<in> {i}" using only [of j] by simp
  next
    fix j assume "j \<in> {i}"
    with i show "j \<in> set (filter (\<lambda>j. tkey (result ! j) = tkey t) [0..<length result])" by simp
  qed
  have "filter (\<lambda>j. tkey (result ! j) = tkey t) [0..<length result] = [i]"
    by (rule singleton_list [OF _ s]) simp
  then have eq: "merge_one result t = result[i := fill_gaps (result ! i) t]" by (simp add: merge_one_def)
  show ?thesis unfolding eq
  proof (rule nth_equalityI)
    fix j assume "j < length (result[i := fill_gaps (result ! i) t])"
    then have j: "j < length result" by simp
    show "result[i := fill_gaps (result ! i) t] ! j =
        map (\<lambda>e. if tkey e = tkey t then fill_gaps e t else e) result ! j"
    proof (cases "j = i")
      case True
      with i show ?thesis by simp
    next
      case False
      with only [OF j] have "tkey (result ! j) \<noteq> tkey t" by blast
      with False j show ?thesis by simp
    qed
  qed simp
qed

lemma merge_grouped: "merge_one (grouped ts) t = grouped (ts @ [t])"
proof (cases "tkey t \<in> tkey ` set ts")
  case True
  have "distinct (map tkey (grouped ts))" by (simp add: grouped_keys distinct_first_keys)
  moreover have "tkey t \<in> tkey ` set (grouped ts)"
    using True by (metis grouped_keys set_first_keys list.set_map)
  ultimately have "merge_one (grouped ts) t =
      map (\<lambda>k. if tkey (combined ts k) = tkey t then fill_gaps (combined ts k) t else combined ts k) (first_keys ts)"
    by (simp add: merge_one_known) (simp add: grouped_def)
  also have "\<dots> = map (combined (ts @ [t])) (first_keys ts)"
  proof (rule map_cong [OF refl])
    fix k assume "k \<in> set (first_keys ts)"
    then have "tkey (combined ts k) = k" by (simp add: set_first_keys combined_key)
    then show "(if tkey (combined ts k) = tkey t then fill_gaps (combined ts k) t else combined ts k) = combined (ts @ [t]) k"
      using combined_same [OF True] combined_other [of t k ts] by auto
  qed
  finally show ?thesis using True by (simp add: grouped_def first_keys_snoc)
next
  case False
  have "tkey t \<notin> tkey ` set (grouped ts)"
    using False by (metis grouped_keys set_first_keys list.set_map)
  then have m: "merge_one (grouped ts) t = grouped ts @ [t]" by (rule merge_one_new)
  have g: "grouped ts = map (combined (ts @ [t])) (first_keys ts)"
    unfolding grouped_def
    by (rule map_cong [OF refl]) (use False in \<open>metis combined_other set_first_keys\<close>)
  show ?thesis unfolding m
    by (subst g) (use False combined_new [OF False] in \<open>simp add: grouped_def first_keys_snoc\<close>)
qed

lemma grouped_distinct: "distinct (map tkey ts) \<Longrightarrow> grouped ts = ts"
proof (induction ts rule: rev_induct)
  case (snoc t ts)
  then have "tkey t \<notin> tkey ` set ts" "grouped ts = ts" by auto
  then show ?case using merge_grouped [of ts t] merge_one_new [of t ts] by simp
qed (simp add: grouped_def)

lemma merge_is_grouping: "MergeTechnologies (grouped ts) us = grouped (ts @ us)"
proof (induction us rule: rev_induct)
  case (snoc u us)
  then show ?case using merge_grouped [of "ts @ us" u] by (simp add: MergeTechnologies_def)
qed (simp add: MergeTechnologies_def)

section \<open>Versions as keys\<close>

text \<open>The four numbers of a version, the missing ones zero.\<close>

definition version_key :: "string \<Rightarrow> int list" where
  "version_key v = map (versionInt (strings_SplitN 4 (stripped v) (CHR ''.''))) [0..<4]"

lemma SplitN_length: "length (strings_SplitN n s c) \<le> n"
  by (induction n arbitrary: s) auto

lemma compare_parts_lex:
  "compare_parts as bs is =
     (if map (versionInt as) is = map (versionInt bs) is then 0
      else if map (versionInt as) is < map (versionInt bs) is then -1 else 1)"
  by (induction "is") (auto simp: Let_def)

lemma compare_parts_beyond:
  "\<forall>i \<in> set js. length as \<le> i \<and> length bs \<le> i \<Longrightarrow> compare_parts as bs (is @ js) = compare_parts as bs is"
proof (induction "is")
  case Nil
  then show ?case by (induction js) (auto simp: versionInt_def)
qed (simp add: Let_def)

lemma compareVersions_key:
  "compareVersions a b =
     (if version_key a = version_key b then 0 else if version_key a < version_key b then -1 else 1)"
proof (cases "stripped a = stripped b")
  case True
  then show ?thesis by (simp add: compareVersions_def version_key_def)
next
  case False
  let ?as = "strings_SplitN 4 (stripped a) (CHR ''.'')" and ?bs = "strings_SplitN 4 (stripped b) (CHR ''.'')"
  let ?n = "max (length ?as) (length ?bs)"
  have "?n \<le> 4" using SplitN_length [of 4] by simp
  then have e: "[0..<4] = [0..<?n] @ [?n..<4]" by (metis le0 le_add_diff_inverse upt_add_eq_append)
  have b: "\<forall>i \<in> set [?n..<4]. length ?as \<le> i \<and> length ?bs \<le> i" by auto
  have "compareVersions a b = compare_parts ?as ?bs [0..<?n]"
    using False unfolding compareVersions_def Let_def by (simp only: if_False)
  also have "\<dots> = compare_parts ?as ?bs [0..<4]"
    unfolding e by (rule compare_parts_beyond [OF b, symmetric])
  also have "\<dots> = (if version_key a = version_key b then 0 else if version_key a < version_key b then -1 else 1)"
    unfolding version_key_def by (rule compare_parts_lex)
  finally show ?thesis .
qed

section \<open>The primary language\<close>

lemma primary_set: "primary \<noteq> [] \<Longrightarrow>
    primary_language primary deps =
      (if \<exists>d \<in> set deps. dep_Ecosystem d = EcosystemComposer then ''PHP'' else primary)"
  by (induction deps arbitrary: primary) (auto split: Ecosystem.split)

fun ecosystem_language :: "Ecosystem \<Rightarrow> string" where
  "ecosystem_language EcosystemComposer = ''PHP''"
| "ecosystem_language EcosystemPyPI = ''Python''"
| "ecosystem_language EcosystemMaven = ''Java''"
| "ecosystem_language EcosystemNuGet = ''C#''"
| "ecosystem_language EcosystemRubyGems = ''Ruby''"
| "ecosystem_language EcosystemNpm = ''JavaScript''"
| "ecosystem_language (EcosystemOther e) = []"

lemma primary_first:
  "primary_language [] deps =
     (if \<exists>d \<in> set deps. dep_Ecosystem d = EcosystemComposer then ''PHP''
      else case filter (\<lambda>l. l \<noteq> []) (map (ecosystem_language \<circ> dep_Ecosystem) deps) of [] \<Rightarrow> [] | l # _ \<Rightarrow> l)"
proof (induction deps)
  case (Cons d deps)
  then show ?case using primary_set [of _ deps]
    by (cases "dep_Ecosystem d") (auto simp: Let_def o_def)
qed simp

lemma boost_primary:
  "let primary = (if \<exists>d \<in> set deps. dep_Ecosystem d = EcosystemComposer then ''PHP''
         else case filter (\<lambda>l. l \<noteq> []) (map (ecosystem_language \<circ> dep_Ecosystem) deps) of [] \<Rightarrow> [] | l # _ \<Rightarrow> l)
   in if primary \<noteq> [] \<and> (primary, ''language'') \<in> tkey ` set ts
      then hd (boostManifestLanguage ts deps) \<in> set ts \<and>
        tkey (hd (boostManifestLanguage ts deps)) = (primary, ''language'') \<and>
        tl (boostManifestLanguage ts deps) = filter (\<lambda>t. tkey t \<noteq> (primary, ''language'')) ts
      else boostManifestLanguage ts deps = ts"
proof -
  let ?p = "primary_language [] deps"
  let ?h = "\<lambda>t. tech_Category t = ''language'' \<and> tech_Name t = ?p"
  have h: "?h t \<longleftrightarrow> tkey t = (?p, ''language'')" for t by (auto simp: tkey_def)
  show ?thesis
  proof (cases "?p \<noteq> [] \<and> (?p, ''language'') \<in> tkey ` set ts")
    case True
    then have ne: "filter ?h ts \<noteq> []" unfolding filter_empty_conv h by force
    then have boost: "boostManifestLanguage ts deps = last (filter ?h ts) # filter (\<lambda>t. \<not> ?h t) ts"
      using True by (auto simp: boostManifestLanguage_def Let_def split: list.split)
    have "last (filter ?h ts) \<in> set ts" "?h (last (filter ?h ts))"
      using last_in_set [OF ne] by auto
    then show ?thesis unfolding primary_first [symmetric] Let_def using True boost by (simp add: h)
  next
    case False
    then have "?p = [] \<or> filter ?h ts = []" unfolding filter_empty_conv h by force
    then have "boostManifestLanguage ts deps = ts" by (auto simp: boostManifestLanguage_def Let_def)
    then show ?thesis unfolding primary_first [symmetric] Let_def if_not_P [OF False] by simp
  qed
qed

text \<open>With one entry per key nothing is lost.\<close>

lemma boost_distinct:
  assumes "distinct (map tkey ts)"
  shows "mset (boostManifestLanguage ts deps) = mset ts"
proof -
  let ?p = "primary_language [] deps"
  let ?h = "\<lambda>t. tech_Category t = ''language'' \<and> tech_Name t = ?p"
  have inj: "inj_on tkey (set ts)" using assms by (simp add: distinct_map)
  have one: "filter ?h ts = [t]" if "t \<in> set ts" "?h t" for t
  proof (rule singleton_list)
    show "distinct (filter ?h ts)" using assms by (simp add: distinct_map)
    show "set (filter ?h ts) = {t}"
    proof (intro set_eqI iffI)
      fix x assume x: "x \<in> set (filter ?h ts)"
      then have "tkey x = tkey t" using that(2) by (simp add: tkey_def)
      with inj_onD [OF inj this] x that(1) show "x \<in> {t}" by simp
    qed (use that in auto)
  qed
  show ?thesis
  proof (cases "?p \<noteq> [] \<and> (\<exists>t \<in> set ts. ?h t)")
    case True
    then obtain t where t: "t \<in> set ts" "?h t" by blast
    then have boost: "boostManifestLanguage ts deps = t # filter (\<lambda>t. \<not> ?h t) ts"
      using True one [OF t] by (simp add: boostManifestLanguage_def)
    have "mset ts = mset (filter ?h ts) + mset (filter (\<lambda>t. \<not> ?h t) ts)"
      unfolding mset_filter by (rule multiset_partition)
    then show ?thesis using one [OF t] boost by simp
  next
    case False
    then have "?p = [] \<or> filter ?h ts = []" unfolding filter_empty_conv by force
    then have "boostManifestLanguage ts deps = ts" by (auto simp: boostManifestLanguage_def Let_def)
    then show ?thesis by simp
  qed
qed

section \<open>Properties\<close>

text \<open>
  The merge of two lists is a grouping by name and category: of all entries with a key there is one, at the place of
  the first, with the first detected version, latest version and status that is set in any of them; nothing that is
  set is overwritten and no entry is lost.
\<close>

theorem merge_technologies_groups:
  assumes "distinct (map tkey existing)"
  shows "MergeTechnologies existing incoming = grouped (existing @ incoming)"
  using merge_is_grouping [of existing incoming] grouped_distinct [OF assms] by simp

text \<open>
  The comparison of versions is the lexicographic order of their first four numbers, so it is total and consistent,
  and a technology is outdated exactly when both versions are known and the detected one is smaller.
\<close>

theorem version_order:
  "compareVersions a b =
     (if version_key a = version_key b then 0 else if version_key a < version_key b then -1 else 1) \<and>
   versionStatus a b =
     (if a = [] \<or> b = [] then TECHNOLOGY_STATUS_UNSPECIFIED
      else if version_key a < version_key b then TECHNOLOGY_STATUS_OUTDATED else TECHNOLOGY_STATUS_CURRENT)"
  by (auto simp: versionStatus_def compareVersions_key)

text \<open>A suffix with a dot is not stripped: a pre-release counts as newer than its release.\<close>

lemma prerelease_is_newer:
  "compareVersions ''1.2.0-rc.1'' ''1.2.0'' = 1 \<and> compareVersions ''33.2.0-jre'' ''33.2.0'' = 0"
  by code_simp

text \<open>
  C22. The language that is moved to the front is PHP when a Composer manifest was found, otherwise the one of the first
  dependency in the order of the parsers, whichever ecosystem that is (the comment at the code gives npm the lowest
  priority, the code does not). If the list has an entry of that language, one of them is put in front and all other
  entries keep their order; further entries of the same language are left out. If there is no such entry, nothing
  changes. When the list has one entry per name and category, as a merged list has, no entry is lost or doubled.
\<close>

theorem boost_moves_primary:
  "(let primary = (if \<exists>d \<in> set deps. dep_Ecosystem d = EcosystemComposer then ''PHP''
         else case filter (\<lambda>l. l \<noteq> []) (map (ecosystem_language \<circ> dep_Ecosystem) deps) of [] \<Rightarrow> [] | l # _ \<Rightarrow> l)
    in if primary \<noteq> [] \<and> (primary, ''language'') \<in> tkey ` set ts
       then hd (boostManifestLanguage ts deps) \<in> set ts \<and>
         tkey (hd (boostManifestLanguage ts deps)) = (primary, ''language'') \<and>
         tl (boostManifestLanguage ts deps) = filter (\<lambda>t. tkey t \<noteq> (primary, ''language'')) ts
       else boostManifestLanguage ts deps = ts) \<and>
   (distinct (map tkey ts) \<longrightarrow> mset (boostManifestLanguage ts deps) = mset ts)"
  by (rule conjI [OF boost_primary]) (blast intro: boost_distinct)

section \<open>Witnesses\<close>

definition tech :: "string \<Rightarrow> string \<Rightarrow> string \<Rightarrow> Technology" where
  "tech name category version =
     zero_Technology\<lparr>tech_Name := name, tech_Category := category, tech_DetectedVersion := version\<rparr>"

definition dependency :: "Ecosystem \<Rightarrow> string \<Rightarrow> string \<Rightarrow> Dependency" where
  "dependency e pkg version = \<lparr> dep_Ecosystem = e, dep_Package = pkg, dep_Version = version, dep_Category = [],
     dep_Approximate = False, dep_DisplayName = [], dep_Slug = [] \<rparr>"

theorem merge_technologies_groups_witness:
  "MergeTechnologies [tech ''Python'' ''language'' [], tech ''flask'' ''library'' []]
     [tech ''flask'' ''library'' ''2.0'', tech ''flask'' ''library'' ''3.0''] =
   [tech ''Python'' ''language'' [], tech ''flask'' ''library'' ''2.0'']"
proof -
  let ?a = "[tech ''Python'' ''language'' [], tech ''flask'' ''library'' []]"
  have "distinct (map tkey ?a)" by code_simp
  from merge_technologies_groups [OF this, of "[tech ''flask'' ''library'' ''2.0'', tech ''flask'' ''library'' ''3.0'']"]
  show ?thesis by (simp add: grouped_def combined_def first_set_def tkey_def tech_def zero_Technology_def)
qed

text \<open>A Flask project with a package.json: its npm packages come first, so JavaScript is moved to the front.\<close>

theorem boost_moves_primary_witness:
  "map tech_Name (boostManifestLanguage [tech ''Python'' ''language'' [], tech ''JavaScript'' ''language'' []]
     [dependency EcosystemNpm ''bootstrap'' ''5.0'', dependency EcosystemPyPI ''flask'' ''2.0'']) =
   [''JavaScript'', ''Python'']"
proof -
  let ?ts = "[tech ''Python'' ''language'' [], tech ''JavaScript'' ''language'' []]"
  let ?ds = "[dependency EcosystemNpm ''bootstrap'' ''5.0'', dependency EcosystemPyPI ''flask'' ''2.0'']"
  have d: "distinct (map tkey ?ts)" by code_simp
  let ?p = "if \<exists>d \<in> set ?ds. dep_Ecosystem d = EcosystemComposer then ''PHP''
      else case filter (\<lambda>l. l \<noteq> []) (map (ecosystem_language \<circ> dep_Ecosystem) ?ds) of [] \<Rightarrow> [] | l # _ \<Rightarrow> l"
  have p: "?p = ''JavaScript''" by code_simp
  have js: "''JavaScript'' \<noteq> [] \<and> (''JavaScript'', ''language'') \<in> tkey ` set ?ts"
    by (simp add: tkey_def tech_def zero_Technology_def)
  have "tl (boostManifestLanguage ?ts ?ds) = filter (\<lambda>t. tkey t \<noteq> (''JavaScript'', ''language'')) ?ts"
    "tkey (hd (boostManifestLanguage ?ts ?ds)) = (''JavaScript'', ''language'')"
    "mset (boostManifestLanguage ?ts ?ds) = mset ?ts"
    using boost_moves_primary [of ?ds ?ts] d js unfolding p Let_def by presburger+
  moreover have "filter (\<lambda>t. tkey t \<noteq> (''JavaScript'', ''language'')) ?ts = [tech ''Python'' ''language'' []]" by code_simp
  moreover have "tech_Name (tech ''Python'' ''language'' []) = ''Python''" by code_simp
  ultimately show ?thesis
    by (cases "boostManifestLanguage ?ts ?ds") (simp_all add: tkey_def)
qed

end
