(* ===== verification/Analysis_Pipeline.thy ===== *)
theory Analysis_Pipeline
  imports Migrability_Scorer Technologies Decomposition_Pipeline Worker_Writers
begin

text \<open>
  The orchestration of the analysis worker: \<^verbatim>\<open>Pipeline.Run\<close> with its stages
  (\<^verbatim>\<open>worker/analysis/application/pipeline.go\<close>), the registry of the languages
  (\<^verbatim>\<open>worker/analysis/application/registry.go\<close>) and the job handler
  (\<^verbatim>\<open>worker/analysis/jobs/run_analysis_job.go\<close>). A port that may be missing is an option; the log is left out.
\<close>

section \<open>Ports\<close>

record AnalysisJob =
  aj_SummaryID :: u64
  aj_RepositoryID :: u64
  aj_MigrationID :: u64
  aj_RemoteURL :: string
  aj_DefaultBranch :: string

record 'w SummaryWriter =
  writer_Write :: "AnalysisSummary \<Rightarrow> ('w, unit) io"
  writer_MarkFailed :: "u64 \<Rightarrow> string \<Rightarrow> ('w, unit) io"
  writer_MarkAnalysisFailed :: "u64 \<Rightarrow> string \<Rightarrow> ('w, unit) io"
  writer_FindCompletedForBranch :: "u64 \<Rightarrow> string \<Rightarrow> ('w, AnalysisSummary option) io"
  writer_WriteReuse :: "u64 \<Rightarrow> u64 \<Rightarrow> ('w, unit) io"

record 'w LanguageAnalyzer =
  la_Language :: string
  la_ResolveImports :: "string \<Rightarrow> ('w, DependencyEdge list) io"
  la_ExtractCards :: "string \<Rightarrow> ('w, ModuleCard list \<times> BlueprintInfo list) io"

type_synonym 'w LanguageAnalyzerRegistry = "string \<rightharpoonup> 'w LanguageAnalyzer"

definition registry_Register :: "'w LanguageAnalyzerRegistry \<Rightarrow> 'w LanguageAnalyzer \<Rightarrow> 'w LanguageAnalyzerRegistry" where
  "registry_Register r a = r(la_Language a \<mapsto> a)"

definition registry_Build :: "'w LanguageAnalyzerRegistry \<Rightarrow> string \<Rightarrow> string \<Rightarrow> ('w, DependencyEdge list) io" where
  "registry_Build r workspacePath lang =
     (case r lang of None \<Rightarrow> io_ok [] | Some a \<Rightarrow> la_ResolveImports a workspacePath)"

definition registry_ExtractCards ::
  "'w LanguageAnalyzerRegistry \<Rightarrow> string \<Rightarrow> string \<Rightarrow> ('w, ModuleCard list \<times> BlueprintInfo list) io" where
  "registry_ExtractCards r workspacePath lang =
     (case r lang of None \<Rightarrow> io_ok ([], []) | Some a \<Rightarrow> la_ExtractCards a workspacePath)"

text \<open>The scorer may change the classification of its caller, so it returns it with the score. \<open>ap_ParseURL\<close> is
  \<^verbatim>\<open>url.Parse\<close>: the scheme of a URL and the function that prints the URL with a user.\<close>

record 'w AnalysisPipeline =
  ap_writer :: "'w SummaryWriter option"
  ap_credentialReader :: "(u64 \<Rightarrow> ('w, string) io) option"
  ap_ParseURL :: "string \<Rightarrow> go_error + string \<times> (string \<Rightarrow> string)"
  ap_branchSHAResolver :: "(string \<Rightarrow> string \<Rightarrow> ('w, string) state) option"
  ap_acquirer :: "(string \<Rightarrow> string \<Rightarrow> ('w, string \<times> string \<times> ('w, unit) state) io) option"
  ap_detector :: "(string \<Rightarrow> ('w, DetectedLanguage list) io) option"
  ap_parsers :: "(Ecosystem \<times> (string \<Rightarrow> Ecosystem \<Rightarrow> ('w, Dependency list) io)) list"
  ap_frameworkDetector :: "(string \<Rightarrow> Technology list \<Rightarrow> ('w, Technology list) io) option"
  ap_resolver :: "(Ecosystem \<Rightarrow> string \<Rightarrow> ('w, VersionCurrency) io) option"
  ap_scanner :: "(Dependency list \<Rightarrow> ('w, Vulnerability list) io) option"
  ap_graphBuilder :: "(string \<Rightarrow> string \<Rightarrow> ('w, DependencyEdge list) io) option"
  ap_cardProvider :: "(string \<Rightarrow> string \<Rightarrow> ('w, ModuleCard list \<times> BlueprintInfo list) io) option"
  ap_classifier :: "(DependencyEdge list \<Rightarrow> ('w, ModuleClassification option) io) option"
  ap_scorer :: "(DependencyEdge list \<Rightarrow> ModuleClassification \<Rightarrow> ModuleCard list \<Rightarrow> BlueprintInfo list \<Rightarrow>
     ('w, ModuleClassification \<times> (go_error + MigrabilityScore option)) state) option"
  ap_decomposeEnqueuer :: "(u64 \<Rightarrow> u64 \<Rightarrow> string \<Rightarrow> string \<Rightarrow> ('w, unit) io) option"

section \<open>The URL of the clone and the reuse of an analysis\<close>

definition injectToken :: "(string \<Rightarrow> go_error + string \<times> (string \<Rightarrow> string)) \<Rightarrow> string \<Rightarrow> string \<Rightarrow> string" where
  "injectToken parse rawURL token =
     (case parse rawURL of
        Inl err \<Rightarrow> rawURL
      | Inr (scheme, with_user) \<Rightarrow> if scheme \<noteq> ''https'' then rawURL else with_user token)"

definition clone_url :: "'w AnalysisPipeline \<Rightarrow> AnalysisJob \<Rightarrow> ('w, string) state" where
  "clone_url p job =
     (case ap_credentialReader p of
        None \<Rightarrow> State_Monad.return (aj_RemoteURL job)
      | Some GetCredentialRef \<Rightarrow>
          if aj_RepositoryID job = 0 then State_Monad.return (aj_RemoteURL job)
          else State_Monad.bind (GetCredentialRef (aj_RepositoryID job)) (\<lambda>r. State_Monad.return
            (case r of Inl credErr \<Rightarrow> aj_RemoteURL job
             | Inr token \<Rightarrow> if token \<noteq> [] then injectToken (ap_ParseURL p) (aj_RemoteURL job) token else aj_RemoteURL job)))"

text \<open>The completed analysis of the commit at the head of the branch.\<close>

definition reusable_summary ::
  "'w AnalysisPipeline \<Rightarrow> AnalysisJob \<Rightarrow> string \<Rightarrow> ('w, AnalysisSummary option) io" where
  "reusable_summary p job cloneURL =
     (case ap_branchSHAResolver p of
        None \<Rightarrow> io_ok None
      | Some resolve \<Rightarrow>
          if aj_MigrationID job = 0 \<or> aj_DefaultBranch job = [] then io_ok None
          else State_Monad.bind (resolve cloneURL (aj_DefaultBranch job)) (\<lambda>headSHA.
            if headSHA = [] then io_ok None
            else case ap_writer p of
              None \<Rightarrow> nil_deref
            | Some writer \<Rightarrow>
                State_Monad.bind (writer_FindCompletedForBranch writer (aj_RepositoryID job) (aj_DefaultBranch job)) (\<lambda>r.
                  case r of
                    Inl findErr \<Rightarrow> io_ok None
                  | Inr None \<Rightarrow> io_ok None
                  | Inr (Some existing) \<Rightarrow> io_ok (if as_CommitSha existing = headSHA then Some existing else None))))"

definition enqueue_decompose :: "'w AnalysisPipeline \<Rightarrow> u64 \<Rightarrow> u64 \<Rightarrow> string \<Rightarrow> string \<Rightarrow> ('w, unit) io" where
  "enqueue_decompose p migrationID summaryID cloneURL branch =
     (case ap_decomposeEnqueuer p of
        None \<Rightarrow> io_ok ()
      | Some EnqueueDecompose \<Rightarrow> io_ignore (EnqueueDecompose migrationID summaryID cloneURL branch) (io_ok ()))"

definition reuse_analysis :: "'w AnalysisPipeline \<Rightarrow> AnalysisJob \<Rightarrow> string \<Rightarrow> AnalysisSummary \<Rightarrow> ('w, unit) io" where
  "reuse_analysis p job cloneURL existing =
     (case ap_writer p of
        None \<Rightarrow> nil_deref
      | Some writer \<Rightarrow>
          io_bind (io_wrap ''dedup WriteReuse: ''
                     (writer_WriteReuse writer (as_Identifier existing) (aj_MigrationID job))) (\<lambda>_.
          io_ignore (writer_MarkAnalysisFailed writer (aj_SummaryID job) ''superseded by dedup reuse'')
            (enqueue_decompose p (aj_MigrationID job) (as_Identifier existing) cloneURL (aj_DefaultBranch job))))"

section \<open>The stages\<close>

text \<open>Stage 2.\<close>

definition stage_inventory :: "'w AnalysisPipeline \<Rightarrow> string \<Rightarrow> ('w, DetectedLanguage list) io" where
  "stage_inventory p workspacePath =
     (case ap_detector p of
        None \<Rightarrow> io_ok []
      | Some detect \<Rightarrow> if workspacePath = [] then io_ok []
                       else io_wrap ''stage 2 (inventory): '' (detect workspacePath))"

text \<open>Stage 3.\<close>

fun ecosystem_text :: "Ecosystem \<Rightarrow> string" where
  "ecosystem_text EcosystemMaven = ''Maven''"
| "ecosystem_text EcosystemNpm = ''npm''"
| "ecosystem_text EcosystemComposer = ''Packagist''"
| "ecosystem_text EcosystemPyPI = ''PyPI''"
| "ecosystem_text EcosystemNuGet = ''NuGet''"
| "ecosystem_text EcosystemRubyGems = ''RubyGems''"
| "ecosystem_text (EcosystemOther e) = e"

fun parse_manifests ::
  "(Ecosystem \<times> (string \<Rightarrow> Ecosystem \<Rightarrow> ('w, Dependency list) io)) list \<Rightarrow> string \<Rightarrow>
   Technology list \<Rightarrow> Dependency list \<Rightarrow> ('w, Technology list \<times> Dependency list) io" where
  "parse_manifests [] workspacePath technologies manifestDeps = io_ok (technologies, manifestDeps)"
| "parse_manifests ((ecosystem, parse) # parsers) workspacePath technologies manifestDeps =
     io_bind (io_wrap (''stage 3 (manifests/'' @ ecosystem_text ecosystem @ ''): '') (parse workspacePath ecosystem)) (\<lambda>deps.
       parse_manifests parsers workspacePath (MergeTechnologies technologies (manifestTechnologies deps))
         (manifestDeps @ deps))"

definition stage_manifests ::
  "'w AnalysisPipeline \<Rightarrow> string \<Rightarrow> Technology list \<Rightarrow> ('w, Technology list \<times> Dependency list) io" where
  "stage_manifests p workspacePath technologies =
     (if workspacePath = [] then io_ok (technologies, [])
      else parse_manifests (ap_parsers p) workspacePath technologies [])"

text \<open>Stage 3b.\<close>

definition stage_frameworks :: "'w AnalysisPipeline \<Rightarrow> string \<Rightarrow> Technology list \<Rightarrow> ('w, Technology list) state" where
  "stage_frameworks p workspacePath technologies =
     (case ap_frameworkDetector p of
        None \<Rightarrow> State_Monad.return technologies
      | Some detect \<Rightarrow>
          if workspacePath = [] then State_Monad.return technologies
          else State_Monad.bind (detect workspacePath technologies) (\<lambda>r. State_Monad.return
            (case r of Inl err \<Rightarrow> technologies
             | Inr detected \<Rightarrow> if detected \<noteq> [] then MergeTechnologies technologies detected else technologies)))"

text \<open>Stage 4: the entries are found by name, the last one of a name; a package with a display name is found by the
  entry of that name.\<close>

definition name_index :: "Technology list \<Rightarrow> (string \<rightharpoonup> nat)" where
  "name_index technologies =
     foldl (\<lambda>m i. m(tech_Name (technologies ! i) \<mapsto> i)) Map.empty [0..<length technologies]"

definition package_index :: "(string \<rightharpoonup> nat) \<Rightarrow> Dependency list \<Rightarrow> (string \<rightharpoonup> nat)" where
  "package_index =
     foldl (\<lambda>m dep. if dep_DisplayName dep = [] then m
       else (case m (dep_DisplayName dep) of None \<Rightarrow> m | Some i \<Rightarrow> m(dep_Package dep \<mapsto> i)))"

fun resolve_versions ::
  "(Ecosystem \<Rightarrow> string \<Rightarrow> ('w, VersionCurrency) io) \<Rightarrow> (string \<rightharpoonup> nat) \<Rightarrow> Dependency list \<Rightarrow>
   Technology list \<Rightarrow> ('w, Technology list) state" where
  "resolve_versions latest index [] technologies = State_Monad.return technologies"
| "resolve_versions latest index (dep # deps) technologies =
     (case index (dep_Package dep) of
        None \<Rightarrow> resolve_versions latest index deps technologies
      | Some i \<Rightarrow>
          State_Monad.bind (latest (dep_Ecosystem dep) (dep_Package dep)) (\<lambda>r. case r of
            Inl err \<Rightarrow> resolve_versions latest index deps technologies
          | Inr currency \<Rightarrow> resolve_versions latest index deps
              (technologies[i := (technologies ! i)\<lparr>tech_LatestVersion := vc_LatestVersion currency,
                 tech_Status := versionStatus (dep_Version dep) (vc_LatestVersion currency)\<rparr>])))"

definition stage_versions ::
  "'w AnalysisPipeline \<Rightarrow> Dependency list \<Rightarrow> Technology list \<Rightarrow> ('w, Technology list) state" where
  "stage_versions p manifestDeps technologies =
     (case ap_resolver p of
        None \<Rightarrow> State_Monad.return technologies
      | Some latest \<Rightarrow>
          resolve_versions latest (package_index (name_index technologies) manifestDeps) manifestDeps technologies)"

text \<open>Stage 5.\<close>

definition stage_vulnerabilities :: "'w AnalysisPipeline \<Rightarrow> Dependency list \<Rightarrow> ('w, Vulnerability list) state" where
  "stage_vulnerabilities p manifestDeps =
     (case ap_scanner p of
        None \<Rightarrow> State_Monad.return []
      | Some scan \<Rightarrow>
          if manifestDeps = [] then State_Monad.return []
          else State_Monad.bind (scan manifestDeps) (\<lambda>r. State_Monad.return
            (case r of Inl err \<Rightarrow> [] | Inr scanned \<Rightarrow> scanned)))"

text \<open>Stages 6 and 6b: a language that fails is left out.\<close>

fun build_graph ::
  "(string \<Rightarrow> string \<Rightarrow> ('w, DependencyEdge list) io) \<Rightarrow> string \<Rightarrow> DetectedLanguage list \<Rightarrow> ('w, DependencyEdge list) state" where
  "build_graph build workspacePath [] = State_Monad.return []"
| "build_graph build workspacePath (lang # langs) =
     State_Monad.bind (build workspacePath (lang_Name lang)) (\<lambda>r.
     State_Monad.bind (build_graph build workspacePath langs) (\<lambda>edges.
       State_Monad.return (case r of Inl err \<Rightarrow> edges | Inr es \<Rightarrow> es @ edges)))"

definition stage_graph :: "'w AnalysisPipeline \<Rightarrow> string \<Rightarrow> DetectedLanguage list \<Rightarrow> ('w, DependencyEdge list) state" where
  "stage_graph p workspacePath langs =
     (case ap_graphBuilder p of
        None \<Rightarrow> State_Monad.return []
      | Some build \<Rightarrow> if workspacePath = [] then State_Monad.return [] else build_graph build workspacePath langs)"

fun extract_cards ::
  "(string \<Rightarrow> string \<Rightarrow> ('w, ModuleCard list \<times> BlueprintInfo list) io) \<Rightarrow> string \<Rightarrow> DetectedLanguage list \<Rightarrow>
   ('w, ModuleCard list \<times> BlueprintInfo list) state" where
  "extract_cards extract workspacePath [] = State_Monad.return ([], [])"
| "extract_cards extract workspacePath (lang # langs) =
     State_Monad.bind (extract workspacePath (lang_Name lang)) (\<lambda>r.
     State_Monad.bind (extract_cards extract workspacePath langs) (\<lambda>(cards, bps).
       State_Monad.return (case r of Inl err \<Rightarrow> (cards, bps) | Inr (cs, bs) \<Rightarrow> (cs @ cards, bs @ bps))))"

definition stage_cards ::
  "'w AnalysisPipeline \<Rightarrow> string \<Rightarrow> DetectedLanguage list \<Rightarrow> ('w, ModuleCard list \<times> BlueprintInfo list) state" where
  "stage_cards p workspacePath langs =
     (case ap_cardProvider p of
        None \<Rightarrow> State_Monad.return ([], [])
      | Some extract \<Rightarrow>
          if workspacePath = [] then State_Monad.return ([], []) else extract_cards extract workspacePath langs)"

text \<open>Stage 6c.\<close>

definition stage_classify :: "'w AnalysisPipeline \<Rightarrow> DependencyEdge list \<Rightarrow> ('w, ModuleClassification option) state" where
  "stage_classify p dependencyGraph =
     (case ap_classifier p of
        None \<Rightarrow> State_Monad.return None
      | Some classify \<Rightarrow>
          if dependencyGraph = [] then State_Monad.return None
          else State_Monad.bind (classify dependencyGraph) (\<lambda>r. State_Monad.return
            (case r of Inl classErr \<Rightarrow> None | Inr mc \<Rightarrow> mc)))"

text \<open>The partition of the cards between stages 6c and 6d.\<close>

definition partition_cards ::
  "DependencyEdge list \<Rightarrow> ModuleClassification option \<Rightarrow> ModuleCard list \<Rightarrow>
   ModuleClassification option \<times> ModuleCard list \<times> UnreachableModule list" where
  "partition_cards dependencyGraph mc cards =
     (case mc of
        None \<Rightarrow> (None, cards, [])
      | Some c \<Rightarrow>
          if dependencyGraph = [] \<or> cards = [] then (Some c, cards, [])
          else let (c', live, unreachable) = live_partition dependencyGraph c cards in (Some c', live, unreachable))"

text \<open>Stage 6d.\<close>

definition stage_score ::
  "'w AnalysisPipeline \<Rightarrow> DependencyEdge list \<Rightarrow> ModuleClassification option \<Rightarrow> ModuleCard list \<Rightarrow> BlueprintInfo list \<Rightarrow>
   ('w, ModuleClassification option \<times> MigrabilityScore option) state" where
  "stage_score p dependencyGraph mc cards blueprints =
     (case ap_scorer p of
        None \<Rightarrow> State_Monad.return (mc, None)
      | Some score \<Rightarrow> (case mc of
            None \<Rightarrow> State_Monad.return (None, None)
          | Some c \<Rightarrow>
              if dependencyGraph = [] then State_Monad.return (Some c, None)
              else State_Monad.bind (score dependencyGraph c cards blueprints) (\<lambda>(c', r). State_Monad.return
                (Some c', case r of Inl scoreErr \<Rightarrow> None | Inr ms \<Rightarrow> ms))))"

section \<open>The summary\<close>

definition build_summary ::
  "AnalysisJob \<Rightarrow> string \<Rightarrow> DetectedLanguage list \<Rightarrow> Technology list \<Rightarrow> Dependency list \<Rightarrow> Vulnerability list \<Rightarrow>
   DependencyEdge list \<Rightarrow> ModuleCard list \<Rightarrow> ModuleCard list \<Rightarrow> BlueprintInfo list \<Rightarrow> UnreachableModule list \<Rightarrow>
   ModuleClassification option \<Rightarrow> MigrabilityScore option \<Rightarrow> AnalysisSummary" where
  "build_summary job commitSHA langs technologies manifestDeps vulnerabilities dependencyGraph allCards moduleCards
       blueprints unreachable mc score =
     (let boosted = (if manifestDeps \<noteq> [] then boostManifestLanguage technologies manifestDeps else technologies);
          (cards, hubs) = (if moduleCards \<noteq> [] \<and> dependencyGraph \<noteq> []
                           then enrichModuleCards moduleCards dependencyGraph (test_set mc) else (moduleCards, []));
          (production, tests) = module_counts mc allCards
      in zero_AnalysisSummary\<lparr>as_Identifier := aj_SummaryID job, as_RepositoryId := aj_RepositoryID job,
           as_MigrationId := aj_MigrationID job, as_State := ANALYSIS_STATE_COMPLETED,
           as_Technologies := injectInferredFramework boosted blueprints, as_Vulnerabilities := vulnerabilities,
           as_DependencyGraph := dependencyGraph, as_ModuleCards := cards, as_Blueprints := blueprints,
           as_ModuleClassification := mc, as_MigrabilityScore := score, as_SharedStateHubs := hubs,
           as_TotalFiles := sum_list (map lang_Files langs), as_TotalLines := sum_list (map lang_Lines langs),
           as_CommitSha := commitSHA, as_ModuleCountProduction := production, as_ModuleCountTest := tests,
           as_UnreachableModules := unreachable,
           as_DeepAnalysisAvailable := (dependencyGraph \<noteq> [] \<or> allCards \<noteq> [])\<rparr>)"

text \<open>Stages 2 to 6e.\<close>

definition analyse :: "'w AnalysisPipeline \<Rightarrow> AnalysisJob \<Rightarrow> string \<Rightarrow> string \<Rightarrow> ('w, AnalysisSummary) io" where
  "analyse p job workspacePath commitSHA =
     io_bind (stage_inventory p workspacePath) (\<lambda>langs.
     io_bind (stage_manifests p workspacePath (MergeTechnologies [] (inventoryTechnologies langs))) (\<lambda>(found, manifestDeps).
     State_Monad.bind (stage_frameworks p workspacePath found) (\<lambda>merged.
     State_Monad.bind (stage_versions p manifestDeps merged) (\<lambda>technologies.
     State_Monad.bind (stage_vulnerabilities p manifestDeps) (\<lambda>vulnerabilities.
     State_Monad.bind (stage_graph p workspacePath langs) (\<lambda>dependencyGraph.
     State_Monad.bind (stage_cards p workspacePath langs) (\<lambda>(allCards, blueprints).
     State_Monad.bind (stage_classify p dependencyGraph) (\<lambda>classified.
       let (mc, moduleCards, unreachable) = partition_cards dependencyGraph classified allCards
       in State_Monad.bind (stage_score p dependencyGraph mc moduleCards blueprints) (\<lambda>(mc', score).
            io_ok (build_summary job commitSHA langs technologies manifestDeps vulnerabilities dependencyGraph
              allCards moduleCards blueprints unreachable mc' score))))))))))"

section \<open>Run\<close>

definition write_summary :: "'w AnalysisPipeline \<Rightarrow> AnalysisJob \<Rightarrow> string \<Rightarrow> AnalysisSummary \<Rightarrow> ('w, unit) io" where
  "write_summary p job cloneURL summary =
     (case ap_writer p of
        None \<Rightarrow> nil_deref
      | Some writer \<Rightarrow>
          io_bind (writer_Write writer summary) (\<lambda>_.
            if aj_MigrationID job \<noteq> 0
            then enqueue_decompose p (aj_MigrationID job) (aj_SummaryID job) cloneURL (aj_DefaultBranch job)
            else io_ok ()))"

definition full_analysis :: "'w AnalysisPipeline \<Rightarrow> AnalysisJob \<Rightarrow> string \<Rightarrow> ('w, unit) io" where
  "full_analysis p job cloneURL =
     (let continue = (\<lambda>workspacePath commitSHA. io_bind (analyse p job workspacePath commitSHA) (write_summary p job cloneURL))
      in case ap_acquirer p of
           None \<Rightarrow> continue [] []
         | Some acquire \<Rightarrow>
             io_bind (io_wrap ''stage 1 (acquire): '' (acquire cloneURL (aj_DefaultBranch job))) (\<lambda>(workspacePath, commitSHA, cleanup).
               with_defer cleanup (continue workspacePath commitSHA)))"

definition analysis_Run :: "'w AnalysisPipeline \<Rightarrow> AnalysisJob \<Rightarrow> ('w, unit) io" where
  "analysis_Run p job =
     State_Monad.bind (clone_url p job) (\<lambda>cloneURL.
     io_bind (reusable_summary p job cloneURL) (\<lambda>r. case r of
       Some existing \<Rightarrow> reuse_analysis p job cloneURL existing
     | None \<Rightarrow> full_analysis p job cloneURL))"

definition analysis_MarkFailed :: "'w AnalysisPipeline \<Rightarrow> u64 \<Rightarrow> string \<Rightarrow> ('w, unit) io" where
  "analysis_MarkFailed p migrationID reason =
     (case ap_writer p of None \<Rightarrow> io_ok () | Some writer \<Rightarrow> writer_MarkFailed writer migrationID reason)"

definition analysis_MarkAnalysisFailed :: "'w AnalysisPipeline \<Rightarrow> u64 \<Rightarrow> string \<Rightarrow> ('w, unit) io" where
  "analysis_MarkAnalysisFailed p summaryID reason =
     (case ap_writer p of None \<Rightarrow> io_ok () | Some writer \<Rightarrow> writer_MarkAnalysisFailed writer summaryID reason)"

section \<open>The job handler\<close>

text \<open>\<open>cloneError\<close> finds the message of a \<^verbatim>\<open>CloneError\<close> in the chain of an error.\<close>

definition analysisFailureReason :: "(go_error \<Rightarrow> string option) \<Rightarrow> go_error \<Rightarrow> string" where
  "analysisFailureReason cloneError err =
     (case cloneError err of
        Some message \<Rightarrow> message @ '' You can update the token or URL and retry this analysis.''
      | None \<Rightarrow>
          let msg = error_text err;
              msg = (if length msg > 200 then take 200 msg @ ''...'' else msg)
          in ''Repository analysis failed: '' @ msg @ ''. You can retry this analysis.'')"

text \<open>A panic is not an error value: it leaves the handler at once.\<close>

definition run_analysis_task ::
  "'w AnalysisPipeline \<Rightarrow> (go_error \<Rightarrow> string option) \<Rightarrow> string \<Rightarrow> bool \<Rightarrow> go_error + AnalysisJob \<Rightarrow> ('w, unit) io" where
  "run_analysis_task p cloneError skipRetry isLastAttempt task =
     (case task of
        Inl err \<Rightarrow> io_err (wrap_error (skipRetry @ '': '') err [])
      | Inr payload \<Rightarrow>
          State_Monad.bind (analysis_Run p payload) (\<lambda>r. case r of
            Inr _ \<Rightarrow> io_ok ()
          | Inl (Panic s) \<Rightarrow> io_err (Panic s)
          | Inl err \<Rightarrow>
              let reason = analysisFailureReason cloneError err
              in if \<not> isLastAttempt then io_err err
                 else io_ignore (analysis_MarkAnalysisFailed p (aj_SummaryID payload) reason)
                   (if aj_MigrationID payload \<noteq> 0
                    then io_ignore (analysis_MarkFailed p (aj_MigrationID payload) reason) (io_err err)
                    else io_err err)))"

text \<open>The writer over the stores.\<close>

definition MongoSummaryWriter :: "('w, 'b) WorkerStores \<Rightarrow> 'w SummaryWriter" where
  "MongoSummaryWriter W =
     \<lparr> writer_Write = sw_Write W, writer_MarkFailed = sw_MarkFailed W,
       writer_MarkAnalysisFailed = sw_MarkAnalysisFailed W,
       writer_FindCompletedForBranch = sw_FindCompletedForBranch W, writer_WriteReuse = sw_WriteReuse W \<rparr>"

end
