(* ===== verification/Analysis_Outcomes.thy ===== *)
theory Analysis_Outcomes
  imports Analysis_Pipeline Pipeline_Outcomes
begin

text \<open>
  What an analysis job promises: the summary it writes is well formed, whatever the ports of the pipeline return; it
  changes at most its own migration; only the early stages and the writes can fail it; its last attempt leaves no
  migration in analysis; and it removes the working copy it acquired. The contract of the writer is a locale, which
  the Mongo writer meets.
\<close>

section \<open>What a computation can return\<close>

definition gives :: "('w, 'a) state \<Rightarrow> ('a \<Rightarrow> bool) \<Rightarrow> bool" where
  "gives m Q \<longleftrightarrow> (\<forall>w. Q (fst (run_state m w)))"

definition on_ok :: "('a \<Rightarrow> bool) \<Rightarrow> go_error + 'a \<Rightarrow> bool" where
  "on_ok Q r = (case r of Inl e \<Rightarrow> True | Inr x \<Rightarrow> Q x)"

lemma on_ok_simps [simp]: "on_ok Q (Inl e)" "on_ok Q (Inr x) = Q x"
  by (simp_all add: on_ok_def)

lemma givesD: "gives m Q \<Longrightarrow> run_state m w = (r, w') \<Longrightarrow> Q r"
  unfolding gives_def by (metis fst_conv)

lemma gives_True: "gives m (\<lambda>r. True)"
  by (simp add: gives_def)

lemma gives_any: "gives m (on_ok (\<lambda>x. True))"
  by (simp add: gives_def on_ok_def split: sum.split)

lemma gives_return [simp]: "gives (State_Monad.return x) Q = Q x"
  by (simp add: gives_def)

lemma gives_bind: "gives m P \<Longrightarrow> (\<And>x. P x \<Longrightarrow> gives (f x) Q) \<Longrightarrow> gives (State_Monad.bind m f) Q"
  by (auto simp: gives_def run_state_bind split: prod.split) (metis fst_conv)

lemma gives_io_bind:
  "gives m (on_ok P) \<Longrightarrow> (\<And>x. P x \<Longrightarrow> gives (f x) (on_ok Q)) \<Longrightarrow> gives (io_bind m f) (on_ok Q)"
  unfolding io_bind_def by (erule gives_bind) (auto split: sum.split)

lemma gives_wrap: "gives m (on_ok P) \<Longrightarrow> gives (io_wrap pre m) (on_ok P)"
  unfolding io_wrap_def by (erule gives_bind) (auto split: sum.split)

section \<open>The technologies\<close>

definition no_duplicates :: "Technology list \<Rightarrow> bool" where
  "no_duplicates ts \<longleftrightarrow> distinct (map tkey ts)"

lemma merged_distinct: "no_duplicates ts \<Longrightarrow> no_duplicates (MergeTechnologies ts us)"
  unfolding no_duplicates_def by (metis grouped_distinct grouped_keys distinct_first_keys merge_is_grouping)

lemma manifests_distinct:
  "no_duplicates ts \<Longrightarrow> gives (parse_manifests ps ws ts deps) (on_ok (\<lambda>(found, manifestDeps). no_duplicates found))"
proof (induction ps arbitrary: ts deps)
  case (Cons q ps)
  then show ?case
    by (cases q) (auto simp del: append.simps intro!: gives_io_bind [OF gives_any] merged_distinct)
qed simp

lemma versions_distinct: "no_duplicates ts \<Longrightarrow> gives (resolve_versions latest index deps ts) no_duplicates"
proof (induction deps arbitrary: ts)
  case (Cons d ds)
  have "map tkey (ts[i := (ts ! i)\<lparr>tech_LatestVersion := v, tech_Status := st\<rparr>]) = map tkey ts" for i v st
    by (cases "i < length ts") (simp_all add: map_update tkey_def list_update_same_conv list_update_beyond)
  with Cons show ?case
    by (auto simp: no_duplicates_def split: option.split sum.split intro!: gives_bind [where P = "\<lambda>x. True"] gives_True)
qed simp

lemma frameworks_distinct: "no_duplicates ts \<Longrightarrow> gives (stage_frameworks p ws ts) no_duplicates"
  unfolding stage_frameworks_def
  by (auto split: option.split sum.split intro!: gives_bind [where P = "\<lambda>x. True"] gives_True merged_distinct)

lemma boost_mset: "no_duplicates ts \<Longrightarrow> mset (boostManifestLanguage ts deps) = mset ts"
  unfolding no_duplicates_def by (rule boost_distinct)

lemma injected:
  assumes "no_duplicates ts"
  shows "no_duplicates (injectInferredFramework ts bps)"
    and "bps \<noteq> [] \<Longrightarrow> \<exists>t \<in> set (injectInferredFramework ts bps). tech_Category t = ''framework''"
proof -
  have "tkey t \<noteq> (''Flask'', ''framework'')" if "t \<in> set ts" "\<not> (\<exists>t \<in> set ts. tech_Category t = ''framework'')" for t
    using that by (auto simp: tkey_def)
  with assms show "no_duplicates (injectInferredFramework ts bps)"
    by (auto simp: injectInferredFramework_def no_duplicates_def tkey_def)
  show "bps \<noteq> [] \<Longrightarrow> \<exists>t \<in> set (injectInferredFramework ts bps). tech_Category t = ''framework''"
    by (auto simp: injectInferredFramework_def)
qed

section \<open>The summary\<close>

text \<open>The scorer of the worker, or none.\<close>

definition LouvainScorer ::
  "(rat \<Rightarrow> rat) \<Rightarrow> schedule \<Rightarrow> DependencyEdge list \<Rightarrow> ModuleClassification \<Rightarrow> ModuleCard list \<Rightarrow> BlueprintInfo list \<Rightarrow>
   ('w, ModuleClassification \<times> (go_error + MigrabilityScore option)) state" where
  "LouvainScorer fl sched edges cls cards blueprints = State_Monad.return
     (case LouvainMigrabilityScorer_Score fl sched edges cls cards blueprints of
        None \<Rightarrow> (cls, Inl (ErrStr ''louvain migrability scorer: cluster''))
      | Some (cls', score) \<Rightarrow> (cls', Inr (Some score)))"

definition scored_by_worker :: "'w AnalysisPipeline \<Rightarrow> bool" where
  "scored_by_worker p \<longleftrightarrow> ap_scorer p = None \<or> (\<exists>fl sched. ap_scorer p = Some (LouvainScorer fl sched))"

definition on_graph :: "AnalysisSummary \<Rightarrow> string \<Rightarrow> bool" where
  "on_graph s m \<longleftrightarrow> m \<noteq> [] \<and> (\<exists>e \<in> set (as_DependencyGraph s). m = de_FromModule e \<or> m = de_ToModule e)"

definition technologies_wf :: "AnalysisSummary \<Rightarrow> bool" where
  "technologies_wf s \<longleftrightarrow> no_duplicates (as_Technologies s) \<and>
     (as_Blueprints s \<noteq> [] \<longrightarrow> (\<exists>t \<in> set (as_Technologies s). tech_Category t = ''framework''))"

definition structure_wf :: "AnalysisSummary \<Rightarrow> bool" where
  "structure_wf s \<longleftrightarrow>
     (as_DependencyGraph s \<noteq> [] \<or> as_ModuleCards s \<noteq> [] \<longrightarrow> as_DeepAnalysisAvailable s) \<and>
     (as_DependencyGraph s = [] \<longrightarrow> as_ModuleClassification s = None \<and> as_SharedStateHubs s = []) \<and>
     (as_ModuleClassification s = None \<longrightarrow> as_MigrabilityScore s = None \<and> as_UnreachableModules s = []) \<and>
     (as_ModuleClassification s \<noteq> None \<longrightarrow> (\<forall>c \<in> set (as_ModuleCards s). on_graph s (card_Module c))) \<and>
     (\<forall>u \<in> set (as_UnreachableModules s). \<not> on_graph s (um_Module u)) \<and>
     (\<forall>h \<in> set (as_SharedStateHubs s). \<exists>c \<in> set (as_ModuleCards s).
        card_Module c = ssh_Module h \<and> card_IsSharedStateHub c \<and> card_FanIn c = ssh_FanIn h \<and> 2 \<le> ssh_FanIn h)"

definition score_wf :: "AnalysisSummary \<Rightarrow> bool" where
  "score_wf s \<longleftrightarrow>
     (\<forall>cls score. as_ModuleClassification s = Some cls \<and> as_MigrabilityScore s = Some score \<longrightarrow>
        0 \<le> ms_Value score \<and> ms_Value score \<le> 100 \<and>
        ((\<exists>b \<in> set (ms_TypedBlockers score). tb_BlockerKey b = ''blocker.no_domain_layer'') \<longleftrightarrow> mc_DomainModules cls = []))"

text \<open>What the stages hand to the summary.\<close>

definition score_result ::
  "DependencyEdge list \<Rightarrow> ModuleClassification option \<Rightarrow> ModuleCard list \<Rightarrow> BlueprintInfo list \<Rightarrow>
   ModuleClassification option \<times> MigrabilityScore option \<Rightarrow> bool" where
  "score_result graph mc cards bps r \<longleftrightarrow>
     (fst r = None \<longleftrightarrow> mc = None) \<and> (mc = None \<longrightarrow> snd r = None) \<and>
     (\<forall>score. snd r = Some score \<longrightarrow> (\<exists>fl sched cls cls'. mc = Some cls \<and> fst r = Some cls' \<and>
        LouvainMigrabilityScorer_Score fl sched graph cls cards bps = Some (cls', score)))"

lemma classify_result: "gives (stage_classify p graph) (\<lambda>mc. graph = [] \<longrightarrow> mc = None)"
  unfolding stage_classify_def by (auto split: option.split intro!: gives_bind [OF gives_True])

lemma score_stage_result:
  assumes "scored_by_worker p"
  shows "gives (stage_score p graph mc cards bps) (score_result graph mc cards bps)"
proof (cases "ap_scorer p")
  case None
  then show ?thesis by (simp add: stage_score_def score_result_def)
next
  case (Some score)
  with assms obtain fl sched where "score = LouvainScorer fl sched" by (auto simp: scored_by_worker_def)
  with Some show ?thesis
    by (auto simp: stage_score_def score_result_def LouvainScorer_def split: option.split)
qed

lemma partition_facts:
  assumes "partition_cards graph mc cards = (mc', live, unreachable)"
  shows "mc' = None \<longleftrightarrow> mc = None" and "mc' = None \<Longrightarrow> unreachable = []" and "set live \<subseteq> set cards"
    and "mc' \<noteq> None \<Longrightarrow> graph \<noteq> [] \<Longrightarrow> c \<in> set live \<Longrightarrow> card_Module c \<in> set (module_set graph)"
    and "u \<in> set unreachable \<Longrightarrow> um_Module u \<notin> set (module_set graph)"
  using assms
  by (auto simp: partition_cards_def live_partition_def island_kinds unreachable_module_def Let_def
      dest!: island_kinds(3) [of graph, rotated] split: option.splits if_splits)

lemma enriched_hub:
  assumes "enrichModuleCards cards graph tests = (cards', hubs)" and "h \<in> set hubs"
  shows "\<exists>c \<in> set cards'. card_Module c = ssh_Module h \<and> card_IsSharedStateHub c \<and> card_FanIn c = ssh_FanIn h \<and>
    2 \<le> ssh_FanIn h"
proof -
  from assms obtain c where c: "c \<in> set cards" "isSharedStateHubCard c (card_fan_in graph (card_Module c))"
      "h = \<lparr> ssh_Module = card_Module c, ssh_MutableState = card_ModuleLevelState c,
             ssh_FanIn = card_fan_in graph (card_Module c) \<rparr>"
    by (auto simp: enrichModuleCards_def)
  moreover have "enrich_card graph tests c \<in> set cards'" using assms(1) c(1) by (auto simp: enrichModuleCards_def)
  ultimately show ?thesis
    by (intro bexI [of _ "enrich_card graph tests c"])
      (auto simp: enrich_card_def Let_def isSharedStateHubCard_def not_less split: if_splits)
qed

lemma on_graph_module_set: "as_DependencyGraph s = graph \<Longrightarrow> on_graph s m \<longleftrightarrow> m \<in> set (module_set graph)"
  by (auto simp: on_graph_def module_set_def)

lemma build_summary_wf:
  assumes techs: "no_duplicates techs"
    and part: "partition_cards graph mc allCards = (mc', live, unreachable)" and none: "graph = [] \<longrightarrow> mc = None"
    and score: "score_result graph mc' live bps (mc2, score)"
    and s: "s = build_summary job sha langs techs deps vulns graph allCards live bps unreachable mc2 score"
  shows "technologies_wf s" and "structure_wf s" and "score_wf s"
proof -
  let ?boosted = "if deps \<noteq> [] then boostManifestLanguage techs deps else techs"
  obtain cards hubs where ch: "(if live \<noteq> [] \<and> graph \<noteq> [] then enrichModuleCards live graph (test_set mc2) else (live, [])) = (cards, hubs)"
    by fastforce
  obtain production tests where counts: "module_counts mc2 allCards = (production, tests)" by fastforce
  note fields = s [unfolded build_summary_def ch counts Let_def prod.case]
  have "mset (map tkey ?boosted) = mset (map tkey techs)" using boost_mset [OF techs] by simp
  then have "no_duplicates ?boosted" using techs unfolding no_duplicates_def by (metis mset_eq_imp_distinct_iff)
  from injected [OF this] show "technologies_wf s" by (auto simp: technologies_wf_def fields)
  have mc2: "mc2 = None \<longleftrightarrow> mc' = None" and noscore: "mc' = None \<Longrightarrow> score = None"
    using score by (auto simp: score_result_def)
  have modules: "card_Module ` set cards = card_Module ` set live"
    using ch by (auto simp: enrichModuleCards_def enrich_card_def Let_def image_image split: if_splits)
  have g: "on_graph s m \<longleftrightarrow> m \<in> set (module_set graph)" for m by (rule on_graph_module_set) (simp add: fields)
  have hub: "\<exists>c \<in> set cards. card_Module c = ssh_Module h \<and> card_IsSharedStateHub c \<and> card_FanIn c = ssh_FanIn h \<and> 2 \<le> ssh_FanIn h"
    if "h \<in> set hubs" for h using enriched_hub [of live graph "test_set mc2" cards hubs h] ch that by (auto split: if_splits)
  have live: "card_Module c \<in> set (module_set graph)" if "c \<in> set cards" "mc2 \<noteq> None" for c
  proof -
    have "card_Module c \<in> card_Module ` set live" using that(1) modules by blast
    then show ?thesis using partition_facts(1,4) [OF part] none that(2) mc2 by auto
  qed
  have deep: "cards \<noteq> [] \<Longrightarrow> allCards \<noteq> []" using modules partition_facts(3) [OF part] by auto
  have nohubs: "graph = [] \<Longrightarrow> hubs = []" using ch by auto
  show "structure_wf s"
    unfolding structure_wf_def g
    using live hub deep nohubs none mc2 noscore partition_facts(1,2,5) [OF part]
    by (auto simp: fields)
  show "score_wf s"
    unfolding score_wf_def using score score_consistent by (fastforce simp: fields score_result_def)
qed

definition summary_wf :: "AnalysisJob \<Rightarrow> AnalysisSummary \<Rightarrow> bool" where
  "summary_wf job s \<longleftrightarrow> technologies_wf s \<and> structure_wf s \<and> score_wf s \<and>
    as_Identifier s = aj_SummaryID job \<and> as_RepositoryId s = aj_RepositoryID job \<and>
    as_MigrationId s = aj_MigrationID job \<and> as_State s = ANALYSIS_STATE_COMPLETED"

lemma build_summary_fields [simp]:
  "as_Identifier (build_summary job sha langs ts deps vs g cs live bps un mc ms) = aj_SummaryID job"
  "as_RepositoryId (build_summary job sha langs ts deps vs g cs live bps un mc ms) = aj_RepositoryID job"
  "as_MigrationId (build_summary job sha langs ts deps vs g cs live bps un mc ms) = aj_MigrationID job"
  "as_State (build_summary job sha langs ts deps vs g cs live bps un mc ms) = ANALYSIS_STATE_COMPLETED"
  by (simp_all add: build_summary_def Let_def split: prod.split)

lemma scored_summary_wf:
  assumes "scored_by_worker p" and "no_duplicates ts" and "graph = [] \<longrightarrow> found_classes = None"
  shows "gives (let (mc, live, unreachable) = partition_cards graph found_classes cards
    in State_Monad.bind (stage_score p graph mc live bps) (\<lambda>(mc', score).
         io_ok (build_summary job sha langs ts deps vs graph cards live bps unreachable mc' score))) (on_ok (summary_wf job))"
proof -
  obtain mc live unreachable where part: "partition_cards graph found_classes cards = (mc, live, unreachable)"
    by (metis prod_cases3)
  have "gives (State_Monad.bind (stage_score p graph mc live bps) (\<lambda>(mc', score).
      io_ok (build_summary job sha langs ts deps vs graph cards live bps unreachable mc' score))) (on_ok (summary_wf job))"
  proof (rule gives_bind [OF score_stage_result [OF assms(1)]])
    fix x assume x: "score_result graph mc live bps x"
    show "gives (case x of (mc', score) \<Rightarrow>
        io_ok (build_summary job sha langs ts deps vs graph cards live bps unreachable mc' score)) (on_ok (summary_wf job))"
      using build_summary_wf [OF assms(2) part assms(3), of bps "fst x" "snd x"] x
      by (cases x) (simp add: summary_wf_def)
  qed
  then show ?thesis unfolding part Let_def prod.case .
qed

lemma analyse_wf:
  assumes "scored_by_worker p"
  shows "gives (analyse p job ws sha) (on_ok (summary_wf job))"
proof -
  have start: "no_duplicates (MergeTechnologies [] (inventoryTechnologies langs))" for langs
    by (rule merged_distinct) (simp add: no_duplicates_def)
  have manifests: "gives (stage_manifests p ws (MergeTechnologies [] (inventoryTechnologies langs)))
      (on_ok (\<lambda>(found, manifestDeps). no_duplicates found))" for langs
    unfolding stage_manifests_def using start by (auto intro: manifests_distinct)
  have versions: "gives (stage_versions p deps ts) no_duplicates" if "no_duplicates ts" for deps ts
    unfolding stage_versions_def using that by (auto split: option.split intro: versions_distinct)
  show ?thesis
    unfolding analyse_def
    apply (rule gives_io_bind [OF gives_any], rule gives_io_bind [OF manifests], clarify)
    apply (rule gives_bind [OF frameworks_distinct], assumption)
    apply (rule gives_bind [OF versions], assumption, rule gives_bind [OF gives_True], rule gives_bind [OF gives_True])
    apply (rule gives_bind [OF gives_True], clarify, rule gives_bind [OF classify_result])
    apply (rule scored_summary_wf [OF assms], assumption+)
    done
qed

section \<open>What a run does to an observation\<close>

definition acts :: "('w \<Rightarrow> 'v) \<Rightarrow> ('v \<Rightarrow> bool) \<Rightarrow> ('w, 'a) state \<Rightarrow> ('v \<Rightarrow> 'a \<Rightarrow> 'v \<Rightarrow> bool) \<Rightarrow> bool" where
  "acts obs P m R \<longleftrightarrow> (\<forall>w r w'. P (obs w) \<longrightarrow> run_state m w = (r, w') \<longrightarrow> R (obs w) r (obs w'))"

lemma actsD: "acts obs P m R \<Longrightarrow> run_state m w = (r, w') \<Longrightarrow> P (obs w) \<Longrightarrow> R (obs w) r (obs w')"
  by (simp add: acts_def)

lemma acts_return: "(\<And>v. P v \<Longrightarrow> R v x v) \<Longrightarrow> acts obs P (State_Monad.return x) R"
  by (simp add: acts_def)

lemma acts_bind:
  assumes "keeps obs m" and "gives m Q" and "\<And>x. Q x \<Longrightarrow> acts obs P (f x) R"
  shows "acts obs P (State_Monad.bind m f) R"
  unfolding acts_def
proof (intro allI impI)
  fix w r w' assume w: "P (obs w)" and run: "run_state (State_Monad.bind m f) w = (r, w')"
  obtain x w1 where x: "run_state m w = (x, w1)" by (meson surj_pair)
  with run have "run_state (f x) w1 = (r, w')" by (simp add: run_state_bind)
  moreover have "obs w1 = obs w" using assms(1) x by (rule keepsD)
  ultimately show "R (obs w) r (obs w')" using actsD [OF assms(3) [OF givesD [OF assms(2) x]]] w by metis
qed

lemma acts_io_bind:
  assumes "keeps obs m" and "gives m (on_ok Q)" and "\<And>v e. P v \<Longrightarrow> R v (Inl e) v"
    and "\<And>x. Q x \<Longrightarrow> acts obs P (f x) R"
  shows "acts obs P (io_bind m f) R"
  unfolding io_bind_def
  by (rule acts_bind [OF assms(1,2)]) (use assms(3,4) in \<open>auto split: sum.split intro: acts_return\<close>)

text \<open>What follows a write and cannot fail.\<close>

lemma acts_then:
  assumes "acts obs P m R" and "keeps obs n" and "gives n (\<lambda>r. r = Inr ())"
  shows "acts obs P (io_bind m (\<lambda>_ :: unit. n)) R"
  unfolding acts_def
proof (intro allI impI)
  fix w r w' assume w: "P (obs w)" and run: "run_state (io_bind m (\<lambda>_. n)) w = (r, w')"
  obtain x w1 where x: "run_state m w = (x, w1)" by (meson surj_pair)
  have R: "R (obs w) x (obs w1)" using assms(1) x w by (rule actsD)
  show "R (obs w) r (obs w')"
  proof (cases x)
    case (Inl e)
    with run x R show ?thesis by (simp add: run_io_bind)
  next
    case (Inr u)
    with run x have "run_state n w1 = (r, w')" by (simp add: run_io_bind)
    then have "obs w' = obs w1" "r = Inr ()" using assms(2,3) by (auto dest: keepsD givesD)
    with R Inr show ?thesis by simp
  qed
qed

lemma acts_defer:
  assumes "acts obs P body R" and "keeps obs cleanup"
  shows "acts obs P (with_defer cleanup body) R"
  unfolding acts_def with_defer_def
proof (intro allI impI)
  fix w r w' assume w: "P (obs w)"
    and run: "run_state (State_Monad.bind body (\<lambda>r. State_Monad.bind cleanup (\<lambda>_. State_Monad.return r))) w = (r, w')"
  obtain x w1 where x: "run_state body w = (x, w1)" by (meson surj_pair)
  obtain u w2 where u: "run_state cleanup w1 = (u, w2)" by (meson surj_pair)
  from run x u have "r = x" "w' = w2" by (simp_all add: run_state_bind)
  with actsD [OF assms(1) x w] keepsD [OF assms(2) u] show "R (obs w) r (obs w')" by simp
qed

text \<open>All ports but the writer keep an observation.\<close>

definition analysis_keeps :: "('w \<Rightarrow> 'v) \<Rightarrow> 'w AnalysisPipeline \<Rightarrow> bool" where
  "analysis_keeps obs p \<longleftrightarrow>
     (\<forall>f i. ap_credentialReader p = Some f \<longrightarrow> keeps obs (f i)) \<and>
     (\<forall>f u b. ap_branchSHAResolver p = Some f \<longrightarrow> keeps obs (f u b)) \<and>
     (\<forall>f u b. ap_acquirer p = Some f \<longrightarrow> keeps obs (f u b) \<and> gives (f u b) (on_ok (\<lambda>(path, sha, cleanup). keeps obs cleanup))) \<and>
     (\<forall>f ws. ap_detector p = Some f \<longrightarrow> keeps obs (f ws)) \<and> (\<forall>(eco, f) \<in> set (ap_parsers p). \<forall>ws. keeps obs (f ws eco)) \<and>
     (\<forall>f ws ts. ap_frameworkDetector p = Some f \<longrightarrow> keeps obs (f ws ts)) \<and>
     (\<forall>f eco pkg. ap_resolver p = Some f \<longrightarrow> keeps obs (f eco pkg)) \<and> (\<forall>f ds. ap_scanner p = Some f \<longrightarrow> keeps obs (f ds)) \<and>
     (\<forall>f ws l. ap_graphBuilder p = Some f \<longrightarrow> keeps obs (f ws l)) \<and> (\<forall>f ws l. ap_cardProvider p = Some f \<longrightarrow> keeps obs (f ws l)) \<and>
     (\<forall>f es. ap_classifier p = Some f \<longrightarrow> keeps obs (f es)) \<and>
     (\<forall>f es mc cs bs. ap_scorer p = Some f \<longrightarrow> keeps obs (f es mc cs bs)) \<and>
     (\<forall>f i s u b. ap_decomposeEnqueuer p = Some f \<longrightarrow> keeps obs (f i s u b))"

lemma clone_url_keeps: "analysis_keeps obs p \<Longrightarrow> keeps obs (clone_url p job)"
  unfolding clone_url_def by (auto simp: analysis_keeps_def split: option.split intro!: keeps_intros)

lemma parse_manifests_keeps:
  "\<forall>(eco, f) \<in> set ps. \<forall>ws. keeps obs (f ws eco) \<Longrightarrow> keeps obs (parse_manifests ps ws ts deps)"
proof (induction ps arbitrary: ts deps)
  case (Cons q ps)
  then show ?case by (cases q) (auto simp del: append.simps intro!: keeps_intros)
qed simp

lemma resolve_versions_keeps:
  "(\<And>eco pkg. keeps obs (latest eco pkg)) \<Longrightarrow> keeps obs (resolve_versions latest index deps ts)"
  by (induction deps arbitrary: ts) (auto split: option.split sum.split intro!: keeps_bind)

lemma build_graph_keeps: "(\<And>l. keeps obs (build ws l)) \<Longrightarrow> keeps obs (build_graph build ws langs)"
  by (induction langs) (auto intro!: keeps_bind)

lemma extract_cards_keeps: "(\<And>l. keeps obs (extract ws l)) \<Longrightarrow> keeps obs (extract_cards extract ws langs)"
  by (induction langs) (auto intro!: keeps_bind)

lemma analyse_keeps:
  assumes "analysis_keeps obs p"
  shows "keeps obs (analyse p job ws sha)"
proof -
  note k = assms [unfolded analysis_keeps_def]
  have "keeps obs (stage_inventory p ws)" for ws
    unfolding stage_inventory_def using k by (auto split: option.split intro!: keeps_intros)
  moreover have "keeps obs (stage_manifests p ws ts)" for ws ts
    unfolding stage_manifests_def using k by (auto intro: parse_manifests_keeps)
  moreover have "keeps obs (stage_frameworks p ws ts)" for ws ts
    unfolding stage_frameworks_def using k by (auto split: option.split intro!: keeps_intros)
  moreover have "keeps obs (stage_versions p ds ts)" for ds ts
    unfolding stage_versions_def using k by (auto split: option.split intro!: resolve_versions_keeps)
  moreover have "keeps obs (stage_vulnerabilities p ds)" for ds
    unfolding stage_vulnerabilities_def using k by (auto split: option.split intro!: keeps_intros)
  moreover have "keeps obs (stage_graph p ws ls)" for ws ls
    unfolding stage_graph_def using k by (auto split: option.split intro!: build_graph_keeps)
  moreover have "keeps obs (stage_cards p ws ls)" for ws ls
    unfolding stage_cards_def using k by (auto split: option.split intro!: extract_cards_keeps)
  moreover have "keeps obs (stage_classify p g)" for g
    unfolding stage_classify_def using k by (auto split: option.split intro!: keeps_intros)
  moreover have "keeps obs (stage_score p g mc cs bs)" for g mc cs bs
    unfolding stage_score_def using k by (auto split: option.split intro!: keeps_bind)
  ultimately show ?thesis
    unfolding analyse_def by (auto split: prod.split simp: Let_def intro!: keeps_io_bind keeps_bind)
qed

lemma enqueue_keeps: "analysis_keeps obs p \<Longrightarrow> keeps obs (enqueue_decompose p i s u b)"
  unfolding enqueue_decompose_def by (auto simp: analysis_keeps_def split: option.split intro!: keeps_intros)

lemma enqueue_gives: "gives (enqueue_decompose p i s u b) (\<lambda>r. r = Inr ())"
  by (auto simp: enqueue_decompose_def gives_def run_io_ignore split: option.split)

definition for_job :: "AnalysisJob \<Rightarrow> AnalysisSummary \<Rightarrow> bool" where
  "for_job job s \<longleftrightarrow> as_Identifier s = aj_SummaryID job \<and> as_MigrationId s = aj_MigrationID job"

lemma analyse_for_job: "gives (analyse p job ws sha) (on_ok (for_job job))"
  unfolding analyse_def
  by (rule gives_io_bind [OF gives_any], rule gives_io_bind [OF gives_any], clarify, (rule gives_bind [OF gives_True])+)
    (auto simp: Let_def for_job_def split: prod.split intro!: gives_bind [OF gives_True])

text \<open>A run is one of the two writes, or it stops before it.\<close>

lemma analysis_run_acts:
  assumes keep: "analysis_keeps obs p" and sw: "ap_writer p = Some sw"
    and find: "\<And>i b. keeps obs (writer_FindCompletedForBranch sw i b)"
    and stop: "\<And>v e. P v \<Longrightarrow> R v (Inl e) v"
    and final: "\<And>url s. for_job job s \<Longrightarrow> acts obs P (write_summary p job url s) R"
    and reuse: "\<And>url s. aj_MigrationID job \<noteq> 0 \<Longrightarrow> acts obs P (reuse_analysis p job url s) R"
  shows "acts obs P (analysis_Run p job) R"
proof -
  have full: "acts obs P (io_bind (analyse p job ws sha) (write_summary p job url)) R" for ws sha url
    by (rule acts_io_bind [OF analyse_keeps [OF keep] analyse_for_job stop final])
  have full: "acts obs P (full_analysis p job url) R" for url
  proof (cases "ap_acquirer p")
    case None
    with full show ?thesis by (simp add: full_analysis_def)
  next
    case (Some acquire)
    then have "keeps obs (acquire url (aj_DefaultBranch job))"
      and "gives (acquire url (aj_DefaultBranch job)) (on_ok (\<lambda>(path, sha, cleanup). keeps obs cleanup))"
      using keep by (auto simp: analysis_keeps_def)
    then have "keeps obs (io_wrap ''stage 1 (acquire): '' (acquire url (aj_DefaultBranch job)))"
      and "gives (io_wrap ''stage 1 (acquire): '' (acquire url (aj_DefaultBranch job)))
        (on_ok (\<lambda>(path, sha, cleanup). keeps obs cleanup))"
      by - (erule wrapped_keeps, erule gives_wrap)
    then show ?thesis unfolding full_analysis_def Some Let_def option.case
      by (rule acts_io_bind) (use stop full in \<open>auto intro: acts_defer\<close>)
  qed
  have reusable: "keeps obs (reusable_summary p job url)" for url
    unfolding reusable_summary_def sw using keep find
    by (auto simp: analysis_keeps_def split: option.split sum.split intro!: keeps_bind)
  have linked: "gives (reusable_summary p job url) (on_ok (\<lambda>r. r \<noteq> None \<longrightarrow> aj_MigrationID job \<noteq> 0))" for url
    by (auto simp: reusable_summary_def split: option.split sum.split intro!: gives_bind [OF gives_True])
  show ?thesis
    unfolding analysis_Run_def
    by (rule acts_bind [OF clone_url_keeps [OF keep] gives_True], rule acts_io_bind [OF reusable linked])
      (use stop full reuse in \<open>auto split: option.split\<close>)
qed

section \<open>Where an error comes from\<close>

definition fails_with :: "(go_error \<Rightarrow> bool) \<Rightarrow> go_error + 'a \<Rightarrow> bool" where
  "fails_with E r = (case r of Inl e \<Rightarrow> E e | Inr x \<Rightarrow> True)"

lemma fails_with_simps [simp]: "fails_with E (Inl e) = E e" "fails_with E (Inr x)"
  by (simp_all add: fails_with_def)

lemma fails_io_bind:
  "gives m (fails_with E) \<Longrightarrow> (\<And>x. gives (f x) (fails_with E)) \<Longrightarrow> gives (io_bind m f) (fails_with E)"
  unfolding io_bind_def by (erule gives_bind) (auto split: sum.split)

lemma fails_wrap: "(\<And>e. E (wrap_error pre e [])) \<Longrightarrow> gives (io_wrap pre m) (fails_with E)"
  unfolding io_wrap_def by (rule gives_bind [OF gives_True]) (auto split: sum.split)

lemma fails_defer: "gives body Q \<Longrightarrow> gives (with_defer cleanup body) Q"
  unfolding with_defer_def by (erule gives_bind) (auto intro: gives_bind [OF gives_True])

text \<open>The errors of a job: the acquisition, the inventory, a manifest, or a write.\<close>

definition stage_error :: "go_error \<Rightarrow> bool" where
  "stage_error e \<longleftrightarrow> (\<exists>cause eco. e = wrap_error ''stage 1 (acquire): '' cause [] \<or>
     e = wrap_error ''stage 2 (inventory): '' cause [] \<or>
     e = wrap_error (''stage 3 (manifests/'' @ ecosystem_text eco @ ''): '') cause [])"

definition write_error :: "'w SummaryWriter \<Rightarrow> go_error \<Rightarrow> bool" where
  "write_error sw e \<longleftrightarrow>
     (\<exists>s w w'. run_state (writer_Write sw s) w = (Inl e, w')) \<or> (\<exists>cause. e = wrap_error ''dedup WriteReuse: '' cause [])"

lemma stage_errorI: "stage_error (wrap_error ''stage 1 (acquire): '' cause [])"
  "stage_error (wrap_error ''stage 2 (inventory): '' cause [])"
  "stage_error (wrap_error (''stage 3 (manifests/'' @ ecosystem_text eco @ ''): '') cause [])"
  unfolding stage_error_def by blast+

lemma manifests_fail: "gives (parse_manifests ps ws ts deps) (fails_with stage_error)"
proof (induction ps arbitrary: ts deps)
  case (Cons q ps)
  show ?case
    by (cases q) (simp only: parse_manifests.simps fails_io_bind fails_wrap stage_errorI Cons.IH)
qed simp

lemma analyse_fails: "gives (analyse p job ws sha) (fails_with stage_error)"
proof -
  have "gives (stage_inventory p ws) (fails_with stage_error)"
    unfolding stage_inventory_def by (auto simp del: append.simps split: option.split intro!: fails_wrap stage_errorI)
  moreover have "gives (stage_manifests p ws ts) (fails_with stage_error)" for ts
    unfolding stage_manifests_def by (simp add: manifests_fail)
  ultimately show ?thesis
    unfolding analyse_def
    by (intro fails_io_bind) (auto simp: Let_def split: prod.split intro!: gives_bind [OF gives_True] split del: if_split)
qed

lemma run_fails:
  assumes sw: "ap_writer p = Some sw"
  shows "gives (analysis_Run p job) (fails_with (\<lambda>e. stage_error e \<or> write_error sw e))"
proof -
  let ?E = "fails_with (\<lambda>e. stage_error e \<or> write_error sw e)"
  have enqueue: "gives (enqueue_decompose p i s u b) (fails_with E)" for i s u b E
    using enqueue_gives [of p i s u b] by (auto simp: gives_def fails_with_def split: sum.splits)
  have "gives (writer_Write sw s) ?E" for s
    unfolding gives_def fails_with_def write_error_def by (auto split: sum.split) (metis surj_pair fst_conv)
  then have "gives (write_summary p job url s) ?E" for url s
    unfolding write_summary_def sw option.case by (intro fails_io_bind) (auto intro: enqueue)
  moreover have "gives (analyse p job ws sha) ?E" for ws sha
    using analyse_fails [of p job ws sha] by (auto simp: gives_def fails_with_def split: sum.splits)
  ultimately have full: "gives (io_bind (analyse p job ws sha) (write_summary p job url)) ?E" for ws sha url
    by (rule fails_io_bind [rotated])
  have "gives (full_analysis p job url) ?E" for url
    unfolding full_analysis_def Let_def
    by (auto simp del: append.simps split: option.split intro!: full fails_io_bind fails_wrap stage_errorI fails_defer)
  moreover have "gives (reuse_analysis p job url s) ?E" for url s
    unfolding reuse_analysis_def sw option.case io_ignore_def
    by (intro fails_io_bind fails_wrap gives_bind [OF gives_True] enqueue) (auto simp: write_error_def)
  moreover have "gives (reusable_summary p job url) ?E" for url
    unfolding reusable_summary_def sw
    by (auto split: option.split sum.split intro!: gives_bind [OF gives_True])
  ultimately show ?thesis
    unfolding analysis_Run_def by (intro gives_bind [OF gives_True] fails_io_bind) (auto split: option.split)
qed

section \<open>The contract of the summary writer\<close>

definition in_analysis :: "(u64 \<rightharpoonup> Migration) \<Rightarrow> u64 \<Rightarrow> Migration \<Rightarrow> bool" where
  "in_analysis V i m \<longleftrightarrow> V i = Some m \<and> mig_DeleteTime m = None \<and> mig_State m = MIGRATION_STATE_ANALYZING"

text \<open>The migration goes on to the design with a summary, or it fails.\<close>

definition analysed_by :: "u64 \<Rightarrow> u64 \<Rightarrow> bool \<Rightarrow> (u64 \<rightharpoonup> Migration) \<Rightarrow> (u64 \<rightharpoonup> Migration) \<Rightarrow> bool" where
  "analysed_by i s reused V V' \<longleftrightarrow> (\<exists>m t. in_analysis V i m \<and>
     V' = V(i \<mapsto> m\<lparr>mig_State := MIGRATION_STATE_DESIGNING, mig_AnalysisSummaryId := s,
       mig_AnalysisReused := mig_AnalysisReused m \<or> reused, mig_UpdateTime := Some t\<rparr>))"

definition given_up :: "u64 \<Rightarrow> (u64 \<rightharpoonup> Migration) \<Rightarrow> (u64 \<rightharpoonup> Migration) \<Rightarrow> bool" where
  "given_up i V V' \<longleftrightarrow> (\<exists>m t. in_analysis V i m \<and>
     V' = V(i \<mapsto> m\<lparr>mig_State := MIGRATION_STATE_FAILED, mig_UpdateTime := Some t\<rparr>))"

definition job_analysed :: "AnalysisJob \<Rightarrow> (u64 \<rightharpoonup> Migration) \<Rightarrow> (u64 \<rightharpoonup> Migration) \<Rightarrow> bool" where
  "job_analysed job V V' \<longleftrightarrow> analysed_by (aj_MigrationID job) (aj_SummaryID job) False V V' \<or>
     (\<exists>s. analysed_by (aj_MigrationID job) s True V V')"

lemma analysed_not_given_up: "job_analysed job V V' \<Longrightarrow> \<not> given_up (aj_MigrationID job) V' V''"
  by (auto simp: job_analysed_def analysed_by_def given_up_def in_analysis_def)

definition is_panic :: "go_error \<Rightarrow> bool" where
  "is_panic e \<longleftrightarrow> (\<exists>s. e = Panic s)"

lemma task_run:
  assumes "run_state (analysis_Run p job) w = (q, w1)"
  shows "run_state (run_analysis_task p cloneError skip lastAttempt (Inr job)) w =
    (case q of Inr _ \<Rightarrow> (Inr (), w1)
     | Inl e \<Rightarrow> (Inl e, if is_panic e \<or> \<not> lastAttempt then w1
         else let w2 = snd (run_state (analysis_MarkAnalysisFailed p (aj_SummaryID job) (analysisFailureReason cloneError e)) w1)
              in if aj_MigrationID job = 0 then w2
                 else snd (run_state (analysis_MarkFailed p (aj_MigrationID job) (analysisFailureReason cloneError e)) w2)))"
proof (cases q)
  case (Inl e)
  with assms show ?thesis
    by (cases e) (simp_all add: run_analysis_task_def run_state_bind run_io_ignore is_panic_def Let_def)
qed (simp add: assms run_analysis_task_def run_state_bind)

locale summary_writer_port =
  fixes sw :: "'w SummaryWriter" and view :: "'w \<Rightarrow> u64 \<Rightarrow> Migration option" and ok :: "'w \<Rightarrow> bool"
  assumes Write_law:
      "ok w \<Longrightarrow> run_state (writer_Write sw s) w = (r, w') \<Longrightarrow>
         ok w' \<and> (view w' = view w \<or> analysed_by (as_MigrationId s) (as_Identifier s) False (view w) (view w'))"
    and WriteReuse_law:
      "ok w \<Longrightarrow> run_state (writer_WriteReuse sw j i) w = (r, w') \<Longrightarrow>
         ok w' \<and> (view w' = view w \<or> analysed_by i j True (view w) (view w'))"
    and MarkFailed_law:
      "ok w \<Longrightarrow> run_state (writer_MarkFailed sw i reason) w = (r, w') \<Longrightarrow>
         ok w' \<and> (view w' = view w \<or> given_up i (view w) (view w'))"
    and summaries_keep: "keeps (\<lambda>w. (ok w, view w)) (writer_MarkAnalysisFailed sw i reason)"
    and lookup_keeps: "keeps (\<lambda>w. (ok w, view w)) (writer_FindCompletedForBranch sw i b)"

locale analysis_env = summary_writer_port sw view ok
  for sw :: "'w SummaryWriter" and view and ok +
  fixes p :: "'w AnalysisPipeline"
  assumes writer: "ap_writer p = Some sw"
    and ports: "analysis_keeps (\<lambda>w. (ok w, view w)) p"
begin

abbreviation obs where "obs \<equiv> \<lambda>w. (ok w, view w)"

abbreviation advances :: "AnalysisJob \<Rightarrow> bool \<times> (u64 \<rightharpoonup> Migration) \<Rightarrow> go_error + unit \<Rightarrow> bool \<times> (u64 \<rightharpoonup> Migration) \<Rightarrow> bool" where
  "advances job v r v' \<equiv> fst v' \<and> (snd v' = snd v \<or> job_analysed job (snd v) (snd v'))"

lemma write_advances:
  assumes "for_job job s"
  shows "acts obs fst (write_summary p job url s) (advances job)"
proof -
  have "acts obs fst (writer_Write sw s) (advances job)"
    using Write_law assms by (fastforce simp: acts_def for_job_def job_analysed_def)
  moreover have "keeps obs (if aj_MigrationID job \<noteq> 0
      then enqueue_decompose p (aj_MigrationID job) (aj_SummaryID job) url (aj_DefaultBranch job) else io_ok ())"
    using enqueue_keeps [OF ports] by simp
  ultimately show ?thesis
    unfolding write_summary_def writer option.case by (rule acts_then) (simp add: enqueue_gives)
qed

lemma reuse_advances: "acts obs fst (reuse_analysis p job url s) (advances job)"
proof -
  have "acts obs fst (io_wrap pre (writer_WriteReuse sw (as_Identifier s) (aj_MigrationID job))) (advances job)" for pre
    using WriteReuse_law by (fastforce simp: acts_def run_io_wrap job_analysed_def split: prod.splits sum.splits)
  then show ?thesis
    unfolding reuse_analysis_def writer option.case
    by (rule acts_then) (auto simp: io_ignore_def intro: summaries_keep enqueue_keeps [OF ports] enqueue_gives gives_bind [OF gives_True])
qed

lemma run_advances: "acts obs fst (analysis_Run p job) (advances job)"
  by (rule analysis_run_acts [OF ports writer lookup_keeps]) (auto intro: write_advances reuse_advances)

lemma task_outcome:
  assumes "ok w" and "run_state (run_analysis_task p cloneError skip lastAttempt (Inr job)) w = (r, w')"
  shows "ok w' \<and> (view w' = view w \<or> job_analysed job (view w) (view w') \<or>
    (isl r \<and> lastAttempt \<and> aj_MigrationID job \<noteq> 0 \<and> given_up (aj_MigrationID job) (view w) (view w')))"
proof -
  obtain q w1 where q: "run_state (analysis_Run p job) w = (q, w1)" by (meson surj_pair)
  note task = assms(2) [unfolded task_run [OF q]]
  have run: "ok w1" "view w1 = view w \<or> job_analysed job (view w) (view w1)"
    using actsD [OF run_advances q] assms(1) by auto
  show ?thesis
  proof (cases "\<exists>e. q = Inl e \<and> \<not> is_panic e \<and> lastAttempt")
    case False
    with task have "w' = w1" by (auto split: sum.splits if_splits)
    with run show ?thesis by auto
  next
    case True
    then obtain e where e: "q = Inl e" "\<not> is_panic e" lastAttempt by blast
    let ?reason = "analysisFailureReason cloneError e"
    obtain u w2 where u: "run_state (writer_MarkAnalysisFailed sw (aj_SummaryID job) ?reason) w1 = (u, w2)" by (meson surj_pair)
    have w2: "ok w2" "view w2 = view w1" using keepsD [OF summaries_keep u] run(1) by simp_all
    obtain u' w3 where u': "run_state (writer_MarkFailed sw (aj_MigrationID job) ?reason) w2 = (u', w3)" by (meson surj_pair)
    from task e u u' have "r = Inl e" "w' = (if aj_MigrationID job = 0 then w2 else w3)"
      by (auto simp: Let_def analysis_MarkAnalysisFailed_def analysis_MarkFailed_def writer split: if_splits)
    with MarkFailed_law [OF w2(1) u'] w2 run(2) e(3) analysed_not_given_up [of job "view w" "view w1" "view w3"]
    show ?thesis by (auto split: if_splits)
  qed
qed

end

text \<open>A writer over stores that answer. A summary that is running lets its migration advance.\<close>

lemma acts_fst:
  "acts obs P m R \<Longrightarrow> (\<And>v. Q v \<Longrightarrow> P (fst v)) \<Longrightarrow> acts (\<lambda>w. (obs w, g w)) Q m (\<lambda>v r v'. R (fst v) r (fst v'))"
  unfolding acts_def by (metis fst_conv)

locale answering_analysis_env = analysis_env sw view ok p
  for sw :: "'w SummaryWriter" and view and ok and p +
  fixes running :: "u64 \<Rightarrow> 'w \<Rightarrow> bool"
  assumes ports_running: "analysis_keeps (\<lambda>w. ((ok w, view w), running i w)) p"
    and lookup_running: "keeps (\<lambda>w. ((ok w, view w), running i w)) (writer_FindCompletedForBranch sw j b)"
    and Write_answers:
      "ok w \<Longrightarrow> running (as_Identifier s) w \<Longrightarrow> as_MigrationId s \<noteq> 0 \<Longrightarrow> in_analysis (view w) (as_MigrationId s) m \<Longrightarrow>
         run_state (writer_Write sw s) w = (r, w') \<Longrightarrow>
         if isl r then view w' = view w else analysed_by (as_MigrationId s) (as_Identifier s) False (view w) (view w')"
    and WriteReuse_answers:
      "ok w \<Longrightarrow> in_analysis (view w) i m \<Longrightarrow> run_state (writer_WriteReuse sw j i) w = (r, w') \<Longrightarrow>
         \<not> isl r \<and> analysed_by i j True (view w) (view w')"
    and MarkFailed_answers:
      "ok w \<Longrightarrow> in_analysis (view w) i m \<Longrightarrow> run_state (writer_MarkFailed sw i reason) w = (r, w') \<Longrightarrow>
         given_up i (view w) (view w')"
begin

abbreviation settles ::
  "AnalysisJob \<Rightarrow> bool \<times> (u64 \<rightharpoonup> Migration) \<Rightarrow> go_error + unit \<Rightarrow> bool \<times> (u64 \<rightharpoonup> Migration) \<Rightarrow> bool" where
  "settles job v r v' \<equiv> fst v' \<and> (if isl r then snd v' = snd v else job_analysed job (snd v) (snd v'))"

abbreviation analysing :: "AnalysisJob \<Rightarrow> Migration \<Rightarrow> bool \<times> (u64 \<rightharpoonup> Migration) \<Rightarrow> bool" where
  "analysing job m v \<equiv> fst v \<and> aj_MigrationID job \<noteq> 0 \<and> in_analysis (snd v) (aj_MigrationID job) m"

lemma write_settles:
  assumes "for_job job s"
  shows "acts (\<lambda>w. (obs w, running (aj_SummaryID job) w)) (\<lambda>v. analysing job m (fst v) \<and> snd v)
    (write_summary p job url s) (\<lambda>v r v'. settles job (fst v) r (fst v'))"
proof -
  have "acts (\<lambda>w. (obs w, running (aj_SummaryID job) w)) (\<lambda>v. analysing job m (fst v) \<and> snd v)
      (writer_Write sw s) (\<lambda>v r v'. settles job (fst v) r (fst v'))"
    unfolding acts_def
  proof (intro allI impI)
    fix w r w' assume w: "analysing job m (fst (obs w, running (aj_SummaryID job) w)) \<and> snd (obs w, running (aj_SummaryID job) w)"
      and run: "run_state (writer_Write sw s) w = (r, w')"
    have "if isl r then view w' = view w else analysed_by (as_MigrationId s) (as_Identifier s) False (view w) (view w')"
      by (rule Write_answers [OF _ _ _ _ run]) (use w assms in \<open>auto simp: for_job_def\<close>)
    moreover have "ok w'" using Write_law [OF _ run] w by simp
    ultimately show "settles job (fst (obs w, running (aj_SummaryID job) w)) r (fst (obs w', running (aj_SummaryID job) w'))"
      using assms by (auto simp: for_job_def job_analysed_def)
  qed
  moreover have "keeps (\<lambda>w. (obs w, running (aj_SummaryID job) w)) (if aj_MigrationID job \<noteq> 0
      then enqueue_decompose p (aj_MigrationID job) (aj_SummaryID job) url (aj_DefaultBranch job) else io_ok ())"
    using enqueue_keeps [OF ports_running] by simp
  ultimately show ?thesis
    unfolding write_summary_def writer option.case by (rule acts_then) (simp add: enqueue_gives)
qed

lemma reuse_settles: "acts obs (analysing job m) (reuse_analysis p job url s) (settles job)"
proof -
  have "acts obs (analysing job m) (io_wrap pre (writer_WriteReuse sw (as_Identifier s) (aj_MigrationID job))) (settles job)" for pre
    unfolding acts_def
  proof (intro allI impI)
    fix w r w' assume w: "analysing job m (obs w)"
      and run: "run_state (io_wrap pre (writer_WriteReuse sw (as_Identifier s) (aj_MigrationID job))) w = (r, w')"
    obtain q w1 where q: "run_state (writer_WriteReuse sw (as_Identifier s) (aj_MigrationID job)) w = (q, w1)" by (meson surj_pair)
    have "\<not> isl q \<and> analysed_by (aj_MigrationID job) (as_Identifier s) True (view w) (view w1)"
      by (rule WriteReuse_answers [OF _ _ q]) (use w in auto)
    moreover have "ok w1" using WriteReuse_law [OF _ q] w by simp
    ultimately show "settles job (obs w) r (obs w')"
      using run q by (cases q) (auto simp: run_io_wrap job_analysed_def)
  qed
  then show ?thesis
    unfolding reuse_analysis_def writer option.case
    by (rule acts_then) (auto simp: io_ignore_def intro: summaries_keep enqueue_keeps [OF ports] enqueue_gives gives_bind [OF gives_True])
qed

lemma run_settles:
  "acts (\<lambda>w. (obs w, running (aj_SummaryID job) w)) (\<lambda>v. analysing job m (fst v) \<and> snd v)
     (analysis_Run p job) (\<lambda>v r v'. settles job (fst v) r (fst v'))"
proof (rule analysis_run_acts [OF ports_running writer lookup_running])
  show "acts (\<lambda>w. (obs w, running (aj_SummaryID job) w)) (\<lambda>v. analysing job m (fst v) \<and> snd v)
      (reuse_analysis p job url s) (\<lambda>v r v'. settles job (fst v) r (fst v'))" for url s
    by (rule acts_fst [OF reuse_settles [where m = m]]) simp
qed (simp, rule write_settles)

lemma task_settles:
  assumes "ok w" and "running (aj_SummaryID job) w" and "aj_MigrationID job \<noteq> 0"
    and "in_analysis (view w) (aj_MigrationID job) m"
    and "run_state (run_analysis_task p cloneError skip True (Inr job)) w = (r, w')"
  shows "case r of Inr _ \<Rightarrow> job_analysed job (view w) (view w')
    | Inl e \<Rightarrow> if is_panic e then view w' = view w else given_up (aj_MigrationID job) (view w) (view w')"
proof -
  obtain q w1 where q: "run_state (analysis_Run p job) w = (q, w1)" by (meson surj_pair)
  note task = assms(5) [unfolded task_run [OF q]]
  have run: "ok w1" "if isl q then view w1 = view w else job_analysed job (view w) (view w1)"
    using actsD [OF run_settles q, of m] assms(1-4) by (simp_all split: if_splits)
  show ?thesis
  proof (cases "\<exists>e. q = Inl e \<and> \<not> is_panic e")
    case False
    with task run show ?thesis by (cases q) auto
  next
    case True
    then obtain e where e: "q = Inl e" "\<not> is_panic e" by blast
    let ?reason = "analysisFailureReason cloneError e"
    obtain u w2 where u: "run_state (writer_MarkAnalysisFailed sw (aj_SummaryID job) ?reason) w1 = (u, w2)" by (meson surj_pair)
    have w2: "ok w2" "view w2 = view w" using keepsD [OF summaries_keep u] run e(1) by simp_all
    obtain u' w3 where u': "run_state (writer_MarkFailed sw (aj_MigrationID job) ?reason) w2 = (u', w3)" by (meson surj_pair)
    from task e u u' assms(3) have "r = Inl e" "w' = w3"
      by (auto simp: Let_def analysis_MarkAnalysisFailed_def analysis_MarkFailed_def writer split: if_splits)
    with MarkFailed_answers [OF w2(1) _ u', of m] w2(2) assms(4) e show ?thesis by simp
  qed
qed

end

section \<open>The Mongo summary writer meets the contract\<close>

lemma analyzing_update:
  assumes W: "workers_ok W C docs" and ok: "docs_ok C (docs w)"
    and run: "run_state (UpdateOne (ws_migrations W) (in_state i MIGRATION_STATE_ANALYZING) f) w = (y, w')"
    and f: "\<forall>d m. doc_reads C d m \<longrightarrow> doc_reads C (f d) (g m) \<and> doc_Identifier (f d) = doc_Identifier d"
  shows "docs_ok C (docs w')"
    and "doc_view C (docs w') = doc_view C (docs w) \<or>
      (\<exists>m. in_analysis (doc_view C (docs w)) i m \<and> doc_view C (docs w') = (doc_view C (docs w))(i \<mapsto> g m))"
    and "y = Inr n \<Longrightarrow> in_analysis (doc_view C (docs w)) i m \<Longrightarrow>
      n \<noteq> 0 \<and> doc_view C (docs w') = (doc_view C (docs w))(i \<mapsto> g m)"
proof -
  let ?P = "\<lambda>m m'. mig_Identifier m = i \<and> mig_State m = MIGRATION_STATE_ANALYZING \<and> m' = g m"
  have "changes C (docs w) (docs w') ?P \<and> (case y of Inl _ \<Rightarrow> True
    | Inr n \<Rightarrow> if n = 0 then (\<forall>d \<in> set (docs w). \<not> in_state i MIGRATION_STATE_ANALYZING d) \<and> docs w' = docs w
       else \<exists>m m'. doc_view C (docs w) i = Some m \<and> ?P m m' \<and> doc_view C (docs w') = (doc_view C (docs w))(i \<mapsto> m'))"
    by (rule update_changes [OF workers_okD(5) [OF W] ok run])
      (use f decode_keeps in \<open>fastforce simp: in_state_def\<close>)+
  then have ch: "changes C (docs w) (docs w') ?P"
    and ans: "y = Inr n \<Longrightarrow> if n = 0 then (\<forall>d \<in> set (docs w). \<not> in_state i MIGRATION_STATE_ANALYZING d)
      else \<exists>m. doc_view C (docs w) i = Some m \<and> doc_view C (docs w') = (doc_view C (docs w))(i \<mapsto> g m)" for n
    by (auto split: sum.splits if_splits)
  have id: "j = i" if "doc_view C (docs w) j = Some m" "mig_Identifier m = i" for j m
    using that doc_view_Some [OF ok] decode_fields by metis
  show "docs_ok C (docs w')" using ch by (simp add: changes_def)
  show "doc_view C (docs w') = doc_view C (docs w) \<or>
      (\<exists>m. in_analysis (doc_view C (docs w)) i m \<and> doc_view C (docs w') = (doc_view C (docs w))(i \<mapsto> g m))"
    using ch id unfolding changes_def in_analysis_def by metis
  show "n \<noteq> 0 \<and> doc_view C (docs w') = (doc_view C (docs w))(i \<mapsto> g m)"
    if "y = Inr n" "in_analysis (doc_view C (docs w)) i m"
  proof -
    have "\<exists>d \<in> set (docs w). in_state i MIGRATION_STATE_ANALYZING d"
      using live_doc [OF ok, of i m] that(2) by (auto simp: in_state_def in_analysis_def)
    with ans [OF that(1)] that(2) show ?thesis by (auto simp: in_analysis_def split: if_splits)
  qed
qed

abbreviation migrations :: "'b Codecs \<Rightarrow> ('w \<Rightarrow> 'b mongoMigrationDoc list) \<Rightarrow> 'w \<Rightarrow> u64 \<rightharpoonup> Migration" where
  "migrations C docs w \<equiv> doc_view C (docs w)"

definition stores_answer :: "('w, 'b) WorkerStores \<Rightarrow> ('w \<Rightarrow> 'b mongoAnalysisSummaryDoc list) \<Rightarrow> bool" where
  "stores_answer W adocs \<longleftrightarrow> workers_answer W \<and> collection_ok sdoc_Identifier (adb_coll (ws_analyses W)) adocs \<and>
     keeps adocs (ws_now W) \<and> (\<forall>q f w. \<exists>n w'. run_state (UpdateOne (adb_coll (ws_analyses W)) q f) w = (Inr n, w'))"

definition summary_running :: "('w \<Rightarrow> 'b mongoAnalysisSummaryDoc list) \<Rightarrow> u64 \<Rightarrow> 'w \<Rightarrow> bool" where
  "summary_running adocs i w \<longleftrightarrow> (\<exists>d \<in> set (adocs w). is_running i d)"

lemma summary_matched:
  assumes "stores_answer W adocs" and "summary_running adocs i w"
    and "run_state (UpdateOne (adb_coll (ws_analyses W)) (is_running i) f) w = (y, w')"
  shows "\<exists>n. y = Inr n \<and> n \<noteq> 0"
proof -
  obtain n where n: "y = Inr n" using assms(1,3) unfolding stores_answer_def by (metis prod.inject)
  then show ?thesis
    using collection_UpdateOne [of sdoc_Identifier "adb_coll (ws_analyses W)" adocs, OF _ assms(3)] assms(1,2)
    by (auto simp: stores_answer_def summary_running_def split: if_splits)
qed

text \<open>The update that sends a migration on to the design.\<close>

lemma advance_update:
  assumes W: "workers_ok W C docs" and ok: "docs_ok C (docs w)"
    and run: "run_state (UpdateOne (ws_migrations W) (in_state i MIGRATION_STATE_ANALYZING) f) w = (y, w')"
    and f: "f = (\<lambda>d. d\<lparr>doc_State := MIGRATION_STATE_DESIGNING, doc_AnalysisSummaryID := s,
        doc_AnalysisReused := doc_AnalysisReused d \<or> reused, doc_UpdateTime := Some now\<rparr>)"
  shows "docs_ok C (docs w')"
    and "migrations C docs w' = migrations C docs w \<or> analysed_by i s reused (migrations C docs w) (migrations C docs w')"
    and "workers_answer W \<Longrightarrow> in_analysis (migrations C docs w) i m \<Longrightarrow>
      \<not> isl y \<and> analysed_by i s reused (migrations C docs w) (migrations C docs w')"
proof -
  let ?g = "\<lambda>m. m\<lparr>mig_State := MIGRATION_STATE_DESIGNING, mig_AnalysisSummaryId := s,
      mig_AnalysisReused := mig_AnalysisReused m \<or> reused, mig_UpdateTime := Some now\<rparr>"
  have reads: "\<forall>d m. doc_reads C d m \<longrightarrow> doc_reads C (f d) (?g m) \<and> doc_Identifier (f d) = doc_Identifier d"
    using decode_keeps decode_reused by (fastforce simp: f)
  note upd = analyzing_update [where g = ?g, OF W ok run reads]
  have on: "analysed_by i s reused (migrations C docs w) (migrations C docs w')"
    if "in_analysis (migrations C docs w) i m" "migrations C docs w' = (migrations C docs w)(i \<mapsto> ?g m)" for m
    using that by (auto simp: analysed_by_def)
  show "docs_ok C (docs w')" by (rule upd(1))
  show "migrations C docs w' = migrations C docs w \<or> analysed_by i s reused (migrations C docs w) (migrations C docs w')"
    using upd(2) on by blast
  show "\<not> isl y \<and> analysed_by i s reused (migrations C docs w) (migrations C docs w')"
    if ans: "workers_answer W" and m: "in_analysis (migrations C docs w) i m"
  proof -
    obtain n where n: "y = Inr n" using ans run unfolding workers_answer_def by (metis prod.inject)
    with upd(3) [OF n m] on [OF m] show ?thesis by simp
  qed
qed

lemma sw_Write_run:
  assumes W: "workers_ok W C docs" and ok: "docs_ok C (docs w)" and run: "run_state (sw_Write W s) w = (r, w')"
  shows "docs_ok C (docs w') \<and> (migrations C docs w' = migrations C docs w \<or>
      analysed_by (as_MigrationId s) (as_Identifier s) False (migrations C docs w) (migrations C docs w')) \<and>
    (stores_answer W adocs \<and> summary_running adocs (as_Identifier s) w \<and> as_MigrationId s \<noteq> 0 \<and>
       in_analysis (migrations C docs w) (as_MigrationId s) m \<longrightarrow>
     (if isl r then migrations C docs w' = migrations C docs w
      else analysed_by (as_MigrationId s) (as_Identifier s) False (migrations C docs w) (migrations C docs w')))"
proof -
  let ?i = "as_MigrationId s"
  obtain now w1 where now: "run_state (ws_now W) w = (now, w1)" by (meson surj_pair)
  have w1: "docs w1 = docs w" using workers_okD(1) [OF W] now by (rule keepsD)
  show ?thesis
  proof (cases "summary_setDoc (adb_codec (ws_analyses W)) s now")
    case (Inl e)
    with run now w1 ok show ?thesis by (auto simp: sw_Write_def io_unfold)
  next
    case (Inr f)
    obtain y w2 where y: "run_state (UpdateOne (adb_coll (ws_analyses W)) (is_running (as_Identifier s)) f) w1 = (y, w2)"
      by (meson surj_pair)
    have w2: "docs w2 = docs w" using keepsD [OF workers_okD(2) [OF W] y] w1 by simp
    have matched: "\<exists>n. y = Inr n \<and> n \<noteq> 0" if "stores_answer W adocs" "summary_running adocs (as_Identifier s) w"
    proof (rule summary_matched [OF that(1) _ y])
      show "summary_running adocs (as_Identifier s) w1"
        using that now by (auto simp: stores_answer_def summary_running_def dest!: keepsD)
    qed
    show ?thesis
    proof (cases "\<exists>n. y = Inr n \<and> n \<noteq> 0 \<and> ?i \<noteq> 0")
      case False
      then have "w' = w2" using run now Inr y by (cases y) (auto simp: sw_Write_def io_unfold split: if_splits)
      with w2 ok False matched show ?thesis by auto
    next
      case True
      let ?f = "\<lambda>d. d\<lparr>doc_State := MIGRATION_STATE_DESIGNING, doc_AnalysisSummaryID := as_Identifier s,
          doc_UpdateTime := Some now\<rparr>"
      obtain z w3 where z: "run_state (UpdateOne (ws_migrations W) (in_state ?i MIGRATION_STATE_ANALYZING) ?f) w2 = (z, w3)"
        by (meson surj_pair)
      have end_w: "w' = w3" "isl r \<longleftrightarrow> isl z" using run now Inr y True z by (cases z; auto simp: sw_Write_def io_unfold)+
      have ok2: "docs_ok C (docs w2)" using ok w2 by simp
      have f: "?f = (\<lambda>d. d\<lparr>doc_State := MIGRATION_STATE_DESIGNING, doc_AnalysisSummaryID := as_Identifier s,
          doc_AnalysisReused := doc_AnalysisReused d \<or> False, doc_UpdateTime := Some now\<rparr>)" by simp
      from advance_update [OF W ok2 z f, unfolded w2] end_w show ?thesis by (auto simp: stores_answer_def)
    qed
  qed
qed

lemma sw_WriteReuse_run:
  assumes W: "workers_ok W C docs" and ok: "docs_ok C (docs w)" and run: "run_state (sw_WriteReuse W j i) w = (r, w')"
  shows "docs_ok C (docs w') \<and>
    (migrations C docs w' = migrations C docs w \<or> analysed_by i j True (migrations C docs w) (migrations C docs w')) \<and>
    (stores_answer W adocs \<and> in_analysis (migrations C docs w) i m \<longrightarrow>
     \<not> isl r \<and> analysed_by i j True (migrations C docs w) (migrations C docs w'))"
proof -
  obtain now w1 where now: "run_state (ws_now W) w = (now, w1)" by (meson surj_pair)
  have w1: "docs w1 = docs w" using workers_okD(1) [OF W] now by (rule keepsD)
  let ?f = "\<lambda>d. d\<lparr>doc_State := MIGRATION_STATE_DESIGNING, doc_AnalysisSummaryID := j, doc_AnalysisReused := True,
      doc_UpdateTime := Some now\<rparr>"
  let ?link = "UpdateOne (adb_coll (ws_analyses W)) (\<lambda>d. sdoc_Identifier d = j \<and> sdoc_MigrationID d = 0)
      (\<lambda>d. d\<lparr>sdoc_MigrationID := i, sdoc_UpdateTime := Some now\<rparr>)"
  obtain y w2 where y: "run_state (UpdateOne (ws_migrations W) (in_state i MIGRATION_STATE_ANALYZING) ?f) w1 = (y, w2)"
    by (meson surj_pair)
  obtain z w3 where z: "run_state ?link w2 = (z, w3)" by (meson surj_pair)
  have w3: "docs w3 = docs w2" using workers_okD(2) [OF W] z by (rule keepsD)
  have end_w: "docs w' = docs w2" using run now y z w3 by (auto simp: sw_WriteReuse_def io_unfold split: sum.splits)
  have out: "\<not> isl r" if yes: "\<not> isl y" and ans: "stores_answer W adocs"
  proof -
    have "\<exists>n v. run_state ?link w2 = (Inr n, v)" using ans by (simp add: stores_answer_def)
    then obtain n where n: "z = Inr n" using z by auto
    obtain k where k: "y = Inr k" using yes by (cases y) auto
    have "r = Inr ()" using run now y z unfolding n k by (simp add: sw_WriteReuse_def io_unfold)
    then show ?thesis by simp
  qed
  have ok1: "docs_ok C (docs w1)" using ok w1 by simp
  have f: "?f = (\<lambda>d. d\<lparr>doc_State := MIGRATION_STATE_DESIGNING, doc_AnalysisSummaryID := j,
      doc_AnalysisReused := doc_AnalysisReused d \<or> True, doc_UpdateTime := Some now\<rparr>)" by simp
  from advance_update [OF W ok1 y f, unfolded w1] end_w out show ?thesis by (auto simp: stores_answer_def)
qed

lemma sw_MarkFailed_run:
  assumes W: "workers_ok W C docs" and ok: "docs_ok C (docs w)" and run: "run_state (sw_MarkFailed W i reason) w = (r, w')"
  shows "docs_ok C (docs w') \<and>
    (migrations C docs w' = migrations C docs w \<or> given_up i (migrations C docs w) (migrations C docs w')) \<and>
    (workers_answer W \<and> in_analysis (migrations C docs w) i m \<longrightarrow> given_up i (migrations C docs w) (migrations C docs w'))"
proof -
  obtain now w1 where now: "run_state (ws_now W) w = (now, w1)" by (meson surj_pair)
  have w1: "docs w1 = docs w" using workers_okD(1) [OF W] now by (rule keepsD)
  let ?f = "\<lambda>d. d\<lparr>doc_State := MIGRATION_STATE_FAILED, bson_FailureReason := reason, doc_UpdateTime := Some now\<rparr>"
  let ?g = "\<lambda>m. m\<lparr>mig_State := MIGRATION_STATE_FAILED, mig_UpdateTime := Some now\<rparr>"
  obtain y w2 where y: "run_state (UpdateOne (ws_migrations W) (in_state i MIGRATION_STATE_ANALYZING) ?f) w1 = (y, w2)"
    by (meson surj_pair)
  have end_w: "docs w' = docs w2" using run now y by (auto simp: sw_MarkFailed_def io_unfold split: sum.splits)
  have ok1: "docs_ok C (docs w1)" using ok w1 by simp
  have reads: "\<forall>d m. doc_reads C d m \<longrightarrow> doc_reads C (?f d) (?g m) \<and> doc_Identifier (?f d) = doc_Identifier d"
    using decode_failure by fastforce
  note upd = analyzing_update [where g = ?g, OF W ok1 y reads, unfolded w1, folded end_w]
  have on: "given_up i (migrations C docs w) (migrations C docs w')"
    if "in_analysis (migrations C docs w) i m" "migrations C docs w' = (migrations C docs w)(i \<mapsto> ?g m)" for m
    using that by (auto simp: given_up_def)
  have "\<exists>n. y = Inr n" if "workers_answer W" using that y unfolding workers_answer_def by (metis prod.inject)
  with upd on show ?thesis by blast
qed

text \<open>A pipeline over the stores of the workers.\<close>

definition analysis_over ::
  "('w, 'b) WorkerStores \<Rightarrow> ('w \<Rightarrow> 'b mongoMigrationDoc list) \<Rightarrow> 'w AnalysisPipeline \<Rightarrow> bool" where
  "analysis_over W docs p \<longleftrightarrow> ap_writer p = Some (MongoSummaryWriter W) \<and> analysis_keeps docs p \<and>
     (\<forall>q. keeps docs (adb_FindNewest (ws_analyses W) q))"

text \<open>The other ports leave the summaries alone, too.\<close>

definition summaries_over ::
  "('w, 'b) WorkerStores \<Rightarrow> ('w \<Rightarrow> 'b mongoMigrationDoc list) \<Rightarrow> ('w \<Rightarrow> 'b mongoAnalysisSummaryDoc list) \<Rightarrow>
   'w AnalysisPipeline \<Rightarrow> bool" where
  "summaries_over W docs adocs p \<longleftrightarrow> stores_answer W adocs \<and> analysis_keeps (\<lambda>w. (docs w, adocs w)) p \<and>
     (\<forall>q. keeps (\<lambda>w. (docs w, adocs w)) (adb_FindNewest (ws_analyses W) q))"

lemma analysis_keeps_comp: "analysis_keeps obs p \<Longrightarrow> analysis_keeps (\<lambda>w. g (obs w)) p"
proof -
  assume k: "analysis_keeps obs p"
  have weak: "gives m (on_ok (\<lambda>(path, sha, c). keeps (\<lambda>w. g (obs w)) c))"
    if "gives m (on_ok (\<lambda>(path, sha, c). keeps obs c))" for m
    using that by (fastforce simp: gives_def on_ok_def split: sum.splits intro: keeps_comp [of obs _ g])
  show ?thesis
    using k unfolding analysis_keeps_def by (auto intro!: keeps_comp [of obs _ g] weak)
qed

lemma lookup_over: "(\<And>q. keeps obs (adb_FindNewest (ws_analyses W) q)) \<Longrightarrow> keeps obs (sw_FindCompletedForBranch W i b)"
  unfolding sw_FindCompletedForBranch_def by (intro keeps_io_bind) auto

lemma mongo_summary_writer_port:
  assumes W: "workers_ok W C docs" and find: "\<forall>q. keeps docs (adb_FindNewest (ws_analyses W) q)"
  shows "summary_writer_port (MongoSummaryWriter W) (migrations C docs) (\<lambda>w. docs_ok C (docs w))"
proof
  let ?g = "\<lambda>ds. (docs_ok C ds, doc_view C ds)"
  have "keeps docs (sw_MarkAnalysisFailed W i reason)" for i reason
    unfolding sw_MarkAnalysisFailed_def using workers_okD [OF W] by (auto intro!: keeps_intros)
  then show "keeps (\<lambda>w. (docs_ok C (docs w), migrations C docs w)) (writer_MarkAnalysisFailed (MongoSummaryWriter W) i reason)"
    for i reason by (simp add: MongoSummaryWriter_def keeps_comp [of docs _ ?g])
  show "keeps (\<lambda>w. (docs_ok C (docs w), migrations C docs w)) (writer_FindCompletedForBranch (MongoSummaryWriter W) i b)" for i b
    using keeps_comp [OF lookup_over, of docs W ?g] find by (simp add: MongoSummaryWriter_def)
  fix w w' x i j reason and r :: "go_error + unit"
  assume ok: "docs_ok C (docs w)"
  show "docs_ok C (docs w') \<and> (migrations C docs w' = migrations C docs w \<or>
      analysed_by (as_MigrationId x) (as_Identifier x) False (migrations C docs w) (migrations C docs w'))"
    if "run_state (writer_Write (MongoSummaryWriter W) x) w = (r, w')"
    using sw_Write_run [OF W ok, of x r w'] that by (simp add: MongoSummaryWriter_def)
  show "docs_ok C (docs w') \<and>
      (migrations C docs w' = migrations C docs w \<or> analysed_by i j True (migrations C docs w) (migrations C docs w'))"
    if "run_state (writer_WriteReuse (MongoSummaryWriter W) j i) w = (r, w')"
    using sw_WriteReuse_run [OF W ok, of j i r w'] that by (simp add: MongoSummaryWriter_def)
  show "docs_ok C (docs w') \<and>
      (migrations C docs w' = migrations C docs w \<or> given_up i (migrations C docs w) (migrations C docs w'))"
    if "run_state (writer_MarkFailed (MongoSummaryWriter W) i reason) w = (r, w')"
    using sw_MarkFailed_run [OF W ok, of i reason r w'] that by (simp add: MongoSummaryWriter_def)
qed

lemma mongo_analysis_env:
  assumes W: "workers_ok W C docs" and p: "analysis_over W docs p"
  shows "analysis_env (MongoSummaryWriter W) (migrations C docs) (\<lambda>w. docs_ok C (docs w)) p"
proof (intro analysis_env.intro analysis_env_axioms.intro)
  show "summary_writer_port (MongoSummaryWriter W) (migrations C docs) (\<lambda>w. docs_ok C (docs w))"
    using mongo_summary_writer_port [OF W] p by (simp add: analysis_over_def)
  show "ap_writer p = Some (MongoSummaryWriter W)" using p by (simp add: analysis_over_def)
  show "analysis_keeps (\<lambda>w. (docs_ok C (docs w), migrations C docs w)) p"
    using p analysis_keeps_comp [of docs p "\<lambda>ds. (docs_ok C ds, doc_view C ds)"] by (simp add: analysis_over_def)
qed

lemma mongo_answering_analysis_env:
  assumes W: "workers_ok W C docs" and p: "analysis_over W docs p" and s: "summaries_over W docs adocs p"
  shows "answering_analysis_env (MongoSummaryWriter W) (migrations C docs) (\<lambda>w. docs_ok C (docs w)) p (summary_running adocs)"
proof (intro answering_analysis_env.intro mongo_analysis_env [OF W p] answering_analysis_env_axioms.intro)
  let ?g = "\<lambda>i (ds, ads). ((docs_ok C ds, doc_view C ds), \<exists>d \<in> set ads. is_running i d)"
  let ?obs = "\<lambda>w. (docs w, adocs w)"
  have ans: "stores_answer W adocs" "workers_answer W" using s by (simp_all add: summaries_over_def stores_answer_def)
  show "analysis_keeps (\<lambda>w. ((docs_ok C (docs w), migrations C docs w), summary_running adocs i w)) p" for i
    using s analysis_keeps_comp [of ?obs p "?g i"] by (simp add: summaries_over_def summary_running_def)
  show "keeps (\<lambda>w. ((docs_ok C (docs w), migrations C docs w), summary_running adocs i w))
      (writer_FindCompletedForBranch (MongoSummaryWriter W) j b)" for i j b
    using s keeps_comp [OF lookup_over, of ?obs W "?g i"]
    by (simp add: summaries_over_def summary_running_def MongoSummaryWriter_def)
  fix w w' j i m reason and r :: "go_error + unit"
  assume ok: "docs_ok C (docs w)"
  show "if isl r then migrations C docs w' = migrations C docs w
      else analysed_by (as_MigrationId x) (as_Identifier x) False (migrations C docs w) (migrations C docs w')"
    if "summary_running adocs (as_Identifier x) w" "as_MigrationId x \<noteq> 0"
      "in_analysis (migrations C docs w) (as_MigrationId x) m" "run_state (writer_Write (MongoSummaryWriter W) x) w = (r, w')" for x
    using sw_Write_run [OF W ok, of x r w' adocs m] that ans by (simp add: MongoSummaryWriter_def)
  assume m: "in_analysis (migrations C docs w) i m"
  show "\<not> isl r \<and> analysed_by i j True (migrations C docs w) (migrations C docs w')"
    if "run_state (writer_WriteReuse (MongoSummaryWriter W) j i) w = (r, w')"
    using sw_WriteReuse_run [OF W ok, of j i r w' adocs m] that ans m by (simp add: MongoSummaryWriter_def)
  show "given_up i (migrations C docs w) (migrations C docs w')"
    if "run_state (writer_MarkFailed (MongoSummaryWriter W) i reason) w = (r, w')"
    using sw_MarkFailed_run [OF W ok, of i reason r w' m] that ans m by (simp add: MongoSummaryWriter_def)
qed

section \<open>Working copies\<close>

text \<open>A resource that is acquired, used and released by a deferred function.\<close>

lemma defer_releases:
  assumes law: "\<And>w. case run_state m w of
      (Inl e, w') \<Rightarrow> copies w' = copies w
    | (Inr x, w') \<Rightarrow> copies w' = add_mset (path x) (copies w) \<and>
        (\<forall>v. copies (snd (run_state (release x) v)) = copies v - {#path x#})"
    and body: "\<And>x. keeps copies (body x)"
  shows "keeps copies (io_bind (io_wrap pre m) (\<lambda>x. with_defer (release x) (body x)))"
  unfolding keeps_def
proof (intro allI impI)
  fix w r w' assume run: "run_state (io_bind (io_wrap pre m) (\<lambda>x. with_defer (release x) (body x))) w = (r, w')"
  obtain y w1 where y: "run_state m w = (y, w1)" by (meson surj_pair)
  show "copies w' = copies w"
  proof (cases y)
    case (Inl e)
    with run y law [of w] show ?thesis by (simp add: run_io_bind run_io_wrap)
  next
    case (Inr x)
    obtain q w2 where q: "run_state (body x) w1 = (q, w2)" by (meson surj_pair)
    have "copies w2 = copies w1" using body q by (rule keepsD)
    moreover have "w' = snd (run_state (release x) w2)"
      using run y Inr q by (auto simp: run_io_bind run_io_wrap with_defer_def run_state_bind split: prod.splits)
    ultimately show ?thesis using law [of w] y Inr by simp
  qed
qed

text \<open>The acquirer adds the copy it returns, the function it returns removes it, and nothing else touches a copy.\<close>

definition copies_of :: "('w \<Rightarrow> string multiset) \<Rightarrow> 'w AnalysisPipeline \<Rightarrow> bool" where
  "copies_of copies p \<longleftrightarrow>
     (\<forall>a u b w. ap_acquirer p = Some a \<longrightarrow> (case run_state (a u b) w of
        (Inl e, w') \<Rightarrow> copies w' = copies w
      | (Inr x, w') \<Rightarrow> copies w' = add_mset (fst x) (copies w) \<and>
          (\<forall>v. copies (snd (run_state (snd (snd x)) v)) = copies v - {#fst x#}))) \<and>
     analysis_keeps copies (p\<lparr>ap_acquirer := None\<rparr>) \<and>
     (\<forall>sw. ap_writer p = Some sw \<longrightarrow> (\<forall>s. keeps copies (writer_Write sw s)) \<and>
        (\<forall>i b. keeps copies (writer_FindCompletedForBranch sw i b)) \<and> (\<forall>j i. keeps copies (writer_WriteReuse sw j i)) \<and>
        (\<forall>i r. keeps copies (writer_MarkFailed sw i r) \<and> keeps copies (writer_MarkAnalysisFailed sw i r)))"

lemma without_acquirer [simp]:
  "analyse (p\<lparr>ap_acquirer := a\<rparr>) = analyse p" "enqueue_decompose (p\<lparr>ap_acquirer := a\<rparr>) = enqueue_decompose p"
  "clone_url (p\<lparr>ap_acquirer := a\<rparr>) = clone_url p"
  by (intro ext, simp add: analyse_def stage_inventory_def stage_manifests_def stage_frameworks_def stage_versions_def
      stage_vulnerabilities_def stage_graph_def stage_cards_def stage_classify_def stage_score_def
      enqueue_decompose_def clone_url_def cong: if_cong option.case_cong sum.case_cong)+

lemma job_releases:
  assumes "copies_of copies p"
  shows "keeps copies (run_analysis_task p cloneError skip lastAttempt task)"
proof -
  have keep: "analysis_keeps copies (p\<lparr>ap_acquirer := None\<rparr>)" using assms by (simp add: copies_of_def)
  note analyse = analyse_keeps [OF keep, simplified] and enqueue = enqueue_keeps [OF keep, simplified]
    and url = clone_url_keeps [OF keep, simplified]
  have written: "keeps copies (write_summary p job u s)" for job u s
    unfolding write_summary_def using assms by (auto simp: copies_of_def split: option.split intro!: keeps_intros enqueue)
  have reuse: "keeps copies (reuse_analysis p job u s)" for job u s
    unfolding reuse_analysis_def using assms by (auto simp: copies_of_def split: option.split intro!: keeps_intros enqueue)
  have lookup: "keeps copies (reusable_summary p job u)" for job u
    unfolding reusable_summary_def using assms
    by (auto simp: copies_of_def analysis_keeps_def split: option.split sum.split intro!: keeps_bind)
  have continue: "keeps copies (io_bind (analyse p job ws sha) (write_summary p job u))" for job ws sha u
    by (intro keeps_io_bind analyse written)
  have full: "keeps copies (full_analysis p job u)" for job u
  proof (cases "ap_acquirer p")
    case None
    then show ?thesis by (simp add: full_analysis_def continue)
  next
    case (Some a)
    have shape: "(\<lambda>(ws, sha, cleanup). with_defer cleanup (io_bind (analyse p job ws sha) (write_summary p job u))) =
      (\<lambda>x. with_defer (snd (snd x)) (io_bind (analyse p job (fst x) (fst (snd x))) (write_summary p job u)))"
      by (rule ext) (simp split: prod.split)
    show ?thesis unfolding full_analysis_def Let_def Some option.case shape
      by (rule defer_releases [where path = fst]) (use assms Some continue in \<open>simp_all add: copies_of_def\<close>)
  qed
  have run: "keeps copies (analysis_Run p job)" for job
    unfolding analysis_Run_def by (intro keeps_bind keeps_io_bind url lookup) (auto split: option.split intro: full reuse)
  show ?thesis
    unfolding run_analysis_task_def analysis_MarkFailed_def analysis_MarkAnalysisFailed_def Let_def using assms run
    by (auto simp: copies_of_def split: sum.split go_error.split option.split intro!: keeps_bind keeps_io_ignore)
qed

section \<open>Properties\<close>

text \<open>
  C17. The summary that an analysis writes is well formed, whatever the language analysers, registries, manifests and
  scanners return: no technology is there twice, blueprints come with a framework, a classification exists only with a
  graph and a score only with a classification, the cards next to a classification and the hubs are modules of the
  graph, no module that is reported as unreachable is on it, the score is a percentage, and it blocks the migration
  for lack of a domain layer exactly when the stored classification has no domain module.
\<close>

theorem written_summary_well_formed:
  assumes "scored_by_worker p" and "run_state (analyse p job workspacePath commitSHA) w = (Inr s, w')"
  shows "summary_wf job s"
  using givesD [OF analyse_wf [OF assms(1)] assms(2)] by simp

text \<open>
  C15. An analysis job changes at most the migration it is for, and only if that is in analysis: it sends it on to the
  design, with the summary of the job or with a summary that it reuses, or, on the last attempt of a job that failed,
  it records the failure. Never both.
\<close>

theorem analysis_job_outcome:
  assumes "workers_ok W C docs" and "analysis_over W docs p" and "docs_ok C (docs w)"
    and "run_state (run_analysis_task p cloneError skip lastAttempt (Inr job)) w = (r, w')"
  shows "docs_ok C (docs w') \<and> (migrations C docs w' = migrations C docs w \<or>
    job_analysed job (migrations C docs w) (migrations C docs w') \<or>
    (isl r \<and> lastAttempt \<and> aj_MigrationID job \<noteq> 0 \<and>
       given_up (aj_MigrationID job) (migrations C docs w) (migrations C docs w')))"
  by (rule analysis_env.task_outcome [OF mongo_analysis_env [OF assms(1,2)] assms(3,4)])

text \<open>
  C16. No migration is stuck in analysis: if the stores answer and the summary of the job is still running, the last
  attempt sends the migration on to the design when it succeeds and records the failure when it does not, whichever
  stage failed. Only a panic, which no handler catches, leaves the migration as it was.
\<close>

theorem last_attempt_settles_analysis:
  assumes "workers_ok W C docs" and "analysis_over W docs p" and "summaries_over W docs adocs p" and "docs_ok C (docs w)"
    and "summary_running adocs (aj_SummaryID job) w" and "aj_MigrationID job \<noteq> 0"
    and "in_analysis (migrations C docs w) (aj_MigrationID job) m"
    and "run_state (run_analysis_task p cloneError skip True (Inr job)) w = (r, w')"
  shows "case r of Inr _ \<Rightarrow> job_analysed job (migrations C docs w) (migrations C docs w')
    | Inl e \<Rightarrow> if is_panic e then migrations C docs w' = migrations C docs w
        else given_up (aj_MigrationID job) (migrations C docs w) (migrations C docs w')"
  by (rule answering_analysis_env.task_settles [OF mongo_answering_analysis_env [OF assms(1-3)] assms(4-8)])

text \<open>
  C18. An analysis degrades instead of failing: the only errors of a run are those of the acquisition, the inventory, a
  manifest and the two writes. Registries, scanners, language analysers, the classifier, the scorer and the queue of
  the decomposition can fail without failing the job.
\<close>

theorem only_early_stages_fail:
  assumes "ap_writer p = Some sw" and "run_state (analysis_Run p job) w = (Inl e, w')"
  shows "stage_error e \<or> write_error sw e"
  using givesD [OF run_fails [OF assms(1)] assms(2)] by simp

text \<open>
  No working copy of an analysis is leaked: whatever the job returns, and whichever stage fails, the working copies
  that exist after it are those that existed before.
\<close>

theorem analysis_releases_copies:
  assumes "copies_of copies p" and "run_state (run_analysis_task p cloneError skip lastAttempt task) w = (r, w')"
  shows "copies w' = copies w"
  using job_releases [OF assms(1)] assms(2) by (rule keepsD)

section \<open>The worker over the in-memory stores\<close>

definition demo_analyzer :: "mem LanguageAnalyzer" where
  "demo_analyzer = \<lparr> la_Language = ''Python'', la_ResolveImports = (\<lambda>ws. io_ok flat_edges),
     la_ExtractCards = (\<lambda>ws. io_ok (demo_cards, [])) \<rparr>"

text \<open>The classifier, the scorer and the registry of the worker; the acquirer and the scanner are arguments.\<close>

definition demo_analysis :: "(string \<Rightarrow> string \<Rightarrow> ('w, string \<times> string \<times> ('w, unit) state) io) \<Rightarrow> 'w SummaryWriter \<Rightarrow>
    'w LanguageAnalyzer \<Rightarrow> 'w AnalysisPipeline" where
  "demo_analysis acquire writer analyzer =
     \<lparr> ap_writer = Some writer, ap_credentialReader = Some (\<lambda>i. io_ok ''tok''),
       ap_ParseURL = (\<lambda>u. Inr (''https'', \<lambda>user. ''https://'' @ user @ ''@git.example/app'')),
       ap_branchSHAResolver = None, ap_acquirer = Some acquire,
       ap_detector = Some (\<lambda>ws. io_ok [\<lparr> lang_Name = ''Python'', lang_Files = 4, lang_Lines = 40 \<rparr>]),
       ap_parsers = [(EcosystemPyPI, \<lambda>ws eco. io_ok [dependency eco ''flask'' ''2.0''])], ap_frameworkDetector = None,
       ap_resolver = Some (\<lambda>eco pkg. io_err (ErrStr ''timeout'')), ap_scanner = Some (\<lambda>ds. io_err (ErrStr ''timeout'')),
       ap_graphBuilder = Some (registry_Build (registry_Register Map.empty analyzer)),
       ap_cardProvider = Some (registry_ExtractCards (registry_Register Map.empty analyzer)),
       ap_classifier = Some (\<lambda>es. io_ok (Some (LanguageAware_Classify es))),
       ap_scorer = Some (LouvainScorer (\<lambda>x. x) in_order), ap_decomposeEnqueuer = None \<rparr>"

definition mem_analysis :: "(go_error + string) \<Rightarrow> mem AnalysisPipeline" where
  "mem_analysis clone = demo_analysis
     (\<lambda>u b. case clone of Inl e \<Rightarrow> io_err e | Inr path \<Rightarrow> io_ok (path, ''abc'', State_Monad.return ()))
     (MongoSummaryWriter mem_workers) demo_analyzer"

definition demo_analysis_job :: AnalysisJob where
  "demo_analysis_job = \<lparr> aj_SummaryID = 5, aj_RepositoryID = 7, aj_MigrationID = 1,
     aj_RemoteURL = ''https://git.example/app'', aj_DefaultBranch = ''main'' \<rparr>"

lemma mem_analysis_keeps: "analysis_keeps obs (mem_analysis clone)"
  by (auto simp: analysis_keeps_def mem_analysis_def demo_analysis_def registry_Build_def registry_ExtractCards_def
      registry_Register_def demo_analyzer_def LouvainScorer_def split: sum.split)

lemma mem_analysis_over: "analysis_over mem_workers mem_docs (mem_analysis clone)"
  using mem_analysis_keeps by (simp add: analysis_over_def mem_workers_def mem_adb_def keeps_def)
    (simp add: mem_analysis_def demo_analysis_def mem_workers_def mem_adb_def)

lemma mem_summaries_over: "summaries_over mem_workers mem_docs mem_analyses (mem_analysis clone)"
proof -
  have "collection_ok sdoc_Identifier (adb_coll (ws_analyses mem_workers)) mem_analyses"
    using mem_adb_ok by (simp add: mem_workers_def analysis_ok_def)
  moreover have "\<exists>n w'. run_state (UpdateOne (adb_coll (ws_analyses mem_workers)) q f) w = (Inr n, w')" for q f w
    by (auto simp: mem_workers_def mem_adb_def mem_analyses_coll_def list_coll_def split: prod.splits)
  ultimately show ?thesis
    using mem_analysis_keeps mem_workers_answer
    by (simp add: summaries_over_def stores_answer_def) (simp add: mem_workers_def mem_adb_def mem_db_def keeps_def)
qed

interpretation mem_job: answering_analysis_env "MongoSummaryWriter mem_workers"
  "\<lambda>w. doc_view (db_codecs mem_db) (mem_docs w)" "\<lambda>w. docs_ok (db_codecs mem_db) (mem_docs w)"
  "mem_analysis (Inr ''/w'')" "summary_running mem_analyses"
  by (rule mongo_answering_analysis_env [OF mem_workers_ok mem_analysis_over mem_summaries_over])

lemma analyzing_world_ok: "docs_ok (db_codecs mem_db) (mem_docs analyzing_world)"
  using demo_world_ok [of MIGRATION_STATE_ANALYZING] by (simp add: analyzing_world_def)

lemma analyzing_world_view:
  "in_analysis (migrations (db_codecs mem_db) mem_docs analyzing_world) 1
     (projr (migrationDocToDomain (db_codecs mem_db) (demo_doc 1 MIGRATION_STATE_ANALYZING)))"
  using demo_world_view [of MIGRATION_STATE_ANALYZING]
  by (simp add: in_analysis_def analyzing_world_def demo_doc_def migrationDocToDomain_def doc_roadmap_def unmarshal_field_def)

section \<open>Witnesses\<close>

theorem written_summary_well_formed_witness:
  "case run_state (analyse (mem_analysis (Inr ''/w'')) demo_analysis_job ''/w'' ''abc'') analyzing_world of
     (Inl e, w) \<Rightarrow> False
   | (Inr s, w) \<Rightarrow> summary_wf demo_analysis_job s \<and> map um_Module (as_UnreachableModules s) = [''legacy.report'', ''shop.cart''] \<and>
       map tech_Name (as_Technologies s) = [''Python'', ''flask'']"
proof -
  let ?run = "run_state (analyse (mem_analysis (Inr ''/w'')) demo_analysis_job ''/w'' ''abc'') analyzing_world"
  have "case fst ?run of Inl e \<Rightarrow> False | Inr s \<Rightarrow> map um_Module (as_UnreachableModules s) = [''legacy.report'', ''shop.cart''] \<and>
      map tech_Name (as_Technologies s) = [''Python'', ''flask'']" by code_simp
  moreover have "scored_by_worker (mem_analysis (Inr ''/w''))"
    by (auto simp: scored_by_worker_def mem_analysis_def demo_analysis_def)
  note written_summary_well_formed [OF this, of demo_analysis_job "''/w''" "''abc''" analyzing_world]
  ultimately show ?thesis by (cases ?run) (auto split: sum.splits)
qed

theorem analysis_job_outcome_witness:
  "job_analysed demo_analysis_job (migrations (db_codecs mem_db) mem_docs analyzing_world)
     (migrations (db_codecs mem_db) mem_docs (snd (run_state
       (run_analysis_task (mem_analysis (Inr ''/w'')) (\<lambda>e. None) ''skip'' False (Inr demo_analysis_job)) analyzing_world)))"
proof -
  let ?w' = "snd (run_state
    (run_analysis_task (mem_analysis (Inr ''/w'')) (\<lambda>e. None) ''skip'' False (Inr demo_analysis_job)) analyzing_world)"
  have "map_option mig_State (migrations (db_codecs mem_db) mem_docs ?w' 1) = Some MIGRATION_STATE_DESIGNING"
    by code_simp
  then have "migrations (db_codecs mem_db) mem_docs ?w' \<noteq> migrations (db_codecs mem_db) mem_docs analyzing_world"
    using analyzing_world_view by (auto simp: in_analysis_def)
  with analysis_job_outcome [OF mem_workers_ok mem_analysis_over analyzing_world_ok prod.collapse [symmetric],
      of "Inr ''/w''" "\<lambda>e. None" "''skip''" False demo_analysis_job]
  show ?thesis by blast
qed

theorem last_attempt_settles_analysis_witness:
  "given_up 1 (migrations (db_codecs mem_db) mem_docs analyzing_world)
     (migrations (db_codecs mem_db) mem_docs (snd (run_state
       (run_analysis_task (mem_analysis (Inl (ErrStr ''authentication failed''))) (\<lambda>e. None) ''skip'' True
          (Inr demo_analysis_job)) analyzing_world)))"
proof -
  let ?run = "run_state (run_analysis_task (mem_analysis (Inl (ErrStr ''authentication failed''))) (\<lambda>e. None) ''skip'' True
    (Inr demo_analysis_job)) analyzing_world"
  have r: "case fst ?run of Inl (Wrap pre e post) \<Rightarrow> True | _ \<Rightarrow> False" by code_simp
  have running: "summary_running mem_analyses (aj_SummaryID demo_analysis_job) analyzing_world"
    by (simp add: summary_running_def is_running_def analyzing_world_def demo_analysis_job_def demo_summary_def)
  have m: "aj_MigrationID demo_analysis_job \<noteq> 0"
    "in_analysis (migrations (db_codecs mem_db) mem_docs analyzing_world) (aj_MigrationID demo_analysis_job)
       (projr (migrationDocToDomain (db_codecs mem_db) (demo_doc 1 MIGRATION_STATE_ANALYZING)))"
    using analyzing_world_view by (simp_all add: demo_analysis_job_def)
  from last_attempt_settles_analysis [OF mem_workers_ok mem_analysis_over mem_summaries_over analyzing_world_ok running m
      prod.collapse [symmetric], of "Inl (ErrStr ''authentication failed'')" "\<lambda>e. None" "''skip''"] r
  show ?thesis by (auto simp: is_panic_def demo_analysis_job_def split: sum.splits go_error.splits)
qed

theorem only_early_stages_fail_witness:
  "case fst (run_state (analysis_Run (mem_analysis (Inl (ErrStr ''authentication failed''))) demo_analysis_job) analyzing_world) of
     Inl e \<Rightarrow> stage_error e \<or> write_error (MongoSummaryWriter mem_workers) e
   | Inr x \<Rightarrow> False"
proof -
  let ?run = "run_state (analysis_Run (mem_analysis (Inl (ErrStr ''authentication failed''))) demo_analysis_job) analyzing_world"
  have r: "isl (fst ?run)" by code_simp
  then obtain e w' where run: "?run = (Inl e, w')" by (cases ?run) (auto simp: isl_def)
  have "ap_writer (mem_analysis (Inl (ErrStr ''authentication failed''))) = Some (MongoSummaryWriter mem_workers)"
    by (simp add: mem_analysis_def demo_analysis_def)
  from only_early_stages_fail [OF this run] run show ?thesis by simp
qed

text \<open>A worker whose world is the working copies that exist; its writer fails.\<close>

definition copying_analysis :: "string multiset AnalysisPipeline" where
  "copying_analysis = demo_analysis
     (\<lambda>u b. State (\<lambda>w. (Inr (''/copy'', ''abc'', State (\<lambda>w. ((), w - {#''/copy''#}))), add_mset ''/copy'' w)))
     \<lparr> writer_Write = (\<lambda>s. io_err (ErrStr ''timeout'')), writer_MarkFailed = (\<lambda>i r. io_ok ()),
       writer_MarkAnalysisFailed = (\<lambda>i r. io_ok ()), writer_FindCompletedForBranch = (\<lambda>i b. io_ok None),
       writer_WriteReuse = (\<lambda>j i. io_ok ()) \<rparr>
     \<lparr> la_Language = ''Python'', la_ResolveImports = (\<lambda>ws. io_ok flat_edges),
       la_ExtractCards = (\<lambda>ws. io_err (ErrStr ''syntax error'')) \<rparr>"

theorem analysis_releases_copies_witness:
  "snd (run_state (run_analysis_task copying_analysis (\<lambda>e. None) ''skip'' True (Inr demo_analysis_job)) {#''/old''#}) = {#''/old''#}"
proof -
  have "copies_of id copying_analysis"
    by (auto simp: copies_of_def copying_analysis_def demo_analysis_def analysis_keeps_def registry_Build_def
        registry_ExtractCards_def registry_Register_def LouvainScorer_def split: option.split)
  then have "id (snd (run_state (run_analysis_task copying_analysis (\<lambda>e. None) ''skip'' True (Inr demo_analysis_job)) {#''/old''#})) =
      id {#''/old''#}"
    by (rule analysis_releases_copies [OF _ prod.collapse [symmetric]])
  then show ?thesis by simp
qed

text \<open>
  The token of a private repository travels through the queue: the URL that the worker hands to the queue of the
  decomposition is the one of the clone, with the token in it. The world is the list of the URLs in the queue.
\<close>

definition queueing_analysis :: "string list AnalysisPipeline" where
  "queueing_analysis = (demo_analysis (\<lambda>u b. io_ok (''/w'', ''abc'', State_Monad.return ()))
     \<lparr> writer_Write = (\<lambda>s. io_ok ()), writer_MarkFailed = (\<lambda>i r. io_ok ()),
       writer_MarkAnalysisFailed = (\<lambda>i r. io_ok ()), writer_FindCompletedForBranch = (\<lambda>i b. io_ok None),
       writer_WriteReuse = (\<lambda>j i. io_ok ()) \<rparr>
     \<lparr> la_Language = ''Python'', la_ResolveImports = (\<lambda>ws. io_ok []), la_ExtractCards = (\<lambda>ws. io_ok ([], [])) \<rparr>)
     \<lparr>ap_decomposeEnqueuer := Some (\<lambda>i s u b. State (\<lambda>w. (Inr (), w @ [u])))\<rparr>"

theorem token_travels_through_queue:
  "run_state (analysis_Run queueing_analysis demo_analysis_job) [] = (Inr (), [''https://tok@git.example/app''])"
  by code_simp

end
