(* ===== verification/Repository_Store.thy ===== *)
theory Repository_Store
  imports Memory_Driver Status_Errors
begin

text \<open>
  The repository service's data and store: domain/domain.go and domain/errors.go, the ports
  (ports/repository_repository.go, transaction_manager.go, identity_client.go), the store over MongoDB
  (infrastructure/repositories/mongo_repository_repository.go, identifier.go,
  mongo_transaction_manager.go) and the identity client (identity_client_adapter.go) of
  \<^verbatim>\<open>core/services/repository\<close>. The generated enums keep their constants; a number outside the enum, which
  Go would carry along, has none. What a client may rely on is the locale \<open>repository_store_port\<close>, which
  the MongoDB store meets.
\<close>

section \<open>Messages\<close>

datatype GitProvider =
    GIT_PROVIDER_UNSPECIFIED | GIT_PROVIDER_GITHUB | GIT_PROVIDER_GITLAB
  | GIT_PROVIDER_BITBUCKET | GIT_PROVIDER_GENERIC

datatype RepositoryState =
    REPOSITORY_STATE_UNSPECIFIED | REPOSITORY_STATE_CONNECTED | REPOSITORY_STATE_DISCONNECTED
  | REPOSITORY_STATE_ERROR

datatype ConnectionStatus =
    CONNECTION_STATUS_UNSPECIFIED | CONNECTION_STATUS_OK | CONNECTION_STATUS_AUTH_FAILED
  | CONNECTION_STATUS_UNREACHABLE

datatype RepositoryVisibility =
    REPOSITORY_VISIBILITY_UNSPECIFIED | REPOSITORY_VISIBILITY_PUBLIC | REPOSITORY_VISIBILITY_PRIVATE

record Repository =
  rr_Identifier :: u64
  rr_OwnerUserId :: u64
  rr_Provider :: GitProvider
  rr_RemoteUrl :: string
  rr_DefaultBranch :: string
  rr_State :: RepositoryState
  rr_ConnectionStatus :: ConnectionStatus
  rr_CredentialRef :: string
  rr_CreateTime :: "Timestamp option"
  rr_UpdateTime :: "Timestamp option"
  rr_DeleteTime :: "Timestamp option"
  rr_PurgeTime :: "Timestamp option"

record Branch =
  br_Name :: string
  br_CommitSha :: string
  br_IsDefault :: bool

record RepositoriesFilter =
  rf_OwnerUserId :: "u64 option"
  rf_State :: "RepositoryState option"
  rf_Provider :: "GitProvider option"

record SourceProbeResult =
  sp_Reachable :: bool
  sp_Visibility :: RepositoryVisibility
  sp_AuthValid :: bool
  sp_ErrorMessage :: string

record TargetPreflightResult =
  tp_Reachable :: bool
  tp_CanPush :: bool
  tp_Empty :: bool
  tp_ErrorMessage :: string

section \<open>Errors\<close>

definition repo_ErrMissingIdentifier :: go_error where
  "repo_ErrMissingIdentifier = DErr ''REPO101'' ''Failure_Missing_Identifier''"
definition repo_ErrMissingPayload :: go_error where
  "repo_ErrMissingPayload = DErr ''REPO102'' ''Failure_Missing_Payload''"
definition repo_ErrMissingOwnerUserID :: go_error where
  "repo_ErrMissingOwnerUserID = DErr ''REPO103'' ''Failure_Missing_Owner_User_ID''"
definition repo_ErrInvalidRemoteURL :: go_error where
  "repo_ErrInvalidRemoteURL = DErr ''REPO104'' ''Failure_Invalid_Remote_URL''"
definition repo_ErrRepositoryNotFound :: go_error where
  "repo_ErrRepositoryNotFound = DErr ''REPO201'' ''Failure_Repository_Not_Found''"
definition repo_ErrRepositoryAlreadyExists :: go_error where
  "repo_ErrRepositoryAlreadyExists = DErr ''REPO202'' ''Failure_Repository_Already_Exists''"
definition repo_ErrOwnerNotFound :: go_error where
  "repo_ErrOwnerNotFound = DErr ''REPO203'' ''Failure_Owner_Not_Found''"
definition repo_ErrConnectionFailed :: go_error where
  "repo_ErrConnectionFailed = DErr ''REPO204'' ''Failure_Connection_Failed''"
definition repo_ErrForbiddenAccess :: go_error where
  "repo_ErrForbiddenAccess = DErr ''REPO205'' ''Failure_Access_Forbidden''"
definition repo_ErrPushAuthFailed :: go_error where
  "repo_ErrPushAuthFailed = DErr ''REPO206'' ''Failure_Push_Auth_Failed''"
definition repo_ErrPushConflict :: go_error where
  "repo_ErrPushConflict = DErr ''REPO207'' ''Failure_Push_Rejected''"
definition repo_ErrPushNetworkError :: go_error where
  "repo_ErrPushNetworkError = DErr ''REPO208'' ''Failure_Push_Network_Error''"
definition repo_ErrTargetNotEmpty :: go_error where
  "repo_ErrTargetNotEmpty = DErr ''REPO209'' ''Failure_Target_Not_Empty''"
definition repo_ErrInternal :: go_error where
  "repo_ErrInternal = DErr ''REPO500'' ''Failure_Internal''"

lemmas repo_errors = repo_ErrMissingIdentifier_def repo_ErrMissingPayload_def
  repo_ErrMissingOwnerUserID_def repo_ErrInvalidRemoteURL_def repo_ErrRepositoryNotFound_def
  repo_ErrRepositoryAlreadyExists_def repo_ErrOwnerNotFound_def repo_ErrConnectionFailed_def
  repo_ErrForbiddenAccess_def repo_ErrPushAuthFailed_def repo_ErrPushConflict_def
  repo_ErrPushNetworkError_def repo_ErrTargetNotEmpty_def repo_ErrInternal_def

section \<open>The ports\<close>

record 'w RepositoryRepository =
  rs_Create :: "Repository \<Rightarrow> ('w, Repository) io"
  rs_GetByID :: "u64 \<Rightarrow> bool \<Rightarrow> ('w, Repository) io"
  rs_List :: "RepositoriesFilter option \<Rightarrow> PageQueryParams option \<Rightarrow>
    ('w, Repository list \<times> Pagination option) io"
  rs_Update :: "Repository \<Rightarrow> ('w, unit) io"
  rs_SoftDelete :: "u64 \<Rightarrow> ('w, unit) io"
  rs_UpdateConnectionStatus :: "u64 \<Rightarrow> ConnectionStatus \<Rightarrow> ('w, unit) io"

record 'w RepoTransactionManager =
  rt_WithTransaction :: "('w, Repository) io \<Rightarrow> ('w, Repository) io"

section \<open>Documents\<close>

record mongoRepositoryDoc =
  rdoc_Identifier :: u64
  rdoc_OwnerUserID :: u64
  rdoc_Provider :: GitProvider
  rdoc_RemoteURL :: string
  rdoc_DefaultBranch :: string
  rdoc_State :: RepositoryState
  rdoc_ConnectionStatus :: ConnectionStatus
  rdoc_CredentialRef :: string
  rdoc_CreateTime :: Timestamp
  rdoc_UpdateTime :: "Timestamp option"
  rdoc_DeleteTime :: "Timestamp option"
  rdoc_PurgeTime :: "Timestamp option"

record 'w RepoDB =
  rdb_coll :: "('w, mongoRepositoryDoc) Collection"
  rdb_counters :: "'w Counters"
  rdb_now :: "('w, Timestamp) state"

definition repositoriesCollName :: string where "repositoriesCollName = ''repositories''"

definition repoToDoc :: "Repository \<Rightarrow> mongoRepositoryDoc" where
  "repoToDoc r =
     \<lparr> rdoc_Identifier = 0, rdoc_OwnerUserID = rr_OwnerUserId r, rdoc_Provider = rr_Provider r,
       rdoc_RemoteURL = rr_RemoteUrl r, rdoc_DefaultBranch = rr_DefaultBranch r,
       rdoc_State = rr_State r, rdoc_ConnectionStatus = rr_ConnectionStatus r,
       rdoc_CredentialRef = rr_CredentialRef r, rdoc_CreateTime = 0, rdoc_UpdateTime = None,
       rdoc_DeleteTime = None, rdoc_PurgeTime = None \<rparr>"

definition repoDocToDomain :: "mongoRepositoryDoc \<Rightarrow> Repository" where
  "repoDocToDomain d =
     \<lparr> rr_Identifier = rdoc_Identifier d, rr_OwnerUserId = rdoc_OwnerUserID d,
       rr_Provider = rdoc_Provider d, rr_RemoteUrl = rdoc_RemoteURL d,
       rr_DefaultBranch = rdoc_DefaultBranch d, rr_State = rdoc_State d,
       rr_ConnectionStatus = rdoc_ConnectionStatus d, rr_CredentialRef = rdoc_CredentialRef d,
       rr_CreateTime = (if rdoc_CreateTime d \<noteq> 0 then Some (rdoc_CreateTime d) else None),
       rr_UpdateTime = rdoc_UpdateTime d, rr_DeleteTime = rdoc_DeleteTime d,
       rr_PurgeTime = rdoc_PurgeTime d \<rparr>"

section \<open>The store over MongoDB\<close>

abbreviation rdoc_live :: "u64 \<Rightarrow> mongoRepositoryDoc \<Rightarrow> bool" where
  "rdoc_live i d \<equiv> rdoc_Identifier d = i \<and> rdoc_DeleteTime d = None"

text \<open>The insertion maps a violated index to an error of its own.\<close>

definition rmongo_insert :: "'w RepoDB \<Rightarrow> mongoRepositoryDoc \<Rightarrow> ('w, unit) io" where
  "rmongo_insert D doc =
     State_Monad.bind (InsertOne (rdb_coll D) doc) (\<lambda>r. case r of
       Inr _ \<Rightarrow> io_ok ()
     | Inl e \<Rightarrow> if IsDuplicateKeyError (rdb_counters D) e then io_err repo_ErrRepositoryAlreadyExists
                else io_err (wrap_error ''repository: insert failed: '' e []))"

definition rmongo_Create :: "'w RepoDB \<Rightarrow> Repository \<Rightarrow> ('w, Repository) io" where
  "rmongo_Create D r =
     io_bind (io_wrap ''repository: identifier: ''
                (generateIdentifier (rdb_counters D) repositoriesCollName)) (\<lambda>id.
     State_Monad.bind (rdb_now D) (\<lambda>now.
     (let doc = (repoToDoc r)\<lparr>rdoc_Identifier := id, rdoc_CreateTime := now\<rparr>
      in io_bind (rmongo_insert D doc) (\<lambda>_. io_ok (repoDocToDomain doc)))))"

definition rmongo_GetByID :: "'w RepoDB \<Rightarrow> u64 \<Rightarrow> bool \<Rightarrow> ('w, Repository) io" where
  "rmongo_GetByID D i includeDeleted =
     (let q = (\<lambda>d. rdoc_Identifier d = i \<and> (includeDeleted \<or> rdoc_DeleteTime d = None))
      in io_bind (io_wrap ''repository: find one failed: '' (FindOne (rdb_coll D) q)) (\<lambda>found.
           case found of
             None \<Rightarrow> io_err repo_ErrRepositoryNotFound
           | Some doc \<Rightarrow> io_ok (repoDocToDomain doc)))"

definition repo_list_query :: "RepositoriesFilter option \<Rightarrow> mongoRepositoryDoc \<Rightarrow> bool" where
  "repo_list_query flt d \<longleftrightarrow>
     rdoc_DeleteTime d = None \<and>
     (case flt of None \<Rightarrow> True
      | Some f \<Rightarrow>
          (case rf_OwnerUserId f of None \<Rightarrow> True | Some u \<Rightarrow> u \<noteq> 0 \<longrightarrow> rdoc_OwnerUserID d = u) \<and>
          (case rf_State f of None \<Rightarrow> True
           | Some s \<Rightarrow> s \<noteq> REPOSITORY_STATE_UNSPECIFIED \<longrightarrow> rdoc_State d = s) \<and>
          (case rf_Provider f of None \<Rightarrow> True
           | Some p \<Rightarrow> p \<noteq> GIT_PROVIDER_UNSPECIFIED \<longrightarrow> rdoc_Provider d = p))"

text \<open>The page number is used as it is: page 0 wraps around.\<close>

definition repo_list_skip :: "PageQueryParams option \<Rightarrow> int" where
  "repo_list_skip p = uint ((GetPageNumber p - 1) * GetPageSize p)"

definition rmongo_List ::
  "'w RepoDB \<Rightarrow> RepositoriesFilter option \<Rightarrow> PageQueryParams option \<Rightarrow>
   ('w, Repository list \<times> Pagination option) io" where
  "rmongo_List D flt params =
     io_bind (io_wrap ''repository: list failed: ''
                (Find (rdb_coll D) (repo_list_query flt) (repo_list_skip params)
                   (uint (GetPageSize params)))) (\<lambda>cur.
     io_bind (io_wrap ''repository: decode failed: '' cur) (\<lambda>docs.
     State_Monad.bind (CountDocuments (rdb_coll D) (repo_list_query flt)) (\<lambda>c.
     let total = (case c of Inl _ \<Rightarrow> 0 | Inr n \<Rightarrow> n)
     in io_ok (map repoDocToDomain docs,
               Some (NewPagination (GetPageNumber params) (GetPageSize params) total)))))"

definition rmongo_update_one ::
  "'w RepoDB \<Rightarrow> string \<Rightarrow> (mongoRepositoryDoc \<Rightarrow> bool) \<Rightarrow>
   (mongoRepositoryDoc \<Rightarrow> mongoRepositoryDoc) \<Rightarrow> ('w, unit) io" where
  "rmongo_update_one D label q f =
     io_bind (io_wrap (''repository: '' @ label @ '' failed: '') (UpdateOne (rdb_coll D) q f))
       (\<lambda>matched. if matched = 0 then io_err repo_ErrRepositoryNotFound else io_ok ())"

text \<open>An empty credential reference is not written.\<close>

definition rmongo_Update :: "'w RepoDB \<Rightarrow> Repository \<Rightarrow> ('w, unit) io" where
  "rmongo_Update D r =
     State_Monad.bind (rdb_now D) (\<lambda>now.
       rmongo_update_one D ''update'' (rdoc_live (rr_Identifier r))
         (\<lambda>d. let d = d\<lparr>rdoc_RemoteURL := rr_RemoteUrl r, rdoc_DefaultBranch := rr_DefaultBranch r,
                        rdoc_State := rr_State r, rdoc_ConnectionStatus := rr_ConnectionStatus r,
                        rdoc_UpdateTime := Some now\<rparr>
              in if rr_CredentialRef r \<noteq> [] then d\<lparr>rdoc_CredentialRef := rr_CredentialRef r\<rparr> else d))"

definition rmongo_SoftDelete :: "'w RepoDB \<Rightarrow> u64 \<Rightarrow> ('w, unit) io" where
  "rmongo_SoftDelete D i =
     State_Monad.bind (rdb_now D) (\<lambda>now.
       rmongo_update_one D ''soft delete'' (rdoc_live i)
         (\<lambda>d. d\<lparr>rdoc_DeleteTime := Some now, rdoc_UpdateTime := Some now,
                rdoc_State := REPOSITORY_STATE_DISCONNECTED\<rparr>))"

text \<open>The match count is not looked at here.\<close>

definition rmongo_UpdateConnectionStatus ::
  "'w RepoDB \<Rightarrow> u64 \<Rightarrow> ConnectionStatus \<Rightarrow> ('w, unit) io" where
  "rmongo_UpdateConnectionStatus D i status =
     State_Monad.bind (rdb_now D) (\<lambda>now.
       io_bind (io_wrap ''repository: update connection_status failed: ''
                  (UpdateOne (rdb_coll D) (rdoc_live i)
                     (\<lambda>d. d\<lparr>rdoc_ConnectionStatus := status, rdoc_UpdateTime := Some now\<rparr>)))
         (\<lambda>_. io_ok ()))"

definition MongoRepositoryRepository :: "'w RepoDB \<Rightarrow> 'w RepositoryRepository" where
  "MongoRepositoryRepository D =
     \<lparr> rs_Create = rmongo_Create D, rs_GetByID = rmongo_GetByID D, rs_List = rmongo_List D,
       rs_Update = rmongo_Update D, rs_SoftDelete = rmongo_SoftDelete D,
       rs_UpdateConnectionStatus = rmongo_UpdateConnectionStatus D \<rparr>"

record 'w RepoMongoClient =
  rc_StartSession :: "('w, unit) io"
  rc_WithTransaction :: "('w, Repository) io \<Rightarrow> ('w, Repository) io"

definition RepoTransactionManager_of :: "'w RepoMongoClient option \<Rightarrow> 'w RepoTransactionManager" where
  "RepoTransactionManager_of client =
     \<lparr> rt_WithTransaction = (\<lambda>fn. case client of
          None \<Rightarrow> fn
        | Some c \<Rightarrow> State_Monad.bind (rc_StartSession c) (\<lambda>s. case s of
              Inl _ \<Rightarrow> fn
            | Inr _ \<Rightarrow> rc_WithTransaction c fn)) \<rparr>"

text \<open>The identity client: the call of the identity service is a parameter.\<close>

fun status_FromError :: "go_error \<Rightarrow> nat option" where
  "status_FromError (Status c s) = Some c"
| "status_FromError (Wrap p e q) = status_FromError e"
| "status_FromError (DErr c m) = None"
| "status_FromError (ErrStr s) = None"
| "status_FromError (Panic s) = None"

definition repo_ValidateUserExists :: "(u64 \<Rightarrow> ('w, 'u) io) \<Rightarrow> u64 \<Rightarrow> ('w, unit) io" where
  "repo_ValidateUserExists getUser userID =
     State_Monad.bind (getUser userID) (\<lambda>r. case r of
       Inr _ \<Rightarrow> io_ok ()
     | Inl (Panic s) \<Rightarrow> io_err (Panic s)
     | Inl e \<Rightarrow> if status_FromError e = Some codes_NotFound then io_err repo_ErrOwnerNotFound
                else io_err repo_ErrInternal)"

section \<open>The contract of the store\<close>

text \<open>The abstraction: the documents by identifier. The representation invariant: the identifiers
  are unique.\<close>

definition rdocs_ok :: "mongoRepositoryDoc list \<Rightarrow> bool" where
  "rdocs_ok ds \<longleftrightarrow> distinct (map rdoc_Identifier ds)"

definition rdoc_view :: "mongoRepositoryDoc list \<Rightarrow> u64 \<Rightarrow> Repository option" where
  "rdoc_view ds i = map_option repoDocToDomain (find (\<lambda>d. rdoc_Identifier d = i) ds)"

text \<open>A write addresses one live record and replaces it by one that \<open>P\<close> allows. An error of the
  store leaves open whether the write took effect; a domain error means it did not.\<close>

definition repo_write ::
  "('w \<Rightarrow> u64 \<Rightarrow> Repository option) \<Rightarrow> ('w \<Rightarrow> bool) \<Rightarrow> u64 \<Rightarrow> (Repository \<Rightarrow> Repository \<Rightarrow> bool) \<Rightarrow>
   ('w, unit) io \<Rightarrow> bool" where
  "repo_write view ok i P op \<longleftrightarrow>
     (\<forall>V. triple (\<lambda>w. ok w \<and> view w = V) op
        (\<lambda>r w. ok w \<and>
           (let wrote = (\<exists>m m'. V i = Some m \<and> rr_DeleteTime m = None \<and> P m m' \<and> view w = V(i \<mapsto> m'))
            in case r of Inr _ \<Rightarrow> wrote
                       | Inl e \<Rightarrow> view w = V \<or> (\<not> domain_error e \<and> wrote))))"

text \<open>What an update makes of the stored record: the four mutable fields, the credential when the
  new one is not empty, and the time.\<close>

definition repo_stored :: "Repository \<Rightarrow> Repository \<Rightarrow> Repository \<Rightarrow> bool" where
  "repo_stored r m m' \<longleftrightarrow>
     (\<exists>t. m' = m\<lparr>rr_RemoteUrl := rr_RemoteUrl r, rr_DefaultBranch := rr_DefaultBranch r,
                 rr_State := rr_State r, rr_ConnectionStatus := rr_ConnectionStatus r,
                 rr_CredentialRef := (if rr_CredentialRef r = [] then rr_CredentialRef m
                                      else rr_CredentialRef r),
                 rr_UpdateTime := Some t\<rparr>)"

definition repo_deleted :: "Repository \<Rightarrow> Repository \<Rightarrow> bool" where
  "repo_deleted m m' \<longleftrightarrow>
     (\<exists>t. m' = m\<lparr>rr_DeleteTime := Some t, rr_UpdateTime := Some t,
                 rr_State := REPOSITORY_STATE_DISCONNECTED\<rparr>)"

definition repo_created :: "Repository \<Rightarrow> Repository \<Rightarrow> bool" where
  "repo_created r m' \<longleftrightarrow>
     (\<exists>i t. m' = r\<lparr>rr_Identifier := i, rr_CreateTime := t, rr_UpdateTime := None,
                   rr_DeleteTime := None, rr_PurgeTime := None\<rparr>)"

definition repo_filter_admits :: "RepositoriesFilter option \<Rightarrow> Repository \<Rightarrow> bool" where
  "repo_filter_admits flt r \<longleftrightarrow>
     (case flt of None \<Rightarrow> True
      | Some f \<Rightarrow>
          (case rf_OwnerUserId f of None \<Rightarrow> True | Some u \<Rightarrow> u \<noteq> 0 \<longrightarrow> rr_OwnerUserId r = u) \<and>
          (case rf_State f of None \<Rightarrow> True
           | Some s \<Rightarrow> s \<noteq> REPOSITORY_STATE_UNSPECIFIED \<longrightarrow> rr_State r = s) \<and>
          (case rf_Provider f of None \<Rightarrow> True
           | Some p \<Rightarrow> p \<noteq> GIT_PROVIDER_UNSPECIFIED \<longrightarrow> rr_Provider r = p))"

locale repository_store_port =
  fixes R :: "'w RepositoryRepository"
    and view :: "'w \<Rightarrow> u64 \<Rightarrow> Repository option"
    and ok :: "'w \<Rightarrow> bool"
  assumes GetByID_law:
      "triple (\<lambda>w. ok w \<and> view w = V) (rs_GetByID R i False)
         (\<lambda>r w. ok w \<and> view w = V \<and>
            (case r of Inr m \<Rightarrow> V i = Some m \<and> rr_Identifier m = i \<and> rr_DeleteTime m = None
                     | Inl e \<Rightarrow> e = repo_ErrRepositoryNotFound \<longrightarrow>
                         (\<forall>m. V i = Some m \<longrightarrow> rr_DeleteTime m \<noteq> None)))"
    and List_law:
      "triple (\<lambda>w. ok w \<and> view w = V) (rs_List R f p)
         (\<lambda>r w. ok w \<and> view w = V \<and>
            (case r of Inl e \<Rightarrow> True
             | Inr (ms, pg) \<Rightarrow> \<forall>m\<in>set ms. V (rr_Identifier m) = Some m \<and>
                 rr_DeleteTime m = None \<and> repo_filter_admits f m))"
    and Create_law:
      "triple (\<lambda>w. ok w \<and> view w = V) (rs_Create R m)
         (\<lambda>r w. ok w \<and>
            (let wrote = (\<lambda>m'. V (rr_Identifier m') = None \<and> repo_created m m' \<and>
                            view w = V(rr_Identifier m' \<mapsto> m'))
             in case r of Inr m' \<Rightarrow> wrote m' | Inl e \<Rightarrow> view w = V \<or> (\<exists>m'. wrote m')))"
    and Update_law: "repo_write view ok (rr_Identifier r) (repo_stored r) (rs_Update R r)"
    and SoftDelete_law: "repo_write view ok i repo_deleted (rs_SoftDelete R i)"

section \<open>The MongoDB store keeps the contract\<close>

lemma find_unique:
  "distinct (map k ds) \<Longrightarrow> d \<in> set ds \<Longrightarrow> find (\<lambda>x. k x = k d) ds = Some d"
  by (induction ds) (auto simp: image_iff)

lemma rdoc_view_iff:
  assumes "rdocs_ok ds"
  shows "rdoc_view ds i = Some m \<longleftrightarrow> (\<exists>d\<in>set ds. rdoc_Identifier d = i \<and> repoDocToDomain d = m)"
proof
  assume "rdoc_view ds i = Some m"
  then show "\<exists>d\<in>set ds. rdoc_Identifier d = i \<and> repoDocToDomain d = m"
    by (auto simp: rdoc_view_def dest!: find_SomeD)
next
  assume "\<exists>d\<in>set ds. rdoc_Identifier d = i \<and> repoDocToDomain d = m"
  then obtain d where d: "d \<in> set ds" "rdoc_Identifier d = i" "repoDocToDomain d = m" by blast
  from find_unique [OF assms [unfolded rdocs_ok_def] d(1)] d show "rdoc_view ds i = Some m"
    by (simp add: rdoc_view_def)
qed

lemma rdoc_view_replace:
  assumes ok: "rdocs_ok (xs @ d # ys)" and id: "rdoc_Identifier d = i" "rdoc_Identifier d' = i"
  shows "rdocs_ok (xs @ d' # ys)"
    and "rdoc_view (xs @ d' # ys) = (rdoc_view (xs @ d # ys))(i \<mapsto> repoDocToDomain d')"
proof -
  show ok': "rdocs_ok (xs @ d' # ys)" using ok id by (simp add: rdocs_ok_def)
  show "rdoc_view (xs @ d' # ys) = (rdoc_view (xs @ d # ys))(i \<mapsto> repoDocToDomain d')"
  proof (rule view_ext)
    fix j m
    have "rdoc_Identifier x \<noteq> i" if "x \<in> set xs \<or> x \<in> set ys" for x
      using ok id that by (auto simp: rdocs_ok_def image_iff)
    then show "rdoc_view (xs @ d' # ys) j = Some m \<longleftrightarrow>
        ((rdoc_view (xs @ d # ys))(i \<mapsto> repoDocToDomain d')) j = Some m"
      using id by (auto simp: rdoc_view_iff [OF ok'] rdoc_view_iff [OF ok])
  qed
qed

lemma rdoc_view_insert:
  assumes ok: "rdocs_ok ds" and fresh: "rdoc_Identifier d \<notin> rdoc_Identifier ` set ds"
  shows "rdocs_ok (ds @ [d])" and "rdoc_view ds (rdoc_Identifier d) = None"
    and "rdoc_view (ds @ [d]) = (rdoc_view ds)(rdoc_Identifier d \<mapsto> repoDocToDomain d)"
proof -
  show ok': "rdocs_ok (ds @ [d])" using ok fresh by (auto simp: rdocs_ok_def)
  show none: "rdoc_view ds (rdoc_Identifier d) = None"
    using fresh by (simp add: rdoc_view_def find_None_iff image_iff) metis
  show "rdoc_view (ds @ [d]) = (rdoc_view ds)(rdoc_Identifier d \<mapsto> repoDocToDomain d)"
  proof (rule view_ext)
    fix j m
    show "rdoc_view (ds @ [d]) j = Some m \<longleftrightarrow>
        ((rdoc_view ds)(rdoc_Identifier d \<mapsto> repoDocToDomain d)) j = Some m"
      using fresh by (auto simp: rdoc_view_iff [OF ok'] rdoc_view_iff [OF ok] image_iff)
  qed
qed

definition repo_mongo_ok :: "'w RepoDB \<Rightarrow> ('w \<Rightarrow> mongoRepositoryDoc list) \<Rightarrow> bool" where
  "repo_mongo_ok D docs \<longleftrightarrow>
     collection_ok rdoc_Identifier (rdb_coll D) docs \<and> counters_keep (rdb_counters D) docs \<and>
     keeps docs (rdb_now D)"

locale repo_mongo =
  fixes D :: "'w RepoDB" and docs :: "'w \<Rightarrow> mongoRepositoryDoc list"
  assumes mongo: "repo_mongo_ok D docs"
begin

lemma coll_ok: "collection_ok rdoc_Identifier (rdb_coll D) docs"
  and counters_keep: "counters_keep (rdb_counters D) docs"
  and now_keeps: "keeps docs (rdb_now D)"
  using mongo by (auto simp: repo_mongo_ok_def)

lemma rec_write_law:
  assumes P: "\<And>t d. rdoc_live i d \<Longrightarrow> rdoc_Identifier (f t d) = i \<and> P (repoDocToDomain d) (repoDocToDomain (f t d))"
  shows "repo_write (\<lambda>w. rdoc_view (docs w)) (\<lambda>w. rdocs_ok (docs w)) i P
    (State_Monad.bind (rdb_now D) (\<lambda>now. rmongo_update_one D label (rdoc_live i) (f now)))"
  unfolding repo_write_def
proof (intro allI tripleI)
  fix V w r w'
  assume w: "rdocs_ok (docs w) \<and> rdoc_view (docs w) = V"
    and run: "run_state (State_Monad.bind (rdb_now D)
      (\<lambda>now. rmongo_update_one D label (rdoc_live i) (f now))) w = (r, w')"
  obtain t w1 where t: "run_state (rdb_now D) w = (t, w1)" by (meson surj_pair)
  have d1: "docs w1 = docs w" by (rule keepsD [OF now_keeps t])
  obtain y w2 where y: "run_state (UpdateOne (rdb_coll D) (rdoc_live i) (f t)) w1 = (y, w2)"
    by (meson surj_pair)
  let ?wrote = "\<exists>m m'. V i = Some m \<and> rr_DeleteTime m = None \<and> P m m' \<and> rdoc_view (docs w2) = V(i \<mapsto> m')"
  have upd: "rdocs_ok (docs w2) \<and> ?wrote"
    if "docs w = xs @ d # ys" "rdoc_live i d" "docs w2 = xs @ f t d # ys" for xs d ys
  proof -
    have r: "rdocs_ok (docs w2)" "rdoc_view (docs w2) = V(i \<mapsto> repoDocToDomain (f t d))"
      using rdoc_view_replace [of xs d ys i "f t d"] w that P [OF that(2), of t] by auto
    have "V i = Some (repoDocToDomain d)"
      using w that by (auto simp: rdoc_view_iff)
    moreover have "rr_DeleteTime (repoDocToDomain d) = None"
      using that by (simp add: repoDocToDomain_def)
    ultimately show ?thesis using r P [OF that(2), of t] by blast
  qed
  have law: "let updated = (\<exists>xs d ys. docs w = xs @ d # ys \<and> rdoc_live i d \<and> docs w2 = xs @ f t d # ys)
      in case y of Inr n \<Rightarrow> if n = 0 then (\<forall>d\<in>set (docs w). \<not> rdoc_live i d) \<and> docs w2 = docs w else updated
         | Inl _ \<Rightarrow> docs w2 = docs w \<or> updated"
    using collection_UpdateOne [OF coll_ok y] unfolding d1 .
  have "w' = w2" "r = (case y of Inl e \<Rightarrow> Inl (wrap_error (''repository: '' @ label @ '' failed: '') e [])
      | Inr n \<Rightarrow> if n = 0 then Inl repo_ErrRepositoryNotFound else Inr ())"
    using run t y by (auto simp: run_state_bind rmongo_update_one_def io_unfold split: sum.splits if_splits)
  with law upd w show "rdocs_ok (docs w') \<and>
      (let wrote = (\<exists>m m'. V i = Some m \<and> rr_DeleteTime m = None \<and> P m m' \<and> rdoc_view (docs w') = V(i \<mapsto> m'))
       in case r of Inr _ \<Rightarrow> wrote | Inl e \<Rightarrow> rdoc_view (docs w') = V \<or> \<not> domain_error e \<and> wrote)"
    by (cases y) (auto simp: Let_def split: if_splits)
qed

end

lemma repo_doc_fields:
  "rr_Identifier (repoDocToDomain d) = rdoc_Identifier d" "rr_OwnerUserId (repoDocToDomain d) = rdoc_OwnerUserID d"
  "rr_DeleteTime (repoDocToDomain d) = rdoc_DeleteTime d" "rr_State (repoDocToDomain d) = rdoc_State d"
  "rr_Provider (repoDocToDomain d) = rdoc_Provider d"
  by (simp_all add: repoDocToDomain_def)

lemma repo_query_admits: "repo_list_query f d \<Longrightarrow> repo_filter_admits f (repoDocToDomain d)"
  unfolding repo_list_query_def repo_filter_admits_def repo_doc_fields by (rule conjunct2)

context repo_mongo
begin

lemma GetByID_mongo:
  "triple (\<lambda>w. rdocs_ok (docs w) \<and> rdoc_view (docs w) = V) (rmongo_GetByID D i False)
     (\<lambda>r w. rdocs_ok (docs w) \<and> rdoc_view (docs w) = V \<and>
        (case r of Inr m \<Rightarrow> V i = Some m \<and> rr_Identifier m = i \<and> rr_DeleteTime m = None
                 | Inl e \<Rightarrow> e = repo_ErrRepositoryNotFound \<longrightarrow>
                     (\<forall>m. V i = Some m \<longrightarrow> rr_DeleteTime m \<noteq> None)))"
proof (rule tripleI)
  fix w r w'
  assume w: "rdocs_ok (docs w) \<and> rdoc_view (docs w) = V"
    and run: "run_state (rmongo_GetByID D i False) w = (r, w')"
  obtain y w1 where y: "run_state (FindOne (rdb_coll D) (rdoc_live i)) w = (y, w1)" by (meson surj_pair)
  have law: "docs w1 = docs w \<and> (case y of Inl _ \<Rightarrow> True | Inr None \<Rightarrow> \<forall>d\<in>set (docs w). \<not> rdoc_live i d
      | Inr (Some d) \<Rightarrow> d \<in> set (docs w) \<and> rdoc_live i d)"
    by (rule collection_FindOne [OF coll_ok y])
  have out: "w' = w1" "r = (case y of Inl e \<Rightarrow> Inl (wrap_error ''repository: find one failed: '' e [])
      | Inr None \<Rightarrow> Inl repo_ErrRepositoryNotFound | Inr (Some d) \<Rightarrow> Inr (repoDocToDomain d))"
    using run y by (auto simp: rmongo_GetByID_def io_unfold split: sum.splits option.splits)
  have iff: "V j = Some m \<longleftrightarrow> (\<exists>d\<in>set (docs w). rdoc_Identifier d = j \<and> repoDocToDomain d = m)" for j m
    using w rdoc_view_iff by metis
  have wr: "wrap_error p e [] \<noteq> repo_ErrRepositoryNotFound" for p e
    by (simp add: wrap_error_def repo_errors split: go_error.split)
  show "rdocs_ok (docs w') \<and> rdoc_view (docs w') = V \<and>
        (case r of Inr m \<Rightarrow> V i = Some m \<and> rr_Identifier m = i \<and> rr_DeleteTime m = None
                 | Inl e \<Rightarrow> e = repo_ErrRepositoryNotFound \<longrightarrow>
                     (\<forall>m. V i = Some m \<longrightarrow> rr_DeleteTime m \<noteq> None))"
    using law w out iff by (auto simp: wr repo_doc_fields split: sum.splits option.splits)
qed

lemma List_mongo:
  "triple (\<lambda>w. rdocs_ok (docs w) \<and> rdoc_view (docs w) = V) (rmongo_List D f p)
     (\<lambda>r w. rdocs_ok (docs w) \<and> rdoc_view (docs w) = V \<and>
        (case r of Inl e \<Rightarrow> True
         | Inr (ms, pg) \<Rightarrow> \<forall>m\<in>set ms. V (rr_Identifier m) = Some m \<and>
             rr_DeleteTime m = None \<and> repo_filter_admits f m))"
proof -
  let ?here = "\<lambda>D0 w. docs w = D0 \<and> rdocs_ok D0 \<and> rdoc_view D0 = V"
  have adm: "V (rr_Identifier m) = Some m \<and> rr_DeleteTime m = None \<and> repo_filter_admits f m"
    if "rdocs_ok D0" "rdoc_view D0 = V" "d \<in> set D0" "repo_list_query f d" "m = repoDocToDomain d" for D0 d m
  proof -
    have "V (rdoc_Identifier d) = Some (repoDocToDomain d)"
      using that(1-3) by (auto simp: rdoc_view_iff)
    with repo_query_admits [OF that(4)] that(4,5) show ?thesis
      by (simp add: repo_list_query_def repo_doc_fields)
  qed
  have fnd: "triple (\<lambda>w. docs w = D0) (Find (rdb_coll D) (repo_list_query f) s l)
      (\<lambda>r w. docs w = D0 \<and> (case r of Inl _ \<Rightarrow> True
        | Inr cur \<Rightarrow> triple (\<lambda>w. docs w = D0) cur (\<lambda>r w. docs w = D0 \<and>
            (case r of Inl _ \<Rightarrow> True | Inr ds \<Rightarrow> set ds \<subseteq> {d \<in> set D0. repo_list_query f d}))))" for D0 s l
    using coll_ok unfolding collection_ok_def by blast
  have cnt: "keeps docs (CountDocuments (rdb_coll D) (repo_list_query f))"
    using coll_ok by (simp add: collection_ok_def)
  show ?thesis
  proof (rule tripleI)
    fix w r w'
    assume w: "rdocs_ok (docs w) \<and> rdoc_view (docs w) = V" and run: "run_state (rmongo_List D f p) w = (r, w')"
    obtain y w1 where y: "run_state (Find (rdb_coll D) (repo_list_query f) (repo_list_skip p)
        (uint (GetPageSize p))) w = (y, w1)" by (meson surj_pair)
    note l1 = tripleD [OF fnd y refl]
    show "rdocs_ok (docs w') \<and> rdoc_view (docs w') = V \<and>
        (case r of Inl e \<Rightarrow> True | Inr (ms, pg) \<Rightarrow> \<forall>m\<in>set ms. V (rr_Identifier m) = Some m \<and>
             rr_DeleteTime m = None \<and> repo_filter_admits f m)"
    proof (cases y)
      case (Inl e)
      then have "w' = w1" "isl r" using run y by (auto simp: rmongo_List_def io_unfold)
      with l1 w show ?thesis by (cases r) simp_all
    next
      case (Inr cur)
      obtain z w2 where z: "run_state cur w1 = (z, w2)" by (meson surj_pair)
      obtain c w3 where c: "run_state (CountDocuments (rdb_coll D) (repo_list_query f)) w2 = (c, w3)"
        by (meson surj_pair)
      have cl: "triple (\<lambda>v. docs v = docs w) cur (\<lambda>r v. docs v = docs w \<and>
            (case r of Inl _ \<Rightarrow> True | Inr ds \<Rightarrow> set ds \<subseteq> {d \<in> set (docs w). repo_list_query f d}))"
        using l1 Inr by simp
      have l2: "docs w2 = docs w \<and> (case z of Inl _ \<Rightarrow> True
          | Inr ds \<Rightarrow> set ds \<subseteq> {d \<in> set (docs w). repo_list_query f d})"
        by (rule tripleD [OF cl z]) (use l1 in simp)
      have l3: "docs w3 = docs w2" by (rule keepsD [OF cnt c])
      show ?thesis
      proof (cases z)
        case (Inl e)
        then have "w' = w2" "isl r"
          using run y z \<open>y = Inr cur\<close> by (auto simp: rmongo_List_def io_unfold)
        with l2 w show ?thesis by (cases r) simp_all
      next
        case (Inr ds)
        have "w' = w3" "\<exists>pg. r = Inr (map repoDocToDomain ds, pg)"
          using run y z c \<open>y = Inr cur\<close> Inr by (auto simp: rmongo_List_def io_unfold run_state_bind Let_def)
        moreover have "V (rr_Identifier (repoDocToDomain d)) = Some (repoDocToDomain d) \<and>
            rr_DeleteTime (repoDocToDomain d) = None \<and> repo_filter_admits f (repoDocToDomain d)" if "d \<in> set ds" for d
          by (rule adm [of "docs w" d, OF _ _ _ _ refl]) (use l2 w Inr that in auto)
        ultimately show ?thesis using l2 l3 w by auto
      qed
    qed
  qed
qed

lemma Create_mongo:
  "triple (\<lambda>w. rdocs_ok (docs w) \<and> rdoc_view (docs w) = V) (rmongo_Create D m)
     (\<lambda>r w. rdocs_ok (docs w) \<and>
        (let wrote = (\<lambda>m'. V (rr_Identifier m') = None \<and> repo_created m m' \<and>
                        rdoc_view (docs w) = V(rr_Identifier m' \<mapsto> m'))
         in case r of Inr m' \<Rightarrow> wrote m' | Inl e \<Rightarrow> rdoc_view (docs w) = V \<or> (\<exists>m'. wrote m')))"
proof (rule tripleI)
  fix w r w'
  assume w: "rdocs_ok (docs w) \<and> rdoc_view (docs w) = V" and run: "run_state (rmongo_Create D m) w = (r, w')"
  obtain a w1 where a: "run_state (generateIdentifier (rdb_counters D) repositoriesCollName) w = (a, w1)"
    by (meson surj_pair)
  have d1: "docs w1 = docs w" by (rule keepsD [OF keeps_generateIdentifier [OF counters_keep] a])
  obtain t w2 where t: "run_state (rdb_now D) w1 = (t, w2)" by (meson surj_pair)
  have d2: "docs w2 = docs w" using keepsD [OF now_keeps t] d1 by simp
  show "rdocs_ok (docs w') \<and> (let wrote = (\<lambda>m'. V (rr_Identifier m') = None \<and> repo_created m m' \<and>
                        rdoc_view (docs w') = V(rr_Identifier m' \<mapsto> m'))
         in case r of Inr m' \<Rightarrow> wrote m' | Inl e \<Rightarrow> rdoc_view (docs w') = V \<or> (\<exists>m'. wrote m'))"
  proof (cases a)
    case (Inl e)
    with run a d1 w show ?thesis by (auto simp: rmongo_Create_def io_unfold)
  next
    case (Inr i)
    define doc where "doc = (repoToDoc m)\<lparr>rdoc_Identifier := i, rdoc_CreateTime := t\<rparr>"
    obtain y w3 where y: "run_state (InsertOne (rdb_coll D) doc) w2 = (y, w3)" by (meson surj_pair)
    note law = collection_InsertOne [OF coll_ok y]
    have cr: "repo_created m (repoDocToDomain doc)" "rr_Identifier (repoDocToDomain doc) = i" "rdoc_Identifier doc = i"
      by (cases m; auto simp: repo_created_def doc_def repoToDoc_def repoDocToDomain_def)+
    have ins: "rdocs_ok (docs w3) \<and> V i = None \<and> rdoc_view (docs w3) = V(i \<mapsto> repoDocToDomain doc)"
      if "rdoc_Identifier doc \<notin> rdoc_Identifier ` set (docs w2)" "docs w3 = docs w2 @ [doc]"
      using rdoc_view_insert [of "docs w" doc] that w d2 cr by auto
    have out: "w' = w3" "r = (case y of Inr _ \<Rightarrow> Inr (repoDocToDomain doc)
        | Inl e \<Rightarrow> Inl (if IsDuplicateKeyError (rdb_counters D) e then repo_ErrRepositoryAlreadyExists
            else wrap_error ''repository: insert failed: '' e []))"
      using run a t y Inr by (auto simp: rmongo_Create_def rmongo_insert_def io_unfold run_state_bind Let_def
          doc_def [symmetric] split: sum.splits if_splits)
    show ?thesis
    proof (cases y)
      case (Inl e)
      with law ins out cr w d2 show ?thesis by (auto simp: Let_def)
    next
      case (Inr u)
      with law ins out cr w d2 show ?thesis by (simp add: Let_def)
    qed
  qed
qed

lemma Update_mongo:
  "repo_write (\<lambda>w. rdoc_view (docs w)) (\<lambda>w. rdocs_ok (docs w)) (rr_Identifier r) (repo_stored r) (rmongo_Update D r)"
  unfolding rmongo_Update_def
  by (rule rec_write_law) (auto simp: repo_stored_def repoDocToDomain_def Let_def)

lemma SoftDelete_mongo:
  "repo_write (\<lambda>w. rdoc_view (docs w)) (\<lambda>w. rdocs_ok (docs w)) i repo_deleted (rmongo_SoftDelete D i)"
  unfolding rmongo_SoftDelete_def
  by (rule rec_write_law) (auto simp: repo_deleted_def repoDocToDomain_def)

lemma store_port: "repository_store_port (MongoRepositoryRepository D) (\<lambda>w. rdoc_view (docs w)) (\<lambda>w. rdocs_ok (docs w))"
  by unfold_locales
    (simp_all add: MongoRepositoryRepository_def GetByID_mongo List_mongo Create_mongo Update_mongo SoftDelete_mongo)

end

sublocale repo_mongo \<subseteq> repository_store_port "MongoRepositoryRepository D"
  "\<lambda>w. rdoc_view (docs w)" "\<lambda>w. rdocs_ok (docs w)"
  by (rule store_port)

section \<open>A store in memory\<close>

record repo_mem =
  rm_docs :: "mongoRepositoryDoc list"
  rm_seq :: "u64 option"
  rm_time :: Timestamp

definition repo_mem_counters :: "repo_mem Counters" where
  "repo_mem_counters =
     \<lparr> IncSeq = (\<lambda>s. State (\<lambda>w. case rm_seq w of
           None \<Rightarrow> (Inl (ErrStr ''no documents in result''), w)
         | Some n \<Rightarrow> (Inr (n + 1), w\<lparr>rm_seq := Some (n + 1)\<rparr>))),
       InsertSeq = (\<lambda>s v. State (\<lambda>w. case rm_seq w of
           None \<Rightarrow> (Inr (), w\<lparr>rm_seq := Some v\<rparr>)
         | Some n \<Rightarrow> (Inl (ErrStr ''duplicate key''), w))),
       IsDuplicateKeyError = (\<lambda>e. e = ErrStr ''duplicate key''),
       CtxErr = State_Monad.return None,
       SleepMs = (\<lambda>n. State (\<lambda>w. ((), w\<lparr>rm_time := rm_time w + int n\<rparr>))) \<rparr>"

definition repo_mem_db :: "repo_mem RepoDB" where
  "repo_mem_db =
     \<lparr> rdb_coll = list_coll rm_docs (\<lambda>ds w. w\<lparr>rm_docs := ds\<rparr>) rdoc_Identifier,
       rdb_counters = repo_mem_counters,
       rdb_now = State (\<lambda>w. (rm_time w, w\<lparr>rm_time := rm_time w + 1\<rparr>)) \<rparr>"

lemma repo_mem_db_ok: "repo_mongo_ok repo_mem_db rm_docs"
proof -
  have "collection_ok rdoc_Identifier (list_coll rm_docs (\<lambda>ds w. w\<lparr>rm_docs := ds\<rparr>) rdoc_Identifier) rm_docs"
    by (rule list_coll_ok) simp
  then show ?thesis
    by (auto simp: repo_mongo_ok_def repo_mem_db_def counters_keep_def repo_mem_counters_def keeps_def
        split: option.splits)
qed

interpretation mem_repos: repo_mongo repo_mem_db rm_docs
  by unfold_locales (rule repo_mem_db_ok)

end
