(* ===== verification/Repository_Git.thy ===== *)
theory Repository_Git
  imports Repository_Store Worker_Writers
begin

text \<open>
  The git client of the repository service
  (\<^verbatim>\<open>core/services/repository/infrastructure/repositories/git_client_adapter.go\<close>, ports/git_client.go): the
  probe of a source, the check of a push target, the listing of the branches and the push. \<^verbatim>\<open>net/url\<close>, \<^verbatim>\<open>net/http\<close>, the file
  system and go-git are parameters, the record \<open>GitEnv\<close>. Redirects are followed inside \<open>http_Do\<close>, and so are credentials
  in the URL itself: \<open>rq_BasicAuth\<close> is what the code sets, and where it sets none net/http derives it from the URL.
  The code puts the token into the credentials of a request or a push only.
\<close>

section \<open>What the client calls\<close>

record HttpRequest =
  rq_URL :: string
  rq_UserAgent :: string
  rq_BasicAuth :: "(string \<times> string) option"

text \<open>A reference the remote advertises: its name, its hash, and for a symbolic one its target.\<close>

record GitRef =
  ref_Name :: string
  ref_Hash :: string
  ref_Symbolic :: "string option"

record PushSpec =
  push_Dir :: string
  push_URL :: string
  push_RefSpec :: string
  push_Auth :: "(string \<times> string) option"

record 'w GitEnv =
  url_Parse :: "string \<Rightarrow> go_error + string \<times> string"
  http_NewRequest :: "string \<Rightarrow> go_error option"
  http_Do :: "HttpRequest \<Rightarrow> ('w, int) io"
  remote_List :: "string \<Rightarrow> (string \<times> string) option \<Rightarrow> ('w, GitRef list) io"
  ErrEmptyRemoteRepository :: go_error
  NoErrAlreadyUpToDate :: go_error
  ZeroHash :: string
  os_MkdirTemp :: "('w, string) io"
  os_RemoveAll :: "string \<Rightarrow> ('w, unit) state"
  os_MkdirAll :: "string \<Rightarrow> ('w, unit) io"
  os_WriteFile :: "string \<Rightarrow> string \<Rightarrow> ('w, unit) io"
  git_PlainInit :: "string \<Rightarrow> ('w, unit) io"
  git_SetHead :: "string \<Rightarrow> string \<Rightarrow> ('w, unit) io"
  git_Worktree :: "string \<Rightarrow> ('w, unit) io"
  git_AddAll :: "string \<Rightarrow> ('w, unit) io"
  git_Commit :: "string \<Rightarrow> string \<Rightarrow> ('w, unit) io"
  git_CreateRemote :: "string \<Rightarrow> string \<Rightarrow> ('w, unit) io"
  git_Push :: "PushSpec \<Rightarrow> ('w, unit) io"
  time_RFC3339 :: "('w, string) state"

section \<open>URLs and requests\<close>

text \<open>The parser returns the scheme and the text of the URL.\<close>

definition discovery_URL :: "string \<Rightarrow> 'w GitEnv \<Rightarrow> string \<Rightarrow> go_error + string" where
  "discovery_URL service G remoteURL =
     (case url_Parse G remoteURL of
        Inl e \<Rightarrow> Inl e
      | Inr (scheme, text) \<Rightarrow>
          if scheme = [] \<or> (scheme \<noteq> ''http'' \<and> scheme \<noteq> ''https'')
          then Inl (ErrStr (''unsupported scheme: '' @ scheme))
          else Inr (TrimSuffix text ''/'' @ ''/info/refs?service='' @ service))"

definition buildInfoRefsURL :: "'w GitEnv \<Rightarrow> string \<Rightarrow> go_error + string" where
  "buildInfoRefsURL = discovery_URL ''git-upload-pack''"

definition buildReceivePackURL :: "'w GitEnv \<Rightarrow> string \<Rightarrow> go_error + string" where
  "buildReceivePackURL = discovery_URL ''git-receive-pack''"

definition basic_auth :: "string \<Rightarrow> (string \<times> string) option" where
  "basic_auth token = (if token \<noteq> [] then Some (token, ''x-oauth-basic'') else None)"

definition httpProbe :: "'w GitEnv \<Rightarrow> string \<Rightarrow> string \<Rightarrow> ('w, int) io" where
  "httpProbe G url token =
     (case http_NewRequest G url of
        Some e \<Rightarrow> io_err e
      | None \<Rightarrow> http_Do G \<lparr> rq_URL = url, rq_UserAgent = ''git/2.0'', rq_BasicAuth = basic_auth token \<rparr>)"

definition mentions :: "string \<Rightarrow> string list \<Rightarrow> bool" where
  "mentions text words \<longleftrightarrow> (\<exists>x \<in> set words. Contains text x)"

definition friendlyHTTPError :: "go_error \<Rightarrow> string" where
  "friendlyHTTPError err =
     (let lower = ToLower (error_text err)
      in if mentions lower [''no such host'', ''lookup'', ''dial tcp'']
         then ''Could not resolve the host. Check the URL and your connection.''
         else if mentions lower [''timeout'', ''context deadline'']
         then ''Connection timed out. The host may be unreachable.''
         else ''The remote host could not be reached. Check the URL and your connection.'')"

section \<open>Probing a source\<close>

definition probe_result :: "bool \<Rightarrow> RepositoryVisibility \<Rightarrow> bool \<Rightarrow> string \<Rightarrow> SourceProbeResult" where
  "probe_result reachable vis valid msg =
     \<lparr> sp_Reachable = reachable, sp_Visibility = vis, sp_AuthValid = valid, sp_ErrorMessage = msg \<rparr>"

abbreviation unreachable_source :: "string \<Rightarrow> SourceProbeResult" where
  "unreachable_source msg \<equiv> probe_result False REPOSITORY_VISIBILITY_UNSPECIFIED False msg"

text \<open>The second request, with the token, and what a refusal of it means.\<close>

definition probe_with_token ::
  "'w GitEnv \<Rightarrow> string \<Rightarrow> string \<Rightarrow> SourceProbeResult \<Rightarrow> ('w, SourceProbeResult) io" where
  "probe_with_token G url token refused =
     (if token = [] then io_ok (probe_result True REPOSITORY_VISIBILITY_PRIVATE False [])
      else State_Monad.bind (httpProbe G url token) (\<lambda>r. case r of
          Inl (Panic s) \<Rightarrow> io_err (Panic s)
        | Inl _ \<Rightarrow> io_ok refused
        | Inr status2 \<Rightarrow>
            if status2 \<noteq> 200 then io_ok refused
            else io_ok (probe_result True REPOSITORY_VISIBILITY_PRIVATE True [])))"

definition ProbeSource :: "'w GitEnv \<Rightarrow> string \<Rightarrow> string \<Rightarrow> ('w, SourceProbeResult) io" where
  "ProbeSource G remoteURL token =
     (case buildInfoRefsURL G remoteURL of
        Inl _ \<Rightarrow> io_ok (unreachable_source ''Invalid repository URL.'')
      | Inr url \<Rightarrow>
          State_Monad.bind (httpProbe G url []) (\<lambda>r. case r of
            Inl (Panic s) \<Rightarrow> io_err (Panic s)
          | Inl connErr \<Rightarrow> io_ok (unreachable_source (friendlyHTTPError connErr))
          | Inr status \<Rightarrow>
              if status = 200 then io_ok (probe_result True REPOSITORY_VISIBILITY_PUBLIC True [])
              else if status = 401 \<or> status = 403
              then probe_with_token G url token
                     (probe_result True REPOSITORY_VISIBILITY_PRIVATE False
                        ''Token was rejected by the remote. Verify it has read access.'')
              else if status = 404
              then probe_with_token G url token
                     (unreachable_source ''Repository not found or token has insufficient access.'')
              else io_ok (unreachable_source
                     (''Unexpected response from the remote (HTTP '' @ Itoa status @ '').''))))"

definition git_TestConnection :: "'w GitEnv \<Rightarrow> string \<Rightarrow> string \<Rightarrow> ('w, ConnectionStatus) io" where
  "git_TestConnection G remoteURL token =
     io_bind (ProbeSource G remoteURL token) (\<lambda>result.
       io_ok (if \<not> sp_Reachable result then CONNECTION_STATUS_UNREACHABLE
              else if \<not> sp_AuthValid result then CONNECTION_STATUS_AUTH_FAILED
              else CONNECTION_STATUS_OK))"

section \<open>Checking a push target\<close>

definition is_content_ref :: "GitRef \<Rightarrow> bool" where
  "is_content_ref ref \<longleftrightarrow> HasPrefix (ref_Name ref) ''refs/heads/'' \<or> HasPrefix (ref_Name ref) ''refs/tags/''"

definition targetIsEmpty :: "'w GitEnv \<Rightarrow> string \<Rightarrow> string \<Rightarrow> ('w, bool) io" where
  "targetIsEmpty G targetURL token =
     State_Monad.bind (remote_List G targetURL (basic_auth token)) (\<lambda>r. case r of
       Inl e \<Rightarrow> if e = ErrEmptyRemoteRepository G then io_ok True else io_err e
     | Inr refs \<Rightarrow> io_ok (\<not> list_ex is_content_ref refs))"

definition preflight_result :: "bool \<Rightarrow> bool \<Rightarrow> bool \<Rightarrow> string \<Rightarrow> TargetPreflightResult" where
  "preflight_result reachable push isEmpty msg =
     \<lparr> tp_Reachable = reachable, tp_CanPush = push, tp_Empty = isEmpty, tp_ErrorMessage = msg \<rparr>"

definition PreflightTarget :: "'w GitEnv \<Rightarrow> string \<Rightarrow> string \<Rightarrow> ('w, TargetPreflightResult) io" where
  "PreflightTarget G targetURL writeToken =
     (case buildReceivePackURL G targetURL of
        Inl _ \<Rightarrow> io_ok (preflight_result False False False ''Invalid target repository URL.'')
      | Inr url \<Rightarrow>
          State_Monad.bind (httpProbe G url writeToken) (\<lambda>r. case r of
            Inl (Panic s) \<Rightarrow> io_err (Panic s)
          | Inl connErr \<Rightarrow> io_ok (preflight_result False False False (friendlyHTTPError connErr))
          | Inr status \<Rightarrow>
              if status = 401 \<or> status = 403
              then io_ok (preflight_result True False False
                ''The write token was rejected for push. Verify it has write/push access to the target.'')
              else if status = 404
              then io_ok (preflight_result False False False
                ''Target repository not found. Create the empty repository first, or check the URL and token.'')
              else if status \<noteq> 200
              then io_ok (preflight_result False False False
                (''Unexpected response from the target (HTTP '' @ Itoa status @ '').''))
              else State_Monad.bind (targetIsEmpty G targetURL writeToken) (\<lambda>e. case e of
                     Inl (Panic s) \<Rightarrow> io_err (Panic s)
                   | Inl _ \<Rightarrow> io_ok (preflight_result True True False
                       ''Could not list target refs to confirm the repository is empty.'')
                   | Inr isEmpty \<Rightarrow> io_ok (preflight_result True True isEmpty []))))"

section \<open>Listing branches\<close>

definition mapBranchListError :: "go_error \<Rightarrow> go_error" where
  "mapBranchListError err =
     (let lower = ToLower (error_text err)
      in if mentions lower [''authentication required'', ''authorization failed'', ''invalid credentials'',
              ''invalid username or password'', ''401'', ''403'']
         then repo_ErrForbiddenAccess
         else if mentions lower [''repository not found'', ''not found'', ''404'', ''does not exist'']
         then repo_ErrRepositoryNotFound
         else repo_ErrConnectionFailed)"

text \<open>One reference named HEAD is expected; of several the last one of each kind counts.\<close>

fun head_refs :: "GitRef list \<Rightarrow> string \<times> string \<Rightarrow> string \<times> string" where
  "head_refs [] acc = acc"
| "head_refs (ref # refs) (defaultBranch, headHash) =
     (if ref_Name ref \<noteq> ''HEAD'' then head_refs refs (defaultBranch, headHash)
      else case ref_Symbolic ref of
          Some target \<Rightarrow> head_refs refs (TrimPrefix target ''refs/heads/'', headHash)
        | None \<Rightarrow> head_refs refs (defaultBranch, ref_Hash ref))"

definition branch_of :: "string \<Rightarrow> string \<Rightarrow> string \<Rightarrow> GitRef \<Rightarrow> Branch" where
  "branch_of zero defaultBranch headHash ref =
     (let shortName = TrimPrefix (ref_Name ref) ''refs/heads/'';
          isDefault = (shortName = defaultBranch)
      in \<lparr> br_Name = shortName, br_CommitSha = ref_Hash ref,
           br_IsDefault = (if \<not> isDefault \<and> headHash \<noteq> zero then ref_Hash ref = headHash else isDefault) \<rparr>)"

definition branches_of :: "string \<Rightarrow> GitRef list \<Rightarrow> Branch list" where
  "branches_of zero refs =
     (let (defaultBranch, headHash) = head_refs refs ([], zero)
      in map (branch_of zero defaultBranch headHash) (filter (\<lambda>r. HasPrefix (ref_Name r) ''refs/heads/'') refs))"

definition git_ListBranches :: "'w GitEnv \<Rightarrow> string \<Rightarrow> string \<Rightarrow> ('w, Branch list) io" where
  "git_ListBranches G remoteURL token =
     State_Monad.bind (remote_List G remoteURL (basic_auth token)) (\<lambda>r. case r of
       Inl (Panic s) \<Rightarrow> io_err (Panic s)
     | Inl e \<Rightarrow> io_err (mapBranchListError e)
     | Inr refs \<Rightarrow> io_ok (branches_of (ZeroHash G) refs))"

section \<open>Pushing files\<close>

definition validateRelativePath :: "string \<Rightarrow> go_error option" where
  "validateRelativePath p =
     (if p = [] then Some (ErrStr ''empty path'')
      else if HasPrefix (filepath_Clean p) ''..'' \<or> HasPrefix p ''/''
      then Some (ErrStr ''path escapes repository root'')
      else None)"

definition mapPushError :: "go_error \<Rightarrow> go_error" where
  "mapPushError err =
     (let lower = ToLower (error_text err)
      in if mentions lower [''authentication required'', ''authorization failed'', ''invalid credentials'',
              ''remote: invalid username or password'', ''401'', ''403'']
         then repo_ErrPushAuthFailed
         else if mentions lower [''rejected'', ''non-fast-forward'', ''pre-receive hook'']
         then repo_ErrPushConflict
         else if mentions lower [''no such host'', ''lookup'', ''dial tcp'', ''connection refused'', ''context deadline exceeded'']
         then repo_ErrPushNetworkError
         else repo_ErrInternal)"

text \<open>The shape \<^verbatim>\<open>if err := m; err != nil { return e }\<close>: the error of the call is replaced.\<close>

definition or_fail :: "go_error \<Rightarrow> ('w, 'a) io \<Rightarrow> ('w, 'a) io" where
  "or_fail e m = State_Monad.bind m (\<lambda>r. case r of
     Inl (Panic s) \<Rightarrow> io_err (Panic s) | Inl _ \<Rightarrow> io_err e | Inr x \<Rightarrow> io_ok x)"

definition filepath_Dir :: "string \<Rightarrow> string" where
  "filepath_Dir p = filepath_Clean (rev (dropWhile (\<lambda>c. c \<noteq> CHR ''/'') (rev p)))"

fun push_write_files :: "'w GitEnv \<Rightarrow> string \<Rightarrow> PushFile list \<Rightarrow> ('w, unit) io" where
  "push_write_files G tmpDir [] = io_ok ()"
| "push_write_files G tmpDir (f # fs) =
     (case validateRelativePath (pf_Path f) of
        Some _ \<Rightarrow> io_err repo_ErrMissingPayload
      | None \<Rightarrow>
          let full = filepath_Join [tmpDir, pf_Path f]
          in io_bind (or_fail repo_ErrInternal (os_MkdirAll G (filepath_Dir full))) (\<lambda>_.
             io_bind (or_fail repo_ErrInternal (os_WriteFile G full (pf_Content f))) (\<lambda>_.
             push_write_files G tmpDir fs)))"

definition push_commit_message :: "'w GitEnv \<Rightarrow> string \<Rightarrow> ('w, string) io" where
  "push_commit_message G msg =
     (if msg = []
      then State_Monad.bind (time_RFC3339 G) (\<lambda>now.
             io_ok (''chore: Milton Prism generated output ['' @ now @ '']''))
      else io_ok msg)"

text \<open>The push itself; a remote that is up to date is no error.\<close>

definition push_to_remote :: "'w GitEnv \<Rightarrow> PushSpec \<Rightarrow> ('w, string) io" where
  "push_to_remote G spec =
     State_Monad.bind (git_Push G spec) (\<lambda>r. case r of
       Inr _ \<Rightarrow> io_ok ''main''
     | Inl (Panic s) \<Rightarrow> io_err (Panic s)
     | Inl e \<Rightarrow> if e = NoErrAlreadyUpToDate G then io_ok ''main'' else io_err (mapPushError e))"

definition push_from :: "'w GitEnv \<Rightarrow> string \<Rightarrow> string \<Rightarrow> string \<Rightarrow> PushFile list \<Rightarrow> string \<Rightarrow> ('w, string) io" where
  "push_from G tmpDir targetURL writeToken files commitMessage =
     io_bind (or_fail repo_ErrInternal (git_PlainInit G tmpDir)) (\<lambda>_.
     io_bind (or_fail repo_ErrInternal (git_SetHead G tmpDir ''refs/heads/main'')) (\<lambda>_.
     io_bind (push_write_files G tmpDir files) (\<lambda>_.
     io_bind (or_fail repo_ErrInternal (git_Worktree G tmpDir)) (\<lambda>_.
     io_bind (or_fail repo_ErrInternal (git_AddAll G tmpDir)) (\<lambda>_.
     io_bind (push_commit_message G commitMessage) (\<lambda>msg.
     io_bind (or_fail repo_ErrInternal (git_Commit G tmpDir msg)) (\<lambda>_.
     io_bind (or_fail repo_ErrInternal (git_CreateRemote G tmpDir targetURL)) (\<lambda>_.
     push_to_remote G
       \<lparr> push_Dir = tmpDir, push_URL = targetURL, push_RefSpec = ''refs/heads/main:refs/heads/main'',
         push_Auth = basic_auth writeToken \<rparr>))))))))"

text \<open>The directory is removed on every return.\<close>

definition git_PushResult ::
  "'w GitEnv \<Rightarrow> string \<Rightarrow> string \<Rightarrow> PushFile list \<Rightarrow> string \<Rightarrow> ('w, string) io" where
  "git_PushResult G targetURL writeToken files commitMessage =
     io_bind (or_fail repo_ErrInternal (os_MkdirTemp G)) (\<lambda>tmpDir.
     State_Monad.bind (push_from G tmpDir targetURL writeToken files commitMessage) (\<lambda>r.
     io_ignore (os_RemoveAll G tmpDir) (State_Monad.return r)))"

section \<open>What a probe shows\<close>

text \<open>A request to the discovery address of a URL, without credentials or with the token as the only one.\<close>

definition discovery_request :: "'w GitEnv \<Rightarrow> string \<Rightarrow> string \<Rightarrow> HttpRequest \<Rightarrow> bool" where
  "discovery_request G remoteURL token req \<longleftrightarrow>
     buildInfoRefsURL G remoteURL = Inr (rq_URL req) \<and>
     (rq_BasicAuth req = None \<or> token \<noteq> [] \<and> rq_BasicAuth req = Some (token, ''x-oauth-basic''))"

lemma httpProbe_request:
  assumes "run_state (httpProbe G url token) w = (Inr n, w')"
  shows "\<exists>req. rq_URL req = url \<and> rq_BasicAuth req = basic_auth token \<and> run_state (http_Do G req) w = (Inr n, w')"
  using assms by (auto simp: httpProbe_def split: option.splits intro: exI [of _ "\<lparr> rq_URL = url,
    rq_UserAgent = ''git/2.0'', rq_BasicAuth = basic_auth token \<rparr>"])

lemma probe_with_token_valid:
  assumes "run_state (probe_with_token G url token refused) w = (Inr res, w')" and "sp_AuthValid res"
    and "\<not> sp_AuthValid refused"
  shows "token \<noteq> [] \<and> run_state (httpProbe G url token) w = (Inr 200, w')"
  using assms by (cases "run_state (httpProbe G url token) w")
    (auto simp: probe_with_token_def run_state_bind probe_result_def split: sum.splits go_error.splits if_splits)

lemma ProbeSource_valid:
  assumes run: "run_state (ProbeSource G remoteURL token) w = (Inr res, w')" and valid: "sp_AuthValid res"
  shows "\<exists>req w0. discovery_request G remoteURL token req \<and> run_state (http_Do G req) w0 = (Inr 200, w')"
proof -
  from run valid obtain url where url: "buildInfoRefsURL G remoteURL = Inr url"
    by (cases "buildInfoRefsURL G remoteURL") (auto simp: ProbeSource_def probe_result_def)
  obtain r w1 where r: "run_state (httpProbe G url []) w = (r, w1)" by (meson surj_pair)
  have "(r = Inr 200 \<and> w' = w1) \<or> (token \<noteq> [] \<and> run_state (httpProbe G url token) w1 = (Inr 200, w'))"
  proof (cases r)
    case (Inl e)
    with run valid url r show ?thesis
      by (auto simp: ProbeSource_def run_state_bind probe_result_def split: go_error.splits)
  next
    case (Inr n)
    with run valid url r show ?thesis
      by (auto simp: ProbeSource_def run_state_bind dest!: probe_with_token_valid split: if_splits)
        (auto simp: probe_result_def)
  qed
  then show ?thesis
  proof
    assume "r = Inr 200 \<and> w' = w1"
    with r have "run_state (httpProbe G url []) w = (Inr 200, w')" by simp
    from httpProbe_request [OF this] url show ?thesis
      by (auto simp: discovery_request_def basic_auth_def)
  next
    assume a: "token \<noteq> [] \<and> run_state (httpProbe G url token) w1 = (Inr 200, w')"
    from httpProbe_request [OF conjunct2 [OF a]] a url show ?thesis
      by (auto simp: discovery_request_def basic_auth_def)
  qed
qed

lemma TestConnection_ok:
  assumes "run_state (git_TestConnection G remoteURL token) w = (Inr CONNECTION_STATUS_OK, w')"
  shows "\<exists>req w0. discovery_request G remoteURL token req \<and> run_state (http_Do G req) w0 = (Inr 200, w')"
proof -
  from assms obtain res where "run_state (ProbeSource G remoteURL token) w = (Inr res, w')" "sp_AuthValid res"
    by (auto simp: git_TestConnection_def io_unfold split: prod.splits sum.splits if_splits)
  then show ?thesis by (rule ProbeSource_valid)
qed

section \<open>Where a push writes\<close>

definition inside :: "string \<Rightarrow> string \<Rightarrow> bool" where
  "inside d p \<longleftrightarrow> p = d \<or> HasPrefix p (d @ ''/'')"

lemma climbing_stays:
  "st \<noteq> [] \<Longrightarrow> last st = ''..'' \<Longrightarrow>
     clean_components False cs st \<noteq> [] \<and> hd (clean_components False cs st) = ''..''"
proof (induction cs arbitrary: st)
  case Nil
  then show ?case by (simp add: hd_rev)
next
  case (Cons c cs)
  from Cons.prems obtain t ts where st: "st = t # ts" by (cases st) auto
  have "ts \<noteq> [] \<and> last ts = ''..''" if "t \<noteq> ''..''" using Cons.prems st that by (auto split: if_splits)
  with Cons.IH [of ts] Cons.IH [of st] Cons.IH [of "c # st"] Cons.prems st show ?case by (cases "t = ''..''") auto
qed

text \<open>A relative path whose clean form does not start with \<open>..\<close> takes nothing away from the components below it.\<close>

lemma clean_components_append:
  assumes "\<forall>t \<in> set st. t \<noteq> ''..''" and "clean_components False cs st = [] \<or> hd (clean_components False cs st) \<noteq> ''..''"
  shows "clean_components True cs (st @ base) = rev base @ clean_components False cs st"
  using assms
proof (induction cs arbitrary: st)
  case Nil
  then show ?case by simp
next
  case (Cons c cs)
  show ?case
  proof (cases "c = ''..''")
    case False
    with Cons.IH [of "c # st"] Cons.IH [of st] Cons.prems show ?thesis by (auto split: if_splits)
  next
    case True
    show ?thesis
    proof (cases st)
      case Nil
      have "hd (clean_components False cs [''..'']) = ''..'' \<and> clean_components False cs [''..''] \<noteq> []"
        using climbing_stays [of "[''..'']" cs] by simp
      with Cons.prems True Nil show ?thesis by simp
    next
      case (Cons t ts)
      with Cons.IH [of ts] Cons.prems True show ?thesis by auto
    qed
  qed
qed

lemma clean_components_step:
  "clean_components rooted (cs @ ds) st = clean_components rooted ds (rev (clean_components rooted cs st))"
  by (induction rooted cs st rule: clean_components.induct) (auto split: list.splits)

lemma split_by_append: "q c \<Longrightarrow> split_by q (a @ c # b) = split_by q a @ split_by q b"
  by (induction a) (auto split: list.splits)

lemma strings_Join_append:
  "xs \<noteq> [] \<Longrightarrow> ys \<noteq> [] \<Longrightarrow> strings_Join (xs @ ys) sep = strings_Join xs sep @ sep @ strings_Join ys sep"
proof (induction xs)
  case (Cons x xs)
  then show ?case by (cases xs; cases ys) auto
qed simp

text \<open>An absolute directory in its clean form, other than the root.\<close>

definition clean_dir :: "string \<Rightarrow> bool" where
  "clean_dir d \<longleftrightarrow> HasPrefix d ''/'' \<and> filepath_Clean d = d \<and> d \<noteq> ''/''"

lemma validated_inside:
  assumes d: "clean_dir d" and p: "validateRelativePath p = None"
  shows "inside d (filepath_Join [d, p])"
proof -
  define base where "base = clean_components True (strings_Split d (CHR ''/'')) []"
  define pc where "pc = clean_components False (strings_Split p (CHR ''/'')) []"
  from p have p1: "p \<noteq> []" "\<not> HasPrefix (filepath_Clean p) ''..''" "\<not> HasPrefix p ''/''"
    by (auto simp: validateRelativePath_def split: if_splits)
  from d have d1: "d = ''/'' @ strings_Join base ''/''" "d \<noteq> ''/''" "HasPrefix d ''/''"
    by (auto simp: clean_dir_def filepath_Clean_def base_def Let_def)
  then have base: "base \<noteq> []" by auto
  have clean_p: "filepath_Clean p = (if pc = [] then ''.'' else strings_Join pc ''/'')"
    using p1 by (simp add: filepath_Clean_def pc_def Let_def)
  have pc: "pc = [] \<or> hd pc \<noteq> ''..''"
  proof (cases pc)
    case (Cons x xs)
    with p1(2) clean_p show ?thesis by (cases xs) (auto simp: HasPrefix_def)
  qed simp
  have "clean_components True (strings_Split p (CHR ''/'')) ([] @ rev base) = rev (rev base) @ pc"
    unfolding pc_def by (rule clean_components_append) (use pc in \<open>simp_all add: pc_def\<close>)
  then have comps: "clean_components True (strings_Split (d @ ''/'' @ p) (CHR ''/'')) [] = base @ pc"
    by (simp add: strings_Split_def split_by_append clean_components_step base_def)
  have "HasPrefix (d @ ''/'' @ p) ''/''" using d1(3) by (cases d) (auto simp: HasPrefix_def)
  then have "filepath_Join [d, p] = ''/'' @ strings_Join (base @ pc) ''/''"
    using p1(1) d1 comps by (simp add: filepath_Join_def filepath_Clean_def Let_def)
  then show ?thesis
    using d1(1) base by (cases "pc = []") (simp_all add: inside_def strings_Join_append HasPrefix_def)
qed

text \<open>What is outside the directory: no operation on a path inside it changes \<open>obs\<close>.\<close>

definition confined :: "'w GitEnv \<Rightarrow> ('w \<Rightarrow> 'v) \<Rightarrow> string \<Rightarrow> bool" where
  "confined G obs d \<longleftrightarrow>
     (\<forall>p. inside d p \<longrightarrow> keeps obs (os_MkdirAll G (filepath_Dir p)) \<and> (\<forall>c. keeps obs (os_WriteFile G p c))) \<and>
     keeps obs (git_PlainInit G d) \<and> (\<forall>r. keeps obs (git_SetHead G d r)) \<and> keeps obs (git_Worktree G d) \<and>
     keeps obs (git_AddAll G d) \<and> (\<forall>m. keeps obs (git_Commit G d m)) \<and>
     (\<forall>u. keeps obs (git_CreateRemote G d u)) \<and> keeps obs (os_RemoveAll G d) \<and> keeps obs (time_RFC3339 G)"

lemma keeps_or_fail: "keeps obs m \<Longrightarrow> keeps obs (or_fail e m)"
  unfolding or_fail_def by (auto intro!: keeps_bind split: sum.split go_error.split)

lemma keeps_io_bind2:
  assumes "keeps obs m" and "\<And>x w w'. run_state m w = (Inr x, w') \<Longrightarrow> keeps obs (f x)"
  shows "keeps obs (io_bind m f)"
  unfolding keeps_def run_io_bind
  by (auto split: prod.splits sum.splits) (metis assms keepsD)+

lemma push_write_files_keeps:
  assumes d: "clean_dir d" and c: "confined G obs d"
  shows "keeps obs (push_write_files G d files)"
proof (induction files)
  case (Cons f fs)
  show ?case
  proof (cases "validateRelativePath (pf_Path f)")
    case None
    from validated_inside [OF d this] c
    have "keeps obs (os_MkdirAll G (filepath_Dir (filepath_Join [d, pf_Path f])))"
      "keeps obs (os_WriteFile G (filepath_Join [d, pf_Path f]) (pf_Content f))"
      by (auto simp: confined_def)
    with None Cons show ?thesis by (simp add: Let_def keeps_io_bind2 keeps_or_fail)
  qed simp
qed simp

lemma push_write_files_valid:
  "run_state (push_write_files G d files) w = (Inr x, w') \<Longrightarrow> f \<in> set files \<Longrightarrow> validateRelativePath (pf_Path f) = None"
  by (induction files arbitrary: w)
    (auto simp: run_io_bind Let_def split: option.splits prod.splits sum.splits)

lemma push_to_remote_keeps: "keeps obs (git_Push G s) \<Longrightarrow> keeps obs (push_to_remote G s)"
  unfolding push_to_remote_def by (auto intro!: keeps_bind split: sum.split go_error.split)

lemma push_commit_message_keeps: "keeps obs (time_RFC3339 G) \<Longrightarrow> keeps obs (push_commit_message G m)"
  unfolding push_commit_message_def by (auto intro!: keeps_bind)

lemma push_from_keeps:
  assumes d: "clean_dir d" and c: "confined G obs d"
    and push: "\<forall>f \<in> set files. validateRelativePath (pf_Path f) = None \<Longrightarrow> \<forall>s. keeps obs (git_Push G s)"
  shows "keeps obs (push_from G d url tok files msg)"
proof -
  note ops = c [unfolded confined_def]
  have "keeps obs (push_to_remote G s)" if "run_state (push_write_files G d files) w = (Inr x, w')" for s w x w'
    by (rule push_to_remote_keeps) (use push push_write_files_valid [OF that] in blast)
  then show ?thesis
    unfolding push_from_def using ops
    by (intro keeps_io_bind2 keeps_or_fail push_write_files_keeps [OF d c] push_commit_message_keeps) simp_all
qed

lemma push_from_rejects:
  assumes "f \<in> set files" and "validateRelativePath (pf_Path f) \<noteq> None"
    and "run_state (push_from G d url tok files msg) w = (r, w')"
  shows "isl r"
  using assms by (auto simp: push_from_def run_io_bind dest: push_write_files_valid split: prod.splits sum.splits)

lemma PushResult_confined:
  assumes tmp: "\<And>w r w'. run_state (os_MkdirTemp G) w = (r, w') \<Longrightarrow> obs w' = obs w \<and>
      (case r of Inl _ \<Rightarrow> True | Inr d \<Rightarrow> clean_dir d \<and> confined G obs d)"
    and push: "\<forall>f \<in> set files. validateRelativePath (pf_Path f) = None \<Longrightarrow> \<forall>s. keeps obs (git_Push G s)"
    and run: "run_state (git_PushResult G url tok files msg) w = (r, w')"
  shows "obs w' = obs w \<and> ((\<exists>f \<in> set files. validateRelativePath (pf_Path f) \<noteq> None) \<longrightarrow> isl r)"
proof -
  obtain x w1 where x: "run_state (os_MkdirTemp G) w = (x, w1)" by (meson surj_pair)
  note t = tmp [OF x]
  show ?thesis
  proof (cases x)
    case (Inl e)
    with run x t show ?thesis
      by (auto simp: git_PushResult_def or_fail_def io_unfold run_state_bind split: go_error.splits)
  next
    case (Inr d)
    with t have d: "clean_dir d" "confined G obs d" "obs w1 = obs w" by simp_all
    obtain y w2 where y: "run_state (push_from G d url tok files msg) w1 = (y, w2)" by (meson surj_pair)
    have "obs w2 = obs w" using keepsD [OF push_from_keeps [OF d(1,2) push] y] d(3) by simp
    moreover have "keeps obs (os_RemoveAll G d)" using d(2) by (simp add: confined_def)
    then have "obs (snd (run_state (os_RemoveAll G d) w2)) = obs w2" by (simp add: keeps_def prod_eq_iff)
    moreover have "r = y" "w' = snd (run_state (os_RemoveAll G d) w2)"
      using run x y Inr by (auto simp: git_PushResult_def or_fail_def io_unfold run_state_bind)
    ultimately show ?thesis using push_from_rejects [OF _ _ y] by auto
  qed
qed

section \<open>The branches of a remote\<close>

text \<open>A remote whose HEAD is a symbolic reference has its target as the only default branch.\<close>

lemma head_refs_symbolic:
  assumes "\<And>r. r \<in> set refs \<Longrightarrow> ref_Name r = ''HEAD'' \<Longrightarrow> ref_Symbolic r = Some (''refs/heads/'' @ b)"
    and "fst acc = b \<or> (\<exists>r \<in> set refs. ref_Name r = ''HEAD'')"
  shows "head_refs refs acc = (b, snd acc)"
  using assms
proof (induction refs acc rule: head_refs.induct)
  case (2 ref refs defaultBranch headHash)
  then show ?case by (auto simp: TrimPrefix_def HasPrefix_def)
qed auto

lemma httpProbe_keeps: "(\<And>q. keeps obs (http_Do G q)) \<Longrightarrow> keeps obs (httpProbe G u t)"
  by (simp add: httpProbe_def split: option.split)

lemma TestConnection_keeps:
  assumes "\<And>q. keeps obs (http_Do G q)"
  shows "keeps obs (git_TestConnection G u t)"
proof -
  have "keeps obs (probe_with_token G x t refused)" for x refused
    unfolding probe_with_token_def
    by (auto intro!: keeps_bind httpProbe_keeps assms split: sum.split go_error.split)
  then have "keeps obs (ProbeSource G u t)"
    unfolding ProbeSource_def by (auto intro!: keeps_bind httpProbe_keeps assms split: sum.split go_error.split)
  then show ?thesis unfolding git_TestConnection_def by (intro keeps_io_bind2) simp_all
qed

lemma ListBranches_keeps: "(\<And>a. keeps obs (remote_List G u a)) \<Longrightarrow> keeps obs (git_ListBranches G u t)"
  unfolding git_ListBranches_def by (auto intro!: keeps_bind split: sum.split go_error.split)

text \<open>
  C31. A push writes inside its temporary directory only. Let \<open>obs\<close> be what can be seen of the world outside that directory: no
  operation of git or of the file system on a path inside it changes \<open>obs\<close>. Then a push keeps \<open>obs\<close>, the push to the
  remote itself apart. If one of the files has a path that is empty, absolute or climbs out of the directory, the remote
  is not pushed to either and the answer is an error.
\<close>

theorem push_stays_inside:
  assumes "\<And>w r w'. run_state (os_MkdirTemp G) w = (r, w') \<Longrightarrow> obs w' = obs w \<and>
      (case r of Inl _ \<Rightarrow> True | Inr d \<Rightarrow> clean_dir d \<and> confined G obs d)"
    and "\<forall>f \<in> set files. validateRelativePath (pf_Path f) = None \<Longrightarrow> \<forall>s. keeps obs (git_Push G s)"
    and "run_state (git_PushResult G url tok files msg) w = (r, w')"
  shows "obs w' = obs w \<and> ((\<exists>f \<in> set files. validateRelativePath (pf_Path f) \<noteq> None) \<longrightarrow> isl r)"
  using assms by (rule PushResult_confined)

text \<open>A world of files and of the number of the pushes; the directory is always the same.\<close>

type_synonym push_world = "(string \<times> string) list \<times> nat"

definition push_env :: "push_world GitEnv" where
  "push_env =
     \<lparr> url_Parse = (\<lambda>u. Inr (''https'', u)), http_NewRequest = (\<lambda>u. None), http_Do = (\<lambda>q. io_ok 200),
       remote_List = (\<lambda>u a. io_ok []), ErrEmptyRemoteRepository = ErrStr ''remote repository is empty'',
       NoErrAlreadyUpToDate = ErrStr ''already up-to-date'', ZeroHash = ''0'',
       os_MkdirTemp = io_ok ''/tmp/prism-push-1'',
       os_RemoveAll = (\<lambda>d. State (\<lambda>(fs, n). ((), filter (\<lambda>(p, c). \<not> inside d p) fs, n))),
       os_MkdirAll = (\<lambda>d. io_ok ()), os_WriteFile = (\<lambda>p c. State (\<lambda>(fs, n). (Inr (), (p, c) # fs, n))),
       git_PlainInit = (\<lambda>d. io_ok ()), git_SetHead = (\<lambda>d r. io_ok ()), git_Worktree = (\<lambda>d. io_ok ()),
       git_AddAll = (\<lambda>d. io_ok ()), git_Commit = (\<lambda>d m. io_ok ()), git_CreateRemote = (\<lambda>d u. io_ok ()),
       git_Push = (\<lambda>s. State (\<lambda>(fs, n). (Inr (), fs, n + 1))), time_RFC3339 = State_Monad.return ''now'' \<rparr>"

definition outside_view :: "push_world \<Rightarrow> (string \<times> string) list \<times> nat" where
  "outside_view w = (filter (\<lambda>(p, c). \<not> inside ''/tmp/prism-push-1'' p) (fst w), snd w)"

lemma push_env_confined: "confined push_env outside_view ''/tmp/prism-push-1''"
  by (auto simp: confined_def push_env_def keeps_def outside_view_def case_prod_unfold filter_filter)

theorem push_stays_inside_witness:
  "let fs = [\<lparr> pf_Path = ''a/b.go'', pf_Content = ''x'' \<rparr>, \<lparr> pf_Path = ''a/../../etc/passwd'', pf_Content = ''y'' \<rparr>];
       out = run_state (git_PushResult push_env ''https://git/x'' ''tok'' fs []) ([(''/etc/passwd'', ''root'')], 0)
   in isl (fst out) \<and> outside_view (snd out) = ([(''/etc/passwd'', ''root'')], 0)"
proof -
  let ?fs = "[\<lparr> pf_Path = ''a/b.go'', pf_Content = ''x'' \<rparr>, \<lparr> pf_Path = ''a/../../etc/passwd'', pf_Content = ''y'' \<rparr>]"
  have unsafe: "validateRelativePath ''a/../../etc/passwd'' \<noteq> None" by code_simp
  have dir: "clean_dir ''/tmp/prism-push-1''" by code_simp
  have view: "outside_view ([(''/etc/passwd'', ''root'')], 0) = ([(''/etc/passwd'', ''root'')], 0)" by code_simp
  have tmp: "outside_view w' = outside_view w \<and> (case r of Inl _ \<Rightarrow> True | Inr d \<Rightarrow> clean_dir d \<and> confined push_env outside_view d)"
    if "run_state (os_MkdirTemp push_env) w = (r, w')" for w r w'
  proof -
    from that have "r = Inr ''/tmp/prism-push-1''" "w' = w" by (auto simp: push_env_def)
    then show ?thesis using dir push_env_confined by simp
  qed
  from push_stays_inside [OF tmp _ prod.collapse [symmetric], of ?fs "''https://git/x''" "''tok''" "[]"
      "([(''/etc/passwd'', ''root'')], 0)"] unsafe view
  show ?thesis by (simp add: Let_def)
qed

end
