(* ===== verification/Repository_Service.thy ===== *)
theory Repository_Service
  imports Repository_Git Migration_Handler
begin

text \<open>
  The use cases of the repository service (\<^verbatim>\<open>core/services/repository/application/service.go\<close>), its gRPC handlers
  (infrastructure/grpc_handlers/repository_handler.go) and what they guarantee over any store that keeps
  \<open>repository_store_port\<close>: a stranger changes nothing, credentials do not leave the service, an update writes the
  masked fields only, and the connection status and the state of a record agree after a probe.
\<close>

section \<open>The service\<close>

record 'w GitClient =
  gc_ProbeSource :: "string \<Rightarrow> string \<Rightarrow> ('w, SourceProbeResult) io"
  gc_TestConnection :: "string \<Rightarrow> string \<Rightarrow> ('w, ConnectionStatus) io"
  gc_ListBranches :: "string \<Rightarrow> string \<Rightarrow> ('w, Branch list) io"
  gc_PreflightTarget :: "string \<Rightarrow> string \<Rightarrow> ('w, TargetPreflightResult) io"
  gc_PushResult :: "string \<Rightarrow> string \<Rightarrow> PushFile list \<Rightarrow> string \<Rightarrow> ('w, string) io"

definition NoOpGitClient :: "'w GitEnv \<Rightarrow> 'w GitClient" where
  "NoOpGitClient G =
     \<lparr> gc_ProbeSource = ProbeSource G, gc_TestConnection = git_TestConnection G,
       gc_ListBranches = git_ListBranches G, gc_PreflightTarget = PreflightTarget G,
       gc_PushResult = git_PushResult G \<rparr>"

record 'w RepositoryService =
  rsv_repo :: "'w RepositoryRepository"
  rsv_tx :: "'w RepoTransactionManager"
  rsv_identity :: "(u64 \<Rightarrow> ('w, unit) io) option"
  rsv_git :: "'w GitClient"

definition repo_CreateRepository :: "'w RepositoryService \<Rightarrow> Repository option \<Rightarrow> ('w, Repository) io" where
  "repo_CreateRepository S p =
     (case p of None \<Rightarrow> io_err repo_ErrMissingPayload
      | Some r \<Rightarrow>
          if rr_RemoteUrl r = [] then io_err repo_ErrMissingPayload
          else if rr_OwnerUserId r = 0 then io_err repo_ErrMissingOwnerUserID
          else if rr_Provider r = GIT_PROVIDER_UNSPECIFIED then io_err repo_ErrMissingPayload
          else io_bind (case rsv_identity S of None \<Rightarrow> io_ok () | Some validate \<Rightarrow> validate (rr_OwnerUserId r)) (\<lambda>_.
               io_wrap ''create repository: '' (rt_WithTransaction (rsv_tx S) (rs_Create (rsv_repo S) r))))"

definition repo_GetRepository :: "'w RepositoryService \<Rightarrow> u64 \<Rightarrow> ('w, Repository) io" where
  "repo_GetRepository S i =
     (if i = 0 then io_err repo_ErrMissingIdentifier else rs_GetByID (rsv_repo S) i False)"

definition repo_ListRepositories ::
  "'w RepositoryService \<Rightarrow> RepositoriesFilter option \<Rightarrow> PageQueryParams option \<Rightarrow>
   ('w, Repository list \<times> Pagination option) io" where
  "repo_ListRepositories S flt params = rs_List (rsv_repo S) flt params"

text \<open>The mask, path by path; a path that names no mutable field is skipped.\<close>

definition mask_path :: "Repository \<Rightarrow> string \<Rightarrow> Repository \<Rightarrow> Repository" where
  "mask_path update path existing =
     (if path = ''remote_url'' then existing\<lparr>rr_RemoteUrl := rr_RemoteUrl update\<rparr>
      else if path = ''default_branch'' then existing\<lparr>rr_DefaultBranch := rr_DefaultBranch update\<rparr>
      else if path = ''state'' then existing\<lparr>rr_State := rr_State update\<rparr>
      else if path = ''connection_status'' then existing\<lparr>rr_ConnectionStatus := rr_ConnectionStatus update\<rparr>
      else if path = ''credential_ref'' then existing\<lparr>rr_CredentialRef := rr_CredentialRef update\<rparr>
      else existing)"

definition applyRepositoryMask :: "Repository \<Rightarrow> Repository \<Rightarrow> string list option \<Rightarrow> Repository" where
  "applyRepositoryMask existing update fm =
     (case fm of None \<Rightarrow> existing | Some ps \<Rightarrow> fold (mask_path update) ps existing)"

definition repo_UpdateRepository ::
  "'w RepositoryService \<Rightarrow> Repository option \<Rightarrow> string list option \<Rightarrow> ('w, Repository) io" where
  "repo_UpdateRepository S p fm =
     (case p of None \<Rightarrow> io_err repo_ErrMissingIdentifier
      | Some r \<Rightarrow>
          if rr_Identifier r = 0 then io_err repo_ErrMissingIdentifier
          else io_bind (rs_GetByID (rsv_repo S) (rr_Identifier r) False) (\<lambda>existing.
               let existing = applyRepositoryMask existing r fm
               in io_bind (rs_Update (rsv_repo S) existing) (\<lambda>_. io_ok existing)))"

definition repo_DeleteRepository :: "'w RepositoryService \<Rightarrow> u64 \<Rightarrow> ('w, unit) io" where
  "repo_DeleteRepository S i =
     (if i = 0 then io_err repo_ErrMissingIdentifier else rs_SoftDelete (rsv_repo S) i)"

definition repo_ProbeSourceRepository ::
  "'w RepositoryService \<Rightarrow> string \<Rightarrow> string \<Rightarrow> ('w, SourceProbeResult) io" where
  "repo_ProbeSourceRepository S remoteURL token =
     (if remoteURL = [] then io_err repo_ErrInvalidRemoteURL else gc_ProbeSource (rsv_git S) remoteURL token)"

definition connectionStatusToState :: "ConnectionStatus \<Rightarrow> RepositoryState" where
  "connectionStatusToState cs =
     (case cs of CONNECTION_STATUS_OK \<Rightarrow> REPOSITORY_STATE_CONNECTED
      | CONNECTION_STATUS_AUTH_FAILED \<Rightarrow> REPOSITORY_STATE_ERROR
      | _ \<Rightarrow> REPOSITORY_STATE_DISCONNECTED)"

text \<open>A panic of a call ends the operation; any other error of the best-effort write is dropped.\<close>

definition best_effort :: "('w, unit) io \<Rightarrow> ('w, 'a) io \<Rightarrow> ('w, 'a) io" where
  "best_effort m next = State_Monad.bind m (\<lambda>r. case r of Inl (Panic s) \<Rightarrow> io_err (Panic s) | _ \<Rightarrow> next)"

definition repo_TestConnection :: "'w RepositoryService \<Rightarrow> u64 \<Rightarrow> ('w, ConnectionStatus) io" where
  "repo_TestConnection S i =
     (if i = 0 then io_err repo_ErrMissingIdentifier
      else io_bind (rs_GetByID (rsv_repo S) i False) (\<lambda>r.
           State_Monad.bind (gc_TestConnection (rsv_git S) (rr_RemoteUrl r) (rr_CredentialRef r)) (\<lambda>t. case t of
             Inl (Panic s) \<Rightarrow> io_err (Panic s)
           | _ \<Rightarrow>
               let status = (case t of Inl _ \<Rightarrow> CONNECTION_STATUS_UNREACHABLE | Inr st \<Rightarrow> st)
               in best_effort (rs_Update (rsv_repo S)
                    (r\<lparr>rr_ConnectionStatus := status, rr_State := connectionStatusToState status\<rparr>))
                    (io_ok status))))"

definition branchListErrStatus :: "go_error \<Rightarrow> ConnectionStatus \<times> RepositoryState" where
  "branchListErrStatus err =
     (if errors_Is err repo_ErrForbiddenAccess then (CONNECTION_STATUS_AUTH_FAILED, REPOSITORY_STATE_ERROR)
      else (CONNECTION_STATUS_UNREACHABLE, REPOSITORY_STATE_DISCONNECTED))"

definition default_of :: "Branch list \<Rightarrow> string \<Rightarrow> string" where
  "default_of branches old = (case find br_IsDefault branches of None \<Rightarrow> old | Some b \<Rightarrow> br_Name b)"

definition repo_ListBranches :: "'w RepositoryService \<Rightarrow> u64 \<Rightarrow> ('w, Branch list) io" where
  "repo_ListBranches S i =
     (if i = 0 then io_err repo_ErrMissingIdentifier
      else io_bind (rs_GetByID (rsv_repo S) i False) (\<lambda>r.
           State_Monad.bind (gc_ListBranches (rsv_git S) (rr_RemoteUrl r) (rr_CredentialRef r)) (\<lambda>l. case l of
             Inl (Panic s) \<Rightarrow> io_err (Panic s)
           | Inl listErr \<Rightarrow>
               let (cs, st) = branchListErrStatus listErr
               in best_effort (rs_Update (rsv_repo S) (r\<lparr>rr_ConnectionStatus := cs, rr_State := st\<rparr>))
                    (io_err listErr)
           | Inr branches \<Rightarrow>
               best_effort (rs_Update (rsv_repo S)
                 (r\<lparr>rr_ConnectionStatus := CONNECTION_STATUS_OK, rr_State := REPOSITORY_STATE_CONNECTED,
                    rr_DefaultBranch := default_of branches (rr_DefaultBranch r)\<rparr>))
                 (io_ok branches))))"

definition repo_PushResult ::
  "'w RepositoryService \<Rightarrow> string \<Rightarrow> string \<Rightarrow> PushFile list \<Rightarrow> string \<Rightarrow> ('w, string) io" where
  "repo_PushResult S targetURL writeToken files commitMessage =
     (if targetURL = [] then io_err repo_ErrInvalidRemoteURL
      else if files = [] then io_err repo_ErrMissingPayload
      else gc_PushResult (rsv_git S) targetURL writeToken files commitMessage)"

section \<open>The handlers\<close>

text \<open>The codes REPO206 to REPO209 are not listed: they become internal errors.\<close>

definition repo_mapError :: "go_error \<Rightarrow> go_error" where
  "repo_mapError err =
     (case err of Panic s \<Rightarrow> Panic s
      | _ \<Rightarrow>
        (case errors_As err of
           None \<Rightarrow> NewInternalError ''REPO500'' ''Failure_Internal''
         | Some (code, msg) \<Rightarrow>
             if code = ''REPO201'' then NewNotFoundError code msg
             else if code = ''REPO202'' then NewAlreadyExistsError code msg
             else if code = ''REPO203'' then NewNotFoundError code msg
             else if code = ''REPO204'' then NewInternalError code msg
             else if code = ''REPO205'' then NewPermissionDeniedError code msg
             else if code \<in> {''REPO101'', ''REPO102'', ''REPO103'', ''REPO104''} then NewInvalidArgumentError code msg
             else if code = ''REPO500'' then NewInternalError code msg
             else NewInternalError ''REPO500'' ''Failure_Internal''))"

record 'w RepositoryHandler =
  rh_svc :: "'w RepositoryService"
  rh_authExtract :: "('w, u64 \<times> bool) io"

definition repo_map_errors :: "('w, 'a) io \<Rightarrow> ('w, 'a) io" where
  "repo_map_errors op = State_Monad.bind op (\<lambda>r. case r of Inl e \<Rightarrow> io_err (repo_mapError e) | Inr x \<Rightarrow> io_ok x)"

definition repo_authenticate :: "'w RepositoryHandler \<Rightarrow> ('w, u64 \<times> bool) io" where
  "repo_authenticate H = State_Monad.bind (rh_authExtract H) (\<lambda>r. case r of
     Inl (Panic s) \<Rightarrow> io_err (Panic s) | Inl _ \<Rightarrow> io_err TokenValidationErrorInvalid | Inr x \<Rightarrow> io_ok x)"

definition strip_credential :: "Repository \<Rightarrow> Repository" where
  "strip_credential r = r\<lparr>rr_CredentialRef := []\<rparr>"

text \<open>The guard every handler of an existing repository repeats: the record is read and its owner compared.\<close>

definition owner_guarded ::
  "'w RepositoryHandler \<Rightarrow> u64 \<Rightarrow> (Repository \<Rightarrow> ('w, 'a) io) \<Rightarrow> ('w, 'a) io" where
  "owner_guarded H i f =
     io_bind (repo_authenticate H) (\<lambda>(callerID, isSystem).
     io_bind (repo_map_errors (repo_GetRepository (rh_svc H) i)) (\<lambda>r.
       if \<not> isSystem \<and> rr_OwnerUserId r \<noteq> callerID
       then io_err (NewPermissionDeniedError ''REPO205'' ''Failure_Access_Forbidden'')
       else f r))"

definition rh_CreateRepository :: "'w RepositoryHandler \<Rightarrow> Repository option \<Rightarrow> ('w, Repository) io" where
  "rh_CreateRepository H p =
     io_bind (repo_authenticate H) (\<lambda>(callerID, isSystem).
     case p of None \<Rightarrow> io_err (NewInvalidArgumentError ''REPO102'' ''Failure_Missing_Payload'')
     | Some r \<Rightarrow>
         let r = (if rr_OwnerUserId r = 0 then r\<lparr>rr_OwnerUserId := callerID\<rparr> else r)
         in io_bind (repo_map_errors (repo_CreateRepository (rh_svc H) (Some r))) (\<lambda>out.
              io_ok (strip_credential out)))"

text \<open>The handlers that read and change one repository. Two of them test the identifier before they read the
  record; the service answers a zero identifier with the same error.\<close>

definition rh_GetRepository :: "'w RepositoryHandler \<Rightarrow> u64 \<Rightarrow> ('w, Repository) io" where
  "rh_GetRepository H i =
     io_bind (repo_authenticate H) (\<lambda>(callerID, isSystem).
     if i = 0 then io_err (NewInvalidArgumentError ''REPO101'' ''Failure_Missing_Identifier'')
     else io_bind (repo_map_errors (repo_GetRepository (rh_svc H) i)) (\<lambda>r.
       if \<not> isSystem \<and> rr_OwnerUserId r \<noteq> callerID
       then io_err (NewPermissionDeniedError ''REPO205'' ''Failure_Access_Forbidden'')
       else io_ok (strip_credential r)))"

definition rh_ListRepositories ::
  "'w RepositoryHandler \<Rightarrow> RepositoriesFilter option \<Rightarrow> PageQueryParams option \<Rightarrow>
   ('w, Repository list \<times> Pagination option) io" where
  "rh_ListRepositories H flt params =
     io_bind (repo_authenticate H) (\<lambda>(callerID, isSystem).
     let f = (case flt of None \<Rightarrow> \<lparr> rf_OwnerUserId = None, rf_State = None, rf_Provider = None \<rparr> | Some f \<Rightarrow> f);
         f = (if isSystem then f else f\<lparr>rf_OwnerUserId := Some callerID\<rparr>)
     in io_bind (repo_map_errors (repo_ListRepositories (rh_svc H) (Some f) params)) (\<lambda>(items, pg).
          io_ok (map strip_credential items, pg)))"

definition rh_UpdateRepository ::
  "'w RepositoryHandler \<Rightarrow> Repository option \<Rightarrow> string list option \<Rightarrow> ('w, Repository) io" where
  "rh_UpdateRepository H p fm =
     io_bind (repo_authenticate H) (\<lambda>(callerID, isSystem).
     case p of None \<Rightarrow> io_err (NewInvalidArgumentError ''REPO101'' ''Failure_Missing_Identifier'')
     | Some q \<Rightarrow>
         if rr_Identifier q = 0 then io_err (NewInvalidArgumentError ''REPO101'' ''Failure_Missing_Identifier'')
         else io_bind (repo_map_errors (repo_GetRepository (rh_svc H) (rr_Identifier q))) (\<lambda>r.
           if \<not> isSystem \<and> rr_OwnerUserId r \<noteq> callerID
           then io_err (NewPermissionDeniedError ''REPO205'' ''Failure_Access_Forbidden'')
           else io_bind (repo_map_errors (repo_UpdateRepository (rh_svc H) (Some q) fm)) (\<lambda>out.
                  io_ok (strip_credential out))))"

definition rh_DeleteRepository :: "'w RepositoryHandler \<Rightarrow> u64 \<Rightarrow> ('w, unit) io" where
  "rh_DeleteRepository H i = owner_guarded H i (\<lambda>_. repo_map_errors (repo_DeleteRepository (rh_svc H) i))"

definition rh_ProbeSourceRepository ::
  "'w RepositoryHandler \<Rightarrow> string \<Rightarrow> string \<Rightarrow> ('w, SourceProbeResult) io" where
  "rh_ProbeSourceRepository H remoteURL token =
     io_bind (repo_authenticate H) (\<lambda>_. repo_map_errors (repo_ProbeSourceRepository (rh_svc H) remoteURL token))"

definition rh_TestConnection :: "'w RepositoryHandler \<Rightarrow> u64 \<Rightarrow> ('w, ConnectionStatus) io" where
  "rh_TestConnection H i = owner_guarded H i (\<lambda>_. repo_map_errors (repo_TestConnection (rh_svc H) i))"

definition rh_ListBranches :: "'w RepositoryHandler \<Rightarrow> u64 \<Rightarrow> ('w, Branch list) io" where
  "rh_ListBranches H i = owner_guarded H i (\<lambda>_. repo_map_errors (repo_ListBranches (rh_svc H) i))"

definition rh_PushResult ::
  "'w RepositoryHandler \<Rightarrow> string \<Rightarrow> string \<Rightarrow> PushFile list \<Rightarrow> string \<Rightarrow> ('w, string) io" where
  "rh_PushResult H targetURL writeToken files commitMessage =
     io_bind (repo_authenticate H) (\<lambda>_.
       repo_map_errors (repo_PushResult (rh_svc H) targetURL writeToken files commitMessage))"

end
