(* ===== verification/Repository_Outcomes.thy ===== *)
theory Repository_Outcomes
  imports Repository_Service
begin

text \<open>
  What the repository service guarantees. The environment of the service is a locale: a store with the contract
  \<open>repository_store_port\<close>, a transaction manager, and an identity client and a git client that do not touch the
  store. It is interpreted on the service over a collection kept in memory.
\<close>

section \<open>The environment of the service\<close>

definition repo_tx_ok :: "'w RepoTransactionManager \<Rightarrow> ('w \<Rightarrow> 'v) \<Rightarrow> bool" where
  "repo_tx_ok T obs \<longleftrightarrow>
     (\<forall>fn w r w'. run_state (rt_WithTransaction T fn) w = (r, w') \<longrightarrow>
        (\<exists>e. r = Inl e \<and> obs w' = obs w) \<or>
        (\<exists>w1 r1 w2. obs w1 = obs w \<and> run_state fn w1 = (r1, w2) \<and> obs w' = obs w2 \<and>
           (r = r1 \<or> (\<exists>e. r = Inl e))))"

definition repo_clients_keep :: "'w RepositoryService \<Rightarrow> ('w \<Rightarrow> 'v) \<Rightarrow> bool" where
  "repo_clients_keep S obs \<longleftrightarrow>
     (\<forall>f i. rsv_identity S = Some f \<longrightarrow> keeps obs (f i)) \<and>
     (\<forall>u t. keeps obs (gc_TestConnection (rsv_git S) u t)) \<and>
     (\<forall>u t. keeps obs (gc_ListBranches (rsv_git S) u t))"

locale repository_service_env = repository_store_port R view ok
  for R :: "'w RepositoryRepository" and view :: "'w \<Rightarrow> u64 \<Rightarrow> Repository option" and ok :: "'w \<Rightarrow> bool" +
  fixes S :: "'w RepositoryService"
  assumes repo_S: "rsv_repo S = R"
    and transactions: "repo_tx_ok (rsv_tx S) (\<lambda>w. (ok w, view w))"
    and clients: "repo_clients_keep S (\<lambda>w. (ok w, view w))"
begin

definition holds :: "(u64 \<Rightarrow> Repository option) \<Rightarrow> 'w \<Rightarrow> bool" where
  "holds V w \<longleftrightarrow> ok w \<and> view w = V"

lemma holds_keeps: "keeps (\<lambda>w. (ok w, view w)) m \<Longrightarrow> run_state m w = (r, w') \<Longrightarrow> holds V w \<Longrightarrow> holds V w'"
  by (auto simp: holds_def dest: keepsD)

lemma GetByID_run:
  assumes "run_state (rs_GetByID R i False) w = (r, w')" and "holds V w"
  shows "holds V w' \<and> (case r of Inl _ \<Rightarrow> True | Inr m \<Rightarrow> V i = Some m \<and> rr_Identifier m = i \<and> rr_DeleteTime m = None)"
  using tripleD [OF GetByID_law assms(1)] assms(2) by (auto simp: holds_def split: sum.splits)

lemma Update_run:
  assumes "run_state (rs_Update R q) w = (r, w')" and "holds V w"
  shows "ok w' \<and> (view w' = V \<or> (\<exists>m m'. V (rr_Identifier q) = Some m \<and> rr_DeleteTime m = None \<and>
      repo_stored q m m' \<and> view w' = V(rr_Identifier q \<mapsto> m'))) \<and>
    (r = Inr () \<longrightarrow> (\<exists>m m'. V (rr_Identifier q) = Some m \<and> rr_DeleteTime m = None \<and>
      repo_stored q m m' \<and> view w' = V(rr_Identifier q \<mapsto> m')))"
proof -
  have "triple (\<lambda>w. ok w \<and> view w = V) (rs_Update R q) (\<lambda>r w. ok w \<and>
      (let wrote = (\<exists>m m'. V (rr_Identifier q) = Some m \<and> rr_DeleteTime m = None \<and> repo_stored q m m' \<and>
          view w = V(rr_Identifier q \<mapsto> m'))
       in case r of Inr _ \<Rightarrow> wrote | Inl e \<Rightarrow> view w = V \<or> (\<not> domain_error e \<and> wrote)))"
    using Update_law unfolding repo_write_def by blast
  from tripleD [OF this assms(1)] assms(2) show ?thesis by (auto simp: holds_def Let_def split: sum.splits)
qed

lemma GetRepository_run:
  assumes "run_state (repo_GetRepository S i) w = (r, w')" and "holds V w"
  shows "holds V w' \<and> (case r of Inl _ \<Rightarrow> True
    | Inr m \<Rightarrow> i \<noteq> 0 \<and> V i = Some m \<and> rr_Identifier m = i \<and> rr_DeleteTime m = None)"
  using assms GetByID_run [of i w r w' V]
  by (auto simp: repo_GetRepository_def repo_S split: if_splits sum.splits)

text \<open>The guard: the operation behind it runs only for the owner or a system user, in a world with the same records.\<close>

lemma owner_guarded_run:
  assumes H: "rh_svc H = S" and keep: "keeps (\<lambda>w. (ok w, view w)) (rh_authExtract H)" and w: "holds V w"
    and run: "run_state (owner_guarded H i f) w = (r, w')"
  shows "(isl r \<and> holds V w') \<or>
    (\<exists>caller sys w0 w1 m. run_state (rh_authExtract H) w = (Inr (caller, sys), w0) \<and>
       (sys \<or> rr_OwnerUserId m = caller) \<and> i \<noteq> 0 \<and> V i = Some m \<and> rr_Identifier m = i \<and> rr_DeleteTime m = None \<and>
       holds V w1 \<and> run_state (f m) w1 = (r, w'))"
proof -
  obtain a w0 where a: "run_state (rh_authExtract H) w = (a, w0)" by (meson surj_pair)
  have w0: "holds V w0" by (rule holds_keeps [OF keep a w])
  show ?thesis
  proof (cases a)
    case (Inl e)
    with run a w0 show ?thesis
      by (auto simp: owner_guarded_def repo_authenticate_def run_io_bind run_state_bind split: go_error.splits)
  next
    case (Inr c)
    obtain x w1 where x: "run_state (repo_GetRepository S i) w0 = (x, w1)" by (meson surj_pair)
    note get = GetRepository_run [OF x w0]
    obtain caller sys where c: "c = (caller, sys)" by (cases c)
    have auth: "run_state (repo_authenticate H) w = (Inr (caller, sys), w0)"
      using a Inr c by (simp add: repo_authenticate_def run_state_bind)
    show ?thesis
    proof (cases x)
      case (Inl e)
      with run auth x get H show ?thesis
        by (auto simp: owner_guarded_def repo_map_errors_def run_io_bind run_state_bind)
    next
      case (Inr m)
      with run auth x H have r: "(if \<not> sys \<and> rr_OwnerUserId m \<noteq> caller
          then (Inl (NewPermissionDeniedError ''REPO205'' ''Failure_Access_Forbidden''), w1)
          else run_state (f m) w1) = (r, w')"
        by (auto simp: owner_guarded_def repo_map_errors_def run_io_bind run_state_bind split: if_splits)
      show ?thesis
      proof (cases "\<not> sys \<and> rr_OwnerUserId m \<noteq> caller")
        case True
        with r get Inr show ?thesis by auto
      next
        case False
        with r get Inr a \<open>a = Inr c\<close> c show ?thesis by auto
      qed
    qed
  qed
qed

end

section \<open>The handlers behind the guard\<close>

text \<open>Two handlers test the identifier first; the guard gives the same error for the zero identifier.\<close>

lemma io_bind_io_err [simp]: "io_bind (io_err e) f = io_err e"
  by (simp add: io_bind_def)

lemma zero_identifier:
  "repo_map_errors (io_err repo_ErrMissingIdentifier) = io_err (NewInvalidArgumentError ''REPO101'' ''Failure_Missing_Identifier'')"
  by (simp add: repo_map_errors_def repo_mapError_def repo_errors)

lemma rh_GetRepository_guarded:
  "rh_GetRepository H i = owner_guarded H i (\<lambda>r. io_ok (strip_credential r))"
  by (cases "i = 0") (simp_all add: rh_GetRepository_def owner_guarded_def repo_GetRepository_def zero_identifier)

lemma rh_UpdateRepository_guarded:
  "rh_UpdateRepository H (Some q) fm = owner_guarded H (rr_Identifier q)
     (\<lambda>_. io_bind (repo_map_errors (repo_UpdateRepository (rh_svc H) (Some q) fm)) (\<lambda>out. io_ok (strip_credential out)))"
  by (cases "rr_Identifier q = 0")
    (simp_all add: rh_UpdateRepository_def owner_guarded_def repo_GetRepository_def zero_identifier)

text \<open>A request that addresses a repository, its answer dropped.\<close>

datatype repo_request =
    RepoGet u64
  | RepoUpdate Repository "string list option"
  | RepoDelete u64
  | RepoTest u64
  | RepoBranches u64

fun repo_addressed :: "repo_request \<Rightarrow> u64" where
  "repo_addressed (RepoGet i) = i"
| "repo_addressed (RepoUpdate q fm) = rr_Identifier q"
| "repo_addressed (RepoDelete i) = i"
| "repo_addressed (RepoTest i) = i"
| "repo_addressed (RepoBranches i) = i"

fun repo_handle :: "'w RepositoryHandler \<Rightarrow> repo_request \<Rightarrow> ('w, unit) io" where
  "repo_handle H (RepoGet i) = void (rh_GetRepository H i)"
| "repo_handle H (RepoUpdate q fm) = void (rh_UpdateRepository H (Some q) fm)"
| "repo_handle H (RepoDelete i) = void (rh_DeleteRepository H i)"
| "repo_handle H (RepoTest i) = void (rh_TestConnection H i)"
| "repo_handle H (RepoBranches i) = void (rh_ListBranches H i)"

lemma void_owner_guarded: "void (owner_guarded H i f) = owner_guarded H i (\<lambda>r. void (f r))"
proof -
  have "io_bind (if b then io_err e else f r) (\<lambda>_. io_ok ()) = (if b then io_err e else io_bind (f r) (\<lambda>_. io_ok ()))"
    for b e r by simp
  then show ?thesis by (simp add: void_def owner_guarded_def io_bind_assoc case_prod_unfold)
qed

lemma repo_handle_guarded: "\<exists>f. repo_handle H r = owner_guarded H (repo_addressed r) f"
  by (cases r) (auto simp: rh_GetRepository_guarded rh_UpdateRepository_guarded rh_DeleteRepository_def
      rh_TestConnection_def rh_ListBranches_def void_owner_guarded)

section \<open>A service over the MongoDB store\<close>

definition repo_service_over ::
  "'w RepoDB \<Rightarrow> ('w \<Rightarrow> mongoRepositoryDoc list) \<Rightarrow> 'w RepositoryService \<Rightarrow> bool" where
  "repo_service_over D docs S \<longleftrightarrow>
     repo_mongo_ok D docs \<and> rsv_repo S = MongoRepositoryRepository D \<and>
     repo_tx_ok (rsv_tx S) docs \<and> repo_clients_keep S docs"

lemma keeps_of: "keeps docs m \<Longrightarrow> keeps (\<lambda>w. (f (docs w), g (docs w))) m"
  by (auto simp: keeps_def)

lemma repo_service_env:
  assumes "repo_service_over D docs S"
  shows "repository_service_env (MongoRepositoryRepository D) (\<lambda>w. rdoc_view (docs w)) (\<lambda>w. rdocs_ok (docs w)) S"
proof -
  from assms have D: "repo_mongo D docs" by (simp add: repo_service_over_def repo_mongo_def)
  have "repository_service_env_axioms (MongoRepositoryRepository D) (\<lambda>w. rdoc_view (docs w)) (\<lambda>w. rdocs_ok (docs w)) S"
    using assms by unfold_locales
      (auto simp: repo_service_over_def repo_tx_ok_def repo_clients_keep_def intro: keeps_of, metis+)
  then show ?thesis
    by (rule repository_service_env.intro [OF repo_mongo.store_port [OF D]])
qed

text \<open>
  C27. A caller who is neither the owner of a repository nor a system user gets an error from every handler
  that addresses the repository, and no stored repository changes.
\<close>

theorem repository_stranger_changes_nothing:
  assumes "repo_service_over D docs (rh_svc H)" and "keeps docs (rh_authExtract H)" and "rdocs_ok (docs w)"
    and "run_state (rh_authExtract H) w = (Inr (caller, False), w1)"
    and "rdoc_view (docs w) (repo_addressed r) = Some m" and "rr_OwnerUserId m \<noteq> caller"
    and "run_state (repo_handle H r) w = (out, w')"
  shows "isl out \<and> rdoc_view (docs w') = rdoc_view (docs w)"
proof -
  note env = repo_service_env [OF assms(1)]
  obtain f where f: "repo_handle H r = owner_guarded H (repo_addressed r) f" using repo_handle_guarded by blast
  have "repository_service_env.holds (\<lambda>w. rdoc_view (docs w)) (\<lambda>w. rdocs_ok (docs w)) (rdoc_view (docs w)) w"
    using assms(3) by (simp add: repository_service_env.holds_def [OF env])
  from repository_service_env.owner_guarded_run [OF env refl keeps_of [OF assms(2)] this assms(7) [unfolded f]] assms(4-6)
  show ?thesis by (auto simp: repository_service_env.holds_def [OF env])
qed

section \<open>Updates\<close>

definition masked :: "Repository \<Rightarrow> string list \<Rightarrow> Repository \<Rightarrow> Repository" where
  "masked q ps m =
     m\<lparr>rr_RemoteUrl := (if ''remote_url'' \<in> set ps then rr_RemoteUrl q else rr_RemoteUrl m),
       rr_DefaultBranch := (if ''default_branch'' \<in> set ps then rr_DefaultBranch q else rr_DefaultBranch m),
       rr_State := (if ''state'' \<in> set ps then rr_State q else rr_State m),
       rr_ConnectionStatus := (if ''connection_status'' \<in> set ps then rr_ConnectionStatus q else rr_ConnectionStatus m),
       rr_CredentialRef := (if ''credential_ref'' \<in> set ps then rr_CredentialRef q else rr_CredentialRef m)\<rparr>"

lemma applyRepositoryMask_masked: "applyRepositoryMask m q (Some ps) = masked q ps m"
proof -
  have "fold (mask_path q) ps m = masked q ps m"
  proof (induction ps arbitrary: m)
    case (Cons p ps)
    then show ?case by (simp add: mask_path_def masked_def)
  qed (simp add: masked_def)
  then show ?thesis by (simp add: applyRepositoryMask_def)
qed

lemma applyRepositoryMask_get: "applyRepositoryMask m q fm = masked q (case fm of None \<Rightarrow> [] | Some ps \<Rightarrow> ps) m"
  by (cases fm) (simp_all add: applyRepositoryMask_masked, simp add: applyRepositoryMask_def masked_def)

lemma stored_masked:
  "repo_stored (masked q ps m) m m' \<Longrightarrow> \<exists>t. m' = (masked q ps m)
      \<lparr>rr_CredentialRef := (if ''credential_ref'' \<in> set ps \<and> rr_CredentialRef q \<noteq> []
          then rr_CredentialRef q else rr_CredentialRef m), rr_UpdateTime := Some t\<rparr>"
  by (cases m) (auto simp: repo_stored_def masked_def)

context repository_service_env
begin

lemma UpdateRepository_run:
  assumes w: "holds V w" and run: "run_state (repo_UpdateRepository S (Some q) fm) w = (Inr out, w')"
  shows "\<exists>m m'. V (rr_Identifier q) = Some m \<and> rr_DeleteTime m = None \<and> out = applyRepositoryMask m q fm \<and>
    repo_stored out m m' \<and> view w' = V(rr_Identifier q \<mapsto> m')"
proof -
  obtain x w1 where x: "run_state (rs_GetByID R (rr_Identifier q) False) w = (x, w1)" by (meson surj_pair)
  note get = GetByID_run [OF x w]
  from run x obtain m where m: "x = Inr m" by (cases x) (auto simp: repo_UpdateRepository_def repo_S run_io_bind split: if_splits)
  let ?m = "applyRepositoryMask m q fm"
  obtain y w2 where y: "run_state (rs_Update R ?m) w1 = (y, w2)" by (meson surj_pair)
  have w1: "holds V w1" and i: "V (rr_Identifier q) = Some m" "rr_Identifier m = rr_Identifier q" "rr_DeleteTime m = None"
    using get m by auto
  have out: "y = Inr () \<and> out = ?m \<and> w' = w2"
    using run x m y by (auto simp: repo_UpdateRepository_def repo_S run_io_bind Let_def split: if_splits sum.splits)
  have "rr_Identifier ?m = rr_Identifier q" using i by (simp add: applyRepositoryMask_get masked_def)
  with Update_run [OF y w1] out i show ?thesis by auto
qed

lemma rh_update_run:
  assumes "rh_svc H = S" and "keeps (\<lambda>w. (ok w, view w)) (rh_authExtract H)" and "holds V w"
    and "run_state (rh_UpdateRepository H (Some q) (Some ps)) w = (Inr out, w')"
  shows "\<exists>caller sys w0 m t. run_state (rh_authExtract H) w = (Inr (caller, sys), w0) \<and>
    (sys \<or> rr_OwnerUserId m = caller) \<and> V (rr_Identifier q) = Some m \<and> rr_DeleteTime m = None \<and>
    out = strip_credential (masked q ps m) \<and>
    view w' = V(rr_Identifier q \<mapsto> (masked q ps m)
      \<lparr>rr_CredentialRef := (if ''credential_ref'' \<in> set ps \<and> rr_CredentialRef q \<noteq> []
          then rr_CredentialRef q else rr_CredentialRef m), rr_UpdateTime := Some t\<rparr>)"
proof -
  from owner_guarded_run [OF assms(1-3) assms(4) [unfolded rh_UpdateRepository_guarded]]
  obtain caller sys w0 w1 m where a: "run_state (rh_authExtract H) w = (Inr (caller, sys), w0)"
      "sys \<or> rr_OwnerUserId m = caller" "V (rr_Identifier q) = Some m" "holds V w1"
    and run: "run_state (io_bind (repo_map_errors (repo_UpdateRepository (rh_svc H) (Some q) (Some ps)))
      (\<lambda>out. io_ok (strip_credential out))) w1 = (Inr out, w')"
    by auto
  from run obtain o1 where o1: "run_state (repo_UpdateRepository S (Some q) (Some ps)) w1 = (Inr o1, w')" "out = strip_credential o1"
    using assms(1) by (auto simp: run_io_bind repo_map_errors_def run_state_bind split: prod.splits sum.splits)
  from UpdateRepository_run [OF a(4) o1(1)] a(3) obtain m' where
    m': "rr_DeleteTime m = None" "o1 = masked q ps m" "repo_stored o1 m m'" "view w' = V(rr_Identifier q \<mapsto> m')"
    by (auto simp: applyRepositoryMask_masked)
  from stored_masked [OF m'(3) [unfolded m'(2)]] obtain t where "m' = (masked q ps m)
      \<lparr>rr_CredentialRef := (if ''credential_ref'' \<in> set ps \<and> rr_CredentialRef q \<noteq> []
          then rr_CredentialRef q else rr_CredentialRef m), rr_UpdateTime := Some t\<rparr>" by blast
  with a m' o1(2) show ?thesis by blast
qed

end

text \<open>
  C28. A successful update changes one record, which is live and which the caller owns (or the caller is a system
  user): each of the five mutable fields has the new value if the mask names it and the old one if not, except that an empty
  credential reference does not replace the stored one; the time of the update is set. The answer is the updated record
  without its credential.
\<close>

theorem repository_update_masked:
  assumes "repo_service_over D docs (rh_svc H)" and "keeps docs (rh_authExtract H)" and "rdocs_ok (docs w)"
    and "run_state (rh_UpdateRepository H (Some q) (Some ps)) w = (Inr out, w')"
  shows "\<exists>caller sys w0 m t. run_state (rh_authExtract H) w = (Inr (caller, sys), w0) \<and>
    (sys \<or> rr_OwnerUserId m = caller) \<and> rdoc_view (docs w) (rr_Identifier q) = Some m \<and> rr_DeleteTime m = None \<and>
    out = strip_credential (masked q ps m) \<and>
    rdoc_view (docs w') = (rdoc_view (docs w))(rr_Identifier q \<mapsto> (masked q ps m)
      \<lparr>rr_CredentialRef := (if ''credential_ref'' \<in> set ps \<and> rr_CredentialRef q \<noteq> []
          then rr_CredentialRef q else rr_CredentialRef m), rr_UpdateTime := Some t\<rparr>)"
proof -
  note env = repo_service_env [OF assms(1)]
  have "repository_service_env.holds (\<lambda>w. rdoc_view (docs w)) (\<lambda>w. rdocs_ok (docs w)) (rdoc_view (docs w)) w"
    using assms(3) by (simp add: repository_service_env.holds_def [OF env])
  from repository_service_env.rh_update_run [OF env refl keeps_of [OF assms(2)] this assms(4)]
  show ?thesis by simp
qed

section \<open>Probes\<close>

text \<open>What a probe may write: the status with the state that belongs to it, and the default branch.\<close>

definition probe_written :: "Repository \<Rightarrow> Repository \<Rightarrow> bool" where
  "probe_written m m' \<longleftrightarrow>
     (\<exists>cs b t. m' = m\<lparr>rr_ConnectionStatus := cs, rr_State := connectionStatusToState cs, rr_DefaultBranch := b,
                      rr_UpdateTime := Some t\<rparr>)"

context repository_service_env
begin

lemma probe_update:
  assumes "run_state (rs_Update R (m\<lparr>rr_ConnectionStatus := cs, rr_State := st, rr_DefaultBranch := b\<rparr>)) w = (r, w')"
    and w: "holds V w" and m: "V i = Some m" "rr_Identifier m = i" and st: "st = connectionStatusToState cs"
  shows "view w' = V \<or> (\<exists>m'. probe_written m m' \<and> rr_ConnectionStatus m' = cs \<and> view w' = V(i \<mapsto> m'))"
proof -
  let ?q = "m\<lparr>rr_ConnectionStatus := cs, rr_State := st, rr_DefaultBranch := b\<rparr>"
  have "probe_written m m' \<and> rr_ConnectionStatus m' = cs" if stored: "repo_stored ?q m m'" for m'
  proof -
    from stored obtain t where
      "m' = m\<lparr>rr_ConnectionStatus := cs, rr_State := connectionStatusToState cs, rr_DefaultBranch := b, rr_UpdateTime := Some t\<rparr>"
      using st by (cases m) (auto simp: repo_stored_def)
    then show ?thesis unfolding probe_written_def by force
  qed
  with Update_run [OF assms(1,2)] m show ?thesis by auto
qed

lemma same_branch: "m\<lparr>rr_ConnectionStatus := cs, rr_State := st\<rparr> =
    m\<lparr>rr_ConnectionStatus := cs, rr_State := st, rr_DefaultBranch := rr_DefaultBranch m\<rparr>"
  by simp

lemma TestConnection_run:
  assumes w: "holds V w" and run: "run_state (repo_TestConnection S i) w = (r, w')"
  shows "view w' = V \<or> (\<exists>m m'. V i = Some m \<and> probe_written m m' \<and> view w' = V(i \<mapsto> m') \<and>
      (\<forall>cs. r = Inr cs \<longrightarrow> rr_ConnectionStatus m' = cs))"
proof -
  obtain x w1 where x: "run_state (rs_GetByID R i False) w = (x, w1)" by (meson surj_pair)
  note get = GetByID_run [OF x w]
  show ?thesis
  proof (cases "i = 0 \<or> isl x")
    case True
    with run x get w show ?thesis
      by (auto simp: repo_TestConnection_def repo_S run_io_bind holds_def isl_def split: if_splits)
  next
    case False
    then obtain m where m: "x = Inr m" by (cases x) auto
    with get have w1: "holds V w1" and i: "V i = Some m" "rr_Identifier m = i" by auto
    obtain t w2 where t: "run_state (gc_TestConnection (rsv_git S) (rr_RemoteUrl m) (rr_CredentialRef m)) w1 = (t, w2)"
      by (meson surj_pair)
    have w2: "holds V w2" by (rule holds_keeps [OF _ t w1]) (use clients in \<open>simp add: repo_clients_keep_def\<close>)
    show ?thesis
    proof (cases "\<exists>s. t = Inl (Panic s)")
      case True
      with run x m t False w2 show ?thesis
        by (auto simp: repo_TestConnection_def repo_S run_io_bind run_state_bind holds_def split: if_splits)
    next
      case no_panic: False
      define cs where "cs = (case t of Inl _ \<Rightarrow> CONNECTION_STATUS_UNREACHABLE | Inr st \<Rightarrow> st)"
      obtain y w3 where y: "run_state (rs_Update R
          (m\<lparr>rr_ConnectionStatus := cs, rr_State := connectionStatusToState cs\<rparr>)) w2 = (y, w3)" by (meson surj_pair)
      have "w' = w3 \<and> (\<forall>st. r = Inr st \<longrightarrow> st = cs)"
        using run x m t y no_panic False
        by (cases t) (auto simp: repo_TestConnection_def repo_S run_io_bind run_state_bind best_effort_def Let_def
            cs_def split: if_splits sum.splits go_error.splits)
      moreover from y have "run_state (rs_Update R (m\<lparr>rr_ConnectionStatus := cs, rr_State := connectionStatusToState cs,
          rr_DefaultBranch := rr_DefaultBranch m\<rparr>)) w2 = (y, w3)" by (simp only: same_branch [symmetric])
      note probe_update [OF this w2 i refl]
      ultimately show ?thesis using i by auto
    qed
  qed
qed

lemma ListBranches_run:
  assumes w: "holds V w" and run: "run_state (repo_ListBranches S i) w = (r, w')"
  shows "view w' = V \<or> (\<exists>m m'. V i = Some m \<and> probe_written m m' \<and> view w' = V(i \<mapsto> m'))"
proof -
  obtain x w1 where x: "run_state (rs_GetByID R i False) w = (x, w1)" by (meson surj_pair)
  note get = GetByID_run [OF x w]
  show ?thesis
  proof (cases "i = 0 \<or> isl x")
    case True
    with run x get w show ?thesis
      by (auto simp: repo_ListBranches_def repo_S run_io_bind holds_def isl_def split: if_splits)
  next
    case False
    then obtain m where m: "x = Inr m" by (cases x) auto
    with get have w1: "holds V w1" and i: "V i = Some m" "rr_Identifier m = i" by auto
    obtain t w2 where t: "run_state (gc_ListBranches (rsv_git S) (rr_RemoteUrl m) (rr_CredentialRef m)) w1 = (t, w2)"
      by (meson surj_pair)
    have w2: "holds V w2" by (rule holds_keeps [OF _ t w1]) (use clients in \<open>simp add: repo_clients_keep_def\<close>)
    have step: "view w' = V \<or> (\<exists>m'. probe_written m m' \<and> view w' = V(i \<mapsto> m'))"
      if "snd (run_state (rs_Update R (m\<lparr>rr_ConnectionStatus := cs, rr_State := connectionStatusToState cs,
        rr_DefaultBranch := b\<rparr>)) w2) = w'" for cs b
      using probe_update [OF prod.collapse [symmetric] w2 i refl, where cs = cs and b = b] that by auto
    have err: "\<exists>cs. branchListErrStatus e = (cs, connectionStatusToState cs)" for e
      by (simp add: branchListErrStatus_def connectionStatusToState_def)
    show ?thesis
    proof (cases t)
      case (Inr bs)
      with run x m t False have "snd (run_state (rs_Update R (m\<lparr>rr_ConnectionStatus := CONNECTION_STATUS_OK,
          rr_State := connectionStatusToState CONNECTION_STATUS_OK,
          rr_DefaultBranch := default_of bs (rr_DefaultBranch m)\<rparr>)) w2) = w'"
        by (auto simp: repo_ListBranches_def repo_S run_io_bind run_state_bind best_effort_def
            connectionStatusToState_def split: if_splits prod.splits sum.splits go_error.splits)
      from step [OF this] i show ?thesis by auto
    next
      case (Inl e)
      obtain cs where cs: "branchListErrStatus e = (cs, connectionStatusToState cs)" using err by blast
      have "w' = w2 \<or> snd (run_state (rs_Update R (m\<lparr>rr_ConnectionStatus := cs, rr_State := connectionStatusToState cs\<rparr>)) w2) = w'"
        using run x m t False Inl cs
        by (auto simp: repo_ListBranches_def repo_S run_io_bind run_state_bind best_effort_def
            split: if_splits prod.splits sum.splits go_error.splits)
      with step [where cs = cs and b = "rr_DefaultBranch m", unfolded same_branch [symmetric]] i w2 show ?thesis
        by (auto simp: holds_def)
    qed
  qed
qed

lemma rh_probe_run:
  assumes "rh_svc H = S" and "keeps (\<lambda>w. (ok w, view w)) (rh_authExtract H)" and "holds V w"
    and "run_state (repo_handle H r) w = (out, w')" and r: "r = RepoTest i \<or> r = RepoBranches i"
  shows "view w' = V \<or> (\<exists>m m'. V i = Some m \<and> probe_written m m' \<and> view w' = V(i \<mapsto> m'))"
proof -
  obtain f :: "Repository \<Rightarrow> ('w, unit) io" where f: "repo_handle H r = owner_guarded H i f"
    "\<And>m. f m = void (repo_map_errors (repo_TestConnection S i)) \<or> f m = void (repo_map_errors (repo_ListBranches S i))"
    using r assms(1) by (auto simp: rh_TestConnection_def rh_ListBranches_def void_owner_guarded)
  from owner_guarded_run [OF assms(1-3) assms(4) [unfolded f(1)]]
  consider "holds V w'" | m w1 where "holds V w1" "run_state (f m) w1 = (out, w')" by auto
  then show ?thesis
  proof cases
    case 1
    then show ?thesis by (simp add: holds_def)
  next
    case 2
    then have "snd (run_state (repo_TestConnection S i) w1) = w' \<or> snd (run_state (repo_ListBranches S i) w1) = w'"
      using f(2) [of m]
      by (auto simp: run_void repo_map_errors_def run_state_bind split: prod.splits sum.splits)
    with TestConnection_run [OF 2(1) prod.collapse [symmetric], of i]
      ListBranches_run [OF 2(1) prod.collapse [symmetric], of i]
    show ?thesis by auto
  qed
qed

end

text \<open>
  C29. A test of the connection or a listing of the branches, by whoever and however it ends, leaves the stored
  repositories as they were or rewrites the one it addresses so that its state is the one that belongs to its connection status;
  of its other fields only the default branch and the time of the update may change, so the credential, the owner and the
  URL are kept.
\<close>

theorem repository_probe_in_sync:
  assumes "repo_service_over D docs (rh_svc H)" and "keeps docs (rh_authExtract H)" and "rdocs_ok (docs w)"
    and "r = RepoTest i \<or> r = RepoBranches i" and "run_state (repo_handle H r) w = (out, w')"
  shows "rdoc_view (docs w') = rdoc_view (docs w) \<or>
    (\<exists>m cs b t. rdoc_view (docs w) i = Some m \<and> rdoc_view (docs w') = (rdoc_view (docs w))(i \<mapsto>
       m\<lparr>rr_ConnectionStatus := cs, rr_State := connectionStatusToState cs, rr_DefaultBranch := b, rr_UpdateTime := Some t\<rparr>))"
proof -
  note env = repo_service_env [OF assms(1)]
  have "repository_service_env.holds (\<lambda>w. rdoc_view (docs w)) (\<lambda>w. rdocs_ok (docs w)) (rdoc_view (docs w)) w"
    using assms(3) by (simp add: repository_service_env.holds_def [OF env])
  from repository_service_env.rh_probe_run [OF env refl keeps_of [OF assms(2)] this assms(5,4)]
  show ?thesis unfolding probe_written_def by metis
qed

text \<open>What a connection that is reported as good rests on.\<close>

context repository_service_env
begin

lemma TestConnection_ok_run:
  assumes w: "holds V w" and git: "rsv_git S = NoOpGitClient G"
    and run: "run_state (repo_TestConnection S i) w = (Inr CONNECTION_STATUS_OK, w')"
  shows "\<exists>m q w0 w1. V i = Some m \<and> discovery_request G (rr_RemoteUrl m) (rr_CredentialRef m) q \<and>
    run_state (http_Do G q) w0 = (Inr 200, w1)"
proof -
  obtain x w1 where x: "run_state (rs_GetByID R i False) w = (x, w1)" by (meson surj_pair)
  note get = GetByID_run [OF x w]
  from run x obtain m where m: "x = Inr m" by (cases x) (auto simp: repo_TestConnection_def repo_S run_io_bind split: if_splits)
  obtain t w2 where t: "run_state (git_TestConnection G (rr_RemoteUrl m) (rr_CredentialRef m)) w1 = (t, w2)"
    by (meson surj_pair)
  have "t = Inr CONNECTION_STATUS_OK"
    using run x m t by (cases t) (auto simp: repo_TestConnection_def repo_S git NoOpGitClient_def run_io_bind
        run_state_bind best_effort_def Let_def split: if_splits prod.splits sum.splits go_error.splits)
  with TestConnection_ok t get m show ?thesis by fastforce
qed

end

text \<open>
  C30. A connection is reported as good only after the remote answered 200 to a request at the discovery address of the URL
  that is stored with the repository, with no credentials or with the stored credential as the only one.
\<close>

theorem connection_ok_after_200:
  assumes "repo_service_over D docs (rh_svc H)" and "keeps docs (rh_authExtract H)" and "rdocs_ok (docs w)"
    and "rsv_git (rh_svc H) = NoOpGitClient G"
    and "run_state (rh_TestConnection H i) w = (Inr CONNECTION_STATUS_OK, w')"
  shows "\<exists>m q w0 w1. rdoc_view (docs w) i = Some m \<and>
    discovery_request G (rr_RemoteUrl m) (rr_CredentialRef m) q \<and> run_state (http_Do G q) w0 = (Inr 200, w1)"
proof -
  note env = repo_service_env [OF assms(1)]
  have "repository_service_env.holds (\<lambda>w. rdoc_view (docs w)) (\<lambda>w. rdocs_ok (docs w)) (rdoc_view (docs w)) w"
    using assms(3) by (simp add: repository_service_env.holds_def [OF env])
  from repository_service_env.owner_guarded_run [OF env refl keeps_of [OF assms(2)] this assms(5) [unfolded rh_TestConnection_def]]
  obtain w1 where w1: "repository_service_env.holds (\<lambda>w. rdoc_view (docs w)) (\<lambda>w. rdocs_ok (docs w)) (rdoc_view (docs w)) w1"
    and run: "run_state (repo_map_errors (repo_TestConnection (rh_svc H) i)) w1 = (Inr CONNECTION_STATUS_OK, w')" by auto
  from run have "run_state (repo_TestConnection (rh_svc H) i) w1 = (Inr CONNECTION_STATUS_OK, w')"
    by (auto simp: repo_map_errors_def run_state_bind split: prod.splits sum.splits)
  from repository_service_env.TestConnection_ok_run [OF env w1 assms(4) this] show ?thesis .
qed

section \<open>Listings\<close>

context repository_service_env
begin

lemma list_run:
  assumes "rh_svc H = S" and keep: "keeps (\<lambda>w. (ok w, view w)) (rh_authExtract H)" and w: "holds V w"
    and auth: "run_state (rh_authExtract H) w = (Inr (caller, False), w0)" and "caller \<noteq> 0"
    and run: "run_state (rh_ListRepositories H flt p) w = (Inr (rs, pg), w')"
  shows "holds V w' \<and> (\<forall>r \<in> set rs. \<exists>m. V (rr_Identifier r) = Some m \<and> r = strip_credential m \<and>
    rr_OwnerUserId m = caller \<and> rr_DeleteTime m = None)"
proof -
  have w0: "holds V w0" by (rule holds_keeps [OF keep auth w])
  define f where "f = (case flt of None \<Rightarrow> \<lparr> rf_OwnerUserId = None, rf_State = None, rf_Provider = None \<rparr> | Some f \<Rightarrow> f)
    \<lparr>rf_OwnerUserId := Some caller\<rparr>"
  obtain x w1 where x: "run_state (rs_List R (Some f) p) w0 = (x, w1)" by (meson surj_pair)
  have lst: "ok w1 \<and> view w1 = V \<and> (case x of Inl e \<Rightarrow> True | Inr (ms, pg) \<Rightarrow> \<forall>m\<in>set ms.
      V (rr_Identifier m) = Some m \<and> rr_DeleteTime m = None \<and> repo_filter_admits (Some f) m)"
    by (rule tripleD [OF List_law x]) (use w0 in \<open>simp add: holds_def\<close>)
  have owner: "rr_OwnerUserId m = caller" if "repo_filter_admits (Some f) m" for m
    using that \<open>caller \<noteq> 0\<close> by (simp add: repo_filter_admits_def f_def)
  have a: "run_state (repo_authenticate H) w = (Inr (caller, False), w0)"
    using auth by (simp add: repo_authenticate_def run_state_bind)
  show ?thesis
  proof (cases x)
    case (Inl e)
    with run a x assms(1) show ?thesis
      by (auto simp: rh_ListRepositories_def run_io_bind repo_map_errors_def run_state_bind repo_ListRepositories_def repo_S
          f_def Let_def)
  next
    case (Inr y)
    obtain ms pg0 where y: "y = (ms, pg0)" by (cases y)
    have "rs = map strip_credential ms" "w' = w1"
      using run a x assms(1) Inr y
      by (auto simp: rh_ListRepositories_def run_io_bind repo_map_errors_def run_state_bind repo_ListRepositories_def repo_S
          f_def Let_def)
    with lst Inr y owner show ?thesis by (auto simp: holds_def strip_credential_def)
  qed
qed

end

text \<open>
  A listing asked for by a user who is not a system user returns live repositories of that user only, whatever owner the
  filter of the request names, each as it is stored but without its credential; and it changes nothing.
\<close>

theorem repository_list_only_own:
  assumes "repo_service_over D docs (rh_svc H)" and "keeps docs (rh_authExtract H)" and "rdocs_ok (docs w)"
    and "run_state (rh_authExtract H) w = (Inr (caller, False), w0)" and "caller \<noteq> 0"
    and "run_state (rh_ListRepositories H flt p) w = (Inr (rs, pg), w')"
  shows "rdoc_view (docs w') = rdoc_view (docs w) \<and>
    (\<forall>r \<in> set rs. \<exists>m. rdoc_view (docs w) (rr_Identifier r) = Some m \<and> r = strip_credential m \<and>
       rr_OwnerUserId m = caller \<and> rr_DeleteTime m = None)"
proof -
  note env = repo_service_env [OF assms(1)]
  have "repository_service_env.holds (\<lambda>w. rdoc_view (docs w)) (\<lambda>w. rdocs_ok (docs w)) (rdoc_view (docs w)) w"
    using assms(3) by (simp add: repository_service_env.holds_def [OF env])
  from repository_service_env.list_run [OF env refl keeps_of [OF assms(2)] this assms(4-6)]
  show ?thesis by (simp add: repository_service_env.holds_def [OF env])
qed

section \<open>The service over the store in memory\<close>

text \<open>The remote is private: it answers 401 to a request without the token.\<close>

definition repo_mem_git :: "repo_mem GitEnv" where
  "repo_mem_git =
     \<lparr> url_Parse = (\<lambda>u. if HasPrefix u ''https://'' then Inr (''https'', u) else Inl (ErrStr ''parse error'')),
       http_NewRequest = (\<lambda>u. None),
       http_Do = (\<lambda>q. io_ok (if rq_BasicAuth q = Some (''tok'', ''x-oauth-basic'') then 200 else 401)),
       remote_List = (\<lambda>u a. io_ok
         [\<lparr> ref_Name = ''HEAD'', ref_Hash = ''0'', ref_Symbolic = Some ''refs/heads/trunk'' \<rparr>,
          \<lparr> ref_Name = ''refs/heads/main'', ref_Hash = ''a1'', ref_Symbolic = None \<rparr>,
          \<lparr> ref_Name = ''refs/heads/trunk'', ref_Hash = ''b2'', ref_Symbolic = None \<rparr>]),
       ErrEmptyRemoteRepository = ErrStr ''remote repository is empty'',
       NoErrAlreadyUpToDate = ErrStr ''already up-to-date'', ZeroHash = ''0'',
       os_MkdirTemp = io_ok ''/tmp/prism-push-1'', os_RemoveAll = (\<lambda>d. State_Monad.return ()),
       os_MkdirAll = (\<lambda>d. io_ok ()), os_WriteFile = (\<lambda>p c. io_ok ()),
       git_PlainInit = (\<lambda>d. io_ok ()), git_SetHead = (\<lambda>d r. io_ok ()), git_Worktree = (\<lambda>d. io_ok ()),
       git_AddAll = (\<lambda>d. io_ok ()), git_Commit = (\<lambda>d m. io_ok ()), git_CreateRemote = (\<lambda>d u. io_ok ()),
       git_Push = (\<lambda>s. io_ok ()), time_RFC3339 = State_Monad.return ''now'' \<rparr>"

definition repo_mem_service :: "repo_mem RepositoryService" where
  "repo_mem_service =
     \<lparr> rsv_repo = MongoRepositoryRepository repo_mem_db, rsv_tx = RepoTransactionManager_of None, rsv_identity = None,
       rsv_git = NoOpGitClient repo_mem_git \<rparr>"

lemma repo_mem_service_over: "repo_service_over repo_mem_db rm_docs repo_mem_service"
proof -
  have "repo_tx_ok (RepoTransactionManager_of None) rm_docs"
    by (auto simp: repo_tx_ok_def RepoTransactionManager_of_def)
  moreover have "repo_clients_keep repo_mem_service rm_docs"
    by (simp add: repo_clients_keep_def repo_mem_service_def NoOpGitClient_def repo_mem_git_def
        TestConnection_keeps ListBranches_keeps)
  ultimately show ?thesis
    using repo_mem_db_ok by (simp add: repo_service_over_def repo_mem_service_def)
qed

interpretation mem_repo_env: repository_service_env "MongoRepositoryRepository repo_mem_db"
  "\<lambda>w. rdoc_view (rm_docs w)" "\<lambda>w. rdocs_ok (rm_docs w)" repo_mem_service
  by (rule repo_service_env [OF repo_mem_service_over])

definition repo_mem_handler :: "u64 \<Rightarrow> repo_mem RepositoryHandler" where
  "repo_mem_handler u = \<lparr> rh_svc = repo_mem_service, rh_authExtract = io_ok (u, False) \<rparr>"

lemma repo_mem_handler_simps [simp]:
  "rh_svc (repo_mem_handler u) = repo_mem_service" "keeps rm_docs (rh_authExtract (repo_mem_handler u))"
  "run_state (rh_authExtract (repo_mem_handler u)) w = (Inr (u, False), w)"
  by (simp_all add: repo_mem_handler_def)

lemma mem_handler_over: "repo_service_over repo_mem_db rm_docs (rh_svc (repo_mem_handler u))"
  by (simp add: repo_mem_service_over)

definition demo_repo_doc :: "u64 \<Rightarrow> u64 \<Rightarrow> mongoRepositoryDoc" where
  "demo_repo_doc i u =
     \<lparr> rdoc_Identifier = i, rdoc_OwnerUserID = u, rdoc_Provider = GIT_PROVIDER_GITHUB, rdoc_RemoteURL = ''https://git/r'',
       rdoc_DefaultBranch = ''main'', rdoc_State = REPOSITORY_STATE_DISCONNECTED,
       rdoc_ConnectionStatus = CONNECTION_STATUS_UNREACHABLE, rdoc_CredentialRef = ''tok'', rdoc_CreateTime = 1,
       rdoc_UpdateTime = None, rdoc_DeleteTime = None, rdoc_PurgeTime = None \<rparr>"

definition repo_world :: repo_mem where
  "repo_world = \<lparr> rm_docs = [demo_repo_doc 1 42, demo_repo_doc 2 43], rm_seq = None, rm_time = 7 \<rparr>"

lemma repo_world_ok: "rdocs_ok (rm_docs repo_world)"
  by (simp add: repo_world_def rdocs_ok_def demo_repo_doc_def)

lemma repo_world_view: "rdoc_view (rm_docs repo_world) 1 = Some (repoDocToDomain (demo_repo_doc 1 42))"
  by (simp add: repo_world_def rdoc_view_def demo_repo_doc_def)

theorem repository_stranger_changes_nothing_witness:
  "isl (fst (run_state (repo_handle (repo_mem_handler 43) (RepoDelete 1)) repo_world)) \<and>
   rdoc_view (rm_docs (snd (run_state (repo_handle (repo_mem_handler 43) (RepoDelete 1)) repo_world))) =
     rdoc_view (rm_docs repo_world)"
  by (rule repository_stranger_changes_nothing [where D = repo_mem_db and docs = rm_docs, OF _ _ repo_world_ok _ _ _ prod.collapse [symmetric]])
    (simp_all add: repo_mem_service_over repo_world_view repo_doc_fields, simp add: demo_repo_doc_def repo_doc_fields)

theorem repository_update_masked_witness:
  "let q = (repoDocToDomain (demo_repo_doc 1 7))\<lparr>rr_DefaultBranch := ''trunk'', rr_CredentialRef := []\<rparr>;
       w' = snd (run_state (rh_UpdateRepository (repo_mem_handler 42) (Some q) (Some [''default_branch'', ''credential_ref''])) repo_world)
   in \<exists>m. rdoc_view (rm_docs w') 1 = Some m \<and> rr_DefaultBranch m = ''trunk'' \<and> rr_CredentialRef m = ''tok'' \<and> rr_OwnerUserId m = 42"
proof -
  let ?q = "(repoDocToDomain (demo_repo_doc 1 7))\<lparr>rr_DefaultBranch := ''trunk'', rr_CredentialRef := []\<rparr>"
  let ?run = "run_state (rh_UpdateRepository (repo_mem_handler 42) (Some ?q) (Some [''default_branch'', ''credential_ref''])) repo_world"
  have "\<not> isl (fst ?run)" by code_simp
  then obtain out where run: "?run = (Inr out, snd ?run)" by (cases "fst ?run") (simp_all add: prod_eq_iff)
  have i: "rr_Identifier ?q = 1" by (simp add: repo_doc_fields demo_repo_doc_def)
  from repository_update_masked [OF mem_handler_over repo_mem_handler_simps(2) repo_world_ok run]
  obtain m t where m: "rdoc_view (rm_docs repo_world) 1 = Some m"
    and v: "rdoc_view (rm_docs (snd ?run)) = (rdoc_view (rm_docs repo_world))(1 \<mapsto> (masked ?q [''default_branch'', ''credential_ref''] m)
      \<lparr>rr_CredentialRef := (if ''credential_ref'' \<in> set [''default_branch'', ''credential_ref''] \<and> rr_CredentialRef ?q \<noteq> []
          then rr_CredentialRef ?q else rr_CredentialRef m), rr_UpdateTime := Some t\<rparr>)"
    unfolding i by blast
  from m have "m = repoDocToDomain (demo_repo_doc 1 42)" by (simp add: repo_world_view)
  then have "rr_CredentialRef m = ''tok''" "rr_OwnerUserId m = 42"
    by (simp_all add: repoDocToDomain_def demo_repo_doc_def)
  then show ?thesis unfolding Let_def v by (simp add: masked_def)
qed

theorem repository_probe_in_sync_witness:
  "let w' = snd (run_state (repo_handle (repo_mem_handler 42) (RepoTest 1)) repo_world)
   in \<exists>m. rdoc_view (rm_docs w') 1 = Some m \<and> rr_ConnectionStatus m = CONNECTION_STATUS_OK \<and>
        rr_State m = REPOSITORY_STATE_CONNECTED \<and> rr_CredentialRef m = ''tok''"
proof -
  let ?run = "run_state (repo_handle (repo_mem_handler 42) (RepoTest 1)) repo_world"
  have st: "map_option rr_ConnectionStatus (rdoc_view (rm_docs (snd ?run)) 1) = Some CONNECTION_STATUS_OK" by code_simp
  from repository_probe_in_sync [where D = repo_mem_db and docs = rm_docs and H = "repo_mem_handler 42" and r = "RepoTest 1" and i = 1,
      OF _ _ repo_world_ok _ prod.collapse [symmetric]] st
  show ?thesis
    by (auto simp: repo_mem_service_over Let_def repo_world_view connectionStatusToState_def)
      (auto simp: repoDocToDomain_def demo_repo_doc_def)
qed

theorem connection_ok_after_200_witness:
  "\<exists>q w0 w1. discovery_request repo_mem_git ''https://git/r'' ''tok'' q \<and> run_state (http_Do repo_mem_git q) w0 = (Inr 200, w1)"
proof -
  let ?run = "run_state (rh_TestConnection (repo_mem_handler 42) 1) repo_world"
  have "fst ?run = Inr CONNECTION_STATUS_OK" by code_simp
  then have "?run = (Inr CONNECTION_STATUS_OK, snd ?run)" by (simp add: prod_eq_iff)
  moreover have "rsv_git (rh_svc (repo_mem_handler 42)) = NoOpGitClient repo_mem_git" by (simp add: repo_mem_service_def)
  ultimately obtain m q w0 w1 where m: "rdoc_view (rm_docs repo_world) 1 = Some m"
    "discovery_request repo_mem_git (rr_RemoteUrl m) (rr_CredentialRef m) q" "run_state (http_Do repo_mem_git q) w0 = (Inr 200, w1)"
    using connection_ok_after_200 [OF mem_handler_over repo_mem_handler_simps(2) repo_world_ok] by blast
  then have "rr_RemoteUrl m = ''https://git/r''" "rr_CredentialRef m = ''tok''"
    by (auto simp: repo_world_view repoDocToDomain_def demo_repo_doc_def)
  with m show ?thesis by metis
qed

theorem repository_list_only_own_witness:
  "case fst (run_state (rh_ListRepositories (repo_mem_handler 42) None (Some (PageQueryParamsDefault\<lparr>pq_PageNumber := 1, pq_PageSize := 10\<rparr>))) repo_world) of
     Inl e \<Rightarrow> False | Inr (rs, pg) \<Rightarrow> map rr_Identifier rs = [1] \<and> (\<forall>r \<in> set rs. rr_CredentialRef r = [])"
proof -
  let ?run = "run_state (rh_ListRepositories (repo_mem_handler 42) None (Some (PageQueryParamsDefault\<lparr>pq_PageNumber := 1, pq_PageSize := 10\<rparr>))) repo_world"
  have r: "case fst ?run of Inl e \<Rightarrow> False | Inr (rs, pg) \<Rightarrow> map rr_Identifier rs = [1]" by code_simp
  then obtain rs pg where rs: "?run = (Inr (rs, pg), snd ?run)"
    by (cases ?run) (auto split: sum.splits)
  have cred: "rr_CredentialRef r = []" if "r \<in> set rs" for r
  proof -
    have nz: "(42 :: u64) \<noteq> 0" by simp
    note own = repository_list_only_own [OF mem_handler_over repo_mem_handler_simps(2) repo_world_ok repo_mem_handler_simps(3) nz rs]
    from bspec [OF conjunct2 [OF own] that] obtain m where "r = strip_credential m" by blast
    then show ?thesis by (simp add: strip_credential_def)
  qed
  have "fst ?run = Inr (rs, pg)" using arg_cong [OF rs, of fst] by (simp only: fst_conv)
  with r cred show ?thesis by simp
qed

end
