(* ===== verification/Spec2Isabelle.thy ===== *)
theory Spec2Isabelle
  imports Migration_Handler Louvain_Outcomes Pipeline_Outcomes Generation_Run Analysis_Outcomes
    Repository_Outcomes
begin

text \<open>
  A verification library for Milton Prism, a Go system that analyses a repository, proposes a decomposition
  into services and generates their code. A migration goes through states: the migration service creates and
  starts it, the analysis worker stores a summary of the repository, the decomposition worker turns the summary
  into a plan, the user approves the plan, the generation worker writes the code, and the service publishes it.
  The services and the workers share two MongoDB collections and call each other through job queues and gRPC.

  \<^bold>\<open>Conventions.\<close> A theory follows one part of the source and keeps its names and the order of its cases; a
  name that clashes has a prefix of its package. A Go struct is a record, an enumeration a datatype, an unsigned
  integer a word of its width, a string a list of bytes. An operation that talks to the outside is of the type
  \<open>('w, 'a) io\<close> of \<open>Prelude\<close>: it takes a world and returns an error or a value, with the new world; an early
  return with an error is \<open>io_err\<close>. Interfaces of Go are records of operations, and the contracts that a client
  relies on are locales, interpreted on the models of the providers.

  \<^bold>\<open>Shared theories.\<close>
  \<^item> \<open>Prelude\<close>: the standard library the code uses, the effect type and generic lemmas.
  \<^item> \<open>Prism_Messages\<close>, \<open>Status_Errors\<close>: the protobuf messages and the status errors (core/shared/error).
  \<^item> \<open>Mongo_Driver\<close>: collections, counters and codecs as records of operations with the laws the repositories
    rely on, and the identifier generator; \<open>Memory_Driver\<close> is an in-memory instance that meets all laws.
  \<^item> \<open>Go_Float\<close>: arithmetic of float64 as rational numbers rounded to 53 bits, ties to even. The exponent
    is unbounded, so overflow and denormal numbers are outside the model; a fused multiply-add would not change
    the two places where a product is added, since one factor is a power of two.

  \<^bold>\<open>The migration service\<close> (core/services/migration).
  \<^item> \<open>Migration_Domain\<close> is domain/errors.go and domain.go; \<open>Migration_Ports\<close> the ports with the locale
    \<open>migration_repository_port\<close>; \<open>Mongo_Migration_Repository\<close> the repository, proved to meet that contract on
    every store that meets the driver's laws.
  \<^item> \<open>Migration_Roadmap\<close> is application/restructuring_profile.go and the export of the roadmap;
    \<open>Migration_Service\<close> is application/service.go and download_deliverable.go; \<open>Migration_Handler\<close> all gRPC
    handlers.
  \<^item> \<open>Migration_Lifecycle\<close> states the abstract life cycle of a migration and proves that every request is a
    step of it; \<open>Migration_Outcomes\<close> says what answers mean: a domain error changed nothing, a failed start
    was rolled back, an approval had passed both gates. The handlers change nothing for a stranger.

  \<^bold>\<open>The analysis service\<close> (core/services/analysis): \<open>Analysis_Repository\<close> (errors.go and the Mongo
  repository) and \<open>Analysis_Service\<close> (service.go and the handlers), with the round trip of summaries, the outcome
  of a run, and the isolation of owners.

  \<^bold>\<open>The repository service\<close> (core/services/repository): \<open>Repository_Store\<close> (the messages, errors.go, the ports and
  the Mongo store, which meets the locale \<open>repository_store_port\<close>), \<open>Repository_Git\<close> (git_client_adapter.go: the
  probes, the branches, the push with the proof that it writes inside its temporary directory) and
  \<open>Repository_Service\<close> (service.go and the handlers). \<open>Repository_Outcomes\<close> proves, in the locale
  \<open>repository_service_env\<close>, the isolation of owners, the effect of a masked update, that the status and the state
  agree after a probe, and what a good connection rests on.

  \<^bold>\<open>The workers.\<close>
  \<^item> \<open>Worker_Writers\<close>: every update that the three workers make to the collections, the life cycle they refine
    when they run alone, and what happens when they interleave with requests: guarded writes keep the terminal
    states, the two unguarded writers do not.
  \<^item> \<open>Decomposition_Domain\<close>, \<open>Infra_Detection\<close>, \<open>Prefix_Allocator\<close>, \<open>Undirected_Graph\<close>, \<open>Louvain\<close>,
    \<open>Cascade_Clusterer\<close>, \<open>Decomposition_Plan\<close>: the stages of core/worker/decomposition: the domain
    types, the classification of modules, the allocator of error prefixes, the graph with its modularity, the
    clusterer and its cascade, and the plan. \<open>Louvain_Outcomes\<close> and \<open>Plan_Outcomes\<close> hold what they promise.
  \<^item> \<open>Table_Map\<close> is the map from tables to services of stage 5, \<open>Decomposition_Pipeline\<close> the run of a job and its
    handler (application/pipeline.go, jobs/decompose_job.go). \<open>Pipeline_Outcomes\<close> composes them with the plan
    writer over the migration store, through the locales \<open>plan_writer_port\<close> and \<open>decompose_env\<close>: what a
    job leaves in the store, that its last attempt settles the migration, and that working copies are removed.
    \<open>Workspace_Acquirer\<close> is the acquirer of those copies (git_workspace_acquirer.go), which removes the directory
    of a failed clone itself.
  \<^item> \<open>Digest\<close>, \<open>Cycles\<close>, \<open>Scorer\<close>: application/distiller.go, cycles.go and scorer.go: the digest, Tarjan's
    algorithm with its correctness proof, and the score with its bounds and monotonicity.
  \<^item> \<open>Technologies\<close>, \<open>Module_Classifiers\<close>, \<open>Module_Report\<close>, \<open>Migrability_Scorer\<close>: the parts of
    core/worker/analysis: the technologies and their versions (application/merge_technologies.go, pipeline.go), the
    classifiers of modules, which agree with the detectors of the decomposition worker, the reports on single
    modules and the stored score. \<open>Analysis_Pipeline\<close> is the run of a job with its stages, the registry of
    languages and the job handler; \<open>Analysis_Outcomes\<close> composes it with the summary writer over the stores,
    through the locales \<open>summary_writer_port\<close>, \<open>analysis_env\<close> and \<open>answering_analysis_env\<close>: the
    summary is well formed, a job changes its own migration only and its last attempt settles it.
  \<^item> \<open>Design_Artifacts\<close>: the collection of the designs, which the decomposition worker writes and the migration
    service and the generation worker read: what was stored reaches the generator, and the two readers agree.
  \<^item> \<open>Generation_Store\<close>, \<open>Generation_Pipeline\<close>: the records and files of core/worker/generation and its run
    (application/pipeline.go) as a machine whose events are the turns of the loop and the calls of the goroutines;
    \<open>Generation_Outcomes\<close>: its slots and attempts are bounded, it ends within ten events per service, and the
    records at its end say what the agent answered. \<open>Error_Aggregator\<close> is error_aggregator.go with the patch of
    a workspace, \<open>Generation_Run\<close> the whole job with its handler and the final state of the migration.

  \<^bold>\<open>Loops, fuel and order.\<close> The two loops of the clusterer are partial functions with the option type, so that
  not returning is \<open>None\<close>; they return in exact arithmetic (\<open>louvain_terminates\<close>). The function \<open>fl\<close> that
  rounds a quotient is an argument; where a theorem needs exact arithmetic it says so. The order in which Go
  iterates over a map is the argument \<open>sched\<close> where it can change the result, and any permutation is allowed. Tarjan's
  recursion has the number of nodes as its fuel, which is always enough. A sort whose order is not total is
  modelled as stable; Go's may permute equal elements.

  \<^bold>\<open>Parameters and hypotheses.\<close> MongoDB, protobuf, job queues, clients of other services, the clock and the
  language model are arguments of the definitions. The hypotheses about them state what their documentation says (a codec decodes
  what it encoded, a filter is applied to the matching documents, a client of another collection leaves this
  one alone) and are met by the in-memory instance, on which the witnesses run. A call of a parameter returns, with
  a value or with an error; parameters that panic or hang are outside the model. So an error value \<open>Panic\<close> stands for
  a panic of the modelled code itself, a nil dereference, and one that a parameter would return counts as an error
  of it like any other: the rollback of a start runs, and an optional stage of a worker goes on. A clusterer that
  does not return, which exact arithmetic excludes, is an error of the scorer that calls it.

  \<^bold>\<open>Not modelled.\<close> Configuration, logging, metrics, the HTTP gateway, tokens and sessions, mail, and the
  generated protobuf code; redirects of HTTP and the work of go-git; the parsers of source code (Python, PHP) and of package manifests; the HTTP clients
  of package registries; the prompts and JSON answers of language models; the container, the agent that generates
  code and its workspace; the assembler of the deliverable's files and the format of its archive; the identity and
  articles services.
\<close>

end
